(* ===== verification/Dvb_Prelude.thy ===== *)
theory Dvb_Prelude
  imports Main "HOL-Library.Word" "HOL-Library.Monad_Syntax"
begin

text \<open>
  Prelude of the DVB core development: the C integer types the driver uses, the error codes its
  functions return, bounds-checked memory copies, and the list and word lemmas that several
  components share.

  Conventions of the whole library.
  \<^item> \<open>u8\<close>, \<open>u16\<close> and \<open>u32\<close> of the kernel are words of that width. An \<open>int\<close> or \<open>size_t\<close> that
    only counts bytes of a buffer is a \<open>nat\<close>, or an \<open>int\<close> where the code lets it go negative.
  \<^item> A function that returns a negative error code or a non-negative value has a result of type
    \<open>cret\<close>: \<open>Inl e\<close> for \<open>return -e\<close>, \<open>Inr n\<close> for \<open>return n\<close>.
  \<^item> \<open>None\<close> in an \<open>option\<close> result of a data-path function means that the C code has no defined
    outcome there: a copy or a read outside its array.
  \<^item> An array is a list; a pointer into the demux's own arrays is the index of the element.
\<close>

unbundle bit_operations_syntax

type_synonym u8 = "8 word"
type_synonym u16 = "16 word"
type_synonym u32 = "32 word"

datatype errno =
    EPERM          \<comment> \<open>also the plain \<open>return -1\<close>\<close>
  | EINTR
  | ENOMEM
  | EFAULT
  | EBUSY
  | ENODEV
  | EINVAL
  | ENFILE
  | EMFILE
  | EWOULDBLOCK
  | ENOSYS
  | EOVERFLOW
  | EUSERS
  | EOPNOTSUPP
  | ETIMEDOUT
  | ERESTARTSYS
  | ENOIOCTLCMD

type_synonym cret = "errno + nat"

text \<open>A call that may also wait forever, or leave its data structures.\<close>

datatype 'a outcome = Returns 'a | Deadlock | Fault

text \<open>The collections the component proofs use.\<close>

named_theorems mem_simps \<open>bounds-checked reads and copies\<close>
named_theorems frame_simps \<open>what an operation leaves unchanged\<close>
named_theorems inv_intros \<open>an operation keeps its component's invariant\<close>


section \<open>Memory\<close>

text \<open>
  \<open>rd xs i\<close> is the read \<open>xs[i]\<close>; \<open>memread xs i n\<close> hands out the \<open>n\<close> bytes at \<open>xs + i\<close>;
  \<open>memcpy d i s j n\<close> is \<open>memcpy(d + i, s + j, n)\<close>. Each is \<open>None\<close> outside the array.
  \<open>blit\<close> is the array after a copy that stays inside it.
\<close>

definition rd :: "'a list \<Rightarrow> nat \<Rightarrow> 'a option" where
  "rd xs i = (if i < length xs then Some (xs ! i) else None)"

definition memread :: "'a list \<Rightarrow> nat \<Rightarrow> nat \<Rightarrow> 'a list option" where
  "memread xs i n = (if i + n \<le> length xs then Some (take n (drop i xs)) else None)"

definition blit :: "'a list \<Rightarrow> nat \<Rightarrow> 'a list \<Rightarrow> 'a list" where
  "blit d i s = take i d @ s @ drop (i + length s) d"

definition memcpy :: "'a list \<Rightarrow> nat \<Rightarrow> 'a list \<Rightarrow> nat \<Rightarrow> nat \<Rightarrow> 'a list option" where
  "memcpy d i s j n =
     (if i + n \<le> length d \<and> j + n \<le> length s
      then Some (blit d i (take n (drop j s))) else None)"

lemma rd_in_range [simp, mem_simps]: "i < length xs \<Longrightarrow> rd xs i = Some (xs ! i)"
  by (simp add: rd_def)

lemma rd_eq_Some_iff: "rd xs i = Some x \<longleftrightarrow> i < length xs \<and> xs ! i = x"
  by (auto simp: rd_def)

lemma memread_in_range [simp, mem_simps]:
  "i + n \<le> length xs \<Longrightarrow> memread xs i n = Some (take n (drop i xs))"
  by (simp add: memread_def)

lemma memcpy_in_range [simp, mem_simps]:
  "i + n \<le> length d \<Longrightarrow> j + n \<le> length s \<Longrightarrow>
     memcpy d i s j n = Some (blit d i (take n (drop j s)))"
  by (simp add: memcpy_def)

lemma memcpy_out_of_range: "length d < i + n \<Longrightarrow> memcpy d i s j n = None"
  by (simp add: memcpy_def)

lemma memcpy_eq_SomeD:
  assumes "memcpy d i s j n = Some d'"
  shows "i + n \<le> length d" "j + n \<le> length s" "d' = blit d i (take n (drop j s))"
  using assms by (auto simp: memcpy_def split: if_splits)

lemma length_blit [simp]: "i + length s \<le> length d \<Longrightarrow> length (blit d i s) = length d"
  by (simp add: blit_def)

lemma take_blit_end:
  "i + length s \<le> length d \<Longrightarrow> take (i + length s) (blit d i s) = take i d @ s"
  by (simp add: blit_def)

lemma take_blit_before: "j \<le> i \<Longrightarrow> i \<le> length d \<Longrightarrow> take j (blit d i s) = take j d"
  by (simp add: blit_def min_def)

lemma blit_Nil [simp]: "blit d i [] = d"
  by (simp add: blit_def)

lemma nth_blit:
  "i + length s \<le> length d \<Longrightarrow> k < length d \<Longrightarrow>
     blit d i s ! k = (if i \<le> k \<and> k < i + length s then s ! (k - i) else d ! k)"
  by (auto simp: blit_def nth_append min_def)


section \<open>Lists\<close>

text \<open>The first index that satisfies a predicate, as the \<open>for (i = 0; i < n; i++)\<close> scans find it.\<close>

fun first_index :: "('a \<Rightarrow> bool) \<Rightarrow> 'a list \<Rightarrow> nat option" where
  "first_index P [] = None"
| "first_index P (x # xs) = (if P x then Some 0 else map_option Suc (first_index P xs))"

lemma first_index_Some:
  "first_index P xs = Some i \<Longrightarrow> i < length xs \<and> P (xs ! i) \<and> (\<forall>j < i. \<not> P (xs ! j))"
proof (induction xs arbitrary: i)
  case Nil
  then show ?case by simp
next
  case (Cons x xs)
  then show ?case
    by (auto simp: less_Suc_eq_0_disj split: if_splits)
qed

lemma first_index_None: "first_index P xs = None \<longleftrightarrow> (\<forall>x \<in> set xs. \<not> P x)"
  by (induction xs) auto

lemma first_index_eq_SomeI:
  assumes "i < length xs" "P (xs ! i)" "\<And>j. j < i \<Longrightarrow> \<not> P (xs ! j)"
  shows "first_index P xs = Some i"
proof (cases "first_index P xs")
  case None
  with assms(1,2) show ?thesis by (auto simp: first_index_None)
next
  case (Some k)
  then have "k < length xs" "P (xs ! k)" "\<forall>j < k. \<not> P (xs ! j)"
    by (auto dest: first_index_Some)
  with assms have "k = i" by (metis linorder_neqE_nat)
  with Some show ?thesis by simp
qed

lemma take_drop_append_drop:
  "i + n \<le> length xs \<Longrightarrow> take i xs @ take n (drop i xs) = take (i + n) xs"
  by (simp add: take_add)

lemma set_list_update_conv:
  "i < length xs \<Longrightarrow> (\<forall>x \<in> set (xs[i := v]). P x) \<longleftrightarrow> P v \<and> (\<forall>j < length xs. j \<noteq> i \<longrightarrow> P (xs ! j))"
  by (auto simp: all_set_conv_all_nth nth_list_update split: if_splits)

lemma map_update_eq: "f v = f (xs ! i) \<Longrightarrow> map f (xs[i := v]) = map f xs"
  by (cases "i < length xs") (simp_all add: map_update list_update_same_conv list_update_beyond)

lemma nth_update_if: "xs[i := v] ! k = (if k = i \<and> i < length xs then v else xs ! k)"
  by (cases "i < length xs") (auto simp: nth_list_update list_update_beyond)


section \<open>Words\<close>

lemma unat_u8_less [simp]: "unat (x :: u8) < 256"
proof -
  have "unat x < 2 ^ LENGTH(8)" by (rule unsigned_less)
  then show ?thesis by simp
qed

lemma unat_u8_le [simp]: "unat (x :: u8) \<le> 255"
  using unat_u8_less [of x] by linarith

lemma unat_and_le: "unat (x AND y) \<le> unat (y :: 'a::len word)"
  by (rule word_and_le1 [THEN word_le_nat_alt [THEN iffD1]])

lemma unat_and_mask_le: "unat y \<le> k \<Longrightarrow> unat (x AND y) \<le> (k :: nat)" for x y :: "'a::len word"
  using unat_and_le [of x y] by linarith

lemma or_disjoint_nat:
  assumes "b < 2 ^ k" shows "a * 2 ^ k OR b = a * 2 ^ k + (b :: nat)"
proof -
  have "push_bit k a AND take_bit k b = 0"
    by (rule bit_eqI) (auto simp: bit_simps)
  moreover have "take_bit k b = b" using assms by (simp add: take_bit_nat_eq_self)
  ultimately show ?thesis by (simp add: disjunctive_add_eq_or push_bit_eq_mult)
qed

end
