(* ===== verification/Ring_Arith.thy ===== *)
theory Ring_Arith
  imports Dvb_Prelude
begin

text \<open>
  Circular buffers. The driver has two of them, \<open>struct dvb_ringbuffer\<close> and
  \<open>struct dmxdev_buffer\<close>, and a third for frontend events. This theory holds what they share: the
  bytes between the two positions of an array (\<open>ring_contents\<close>), the array after a store that may
  wrap (\<open>ring_store\<close>), that a store is the two straight copies the code makes, and the interface
  of a byte queue as a locale, whose clients' facts are proved once.
\<close>

definition ring_dist :: "nat \<Rightarrow> nat \<Rightarrow> nat \<Rightarrow> nat" where
  "ring_dist n r w = (if r \<le> w then w - r else n - r + w)"

definition ring_contents :: "'a list \<Rightarrow> nat \<Rightarrow> nat \<Rightarrow> 'a list" where
  "ring_contents xs r w = map (\<lambda>k. xs ! ((r + k) mod length xs)) [0 ..< ring_dist (length xs) r w]"

definition ring_store :: "'a list \<Rightarrow> nat \<Rightarrow> 'a list \<Rightarrow> 'a list" where
  "ring_store xs w ys =
     (if w + length ys \<le> length xs then blit xs w ys
      else blit (blit xs w (take (length xs - w) ys)) 0 (drop (length xs - w) ys))"

lemma ring_dist_less: "r < n \<Longrightarrow> w < n \<Longrightarrow> ring_dist n r w < n"
  by (auto simp: ring_dist_def)

lemma ring_dist_same [simp]: "ring_dist n r r = 0"
  by (simp add: ring_dist_def)

lemma ring_dist_0_iff: "r < n \<Longrightarrow> w < n \<Longrightarrow> ring_dist n r w = 0 \<longleftrightarrow> r = w"
  by (auto simp: ring_dist_def)

lemma length_ring_contents [simp]: "length (ring_contents xs r w) = ring_dist (length xs) r w"
  by (simp add: ring_contents_def)

lemma ring_contents_same [simp]: "ring_contents xs r r = []"
  by (simp add: ring_contents_def)

lemma nth_ring_contents:
  "k < ring_dist (length xs) r w \<Longrightarrow> ring_contents xs r w ! k = xs ! ((r + k) mod length xs)"
  by (simp add: ring_contents_def)

lemma mod_less_double: "(a :: nat) < n + n \<Longrightarrow> a mod n = (if a < n then a else a - n)"
  by (metis add_diff_inverse_nat le_add_diff_inverse mod_add_self1 mod_if not_less
      nat_add_left_cancel_less)

lemma ring_dist_advance_write:
  assumes "r < n" "w < n" "ring_dist n r w + k < n"
  shows "ring_dist n r ((w + k) mod n) = ring_dist n r w + k"
  using assms by (auto simp: ring_dist_def mod_less_double split: if_splits)

lemma ring_dist_advance_read:
  assumes "r < n" "w < n" "k \<le> ring_dist n r w"
  shows "ring_dist n ((r + k) mod n) w = ring_dist n r w - k"
  using assms by (auto simp: ring_dist_def mod_less_double split: if_splits)

lemma length_ring_store [simp]:
  "w \<le> length xs \<Longrightarrow> length ys \<le> length xs \<Longrightarrow> length (ring_store xs w ys) = length xs"
  by (auto simp: ring_store_def)

lemma nth_ring_store:
  assumes "w < length xs" "length ys \<le> length xs" "k < length xs"
  shows "ring_store xs w ys ! k =
    (if ring_dist (length xs) w k < length ys then ys ! ring_dist (length xs) w k else xs ! k)"
  using assms by (auto simp: ring_store_def nth_blit ring_dist_def)

lemma ring_dist_add:
  assumes "r < n" "w < n" "k < ring_dist n r w"
  shows "ring_dist n w ((r + k) mod n) \<ge> n - ring_dist n r w"
  using assms by (auto simp: ring_dist_def mod_less_double split: if_splits)

lemma ring_dist_self_add: "w < n \<Longrightarrow> k < n \<Longrightarrow> ring_dist n w ((w + k) mod n) = k"
  using ring_dist_advance_write [of w n w k] by simp

text \<open>A store of at most the free bytes appends to the contents.\<close>

lemma ring_contents_store:
  assumes "r < length xs" "w < length xs" "ring_dist (length xs) r w + length ys < length xs"
  shows "ring_contents (ring_store xs w ys) r ((w + length ys) mod length xs)
       = ring_contents xs r w @ ys"
proof (rule nth_equalityI)
  show "length (ring_contents (ring_store xs w ys) r ((w + length ys) mod length xs))
      = length (ring_contents xs r w @ ys)"
    using assms by (simp add: ring_dist_advance_write)
next
  let ?n = "length xs" and ?d = "ring_dist (length xs) r w"
  fix k
  assume "k < length (ring_contents (ring_store xs w ys) r ((w + length ys) mod length xs))"
  with assms have k: "k < ?d + length ys"
    by (simp add: ring_dist_advance_write)
  have pos: "(r + k) mod ?n < ?n" using assms(1) by (intro mod_less_divisor) linarith
  have lhs: "ring_contents (ring_store xs w ys) r ((w + length ys) mod ?n) ! k
      = ring_store xs w ys ! ((r + k) mod ?n)"
    using assms k by (subst nth_ring_contents) (simp_all add: ring_dist_advance_write)
  show "ring_contents (ring_store xs w ys) r ((w + length ys) mod ?n) ! k
      = (ring_contents xs r w @ ys) ! k"
  proof (cases "k < ?d")
    case True
    with assms have "ring_dist ?n w ((r + k) mod ?n) \<ge> ?n - ?d"
      by (intro ring_dist_add) auto
    then have "\<not> ring_dist ?n w ((r + k) mod ?n) < length ys"
      using assms(3) by linarith
    then show ?thesis
      unfolding lhs using True assms pos by (simp add: nth_ring_store nth_append nth_ring_contents)
  next
    case False
    then obtain j where j: "k = ?d + j" "j < length ys"
      using k by (metis add_less_cancel_left le_iff_add not_less)
    have "(r + k) mod ?n = (w + j) mod ?n"
      using assms j by (auto simp: ring_dist_def mod_less_double split: if_splits)
    then have "ring_dist ?n w ((r + k) mod ?n) = j"
      using assms j by (simp add: ring_dist_self_add)
    then show ?thesis
      unfolding lhs using j assms pos by (simp add: nth_ring_store nth_append)
  qed
qed

lemma ring_store_single: "w < length xs \<Longrightarrow> ring_store xs w [b] = xs[w := b]"
  by (simp add: ring_store_def blit_def upd_conv_take_nth_drop)

lemma ring_contents_advance:
  assumes "r < length xs" "w < length xs" "k \<le> ring_dist (length xs) r w"
  shows "ring_contents xs ((r + k) mod length xs) w = drop k (ring_contents xs r w)"
proof (rule nth_equalityI)
  show "length (ring_contents xs ((r + k) mod length xs) w) = length (drop k (ring_contents xs r w))"
    using assms by (simp add: ring_dist_advance_read)
next
  fix i
  assume "i < length (ring_contents xs ((r + k) mod length xs) w)"
  with assms show "ring_contents xs ((r + k) mod length xs) w ! i = drop k (ring_contents xs r w) ! i"
    by (simp add: ring_dist_advance_read nth_ring_contents mod_add_left_eq add.assoc)
qed

text \<open>A read of \<open>k\<close> bytes is one straight copy, or two when it wraps.\<close>

lemma take_ring_contents:
  assumes "r < length xs" "w < length xs" "k \<le> ring_dist (length xs) r w"
  shows "take k (ring_contents xs r w) =
    (if r + k \<le> length xs then take k (drop r xs)
     else drop r xs @ take (k - (length xs - r)) xs)"
proof (rule nth_equalityI)
  show "length (take k (ring_contents xs r w)) =
    length (if r + k \<le> length xs then take k (drop r xs)
            else drop r xs @ take (k - (length xs - r)) xs)"
    using assms by (auto simp: ring_dist_def split: if_splits)
next
  fix i
  assume "i < length (take k (ring_contents xs r w))"
  with assms show "take k (ring_contents xs r w) ! i =
    (if r + k \<le> length xs then take k (drop r xs)
     else drop r xs @ take (k - (length xs - r)) xs) ! i"
    by (auto simp: nth_ring_contents nth_append mod_less_double ring_dist_def add.commute split: if_splits)
qed


section \<open>The byte queue interface\<close>

text \<open>
  What a client of a circular buffer relies on: bytes come out in the order they went in, and a
  put that fits is never lost. \<open>room\<close> is the number of bytes that still fit.
\<close>

locale byte_fifo =
  fixes inv :: "'q \<Rightarrow> bool"
    and contents :: "'q \<Rightarrow> 'b list"
    and room :: "'q \<Rightarrow> nat"
    and put :: "'b list \<Rightarrow> 'q \<Rightarrow> 'q"
    and get :: "nat \<Rightarrow> 'q \<Rightarrow> 'b list \<times> 'q"
  assumes put_inv: "inv q \<Longrightarrow> length xs \<le> room q \<Longrightarrow> inv (put xs q)"
    and put_contents: "inv q \<Longrightarrow> length xs \<le> room q \<Longrightarrow> contents (put xs q) = contents q @ xs"
    and put_room: "inv q \<Longrightarrow> length xs \<le> room q \<Longrightarrow> room (put xs q) = room q - length xs"
    and get_out: "inv q \<Longrightarrow> n \<le> length (contents q) \<Longrightarrow> fst (get n q) = take n (contents q)"
    and get_inv: "inv q \<Longrightarrow> n \<le> length (contents q) \<Longrightarrow> inv (snd (get n q))"
    and get_contents: "inv q \<Longrightarrow> n \<le> length (contents q) \<Longrightarrow>
      contents (snd (get n q)) = drop n (contents q)"
    and get_room: "inv q \<Longrightarrow> n \<le> length (contents q) \<Longrightarrow> room (snd (get n q)) = room q + n"
begin

text \<open>Two puts are one put of the concatenation, as far as a reader can tell.\<close>

lemma put_put_contents:
  assumes "inv q" "length xs + length ys \<le> room q"
  shows "contents (put ys (put xs q)) = contents (put (xs @ ys) q)"
  using assms by (simp add: put_contents put_inv put_room)

lemma get_get_out:
  assumes "inv q" "m + n \<le> length (contents q)"
  shows "fst (get m q) @ fst (get n (snd (get m q))) = fst (get (m + n) q)"
  using assms by (simp add: get_out get_inv get_contents take_add)

text \<open>What was put into an empty queue comes out, whatever else is put behind it.\<close>

lemma put_get_roundtrip:
  assumes "inv q" "contents q = []" "length xs + length ys \<le> room q"
  shows "fst (get (length xs) (put ys (put xs q))) = xs"
  using assms by (simp add: get_out put_contents put_inv put_room)

text \<open>A list of puts, each of which fits, in order.\<close>

lemma puts_contents:
  assumes "inv q" "length (concat xss) \<le> room q"
  shows "inv (fold put xss q) \<and> contents (fold put xss q) = contents q @ concat xss
    \<and> room (fold put xss q) = room q - length (concat xss)"
  using assms
proof (induction xss arbitrary: q)
  case Nil
  then show ?case by simp
next
  case (Cons xs xss)
  then have fits: "length xs \<le> room q" and inv: "inv q" by simp_all
  have "inv (put xs q)" "length (concat xss) \<le> room (put xs q)"
    using Cons.prems by (simp_all add: put_inv put_room)
  from Cons.IH [OF this] show ?case
    using inv fits by (simp add: put_contents put_room)
qed

end

end
