(* ===== verification/Ringbuffer.thy ===== *)
theory Ringbuffer
  imports Ring_Arith
begin

text \<open>
  \<open>dvb_ringbuffer.c\<close> and the access macros of \<open>dvb_ringbuffer.h\<close>: the generic ring buffer the
  core exports to its drivers. The wait queue and the spinlock of the structure carry no data and
  are left out; \<open>usermem\<close> copies go through \<open>user_ok\<close>, which says whether the copy of so many
  bytes succeeds (\<open>copy_to_user\<close> and \<open>copy_from_user\<close> are the kernel's).

  The positions after a transfer are computed from the whole length also when the transfer was
  split at the end of the array; the theory shows what follows from that on both branches.
\<close>

section \<open>The structure and its operations\<close>

record dvb_ringbuffer =
  rb_data :: "u8 list"
  rb_size :: nat
  rb_pread :: nat
  rb_pwrite :: nat

definition dvb_ringbuffer_init :: "u8 list \<Rightarrow> nat \<Rightarrow> dvb_ringbuffer" where
  "dvb_ringbuffer_init mem len = \<lparr>rb_data = mem, rb_size = len, rb_pread = 0, rb_pwrite = 0\<rparr>"

definition dvb_ringbuffer_empty :: "dvb_ringbuffer \<Rightarrow> bool" where
  "dvb_ringbuffer_empty rb \<longleftrightarrow> rb_pread rb = rb_pwrite rb"

definition dvb_ringbuffer_free :: "dvb_ringbuffer \<Rightarrow> int" where
  "dvb_ringbuffer_free rb =
     (let free = int (rb_pread rb) - int (rb_pwrite rb);
          free = (if free \<le> 0 then free + int (rb_size rb) else free)
      in free - 1)"

definition dvb_ringbuffer_avail :: "dvb_ringbuffer \<Rightarrow> int" where
  "dvb_ringbuffer_avail rb =
     (let avail = int (rb_pwrite rb) - int (rb_pread rb)
      in if avail < 0 then avail + int (rb_size rb) else avail)"

definition dvb_ringbuffer_flush :: "dvb_ringbuffer \<Rightarrow> dvb_ringbuffer" where
  "dvb_ringbuffer_flush rb = rb\<lparr>rb_pread := rb_pwrite rb\<rparr>"

text \<open>The lock and the wake-up around the flush leave the data structure alone.\<close>

definition dvb_ringbuffer_flush_spinlock_wakeup :: "dvb_ringbuffer \<Rightarrow> dvb_ringbuffer" where
  "dvb_ringbuffer_flush_spinlock_wakeup rb = dvb_ringbuffer_flush rb"

definition DVB_RINGBUFFER_PEEK :: "dvb_ringbuffer \<Rightarrow> nat \<Rightarrow> u8 option" where
  "DVB_RINGBUFFER_PEEK rb offs = rd (rb_data rb) ((rb_pread rb + offs) mod rb_size rb)"

definition DVB_RINGBUFFER_SKIP :: "nat \<Rightarrow> dvb_ringbuffer \<Rightarrow> dvb_ringbuffer" where
  "DVB_RINGBUFFER_SKIP num rb = rb\<lparr>rb_pread := (rb_pread rb + num) mod rb_size rb\<rparr>"

definition DVB_RINGBUFFER_WRITE_BYTE :: "u8 \<Rightarrow> dvb_ringbuffer \<Rightarrow> dvb_ringbuffer" where
  "DVB_RINGBUFFER_WRITE_BYTE b rb =
     rb\<lparr>rb_data := (rb_data rb)[rb_pwrite rb := b],
        rb_pwrite := (rb_pwrite rb + 1) mod rb_size rb\<rparr>"

text \<open>
  \<open>dvb_ringbuffer_read\<close> returns the bytes it copied to \<open>buf\<close> beside the result code. A failed user
  copy leaves the position as the failing branch does: unchanged before the split copy, 0 after.
\<close>

definition dvb_ringbuffer_read ::
  "(nat \<Rightarrow> bool) \<Rightarrow> dvb_ringbuffer \<Rightarrow> nat \<Rightarrow> bool \<Rightarrow> (cret \<times> u8 list \<times> dvb_ringbuffer) option" where
  "dvb_ringbuffer_read user_ok rb len usermem =
     (let split = (if rb_pread rb + len > rb_size rb then rb_size rb - rb_pread rb else 0) in
      if split > 0 then do {
        out1 \<leftarrow> memread (rb_data rb) (rb_pread rb) split;
        if usermem \<and> \<not> user_ok split then Some (Inl EFAULT, [], rb)
        else do {
          let todo = len - split;
          let rb1 = rb\<lparr>rb_pread := 0\<rparr>;
          out2 \<leftarrow> memread (rb_data rb1) (rb_pread rb1) todo;
          if usermem \<and> \<not> user_ok todo then Some (Inl EFAULT, out1, rb1)
          else Some (Inr len, out1 @ out2, rb1\<lparr>rb_pread := (rb_pread rb1 + len) mod rb_size rb1\<rparr>)
        }
      } else do {
        out \<leftarrow> memread (rb_data rb) (rb_pread rb) len;
        if usermem \<and> \<not> user_ok len then Some (Inl EFAULT, [], rb)
        else Some (Inr len, out, rb\<lparr>rb_pread := (rb_pread rb + len) mod rb_size rb\<rparr>)
      })"

definition dvb_ringbuffer_write ::
  "(nat \<Rightarrow> bool) \<Rightarrow> dvb_ringbuffer \<Rightarrow> u8 list \<Rightarrow> bool \<Rightarrow> (cret \<times> dvb_ringbuffer) option" where
  "dvb_ringbuffer_write user_ok rb buf usermem =
     (let len = length buf;
          split = (if rb_pwrite rb + len > rb_size rb then rb_size rb - rb_pwrite rb else 0) in
      if split > 0 then do {
        mem1 \<leftarrow> memcpy (rb_data rb) (rb_pwrite rb) buf 0 split;
        if usermem \<and> \<not> user_ok split then Some (Inl EFAULT, rb)
        else do {
          let todo = len - split;
          let rb1 = rb\<lparr>rb_data := mem1, rb_pwrite := 0\<rparr>;
          mem2 \<leftarrow> memcpy (rb_data rb1) (rb_pwrite rb1) buf split todo;
          if usermem \<and> \<not> user_ok todo then Some (Inl EFAULT, rb1)
          else Some (Inr len,
                 rb1\<lparr>rb_data := mem2, rb_pwrite := (rb_pwrite rb1 + len) mod rb_size rb1\<rparr>)
        }
      } else do {
        mem \<leftarrow> memcpy (rb_data rb) (rb_pwrite rb) buf 0 len;
        if usermem \<and> \<not> user_ok len then Some (Inl EFAULT, rb)
        else Some (Inr len,
               rb\<lparr>rb_data := mem, rb_pwrite := (rb_pwrite rb + len) mod rb_size rb\<rparr>)
      })"


section \<open>Well-formed buffers\<close>

definition rb_wf :: "dvb_ringbuffer \<Rightarrow> bool" where
  "rb_wf rb \<longleftrightarrow> length (rb_data rb) = rb_size rb \<and> rb_pread rb < rb_size rb
     \<and> rb_pwrite rb < rb_size rb"

definition rb_contents :: "dvb_ringbuffer \<Rightarrow> u8 list" where
  "rb_contents rb = ring_contents (rb_data rb) (rb_pread rb) (rb_pwrite rb)"

definition rb_room :: "dvb_ringbuffer \<Rightarrow> nat" where
  "rb_room rb = nat (dvb_ringbuffer_free rb)"

lemma rb_wf_init: "0 < len \<Longrightarrow> length mem = len \<Longrightarrow> rb_wf (dvb_ringbuffer_init mem len)"
  by (simp add: rb_wf_def dvb_ringbuffer_init_def)

lemma length_rb_contents:
  "rb_wf rb \<Longrightarrow> length (rb_contents rb) = ring_dist (rb_size rb) (rb_pread rb) (rb_pwrite rb)"
  by (simp add: rb_contents_def rb_wf_def)

lemma avail_contents: "rb_wf rb \<Longrightarrow> dvb_ringbuffer_avail rb = int (length (rb_contents rb))"
  by (auto simp: dvb_ringbuffer_avail_def length_rb_contents ring_dist_def rb_wf_def Let_def)

lemma free_contents:
  "rb_wf rb \<Longrightarrow> dvb_ringbuffer_free rb = int (rb_size rb) - int (length (rb_contents rb)) - 1"
  by (auto simp: dvb_ringbuffer_free_def length_rb_contents ring_dist_def rb_wf_def Let_def)

lemma contents_less_size: "rb_wf rb \<Longrightarrow> length (rb_contents rb) < rb_size rb"
  by (simp add: length_rb_contents rb_wf_def ring_dist_less)

lemma room_contents: "rb_wf rb \<Longrightarrow> rb_room rb = rb_size rb - length (rb_contents rb) - 1"
  using contents_less_size [of rb] by (simp add: rb_room_def free_contents)

lemma empty_contents: "rb_wf rb \<Longrightarrow> dvb_ringbuffer_empty rb \<longleftrightarrow> rb_contents rb = []"
  by (simp add: dvb_ringbuffer_empty_def length_rb_contents ring_dist_0_iff rb_wf_def
      flip: length_0_conv)

text \<open>
  The free and the available byte counts the buffer reports always add up to one less than
  its size, and \<open>dvb_ringbuffer_empty\<close> says exactly that nothing is available.
\<close>

theorem ringbuffer_counts:
  assumes "rb_wf rb"
  shows "dvb_ringbuffer_free rb + dvb_ringbuffer_avail rb = int (rb_size rb) - 1
    \<and> 0 \<le> dvb_ringbuffer_free rb \<and> 0 \<le> dvb_ringbuffer_avail rb
    \<and> (dvb_ringbuffer_empty rb \<longleftrightarrow> dvb_ringbuffer_avail rb = 0)"
proof -
  show ?thesis
    using contents_less_size [OF assms]
    by (simp add: free_contents [OF assms] avail_contents [OF assms] empty_contents [OF assms])
qed


section \<open>Byte access is a queue\<close>

definition rb_put :: "u8 list \<Rightarrow> dvb_ringbuffer \<Rightarrow> dvb_ringbuffer" where
  "rb_put bs rb = fold DVB_RINGBUFFER_WRITE_BYTE bs rb"

definition rb_get :: "nat \<Rightarrow> dvb_ringbuffer \<Rightarrow> u8 list \<times> dvb_ringbuffer" where
  "rb_get n rb = (map (\<lambda>k. the (DVB_RINGBUFFER_PEEK rb k)) [0 ..< n], DVB_RINGBUFFER_SKIP n rb)"

lemma write_byte:
  assumes "rb_wf rb" "0 < rb_room rb"
  shows "rb_wf (DVB_RINGBUFFER_WRITE_BYTE b rb)"
    and "rb_contents (DVB_RINGBUFFER_WRITE_BYTE b rb) = rb_contents rb @ [b]"
    and "rb_size (DVB_RINGBUFFER_WRITE_BYTE b rb) = rb_size rb"
proof -
  have len: "length (rb_data rb) = rb_size rb" and r: "rb_pread rb < rb_size rb"
    and w: "rb_pwrite rb < rb_size rb"
    using assms(1) by (auto simp: rb_wf_def)
  have "ring_dist (rb_size rb) (rb_pread rb) (rb_pwrite rb) + length [b] < length (rb_data rb)"
    using assms by (simp add: room_contents length_rb_contents len)
  then show "rb_contents (DVB_RINGBUFFER_WRITE_BYTE b rb) = rb_contents rb @ [b]"
    using ring_contents_store [of "rb_pread rb" "rb_data rb" "rb_pwrite rb" "[b]"] len r w
    by (simp add: rb_contents_def DVB_RINGBUFFER_WRITE_BYTE_def ring_store_single)
  show "rb_wf (DVB_RINGBUFFER_WRITE_BYTE b rb)"
    using len r w by (simp add: rb_wf_def DVB_RINGBUFFER_WRITE_BYTE_def)
  show "rb_size (DVB_RINGBUFFER_WRITE_BYTE b rb) = rb_size rb"
    by (simp add: DVB_RINGBUFFER_WRITE_BYTE_def)
qed

lemma rb_put_correct:
  assumes "rb_wf rb" "length bs \<le> rb_room rb"
  shows "rb_wf (rb_put bs rb) \<and> rb_contents (rb_put bs rb) = rb_contents rb @ bs
    \<and> rb_size (rb_put bs rb) = rb_size rb"
  using assms
proof (induction bs arbitrary: rb)
  case Nil
  then show ?case by (simp add: rb_put_def)
next
  case (Cons b bs)
  let ?rb = "DVB_RINGBUFFER_WRITE_BYTE b rb"
  have "0 < rb_room rb" using Cons.prems by simp
  note w = write_byte [OF Cons.prems(1) this, of b]
  have "length bs \<le> rb_room ?rb"
    using Cons.prems by (simp add: room_contents w)
  from Cons.IH [OF w(1) this] show ?case
    by (simp add: rb_put_def w)
qed

lemma rb_get_correct:
  assumes "rb_wf rb" "n \<le> length (rb_contents rb)"
  shows "fst (rb_get n rb) = take n (rb_contents rb)"
    and "rb_wf (snd (rb_get n rb))"
    and "rb_contents (snd (rb_get n rb)) = drop n (rb_contents rb)"
proof -
  have len: "length (rb_data rb) = rb_size rb" and r: "rb_pread rb < rb_size rb"
    and w: "rb_pwrite rb < rb_size rb"
    using assms(1) by (auto simp: rb_wf_def)
  have n: "n \<le> ring_dist (rb_size rb) (rb_pread rb) (rb_pwrite rb)"
    using assms by (simp add: length_rb_contents)
  have "(rb_pread rb + k) mod rb_size rb < rb_size rb" for k
    using r by (intro mod_less_divisor) linarith
  then show "fst (rb_get n rb) = take n (rb_contents rb)"
    using n len by (auto intro!: nth_equalityI simp: rb_get_def rb_contents_def
        DVB_RINGBUFFER_PEEK_def nth_ring_contents)
  show "rb_wf (snd (rb_get n rb))"
    using len r w by (simp add: rb_wf_def rb_get_def DVB_RINGBUFFER_SKIP_def)
  show "rb_contents (snd (rb_get n rb)) = drop n (rb_contents rb)"
    using ring_contents_advance [of "rb_pread rb" "rb_data rb" "rb_pwrite rb" n] len r w n
    by (simp add: rb_get_def rb_contents_def DVB_RINGBUFFER_SKIP_def)
qed

interpretation rbq: byte_fifo rb_wf rb_contents rb_room rb_put rb_get
proof unfold_locales
  fix q :: dvb_ringbuffer and xs :: "u8 list"
  assume "rb_wf q" "length xs \<le> rb_room q"
  note p = rb_put_correct [OF this]
  then show "rb_wf (rb_put xs q)" "rb_contents (rb_put xs q) = rb_contents q @ xs"
    by simp_all
  show "rb_room (rb_put xs q) = rb_room q - length xs"
    using p \<open>rb_wf q\<close> by (simp add: room_contents)
next
  fix q :: dvb_ringbuffer and n
  assume q: "rb_wf q" "n \<le> length (rb_contents q)"
  note g = rb_get_correct [OF this]
  show "fst (rb_get n q) = take n (rb_contents q)" "rb_wf (snd (rb_get n q))"
    "rb_contents (snd (rb_get n q)) = drop n (rb_contents q)"
    by (rule g)+
  have "rb_size (snd (rb_get n q)) = rb_size q"
    by (simp add: rb_get_def DVB_RINGBUFFER_SKIP_def)
  then show "rb_room (snd (rb_get n q)) = rb_room q + n"
    using q contents_less_size [OF q(1)] by (simp add: room_contents g)
qed

text \<open>
  A driver that feeds the buffer with \<open>DVB_RINGBUFFER_WRITE_BYTE\<close>, never past
  \<open>dvb_ringbuffer_free\<close>, and drains it with \<open>DVB_RINGBUFFER_PEEK\<close> and \<open>DVB_RINGBUFFER_SKIP\<close> sees
  a queue: from an empty buffer the first bytes written are the first bytes read, wherever in the
  array the positions stand.
\<close>

theorem ringbuffer_byte_fifo:
  assumes "rb_wf rb" "dvb_ringbuffer_empty rb"
    and "int (length xs + length ys) \<le> dvb_ringbuffer_free rb"
  shows "fst (rb_get (length xs) (rb_put ys (rb_put xs rb))) = xs"
proof (rule rbq.put_get_roundtrip)
  show "rb_wf rb" by fact
  show "rb_contents rb = []"
    using assms(2) by (simp add: rb_contents_def dvb_ringbuffer_empty_def)
  show "length xs + length ys \<le> rb_room rb"
    using assms(3) by (simp add: rb_room_def)
qed


section \<open>Block transfers\<close>

text \<open>A block transfer that ends inside the array behaves as its byte-wise counterpart.\<close>

lemma ringbuffer_write_unsplit:
  assumes "rb_wf rb" "length buf \<le> rb_room rb" "rb_pwrite rb + length buf \<le> rb_size rb"
  shows "\<exists>rb'. dvb_ringbuffer_write user_ok rb buf False = Some (Inr (length buf), rb')
    \<and> rb_wf rb' \<and> rb_contents rb' = rb_contents rb @ buf"
proof -
  have len: "length (rb_data rb) = rb_size rb" and r: "rb_pread rb < rb_size rb"
    and w: "rb_pwrite rb < rb_size rb"
    using assms(1) by (auto simp: rb_wf_def)
  have "ring_dist (rb_size rb) (rb_pread rb) (rb_pwrite rb) + length buf < length (rb_data rb)"
    using assms contents_less_size [OF assms(1)]
    by (simp add: room_contents length_rb_contents len)
  then have "ring_contents (blit (rb_data rb) (rb_pwrite rb) buf) (rb_pread rb)
      ((rb_pwrite rb + length buf) mod rb_size rb) = rb_contents rb @ buf"
    using ring_contents_store [of "rb_pread rb" "rb_data rb" "rb_pwrite rb" buf] len r w assms(3)
    by (simp add: rb_contents_def ring_store_def)
  then show ?thesis
    using len r w assms(3)
    by (simp add: dvb_ringbuffer_write_def rb_wf_def rb_contents_def Let_def)
qed

lemma ringbuffer_read_unsplit:
  assumes "rb_wf rb" "n \<le> length (rb_contents rb)" "rb_pread rb + n \<le> rb_size rb"
  shows "\<exists>rb'. dvb_ringbuffer_read user_ok rb n False = Some (Inr n, take n (rb_contents rb), rb')
    \<and> rb_wf rb' \<and> rb_contents rb' = drop n (rb_contents rb)"
proof -
  have len: "length (rb_data rb) = rb_size rb" and r: "rb_pread rb < rb_size rb"
    and w: "rb_pwrite rb < rb_size rb"
    using assms(1) by (auto simp: rb_wf_def)
  have n: "n \<le> ring_dist (length (rb_data rb)) (rb_pread rb) (rb_pwrite rb)"
    using assms(1,2) by (simp add: length_rb_contents len)
  show ?thesis
    using take_ring_contents [OF _ _ n] ring_contents_advance [OF _ _ n] len r w assms(3)
    by (simp add: dvb_ringbuffer_read_def rb_wf_def rb_contents_def Let_def)
qed

text \<open>
  the block routines are correct on a transfer that does not cross the end of the array: a
  write of at most the free bytes followed by a read of the same length hands the bytes back and
  leaves the buffer with what it held before.
\<close>

theorem ringbuffer_block_roundtrip:
  assumes "rb_wf rb" "dvb_ringbuffer_empty rb"
    and "int (length buf) \<le> dvb_ringbuffer_free rb" "rb_pwrite rb + length buf \<le> rb_size rb"
  shows "\<exists>rb1 rb2. dvb_ringbuffer_write user_ok rb buf False = Some (Inr (length buf), rb1)
    \<and> dvb_ringbuffer_read user_ok rb1 (length buf) False = Some (Inr (length buf), buf, rb2)
    \<and> rb_wf rb2 \<and> dvb_ringbuffer_empty rb2"
proof -
  have empty: "rb_contents rb = []"
    using assms(2) by (simp add: rb_contents_def dvb_ringbuffer_empty_def)
  obtain rb1 where wr: "dvb_ringbuffer_write user_ok rb buf False = Some (Inr (length buf), rb1)"
    "rb_wf rb1" "rb_contents rb1 = buf"
    using ringbuffer_write_unsplit [OF assms(1) _ assms(4)] assms(3) empty
    by (force simp: rb_room_def)
  have pos: "rb_pread rb1 = rb_pread rb" "rb_size rb1 = rb_size rb"
    using wr(1) assms(4) by (auto simp: dvb_ringbuffer_write_def Let_def memcpy_def split: if_splits)
  obtain rb2 where rdd: "dvb_ringbuffer_read user_ok rb1 (length buf) False
      = Some (Inr (length buf), buf, rb2)" "rb_wf rb2" "rb_contents rb2 = []"
    using ringbuffer_read_unsplit [OF wr(2), of "length buf" user_ok] assms(2,4) wr(3) pos
    by (auto simp: dvb_ringbuffer_empty_def)
  have "dvb_ringbuffer_empty rb2"
    using rdd(2,3) by (simp add: empty_contents)
  with wr rdd show ?thesis by blast
qed

text \<open>
  C11: a transfer that does cross the end of the array leaves a wrong position. The code sets the
  position to 0 after the first part and then adds the whole length instead of what was left, so
  the write position ends \<open>rb_size - rb_pwrite\<close> bytes too far and the buffer claims to hold bytes
  that were never written.
\<close>

theorem ringbuffer_write_wrap_position:
  assumes "rb_wf rb" "int (length buf) \<le> dvb_ringbuffer_free rb"
    and "rb_size rb < rb_pwrite rb + length buf"
  shows "\<exists>rb'. dvb_ringbuffer_write user_ok rb buf False = Some (Inr (length buf), rb')
    \<and> rb_pwrite rb' = (rb_pwrite rb + length buf) mod rb_size rb + (rb_size rb - rb_pwrite rb)
    \<and> dvb_ringbuffer_avail rb' \<noteq> dvb_ringbuffer_avail rb + int (length buf)"
proof -
  have len: "length (rb_data rb) = rb_size rb" and r: "rb_pread rb < rb_size rb"
    and w: "rb_pwrite rb < rb_size rb"
    using assms(1) by (auto simp: rb_wf_def)
  have fits: "length (rb_contents rb) + length buf < rb_size rb"
    using assms(2) by (simp add: free_contents [OF assms(1)])
  define mem where "mem = blit (blit (rb_data rb) (rb_pwrite rb)
      (take (rb_size rb - rb_pwrite rb) buf)) 0 (drop (rb_size rb - rb_pwrite rb) buf)"
  have wr: "dvb_ringbuffer_write user_ok rb buf False
      = Some (Inr (length buf), rb\<lparr>rb_data := mem, rb_pwrite := length buf\<rparr>)"
    using len w fits assms(3) by (simp add: dvb_ringbuffer_write_def mem_def Let_def)
  have pos: "length buf = (rb_pwrite rb + length buf) mod rb_size rb + (rb_size rb - rb_pwrite rb)"
    using w fits assms(3) by (simp add: mod_less_double)
  have "dvb_ringbuffer_avail (rb\<lparr>rb_data := mem, rb_pwrite := length buf\<rparr>)
      \<noteq> dvb_ringbuffer_avail rb + int (length buf)"
    using r w fits assms(3)
    by (auto simp: dvb_ringbuffer_avail_def length_rb_contents [OF assms(1)] ring_dist_def Let_def
        split: if_splits)
  with wr pos show ?thesis by simp
qed

abbreviation rb_example :: dvb_ringbuffer where
  "rb_example \<equiv> \<lparr>rb_data = [1, 2, 3, 4], rb_size = 4, rb_pread = 2, rb_pwrite = 2\<rparr>"

lemma ringbuffer_example_wf: "rb_wf rb_example"
  by (simp add: rb_wf_def)

theorem ringbuffer_counts_witness:
  "dvb_ringbuffer_free rb_example + dvb_ringbuffer_avail rb_example = 3"
  using ringbuffer_counts [OF ringbuffer_example_wf] by simp

theorem ringbuffer_byte_fifo_witness:
  "fst (rb_get (length [5 :: u8, 6]) (rb_put [7] (rb_put [5, 6] rb_example))) = [5, 6]"
  by (rule ringbuffer_byte_fifo [OF ringbuffer_example_wf])
    (simp_all add: dvb_ringbuffer_empty_def dvb_ringbuffer_free_def)

theorem ringbuffer_block_roundtrip_witness:
  "\<exists>rb1 rb2. dvb_ringbuffer_write (\<lambda>_. True) rb_example [8, 9] False
      = Some (Inr (length [8 :: u8, 9]), rb1)
    \<and> dvb_ringbuffer_read (\<lambda>_. True) rb1 (length [8 :: u8, 9]) False
      = Some (Inr (length [8 :: u8, 9]), [8, 9], rb2)
    \<and> rb_wf rb2 \<and> dvb_ringbuffer_empty rb2"
  by (rule ringbuffer_block_roundtrip [OF ringbuffer_example_wf])
    (simp_all add: dvb_ringbuffer_empty_def dvb_ringbuffer_free_def)

theorem ringbuffer_write_wrap_position_witness:
  "\<exists>rb'. dvb_ringbuffer_write (\<lambda>_. True) rb_example [7, 8, 9] False
      = Some (Inr (length [7 :: u8, 8, 9]), rb')
    \<and> rb_pwrite rb' = (2 + length [7 :: u8, 8, 9]) mod 4 + (4 - 2)
    \<and> dvb_ringbuffer_avail rb' \<noteq> dvb_ringbuffer_avail rb_example + int (length [7 :: u8, 8, 9])"
  using ringbuffer_write_wrap_position [OF ringbuffer_example_wf, of "[7, 8, 9]" "\<lambda>_. True"]
  by (simp add: dvb_ringbuffer_free_def)

end
