(* ===== verification/Dmxdev_Buffer.thy ===== *)
theory Dmxdev_Buffer
  imports Ring_Arith
begin

text \<open>
  \<open>struct dmxdev_buffer\<close> of \<open>dmxdev.h\<close> and its operations in \<open>dmxdev.c\<close>: the circular buffer between
  the callbacks of the demux, which run in interrupt context and never wait, and the \<open>read\<close> system
  calls, which may. \<open>bf_error\<close> is the negative error code the producer leaves for the reader.

  A blocking read sleeps in \<open>wait_event_interruptible\<close>. What happens meanwhile is a parameter: the
  list of \<open>wakeup\<close>s that end its sleeps. \<open>Deadlock\<close> is a sleep that nothing ends. \<open>user_ok\<close> says
  whether \<open>copy_to_user\<close> of so many bytes succeeds.
\<close>

section \<open>The buffer\<close>

record dmxdev_buffer =
  bf_data :: "u8 list option"
  bf_size :: nat
  bf_pread :: nat
  bf_pwrite :: nat
  bf_error :: "errno option"

definition dvb_dmxdev_buffer_init :: dmxdev_buffer where
  "dvb_dmxdev_buffer_init =
     \<lparr>bf_data = None, bf_size = 8192, bf_pread = 0, bf_pwrite = 0, bf_error = None\<rparr>"

text \<open>\<open>None\<close>: a copy outside the memory of the buffer.\<close>

definition dvb_dmxdev_buffer_write ::
  "u8 list \<Rightarrow> dmxdev_buffer \<Rightarrow> (cret \<times> dmxdev_buffer) option" where
  "dvb_dmxdev_buffer_write src buf =
     (let len = length src in
      if len = 0 then Some (Inr 0, buf)
      else case bf_data buf of
        None \<Rightarrow> Some (Inr 0, buf)
      | Some dat \<Rightarrow>
         (let free = int (bf_pread buf) - int (bf_pwrite buf);
              split = (if free \<le> 0 then bf_size buf - bf_pwrite buf else 0);
              free = (if free \<le> 0 then free + int (bf_size buf) else free)
          in if int len \<ge> free then Some (Inl EPERM, buf)
             else
              (let split = (if split \<ge> len then 0 else split) in
               if split \<noteq> 0 then do {
                 mem \<leftarrow> memcpy dat (bf_pwrite buf) src 0 split;
                 mem \<leftarrow> memcpy mem 0 src split (len - split);
                 Some (Inr len, buf\<lparr>bf_data := Some mem, bf_pwrite := (len - split) mod bf_size buf\<rparr>)
               } else do {
                 mem \<leftarrow> memcpy dat (bf_pwrite buf) src 0 len;
                 Some (Inr len, buf\<lparr>bf_data := Some mem,
                   bf_pwrite := (bf_pwrite buf + len) mod bf_size buf\<rparr>)
               })))"


section \<open>Reading\<close>

text \<open>
  What ends a sleep: a signal, data a callback writes, or an error it leaves. A piece that does not
  fit leaves \<open>EOVERFLOW\<close>, as the callbacks do. A wake-up that does not make the condition true lets the
  reader sleep on.
\<close>

datatype wakeup = Signalled | Filled "u8 list" | Failed errno

definition readable :: "dmxdev_buffer \<Rightarrow> bool" where
  "readable b \<longleftrightarrow> bf_pread b \<noteq> bf_pwrite b \<or> bf_error b \<noteq> None"

fun wait_readable :: "wakeup list \<Rightarrow> dmxdev_buffer \<Rightarrow> (bool \<times> dmxdev_buffer \<times> wakeup list) outcome" where
  "wait_readable ws b =
     (if readable b then Returns (True, b, ws)
      else case ws of
        [] \<Rightarrow> Deadlock
      | Signalled # ws \<Rightarrow> Returns (False, b, ws)
      | Failed e # ws \<Rightarrow> Returns (True, b\<lparr>bf_pwrite := bf_pread b, bf_error := Some e\<rparr>, ws)
      | Filled bs # ws \<Rightarrow>
          (case dvb_dmxdev_buffer_write bs b of
             None \<Rightarrow> Fault
           | Some (Inl _, b) \<Rightarrow> wait_readable ws (b\<lparr>bf_pwrite := bf_pread b, bf_error := Some EOVERFLOW\<rparr>)
           | Some (Inr _, b) \<Rightarrow> wait_readable ws b))"

declare wait_readable.simps [simp del]

text \<open>
  The copies of one round: the part up to the end of the memory when the data wraps, then the
  rest. The result is the error code, the bytes copied, and the buffer.
\<close>

definition copy_out ::
  "(nat \<Rightarrow> bool) \<Rightarrow> nat \<Rightarrow> u8 list \<Rightarrow> dmxdev_buffer \<Rightarrow> (errno option \<times> u8 list \<times> dmxdev_buffer) option"
where
  "copy_out user_ok todo dat b =
     (let avail = int (bf_pwrite b) - int (bf_pread b);
          split = (if avail < 0 then bf_size b - bf_pread b else bf_size b);
          avail = (if avail < 0 then avail + int (bf_size b) else avail);
          avail = (if avail > int todo then todo else nat avail) in
      do {
        (err, out, b, avail) \<leftarrow>
          (if split < avail then do {
             bs \<leftarrow> memread dat (bf_pread b) split;
             if \<not> user_ok split then Some (Some EFAULT, [], b, 0)
             else Some (None, bs, b\<lparr>bf_pread := 0\<rparr>, avail - split)
           } else Some (None, [], b, avail));
        if err \<noteq> None \<or> avail = 0 then Some (err, out, b)
        else do {
          bs \<leftarrow> memread dat (bf_pread b) avail;
          if \<not> user_ok avail then Some (Some EFAULT, out, b)
          else Some (None, out @ bs, b\<lparr>bf_pread := (bf_pread b + avail) mod bf_size b\<rparr>)
        }
      })"

text \<open>The \<open>while\<close> loop; a round copies at least one byte, so the number of bytes is enough fuel.\<close>

fun read_loop ::
  "nat \<Rightarrow> (nat \<Rightarrow> bool) \<Rightarrow> bool \<Rightarrow> nat \<Rightarrow> wakeup list \<Rightarrow> u8 list \<Rightarrow> dmxdev_buffer \<Rightarrow>
     (cret \<times> u8 list \<times> dmxdev_buffer \<times> wakeup list) outcome" where
  "read_loop n user_ok non_blocking count ws out b =
     (let todo = count - length out in
      if todo = 0 then Returns (Inr count, out, b, ws)
      else if non_blocking \<and> bf_pwrite b = bf_pread b then
        Returns (if out \<noteq> [] then Inr (length out) else Inl EWOULDBLOCK, out, b, ws)
      else case wait_readable ws b of
        Deadlock \<Rightarrow> Deadlock
      | Fault \<Rightarrow> Fault
      | Returns (ok, b, ws) \<Rightarrow>
          if \<not> ok then Returns (Inr (length out), out, b, ws)
          else (case bf_error b of
            Some e \<Rightarrow> Returns (Inl e, out, b\<lparr>bf_pwrite := bf_pread b, bf_error := None\<rparr>, ws)
          | None \<Rightarrow>
             (case bf_data b of
                None \<Rightarrow> Fault
              | Some dat \<Rightarrow>
                 (case copy_out user_ok todo dat b of
                    None \<Rightarrow> Fault
                  | Some (Some e, bs, b) \<Rightarrow> Returns (Inl e, out @ bs, b, ws)
                  | Some (None, bs, b) \<Rightarrow>
                      (case n of
                         0 \<Rightarrow> Fault
                       | Suc n \<Rightarrow> read_loop n user_ok non_blocking count ws (out @ bs) b)))))"

declare read_loop.simps [simp del]

definition dvb_dmxdev_buffer_read ::
  "(nat \<Rightarrow> bool) \<Rightarrow> bool \<Rightarrow> nat \<Rightarrow> wakeup list \<Rightarrow> dmxdev_buffer \<Rightarrow>
     (cret \<times> u8 list \<times> dmxdev_buffer \<times> wakeup list) outcome" where
  "dvb_dmxdev_buffer_read user_ok non_blocking count ws src =
     (if bf_data src = None then Returns (Inr 0, [], src, ws)
      else case bf_error src of
        Some e \<Rightarrow> Returns (Inl e, [], src\<lparr>bf_pwrite := bf_pread src, bf_error := None\<rparr>, ws)
      | None \<Rightarrow>
          if non_blocking \<and> bf_pwrite src = bf_pread src then Returns (Inl EWOULDBLOCK, [], src, ws)
          else read_loop count user_ok non_blocking count ws [] src)"


section \<open>The buffer as a queue\<close>

definition bf_wf :: "dmxdev_buffer \<Rightarrow> bool" where
  "bf_wf b \<longleftrightarrow> (\<exists>dat. bf_data b = Some dat \<and> length dat = bf_size b)
     \<and> bf_pread b < bf_size b \<and> bf_pwrite b < bf_size b"

definition bf_contents :: "dmxdev_buffer \<Rightarrow> u8 list" where
  "bf_contents b = (case bf_data b of None \<Rightarrow> [] | Some dat \<Rightarrow> ring_contents dat (bf_pread b) (bf_pwrite b))"

definition bf_room :: "dmxdev_buffer \<Rightarrow> nat" where
  "bf_room b = bf_size b - length (bf_contents b) - 1"

lemma bf_wfE:
  assumes "bf_wf b"
  obtains dat where "bf_data b = Some dat" "length dat = bf_size b" "bf_pread b < bf_size b"
    "bf_pwrite b < bf_size b" "bf_contents b = ring_contents dat (bf_pread b) (bf_pwrite b)"
    "length (bf_contents b) = ring_dist (bf_size b) (bf_pread b) (bf_pwrite b)"
  using assms by (auto simp: bf_wf_def bf_contents_def)

lemma bf_contents_less: "bf_wf b \<Longrightarrow> length (bf_contents b) < bf_size b"
  by (erule bf_wfE) (simp add: ring_dist_less)

lemma bf_empty: "bf_wf b \<Longrightarrow> bf_contents b = [] \<longleftrightarrow> bf_pread b = bf_pwrite b"
  by (erule bf_wfE) (simp add: ring_dist_0_iff flip: length_0_conv)

lemma buffer_write_fits:
  assumes "bf_wf b" "length src \<le> bf_room b"
  shows "\<exists>b'. dvb_dmxdev_buffer_write src b = Some (Inr (length src), b')
    \<and> bf_wf b' \<and> bf_contents b' = bf_contents b @ src \<and> bf_size b' = bf_size b
    \<and> bf_error b' = bf_error b \<and> bf_pread b' = bf_pread b"
proof (cases "src = []")
  case True
  with assms show ?thesis by (simp add: dvb_dmxdev_buffer_write_def)
next
  case False
  obtain dat where b: "bf_data b = Some dat" "length dat = bf_size b" "bf_pread b < bf_size b"
    "bf_pwrite b < bf_size b" "bf_contents b = ring_contents dat (bf_pread b) (bf_pwrite b)"
    "length (bf_contents b) = ring_dist (bf_size b) (bf_pread b) (bf_pwrite b)"
    using assms(1) by (rule bf_wfE)
  let ?w = "bf_pwrite b" and ?n = "bf_size b"
  have fits: "ring_dist ?n (bf_pread b) ?w + length src < ?n"
    using assms(2) b(6) bf_contents_less [OF assms(1)] by (simp add: bf_room_def)
  have wr: "dvb_dmxdev_buffer_write src b = Some (Inr (length src),
      b\<lparr>bf_data := Some (ring_store dat ?w src), bf_pwrite := (?w + length src) mod ?n\<rparr>)"
  proof (cases "?w + length src \<le> ?n")
    case True
    then show ?thesis
      using b fits False
      by (auto simp: dvb_dmxdev_buffer_write_def Let_def ring_store_def ring_dist_def split: if_splits)
  next
    case wrap: False
    then have "(?w + length src) mod ?n = (length src - (?n - ?w)) mod ?n"
      using b(4) fits by (simp add: mod_less_double)
    then show ?thesis
      using b fits False wrap
      by (auto simp: dvb_dmxdev_buffer_write_def Let_def ring_store_def ring_dist_def split: if_splits)
  qed
  have "ring_contents (ring_store dat ?w src) (bf_pread b) ((?w + length src) mod ?n)
      = ring_contents dat (bf_pread b) ?w @ src"
    using ring_contents_store [of "bf_pread b" dat ?w src] b fits by simp
  with wr b fits show ?thesis by (auto simp: bf_wf_def bf_contents_def)
qed

lemma buffer_write_full:
  assumes "bf_wf b" "bf_room b < length src"
  shows "dvb_dmxdev_buffer_write src b = Some (Inl EPERM, b)"
proof -
  obtain dat where b: "bf_data b = Some dat" "length dat = bf_size b" "bf_pread b < bf_size b"
    "bf_pwrite b < bf_size b" "bf_contents b = ring_contents dat (bf_pread b) (bf_pwrite b)"
    "length (bf_contents b) = ring_dist (bf_size b) (bf_pread b) (bf_pwrite b)"
    using assms(1) by (rule bf_wfE)
  have "bf_size b \<le> ring_dist (bf_size b) (bf_pread b) (bf_pwrite b) + length src"
    using assms(2) b(6) by (simp add: bf_room_def)
  with b assms(2) show ?thesis
    by (auto simp: dvb_dmxdev_buffer_write_def Let_def ring_dist_def split: if_splits)
qed


section \<open>What a read returns\<close>

definition bf_ok :: "dmxdev_buffer \<Rightarrow> bool" where
  "bf_ok b \<longleftrightarrow> bf_wf b \<and> bf_error b = None"

lemma copy_out_unfold:
  assumes "bf_pread b < bf_size b" "bf_pwrite b < bf_size b" "\<And>k. user_ok k"
    and "k = min todo (ring_dist (bf_size b) (bf_pread b) (bf_pwrite b))" "0 < k"
    and "split = (if bf_pwrite b < bf_pread b then bf_size b - bf_pread b else bf_size b)"
  shows "copy_out user_ok todo dat b =
    (if split < k then do {
       bs \<leftarrow> memread dat (bf_pread b) split;
       bs' \<leftarrow> memread dat 0 (k - split);
       Some (None, bs @ bs', b\<lparr>bf_pread := (k - split) mod bf_size b\<rparr>)
     } else do {
       bs \<leftarrow> memread dat (bf_pread b) k;
       Some (None, bs, b\<lparr>bf_pread := (bf_pread b + k) mod bf_size b\<rparr>)
     })"
proof -
  let ?D = "ring_dist (bf_size b) (bf_pread b) (bf_pwrite b)"
  have av: "(if int (bf_pwrite b) - int (bf_pread b) < 0
      then int (bf_pwrite b) - int (bf_pread b) + int (bf_size b)
      else int (bf_pwrite b) - int (bf_pread b)) = int ?D"
    using assms(1) by (simp add: ring_dist_def)
  have sp: "(if int (bf_pwrite b) - int (bf_pread b) < 0 then bf_size b - bf_pread b else bf_size b) = split"
    by (simp add: assms(6))
  have mn: "(if int ?D > int todo then todo else nat (int ?D)) = k"
    by (simp add: assms(4) min_def)
  show ?thesis
    using assms(3,5) unfolding copy_out_def Let_def av sp mn
    by (auto split: Option.bind_splits)
qed

lemma copy_out_ok:
  assumes "bf_wf b" "bf_data b = Some dat" "\<And>k. user_ok k" "bf_contents b \<noteq> []" "0 < todo"
  shows "copy_out user_ok todo dat b = Some (None, take todo (bf_contents b),
    b\<lparr>bf_pread := (bf_pread b + min todo (length (bf_contents b))) mod bf_size b\<rparr>)"
proof -
  obtain dat' where "bf_data b = Some dat'" and b: "length dat' = bf_size b" "bf_pread b < bf_size b"
    "bf_pwrite b < bf_size b" "bf_contents b = ring_contents dat' (bf_pread b) (bf_pwrite b)"
    "length (bf_contents b) = ring_dist (bf_size b) (bf_pread b) (bf_pwrite b)"
    using assms(1) by (rule bf_wfE)
  with assms(2) have d: "dat' = dat" by simp
  let ?r = "bf_pread b" and ?w = "bf_pwrite b" and ?n = "bf_size b"
  define k where "k = min todo (ring_dist ?n ?r ?w)"
  define sp where "sp = (if ?w < ?r then ?n - ?r else ?n)"
  have ne: "?r \<noteq> ?w" using assms(1,4) by (simp add: bf_empty)
  then have k0: "0 < k" using assms(5) b(2,3) by (simp add: k_def ring_dist_0_iff flip: neq0_conv)
  have tk: "take todo (bf_contents b) = take k (bf_contents b)"
    and mk: "min todo (length (bf_contents b)) = k"
    using b(5) by (simp_all add: k_def min_def)
  have kle: "k \<le> ring_dist (length dat) ?r ?w" using b(1) d by (simp add: k_def)
  have out: "take k (bf_contents b) = (if ?r + k \<le> ?n then take k (drop ?r dat)
      else drop ?r dat @ take (k - (?n - ?r)) dat)"
    using take_ring_contents [OF _ _ kle] b d by simp
  note unf = copy_out_unfold [where dat = dat, OF b(2,3) assms(3) k_def k0 sp_def]
  show ?thesis
  proof (cases "?r + k \<le> ?n")
    case True
    have "\<not> sp < k" using True kle b(1-3) d by (auto simp: sp_def ring_dist_def)
    then show ?thesis
      unfolding unf tk mk out using True b(1) d by simp
  next
    case False
    have lt: "?w < ?r" using False kle b(1-3) d by (auto simp: ring_dist_def split: if_splits)
    have "(?r + k) mod ?n = (k - sp) mod ?n"
      using False kle b(1-3) d lt by (simp add: mod_less_double ring_dist_def sp_def)
    moreover have "sp < k" "k - sp \<le> ?n" "sp = ?n - ?r"
      using False kle lt b(1-3) d by (auto simp: ring_dist_def sp_def)
    ultimately show ?thesis
      unfolding unf tk mk out using False b(1,2) d by simp
  qed
qed

text \<open>The buffer after a round holds what was not copied.\<close>

lemma advance_contents:
  assumes "bf_wf b" "k \<le> length (bf_contents b)"
  shows "bf_wf (b\<lparr>bf_pread := (bf_pread b + k) mod bf_size b\<rparr>)
    \<and> bf_contents (b\<lparr>bf_pread := (bf_pread b + k) mod bf_size b\<rparr>) = drop k (bf_contents b)"
proof -
  obtain dat where "bf_data b = Some dat" "length dat = bf_size b" "bf_pread b < bf_size b"
    "bf_pwrite b < bf_size b" "bf_contents b = ring_contents dat (bf_pread b) (bf_pwrite b)"
    "length (bf_contents b) = ring_dist (bf_size b) (bf_pread b) (bf_pwrite b)"
    using assms(1) by (rule bf_wfE)
  with ring_contents_advance [of "bf_pread b" dat "bf_pwrite b" k] assms show ?thesis
    by (auto simp: bf_wf_def bf_contents_def)
qed

text \<open>Waiting for a producer that delivers \<open>bss\<close> piece by piece, each small enough for the buffer.\<close>

lemma wait_filled:
  assumes "bf_ok b" "\<forall>bs \<in> set bss. length bs < bf_size b" "bf_contents b @ concat bss \<noteq> []"
  shows "\<exists>b' bss'. wait_readable (map Filled bss) b = Returns (True, b', map Filled bss')
    \<and> bf_ok b' \<and> bf_contents b' \<noteq> [] \<and> bf_size b' = bf_size b \<and> set bss' \<subseteq> set bss
    \<and> bf_contents b' @ concat bss' = bf_contents b @ concat bss"
  using assms
proof (induction bss arbitrary: b)
  case Nil
  then have "readable b" by (simp add: bf_ok_def readable_def bf_empty)
  with Nil show ?case by (auto simp: wait_readable.simps [of _ b] intro!: exI [of _ "[]"])
next
  case (Cons bs bss)
  show ?case
  proof (cases "bf_contents b = []")
    case False
    then have "readable b" using Cons.prems(1) by (simp add: bf_ok_def readable_def bf_empty)
    with False Cons.prems(1) show ?thesis
      by (intro exI [of _ b] exI [of _ "bs # bss"]) (simp add: wait_readable.simps [of _ b])
  next
    case True
    then have "\<not> readable b" using Cons.prems(1) by (auto simp: bf_ok_def readable_def bf_empty)
    have "length bs \<le> bf_room b"
      using True Cons.prems(2) by (auto simp: bf_room_def)
    then obtain b1 where b1: "dvb_dmxdev_buffer_write bs b = Some (Inr (length bs), b1)"
      "bf_ok b1" "bf_contents b1 = bs" "bf_size b1 = bf_size b"
      using buffer_write_fits [of b bs] Cons.prems(1) True by (auto simp: bf_ok_def)
    with Cons.IH [of b1] Cons.prems True obtain b' bss' where
      "wait_readable (map Filled bss) b1 = Returns (True, b', map Filled bss')" "bf_ok b'"
      "bf_contents b' \<noteq> []" "bf_size b' = bf_size b" "set bss' \<subseteq> set bss"
      "bf_contents b' @ concat bss' = bs @ concat bss"
      by auto
    with b1 \<open>\<not> readable b\<close> True show ?thesis
      by (intro exI [of _ b'] exI [of _ bss']) (auto simp: wait_readable.simps [of _ b])
  qed
qed

lemma read_loop_filled:
  assumes "bf_ok b" "\<And>k. user_ok k" "\<forall>bs \<in> set bss. length bs < bf_size b"
    and "count \<le> length out + length (bf_contents b @ concat bss)" "length out \<le> count"
    and "count - length out \<le> n" "non_blocking \<Longrightarrow> count \<le> length out + length (bf_contents b)"
  shows "\<exists>b' bss'. read_loop n user_ok non_blocking count (map Filled bss) out b
      = Returns (Inr count, take count (out @ bf_contents b @ concat bss), b', map Filled bss')
    \<and> bf_ok b' \<and> bf_size b' = bf_size b
    \<and> (count \<le> length out + length (bf_contents b) \<longrightarrow> bss' = bss)
    \<and> bf_contents b' @ concat bss' = drop (count - length out) (bf_contents b @ concat bss)"
  using assms(1,3-)
proof (induction n arbitrary: b bss out)
  case 0
  then show ?case by (intro exI [of _ b] exI [of _ bss]) (simp add: read_loop.simps)
next
  case (Suc n)
  show ?case
  proof (cases "length out = count")
    case True
    with Suc.prems show ?thesis
      by (intro exI [of _ b] exI [of _ bss]) (simp add: read_loop.simps)
  next
    case False
    define todo where "todo = count - length out"
    have todo: "0 < todo" using False Suc.prems(4) by (simp add: todo_def)
    have wf: "bf_wf b" using Suc.prems(1) by (simp add: bf_ok_def)
    have nb: "\<not> (non_blocking \<and> bf_pwrite b = bf_pread b)"
      using Suc.prems(6) todo bf_empty [OF wf] by (auto simp: todo_def)
    have "length (bf_contents b @ concat bss) \<noteq> 0" using Suc.prems(3) todo unfolding todo_def by linarith
    then have "bf_contents b @ concat bss \<noteq> []" by (simp only: length_0_conv) simp
    with wait_filled [OF Suc.prems(1,2)] obtain b1 bss1 where
      w: "wait_readable (map Filled bss) b = Returns (True, b1, map Filled bss1)" "bf_ok b1"
      "bf_contents b1 \<noteq> []" "bf_size b1 = bf_size b" "set bss1 \<subseteq> set bss"
      "bf_contents b1 @ concat bss1 = bf_contents b @ concat bss"
      by auto
    have same: "b1 = b \<and> bss1 = bss" if "count \<le> length out + length (bf_contents b)"
    proof -
      have "bf_contents b \<noteq> []" using that todo by (auto simp: todo_def)
      then have "readable b" using bf_empty [OF wf] by (auto simp: readable_def)
      with w(1) have "b1 = b" "map Filled bss1 = map Filled bss"
        by (simp_all add: wait_readable.simps [of _ b])
      then show ?thesis by (simp add: inj_map_eq_map inj_def)
    qed
    obtain dat where dat: "bf_data b1 = Some dat" and wf1: "bf_wf b1" "bf_error b1 = None"
      using w(2) by (auto simp: bf_ok_def bf_wf_def)
    let ?k = "min todo (length (bf_contents b1))"
    let ?b = "b1\<lparr>bf_pread := (bf_pread b1 + ?k) mod bf_size b1\<rparr>"
    let ?out = "out @ take todo (bf_contents b1)"
    have adv: "bf_wf ?b" "bf_contents ?b = drop ?k (bf_contents b1)"
      using advance_contents [OF wf1(1), of ?k] by auto
    have ok: "bf_ok ?b" using adv wf1 by (simp add: bf_ok_def)
    have step: "read_loop (Suc n) user_ok non_blocking count (map Filled bss) out b
        = read_loop n user_ok non_blocking count (map Filled bss1) ?out ?b"
    proof -
      have "copy_out user_ok todo dat b1 = Some (None, take todo (bf_contents b1), ?b)"
        by (rule copy_out_ok [OF wf1(1) dat]) (use assms(2) w(3) todo in auto)
      then show ?thesis
        using nb todo w(1) wf1(2) dat
        by (subst read_loop.simps) (simp only: todo_def [symmetric] Let_def if_False, simp)
    qed
    have tot: "?out @ bf_contents ?b @ concat bss1 = out @ bf_contents b @ concat bss"
    proof -
      have "take todo (bf_contents b1) @ drop ?k (bf_contents b1) = bf_contents b1"
        by (simp add: min_def)
      with w(6) show ?thesis unfolding adv(2) by (metis append_assoc)
    qed
    have len: "length ?out + length (bf_contents ?b @ concat bss1)
        = length out + length (bf_contents b @ concat bss)"
      using arg_cong [OF tot, of length] by simp
    have k: "0 < ?k" "length ?out = length out + ?k" using todo w(3) by auto
    have "\<exists>b' bss'. read_loop n user_ok non_blocking count (map Filled bss1) ?out ?b
        = Returns (Inr count, take count (?out @ bf_contents ?b @ concat bss1), b', map Filled bss')
      \<and> bf_ok b' \<and> bf_size b' = bf_size ?b
      \<and> (count \<le> length ?out + length (bf_contents ?b) \<longrightarrow> bss' = bss1)
      \<and> bf_contents b' @ concat bss' = drop (count - length ?out) (bf_contents ?b @ concat bss1)"
    proof (rule Suc.IH [OF ok])
      show "\<forall>bs \<in> set bss1. length bs < bf_size ?b" using Suc.prems(2) w(4,5) by auto
      show "count \<le> length ?out + length (bf_contents ?b @ concat bss1)"
        unfolding len by (rule Suc.prems(3))
      show "length ?out \<le> count" using todo by (simp add: todo_def)
      show "count - length ?out \<le> n" unfolding k(2) using Suc.prems(5) k(1) by linarith
      show "count \<le> length ?out + length (bf_contents ?b)" if non_blocking
        using Suc.prems(6) [OF that] same [OF Suc.prems(6) [OF that]] adv(2) by (simp add: min_def)
    qed
    then obtain b' bss' where fin: "read_loop n user_ok non_blocking count (map Filled bss1) ?out ?b
        = Returns (Inr count, take count (out @ bf_contents b @ concat bss), b', map Filled bss')"
      "bf_ok b'" "bf_size b' = bf_size b"
      "count \<le> length ?out + length (bf_contents ?b) \<longrightarrow> bss' = bss1"
      "bf_contents b' @ concat bss' = drop (count - length ?out) (bf_contents ?b @ concat bss1)"
      unfolding tot using w(4) by auto
    have "bf_contents ?b @ concat bss1 = drop ?k (bf_contents b @ concat bss)"
      using w(6) [symmetric] adv(2) by simp
    then have "bf_contents b' @ concat bss' = drop (count - length out) (bf_contents b @ concat bss)"
    proof -
      have "count - length ?out + ?k = count - length out" using k(2) todo by (simp add: todo_def)
      then show ?thesis unfolding fin(5) \<open>bf_contents ?b @ _ = _\<close> by (simp only: drop_drop)
    qed
    moreover have "bss' = bss" if "count \<le> length out + length (bf_contents b)"
      using fin(4) same [OF that] that adv(2) by (simp add: min_def)
    ultimately show ?thesis using fin(1-3) step by auto
  qed
qed


text \<open>Reads and writes of the bytes that are there are a queue.\<close>

definition bf_put :: "u8 list \<Rightarrow> dmxdev_buffer \<Rightarrow> dmxdev_buffer" where
  "bf_put bs b = (case dvb_dmxdev_buffer_write bs b of None \<Rightarrow> b | Some (_, b') \<Rightarrow> b')"

definition bf_get :: "nat \<Rightarrow> dmxdev_buffer \<Rightarrow> u8 list \<times> dmxdev_buffer" where
  "bf_get n b =
     (case dvb_dmxdev_buffer_read (\<lambda>_. True) True n [] b of
        Returns (_, out, b', _) \<Rightarrow> (out, b')
      | _ \<Rightarrow> ([], b))"

lemma buffer_read_available:
  assumes "bf_ok b" "\<And>k. user_ok k" "n \<le> length (bf_contents b)" "bf_contents b \<noteq> []"
  shows "\<exists>b'. dvb_dmxdev_buffer_read user_ok non_blocking n [] b
      = Returns (Inr n, take n (bf_contents b), b', [])
    \<and> bf_ok b' \<and> bf_size b' = bf_size b \<and> bf_contents b' = drop n (bf_contents b)"
proof -
  have ok: "bf_wf b" "bf_error b = None" using assms(1) by (simp_all add: bf_ok_def)
  then have "bf_pwrite b \<noteq> bf_pread b" "bf_data b \<noteq> None"
    using assms(4) bf_empty [of b] by (auto simp: bf_wf_def)
  then have "dvb_dmxdev_buffer_read user_ok non_blocking n (map Filled []) b
      = read_loop n user_ok non_blocking n (map Filled []) [] b"
    using ok by (auto simp: dvb_dmxdev_buffer_read_def)
  with read_loop_filled [OF assms(1,2), of "[]" n "[]" n non_blocking] assms(3) show ?thesis
    by auto
qed


lemma buffer_read_empty:
  "bf_ok b \<Longrightarrow> bf_contents b = [] \<Longrightarrow>
     dvb_dmxdev_buffer_read user_ok True n ws b = Returns (Inl EWOULDBLOCK, [], b, ws)"
  using bf_empty [of b] by (auto simp: dvb_dmxdev_buffer_read_def bf_ok_def bf_wf_def)

lemma bf_get_eq:
  assumes "bf_ok b" "n \<le> length (bf_contents b)"
  shows "\<exists>b'. bf_get n b = (take n (bf_contents b), b') \<and> bf_ok b' \<and> bf_size b' = bf_size b
    \<and> bf_contents b' = drop n (bf_contents b)"
proof (cases "bf_contents b = []")
  case True
  with assms show ?thesis by (simp add: bf_get_def buffer_read_empty)
next
  case False
  with buffer_read_available [OF assms(1) _ assms(2), of "\<lambda>_. True" True] show ?thesis
    by (auto simp: bf_get_def)
qed

lemma bf_put_eq:
  assumes "bf_ok b" "length bs \<le> bf_room b"
  shows "bf_ok (bf_put bs b) \<and> bf_contents (bf_put bs b) = bf_contents b @ bs
    \<and> bf_size (bf_put bs b) = bf_size b"
  using buffer_write_fits [of b bs] assms by (auto simp: bf_put_def bf_ok_def)

interpretation dbq: byte_fifo bf_ok bf_contents bf_room bf_put bf_get
proof unfold_locales
  fix q :: dmxdev_buffer and xs :: "u8 list"
  assume "bf_ok q" "length xs \<le> bf_room q"
  note p = bf_put_eq [OF this]
  then show "bf_ok (bf_put xs q)" "bf_contents (bf_put xs q) = bf_contents q @ xs" by simp_all
  show "bf_room (bf_put xs q) = bf_room q - length xs" using p by (simp add: bf_room_def)
next
  fix q :: dmxdev_buffer and n
  assume q: "bf_ok q" "n \<le> length (bf_contents q)"
  from bf_get_eq [OF q] obtain b' where g: "bf_get n q = (take n (bf_contents q), b')" "bf_ok b'"
    "bf_size b' = bf_size q" "bf_contents b' = drop n (bf_contents q)"
    by blast
  then show "fst (bf_get n q) = take n (bf_contents q)" "bf_ok (snd (bf_get n q))"
    "bf_contents (snd (bf_get n q)) = drop n (bf_contents q)"
    by simp_all
  show "bf_room (snd (bf_get n q)) = bf_room q + n"
    using g q bf_contents_less [of q] by (simp add: bf_room_def bf_ok_def)
qed

text \<open>
  C9: a callback never destroys data and never waits. A write either fits, and then appends all its
  bytes behind what the reader has not read yet, or it does not, and then it is refused with -1 and
  changes nothing; it fits exactly when the unread and the new bytes together are fewer than the
  size of the buffer.
\<close>

theorem buffer_write_all_or_nothing:
  assumes "bf_wf b"
  shows "\<exists>b'. dvb_dmxdev_buffer_write src b =
      Some (if length (bf_contents b) + length src < bf_size b then Inr (length src) else Inl EPERM, b')
    \<and> bf_wf b' \<and> bf_contents b' = bf_contents b @ (if length (bf_contents b) + length src < bf_size b then src else [])
    \<and> (length (bf_contents b) + length src \<ge> bf_size b \<longrightarrow> b' = b)"
proof (cases "length (bf_contents b) + length src < bf_size b")
  case True
  then have "length src \<le> bf_room b" by (simp add: bf_room_def)
  from buffer_write_fits [OF assms this] True show ?thesis by auto
next
  case False
  then have "bf_room b < length src"
    using bf_contents_less [OF assms] by (simp add: bf_room_def)
  from buffer_write_full [OF assms this] False assms show ?thesis by auto
qed

text \<open>
  C8: a blocking read gets exactly what was asked for. If the producer delivers the pieces \<open>bss\<close>,
  each smaller than the buffer, and there are enough bytes in the buffer and in the pieces, the
  read returns the first \<open>count\<close> bytes of the stream in order, however often it had to sleep, and
  what is left in the buffer and in the pieces still to come is the rest of the stream.
\<close>

theorem buffer_blocking_read:
  assumes "bf_wf b" "bf_error b = None" "\<forall>k. user_ok k" "\<forall>bs \<in> set bss. length bs < bf_size b"
    and "count \<le> length (bf_contents b @ concat bss)"
  shows "\<exists>b' bss'. dvb_dmxdev_buffer_read user_ok False count (map Filled bss) b
      = Returns (Inr count, take count (bf_contents b @ concat bss), b', map Filled bss')
    \<and> bf_wf b' \<and> bf_contents b' @ concat bss' = drop count (bf_contents b @ concat bss)"
proof -
  have "dvb_dmxdev_buffer_read user_ok False count (map Filled bss) b
      = read_loop count user_ok False count (map Filled bss) [] b"
    using assms(1,2) by (auto simp: dvb_dmxdev_buffer_read_def bf_wf_def)
  with read_loop_filled [of b user_ok bss count "[]" count False] assms show ?thesis
    by (auto simp: bf_ok_def)
qed

text \<open>
  the error of a producer reaches the reader once. After an overflow or a timeout the next read
  returns that error and discards what is in the buffer; the read after that starts afresh.
\<close>

theorem buffer_error_reported_once:
  assumes "bf_wf b" "bf_error b = Some e"
  shows "\<exists>b'. dvb_dmxdev_buffer_read user_ok non_blocking count ws b = Returns (Inl e, [], b', ws)
    \<and> bf_wf b' \<and> bf_contents b' = [] \<and> bf_error b' = None
    \<and> dvb_dmxdev_buffer_read user_ok True count ws b' = Returns (Inl EWOULDBLOCK, [], b', ws)"
proof -
  let ?b = "b\<lparr>bf_pwrite := bf_pread b, bf_error := None\<rparr>"
  have "bf_wf ?b" using assms(1) by (auto simp: bf_wf_def)
  moreover from this have "bf_contents ?b = []" by (simp add: bf_empty)
  moreover from calculation have "dvb_dmxdev_buffer_read user_ok True count ws ?b
      = Returns (Inl EWOULDBLOCK, [], ?b, ws)"
    by (intro buffer_read_empty) (auto simp: bf_ok_def)
  ultimately show ?thesis
    using assms by (auto simp: dvb_dmxdev_buffer_read_def bf_wf_def)
qed

abbreviation bf_example :: "errno option \<Rightarrow> dmxdev_buffer" where
  "bf_example e \<equiv> \<lparr>bf_data = Some [1, 2, 3, 4, 5, 6], bf_size = 6, bf_pread = 5, bf_pwrite = 2, bf_error = e\<rparr>"

lemma bf_example_wf: "bf_wf (bf_example e)"
  by (simp add: bf_wf_def)

lemma bf_example_contents: "bf_contents (bf_example e) = [6, 1, 2]"
  by (simp add: bf_contents_def ring_contents_def ring_dist_def upt_rec)

theorem buffer_write_all_or_nothing_witness:
  "\<exists>b'. dvb_dmxdev_buffer_write [9] (bf_example None) = Some (Inr 1, b') \<and> bf_contents b' = [6, 1, 2, 9]"
  using buffer_write_all_or_nothing [OF bf_example_wf, of "[9]" None]
  by (auto simp: bf_example_contents)

theorem buffer_blocking_read_witness:
  "\<exists>b' bss'. dvb_dmxdev_buffer_read (\<lambda>_. True) False 5 (map Filled [[5, 6, 7], [8]]) (bf_example None)
      = Returns (Inr 5, take 5 (bf_contents (bf_example None) @ concat [[5, 6, 7], [8]]), b', map Filled bss')
    \<and> bf_wf b' \<and> bf_contents b' @ concat bss' = drop 5 (bf_contents (bf_example None) @ concat [[5, 6, 7], [8]])"
  by (rule buffer_blocking_read [OF bf_example_wf]) (simp_all add: bf_example_contents)

theorem buffer_error_reported_once_witness:
  "\<exists>b'. dvb_dmxdev_buffer_read (\<lambda>_. True) False 3 [] (bf_example (Some EOVERFLOW))
    = Returns (Inl EOVERFLOW, [], b', []) \<and> bf_contents b' = []"
  using buffer_error_reported_once [OF bf_example_wf, of "Some EOVERFLOW" EOVERFLOW "\<lambda>_. True" False 3 "[]"]
  by auto

end
