(* ===== verification/Demux_Types.thy ===== *)
theory Demux_Types
  imports Dvb_Prelude
begin

text \<open>
  The data of the software demultiplexer: \<open>struct dvb_demux_filter\<close>, \<open>struct dvb_demux_feed\<close> and
  \<open>struct dvb_demux\<close> of \<open>dvb_demux.h\<close>, with the parts of \<open>demux.h\<close> they embed. Pointers to
  filters and feeds are indices into the arrays \<open>dmx_filters\<close> and \<open>dmx_feeds\<close>.

  The union of \<open>struct dmx_ts_feed\<close> and \<open>struct dmx_section_feed\<close> is flattened: both start with
  \<open>is_filtering\<close>, \<open>parent\<close> and \<open>priv\<close> at the same place, so these are one field each. Left out are
  the method pointers (they always hold the functions of \<open>dvb_demux.c\<close>), the back-pointers to the
  demux, and \<open>buffer\<close>, which \<open>NOBUFS\<close> keeps null. Locks are not state: every operation runs under
  the mutex or the spinlock and is one atomic step here.
\<close>

section \<open>Constants\<close>

datatype dmx_type = DMX_TYPE_TS | DMX_TYPE_SEC | DMX_TYPE_PES

datatype dmx_state =
  DMX_STATE_FREE | DMX_STATE_ALLOCATED | DMX_STATE_SET | DMX_STATE_READY | DMX_STATE_GO

fun dmx_state_nr :: "dmx_state \<Rightarrow> nat" where
  "dmx_state_nr DMX_STATE_FREE = 0"
| "dmx_state_nr DMX_STATE_ALLOCATED = 1"
| "dmx_state_nr DMX_STATE_SET = 2"
| "dmx_state_nr DMX_STATE_READY = 3"
| "dmx_state_nr DMX_STATE_GO = 4"

lemma dmx_state_nr_inject: "dmx_state_nr s = dmx_state_nr t \<Longrightarrow> s = t"
  by (cases s; cases t) auto

text \<open>The code compares states by their numbers (\<open>feed->state < DMX_STATE_GO\<close>).\<close>

instantiation dmx_state :: linorder
begin

definition less_eq_dmx_state :: "dmx_state \<Rightarrow> dmx_state \<Rightarrow> bool" where
  "less_eq_dmx_state s t \<longleftrightarrow> dmx_state_nr s \<le> dmx_state_nr t"

definition less_dmx_state :: "dmx_state \<Rightarrow> dmx_state \<Rightarrow> bool" where
  "less_dmx_state s t \<longleftrightarrow> dmx_state_nr s < dmx_state_nr t"

instance
  by standard (auto simp: less_eq_dmx_state_def less_dmx_state_def dest: dmx_state_nr_inject)

end

lemma dmx_state_less_GO [simp]: "s < DMX_STATE_GO \<longleftrightarrow> s \<noteq> DMX_STATE_GO"
  by (cases s) (auto simp: less_dmx_state_def)

definition TS_PACKET :: u32 where "TS_PACKET = 1"
definition TS_PAYLOAD_ONLY :: u32 where "TS_PAYLOAD_ONLY = 2"
definition TS_DECODER :: u32 where "TS_DECODER = 4"

definition DVB_DEMUX_MASK_MAX :: nat where "DVB_DEMUX_MASK_MAX = 18"
definition DMX_MAX_PID :: nat where "DMX_MAX_PID = 0x2000"
definition DMX_TS_PES_OTHER :: nat where "DMX_TS_PES_OTHER = 20"
definition MAX_DVB_DEMUX_USERS :: nat where "MAX_DVB_DEMUX_USERS = 10"
definition SECBUF_SIZE :: nat where "SECBUF_SIZE = 4096"

datatype dmx_frontend_source =
  DMX_MEMORY_FE | DMX_FRONTEND_0 | DMX_FRONTEND_1 | DMX_FRONTEND_2 | DMX_FRONTEND_3
| DMX_STREAM_0 | DMX_STREAM_1 | DMX_STREAM_2 | DMX_STREAM_3


section \<open>Structures\<close>

record dvb_demux_filter =
  filter_value :: "u8 list"
  filter_mask :: "u8 list"
  filter_mode :: "u8 list"
  filter_priv :: "nat option"
  maskandmode :: "u8 list"
  maskandnotmode :: "u8 list"
  doneq :: bool
  filter_next :: "nat option"
  filter_feed :: "nat option"
  filter_index :: nat
  filter_state :: dmx_state
  filter_type :: dmx_type

record dvb_demux_feed =
  is_filtering :: bool
  feed_priv :: "nat option"
  check_crc :: bool
  crc_val :: u32
  secbuf :: "u8 list"
  secbufp :: nat
  seclen :: nat
  feed_cb :: nat
  feed_type :: dmx_type
  feed_state :: dmx_state
  feed_pid :: nat
  buffer_size :: nat
  descramble :: bool
  feed_timeout :: nat
  feed_filter :: "nat option"
  cb_length :: nat
  ts_type :: u32
  pes_type :: nat
  feed_cc :: u8
  peslen :: u16

text \<open>A frontend is the address of its structure and what it is connected to.\<close>

record dmx_frontend =
  fe_addr :: nat
  fe_source :: dmx_frontend_source

record dvb_demux =
  dmx_filters :: "dvb_demux_filter list"
  dmx_feeds :: "dvb_demux_feed list"
  dmx_users :: nat
  frontend_list :: "dmx_frontend list"
  dmx_frontend :: "dmx_frontend option"
  pesfilter :: "nat option list"
  dmx_pids :: "nat list"
  dmx_playing :: bool
  dmx_recording :: bool
  feed_list :: "nat list"
  tsbuf :: "u8 list"
  tsbufp :: nat

text \<open>
  What the demux calls through function pointers, on the state \<open>'c\<close> of whoever is behind them:
  the callbacks of its clients (\<open>feed_cb\<close> tells which one), the kernel's CRC routine, and the
  start, stop and decoder hooks of the hardware driver, each of which may be a null pointer.
\<close>

record 'c dmx_env =
  sec_cb :: "nat \<Rightarrow> u8 list \<Rightarrow> dvb_demux_filter \<Rightarrow> 'c \<Rightarrow> cret \<times> 'c"
  ts_cb :: "nat \<Rightarrow> u8 list \<Rightarrow> dvb_demux_feed \<Rightarrow> 'c \<Rightarrow> cret \<times> 'c"
  crc32_be :: "u32 \<Rightarrow> u8 list \<Rightarrow> u32"
  write_to_decoder :: "(dvb_demux_feed \<Rightarrow> u8 list \<Rightarrow> 'c \<Rightarrow> 'c) option"
  start_feed :: "(dvb_demux_feed \<Rightarrow> 'c \<Rightarrow> cret \<times> 'c) option"
  stop_feed :: "(dvb_demux_feed \<Rightarrow> 'c \<Rightarrow> cret \<times> 'c) option"


section \<open>Concrete instances\<close>

text \<open>Concrete feeds for the witnesses: one filter on table 0x42, and clients that keep a log.\<close>

abbreviation ex_filter :: dvb_demux_filter where
  "ex_filter \<equiv> \<lparr>filter_value = 0x42 # replicate 17 0, filter_mask = 0xff # replicate 17 0,
     filter_mode = replicate 18 0xff, filter_priv = None, maskandmode = 0xff # replicate 17 0,
     maskandnotmode = replicate 18 0, doneq = False, filter_next = None, filter_feed = Some 0,
     filter_index = 0, filter_state = DMX_STATE_READY, filter_type = DMX_TYPE_SEC\<rparr>"

abbreviation ex_feed :: "nat \<Rightarrow> dvb_demux_feed" where
  "ex_feed n \<equiv> \<lparr>is_filtering = True, feed_priv = None, check_crc = True, crc_val = 0,
     secbuf = replicate 4096 0, secbufp = n, seclen = n, feed_cb = 0, feed_type = DMX_TYPE_SEC,
     feed_state = DMX_STATE_GO, feed_pid = 0x11, buffer_size = 0, descramble = False,
     feed_timeout = 0, feed_filter = Some 0, cb_length = 0, ts_type = 0, pes_type = 0, feed_cc = 0,
     peslen = 0\<rparr>"

abbreviation ex_env :: "u8 list list dmx_env" where
  "ex_env \<equiv> \<lparr>sec_cb = (\<lambda>_ sec _ c. (Inr 0, c @ [sec])), ts_cb = (\<lambda>_ _ _ c. (Inr 0, c)),
     crc32_be = (\<lambda>v _. v), write_to_decoder = None, start_feed = None, stop_feed = None\<rparr>"

abbreviation ex_demux :: dvb_demux where
  "ex_demux \<equiv> \<lparr>dmx_filters = [ex_filter], dmx_feeds = [ex_feed 0], dmx_users = 0, frontend_list = [],
     dmx_frontend = None, pesfilter = replicate 20 None, dmx_pids = replicate 20 0xffff,
     dmx_playing = False, dmx_recording = False, feed_list = [0], tsbuf = replicate 204 0,
     tsbufp = 0\<rparr>"

end
