(* ===== verification/Demux_Section.thy ===== *)
theory Demux_Section
  imports Demux_Types
begin

text \<open>
  The packet path of \<open>dvb_demux.c\<close>: from one 188 byte transport stream packet to the section and
  payload callbacks. A packet is a list of 188 bytes; \<open>secbuf\<close> is the 4096 byte reassembly buffer.
  Every copy into or out of these arrays is bounds-checked, and \<open>None\<close> means the C code leaves the
  array.

  The functions work on one feed and the filter array, which they only read; \<open>'c\<close> is the state of
  the clients behind the callbacks.
\<close>

section \<open>Header fields\<close>

definition section_length :: "u8 list \<Rightarrow> nat" where
  "section_length buf = 3 + unat (buf ! 1 AND 0x0f) * 256 + unat (buf ! 2)"

definition ts_pid :: "u8 list \<Rightarrow> nat" where
  "ts_pid buf = unat (buf ! 1 AND 0x1f) * 256 + unat (buf ! 2)"

definition payload :: "u8 list \<Rightarrow> nat" where
  "payload tsp =
     (if tsp ! 3 AND 0x10 = 0 then 0
      else if tsp ! 3 AND 0x20 \<noteq> 0 then
        (if unat (tsp ! 4) > 183 then 0 else 184 - 1 - unat (tsp ! 4))
      else 184)"

text \<open>The four checksum bytes, most significant first, behind the first \<open>len\<close> bytes.\<close>

definition dvb_set_crc32 :: "(u32 \<Rightarrow> u8 list \<Rightarrow> u32) \<Rightarrow> u8 list \<Rightarrow> nat \<Rightarrow> u8 list option" where
  "dvb_set_crc32 crc dat len = do {
     src \<leftarrow> memread dat 0 len;
     let c = crc (- 1) src;
     memcpy dat len [ucast (drop_bit 24 c), ucast (drop_bit 16 c), ucast (drop_bit 8 c), ucast c] 0 4
   }"

definition dvb_dmx_crc32 ::
  "'c dmx_env \<Rightarrow> dvb_demux_feed \<Rightarrow> u8 list \<Rightarrow> u32 \<times> dvb_demux_feed" where
  "dvb_dmx_crc32 env f src =
     (let c = crc32_be env (crc_val f) src in (c, f\<lparr>crc_val := c\<rparr>))"

definition dvb_dmx_memcopy :: "u8 list \<Rightarrow> nat \<Rightarrow> u8 list \<Rightarrow> nat \<Rightarrow> nat \<Rightarrow> u8 list option" where
  "dvb_dmx_memcopy d i s j len = memcpy d i s j len"


section \<open>Payload feeds\<close>

definition dvb_dmx_swfilter_payload ::
  "'c dmx_env \<Rightarrow> dvb_demux_feed \<Rightarrow> u8 list \<Rightarrow> 'c \<Rightarrow> (cret \<times> dvb_demux_feed \<times> 'c) option" where
  "dvb_dmx_swfilter_payload env feed buf c =
     (let count = payload buf in
      if count = 0 then Some (Inl EPERM, feed, c)
      else do {
        let p = 188 - count;
        let feed = (if buf ! 1 AND 0x40 \<noteq> 0 then feed\<lparr>peslen := 0xfffa\<rparr> else feed);
        let feed = feed\<lparr>peslen := peslen feed + of_nat count\<rparr>;
        dat \<leftarrow> memread buf p count;
        let (r, c) = ts_cb env (feed_cb feed) dat feed c;
        Some (r, feed, c)
      })"


section \<open>Section filters\<close>

text \<open>The loop over the filter bytes: \<open>None\<close> is its early \<open>return 0\<close>, otherwise the final \<open>neq\<close>.\<close>

fun sectionfilter_scan :: "dvb_demux_filter \<Rightarrow> u8 list \<Rightarrow> nat list \<Rightarrow> u8 \<Rightarrow> u8 option" where
  "sectionfilter_scan f buf [] neq = Some neq"
| "sectionfilter_scan f buf (i # is) neq =
     (let x = filter_value f ! i XOR buf ! i in
      if maskandmode f ! i AND x \<noteq> 0 then None
      else sectionfilter_scan f buf is (neq OR (maskandnotmode f ! i AND x)))"

definition dvb_dmx_swfilter_sectionfilter ::
  "'c dmx_env \<Rightarrow> dvb_demux_feed \<Rightarrow> dvb_demux_filter \<Rightarrow> 'c \<Rightarrow> (cret \<times> 'c) option" where
  "dvb_dmx_swfilter_sectionfilter env feed f c =
     (case sectionfilter_scan f (secbuf feed) [0 ..< DVB_DEMUX_MASK_MAX] 0 of
        None \<Rightarrow> Some (Inr 0, c)
      | Some neq \<Rightarrow>
          if doneq f \<and> neq = 0 then Some (Inr 0, c)
          else do {
            dat \<leftarrow> memread (secbuf feed) 0 (seclen feed);
            Some (sec_cb env (feed_cb feed) dat f c)
          })"

text \<open>
  The \<open>do\<close> loop over the feed's chain of filters. The fuel is the number of filters of the demux;
  a chain without a cycle never needs more.
\<close>

fun sectionfilter_loop ::
  "'c dmx_env \<Rightarrow> nat \<Rightarrow> dvb_demux_filter list \<Rightarrow> dvb_demux_feed \<Rightarrow> nat \<Rightarrow> 'c \<Rightarrow> (cret \<times> 'c) option"
where
  "sectionfilter_loop env 0 fs feed f c = None"
| "sectionfilter_loop env (Suc n) fs feed f c = do {
     flt \<leftarrow> rd fs f;
     (r, c) \<leftarrow> dvb_dmx_swfilter_sectionfilter env feed flt c;
     case r of
       Inl _ \<Rightarrow> Some (Inl EPERM, c)
     | Inr _ \<Rightarrow>
         (case filter_next flt of
            None \<Rightarrow> Some (Inr 0, c)
          | Some f' \<Rightarrow>
              if is_filtering feed then sectionfilter_loop env n fs feed f' c else Some (Inr 0, c))
   }"

definition dvb_dmx_swfilter_section_feed ::
  "'c dmx_env \<Rightarrow> dvb_demux_filter list \<Rightarrow> dvb_demux_feed \<Rightarrow> 'c \<Rightarrow> (cret \<times> dvb_demux_feed \<times> 'c) option"
where
  "dvb_dmx_swfilter_section_feed env fs feed c =
     (if secbufp feed \<noteq> seclen feed then Some (Inl EPERM, feed, c)
      else if \<not> is_filtering feed then Some (Inr 0, feed, c)
      else case feed_filter feed of
        None \<Rightarrow> Some (Inr 0, feed, c)
      | Some f \<Rightarrow> do {
          (crc, feed) \<leftarrow>
            (if check_crc feed \<and> secbuf feed ! 1 AND 0x80 \<noteq> 0
             then do { dat \<leftarrow> memread (secbuf feed) 0 (seclen feed); Some (dvb_dmx_crc32 env feed dat) }
             else Some (0, feed));
          if crc \<noteq> 0 then Some (Inl EPERM, feed, c)
          else do {
            (r, c) \<leftarrow> sectionfilter_loop env (length fs) fs feed f c;
            case r of
              Inl _ \<Rightarrow> Some (Inl EPERM, feed, c)
            | Inr _ \<Rightarrow> do {
                mem \<leftarrow> memcpy (secbuf feed) 0 (replicate DVB_DEMUX_MASK_MAX 0) 0 DVB_DEMUX_MASK_MAX;
                Some (Inr 0, feed\<lparr>secbufp := 0, seclen := 0, secbuf := mem\<rparr>, c)
              }
          }
        })"


section \<open>Section reassembly\<close>

text \<open>
  The part of \<open>dvb_dmx_swfilter_section_packet\<close> for the bytes in front of the first new section:
  the rest of the section that was cut at the end of the previous packet.
\<close>

definition section_rest ::
  "'c dmx_env \<Rightarrow> dvb_demux_filter list \<Rightarrow> dvb_demux_feed \<Rightarrow> u8 list \<Rightarrow> nat \<Rightarrow> nat \<Rightarrow> 'c \<Rightarrow>
     (cret \<times> dvb_demux_feed \<times> 'c) option" where
  "section_rest env fs feed buf p ptr c = do {
     (bad, feed) \<leftarrow>
       (if 0 < secbufp feed \<and> secbufp feed < 3 then
          (let tmp = 3 - secbufp feed in
           if p + tmp \<ge> 187 then Some (True, feed)
           else do {
             mem \<leftarrow> dvb_dmx_memcopy (secbuf feed) (secbufp feed) buf (p + 1) tmp;
             let feed = feed\<lparr>secbuf := mem, seclen := section_length mem\<rparr>;
             Some (seclen feed > 4096, feed)
           })
        else Some (False, feed));
     if bad then Some (Inl EPERM, feed, c)
     else if int (seclen feed) - int (secbufp feed) = int ptr \<and> seclen feed \<noteq> 0 then do {
       mem \<leftarrow> dvb_dmx_memcopy (secbuf feed) (secbufp feed) buf (p + 1) ptr;
       (_, feed, c) \<leftarrow> dvb_dmx_swfilter_section_feed env fs
         (feed\<lparr>secbuf := mem, secbufp := secbufp feed + ptr\<rparr>) c;
       Some (Inr 0, feed, c)
     }
     else Some (Inr 0, feed, c)
   }"

text \<open>
  Its loop over the sections that start in the packet; \<open>count\<close> is \<open>188 - p\<close> at the loop head. The
  position grows by the length of a section, which is at least 3.
\<close>

function section_starts ::
  "'c dmx_env \<Rightarrow> dvb_demux_filter list \<Rightarrow> dvb_demux_feed \<Rightarrow> u8 list \<Rightarrow> nat \<Rightarrow> 'c \<Rightarrow>
     (cret \<times> dvb_demux_feed \<times> 'c) option" where
  "section_starts env fs feed buf p c =
     (let count = 188 - p in
      if count = 0 then Some (Inr 0, feed, c)
      else
       (let len = section_length (drop p buf);
            feed = feed\<lparr>crc_val := - 1\<rparr>;
            feed = (if count > 2 then feed\<lparr>seclen := len\<rparr> else feed) in
        if count > 2 \<and> len \<le> count then
          (if len > 4096 then Some (Inl EPERM, feed, c)
           else do {
             mem \<leftarrow> dvb_dmx_memcopy (secbuf feed) 0 buf p len;
             (_, feed, c) \<leftarrow> dvb_dmx_swfilter_section_feed env fs
               (feed\<lparr>secbuf := mem, secbufp := len\<rparr>) c;
             if 188 - (p + len) = 0 then Some (Inr 0, feed, c)
             else do {
               b \<leftarrow> rd buf (p + len);
               if b = 0xff then Some (Inr 0, feed, c)
               else section_starts env fs feed buf (p + len) c
             }
           })
        else if count \<le> 2 then Some (Inl EPERM, feed, c)
        else do {
          mem \<leftarrow> dvb_dmx_memcopy (secbuf feed) 0 buf p count;
          Some (Inr 0, feed\<lparr>secbuf := mem, secbufp := secbufp feed + count\<rparr>, c)
        }))"
  by pat_completeness auto
termination
  by (relation "measure (\<lambda>(_, _, _, _, p, _). 188 - p)") (auto simp: section_length_def)

declare section_starts.simps [simp del]

text \<open>A packet without the payload unit start indicator: the middle or the end of a section.\<close>

definition section_continue ::
  "'c dmx_env \<Rightarrow> dvb_demux_filter list \<Rightarrow> dvb_demux_feed \<Rightarrow> u8 list \<Rightarrow> nat \<Rightarrow> 'c \<Rightarrow>
     (cret \<times> dvb_demux_feed \<times> 'c) option" where
  "section_continue env fs feed buf p c =
     (let count = 188 - p in
      if secbufp feed = 0 then Some (Inl EPERM, feed, c)
      else do {
        (bad, feed) \<leftarrow>
          (if secbufp feed < 3 then
             (let tmp = 3 - secbufp feed in
              if tmp > count then Some (True, feed)
              else do {
                mem \<leftarrow> dvb_dmx_memcopy (secbuf feed) (secbufp feed) buf p tmp;
                let feed = feed\<lparr>crc_val := - 1, secbuf := mem, seclen := section_length mem\<rparr>;
                Some (seclen feed > 4096, feed)
              })
           else Some (False, feed));
        if bad then Some (Inl EPERM, feed, c)
        else if seclen feed < secbufp feed then Some (Inl EPERM, feed, c)
        else
         (let rest = seclen feed - secbufp feed in
          if rest \<le> count then do {
            mem \<leftarrow> dvb_dmx_memcopy (secbuf feed) (secbufp feed) buf p rest;
            (_, feed, c) \<leftarrow> dvb_dmx_swfilter_section_feed env fs
              (feed\<lparr>secbuf := mem, secbufp := secbufp feed + rest\<rparr>) c;
            Some (Inr 0, feed, c)
          }
          else do {
            mem \<leftarrow> dvb_dmx_memcopy (secbuf feed) (secbufp feed) buf p count;
            Some (Inr 0, feed\<lparr>secbuf := mem, secbufp := secbufp feed + count\<rparr>, c)
          })
      })"

definition dvb_dmx_swfilter_section_packet ::
  "'c dmx_env \<Rightarrow> dvb_demux_filter list \<Rightarrow> dvb_demux_feed \<Rightarrow> u8 list \<Rightarrow> 'c \<Rightarrow>
     (cret \<times> dvb_demux_feed \<times> 'c) option" where
  "dvb_dmx_swfilter_section_packet env fs feed buf c =
     (let count = payload buf in
      if count = 0 then Some (Inl EPERM, feed, c)
      else
       (let p = 188 - count;
            cc = buf ! 3 AND 0x0f;
            ccok = ((feed_cc feed + 1) AND 0x0f = cc);
            feed = feed\<lparr>feed_cc := cc\<rparr> in
        if buf ! 1 AND 0x40 \<noteq> 0 then do {
          ptr \<leftarrow> rd buf p;
          if p + unat ptr > 187 then Some (Inl EPERM, feed, c)
          else do {
            (r, feed, c) \<leftarrow>
              (if ptr \<noteq> 0 \<and> ccok then section_rest env fs feed buf p (unat ptr) c
               else Some (Inr 0, feed, c));
            case r of
              Inl e \<Rightarrow> Some (Inl e, feed, c)
            | Inr _ \<Rightarrow> section_starts env fs feed buf (p + unat ptr + 1) c
          }
        }
        else if \<not> ccok then Some (Inl EPERM, feed, c)
        else section_continue env fs feed buf p c))"


section \<open>Dispatch\<close>

definition dvb_dmx_swfilter_packet_type ::
  "'c dmx_env \<Rightarrow> dvb_demux_filter list \<Rightarrow> dvb_demux_feed \<Rightarrow> u8 list \<Rightarrow> 'c \<Rightarrow>
     (dvb_demux_feed \<times> 'c) option" where
  "dvb_dmx_swfilter_packet_type env fs feed buf c =
     (case feed_type feed of
        DMX_TYPE_TS \<Rightarrow>
          if \<not> is_filtering feed then Some (feed, c)
          else do {
            (feed, c) \<leftarrow>
              (if ts_type feed AND TS_PACKET \<noteq> 0 then
                 (if ts_type feed AND TS_PAYLOAD_ONLY \<noteq> 0
                  then map_option snd (dvb_dmx_swfilter_payload env feed buf c)
                  else do {
                    dat \<leftarrow> memread buf 0 188;
                    Some (feed, snd (ts_cb env (feed_cb feed) dat feed c))
                  })
               else Some (feed, c));
            if ts_type feed AND TS_DECODER \<noteq> 0 then
              (case write_to_decoder env of
                 None \<Rightarrow> Some (feed, c)
               | Some w \<Rightarrow> do { dat \<leftarrow> memread buf 0 188; Some (feed, w feed dat c) })
            else Some (feed, c)
          }
      | DMX_TYPE_SEC \<Rightarrow>
          if \<not> is_filtering feed then Some (feed, c)
          else do {
            (r, feed, c) \<leftarrow> dvb_dmx_swfilter_section_packet env fs feed buf c;
            case r of
              Inl _ \<Rightarrow> Some (feed\<lparr>seclen := 0, secbufp := 0\<rparr>, c)
            | Inr _ \<Rightarrow> Some (feed, c)
          }
      | DMX_TYPE_PES \<Rightarrow> Some (feed, c))"

text \<open>The loop over the feeds of the demux, in the order of its feed list.\<close>

fun swfilter_feeds ::
  "'c dmx_env \<Rightarrow> u8 list \<Rightarrow> nat list \<Rightarrow> dvb_demux \<Rightarrow> 'c \<Rightarrow> (dvb_demux \<times> 'c) option" where
  "swfilter_feeds env buf [] d c = Some (d, c)"
| "swfilter_feeds env buf (i # is) d c = do {
     feed \<leftarrow> rd (dmx_feeds d) i;
     (feed, c) \<leftarrow>
       (if feed_pid feed = ts_pid buf
        then dvb_dmx_swfilter_packet_type env (dmx_filters d) feed buf c
        else Some (feed, c));
     c \<leftarrow>
       (if feed_pid feed = 0x2000
        then do { dat \<leftarrow> memread buf 0 188; Some (snd (ts_cb env (feed_cb feed) dat feed c)) }
        else Some c);
     swfilter_feeds env buf is (d\<lparr>dmx_feeds := (dmx_feeds d)[i := feed]\<rparr>) c
   }"

definition dvb_dmx_swfilter_packet ::
  "'c dmx_env \<Rightarrow> u8 list \<Rightarrow> dvb_demux \<Rightarrow> 'c \<Rightarrow> (dvb_demux \<times> 'c) option" where
  "dvb_dmx_swfilter_packet env buf d c = swfilter_feeds env buf (feed_list d) d c"

end
