(* ===== verification/Demux_Sync.thy ===== *)
theory Demux_Sync
  imports Demux_Section
begin

text \<open>
  From a byte stream to packets: \<open>dvb_dmx_swfilter_packets\<close>, \<open>dvb_dmx_swfilter\<close> and
  \<open>dvb_dmx_swfilter_204\<close>. The last two look for the sync byte, take 188 or 204 bytes from there, and
  keep an incomplete packet at the end of the input in \<open>tsbuf\<close> until the next call.

  The locale \<open>frame_sync\<close> states what the two have in common, and shows once that such a routine
  refines the abstract framing of the whole stream (\<open>frames\<close> and \<open>leftover\<close>), so that the sizes of
  the pieces the hardware delivers do not matter.
\<close>

section \<open>The routines\<close>

fun dvb_dmx_swfilter_packets ::
  "'c dmx_env \<Rightarrow> u8 list \<Rightarrow> nat \<Rightarrow> dvb_demux \<Rightarrow> 'c \<Rightarrow> (dvb_demux \<times> 'c) option" where
  "dvb_dmx_swfilter_packets env buf 0 d c = Some (d, c)"
| "dvb_dmx_swfilter_packets env buf (Suc n) d c = do {
     b \<leftarrow> rd buf 0;
     (d, c) \<leftarrow>
       (if b = 0x47 then do {
          pkt \<leftarrow> memread buf 0 188;
          dvb_dmx_swfilter_packet env pkt d c
        } else Some (d, c));
     dvb_dmx_swfilter_packets env (drop 188 buf) n d c
   }"

text \<open>The \<open>while (p < count)\<close> loop, on the bytes from position \<open>p\<close> on.\<close>

function swfilter_scan ::
  "'c dmx_env \<Rightarrow> u8 list \<Rightarrow> dvb_demux \<Rightarrow> 'c \<Rightarrow> (dvb_demux \<times> 'c) option" where
  "swfilter_scan env [] d c = Some (d, c)"
| "swfilter_scan env (b # bs) d c =
     (if b = 0x47 then
        (if length (b # bs) \<ge> 188 then do {
           (d, c) \<leftarrow> dvb_dmx_swfilter_packet env (take 188 (b # bs)) d c;
           swfilter_scan env (drop 188 (b # bs)) d c
         } else do {
           mem \<leftarrow> memcpy (tsbuf d) 0 (b # bs) 0 (length (b # bs));
           Some (d\<lparr>tsbuf := mem, tsbufp := length (b # bs)\<rparr>, c)
         })
      else swfilter_scan env bs d c)"
  by pat_completeness auto
termination
  by (relation "measure (\<lambda>(_, buf, _, _). length buf)") auto

text \<open>The comparison \<open>count < (j = 188 - i)\<close> is unsigned, so it holds when \<open>j\<close> is negative.\<close>

definition dvb_dmx_swfilter ::
  "'c dmx_env \<Rightarrow> u8 list \<Rightarrow> dvb_demux \<Rightarrow> 'c \<Rightarrow> (dvb_demux \<times> 'c) option" where
  "dvb_dmx_swfilter env buf d c =
     (let i = tsbufp d; j = 188 - i in
      if i \<noteq> 0 then
        (if 188 < i \<or> length buf < j then do {
           mem \<leftarrow> memcpy (tsbuf d) i buf 0 (length buf);
           Some (d\<lparr>tsbuf := mem, tsbufp := i + length buf\<rparr>, c)
         } else do {
           mem \<leftarrow> memcpy (tsbuf d) i buf 0 j;
           let d = d\<lparr>tsbuf := mem\<rparr>;
           b \<leftarrow> rd mem 0;
           (d, c) \<leftarrow>
             (if b = 0x47 then do {
                pkt \<leftarrow> memread mem 0 188;
                dvb_dmx_swfilter_packet env pkt d c
              } else Some (d, c));
           swfilter_scan env (drop j buf) (d\<lparr>tsbufp := 0\<rparr>) c
         })
      else swfilter_scan env buf d c)"

text \<open>The 204 byte variant drops the 16 parity bytes and restores an inverted sync byte.\<close>

definition fix_sync :: "u8 list \<Rightarrow> u8 list" where
  "fix_sync pkt = (if pkt ! 0 = 0xB8 then pkt[0 := 0x47] else pkt)"

function swfilter_scan_204 ::
  "'c dmx_env \<Rightarrow> u8 list \<Rightarrow> dvb_demux \<Rightarrow> 'c \<Rightarrow> (dvb_demux \<times> 'c) option" where
  "swfilter_scan_204 env [] d c = Some (d, c)"
| "swfilter_scan_204 env (b # bs) d c =
     (if b = 0x47 \<or> b = 0xB8 then
        (if length (b # bs) \<ge> 204 then do {
           (d, c) \<leftarrow> dvb_dmx_swfilter_packet env (fix_sync (take 188 (b # bs))) d c;
           swfilter_scan_204 env (drop 204 (b # bs)) d c
         } else do {
           mem \<leftarrow> memcpy (tsbuf d) 0 (b # bs) 0 (length (b # bs));
           Some (d\<lparr>tsbuf := mem, tsbufp := length (b # bs)\<rparr>, c)
         })
      else swfilter_scan_204 env bs d c)"
  by pat_completeness auto
termination
  by (relation "measure (\<lambda>(_, buf, _, _). length buf)") auto

definition dvb_dmx_swfilter_204 ::
  "'c dmx_env \<Rightarrow> u8 list \<Rightarrow> dvb_demux \<Rightarrow> 'c \<Rightarrow> (dvb_demux \<times> 'c) option" where
  "dvb_dmx_swfilter_204 env buf d c =
     (let i = tsbufp d; j = 204 - i in
      if i \<noteq> 0 then
        (if 204 < i \<or> length buf < j then do {
           mem \<leftarrow> memcpy (tsbuf d) i buf 0 (length buf);
           Some (d\<lparr>tsbuf := mem, tsbufp := i + length buf\<rparr>, c)
         } else do {
           mem \<leftarrow> memcpy (tsbuf d) i buf 0 j;
           let d = d\<lparr>tsbuf := mem\<rparr>;
           b \<leftarrow> rd mem 0;
           (d, c) \<leftarrow>
             (if b = 0x47 \<or> b = 0xB8 then do {
                pkt \<leftarrow> memread mem 0 188;
                dvb_dmx_swfilter_packet env (fix_sync pkt) d c
              } else Some (d, c));
           swfilter_scan_204 env (drop j buf) (d\<lparr>tsbufp := 0\<rparr>) c
         })
      else swfilter_scan_204 env buf d c)"

declare swfilter_scan.simps(2) [simp del] swfilter_scan_204.simps(2) [simp del]


section \<open>Framing a stream\<close>

text \<open>The frames of a byte stream, and the incomplete frame at its end.\<close>

function frames :: "nat \<Rightarrow> (u8 \<Rightarrow> bool) \<Rightarrow> u8 list \<Rightarrow> u8 list list" where
  "frames n sync [] = []"
| "frames n sync (b # bs) =
     (if \<not> sync b then frames n sync bs
      else if length (b # bs) < n \<or> n = 0 then []
      else take n (b # bs) # frames n sync (drop n (b # bs)))"
  by pat_completeness auto
termination
  by (relation "measure (\<lambda>(_, _, buf). length buf)") auto

function leftover :: "nat \<Rightarrow> (u8 \<Rightarrow> bool) \<Rightarrow> u8 list \<Rightarrow> u8 list" where
  "leftover n sync [] = []"
| "leftover n sync (b # bs) =
     (if \<not> sync b then leftover n sync bs
      else if length (b # bs) < n \<or> n = 0 then b # bs
      else leftover n sync (drop n (b # bs)))"
  by pat_completeness auto
termination
  by (relation "measure (\<lambda>(_, _, buf). length buf)") auto

lemma frames_append:
  "0 < n \<Longrightarrow> frames n sync (a @ b) = frames n sync a @ frames n sync (leftover n sync a @ b)
    \<and> leftover n sync (a @ b) = leftover n sync (leftover n sync a @ b)"
proof (induction n sync a rule: frames.induct)
  case (1 n sync)
  then show ?case by simp
next
  case (2 n sync x xs)
  show ?case
  proof (cases "sync x \<and> n \<le> length (x # xs)")
    case True
    then have "drop n ((x # xs) @ b) = drop n (x # xs) @ b"
      and "take n ((x # xs) @ b) = take n (x # xs)" and "\<not> length ((x # xs) @ b) < n"
      by (simp_all only: drop_append take_append) simp_all
    with True 2 show ?thesis by (simp add: not_less)
  next
    case False
    with 2 show ?thesis by auto
  qed
qed

text \<open>Packets of the right size that all start with a sync byte are framed as they are.\<close>

lemma frames_concat:
  assumes "0 < n" "\<forall>p \<in> set ps. length p = n \<and> sync (hd p)"
  shows "frames n sync (concat ps) = ps \<and> leftover n sync (concat ps) = []"
  using assms(2)
proof (induction ps)
  case Nil
  then show ?case by simp
next
  case (Cons p ps)
  then obtain b bs where p: "p = b # bs" "sync b" "length (b # bs) = n"
    using assms(1) by (cases p) auto
  have "take n (p @ concat ps) = p" "drop n (p @ concat ps) = concat ps"
    using p(1,3) by (metis append_eq_conv_conj)+
  with Cons p assms(1) show ?case by simp
qed

text \<open>Handling frames one after the other.\<close>

fun handle_all :: "('p \<Rightarrow> 'x \<Rightarrow> 'x option) \<Rightarrow> 'p list \<Rightarrow> 'x \<Rightarrow> 'x option" where
  "handle_all h [] x = Some x"
| "handle_all h (p # ps) x = do { x \<leftarrow> h p x; handle_all h ps x }"

lemma handle_all_append:
  "handle_all h (ps @ qs) x = do { x \<leftarrow> handle_all h ps x; handle_all h qs x }"
  by (induction ps arbitrary: x) (simp_all add: Option.bind_assoc cong: Option.bind_cong)

text \<open>
  The interface of a synchroniser. \<open>carry\<close> is the incomplete frame it keeps, \<open>core\<close> the state the
  frames act on. \<open>feed\<close> stores a short input behind the carried bytes, skips a byte that is no sync
  byte, and otherwise hands one frame to \<open>handle\<close> and goes on with the rest.
\<close>

locale frame_sync =
  fixes blk :: nat
    and sync :: "u8 \<Rightarrow> bool"
    and handle :: "u8 list \<Rightarrow> 'x \<Rightarrow> 'x option"
    and ok :: "'s \<Rightarrow> bool"
    and carry :: "'s \<Rightarrow> u8 list"
    and core :: "'s \<Rightarrow> 'x"
    and feed :: "u8 list \<Rightarrow> 's \<Rightarrow> 's option"
  assumes blk_pos: "0 < blk"
    and ok_carry: "ok s \<Longrightarrow> carry s \<noteq> [] \<Longrightarrow> sync (hd (carry s)) \<and> length (carry s) < blk"
    and feed_nil: "ok s \<Longrightarrow> carry s = [] \<Longrightarrow> feed [] s = Some s"
    and feed_skip: "ok s \<Longrightarrow> carry s = [] \<Longrightarrow> \<not> sync b \<Longrightarrow> feed (b # buf) s = feed buf s"
    and feed_store: "ok s \<Longrightarrow> carry s @ buf \<noteq> [] \<Longrightarrow> sync (hd (carry s @ buf)) \<Longrightarrow>
      length (carry s @ buf) < blk \<Longrightarrow>
      \<exists>s'. feed buf s = Some s' \<and> ok s' \<and> carry s' = carry s @ buf \<and> core s' = core s"
    and feed_frame: "ok s \<Longrightarrow> sync (hd (carry s @ buf)) \<Longrightarrow> blk \<le> length (carry s @ buf) \<Longrightarrow>
      (case handle (take blk (carry s @ buf)) (core s) of
         None \<Rightarrow> feed buf s = None
       | Some x \<Rightarrow> \<exists>s'. feed buf s = feed (drop blk (carry s @ buf)) s' \<and> ok s' \<and> carry s' = []
           \<and> core s' = x)"
begin

definition abs_state :: "'s \<Rightarrow> u8 list \<times> 'x" where
  "abs_state s = (carry s, core s)"

text \<open>The abstract synchroniser: frame everything that was not yet framed, and handle the frames.\<close>

definition spec_feed :: "u8 list \<Rightarrow> u8 list \<times> 'x \<Rightarrow> (u8 list \<times> 'x) option" where
  "spec_feed buf = (\<lambda>(w, x). map_option (\<lambda>x. (leftover blk sync (w @ buf), x))
     (handle_all handle (frames blk sync (w @ buf)) x))"

lemma spec_feed_cases:
  "spec_feed [] ([], x) = Some ([], x)"
  "\<not> sync b \<Longrightarrow> spec_feed (b # buf) ([], x) = spec_feed buf ([], x)"
  "w @ buf \<noteq> [] \<Longrightarrow> sync (hd (w @ buf)) \<Longrightarrow> length (w @ buf) < blk \<Longrightarrow>
     spec_feed buf (w, x) = Some (w @ buf, x)"
  "sync (hd (w @ buf)) \<Longrightarrow> blk \<le> length (w @ buf) \<Longrightarrow>
     spec_feed buf (w, x) = (case handle (take blk (w @ buf)) x of None \<Rightarrow> None
       | Some x \<Rightarrow> spec_feed (drop blk (w @ buf)) ([], x))"
proof -
  show "spec_feed [] ([], x) = Some ([], x)" by (simp add: spec_feed_def)
  show "spec_feed (b # buf) ([], x) = spec_feed buf ([], x)" if "\<not> sync b"
    using that by (simp add: spec_feed_def)
  show "spec_feed buf (w, x) = Some (w @ buf, x)"
    if "w @ buf \<noteq> []" "sync (hd (w @ buf))" "length (w @ buf) < blk"
    using that by (cases "w @ buf") (auto simp: spec_feed_def)
  show "spec_feed buf (w, x) = (case handle (take blk (w @ buf)) x of None \<Rightarrow> None
       | Some x \<Rightarrow> spec_feed (drop blk (w @ buf)) ([], x))"
    if "sync (hd (w @ buf))" "blk \<le> length (w @ buf)"
  proof -
    from that(2) blk_pos obtain y ys where y: "w @ buf = y # ys" by (cases "w @ buf") auto
    with that blk_pos show ?thesis
      by (auto simp: spec_feed_def split: option.splits)
  qed
qed

theorem feed_refines:
  assumes "ok s"
  shows "map_option abs_state (feed buf s) = spec_feed buf (abs_state s)
    \<and> (\<forall>s'. feed buf s = Some s' \<longrightarrow> ok s')"
  using assms
proof (induction "length buf + length (carry s)" arbitrary: buf s rule: less_induct)
  case less
  let ?w = "carry s @ buf"
  consider (nil) "?w = []" | (skip) b bs where "carry s = []" "buf = b # bs" "\<not> sync b"
    | (store) "?w \<noteq> []" "sync (hd ?w)" "length ?w < blk"
    | (frame) "sync (hd ?w)" "blk \<le> length ?w"
  proof (cases "?w = []")
    case False
    show thesis
    proof (cases "sync (hd ?w)")
      case True
      with False store frame show thesis by (meson not_less)
    next
      case unsync: False
      then have "carry s = []" using ok_carry [OF less.prems] by (cases "carry s") auto
      with False unsync skip show thesis by (cases buf) auto
    qed
  qed (rule nil)
  then show ?case
  proof cases
    case nil
    with less.prems show ?thesis by (auto simp: feed_nil abs_state_def spec_feed_cases(1))
  next
    case skip
    with less.hyps [of bs s] less.prems show ?thesis
      by (auto simp: feed_skip abs_state_def spec_feed_cases(2))
  next
    case store
    with feed_store [OF less.prems store] show ?thesis
      by (auto simp: abs_state_def spec_feed_cases(3))
  next
    case frame
    show ?thesis
    proof (cases "handle (take blk ?w) (core s)")
      case None
      with feed_frame [OF less.prems frame] show ?thesis
        by (simp add: abs_state_def spec_feed_cases(4) [OF frame])
    next
      case (Some x)
      with feed_frame [OF less.prems frame] obtain s' where
        s': "feed buf s = feed (drop blk ?w) s'" "ok s'" "carry s' = []" "core s' = x"
        by auto
      have "length (drop blk ?w) + length (carry s') < length buf + length (carry s)"
        using frame(2) blk_pos s'(3) by simp
      from less.hyps [OF this s'(2)] s' Some show ?thesis
        by (simp add: abs_state_def spec_feed_cases(4) [OF frame])
    qed
  qed
qed

lemma spec_feed_append:
  "spec_feed (a @ b) s = do { s \<leftarrow> spec_feed a s; spec_feed b s }"
proof (cases s)
  case (Pair w x)
  show ?thesis
    using frames_append [OF blk_pos, of sync "w @ a" b]
    by (cases "handle_all handle (frames blk sync (w @ a)) x")
      (simp_all add: spec_feed_def Pair handle_all_append)
qed

text \<open>How the input is cut does not matter.\<close>

lemma feed_chunks:
  assumes "ok s"
  shows "map_option abs_state (handle_all feed chunks s) = spec_feed (concat chunks) (abs_state s)"
  using assms
proof (induction chunks arbitrary: s)
  case Nil
  then show ?case
    using feed_refines [OF Nil.prems, of "[]"] ok_carry [OF Nil.prems]
    by (cases "carry s") (auto simp: abs_state_def spec_feed_def)
next
  case (Cons a chunks)
  show ?case
  proof (cases "feed a s")
    case None
    with feed_refines [OF Cons.prems, of a] show ?thesis by (simp add: spec_feed_append)
  next
    case (Some s')
    with feed_refines [OF Cons.prems, of a] have "ok s'" "spec_feed a (abs_state s) = Some (abs_state s')"
      by auto
    with Cons.IH [of s'] Some show ?thesis by (simp add: spec_feed_append)
  qed
qed

theorem feed_append:
  assumes "ok s"
  shows "map_option abs_state (feed (a @ b) s)
       = map_option abs_state (do { s \<leftarrow> feed a s; feed b s })"
proof (cases "feed a s")
  case None
  then show ?thesis
    using feed_refines [OF assms, of a] feed_refines [OF assms, of "a @ b"]
    by (auto simp: spec_feed_append)
next
  case (Some s')
  then have "ok s'" "spec_feed a (abs_state s) = Some (abs_state s')"
    using feed_refines [OF assms, of a] by auto
  then show ?thesis
    using Some feed_refines [OF assms, of "a @ b"] feed_refines [of s' b]
    by (simp add: spec_feed_append)
qed

end


section \<open>The two synchronisers of the driver\<close>

definition sync_core :: "dvb_demux \<times> 'c \<Rightarrow> dvb_demux \<times> 'c" where
  "sync_core = (\<lambda>(d, c). (d\<lparr>tsbuf := [], tsbufp := 0\<rparr>, c))"

definition sync_carry :: "dvb_demux \<times> 'c \<Rightarrow> u8 list" where
  "sync_carry = (\<lambda>(d, c). take (tsbufp d) (tsbuf d))"

definition sync_ok :: "nat \<Rightarrow> (u8 \<Rightarrow> bool) \<Rightarrow> dvb_demux \<times> 'c \<Rightarrow> bool" where
  "sync_ok n sync = (\<lambda>(d, c). length (tsbuf d) = 204
     \<and> (tsbufp d \<noteq> 0 \<longrightarrow> tsbufp d < n \<and> sync (tsbuf d ! 0)))"

lemmas sync_defs = sync_core_def sync_carry_def sync_ok_def

text \<open>The packet handler neither reads nor writes the bytes kept for the next call.\<close>

lemma swfilter_feeds_tsbuf:
  "swfilter_feeds env buf is (d\<lparr>tsbuf := t, tsbufp := n\<rparr>) c
     = map_option (\<lambda>(d, c). (d\<lparr>tsbuf := t, tsbufp := n\<rparr>, c)) (swfilter_feeds env buf is d c)"
proof (induction "is" arbitrary: d c)
  case Nil
  then show ?case by simp
next
  case (Cons i "is")
  have upd: "d\<lparr>tsbuf := t, tsbufp := n, dmx_feeds := fs\<rparr> = d\<lparr>dmx_feeds := fs, tsbuf := t, tsbufp := n\<rparr>"
    for fs by simp
  show ?case
    by (auto simp: upd Cons.IH map_option_case split: Option.bind_splits prod.splits option.splits)
qed

lemma swfilter_packet_tsbuf:
  "dvb_dmx_swfilter_packet env buf (d\<lparr>tsbuf := t, tsbufp := n\<rparr>) c
     = map_option (\<lambda>(d, c). (d\<lparr>tsbuf := t, tsbufp := n\<rparr>, c)) (dvb_dmx_swfilter_packet env buf d c)"
  by (simp add: dvb_dmx_swfilter_packet_def swfilter_feeds_tsbuf)

text \<open>So it acts on the rest of the demux alone.\<close>

lemma swfilter_packet_core:
  "dvb_dmx_swfilter_packet env p d c =
     map_option (\<lambda>(x, c). (x\<lparr>tsbuf := tsbuf d, tsbufp := tsbufp d\<rparr>, c))
       (dvb_dmx_swfilter_packet env p (d\<lparr>tsbuf := [], tsbufp := 0\<rparr>) c)"
  using swfilter_packet_tsbuf [of env p "tsbufp d" "tsbuf d" "d\<lparr>tsbuf := [], tsbufp := 0\<rparr>" c] by simp

lemma swfilter_packet_core_fixed:
  assumes "dvb_dmx_swfilter_packet env p (d\<lparr>tsbuf := [], tsbufp := 0\<rparr>) c = Some (x, c')"
  shows "x\<lparr>tsbuf := [], tsbufp := 0\<rparr> = x"
  using assms swfilter_packet_tsbuf [of env p 0 "[]" "d\<lparr>tsbuf := [], tsbufp := 0\<rparr>" c] by auto

lemma blit_carry:
  assumes "length mem = 204" "i \<le> n" "n \<le> i + length buf" "n \<le> 204"
  shows "take n (blit mem i (take (n - i) buf)) = take i mem @ take (n - i) buf"
  using assms take_blit_end [of i "take (n - i) buf" mem] by simp

text \<open>Both synchronisers store a short input in the same way.\<close>

lemma store_state:
  assumes "sync_ok n sync (d, c)" "n \<le> 204" "length (sync_carry (d, c) @ buf) < n"
    and "sync (hd (sync_carry (d, c) @ buf))" "sync_carry (d, c) @ buf \<noteq> []"
  shows "sync_ok n sync (d\<lparr>tsbuf := blit (tsbuf d) (tsbufp d) buf, tsbufp := tsbufp d + length buf\<rparr>, c)
    \<and> sync_carry (d\<lparr>tsbuf := blit (tsbuf d) (tsbufp d) buf, tsbufp := tsbufp d + length buf\<rparr>, c)
      = sync_carry (d, c) @ buf"
proof -
  have len: "length (tsbuf d) = 204" "tsbufp d + length buf < n"
    using assms by (auto simp: sync_defs split: if_splits)
  then have t: "take (tsbufp d + length buf) (blit (tsbuf d) (tsbufp d) buf)
      = take (tsbufp d) (tsbuf d) @ buf"
    using assms(2) by (intro take_blit_end) simp
  have ne: "0 < tsbufp d + length buf"
    using assms(5) by (auto simp: sync_carry_def)
  have "blit (tsbuf d) (tsbufp d) buf ! 0 = take (tsbufp d + length buf) (blit (tsbuf d) (tsbufp d) buf) ! 0"
    using ne by simp
  also have "\<dots> = hd (sync_carry (d, c) @ buf)"
    unfolding t using assms(5) by (simp add: sync_carry_def hd_conv_nth)
  finally have "sync (blit (tsbuf d) (tsbufp d) buf ! 0)"
    using assms(4) by simp
  with t len assms show ?thesis by (simp add: sync_defs)
qed

lemma carry_length: "sync_ok n sync (d, c) \<Longrightarrow> n \<le> 204 \<Longrightarrow> length (sync_carry (d, c)) = tsbufp d"
  by (auto simp: sync_defs)


lemma swfilter_frame:
  assumes "sync_ok 188 (\<lambda>b. b = 0x47) (d, c)" "hd (sync_carry (d, c) @ buf) = 0x47"
    and "188 \<le> length (sync_carry (d, c) @ buf)"
  shows "case dvb_dmx_swfilter_packet env (take 188 (sync_carry (d, c) @ buf)) (d\<lparr>tsbuf := [], tsbufp := 0\<rparr>) c of
      None \<Rightarrow> dvb_dmx_swfilter env buf d c = None
    | Some (x, c') \<Rightarrow> \<exists>d'. dvb_dmx_swfilter env buf d c
          = dvb_dmx_swfilter env (drop 188 (sync_carry (d, c) @ buf)) d' c'
        \<and> sync_ok 188 (\<lambda>b. b = 0x47) (d', c') \<and> sync_carry (d', c') = []
        \<and> d'\<lparr>tsbuf := [], tsbufp := 0\<rparr> = x"
proof (cases "tsbufp d = 0")
  case True
  then have w: "sync_carry (d, c) @ buf = buf" by (simp add: sync_carry_def)
  obtain b bs where b: "buf = b # bs" using assms(3) w by (cases buf) auto
  show ?thesis
    using True assms swfilter_packet_core [of env "take 188 buf" d c]
      swfilter_packet_core_fixed [of env "take 188 buf" d c] unfolding w
    by (auto simp: b dvb_dmx_swfilter_def swfilter_scan.simps(2) sync_defs split: option.splits
        intro!: exI [of _ "_\<lparr>tsbuf := tsbuf d, tsbufp := 0\<rparr>"])
next
  case False
  let ?i = "tsbufp d"
  let ?mem = "blit (tsbuf d) ?i (take (188 - ?i) buf)"
  have len: "length (tsbuf d) = 204" "?i < 188" "tsbuf d ! 0 = 0x47" "188 \<le> ?i + length buf"
    using False assms by (auto simp: sync_defs split: if_splits)
  have w: "sync_carry (d, c) @ buf = take ?i (tsbuf d) @ buf" by (simp add: sync_carry_def)
  have t: "take 188 ?mem = take 188 (take ?i (tsbuf d) @ buf)"
    using blit_carry [of "tsbuf d" ?i 188 buf] len by simp
  have m: "?mem ! 0 = tsbuf d ! 0" "length ?mem = 204"
    using len False by (simp_all add: nth_blit)
  have cp: "memcpy (tsbuf d) ?i buf 0 (188 - ?i) = Some ?mem"
    using len by simp
  have pk: "memread ?mem 0 188 = Some (take 188 (take ?i (tsbuf d) @ buf))"
    using t m by simp
  have ge: "\<not> length buf < 188 - ?i" and dr: "drop (188 - ?i) buf = drop 188 (take ?i (tsbuf d) @ buf)"
    using len by simp_all
  let ?p = "take 188 (take ?i (tsbuf d) @ buf)"
  have red: "dvb_dmx_swfilter env buf d c = do {
      (d, c) \<leftarrow> dvb_dmx_swfilter_packet env ?p (d\<lparr>tsbuf := ?mem\<rparr>) c;
      swfilter_scan env (drop (188 - ?i) buf) (d\<lparr>tsbufp := 0\<rparr>) c }"
    unfolding dvb_dmx_swfilter_def Let_def using False len m pk ge by (simp only: cp) simp
  have core: "dvb_dmx_swfilter_packet env ?p (d\<lparr>tsbuf := ?mem\<rparr>) c
      = map_option (\<lambda>(x, c). (x\<lparr>tsbuf := ?mem, tsbufp := ?i\<rparr>, c))
          (dvb_dmx_swfilter_packet env ?p (d\<lparr>tsbuf := [], tsbufp := 0\<rparr>) c)"
    using swfilter_packet_core [of env ?p "d\<lparr>tsbuf := ?mem\<rparr>" c] by simp
  show ?thesis
  proof (cases "dvb_dmx_swfilter_packet env ?p (d\<lparr>tsbuf := [], tsbufp := 0\<rparr>) c")
    case None
    then show ?thesis unfolding w by (simp only: red core) simp
  next
    case (Some xc)
    obtain x c' where xc: "xc = (x, c')" by (cases xc)
    have "x\<lparr>tsbuf := [], tsbufp := 0\<rparr> = x"
      using Some xc by (auto intro: swfilter_packet_core_fixed)
    moreover have "dvb_dmx_swfilter env buf d c = dvb_dmx_swfilter env
        (drop 188 (take ?i (tsbuf d) @ buf)) (x\<lparr>tsbuf := ?mem, tsbufp := 0\<rparr>) c'"
      using Some xc by (simp only: red core dr) (simp add: dvb_dmx_swfilter_def)
    ultimately show ?thesis
      unfolding w Some xc using m(2)
      by (auto simp: sync_ok_def sync_carry_def intro!: exI [of _ "x\<lparr>tsbuf := ?mem, tsbufp := 0\<rparr>"]
          simp del: drop_append)
  qed
qed

interpretation ts188: frame_sync 188 "\<lambda>b. b = 0x47"
    "\<lambda>p (d, c). dvb_dmx_swfilter_packet env p d c" "sync_ok 188 (\<lambda>b. b = 0x47)" sync_carry sync_core
    "\<lambda>buf (d, c). dvb_dmx_swfilter env buf d c" for env :: "'c dmx_env"
proof unfold_locales
  fix s :: "dvb_demux \<times> 'c" and b :: u8 and buf :: "u8 list"
  obtain d c where s: "s = (d, c)" by (cases s)
  assume ok: "sync_ok 188 (\<lambda>b. b = 0x47) s"
  show "hd (sync_carry s) = 0x47 \<and> length (sync_carry s) < 188" if "sync_carry s \<noteq> []"
    using that ok by (auto simp: s sync_defs hd_conv_nth)
  show "(case s of (d, c) \<Rightarrow> dvb_dmx_swfilter env [] d c) = Some s" if "sync_carry s = []"
    using that ok by (auto simp: s sync_defs dvb_dmx_swfilter_def)
  show "(case s of (d, c) \<Rightarrow> dvb_dmx_swfilter env (b # buf) d c)
      = (case s of (d, c) \<Rightarrow> dvb_dmx_swfilter env buf d c)" if "sync_carry s = []" "b \<noteq> 0x47"
    using that ok by (auto simp: s sync_defs dvb_dmx_swfilter_def swfilter_scan.simps(2))
  show "\<exists>s'. (case s of (d, c) \<Rightarrow> dvb_dmx_swfilter env buf d c) = Some s'
      \<and> sync_ok 188 (\<lambda>b. b = 0x47) s' \<and> sync_carry s' = sync_carry s @ buf \<and> sync_core s' = sync_core s"
    if "sync_carry s @ buf \<noteq> []" "hd (sync_carry s @ buf) = 0x47" "length (sync_carry s @ buf) < 188"
  proof -
    let ?d = "d\<lparr>tsbuf := blit (tsbuf d) (tsbufp d) buf, tsbufp := tsbufp d + length buf\<rparr>"
    have "dvb_dmx_swfilter env buf d c = Some (?d, c)"
    proof (cases "tsbufp d = 0")
      case True
      then have "buf \<noteq> []" using that(1) by (simp add: s sync_carry_def)
      then obtain b bs where "buf = b # bs" by (cases buf) auto
      with True that ok show ?thesis
        by (simp add: s sync_ok_def sync_carry_def dvb_dmx_swfilter_def swfilter_scan.simps(2))
    next
      case False
      have "tsbufp d + length buf < 188" "length (tsbuf d) = 204" "length buf < 188 - tsbufp d"
        using that(3) ok by (auto simp: s sync_ok_def sync_carry_def)
      with False show ?thesis by (simp add: dvb_dmx_swfilter_def Let_def)
    qed
    with store_state [of 188 _ d c buf] ok that show ?thesis
      by (auto simp: s sync_core_def)
  qed
  show "case (case sync_core s of (d, c) \<Rightarrow>
        dvb_dmx_swfilter_packet env (take 188 (sync_carry s @ buf)) d c) of
      None \<Rightarrow> (case s of (d, c) \<Rightarrow> dvb_dmx_swfilter env buf d c) = None
    | Some x \<Rightarrow> \<exists>s'. (case s of (d, c) \<Rightarrow> dvb_dmx_swfilter env buf d c)
          = (case s' of (d, c) \<Rightarrow> dvb_dmx_swfilter env (drop 188 (sync_carry s @ buf)) d c)
        \<and> sync_ok 188 (\<lambda>b. b = 0x47) s' \<and> sync_carry s' = [] \<and> sync_core s' = x"
    if "hd (sync_carry s @ buf) = 0x47" "188 \<le> length (sync_carry s @ buf)"
    using swfilter_frame [of d c buf env] ok that
    by (auto simp: s sync_core_def simp del: drop_append length_append split: option.splits)
qed simp

lemma swfilter_204_frame:
  assumes "sync_ok 204 (\<lambda>b. b = 0x47 \<or> b = 0xB8) (d, c)" "hd (sync_carry (d, c) @ buf) \<in> {0x47, 0xB8}"
    and "204 \<le> length (sync_carry (d, c) @ buf)"
  shows "case dvb_dmx_swfilter_packet env (fix_sync (take 188 (sync_carry (d, c) @ buf))) (d\<lparr>tsbuf := [], tsbufp := 0\<rparr>) c of
      None \<Rightarrow> dvb_dmx_swfilter_204 env buf d c = None
    | Some (x, c') \<Rightarrow> \<exists>d'. dvb_dmx_swfilter_204 env buf d c
          = dvb_dmx_swfilter_204 env (drop 204 (sync_carry (d, c) @ buf)) d' c'
        \<and> sync_ok 204 (\<lambda>b. b = 0x47 \<or> b = 0xB8) (d', c') \<and> sync_carry (d', c') = []
        \<and> d'\<lparr>tsbuf := [], tsbufp := 0\<rparr> = x"
proof (cases "tsbufp d = 0")
  case True
  then have w: "sync_carry (d, c) @ buf = buf" by (simp add: sync_carry_def)
  obtain b bs where b: "buf = b # bs" using assms(3) w by (cases buf) auto
  show ?thesis
    using True assms swfilter_packet_core [of env "fix_sync (take 188 buf)" d c]
      swfilter_packet_core_fixed [of env "fix_sync (take 188 buf)" d c] unfolding w
    by (auto simp: b dvb_dmx_swfilter_204_def swfilter_scan_204.simps(2) sync_defs split: option.splits
        intro!: exI [of _ "_\<lparr>tsbuf := tsbuf d, tsbufp := 0\<rparr>"])
next
  case False
  let ?i = "tsbufp d"
  let ?mem = "blit (tsbuf d) ?i (take (204 - ?i) buf)"
  have len: "length (tsbuf d) = 204" "?i < 204" "tsbuf d ! 0 = 0x47 \<or> tsbuf d ! 0 = 0xB8" "204 \<le> ?i + length buf"
    using False assms by (auto simp: sync_defs split: if_splits)
  have w: "sync_carry (d, c) @ buf = take ?i (tsbuf d) @ buf" by (simp add: sync_carry_def)
  have t: "take 204 ?mem = take 204 (take ?i (tsbuf d) @ buf)"
    using blit_carry [of "tsbuf d" ?i 204 buf] len by simp
  have m: "?mem ! 0 = tsbuf d ! 0" "length ?mem = 204"
    using len False by (simp_all add: nth_blit)
  have cp: "memcpy (tsbuf d) ?i buf 0 (204 - ?i) = Some ?mem"
    using len by simp
  have pk: "memread ?mem 0 188 = Some (take 188 (take ?i (tsbuf d) @ buf))"
    using m arg_cong [OF t, of "take 188"] by (simp del: take_append)
  have ge: "\<not> length buf < 204 - ?i" and dr: "drop (204 - ?i) buf = drop 204 (take ?i (tsbuf d) @ buf)"
    using len by simp_all
  let ?p = "fix_sync (take 188 (take ?i (tsbuf d) @ buf))"
  have red: "dvb_dmx_swfilter_204 env buf d c = do {
      (d, c) \<leftarrow> dvb_dmx_swfilter_packet env ?p (d\<lparr>tsbuf := ?mem\<rparr>) c;
      swfilter_scan_204 env (drop (204 - ?i) buf) (d\<lparr>tsbufp := 0\<rparr>) c }"
    unfolding dvb_dmx_swfilter_204_def Let_def using False len m pk ge by (simp only: cp) simp
  have core: "dvb_dmx_swfilter_packet env ?p (d\<lparr>tsbuf := ?mem\<rparr>) c
      = map_option (\<lambda>(x, c). (x\<lparr>tsbuf := ?mem, tsbufp := ?i\<rparr>, c))
          (dvb_dmx_swfilter_packet env ?p (d\<lparr>tsbuf := [], tsbufp := 0\<rparr>) c)"
    using swfilter_packet_core [of env ?p "d\<lparr>tsbuf := ?mem\<rparr>" c] by simp
  show ?thesis
  proof (cases "dvb_dmx_swfilter_packet env ?p (d\<lparr>tsbuf := [], tsbufp := 0\<rparr>) c")
    case None
    then show ?thesis unfolding w by (simp only: red core) simp
  next
    case (Some xc)
    obtain x c' where xc: "xc = (x, c')" by (cases xc)
    have "x\<lparr>tsbuf := [], tsbufp := 0\<rparr> = x"
      using Some xc by (auto intro: swfilter_packet_core_fixed)
    moreover have "dvb_dmx_swfilter_204 env buf d c = dvb_dmx_swfilter_204 env
        (drop 204 (take ?i (tsbuf d) @ buf)) (x\<lparr>tsbuf := ?mem, tsbufp := 0\<rparr>) c'"
      using Some xc by (simp only: red core dr) (simp add: dvb_dmx_swfilter_204_def)
    ultimately show ?thesis
      unfolding w Some xc using m(2)
      by (auto simp: sync_ok_def sync_carry_def intro!: exI [of _ "x\<lparr>tsbuf := ?mem, tsbufp := 0\<rparr>"]
          simp del: drop_append)
  qed
qed

interpretation ts204: frame_sync 204 "\<lambda>b. b = 0x47 \<or> b = 0xB8"
    "\<lambda>p (d, c). dvb_dmx_swfilter_packet env (fix_sync (take 188 p)) d c" "sync_ok 204 (\<lambda>b. b = 0x47 \<or> b = 0xB8)" sync_carry sync_core
    "\<lambda>buf (d, c). dvb_dmx_swfilter_204 env buf d c" for env :: "'c dmx_env"
proof unfold_locales
  fix s :: "dvb_demux \<times> 'c" and b :: u8 and buf :: "u8 list"
  obtain d c where s: "s = (d, c)" by (cases s)
  assume ok: "sync_ok 204 (\<lambda>b. b = 0x47 \<or> b = 0xB8) s"
  show "(hd (sync_carry s) = 0x47 \<or> hd (sync_carry s) = 0xB8) \<and> length (sync_carry s) < 204" if "sync_carry s \<noteq> []"
    using that ok by (auto simp: s sync_defs hd_conv_nth)
  show "(case s of (d, c) \<Rightarrow> dvb_dmx_swfilter_204 env [] d c) = Some s" if "sync_carry s = []"
    using that ok by (auto simp: s sync_defs dvb_dmx_swfilter_204_def)
  show "(case s of (d, c) \<Rightarrow> dvb_dmx_swfilter_204 env (b # buf) d c)
      = (case s of (d, c) \<Rightarrow> dvb_dmx_swfilter_204 env buf d c)" if "sync_carry s = []" "\<not> (b = 0x47 \<or> b = 0xB8)"
    using that ok by (auto simp: s sync_defs dvb_dmx_swfilter_204_def swfilter_scan_204.simps(2))
  show "\<exists>s'. (case s of (d, c) \<Rightarrow> dvb_dmx_swfilter_204 env buf d c) = Some s'
      \<and> sync_ok 204 (\<lambda>b. b = 0x47 \<or> b = 0xB8) s' \<and> sync_carry s' = sync_carry s @ buf \<and> sync_core s' = sync_core s"
    if "sync_carry s @ buf \<noteq> []" "hd (sync_carry s @ buf) = 0x47 \<or> hd (sync_carry s @ buf) = 0xB8" "length (sync_carry s @ buf) < 204"
  proof -
    let ?d = "d\<lparr>tsbuf := blit (tsbuf d) (tsbufp d) buf, tsbufp := tsbufp d + length buf\<rparr>"
    have "dvb_dmx_swfilter_204 env buf d c = Some (?d, c)"
    proof (cases "tsbufp d = 0")
      case True
      then have "buf \<noteq> []" using that(1) by (simp add: s sync_carry_def)
      then obtain b bs where "buf = b # bs" by (cases buf) auto
      with True that ok show ?thesis
        by (simp add: s sync_ok_def sync_carry_def dvb_dmx_swfilter_204_def swfilter_scan_204.simps(2))
    next
      case False
      have "tsbufp d + length buf < 204" "length (tsbuf d) = 204" "length buf < 204 - tsbufp d"
        using that(3) ok by (auto simp: s sync_ok_def sync_carry_def)
      with False show ?thesis by (simp add: dvb_dmx_swfilter_204_def Let_def)
    qed
    with store_state [of 204 _ d c buf] ok that show ?thesis
      by (auto simp: s sync_core_def)
  qed
  show "case (case sync_core s of (d, c) \<Rightarrow>
        dvb_dmx_swfilter_packet env (fix_sync (take 188 (take 204 (sync_carry s @ buf)))) d c) of
      None \<Rightarrow> (case s of (d, c) \<Rightarrow> dvb_dmx_swfilter_204 env buf d c) = None
    | Some x \<Rightarrow> \<exists>s'. (case s of (d, c) \<Rightarrow> dvb_dmx_swfilter_204 env buf d c)
          = (case s' of (d, c) \<Rightarrow> dvb_dmx_swfilter_204 env (drop 204 (sync_carry s @ buf)) d c)
        \<and> sync_ok 204 (\<lambda>b. b = 0x47 \<or> b = 0xB8) s' \<and> sync_carry s' = [] \<and> sync_core s' = x"
    if "hd (sync_carry s @ buf) = 0x47 \<or> hd (sync_carry s @ buf) = 0xB8" "204 \<le> length (sync_carry s @ buf)"
    using swfilter_204_frame [of d c buf env] ok that
    by (auto simp: s sync_core_def simp del: drop_append length_append take_append split: option.splits)
qed simp


section \<open>Properties\<close>

lemma handle_all_core:
  "map_option sync_core (handle_all (\<lambda>p (d, c). dvb_dmx_swfilter_packet env (f p) d c) ps (d, c))
     = handle_all (\<lambda>p (d, c). dvb_dmx_swfilter_packet env (f p) d c) ps (sync_core (d, c))"
proof (induction ps arbitrary: d c)
  case Nil
  then show ?case by simp
next
  case (Cons p ps)
  show ?case
  proof (cases "dvb_dmx_swfilter_packet env (f p) (d\<lparr>tsbuf := [], tsbufp := 0\<rparr>) c")
    case None
    with swfilter_packet_core [of env "f p" d c] show ?thesis by (simp add: sync_core_def)
  next
    case (Some xc)
    obtain x c' where xc: "xc = (x, c')" by (cases xc)
    have "x\<lparr>tsbuf := [], tsbufp := 0\<rparr> = x"
      using Some xc by (auto intro: swfilter_packet_core_fixed)
    with Some xc swfilter_packet_core [of env "f p" d c]
      Cons.IH [of "x\<lparr>tsbuf := tsbuf d, tsbufp := tsbufp d\<rparr>" c']
    show ?thesis by (simp add: sync_core_def)
  qed
qed

lemma swfilter_packets_handle_all:
  assumes "\<forall>p \<in> set ps. length p = 188 \<and> hd p = 0x47"
  shows "dvb_dmx_swfilter_packets env (concat ps) (length ps) d c
       = handle_all (\<lambda>p (d, c). dvb_dmx_swfilter_packet env p d c) ps (d, c)"
  using assms
proof (induction ps arbitrary: d c)
  case Nil
  then show ?case by simp
next
  case (Cons p ps)
  then obtain b bs where "p = b # bs" by (cases p) auto
  with Cons.prems have p: "length p = 188" "p ! 0 = 0x47" "p \<noteq> []" by simp_all
  then have "rd (p @ concat ps) 0 = Some 0x47" "memread (p @ concat ps) 0 188 = Some p"
    "drop 188 (p @ concat ps) = concat ps"
    by (simp_all add: nth_append)
  moreover have "(\<lambda>(d, c). dvb_dmx_swfilter_packets env (concat ps) (length ps) d c)
      = handle_all (\<lambda>p (d, c). dvb_dmx_swfilter_packet env p d c) ps"
    using Cons by (simp add: fun_eq_iff)
  ultimately show ?case by simp
qed

text \<open>
  C3: the sizes of the pieces do not matter. If a stream of 188 byte packets reaches
  \<open>dvb_dmx_swfilter\<close> in pieces of any sizes, cut anywhere, the demux and its clients end up as if
  the packets had been handed to \<open>dvb_dmx_swfilter_packets\<close> in one piece.
\<close>

theorem swfilter_any_pieces:
  assumes "length (tsbuf d) = 204" "tsbufp d = 0"
    and "\<forall>p \<in> set ps. length p = 188 \<and> hd p = 0x47" "concat pieces = concat ps"
  shows "map_option sync_core (handle_all (\<lambda>buf (d, c). dvb_dmx_swfilter env buf d c) pieces (d, c))
       = map_option sync_core (dvb_dmx_swfilter_packets env (concat ps) (length ps) d c)"
proof -
  have ok: "sync_ok 188 (\<lambda>b. b = 0x47) (d, c)" using assms(1,2) by (simp add: sync_ok_def)
  have w: "sync_carry (d, c) = []" using assms(2) by (simp add: sync_carry_def)
  let ?h = "\<lambda>p (d, c). dvb_dmx_swfilter_packet env p d c"
  have "map_option (ts188.abs_state) (handle_all (\<lambda>buf (d, c). dvb_dmx_swfilter env buf d c) pieces (d, c))
      = map_option (\<lambda>x. ([], x)) (handle_all ?h ps (sync_core (d, c)))"
    using ts188.feed_chunks [OF ok, of env pieces] frames_concat [of 188 ps "\<lambda>b. b = 0x47"] assms(3,4) w
    by (simp add: ts188.spec_feed_def ts188.abs_state_def)
  from arg_cong [OF this, of "map_option snd"] show ?thesis
    using handle_all_core [of env "\<lambda>p. p" ps d c]
    by (simp add: option.map_comp ts188.abs_state_def comp_def option.map_ident
        swfilter_packets_handle_all [OF assms(3)])
qed

text \<open>
  Resynchronisation. From any state with an incomplete packet in \<open>tsbuf\<close> and on any input,
  garbage included, feeding two pieces one after the other is the same as feeding them together.
\<close>

theorem swfilter_append:
  assumes "sync_ok 188 (\<lambda>b. b = 0x47) (d, c)"
  shows "map_option (\<lambda>s. (sync_carry s, sync_core s)) (dvb_dmx_swfilter env (a @ b) d c)
       = map_option (\<lambda>s. (sync_carry s, sync_core s))
           (do { (d, c) \<leftarrow> dvb_dmx_swfilter env a d c; dvb_dmx_swfilter env b d c })"
  using ts188.feed_append [OF assms, of env a b]
  by (simp add: ts188.abs_state_def [abs_def])

text \<open>
  The 204 byte format, as the hardware delivers it with parity bytes and inverted sync bytes
  (0xB8): in whatever pieces it arrives, exactly the first 188 bytes of each frame are handled,
  with the sync byte restored.
\<close>

theorem swfilter_204_any_pieces:
  assumes "length (tsbuf d) = 204" "tsbufp d = 0"
    and "\<forall>p \<in> set ps. length p = 204 \<and> (hd p = 0x47 \<or> hd p = 0xB8)" "concat pieces = concat ps"
  shows "map_option sync_core (handle_all (\<lambda>buf (d, c). dvb_dmx_swfilter_204 env buf d c) pieces (d, c))
       = map_option sync_core (dvb_dmx_swfilter_packets env
           (concat (map (\<lambda>p. 0x47 # take 187 (tl p)) ps)) (length ps) d c)"
proof -
  have ok: "sync_ok 204 (\<lambda>b. b = 0x47 \<or> b = 0xB8) (d, c)" using assms(1,2) by (simp add: sync_ok_def)
  have w: "sync_carry (d, c) = []" using assms(2) by (simp add: sync_carry_def)
  let ?h = "\<lambda>p (d, c). dvb_dmx_swfilter_packet env (fix_sync (take 188 p)) d c"
  let ?ps = "map (\<lambda>p. 0x47 # take 187 (tl p)) ps"
  have fixed: "fix_sync (take 188 p) = 0x47 # take 187 (tl p)" if "p \<in> set ps" for p
  proof -
    from that assms(3) have "length p = 204 \<and> (hd p = 0x47 \<or> hd p = 0xB8)" by blast
    then show ?thesis by (cases p) (auto simp: fix_sync_def take_Cons')
  qed
  have same: "handle_all ?h ps s
      = handle_all (\<lambda>p (d, c). dvb_dmx_swfilter_packet env p d c) ?ps s" for s
    using fixed by (induction ps arbitrary: s) (auto cong: Option.bind_cong)
  have "map_option (ts204.abs_state) (handle_all (\<lambda>buf (d, c). dvb_dmx_swfilter_204 env buf d c) pieces (d, c))
      = map_option (\<lambda>x. ([], x)) (handle_all ?h ps (sync_core (d, c)))"
    using ts204.feed_chunks [OF ok, of env pieces]
      frames_concat [of 204 ps "\<lambda>b. b = 0x47 \<or> b = 0xB8"] assms(3,4) w
    by (simp add: ts204.spec_feed_def ts204.abs_state_def)
  moreover have "dvb_dmx_swfilter_packets env (concat ?ps) (length ?ps) d c
      = handle_all (\<lambda>p (d, c). dvb_dmx_swfilter_packet env p d c) ?ps (d, c)"
    by (rule swfilter_packets_handle_all) (use assms(3) in auto)
  ultimately show ?thesis
    using handle_all_core [of env "\<lambda>p. p" ?ps d c] same
    by (auto dest: arg_cong [where f = "map_option snd"]
        simp: option.map_comp ts204.abs_state_def comp_def option.map_ident)
qed


section \<open>Witnesses\<close>

theorem swfilter_any_pieces_witness:
  "map_option sync_core (handle_all (\<lambda>buf (d, c). dvb_dmx_swfilter ex_env buf d c)
      [[0x47, 0x40], replicate 186 1 @ [0x47], replicate 187 2] (ex_demux, []))
    = map_option sync_core (dvb_dmx_swfilter_packets ex_env
        (concat [[0x47, 0x40] @ replicate 186 1, 0x47 # replicate 187 2]) (length [(), ()]) ex_demux [])"
  using swfilter_any_pieces [of ex_demux "[[0x47, 0x40] @ replicate 186 1, 0x47 # replicate 187 2]"
      "[[0x47, 0x40], replicate 186 1 @ [0x47], replicate 187 2]" ex_env "[]"]
  by simp

theorem swfilter_append_witness:
  "map_option (\<lambda>s. (sync_carry s, sync_core s))
      (dvb_dmx_swfilter ex_env ([0x12, 0x47, 3] @ replicate 200 0) ex_demux [])
    = map_option (\<lambda>s. (sync_carry s, sync_core s))
        (do { (d, c) \<leftarrow> dvb_dmx_swfilter ex_env [0x12, 0x47, 3] ex_demux [];
              dvb_dmx_swfilter ex_env (replicate 200 0) d c })"
  by (rule swfilter_append) (simp add: sync_ok_def)

theorem swfilter_204_any_pieces_witness:
  "map_option sync_core (handle_all (\<lambda>buf (d, c). dvb_dmx_swfilter_204 ex_env buf d c)
      [[0xB8, 0x40], replicate 202 1] (ex_demux, []))
    = map_option sync_core (dvb_dmx_swfilter_packets ex_env
        (concat (map (\<lambda>p. 0x47 # take 187 (tl p)) [[0xB8, 0x40] @ replicate 202 1]))
        (length [[0xB8, 0x40] @ replicate 202 (1 :: u8)]) ex_demux [])"
  by (rule swfilter_204_any_pieces) simp_all

end
