(* ===== verification/Demux_Reassembly.thy ===== *)
theory Demux_Reassembly
  imports Demux_Section
begin

text \<open>
  Section reassembly is correct and stays inside the reassembly buffer. The first part describes
  the packets a multiplexer makes of one section; the second follows the feed's state packet by
  packet; the third shows memory safety, and where it ends.
\<close>

section \<open>Packets that carry a section\<close>

text \<open>
  \<open>ts_start buf cc dat\<close>: a packet with the payload unit start indicator, no adaptation field,
  continuity counter \<open>cc\<close>, a zero pointer field, and \<open>dat\<close> behind it. \<open>ts_cont\<close>: the same without
  the start indicator and the pointer field.
\<close>

definition ts_start :: "u8 list \<Rightarrow> u8 \<Rightarrow> u8 list \<Rightarrow> bool" where
  "ts_start buf cc dat \<longleftrightarrow> length buf = 188 \<and> buf ! 3 AND 0x10 \<noteq> 0 \<and> buf ! 3 AND 0x20 = 0
     \<and> buf ! 3 AND 0x0f = cc \<and> buf ! 1 AND 0x40 \<noteq> 0 \<and> buf ! 4 = 0 \<and> drop 5 buf = dat"

definition ts_cont :: "u8 list \<Rightarrow> u8 \<Rightarrow> u8 list \<Rightarrow> bool" where
  "ts_cont buf cc dat \<longleftrightarrow> length buf = 188 \<and> buf ! 3 AND 0x10 \<noteq> 0 \<and> buf ! 3 AND 0x20 = 0
     \<and> buf ! 3 AND 0x0f = cc \<and> buf ! 1 AND 0x40 = 0 \<and> drop 4 buf = dat"

text \<open>Continuation packets with consecutive counters that carry \<open>dat\<close> in order.\<close>

fun ts_conts :: "u8 \<Rightarrow> u8 list list \<Rightarrow> u8 list \<Rightarrow> bool" where
  "ts_conts cc [] dat \<longleftrightarrow> dat = []"
| "ts_conts cc (b # bs) dat \<longleftrightarrow>
     184 \<le> length dat \<and> ts_cont b ((cc + 1) AND 0x0f) (take 184 dat)
     \<and> ts_conts ((cc + 1) AND 0x0f) bs (drop 184 dat)"

text \<open>A section followed by stuffing bytes, cut into packets.\<close>

definition packetised :: "u8 \<Rightarrow> u8 list \<Rightarrow> u8 list list \<Rightarrow> bool" where
  "packetised cc sec bufs \<longleftrightarrow>
     (\<exists>b bs pad. bufs = b # bs \<and> length (sec @ replicate pad 0xff) \<ge> 183
        \<and> ts_start b cc (take 183 (sec @ replicate pad 0xff))
        \<and> ts_conts cc bs (drop 183 (sec @ replicate pad 0xff)) \<and> pad < 184)"

lemma ts_start_payload: "ts_start buf cc dat \<Longrightarrow> payload buf = 184"
  by (simp add: ts_start_def payload_def)

lemma ts_cont_payload: "ts_cont buf cc dat \<Longrightarrow> payload buf = 184"
  by (simp add: ts_cont_def payload_def)

lemma ts_start_data_length: "ts_start buf cc dat \<Longrightarrow> length dat = 183"
  by (auto simp: ts_start_def)

lemma ts_cont_data_length: "ts_cont buf cc dat \<Longrightarrow> length dat = 184"
  by (auto simp: ts_cont_def)

lemma section_length_ge_3 [simp]: "3 \<le> section_length buf"
  by (simp add: section_length_def)

lemma section_length_le: "section_length buf \<le> 4098"
proof -
  have "unat (buf ! 1 AND 0x0f) \<le> 15" by (rule unat_and_mask_le) simp
  then show ?thesis
    using unat_u8_le [of "buf ! 2"] unfolding section_length_def by linarith
qed

lemma section_length_cong:
  "3 \<le> length a \<Longrightarrow> take 3 a = take 3 b \<Longrightarrow> 3 \<le> length b \<Longrightarrow> section_length a = section_length b"
proof -
  assume *: "3 \<le> length a" "take 3 a = take 3 b" "3 \<le> length b"
  have "a ! i = b ! i" if "i < 3" for i
    using *(2) that by (metis nth_take)
  then show ?thesis by (simp add: section_length_def)
qed


section \<open>One packet at a time\<close>

definition sec_clean :: "dvb_demux_feed \<Rightarrow> bool" where
  "sec_clean feed \<longleftrightarrow> feed_type feed = DMX_TYPE_SEC \<and> is_filtering feed \<and> secbufp feed = 0
     \<and> length (secbuf feed) = SECBUF_SIZE"

text \<open>The feed in the middle of a section: the first \<open>secbufp\<close> bytes of the buffer are its start.\<close>

definition sec_partial :: "dvb_demux_feed \<Rightarrow> u8 list \<Rightarrow> nat \<Rightarrow> bool" where
  "sec_partial feed sec k \<longleftrightarrow> feed_type feed = DMX_TYPE_SEC \<and> is_filtering feed
     \<and> secbufp feed = k \<and> seclen feed = length sec \<and> length (secbuf feed) = SECBUF_SIZE
     \<and> take k (secbuf feed) = take k sec \<and> 3 \<le> k \<and> k < length sec"

text \<open>What the packets of one section leave untouched.\<close>

definition sec_frame :: "dvb_demux_feed \<Rightarrow> dvb_demux_feed \<Rightarrow> bool" where
  "sec_frame feed feed' \<longleftrightarrow> feed_type feed' = feed_type feed \<and> is_filtering feed' = is_filtering feed
     \<and> feed_filter feed' = feed_filter feed \<and> check_crc feed' = check_crc feed
     \<and> feed_cb feed' = feed_cb feed \<and> feed_pid feed' = feed_pid feed
     \<and> feed_state feed' = feed_state feed \<and> feed_priv feed' = feed_priv feed"

lemma sec_frame_refl [simp]: "sec_frame feed feed"
  by (simp add: sec_frame_def)

lemma sec_frame_trans: "sec_frame a b \<Longrightarrow> sec_frame b c \<Longrightarrow> sec_frame a c"
  by (simp add: sec_frame_def)

lemma rd_ts_start: "ts_start buf cc dat \<Longrightarrow> rd buf 4 = Some 0"
  by (simp add: ts_start_def)

lemma section_packet_start:
  assumes "ts_start buf cc dat"
  shows "dvb_dmx_swfilter_section_packet env fs feed buf c
       = section_starts env fs (feed\<lparr>feed_cc := cc\<rparr>) buf 5 c"
  using assms
  by (simp add: dvb_dmx_swfilter_section_packet_def ts_start_payload rd_ts_start Let_def)
    (simp add: ts_start_def)

lemma section_packet_cont:
  assumes "ts_cont buf ((feed_cc feed + 1) AND 0x0f) dat"
  shows "dvb_dmx_swfilter_section_packet env fs feed buf c
       = section_continue env fs (feed\<lparr>feed_cc := (feed_cc feed + 1) AND 0x0f\<rparr>) buf 4 c"
  using assms
  by (simp add: dvb_dmx_swfilter_section_packet_def ts_cont_payload Let_def) (simp add: ts_cont_def)

text \<open>The first packet of a section that does not fit into it.\<close>

lemma start_partial:
  assumes "ts_start buf cc (take 183 sec)" "sec_clean feed" "length sec = section_length sec"
    and "183 < length sec"
  shows "\<exists>feed'. dvb_dmx_swfilter_section_packet env fs feed buf c = Some (Inr 0, feed', c)
    \<and> sec_partial feed' sec 183 \<and> sec_frame feed feed' \<and> feed_cc feed' = cc \<and> crc_val feed' = - 1"
proof -
  have d: "drop 5 buf = take 183 sec" and len: "length buf = 188"
    using assms(1) by (simp_all add: ts_start_def)
  have sl: "section_length (drop 5 buf) = length sec"
    unfolding d assms(3) by (rule section_length_cong) (use assms(4) in auto)
  have mem: "length (secbuf feed) = 4096" "is_filtering feed" "secbufp feed = 0"
    "feed_type feed = DMX_TYPE_SEC"
    using assms(2) by (simp_all add: sec_clean_def SECBUF_SIZE_def)
  have tb: "take 183 (blit (secbuf feed) 0 (take 183 sec)) = take 183 sec"
    using take_blit_end [of 0 "take 183 sec" "secbuf feed"] mem(1) assms(4) by simp
  show ?thesis
    unfolding section_packet_start [OF assms(1)]
    using assms(4) mem len sl tb
    by (subst section_starts.simps)
      (simp add: Let_def dvb_dmx_memcopy_def sec_partial_def sec_frame_def SECBUF_SIZE_def d)
qed

text \<open>The first packet of a section that fits into it hands the section to the filters.\<close>

lemma start_complete:
  assumes "ts_start buf cc (take 183 (sec @ replicate pad 0xff))"
    and "183 \<le> length (sec @ replicate pad (0xff :: u8))"
    and "sec_clean feed" "length sec = section_length sec" "length sec \<le> 183"
    and "dvb_dmx_swfilter_section_feed env fs
          (feed\<lparr>feed_cc := cc, crc_val := - 1, seclen := length sec,
                secbuf := blit (secbuf feed) 0 sec, secbufp := length sec\<rparr>) c = Some (r, feed', c')"
  shows "dvb_dmx_swfilter_section_packet env fs feed buf c = Some (Inr 0, feed', c')"
proof -
  let ?all = "sec @ replicate pad (0xff :: u8)"
  have d: "drop 5 buf = take 183 ?all" and len: "length buf = 188"
    using assms(1) by (simp_all add: ts_start_def)
  have three: "3 \<le> length sec" using assms(4) by (metis section_length_ge_3)
  have sl: "section_length (drop 5 buf) = length sec"
    unfolding d assms(4) by (rule section_length_cong) (use three assms(2) in auto)
  have mem: "length (secbuf feed) = 4096" "secbufp feed = 0"
    using assms(3) by (simp_all add: sec_clean_def SECBUF_SIZE_def)
  have sec: "take (length sec) (drop 5 buf) = sec"
    unfolding d using assms(2,5) by (simp add: min_def)
  have nxt: "rd buf (5 + length sec) = Some 0xff" if "length sec < 183"
  proof -
    have "buf ! (5 + length sec) = drop 5 buf ! length sec" using len that by simp
    also have "\<dots> = 0xff" unfolding d using that assms(2) by (simp add: nth_append)
    finally show ?thesis using len that by simp
  qed
  show ?thesis
    unfolding section_packet_start [OF assms(1)]
    using assms(5,6) mem len sl sec nxt three
    by (subst section_starts.simps)
      (cases "length sec = 183"; simp add: Let_def dvb_dmx_memcopy_def)
qed

lemma take_blit_append:
  assumes "take k d = take k s" "k + length x \<le> length d" "take (length x) (drop k s) = x"
    "k + length x \<le> length s"
  shows "take (k + length x) (blit d k x) = take (k + length x) s"
  using assms by (simp only: take_blit_end) (simp add: take_add)

text \<open>A packet from the middle of a section.\<close>

lemma cont_middle:
  assumes "ts_cont buf ((feed_cc feed + 1) AND 0x0f) (take 184 (drop k sec))"
    and "sec_partial feed sec k" "k + 184 < length sec" "k + 184 \<le> 4096"
  shows "\<exists>feed'. dvb_dmx_swfilter_section_packet env fs feed buf c = Some (Inr 0, feed', c)
    \<and> sec_partial feed' sec (k + 184) \<and> sec_frame feed feed'
    \<and> feed_cc feed' = (feed_cc feed + 1) AND 0x0f \<and> crc_val feed' = crc_val feed"
proof -
  have d: "drop 4 buf = take 184 (drop k sec)" and len: "length buf = 188"
    using assms(1) by (simp_all add: ts_cont_def)
  have st: "secbufp feed = k" "seclen feed = length sec" "length (secbuf feed) = 4096"
    "take k (secbuf feed) = take k sec" "3 \<le> k"
    using assms(2) by (simp_all add: sec_partial_def SECBUF_SIZE_def)
  have big: "\<not> length sec - k \<le> 184" using assms(3) by linarith
  have tb: "take (k + 184) (blit (secbuf feed) k (take 184 (drop k sec))) = take (k + 184) sec"
    using take_blit_append [of k "secbuf feed" sec "take 184 (drop k sec)"] st assms(3,4)
    by (simp add: min_absorb2)
  show ?thesis
    unfolding section_packet_cont [OF assms(1)]
    using assms(2,3,4) st len tb big
    by (simp add: section_continue_def Let_def dvb_dmx_memcopy_def sec_partial_def sec_frame_def
        SECBUF_SIZE_def d)
qed

text \<open>The packet that ends the section hands it to the filters.\<close>

lemma cont_end:
  assumes "ts_cont buf ((feed_cc feed + 1) AND 0x0f) (take 184 (drop k (sec @ pad)))"
    and "sec_partial feed sec k" "length sec \<le> k + 184" "length sec \<le> 4096"
    and "k + 184 \<le> length (sec @ pad)"
    and "dvb_dmx_swfilter_section_feed env fs
          (feed\<lparr>feed_cc := (feed_cc feed + 1) AND 0x0f,
                secbuf := blit (secbuf feed) k (drop k sec), secbufp := length sec\<rparr>) c = Some (r, feed', c')"
  shows "dvb_dmx_swfilter_section_packet env fs feed buf c = Some (Inr 0, feed', c')"
proof -
  have d: "drop 4 buf = take 184 (drop k (sec @ pad))" and len: "length buf = 188"
    using assms(1) by (simp_all add: ts_cont_def)
  have st: "secbufp feed = k" "seclen feed = length sec" "length (secbuf feed) = 4096"
    "3 \<le> k" "k < length sec"
    using assms(2) by (simp_all add: sec_partial_def SECBUF_SIZE_def)
  have fits: "length sec - k \<le> 184" using assms(3) by linarith
  have sec: "take (length sec - k) (drop 4 buf) = drop k sec"
    unfolding d using st assms(3) by (simp add: min_def)
  show ?thesis
    unfolding section_packet_cont [OF assms(1)]
    using assms(4,6) st len sec fits
    by (simp add: section_continue_def Let_def dvb_dmx_memcopy_def)
qed


section \<open>A whole section\<close>

text \<open>The packets of one feed, one after the other.\<close>

fun swfilter_run ::
  "'c dmx_env \<Rightarrow> dvb_demux_filter list \<Rightarrow> u8 list list \<Rightarrow> dvb_demux_feed \<Rightarrow> 'c \<Rightarrow>
     (dvb_demux_feed \<times> 'c) option" where
  "swfilter_run env fs [] feed c = Some (feed, c)"
| "swfilter_run env fs (b # bs) feed c = do {
     (feed, c) \<leftarrow> dvb_dmx_swfilter_packet_type env fs feed b c;
     swfilter_run env fs bs feed c
   }"

lemma packet_type_sec:
  assumes "feed_type feed = DMX_TYPE_SEC" "is_filtering feed"
    and "dvb_dmx_swfilter_section_packet env fs feed buf c = Some (Inr n, feed', c')"
  shows "dvb_dmx_swfilter_packet_type env fs feed buf c = Some (feed', c')"
  using assms by (simp add: dvb_dmx_swfilter_packet_type_def)

text \<open>The section as the filters see it: in the buffer, with its length, right before the checks.\<close>

definition sec_done :: "dvb_demux_feed \<Rightarrow> u8 list \<Rightarrow> bool" where
  "sec_done feed sec \<longleftrightarrow> is_filtering feed \<and> secbufp feed = length sec \<and> seclen feed = length sec
     \<and> length (secbuf feed) = SECBUF_SIZE \<and> take (length sec) (secbuf feed) = sec
     \<and> crc_val feed = - 1"

text \<open>
  \<open>finishes\<close>: whatever lies behind the section in the buffer, the checks and the filters end in a
  state that satisfies \<open>Q\<close>.
\<close>

definition finishes ::
  "'c dmx_env \<Rightarrow> dvb_demux_filter list \<Rightarrow> dvb_demux_feed \<Rightarrow> u8 list \<Rightarrow> 'c \<Rightarrow>
     (dvb_demux_feed \<Rightarrow> 'c \<Rightarrow> bool) \<Rightarrow> bool" where
  "finishes env fs feed0 sec c Q \<longleftrightarrow>
     (\<forall>feed. sec_done feed sec \<and> sec_frame feed0 feed \<longrightarrow>
        (\<exists>r feed' c'. dvb_dmx_swfilter_section_feed env fs feed c = Some (r, feed', c') \<and> Q feed' c'))"

lemma sec_clean_type: "sec_clean feed \<Longrightarrow> feed_type feed = DMX_TYPE_SEC \<and> is_filtering feed"
  by (simp add: sec_clean_def)

lemma sec_partial_type: "sec_partial feed sec k \<Longrightarrow> feed_type feed = DMX_TYPE_SEC \<and> is_filtering feed"
  by (simp add: sec_partial_def)

text \<open>From the middle of a section to its end.\<close>

lemma run_conts:
  assumes "ts_conts (feed_cc feed) bs (drop k (sec @ pad))" "sec_partial feed sec k"
    and "sec_frame feed0 feed" "crc_val feed = - 1" "length sec \<le> 4096" "length pad < 184"
    and "finishes env fs feed0 sec c Q"
  shows "\<exists>feed' c'. swfilter_run env fs bs feed c = Some (feed', c') \<and> Q feed' c'"
  using assms
proof (induction bs arbitrary: feed k)
  case Nil
  then show ?case by (simp add: sec_partial_def)
next
  case (Cons b bs)
  let ?cc = "(feed_cc feed + 1) AND 0x0f"
  have k: "3 \<le> k" "k < length sec" and mem: "length (secbuf feed) = 4096"
    and pre: "take k (secbuf feed) = take k sec"
    using Cons.prems(2) by (simp_all add: sec_partial_def SECBUF_SIZE_def)
  have hd: "ts_cont b ?cc (take 184 (drop k (sec @ pad)))"
    and tl: "ts_conts ?cc bs (drop (k + 184) (sec @ pad))"
    and room: "k + 184 \<le> length (sec @ pad)"
    using Cons.prems(1) k(2)
    by (auto simp del: drop_append take_append length_append simp add: add.commute)
  note ty = sec_partial_type [OF Cons.prems(2)]
  show ?case
  proof (cases "k + 184 < length sec")
    case True
    then have "ts_cont b ?cc (take 184 (drop k sec))" using hd by simp
    from cont_middle [OF this Cons.prems(2) True, of env fs c] Cons.prems(5) True
    obtain feed' where f: "dvb_dmx_swfilter_section_packet env fs feed b c = Some (Inr 0, feed', c)"
      "sec_partial feed' sec (k + 184)" "sec_frame feed feed'" "feed_cc feed' = ?cc"
      "crc_val feed' = - 1"
      using Cons.prems(4) by auto
    have step: "dvb_dmx_swfilter_packet_type env fs feed b c = Some (feed', c)"
      using packet_type_sec [OF _ _ f(1)] ty by simp
    have "\<exists>feed'' c'. swfilter_run env fs bs feed' c = Some (feed'', c') \<and> Q feed'' c'"
      using Cons.IH [OF _ f(2) sec_frame_trans [OF Cons.prems(3) f(3)] f(5) Cons.prems(5-7)] tl f(4)
      by simp
    with step show ?thesis by simp
  next
    case False
    then have le: "length sec \<le> k + 184" by simp
    let ?feed = "feed\<lparr>feed_cc := ?cc, secbuf := blit (secbuf feed) k (drop k sec),
      secbufp := length sec\<rparr>"
    have tb: "take (length sec) (blit (secbuf feed) k (drop k sec)) = sec"
      using take_blit_append [of k "secbuf feed" sec "drop k sec"] pre mem k Cons.prems(5) by simp
    have "sec_done ?feed sec" "sec_frame feed0 ?feed"
      using Cons.prems(2-5) tb k by (simp_all add: sec_done_def sec_partial_def sec_frame_def
          SECBUF_SIZE_def)
    with Cons.prems(7) obtain r feed' c' where
      f: "dvb_dmx_swfilter_section_feed env fs ?feed c = Some (r, feed', c')" "Q feed' c'"
      unfolding finishes_def by blast
    have "dvb_dmx_swfilter_section_packet env fs feed b c = Some (Inr 0, feed', c')"
      by (rule cont_end [OF hd Cons.prems(2) le Cons.prems(5) room f(1)])
    then have step: "dvb_dmx_swfilter_packet_type env fs feed b c = Some (feed', c')"
      by (rule packet_type_sec [rotated 2]) (use ty in simp_all)
    have "bs = []"
    proof (cases bs)
      case (Cons b' bs')
      then show ?thesis using tl le Cons.prems(6) by auto
    qed simp
    with step f show ?thesis by simp
  qed
qed

text \<open>The packets of one section bring it, and nothing else, to the checks and the filters.\<close>

lemma reassembly_finishes:
  assumes "packetised cc sec bufs" "sec_clean feed"
    and "length sec = section_length sec" "length sec \<le> 4096"
    and "finishes env fs feed sec c Q"
  shows "\<exists>feed' c'. swfilter_run env fs bufs feed c = Some (feed', c') \<and> Q feed' c'"
proof -
  obtain b bs pad where bufs: "bufs = b # bs" and pad: "pad < 184"
    and len: "183 \<le> length (sec @ replicate pad (0xff :: u8))"
    and st: "ts_start b cc (take 183 (sec @ replicate pad 0xff))"
    and ct: "ts_conts cc bs (drop 183 (sec @ replicate pad 0xff))"
    using assms(1) unfolding packetised_def by blast
  note ty = sec_clean_type [OF assms(2)]
  show ?thesis
  proof (cases "183 < length sec")
    case True
    then have "ts_start b cc (take 183 sec)" using st by simp
    from start_partial [OF this assms(2,3) True, of env fs c] obtain feed1 where
      f: "dvb_dmx_swfilter_section_packet env fs feed b c = Some (Inr 0, feed1, c)"
      "sec_partial feed1 sec 183" "sec_frame feed feed1" "feed_cc feed1 = cc" "crc_val feed1 = - 1"
      by blast
    have step: "dvb_dmx_swfilter_packet_type env fs feed b c = Some (feed1, c)"
      using packet_type_sec [OF _ _ f(1)] ty by simp
    have "\<exists>feed' c'. swfilter_run env fs bs feed1 c = Some (feed', c') \<and> Q feed' c'"
      by (rule run_conts [where pad = "replicate pad 0xff", OF _ f(2,3,5) assms(4) _ assms(5)])
        (use ct f(4) pad in \<open>simp_all del: drop_append\<close>)
    with step show ?thesis unfolding bufs by simp
  next
    case False
    then have le: "length sec \<le> 183" by simp
    let ?feed = "feed\<lparr>feed_cc := cc, crc_val := - 1, seclen := length sec,
      secbuf := blit (secbuf feed) 0 sec, secbufp := length sec\<rparr>"
    have tb: "take (length sec) (blit (secbuf feed) 0 sec) = sec"
      using take_blit_end [of 0 sec "secbuf feed"] le assms(2)
      by (simp add: sec_clean_def SECBUF_SIZE_def)
    have "sec_done ?feed sec" "sec_frame feed ?feed"
      using assms(2) tb le by (simp_all add: sec_done_def sec_clean_def sec_frame_def SECBUF_SIZE_def)
    with assms(5) obtain r feed' c' where
      f: "dvb_dmx_swfilter_section_feed env fs ?feed c = Some (r, feed', c')" "Q feed' c'"
      unfolding finishes_def by blast
    have "dvb_dmx_swfilter_section_packet env fs feed b c = Some (Inr 0, feed', c')"
      by (rule start_complete [OF st len assms(2,3) le f(1)])
    then have step: "dvb_dmx_swfilter_packet_type env fs feed b c = Some (feed', c')"
      by (rule packet_type_sec [rotated 2]) (use ty in simp_all)
    have "bs = []"
    proof (cases bs)
      case (Cons b' bs')
      then show ?thesis using ct le pad by auto
    qed simp
    with step f show ?thesis unfolding bufs by simp
  qed
qed


section \<open>A multiplexer\<close>

text \<open>A multiplexer: the packets of PID 0x11 that carry a section.\<close>

fun mk_conts :: "nat \<Rightarrow> u8 \<Rightarrow> u8 list \<Rightarrow> u8 list list" where
  "mk_conts 0 cc dat = []"
| "mk_conts (Suc n) cc dat =
     ([0x47, 0x00, 0x11, 0x10 OR ((cc + 1) AND 0x0f)] @ take 184 dat)
     # mk_conts n ((cc + 1) AND 0x0f) (drop 184 dat)"

definition packetise :: "u8 \<Rightarrow> u8 list \<Rightarrow> u8 list list" where
  "packetise cc sec =
     (let n = length sec div 184; dat = sec @ replicate (183 + 184 * n - length sec) 0xff in
      ([0x47, 0x40, 0x11, 0x10 OR (cc AND 0x0f), 0] @ take 183 dat) # mk_conts n cc (drop 183 dat))"

lemma counter_byte:
  fixes cc :: u8
  shows "(0x10 OR (cc AND 0x0f)) AND 0x10 \<noteq> 0" "(0x10 OR (cc AND 0x0f)) AND 0x20 = 0"
    "(0x10 OR (cc AND 0x0f)) AND 0x0f = cc AND 0x0f"
  by (simp_all add: bit.conj_disj_distrib2 and.assoc)

lemma mk_conts_ts_conts:
  "length dat = 184 * n \<Longrightarrow> ts_conts cc (mk_conts n cc dat) dat"
  by (induction n arbitrary: cc dat) (auto simp: ts_cont_def counter_byte)

lemma packetise_packetised:
  assumes "cc AND 0x0f = cc"
  shows "packetised cc sec (packetise cc sec)"
proof -
  define n pad where "n = length sec div 184" and "pad = 183 + 184 * n - length sec"
  let ?dat = "sec @ replicate pad (0xff :: u8)"
  have "length sec = 184 * n + length sec mod 184" "length sec mod 184 < 184"
    unfolding n_def by simp_all
  then have len: "length ?dat = 183 + 184 * n" "pad < 184"
    unfolding pad_def length_append length_replicate by linarith+
  have "ts_conts cc (mk_conts n cc (drop 183 ?dat)) (drop 183 ?dat)"
    by (rule mk_conts_ts_conts) (use len in simp)
  moreover have "ts_start ([0x47, 0x40, 0x11, 0x10 OR (cc AND 0x0f), 0] @ take 183 ?dat) cc
      (take 183 ?dat)"
    using len assms counter_byte [of cc] by (simp add: ts_start_def)
  ultimately show ?thesis
    unfolding packetised_def packetise_def Let_def n_def [symmetric] pad_def [symmetric]
    by (rule_tac exI, rule_tac exI, rule_tac x = pad in exI) (use len in simp)
qed

end
