(* ===== verification/Demux_Delivery.thy ===== *)
theory Demux_Delivery
  imports Demux_Reassembly
begin

text \<open>
  What the section filters let through and to whom it goes, the whole way from packets to
  callbacks, what happens to a section with a bad checksum, and the memory safety of the packet
  path.
\<close>

section \<open>The meaning of a section filter\<close>

text \<open>
  Every bit under \<open>maskandmode\<close> must be equal, and if there are bits under \<open>maskandnotmode\<close> at least
  one of them must differ.
\<close>

definition filter_match :: "dvb_demux_filter \<Rightarrow> u8 list \<Rightarrow> bool" where
  "filter_match f buf \<longleftrightarrow>
     (\<forall>i < 18. maskandmode f ! i AND (filter_value f ! i XOR buf ! i) = 0)
     \<and> (doneq f \<longrightarrow> (\<exists>i < 18. maskandnotmode f ! i AND (filter_value f ! i XOR buf ! i) \<noteq> 0))"

lemma word_or_eq_0: "(a OR b = 0) \<longleftrightarrow> a = 0 \<and> b = (0 :: 'a::len word)"
  by (auto simp: bit_eq_iff bit_simps)

lemma sectionfilter_scan_spec:
  "sectionfilter_scan f buf is neq =
     (if \<forall>i \<in> set is. maskandmode f ! i AND (filter_value f ! i XOR buf ! i) = 0
      then Some (fold (\<lambda>i n. n OR (maskandnotmode f ! i AND (filter_value f ! i XOR buf ! i))) is neq)
      else None)"
  by (induction "is" arbitrary: neq) (auto simp: Let_def)

lemma fold_or_eq_0:
  "fold (\<lambda>i n. n OR g i) is neq = 0 \<longleftrightarrow> neq = 0 \<and> (\<forall>i \<in> set is. g i = (0 :: 'a::len word))"
  by (induction "is" arbitrary: neq) (auto simp: word_or_eq_0)

lemma sectionfilter_eq:
  "dvb_dmx_swfilter_sectionfilter env feed f c =
     (if filter_match f (secbuf feed)
      then map_option (\<lambda>dat. sec_cb env (feed_cb feed) dat f c) (memread (secbuf feed) 0 (seclen feed))
      else Some (Inr 0, c))"
proof -
  have all: "(\<forall>i \<in> set [0 ..< 18]. P i) \<longleftrightarrow> (\<forall>i < 18. P i)" for P :: "nat \<Rightarrow> bool"
    by auto
  show ?thesis
    unfolding dvb_dmx_swfilter_sectionfilter_def DVB_DEMUX_MASK_MAX_def sectionfilter_scan_spec
      filter_match_def all fold_or_eq_0 Let_def
    by (cases "memread (secbuf feed) 0 (seclen feed)") (auto simp: fold_or_eq_0)
qed

text \<open>The comparison the user asks for, in terms of his mask and mode bytes.\<close>

definition filter_spec :: "dvb_demux_filter \<Rightarrow> u8 list \<Rightarrow> bool" where
  "filter_spec f buf \<longleftrightarrow>
     (let diff = (\<lambda>i. filter_mask f ! i AND (filter_value f ! i XOR buf ! i)) in
      (\<forall>i < 18. diff i AND filter_mode f ! i = 0)
      \<and> ((\<exists>i < 18. filter_mask f ! i AND NOT (filter_mode f ! i) \<noteq> 0) \<longrightarrow>
           (\<exists>i < 18. diff i AND NOT (filter_mode f ! i) \<noteq> 0)))"

lemma filter_match_cong:
  assumes "take 18 a = take 18 b" "18 \<le> length a" "18 \<le> length b"
  shows "filter_match f a = filter_match f b"
proof -
  have "a ! i = b ! i" if "i < 18" for i
    using assms(1) that by (metis nth_take)
  then show ?thesis by (auto simp: filter_match_def)
qed


section \<open>The chain of filters\<close>

text \<open>The filters linked from a head pointer, in order.\<close>

fun filter_chain :: "dvb_demux_filter list \<Rightarrow> nat option \<Rightarrow> nat list \<Rightarrow> bool" where
  "filter_chain fs None ids \<longleftrightarrow> ids = []"
| "filter_chain fs (Some i) [] \<longleftrightarrow> False"
| "filter_chain fs (Some i) (j # ids) \<longleftrightarrow>
     i = j \<and> i < length fs \<and> filter_chain fs (filter_next (fs ! i)) ids"

lemma filter_chain_bound: "filter_chain fs h ids \<Longrightarrow> set ids \<subseteq> {..< length fs}"
  by (induction fs h ids rule: filter_chain.induct) auto

lemma filter_chain_length:
  assumes "filter_chain fs h ids" "distinct ids"
  shows "length ids \<le> length fs"
  using card_mono [OF _ filter_chain_bound [OF assms(1)]] distinct_card [OF assms(2)] by simp

text \<open>What the chain does with a section: each matching filter's callback, in order.\<close>

definition deliver ::
  "'c dmx_env \<Rightarrow> nat \<Rightarrow> u8 list \<Rightarrow> dvb_demux_filter list \<Rightarrow> 'c \<Rightarrow> 'c" where
  "deliver env cb sec flts c =
     fold (\<lambda>f c. if filter_match f sec then snd (sec_cb env cb sec f c) else c) flts c"

text \<open>The callbacks of all clients of this driver return 0.\<close>

definition cb_succeeds :: "'c dmx_env \<Rightarrow> nat \<Rightarrow> bool" where
  "cb_succeeds env cb \<longleftrightarrow> (\<forall>sec f c. \<exists>n. fst (sec_cb env cb sec f c) = Inr n)"

lemma sectionfilter_step:
  assumes "cb_succeeds env (feed_cb feed)" "length (secbuf feed) = SECBUF_SIZE"
    and "18 \<le> length sec" "length sec \<le> SECBUF_SIZE" "seclen feed = length sec"
    and "take (length sec) (secbuf feed) = sec"
  shows "\<exists>n. dvb_dmx_swfilter_sectionfilter env feed f c =
    Some (Inr n, if filter_match f sec then snd (sec_cb env (feed_cb feed) sec f c) else c)"
proof -
  have "take 18 (secbuf feed) = take 18 sec"
    using assms(3,6) by (metis min.absorb1 take_take)
  then have m: "filter_match f (secbuf feed) = filter_match f sec"
    by (rule filter_match_cong) (use assms in \<open>simp_all add: SECBUF_SIZE_def\<close>)
  obtain n where "fst (sec_cb env (feed_cb feed) sec f c) = Inr n"
    using assms(1) unfolding cb_succeeds_def by blast
  then have "sec_cb env (feed_cb feed) sec f c = (Inr n, snd (sec_cb env (feed_cb feed) sec f c))"
    by (metis prod.collapse)
  then show ?thesis
    using assms by (auto simp: sectionfilter_eq m)
qed

lemma sectionfilter_loop_chain:
  assumes "filter_chain fs (Some f) ids" "length ids \<le> n" "is_filtering feed"
    and "cb_succeeds env (feed_cb feed)" "length (secbuf feed) = SECBUF_SIZE"
    and "18 \<le> length sec" "length sec \<le> SECBUF_SIZE" "seclen feed = length sec"
    and "take (length sec) (secbuf feed) = sec"
  shows "sectionfilter_loop env n fs feed f c
       = Some (Inr 0, deliver env (feed_cb feed) sec (map ((!) fs) ids) c)"
  using assms(1,2)
proof (induction n arbitrary: f ids c)
  case 0
  then show ?case by (cases ids) auto
next
  case (Suc n)
  then obtain ids' where ids: "ids = f # ids'" "f < length fs"
    and ch: "filter_chain fs (filter_next (fs ! f)) ids'"
    by (cases ids) auto
  obtain m where st: "dvb_dmx_swfilter_sectionfilter env feed (fs ! f) c = Some (Inr m,
      if filter_match (fs ! f) sec then snd (sec_cb env (feed_cb feed) sec (fs ! f) c) else c)"
    using sectionfilter_step [OF assms(4-9)] by blast
  show ?case
  proof (cases "filter_next (fs ! f)")
    case None
    then have "ids' = []" using ch by simp
    with None st ids show ?thesis by (simp add: deliver_def)
  next
    case (Some f')
    have "sectionfilter_loop env n fs feed f' c'
        = Some (Inr 0, deliver env (feed_cb feed) sec (map ((!) fs) ids') c')" for c'
      by (rule Suc.IH) (use ch Some Suc.prems(2) ids in auto)
    with Some st ids assms(3) show ?thesis by (simp add: deliver_def)
  qed
qed

text \<open>The checksum of a section that carries one.\<close>

definition crc_good :: "'c dmx_env \<Rightarrow> dvb_demux_feed \<Rightarrow> u8 list \<Rightarrow> bool" where
  "crc_good env feed sec \<longleftrightarrow> (check_crc feed \<and> sec ! 1 AND 0x80 \<noteq> 0 \<longrightarrow> crc32_be env (- 1) sec = 0)"

lemma sec_done_nth:
  "sec_done feed sec \<Longrightarrow> i < length sec \<Longrightarrow> secbuf feed ! i = sec ! i"
  unfolding sec_done_def by (metis nth_take)

lemma finishes_chain:
  assumes "feed_filter feed0 = Some h" "filter_chain fs (Some h) ids" "distinct ids"
    and "cb_succeeds env (feed_cb feed0)" "18 \<le> length sec" "length sec \<le> 4096"
    and "crc_good env feed0 sec" "feed_type feed0 = DMX_TYPE_SEC"
  shows "finishes env fs feed0 sec c (\<lambda>feed' c'. sec_clean feed' \<and> sec_frame feed0 feed'
    \<and> c' = deliver env (feed_cb feed0) sec (map ((!) fs) ids) c)"
  unfolding finishes_def
proof (intro allI impI)
  fix feed
  assume A: "sec_done feed sec \<and> sec_frame feed0 feed"
  have one: "secbuf feed ! 1 = sec ! 1"
    using A assms(5) by (intro sec_done_nth) auto
  have fr: "feed_filter feed = Some h" "feed_cb feed = feed_cb feed0" "check_crc feed = check_crc feed0"
    "feed_type feed = DMX_TYPE_SEC"
    using A assms(1,8) by (auto simp: sec_frame_def)
  have dn: "is_filtering feed" "secbufp feed = length sec" "seclen feed = length sec"
    "length (secbuf feed) = SECBUF_SIZE" "take (length sec) (secbuf feed) = sec" "crc_val feed = - 1"
    using A by (auto simp: sec_done_def)
  have size: "length sec \<le> SECBUF_SIZE" "18 \<le> SECBUF_SIZE"
    using assms(6) by (simp_all add: SECBUF_SIZE_def)
  have loop: "sectionfilter_loop env (length fs) fs feed' h c
      = Some (Inr 0, deliver env (feed_cb feed0) sec (map ((!) fs) ids) c)"
    if "feed' = feed \<or> feed' = feed\<lparr>crc_val := 0\<rparr>" for feed'
  proof -
    have "sectionfilter_loop env (length fs) fs feed' h c
        = Some (Inr 0, deliver env (feed_cb feed') sec (map ((!) fs) ids) c)"
      by (rule sectionfilter_loop_chain [OF assms(2) filter_chain_length [OF assms(2,3)]])
        (use that dn fr size assms(4,5) in auto)
    with that fr(2) show ?thesis by auto
  qed
  define feed1 where
    "feed1 = (if check_crc feed0 \<and> sec ! 1 AND 0x80 \<noteq> 0 then feed\<lparr>crc_val := 0\<rparr> else feed)"
  let ?mem = "blit (secbuf feed) 0 (replicate 18 (0 :: u8))"
  have eq: "dvb_dmx_swfilter_section_feed env fs feed c
      = Some (Inr 0, feed1\<lparr>secbufp := 0, seclen := 0, secbuf := ?mem\<rparr>,
          deliver env (feed_cb feed0) sec (map ((!) fs) ids) c)"
  proof (cases "check_crc feed0 \<and> sec ! 1 AND 0x80 \<noteq> 0")
    case True
    then have "crc32_be env (- 1) sec = 0" using assms(7) by (simp add: crc_good_def)
    with True show ?thesis
      using dn fr size one loop [of feed1]
      by (simp add: dvb_dmx_swfilter_section_feed_def dvb_dmx_crc32_def feed1_def
          DVB_DEMUX_MASK_MAX_def Let_def)
  next
    case False
    then show ?thesis
      using dn fr size one loop [of feed1]
      by (auto simp add: dvb_dmx_swfilter_section_feed_def feed1_def DVB_DEMUX_MASK_MAX_def)
  qed
  have "sec_clean (feed1\<lparr>secbufp := 0, seclen := 0, secbuf := ?mem\<rparr>)"
    "sec_frame feed0 (feed1\<lparr>secbufp := 0, seclen := 0, secbuf := ?mem\<rparr>)"
    using A dn fr size by (simp_all add: feed1_def sec_clean_def sec_frame_def)
  with eq show "\<exists>r feed' c'. dvb_dmx_swfilter_section_feed env fs feed c = Some (r, feed', c')
      \<and> sec_clean feed' \<and> sec_frame feed0 feed'
      \<and> c' = deliver env (feed_cb feed0) sec (map ((!) fs) ids) c"
    by blast
qed

text \<open>
  C2: section reassembly. A feed that is not inside a section and gets the packets of one section
  of 18 to 4096 bytes, in order and with consecutive continuity counters, hands exactly the bytes
  of that section to the callback of every filter of its chain that matches, in the order of the
  chain and once each, and is then ready for the next section.
\<close>

theorem section_reassembly:
  assumes "packetised cc sec bufs" "sec_clean feed" "length sec = section_length sec"
    and "18 \<le> length sec" "length sec \<le> 4096" "crc_good env feed sec"
    and "feed_filter feed = Some h" "filter_chain fs (Some h) ids" "distinct ids"
    and "cb_succeeds env (feed_cb feed)"
  shows "\<exists>feed'. swfilter_run env fs bufs feed c
      = Some (feed', deliver env (feed_cb feed) sec (map ((!) fs) ids) c)
    \<and> sec_clean feed' \<and> sec_frame feed feed'"
proof -
  have "finishes env fs feed sec c (\<lambda>feed' c'. sec_clean feed' \<and> sec_frame feed feed'
      \<and> c' = deliver env (feed_cb feed) sec (map ((!) fs) ids) c)"
    by (rule finishes_chain) (use assms in \<open>auto simp: sec_clean_def\<close>)
  from reassembly_finishes [OF assms(1-3) assms(5) this] show ?thesis by blast
qed


section \<open>Checksum errors\<close>

text \<open>A section whose checksum fails reaches no client, and the feed keeps its positions.\<close>

lemma finishes_bad_crc:
  assumes "feed_filter feed0 = Some h" "check_crc feed0" "sec ! 1 AND 0x80 \<noteq> 0"
    and "crc32_be env (- 1) sec \<noteq> 0" "length sec \<le> 4096" "3 \<le> length sec"
    and "feed_type feed0 = DMX_TYPE_SEC"
  shows "finishes env fs feed0 sec c (\<lambda>feed' c'. c' = c \<and> sec_frame feed0 feed'
    \<and> secbufp feed' = length sec \<and> seclen feed' = length sec \<and> length (secbuf feed') = SECBUF_SIZE)"
  unfolding finishes_def
proof (intro allI impI)
  fix feed
  assume A: "sec_done feed sec \<and> sec_frame feed0 feed"
  have one: "secbuf feed ! 1 = sec ! 1"
    using A assms(6) by (intro sec_done_nth) auto
  show "\<exists>r feed' c'. dvb_dmx_swfilter_section_feed env fs feed c = Some (r, feed', c')
      \<and> c' = c \<and> sec_frame feed0 feed' \<and> secbufp feed' = length sec \<and> seclen feed' = length sec
      \<and> length (secbuf feed') = SECBUF_SIZE"
    using A one assms
    by (auto simp: dvb_dmx_swfilter_section_feed_def dvb_dmx_crc32_def sec_done_def sec_frame_def
        SECBUF_SIZE_def Let_def)
qed

text \<open>
  A section that fails its checksum is not delivered: no callback runs and the clients' state
  is unchanged. The feed, however, is left with \<open>secbufp\<close> and \<open>seclen\<close> at the length of the bad
  section instead of zero.
\<close>

theorem bad_crc_not_delivered:
  assumes "packetised cc sec bufs" "sec_clean feed" "length sec = section_length sec"
    and "length sec \<le> 4096" "feed_filter feed = Some h" "check_crc feed" "sec ! 1 AND 0x80 \<noteq> 0"
    and "crc32_be env (- 1) sec \<noteq> 0"
  shows "\<exists>feed'. swfilter_run env fs bufs feed c = Some (feed', c)
    \<and> secbufp feed' = length sec \<and> seclen feed' = length sec"
proof -
  have "3 \<le> length sec" using assms(3) by (metis section_length_ge_3)
  then have "finishes env fs feed sec c (\<lambda>feed' c'. c' = c \<and> sec_frame feed feed'
      \<and> secbufp feed' = length sec \<and> seclen feed' = length sec
      \<and> length (secbuf feed') = SECBUF_SIZE)"
    by (intro finishes_bad_crc) (use assms in \<open>auto simp: sec_clean_def\<close>)
  from reassembly_finishes [OF assms(1-4) this] show ?thesis by blast
qed

text \<open>
  These left-over positions cost the next section. If a feed still has the positions of a bad
  section of length \<open>n\<close> and a section starts that is longer than one packet but shorter than
  \<open>n + 183\<close>, the first packet is appended to the stale position and the second is rejected: the
  feed drops the good section although no packet was lost.
\<close>

theorem stale_positions_lose_next_section:
  assumes "feed_type feed = DMX_TYPE_SEC" "is_filtering feed" "length (secbuf feed) = SECBUF_SIZE"
    and "secbufp feed = n" "seclen feed = n" "3 \<le> n"
    and "ts_start b1 cc (take 183 sec)" "length sec = section_length sec"
    and "183 < length sec" "length sec < n + 183"
    and "ts_cont b2 ((cc + 1) AND 0x0f) dat"
  shows "\<exists>feed'. swfilter_run env fs [b1, b2] feed c = Some (feed', c)
    \<and> secbufp feed' = 0 \<and> seclen feed' = 0"
proof -
  have d: "drop 5 b1 = take 183 sec" and len: "length b1 = 188"
    using assms(7) by (simp_all add: ts_start_def)
  have sl: "section_length (drop 5 b1) = length sec"
    unfolding d assms(8) by (rule section_length_cong) (use assms(9) in auto)
  let ?feed = "feed\<lparr>feed_cc := cc, crc_val := - 1, seclen := length sec,
    secbuf := blit (secbuf feed) 0 (take 183 sec), secbufp := n + 183\<rparr>"
  have "dvb_dmx_swfilter_section_packet env fs feed b1 c = Some (Inr 0, ?feed, c)"
    unfolding section_packet_start [OF assms(7)]
    using assms(3,4,9) len sl
    by (subst section_starts.simps) (simp add: Let_def dvb_dmx_memcopy_def d SECBUF_SIZE_def)
  then have s1: "dvb_dmx_swfilter_packet_type env fs feed b1 c = Some (?feed, c)"
    by (rule packet_type_sec [OF assms(1,2)])
  have "dvb_dmx_swfilter_section_packet env fs ?feed b2 c
      = Some (Inl EPERM, ?feed\<lparr>feed_cc := (cc + 1) AND 0x0f\<rparr>, c)"
    using section_packet_cont [of b2 ?feed dat env fs c] assms(6,10,11)
    by (simp add: section_continue_def Let_def)
  then have "dvb_dmx_swfilter_packet_type env fs ?feed b2 c
      = Some (?feed\<lparr>feed_cc := (cc + 1) AND 0x0f, seclen := 0, secbufp := 0\<rparr>, c)"
    using assms(1,2) by (simp add: dvb_dmx_swfilter_packet_type_def)
  with s1 show ?thesis by simp
qed


section \<open>Memory safety\<close>

definition chain_ok :: "dvb_demux_filter list \<Rightarrow> dvb_demux_feed \<Rightarrow> bool" where
  "chain_ok fs feed \<longleftrightarrow>
     (\<forall>h. feed_filter feed = Some h \<longrightarrow> (\<exists>ids. filter_chain fs (Some h) ids \<and> distinct ids))"

lemma sectionfilter_total:
  "seclen feed \<le> length (secbuf feed) \<Longrightarrow>
     \<exists>r c'. dvb_dmx_swfilter_sectionfilter env feed f c = Some (r, c')"
  by (simp add: sectionfilter_eq surj_pair)

lemma sectionfilter_loop_total:
  assumes "filter_chain fs (Some f) ids" "length ids \<le> n" "seclen feed \<le> length (secbuf feed)"
  shows "\<exists>r c'. sectionfilter_loop env n fs feed f c = Some (r, c')"
  using assms(1,2)
proof (induction n arbitrary: f ids c)
  case 0
  then show ?case by (cases ids) auto
next
  case (Suc n)
  then obtain ids' where ids: "ids = f # ids'" "f < length fs"
    and ch: "filter_chain fs (filter_next (fs ! f)) ids'"
    by (cases ids) auto
  obtain r c1 where st: "dvb_dmx_swfilter_sectionfilter env feed (fs ! f) c = Some (r, c1)"
    using sectionfilter_total [OF assms(3), of env "fs ! f" c] by blast
  have "\<exists>r c'. sectionfilter_loop env n fs feed f' c1 = Some (r, c')"
    if "filter_next (fs ! f) = Some f'" for f'
    by (rule Suc.IH [of _ ids']) (use that ch Suc.prems(2) ids in auto)
  with st ids show ?case by (auto split: sum.splits option.splits)
qed

definition sec_safe :: "dvb_demux_filter list \<Rightarrow> dvb_demux_feed \<Rightarrow> bool" where
  "sec_safe fs feed \<longleftrightarrow> length (secbuf feed) = SECBUF_SIZE \<and> chain_ok fs feed"

text \<open>A step is safe if it stays inside the buffer and keeps the buffer and the chain.\<close>

definition safe_step ::
  "dvb_demux_filter list \<Rightarrow> nat \<Rightarrow> (cret \<times> dvb_demux_feed \<times> 'c) option \<Rightarrow> bool" where
  "safe_step fs lim res \<longleftrightarrow>
     (\<exists>r feed' c'. res = Some (r, feed', c') \<and> sec_safe fs feed' \<and> seclen feed' \<le> lim)"

lemma safe_stepI [intro]: "sec_safe fs feed' \<Longrightarrow> seclen feed' \<le> lim \<Longrightarrow> safe_step fs lim (Some (r, feed', c'))"
  by (auto simp: safe_step_def)

lemma safe_stepE:
  assumes "safe_step fs lim res"
  obtains r feed' c' where "res = Some (r, feed', c')" "sec_safe fs feed'" "seclen feed' \<le> lim"
  using assms by (auto simp: safe_step_def)

lemma sec_safe_update:
  "length mem = length (secbuf feed) \<Longrightarrow>
     sec_safe fs (feed\<lparr>secbuf := mem, secbufp := n\<rparr>) = sec_safe fs feed"
  "sec_safe fs (feed\<lparr>secbufp := n\<rparr>) = sec_safe fs feed"
  "sec_safe fs (feed\<lparr>seclen := m\<rparr>) = sec_safe fs feed"
  "sec_safe fs (feed\<lparr>crc_val := v\<rparr>) = sec_safe fs feed"
  "sec_safe fs (feed\<lparr>feed_cc := cc\<rparr>) = sec_safe fs feed"
  "length mem = length (secbuf feed) \<Longrightarrow> sec_safe fs (feed\<lparr>secbuf := mem\<rparr>) = sec_safe fs feed"
  by (simp_all add: sec_safe_def chain_ok_def)

lemma sec_safe_length: "sec_safe fs feed \<Longrightarrow> length (secbuf feed) = SECBUF_SIZE"
  by (simp add: sec_safe_def)

lemma section_feed_safe:
  assumes "sec_safe fs feed" "seclen feed \<le> SECBUF_SIZE"
  shows "safe_step fs (seclen feed) (dvb_dmx_swfilter_section_feed env fs feed c)"
proof (cases "secbufp feed = seclen feed \<and> is_filtering feed \<and> feed_filter feed \<noteq> None")
  case False
  with assms show ?thesis
    by (auto simp: dvb_dmx_swfilter_section_feed_def split: option.splits)
next
  case True
  then obtain h where h: "feed_filter feed = Some h" by auto
  have len: "length (secbuf feed) = SECBUF_SIZE" by (rule sec_safe_length [OF assms(1)])
  obtain ids where ch: "filter_chain fs (Some h) ids" "distinct ids"
    using assms(1) h by (auto simp: sec_safe_def chain_ok_def)
  define feed1 where "feed1 = (if check_crc feed \<and> secbuf feed ! 1 AND 0x80 \<noteq> 0
    then feed\<lparr>crc_val := crc32_be env (crc_val feed) (take (seclen feed) (secbuf feed))\<rparr> else feed)"
  have f1: "sec_safe fs feed1" "seclen feed1 = seclen feed" "secbuf feed1 = secbuf feed"
    using assms(1) by (auto simp: feed1_def sec_safe_update)
  obtain r c1 where loop: "sectionfilter_loop env (length fs) fs feed1 h c = Some (r, c1)"
    using sectionfilter_loop_total [OF ch(1) filter_chain_length [OF ch], of feed1 env c] f1 len assms(2)
    by auto
  have "18 \<le> SECBUF_SIZE" by (simp add: SECBUF_SIZE_def)
  with True h len loop f1 assms(2) show ?thesis
    by (auto simp: dvb_dmx_swfilter_section_feed_def dvb_dmx_crc32_def feed1_def Let_def
        DVB_DEMUX_MASK_MAX_def sec_safe_def chain_ok_def safe_step_def split: sum.splits if_splits)
qed


lemma payload_le: "payload buf \<le> 184"
  unfolding payload_def by (auto intro: le_trans [OF diff_le_self])

lemma section_starts_safe:
  assumes "sec_safe fs feed" "length buf = 188" "seclen feed \<le> 4098"
  shows "safe_step fs 4098 (section_starts env fs feed buf p c)"
  using assms
proof (induction "188 - p" arbitrary: feed p c rule: less_induct)
  case less
  let ?count = "188 - p" and ?len = "section_length (drop p buf)"
  have len: "length (secbuf feed) = 4096"
    using sec_safe_length [OF less.prems(1)] by (simp add: SECBUF_SIZE_def)
  consider "?count = 0" | "0 < ?count" "?count \<le> 2" | "2 < ?count" "?count < ?len"
    | "2 < ?count" "?len \<le> ?count" by linarith
  then show ?case
  proof cases
    case 1
    with less.prems show ?thesis by (subst section_starts.simps) (auto simp: Let_def)
  next
    case 2
    with less.prems show ?thesis
      by (subst section_starts.simps) (auto simp: Let_def sec_safe_update)
  next
    case 3
    with less.prems len section_length_le [of "drop p buf"] show ?thesis
      by (subst section_starts.simps)
        (auto simp: Let_def dvb_dmx_memcopy_def sec_safe_update)
  next
    case 4
    let ?feed = "feed\<lparr>crc_val := - 1, seclen := ?len,
      secbuf := blit (secbuf feed) 0 (take ?len (drop p buf)), secbufp := ?len\<rparr>"
    have "sec_safe fs ?feed"
      using less.prems len 4 by (simp add: sec_safe_update)
    then have "safe_step fs (seclen ?feed) (dvb_dmx_swfilter_section_feed env fs ?feed c)"
      by (rule section_feed_safe) (use 4 in \<open>simp add: SECBUF_SIZE_def\<close>)
    then obtain r feed' c' where sf:
      "dvb_dmx_swfilter_section_feed env fs ?feed c = Some (r, feed', c')"
      "sec_safe fs feed'" "seclen feed' \<le> ?len"
      by (auto elim: safe_stepE)
    have mem: "dvb_dmx_memcopy (secbuf feed) 0 buf p ?len
        = Some (blit (secbuf feed) 0 (take ?len (drop p buf)))"
      using len 4 less.prems by (simp add: dvb_dmx_memcopy_def)
    have rec: "safe_step fs 4098 (section_starts env fs feed' buf (p + ?len) c')"
      if "188 - (p + ?len) \<noteq> 0" "buf ! (p + ?len) \<noteq> 0xff"
      by (rule less.hyps) (use that 4 sf less.prems section_length_le [of "drop p buf"]
          section_length_ge_3 [of "drop p buf"] in linarith)+
    show ?thesis
      using 4 mem sf rec less.prems section_length_le [of "drop p buf"]
      by (subst section_starts.simps) (auto simp: Let_def)
  qed
qed


text \<open>The header bytes of a section, completed from the next packet.\<close>

lemma section_rest_safe:
  assumes "sec_safe fs feed" "length buf = 188" "seclen feed \<le> 4096" "p + ptr \<le> 187"
  shows "safe_step fs 4098 (section_rest env fs feed buf p ptr c)"
proof -
  have len: "length (secbuf feed) = 4096"
    using sec_safe_length [OF assms(1)] by (simp add: SECBUF_SIZE_def)
  have tail: "safe_step fs 4098
      (if int (seclen f) - int (secbufp f) = int ptr \<and> seclen f \<noteq> 0 then do {
         mem \<leftarrow> dvb_dmx_memcopy (secbuf f) (secbufp f) buf (p + 1) ptr;
         (_, feed, c) \<leftarrow> dvb_dmx_swfilter_section_feed env fs
           (f\<lparr>secbuf := mem, secbufp := secbufp f + ptr\<rparr>) c;
         Some (Inr 0, feed, c)
       } else Some (Inr 0, f, c))" if f: "sec_safe fs f" "seclen f \<le> 4096" for f
  proof (cases "int (seclen f) - int (secbufp f) = int ptr \<and> seclen f \<noteq> 0")
    case True
    have fl: "length (secbuf f) = 4096"
      using sec_safe_length [OF f(1)] by (simp add: SECBUF_SIZE_def)
    let ?mem = "blit (secbuf f) (secbufp f) (take ptr (drop (p + 1) buf))"
    have le: "secbufp f + ptr \<le> 4096" using True f(2) by linarith
    have mem: "dvb_dmx_memcopy (secbuf f) (secbufp f) buf (p + 1) ptr = Some ?mem"
      using fl le assms(2,4) by (simp add: dvb_dmx_memcopy_def)
    have "sec_safe fs (f\<lparr>secbuf := ?mem, secbufp := secbufp f + ptr\<rparr>)"
      using f fl le by (simp add: sec_safe_update)
    from section_feed_safe [OF this, of env c] f(2) obtain r f' c' where
      "dvb_dmx_swfilter_section_feed env fs (f\<lparr>secbuf := ?mem, secbufp := secbufp f + ptr\<rparr>) c
         = Some (r, f', c')" "sec_safe fs f'" "seclen f' \<le> seclen f"
      by (auto simp: SECBUF_SIZE_def elim: safe_stepE)
    with True mem f(2) show ?thesis by auto
  qed (use f in auto)
  show ?thesis
  proof (cases "0 < secbufp feed \<and> secbufp feed < 3 \<and> p + (3 - secbufp feed) < 187")
    case False
    then show ?thesis
      using tail [OF assms(1,3)] assms(1,3) by (auto simp: section_rest_def Let_def)
  next
    case True
    let ?mem = "blit (secbuf feed) (secbufp feed) (take (3 - secbufp feed) (drop (p + 1) buf))"
    let ?feed = "feed\<lparr>secbuf := ?mem, seclen := section_length ?mem\<rparr>"
    have "dvb_dmx_memcopy (secbuf feed) (secbufp feed) buf (p + 1) (3 - secbufp feed) = Some ?mem"
      using True len assms(2) by (auto simp: dvb_dmx_memcopy_def memcpy_def)
    moreover have "length ?mem = length (secbuf feed)"
      by (rule length_blit) (use True len in auto)
    then have "sec_safe fs ?feed"
      using assms(1) by (simp add: sec_safe_update)
    ultimately show ?thesis
      using True tail [of ?feed] section_length_le [of ?mem]
      by (auto simp: section_rest_def Let_def)
  qed
qed

lemma section_continue_safe:
  assumes "sec_safe fs feed" "length buf = 188" "seclen feed \<le> 4096" "p \<le> 188"
  shows "safe_step fs 4098 (section_continue env fs feed buf p c)"
proof -
  let ?count = "188 - p"
  have len: "length (secbuf feed) = 4096"
    using sec_safe_length [OF assms(1)] by (simp add: SECBUF_SIZE_def)
  have tail: "safe_step fs 4098
      (let rest = seclen f - secbufp f in
       if rest \<le> ?count then do {
         mem \<leftarrow> dvb_dmx_memcopy (secbuf f) (secbufp f) buf p rest;
         (_, feed, c) \<leftarrow> dvb_dmx_swfilter_section_feed env fs
           (f\<lparr>secbuf := mem, secbufp := secbufp f + rest\<rparr>) c;
         Some (Inr 0, feed, c)
       } else do {
         mem \<leftarrow> dvb_dmx_memcopy (secbuf f) (secbufp f) buf p ?count;
         Some (Inr 0, f\<lparr>secbuf := mem, secbufp := secbufp f + ?count\<rparr>, c)
       })" if f: "sec_safe fs f" "seclen f \<le> 4096" "secbufp f \<le> seclen f" for f
  proof -
    have fl: "length (secbuf f) = 4096"
      using sec_safe_length [OF f(1)] by (simp add: SECBUF_SIZE_def)
    let ?n = "min (seclen f - secbufp f) ?count"
    let ?mem = "blit (secbuf f) (secbufp f) (take ?n (drop p buf))"
    let ?f = "f\<lparr>secbuf := ?mem, secbufp := secbufp f + ?n\<rparr>"
    have mem: "dvb_dmx_memcopy (secbuf f) (secbufp f) buf p ?n = Some ?mem"
      using fl f assms(2,4) by (simp add: dvb_dmx_memcopy_def)
    have safe: "sec_safe fs ?f"
      using f fl by (simp add: sec_safe_update)
    from section_feed_safe [OF this, of env c] f(2) obtain r f' c' where
      "dvb_dmx_swfilter_section_feed env fs ?f c = Some (r, f', c')" "sec_safe fs f'"
      "seclen f' \<le> seclen f"
      by (auto simp: SECBUF_SIZE_def elim: safe_stepE)
    with mem safe f(2) show ?thesis
      by (cases "seclen f - secbufp f \<le> ?count") (auto simp: Let_def min_def split: if_splits)
  qed
  show ?thesis
  proof (cases "0 < secbufp feed \<and> secbufp feed < 3 \<and> 3 - secbufp feed \<le> ?count")
    case False
    then show ?thesis
      using tail [OF assms(1,3)] assms(1,3) by (auto simp: section_continue_def Let_def)
  next
    case True
    let ?mem = "blit (secbuf feed) (secbufp feed) (take (3 - secbufp feed) (drop p buf))"
    let ?feed = "feed\<lparr>crc_val := - 1, secbuf := ?mem, seclen := section_length ?mem\<rparr>"
    have "dvb_dmx_memcopy (secbuf feed) (secbufp feed) buf p (3 - secbufp feed) = Some ?mem"
      using True len assms(2) by (auto simp: dvb_dmx_memcopy_def memcpy_def)
    moreover have "length ?mem = length (secbuf feed)"
      by (rule length_blit) (use True len in auto)
    then have "sec_safe fs ?feed"
      using assms(1) by (simp add: sec_safe_update)
    ultimately show ?thesis
      using True tail [of ?feed] section_length_le [of ?mem]
      by (auto simp: section_continue_def Let_def)
  qed
qed

lemma section_packet_safe:
  assumes "sec_safe fs feed" "length buf = 188" "seclen feed \<le> 4096"
  shows "safe_step fs 4098 (dvb_dmx_swfilter_section_packet env fs feed buf c)"
proof (cases "payload buf = 0")
  case True
  with assms show ?thesis by (auto simp: dvb_dmx_swfilter_section_packet_def)
next
  case False
  define p where "p = 188 - payload buf"
  have p: "4 \<le> p" "p < 188" using False payload_le [of buf] by (auto simp: p_def)
  let ?feed = "feed\<lparr>feed_cc := buf ! 3 AND 0x0f\<rparr>" and ?ptr = "unat (buf ! p)"
  have f: "sec_safe fs ?feed" "seclen ?feed \<le> 4096" using assms by (simp_all add: sec_safe_update)
  have starts: "safe_step fs 4098 (section_starts env fs f' buf (p + ?ptr + 1) c')"
    if "sec_safe fs f'" "seclen f' \<le> 4098" for f' c'
    by (rule section_starts_safe) (use that assms in auto)
  have rest: "safe_step fs 4098 (section_rest env fs ?feed buf p ?ptr c)" if "p + ?ptr \<le> 187"
    by (rule section_rest_safe) (use that f assms in auto)
  have cont: "safe_step fs 4098 (section_continue env fs ?feed buf p c)"
    by (rule section_continue_safe) (use f assms p in auto)
  show ?thesis
  proof (cases "buf ! 1 AND 0x40 \<noteq> 0 \<and> p + ?ptr \<le> 187")
    case True
    show ?thesis
    proof (cases "buf ! p \<noteq> 0 \<and> (feed_cc feed + 1) AND 0x0f = buf ! 3 AND 0x0f")
      case rest_case: True
      obtain r f' c' where "section_rest env fs ?feed buf p ?ptr c = Some (r, f', c')"
        "sec_safe fs f'" "seclen f' \<le> 4098"
        using rest True by (auto elim: safe_stepE)
      with True rest_case False p assms(2) starts [of f' c'] show ?thesis
        by (auto simp: dvb_dmx_swfilter_section_packet_def Let_def p_def [symmetric] split: sum.splits)
    next
      case False
      with True \<open>payload buf \<noteq> 0\<close> p assms(2) starts [of ?feed c] f show ?thesis
        by (auto simp: dvb_dmx_swfilter_section_packet_def Let_def p_def [symmetric])
    qed
  next
    case no_start: False
    with False p assms f cont show ?thesis
      by (auto simp: dvb_dmx_swfilter_section_packet_def Let_def p_def [symmetric])
  qed
qed

text \<open>
  Memory safety of the section path. Whatever the 188 bytes of a packet are, a section feed
  whose announced section length is at most 4096 processes the packet without leaving the packet
  or its reassembly buffer, and keeps a buffer of that size and an intact filter chain.
\<close>

theorem section_packet_memory_safe:
  assumes "length buf = 188" "feed_type feed = DMX_TYPE_SEC"
    and "length (secbuf feed) = SECBUF_SIZE" "seclen feed \<le> SECBUF_SIZE"
    and "chain_ok fs feed"
  shows "\<exists>feed' c'. dvb_dmx_swfilter_packet_type env fs feed buf c = Some (feed', c')
    \<and> length (secbuf feed') = SECBUF_SIZE \<and> chain_ok fs feed'"
proof -
  have "sec_safe fs feed" using assms by (simp add: sec_safe_def)
  from section_packet_safe [OF this assms(1), of env c] assms(4)
  obtain r feed' c' where "dvb_dmx_swfilter_section_packet env fs feed buf c = Some (r, feed', c')"
    "sec_safe fs feed'"
    by (auto simp: SECBUF_SIZE_def elim: safe_stepE)
  with assms show ?thesis
    by (auto simp: dvb_dmx_swfilter_packet_type_def sec_safe_def chain_ok_def split: sum.splits)
qed

text \<open>Where it ends: the length check is missing for a section that starts in one packet and ends
  in a later one.\<close>

lemma cont_overflow:
  assumes "ts_cont buf ((feed_cc feed + 1) AND 0x0f) dat"
    and "sec_partial feed sec k" "length sec \<le> k + 184" "4096 < length sec"
  shows "dvb_dmx_swfilter_section_packet env fs feed buf c = None"
proof -
  have st: "secbufp feed = k" "seclen feed = length sec" "length (secbuf feed) = 4096"
    "3 \<le> k" "k < length sec"
    using assms(2) by (simp_all add: sec_partial_def SECBUF_SIZE_def)
  have fits: "length sec - k \<le> 184" using assms(3) by linarith
  show ?thesis
    unfolding section_packet_cont [OF assms(1)]
    using st fits assms(4)
    by (simp add: section_continue_def Let_def dvb_dmx_memcopy_def memcpy_out_of_range)
qed

lemma run_conts_overflow:
  assumes "ts_conts (feed_cc feed) bs (drop k (sec @ pad))" "sec_partial feed sec k"
    and "4096 < length sec" "length sec \<le> 4098" "k mod 184 = 183"
  shows "swfilter_run env fs bs feed c = None"
  using assms
proof (induction bs arbitrary: feed k)
  case Nil
  then show ?case by (simp add: sec_partial_def)
next
  case (Cons b bs)
  let ?cc = "(feed_cc feed + 1) AND 0x0f"
  have k: "k < length sec" using Cons.prems(2) by (simp add: sec_partial_def)
  have hd: "ts_cont b ?cc (take 184 (drop k (sec @ pad)))"
    and tl: "ts_conts ?cc bs (drop (k + 184) (sec @ pad))"
    using Cons.prems(1) k
    by (auto simp del: drop_append take_append length_append simp add: add.commute)
  note ty = sec_partial_type [OF Cons.prems(2)]
  show ?case
  proof (cases "k + 184 < length sec")
    case True
    then have "ts_cont b ?cc (take 184 (drop k sec))" using hd by simp
    moreover have "k + 184 \<le> 4096"
    proof -
      have "k = 184 * (k div 184) + 183" using Cons.prems(5) by (metis mult_div_mod_eq)
      moreover from this have "k div 184 < 21" using True Cons.prems(4) by linarith
      ultimately show ?thesis by linarith
    qed
    ultimately obtain feed' where
      f: "dvb_dmx_swfilter_section_packet env fs feed b c = Some (Inr 0, feed', c)"
      "sec_partial feed' sec (k + 184)" "feed_cc feed' = ?cc"
      using cont_middle [OF _ Cons.prems(2) True, of b env fs c] by blast
    have step: "dvb_dmx_swfilter_packet_type env fs feed b c = Some (feed', c)"
      by (rule packet_type_sec [OF _ _ f(1)]) (use ty in simp_all)
    have "swfilter_run env fs bs feed' c = None"
      by (rule Cons.IH [OF _ f(2)]) (use tl f(3) Cons.prems in auto)
    with step show ?thesis by simp
  next
    case False
    then have "dvb_dmx_swfilter_section_packet env fs feed b c = None"
      by (intro cont_overflow [OF hd Cons.prems(2)]) (use Cons.prems in auto)
    then show ?thesis using ty by (simp add: dvb_dmx_swfilter_packet_type_def)
  qed
qed

text \<open>
  C10: the counterpart of C5 for a section whose length field announces more than 4096 bytes (the
  field allows 4098): the packets of such a section drive the copy past the end of the 4096 byte
  reassembly buffer. Only the branches for a section inside one packet and for a header cut in two
  check the length.
\<close>

theorem oversized_section_overflows:
  assumes "packetised cc sec bufs" "sec_clean feed"
    and "length sec = section_length sec" "4096 < length sec"
  shows "swfilter_run env fs bufs feed c = None"
proof -
  obtain b bs pad where bufs: "bufs = b # bs"
    and st: "ts_start b cc (take 183 (sec @ replicate pad 0xff))"
    and ct: "ts_conts cc bs (drop 183 (sec @ replicate pad 0xff))"
    using assms(1) unfolding packetised_def by blast
  note ty = sec_clean_type [OF assms(2)]
  have big: "183 < length sec" using assms(4) by simp
  then have "ts_start b cc (take 183 sec)" using st by simp
  from start_partial [OF this assms(2,3) big, of env fs c] obtain feed1 where
    f: "dvb_dmx_swfilter_section_packet env fs feed b c = Some (Inr 0, feed1, c)"
    "sec_partial feed1 sec 183" "feed_cc feed1 = cc"
    by blast
  have step: "dvb_dmx_swfilter_packet_type env fs feed b c = Some (feed1, c)"
    by (rule packet_type_sec [OF _ _ f(1)]) (use ty in simp_all)
  have "length sec \<le> 4098" using assms(3) section_length_le [of sec] by simp
  then have "swfilter_run env fs bs feed1 c = None"
    by (intro run_conts_overflow [where pad = "replicate pad 0xff", OF _ f(2) assms(4)])
      (use ct f(3) in auto)
  with step show ?thesis unfolding bufs by simp
qed

theorem section_reassembly_witness:
  "\<exists>feed'. swfilter_run ex_env [ex_filter] (packetise 3 ([0x42, 0x01, 0x2c] @ replicate 300 7))
      (ex_feed 0) []
      = Some (feed', deliver ex_env 0 ([0x42, 0x01, 0x2c] @ replicate 300 7) [ex_filter] [])
    \<and> sec_clean feed' \<and> sec_frame (ex_feed 0) feed'"
  using section_reassembly [OF packetise_packetised, of 3 "ex_feed 0"
      "[0x42, 0x01, 0x2c] @ replicate 300 7" ex_env 0 "[ex_filter]" "[0]" "[]"]
  by (simp add: sec_clean_def section_length_def SECBUF_SIZE_def crc_good_def cb_succeeds_def)

theorem bad_crc_not_delivered_witness:
  "\<exists>feed'. swfilter_run ex_env [ex_filter] (packetise 3 ([0x42, 0x81, 0x2c] @ replicate 300 7))
      (ex_feed 0) [] = Some (feed', []) \<and> secbufp feed' = 303 \<and> seclen feed' = 303"
  using bad_crc_not_delivered [OF packetise_packetised, of 3 "ex_feed 0"
      "[0x42, 0x81, 0x2c] @ replicate 300 7" 0 ex_env "[ex_filter]" "[]"]
  by (simp add: sec_clean_def section_length_def SECBUF_SIZE_def)

theorem stale_positions_lose_next_section_witness:
  "\<exists>feed'. swfilter_run ex_env [ex_filter]
      [[0x47, 0x40, 0x11, 0x15, 0, 0x42, 0x01, 0x2c] @ replicate 180 7,
       [0x47, 0x00, 0x11, 0x16] @ replicate 184 7] (ex_feed 303) []
      = Some (feed', []) \<and> secbufp feed' = 0 \<and> seclen feed' = 0"
  by (rule stale_positions_lose_next_section [where n = 303 and cc = 5
        and sec = "[0x42, 0x01, 0x2c] @ replicate 300 7" and dat = "replicate 184 7"])
    (simp_all add: SECBUF_SIZE_def ts_start_def ts_cont_def section_length_def)

theorem section_packet_memory_safe_witness:
  "\<exists>feed' c'. dvb_dmx_swfilter_packet_type ex_env [ex_filter] (ex_feed 303) (replicate 188 0x47) []
      = Some (feed', c') \<and> length (secbuf feed') = SECBUF_SIZE \<and> chain_ok [ex_filter] feed'"
  by (rule section_packet_memory_safe)
    (auto simp: SECBUF_SIZE_def chain_ok_def intro!: exI [of _ "[0]"])

theorem oversized_section_overflows_witness:
  "swfilter_run ex_env [ex_filter] (packetise 3 ([0x42, 0x0f, 0xff] @ replicate 4095 7))
      (ex_feed 0) [] = None"
  by (rule oversized_section_overflows [OF packetise_packetised])
    (simp_all add: sec_clean_def section_length_def SECBUF_SIZE_def)

end
