(* ===== verification/Demux_Api.thy ===== *)
theory Demux_Api
  imports Demux_Sync Demux_Delivery
begin

text \<open>
  The client interface of \<open>dvb_demux.c\<close>: feeds and filters are allocated, set, started, stopped and
  released; frontends are connected. A pointer to a feed or a filter is its index; \<open>intr\<close> says that
  \<open>down_interruptible\<close> was interrupted. A function that hands out a pointer returns \<open>Inr i\<close> for a
  return value of 0 with that pointer.
\<close>

section \<open>Registration\<close>

text \<open>The list \<open>dmx_muxs\<close> of all demuxes: the address and the \<open>users\<close> field of each.\<close>

type_synonym dmx_registry = "(nat \<times> nat) list"

definition dmx_register_demux :: "nat \<Rightarrow> dmx_registry \<Rightarrow> cret \<times> dmx_registry" where
  "dmx_register_demux dmx muxs = (Inr 0, (dmx, 0) # muxs)"

fun dmx_unregister_demux :: "nat \<Rightarrow> dmx_registry \<Rightarrow> cret \<times> dmx_registry" where
  "dmx_unregister_demux dmx [] = (Inl ENODEV, [])"
| "dmx_unregister_demux dmx ((a, users) # muxs) =
     (if a = dmx then (if users > 0 then (Inl EINVAL, (a, users) # muxs) else (Inr 0, muxs))
      else (let (r, muxs) = dmx_unregister_demux dmx muxs in (r, (a, users) # muxs)))"

definition dmx_get_demuxes :: "dmx_registry \<Rightarrow> dmx_registry option" where
  "dmx_get_demuxes muxs = (if muxs = [] then None else Some muxs)"


section \<open>Slots and the feed list\<close>

definition upd_feed :: "nat \<Rightarrow> (dvb_demux_feed \<Rightarrow> dvb_demux_feed) \<Rightarrow> dvb_demux \<Rightarrow> dvb_demux" where
  "upd_feed i g d = d\<lparr>dmx_feeds := (dmx_feeds d)[i := g (dmx_feeds d ! i)]\<rparr>"

definition upd_filter :: "nat \<Rightarrow> (dvb_demux_filter \<Rightarrow> dvb_demux_filter) \<Rightarrow> dvb_demux \<Rightarrow> dvb_demux" where
  "upd_filter j g d = d\<lparr>dmx_filters := (dmx_filters d)[j := g (dmx_filters d ! j)]\<rparr>"

definition dvb_dmx_filter_alloc :: "dvb_demux \<Rightarrow> (nat \<times> dvb_demux) option" where
  "dvb_dmx_filter_alloc d =
     map_option (\<lambda>j. (j, upd_filter j (\<lambda>f. f\<lparr>filter_state := DMX_STATE_ALLOCATED\<rparr>) d))
       (first_index (\<lambda>f. filter_state f = DMX_STATE_FREE) (dmx_filters d))"

definition dvb_dmx_feed_alloc :: "dvb_demux \<Rightarrow> (nat \<times> dvb_demux) option" where
  "dvb_dmx_feed_alloc d =
     map_option (\<lambda>i. (i, upd_feed i (\<lambda>f. f\<lparr>feed_state := DMX_STATE_ALLOCATED\<rparr>) d))
       (first_index (\<lambda>f. feed_state f = DMX_STATE_FREE) (dmx_feeds d))"

definition dvb_demux_feed_find :: "nat \<Rightarrow> dvb_demux \<Rightarrow> bool" where
  "dvb_demux_feed_find i d \<longleftrightarrow> i \<in> set (feed_list d)"

definition dvb_demux_feed_add :: "nat \<Rightarrow> dvb_demux \<Rightarrow> dvb_demux" where
  "dvb_demux_feed_add i d =
     (if dvb_demux_feed_find i d then d else d\<lparr>feed_list := i # feed_list d\<rparr>)"

definition dvb_demux_feed_del :: "nat \<Rightarrow> dvb_demux \<Rightarrow> dvb_demux" where
  "dvb_demux_feed_del i d =
     (if dvb_demux_feed_find i d then d\<lparr>feed_list := remove1 i (feed_list d)\<rparr> else d)"


section \<open>Transport stream feeds\<close>

definition dmx_ts_feed_set ::
  "bool \<Rightarrow> nat \<Rightarrow> nat \<Rightarrow> u32 \<Rightarrow> nat \<Rightarrow> nat \<Rightarrow> nat \<Rightarrow> bool \<Rightarrow> nat \<Rightarrow> dvb_demux \<Rightarrow> cret \<times> dvb_demux"
where
  "dmx_ts_feed_set intr i pid tt pt callback_length circular_buffer_size descr tmo d =
     (if pid > DMX_MAX_PID then (Inl EINVAL, d)
      else if intr then (Inl ERESTARTSYS, d)
      else if tt AND TS_DECODER \<noteq> 0 \<and> pt \<ge> DMX_TS_PES_OTHER then (Inl EINVAL, d)
      else if tt AND TS_DECODER \<noteq> 0 \<and> pesfilter d ! pt \<noteq> None \<and> pesfilter d ! pt \<noteq> Some i
        then (Inl EINVAL, d)
      else
       (let d = (if tt AND TS_DECODER \<noteq> 0
                 then d\<lparr>pesfilter := (pesfilter d)[pt := Some i], dmx_pids := (dmx_pids d)[pt := pid]\<rparr>
                 else d);
            d = dvb_demux_feed_add i d;
            d = upd_feed i (\<lambda>f. f\<lparr>feed_pid := pid, buffer_size := circular_buffer_size,
                  descramble := descr, feed_timeout := tmo, cb_length := callback_length,
                  ts_type := tt, pes_type := pt\<rparr>) d
        in if descr then (Inl ENOSYS, d)
           else (Inr 0, upd_feed i (\<lambda>f. f\<lparr>feed_state := DMX_STATE_READY\<rparr>) d)))"

definition dmx_ts_feed_start_filtering ::
  "'c dmx_env \<Rightarrow> bool \<Rightarrow> nat \<Rightarrow> dvb_demux \<Rightarrow> 'c \<Rightarrow> cret \<times> dvb_demux \<times> 'c" where
  "dmx_ts_feed_start_filtering env intr i d c =
     (let feed = dmx_feeds d ! i in
      if intr then (Inl ERESTARTSYS, d, c)
      else if feed_state feed \<noteq> DMX_STATE_READY \<or> feed_type feed \<noteq> DMX_TYPE_TS then (Inl EINVAL, d, c)
      else case start_feed env of
        None \<Rightarrow> (Inl ENODEV, d, c)
      | Some start \<Rightarrow>
          (case start feed c of
             (Inl e, c) \<Rightarrow> (Inl e, d, c)
           | (Inr _, c) \<Rightarrow>
               (Inr 0, upd_feed i (\<lambda>f. f\<lparr>is_filtering := True, feed_state := DMX_STATE_GO\<rparr>) d, c)))"

definition dmx_ts_feed_stop_filtering ::
  "'c dmx_env \<Rightarrow> bool \<Rightarrow> nat \<Rightarrow> dvb_demux \<Rightarrow> 'c \<Rightarrow> cret \<times> dvb_demux \<times> 'c" where
  "dmx_ts_feed_stop_filtering env intr i d c =
     (let feed = dmx_feeds d ! i in
      if intr then (Inl ERESTARTSYS, d, c)
      else if feed_state feed < DMX_STATE_GO then (Inl EINVAL, d, c)
      else case stop_feed env of
        None \<Rightarrow> (Inl ENODEV, d, c)
      | Some stop \<Rightarrow>
          (case stop feed c of (r, c) \<Rightarrow>
             (r, upd_feed i (\<lambda>f. f\<lparr>is_filtering := False, feed_state := DMX_STATE_ALLOCATED\<rparr>) d, c)))"

definition dvbdmx_allocate_ts_feed :: "bool \<Rightarrow> nat \<Rightarrow> dvb_demux \<Rightarrow> cret \<times> dvb_demux" where
  "dvbdmx_allocate_ts_feed intr callback d =
     (if intr then (Inl ERESTARTSYS, d)
      else case dvb_dmx_feed_alloc d of
        None \<Rightarrow> (Inl EBUSY, d)
      | Some (i, d) \<Rightarrow>
         (let d = upd_feed i (\<lambda>f. f\<lparr>feed_type := DMX_TYPE_TS, feed_cb := callback, feed_pid := 0xffff,
                    peslen := 0xfffa, feed_priv := None, is_filtering := False\<rparr>) d
          in case dvb_dmx_filter_alloc d of
               None \<Rightarrow> (Inl EBUSY,
                 upd_feed i (\<lambda>f. f\<lparr>feed_filter := None, feed_state := DMX_STATE_FREE\<rparr>) d)
             | Some (j, d) \<Rightarrow>
                 (Inr i, upd_filter j (\<lambda>f. f\<lparr>filter_type := DMX_TYPE_TS, filter_feed := Some i,
                           filter_state := DMX_STATE_READY\<rparr>)
                   (upd_feed i (\<lambda>f. f\<lparr>feed_filter := Some j\<rparr>) d))))"

text \<open>\<open>None\<close>: a null filter pointer, or an index outside \<open>pesfilter\<close>.\<close>

definition dvbdmx_release_ts_feed :: "bool \<Rightarrow> nat \<Rightarrow> dvb_demux \<Rightarrow> (cret \<times> dvb_demux) option" where
  "dvbdmx_release_ts_feed intr i d =
     (let feed = dmx_feeds d ! i in
      if intr then Some (Inl ERESTARTSYS, d)
      else if feed_state feed = DMX_STATE_FREE then Some (Inl EINVAL, d)
      else do {
        j \<leftarrow> feed_filter feed;
        let d = upd_feed i (\<lambda>f. f\<lparr>feed_state := DMX_STATE_FREE\<rparr>) d;
        let d = upd_filter j (\<lambda>f. f\<lparr>filter_state := DMX_STATE_FREE\<rparr>) d;
        let d = dvb_demux_feed_del i d;
        let d = upd_feed i (\<lambda>f. f\<lparr>feed_pid := 0xffff\<rparr>) d;
        if ts_type feed AND TS_DECODER \<noteq> 0 then
          (if pes_type feed < length (pesfilter d)
           then Some (Inr 0, d\<lparr>pesfilter := (pesfilter d)[pes_type feed := None]\<rparr>) else None)
        else Some (Inr 0, d)
      })"


section \<open>Section feeds\<close>

definition dmx_section_feed_allocate_filter :: "bool \<Rightarrow> nat \<Rightarrow> dvb_demux \<Rightarrow> cret \<times> dvb_demux" where
  "dmx_section_feed_allocate_filter intr i d =
     (if intr then (Inl ERESTARTSYS, d)
      else case dvb_dmx_filter_alloc d of
        None \<Rightarrow> (Inl EBUSY, d)
      | Some (j, d) \<Rightarrow>
          (Inr j, upd_feed i (\<lambda>f. f\<lparr>feed_filter := Some j\<rparr>)
            (upd_filter j (\<lambda>f. f\<lparr>filter_priv := None, filter_feed := Some i, filter_type := DMX_TYPE_SEC,
               filter_state := DMX_STATE_READY, filter_next := feed_filter (dmx_feeds d ! i)\<rparr>) d)))"

definition dmx_section_feed_set ::
  "bool \<Rightarrow> nat \<Rightarrow> nat \<Rightarrow> nat \<Rightarrow> bool \<Rightarrow> bool \<Rightarrow> dvb_demux \<Rightarrow> cret \<times> dvb_demux" where
  "dmx_section_feed_set intr i pid circular_buffer_size descr check d =
     (if pid > 0x1fff then (Inl EINVAL, d)
      else if intr then (Inl ERESTARTSYS, d)
      else
       (let d = dvb_demux_feed_add i d;
            d = upd_feed i (\<lambda>f. f\<lparr>feed_pid := pid, buffer_size := circular_buffer_size,
                  descramble := descr\<rparr>) d
        in if descr then (Inl ENOSYS, d)
           else (Inr 0, upd_feed i (\<lambda>f. f\<lparr>check_crc := check, feed_state := DMX_STATE_READY\<rparr>) d)))"

text \<open>One filter of \<open>prepare_secfilters\<close>, and its loop over the chain.\<close>

definition prepare_secfilter :: "dvb_demux_filter \<Rightarrow> dvb_demux_filter" where
  "prepare_secfilter f =
     (let notmode = map (\<lambda>i. filter_mask f ! i AND NOT (filter_mode f ! i)) [0 ..< DVB_DEMUX_MASK_MAX] in
      f\<lparr>maskandmode := map (\<lambda>i. filter_mask f ! i AND filter_mode f ! i) [0 ..< DVB_DEMUX_MASK_MAX],
        maskandnotmode := notmode,
        doneq := fold (OR) notmode 0 \<noteq> 0\<rparr>)"

fun prepare_chain :: "nat \<Rightarrow> nat option \<Rightarrow> dvb_demux_filter list \<Rightarrow> dvb_demux_filter list" where
  "prepare_chain n None fs = fs"
| "prepare_chain 0 (Some j) fs = fs"
| "prepare_chain (Suc n) (Some j) fs =
     prepare_chain n (filter_next (fs ! j)) (fs[j := prepare_secfilter (fs ! j)])"

definition prepare_secfilters :: "nat \<Rightarrow> dvb_demux \<Rightarrow> dvb_demux" where
  "prepare_secfilters i d =
     d\<lparr>dmx_filters := prepare_chain (length (dmx_filters d)) (feed_filter (dmx_feeds d ! i))
          (dmx_filters d)\<rparr>"

definition dmx_section_feed_start_filtering ::
  "'c dmx_env \<Rightarrow> bool \<Rightarrow> nat \<Rightarrow> dvb_demux \<Rightarrow> 'c \<Rightarrow> cret \<times> dvb_demux \<times> 'c" where
  "dmx_section_feed_start_filtering env intr i d c =
     (if intr then (Inl ERESTARTSYS, d, c)
      else if is_filtering (dmx_feeds d ! i) then (Inl EBUSY, d, c)
      else if feed_filter (dmx_feeds d ! i) = None then (Inl EINVAL, d, c)
      else
       (let d = upd_feed i (\<lambda>f. f\<lparr>secbufp := 0, seclen := 0\<rparr>) d in
        case start_feed env of
          None \<Rightarrow> (Inl ENODEV, d, c)
        | Some start \<Rightarrow>
           (let d = prepare_secfilters i d in
            case start (dmx_feeds d ! i) c of
              (Inl e, c) \<Rightarrow> (Inl e, d, c)
            | (Inr _, c) \<Rightarrow>
                (Inr 0, upd_feed i (\<lambda>f. f\<lparr>is_filtering := True, feed_state := DMX_STATE_GO\<rparr>) d, c))))"

definition dmx_section_feed_stop_filtering ::
  "'c dmx_env \<Rightarrow> bool \<Rightarrow> nat \<Rightarrow> dvb_demux \<Rightarrow> 'c \<Rightarrow> cret \<times> dvb_demux \<times> 'c" where
  "dmx_section_feed_stop_filtering env intr i d c =
     (if intr then (Inl ERESTARTSYS, d, c)
      else case stop_feed env of
        None \<Rightarrow> (Inl ENODEV, d, c)
      | Some stop \<Rightarrow>
          (case stop (dmx_feeds d ! i) c of (r, c) \<Rightarrow>
             (r, upd_feed i (\<lambda>f. f\<lparr>feed_state := DMX_STATE_READY, is_filtering := False\<rparr>) d, c)))"

text \<open>The scan for the filter in front of \<open>j\<close>; \<open>None\<close> when it runs off the end of the chain.\<close>

fun find_pred :: "nat \<Rightarrow> dvb_demux_filter list \<Rightarrow> nat option \<Rightarrow> nat \<Rightarrow> nat option" where
  "find_pred n fs None j = None"
| "find_pred 0 fs (Some f) j = None"
| "find_pred (Suc n) fs (Some f) j =
     (if filter_next (fs ! f) = Some j then Some f else find_pred n fs (filter_next (fs ! f)) j)"

text \<open>
  A call may also never return: \<open>dmx_section_feed_release_filter\<close> holds the mutex when it calls
  \<open>stop_filtering\<close>, which takes it again. Only a signal (\<open>intr2\<close>) ends that wait, and the result
  of \<open>stop_filtering\<close> is ignored.
\<close>

definition unlink_filter :: "nat \<Rightarrow> nat \<Rightarrow> dvb_demux \<Rightarrow> dvb_demux option" where
  "unlink_filter i j d =
     (let h = feed_filter (dmx_feeds d ! i) in
      if h = Some j
      then Some (upd_feed i (\<lambda>f. f\<lparr>feed_filter := filter_next (dmx_filters d ! j)\<rparr>) d)
      else map_option (\<lambda>p. upd_filter p (\<lambda>f. f\<lparr>filter_next := filter_next (dmx_filters d ! j)\<rparr>) d)
             (find_pred (length (dmx_filters d)) (dmx_filters d) h j))"

definition dmx_section_feed_release_filter ::
  "bool \<Rightarrow> bool \<Rightarrow> nat \<Rightarrow> nat \<Rightarrow> dvb_demux \<Rightarrow> (cret \<times> dvb_demux) outcome" where
  "dmx_section_feed_release_filter intr intr2 i j d =
     (if intr then Returns (Inl ERESTARTSYS, d)
      else if filter_feed (dmx_filters d ! j) \<noteq> Some i then Returns (Inl EINVAL, d)
      else if is_filtering (dmx_feeds d ! i) \<and> \<not> intr2 then Deadlock
      else case unlink_filter i j d of
        None \<Rightarrow> Fault
      | Some d \<Rightarrow> Returns (Inr 0, upd_filter j (\<lambda>f. f\<lparr>filter_state := DMX_STATE_FREE\<rparr>) d))"

definition dvbdmx_allocate_section_feed :: "bool \<Rightarrow> nat \<Rightarrow> dvb_demux \<Rightarrow> cret \<times> dvb_demux" where
  "dvbdmx_allocate_section_feed intr callback d =
     (if intr then (Inl ERESTARTSYS, d)
      else case dvb_dmx_feed_alloc d of
        None \<Rightarrow> (Inl EBUSY, d)
      | Some (i, d) \<Rightarrow>
          (Inr i, upd_feed i (\<lambda>f. f\<lparr>feed_type := DMX_TYPE_SEC, feed_cb := callback, feed_pid := 0xffff,
             secbufp := 0, feed_filter := None, is_filtering := False, feed_priv := None\<rparr>) d))"

definition dvbdmx_release_section_feed :: "bool \<Rightarrow> nat \<Rightarrow> dvb_demux \<Rightarrow> cret \<times> dvb_demux" where
  "dvbdmx_release_section_feed intr i d =
     (if intr then (Inl ERESTARTSYS, d)
      else if feed_state (dmx_feeds d ! i) = DMX_STATE_FREE then (Inl EINVAL, d)
      else
       (let d = upd_feed i (\<lambda>f. f\<lparr>feed_state := DMX_STATE_FREE\<rparr>) d;
            d = dvb_demux_feed_del i d
        in (Inr 0, upd_feed i (\<lambda>f. f\<lparr>feed_pid := 0xffff\<rparr>) d)))"


section \<open>The demux device\<close>

definition dvbdmx_open :: "dvb_demux \<Rightarrow> cret \<times> dvb_demux" where
  "dvbdmx_open d =
     (if dmx_users d \<ge> MAX_DVB_DEMUX_USERS then (Inl EUSERS, d)
      else (Inr 0, d\<lparr>dmx_users := dmx_users d + 1\<rparr>))"

definition dvbdmx_close :: "dvb_demux \<Rightarrow> cret \<times> dvb_demux" where
  "dvbdmx_close d =
     (if dmx_users d = 0 then (Inl ENODEV, d) else (Inr 0, d\<lparr>dmx_users := dmx_users d - 1\<rparr>))"

definition dvbdmx_write ::
  "'c dmx_env \<Rightarrow> bool \<Rightarrow> bool \<Rightarrow> u8 list \<Rightarrow> dvb_demux \<Rightarrow> 'c \<Rightarrow> (cret \<times> dvb_demux \<times> 'c) option" where
  "dvbdmx_write env intr signal buf d c =
     (if \<not> (\<exists>fe. dmx_frontend d = Some fe \<and> fe_source fe = DMX_MEMORY_FE) then Some (Inl EINVAL, d, c)
      else if intr then Some (Inl ERESTARTSYS, d, c)
      else do {
        (d, c) \<leftarrow> dvb_dmx_swfilter env buf d c;
        Some (if signal then Inl EINTR else Inr (length buf), d, c)
      })"

definition dvbdmx_add_frontend :: "dmx_frontend \<Rightarrow> dvb_demux \<Rightarrow> cret \<times> dvb_demux" where
  "dvbdmx_add_frontend fe d = (Inr 0, d\<lparr>frontend_list := fe # frontend_list d\<rparr>)"

definition dvbdmx_remove_frontend :: "dmx_frontend \<Rightarrow> dvb_demux \<Rightarrow> cret \<times> dvb_demux" where
  "dvbdmx_remove_frontend fe d =
     (case first_index (\<lambda>x. fe_addr x = fe_addr fe) (frontend_list d) of
        None \<Rightarrow> (Inl ENODEV, d)
      | Some k \<Rightarrow> (Inr 0, d\<lparr>frontend_list := take k (frontend_list d) @ drop (Suc k) (frontend_list d)\<rparr>))"

definition dvbdmx_get_frontends :: "dvb_demux \<Rightarrow> dmx_frontend list option" where
  "dvbdmx_get_frontends d = (if frontend_list d = [] then None else Some (frontend_list d))"

definition dvbdmx_connect_frontend :: "bool \<Rightarrow> dmx_frontend \<Rightarrow> dvb_demux \<Rightarrow> cret \<times> dvb_demux" where
  "dvbdmx_connect_frontend intr fe d =
     (if dmx_frontend d \<noteq> None then (Inl EINVAL, d)
      else if intr then (Inl ERESTARTSYS, d)
      else (Inr 0, d\<lparr>dmx_frontend := Some fe\<rparr>))"

definition dvbdmx_disconnect_frontend :: "bool \<Rightarrow> dvb_demux \<Rightarrow> cret \<times> dvb_demux" where
  "dvbdmx_disconnect_frontend intr d =
     (if intr then (Inl ERESTARTSYS, d) else (Inr 0, d\<lparr>dmx_frontend := None\<rparr>))"

definition dvbdmx_get_pes_pids :: "dvb_demux \<Rightarrow> cret \<times> nat list" where
  "dvbdmx_get_pes_pids d = (Inr 0, take 5 (dmx_pids d))"

text \<open>\<open>vmalloc\<close> hands out arrays with arbitrary contents, or nothing.\<close>

definition dvb_dmx_init ::
  "nat \<Rightarrow> dvb_demux_filter list option \<Rightarrow> dvb_demux_feed list option \<Rightarrow> dvb_demux \<Rightarrow> dmx_registry \<Rightarrow>
     cret \<times> dvb_demux \<times> dmx_registry" where
  "dvb_dmx_init dmx filtermem feedmem d muxs =
     (let d = d\<lparr>dmx_users := 0\<rparr> in
      case filtermem of
        None \<Rightarrow> (Inl ENOMEM, d, muxs)
      | Some fs \<Rightarrow>
         (case feedmem of
            None \<Rightarrow> (Inl ENOMEM, d, muxs)
          | Some feeds \<Rightarrow>
             (let d = d\<lparr>dmx_filters := map (\<lambda>i. (fs ! i)\<lparr>filter_state := DMX_STATE_FREE, filter_index := i\<rparr>)
                         [0 ..< length fs],
                        dmx_feeds := map (\<lambda>f. f\<lparr>feed_state := DMX_STATE_FREE\<rparr>) feeds,
                        frontend_list := [],
                        pesfilter := replicate DMX_TS_PES_OTHER None,
                        dmx_pids := replicate DMX_TS_PES_OTHER 0xffff,
                        feed_list := [], dmx_playing := False, dmx_recording := False,
                        tsbufp := 0, dmx_frontend := None\<rparr>;
                  (r, muxs) = dmx_register_demux dmx muxs
              in (r, d, muxs))))"

definition dvb_dmx_release :: "nat \<Rightarrow> dvb_demux \<Rightarrow> dmx_registry \<Rightarrow> cret \<times> dvb_demux \<times> dmx_registry" where
  "dvb_dmx_release dmx d muxs =
     (let (_, muxs) = dmx_unregister_demux dmx muxs
      in (Inr 0, d\<lparr>dmx_filters := [], dmx_feeds := []\<rparr>, muxs))"

end
