(* ===== verification/Dmxdev.thy ===== *)
theory Dmxdev
  imports Dmxdev_Buffer Demux_Api
begin

text \<open>
  \<open>dmxdev.c\<close>: the character devices \<open>demux\<close> and \<open>dvr\<close>. Each open \<open>demux\<close> file is a filter with a
  buffer; its state goes from free over allocated and set to running, and from there to done or
  timed out. Section filters on the same PID share one feed of the demux.

  A state \<open>'h sys\<close> is the device, the demux it sits on, and the hardware below (\<open>'h\<close>), reached through
  the driver's start and stop hooks. A file is the index of its filter. \<open>None\<close> as a result means
  that the code dereferences a null pointer, leaves an array, or never returns. \<open>intr\<close> is the
  interruption of the demux's own mutex, for all calls a routine makes.
\<close>

section \<open>Types\<close>

datatype dmxdev_type = DMXDEV_TYPE_NONE | DMXDEV_TYPE_SEC | DMXDEV_TYPE_PES

datatype dmxdev_state =
  DMXDEV_STATE_FREE | DMXDEV_STATE_ALLOCATED | DMXDEV_STATE_SET | DMXDEV_STATE_GO
| DMXDEV_STATE_DONE | DMXDEV_STATE_TIMEDOUT

fun dmxdev_state_nr :: "dmxdev_state \<Rightarrow> nat" where
  "dmxdev_state_nr DMXDEV_STATE_FREE = 0"
| "dmxdev_state_nr DMXDEV_STATE_ALLOCATED = 1"
| "dmxdev_state_nr DMXDEV_STATE_SET = 2"
| "dmxdev_state_nr DMXDEV_STATE_GO = 3"
| "dmxdev_state_nr DMXDEV_STATE_DONE = 4"
| "dmxdev_state_nr DMXDEV_STATE_TIMEDOUT = 5"

lemma dmxdev_state_nr_inject: "dmxdev_state_nr s = dmxdev_state_nr t \<Longrightarrow> s = t"
  by (cases s; cases t) auto

instantiation dmxdev_state :: linorder
begin

definition less_eq_dmxdev_state :: "dmxdev_state \<Rightarrow> dmxdev_state \<Rightarrow> bool" where
  "less_eq_dmxdev_state s t \<longleftrightarrow> dmxdev_state_nr s \<le> dmxdev_state_nr t"

definition less_dmxdev_state :: "dmxdev_state \<Rightarrow> dmxdev_state \<Rightarrow> bool" where
  "less_dmxdev_state s t \<longleftrightarrow> dmxdev_state_nr s < dmxdev_state_nr t"

instance
  by standard (auto simp: less_eq_dmxdev_state_def less_dmxdev_state_def dest: dmxdev_state_nr_inject)

end

lemmas dmxdev_state_order = less_eq_dmxdev_state_def less_dmxdev_state_def

text \<open>
  The three values of the enumeration. \<open>DMX_SET_PES_FILTER\<close> does not check what the user passes; a
  number that is none of them is not represented here.
\<close>

datatype dmx_output = DMX_OUT_DECODER | DMX_OUT_TAP | DMX_OUT_TS_TAP

record dmx_filter_t =
  fl_filter :: "u8 list"
  fl_mask :: "u8 list"
  fl_mode :: "u8 list"

record dmx_sct_filter_params =
  sct_pid :: nat
  sct_filter :: dmx_filter_t
  sct_timeout :: nat
  sct_flags :: u32

record dmx_pes_filter_params =
  pes_pid :: nat
  pes_output :: dmx_output
  pes_pes_type :: int
  pes_flags :: u32

definition DMX_CHECK_CRC :: u32 where "DMX_CHECK_CRC = 1"
definition DMX_ONESHOT :: u32 where "DMX_ONESHOT = 2"
definition DMX_IMMEDIATE_START :: u32 where "DMX_IMMEDIATE_START = 4"
definition DMX_FILTER_SIZE :: nat where "DMX_FILTER_SIZE = 16"
definition DMX_PES_OTHER :: int where "DMX_PES_OTHER = 20"
definition DVR_BUFFER_SIZE :: nat where "DVR_BUFFER_SIZE = 10 * 188 * 1024"

text \<open>
  A filter: the unions \<open>feed\<close> and \<open>params\<close> are \<open>df_feed\<close> and the two parameter fields; a pending timer
  is the number of ticks until it fires.
\<close>

record dmxdev_filter =
  df_filter :: "nat option"
  df_feed :: "nat option"
  df_sec :: dmx_sct_filter_params
  df_pes :: dmx_pes_filter_params
  df_type :: dmxdev_type
  df_state :: dmxdev_state
  df_buffer :: dmxdev_buffer
  df_timer :: "nat option"
  df_todo :: int
  df_secheader :: "u8 list"
  df_pid :: nat

record dmxdev =
  dd_present :: bool
  dd_filters :: "dmxdev_filter list"
  dd_dvr :: "dmxdev_state list"
  dd_duplex :: bool
  dd_dvr_orig_fe :: "dmx_frontend option"
  dd_dvr_buffer :: dmxdev_buffer

record 'h dmxdev_hw =
  hw_start :: "(dvb_demux_feed \<Rightarrow> 'h \<Rightarrow> cret \<times> 'h) option"
  hw_stop :: "(dvb_demux_feed \<Rightarrow> 'h \<Rightarrow> cret \<times> 'h) option"
  hw_decoder :: "(dvb_demux_feed \<Rightarrow> u8 list \<Rightarrow> 'h \<Rightarrow> 'h) option"
  hw_crc :: "u32 \<Rightarrow> u8 list \<Rightarrow> u32"
  hw_hz :: nat

record 'h sys =
  s_dev :: dmxdev
  s_dmx :: dvb_demux
  s_hw :: 'h

definition CB_SECTION :: nat where "CB_SECTION = 0"
definition CB_TS :: nat where "CB_TS = 1"

abbreviation df :: "nat \<Rightarrow> 'h sys \<Rightarrow> dmxdev_filter" where
  "df k s \<equiv> dd_filters (s_dev s) ! k"

definition upd_dev :: "nat \<Rightarrow> (dmxdev_filter \<Rightarrow> dmxdev_filter) \<Rightarrow> dmxdev \<Rightarrow> dmxdev" where
  "upd_dev k g m = m\<lparr>dd_filters := (dd_filters m)[k := g (dd_filters m ! k)]\<rparr>"

definition upd_df :: "nat \<Rightarrow> (dmxdev_filter \<Rightarrow> dmxdev_filter) \<Rightarrow> 'h sys \<Rightarrow> 'h sys" where
  "upd_df k g s = s\<lparr>s_dev := upd_dev k g (s_dev s)\<rparr>"


section \<open>Callbacks\<close>

text \<open>
  The write of a callback and what it does when the buffer is full. A callback has no way to report a
  fault; the last case does not arise, since a write into a buffer that is intact, or has no memory,
  never leaves its memory (\<open>callback_write_no_fault\<close>).
\<close>

definition callback_write :: "u8 list \<Rightarrow> dmxdev_buffer \<Rightarrow> dmxdev_buffer" where
  "callback_write dat b =
     (case dvb_dmxdev_buffer_write dat b of
        Some (Inr _, b') \<Rightarrow> b'
      | Some (Inl _, b') \<Rightarrow> b'\<lparr>bf_pwrite := bf_pread b', bf_error := Some EOVERFLOW\<rparr>
      | None \<Rightarrow> b)"

lemma callback_write_no_fault:
  assumes "bf_wf b \<or> bf_data b = None"
  shows "dvb_dmxdev_buffer_write dat b \<noteq> None"
  using assms
proof
  assume "bf_wf b"
  then show ?thesis
    using buffer_write_fits [of b dat] buffer_write_full [of b dat] by (cases "length dat \<le> bf_room b") auto
qed (simp add: dvb_dmxdev_buffer_write_def Let_def)

definition dvb_dmxdev_section_callback :: "nat \<Rightarrow> u8 list \<Rightarrow> dmxdev \<Rightarrow> cret \<times> dmxdev" where
  "dvb_dmxdev_section_callback k buffer1 m =
     (let f = dd_filters m ! k in
      if bf_error (df_buffer f) \<noteq> None then (Inr 0, m)
      else if df_state f \<noteq> DMXDEV_STATE_GO then (Inr 0, m)
      else
       (let f = f\<lparr>df_timer := None, df_buffer := callback_write buffer1 (df_buffer f)\<rparr>;
            f = (if sct_flags (df_sec f) AND DMX_ONESHOT \<noteq> 0 then f\<lparr>df_state := DMXDEV_STATE_DONE\<rparr> else f)
        in (Inr 0, upd_dev k (\<lambda>_. f) m)))"

definition dvb_dmxdev_ts_callback :: "nat \<Rightarrow> u8 list \<Rightarrow> dmxdev \<Rightarrow> cret \<times> dmxdev" where
  "dvb_dmxdev_ts_callback k buffer1 m =
     (let f = dd_filters m ! k in
      case pes_output (df_pes f) of
        DMX_OUT_DECODER \<Rightarrow> (Inr 0, m)
      | DMX_OUT_TAP \<Rightarrow>
          if bf_error (df_buffer f) \<noteq> None then (Inr 0, m)
          else (Inr 0, upd_dev k (\<lambda>f. f\<lparr>df_buffer := callback_write buffer1 (df_buffer f)\<rparr>) m)
      | DMX_OUT_TS_TAP \<Rightarrow>
          if bf_error (dd_dvr_buffer m) \<noteq> None then (Inr 0, m)
          else (Inr 0, m\<lparr>dd_dvr_buffer := callback_write buffer1 (dd_dvr_buffer m)\<rparr>))"

text \<open>The device as the client of the demux.\<close>

definition lift_hw :: "('a \<Rightarrow> 'h \<Rightarrow> cret \<times> 'h) \<Rightarrow> 'a \<Rightarrow> dmxdev \<times> 'h \<Rightarrow> cret \<times> (dmxdev \<times> 'h)" where
  "lift_hw g x = (\<lambda>(m, h). case g x h of (r, h) \<Rightarrow> (r, (m, h)))"

definition dmxdev_env :: "'h dmxdev_hw \<Rightarrow> (dmxdev \<times> 'h) dmx_env" where
  "dmxdev_env hw =
     \<lparr>sec_cb = (\<lambda>cb dat flt (m, h).
        (case (cb = CB_SECTION, filter_priv flt) of
           (True, Some k) \<Rightarrow> (case dvb_dmxdev_section_callback k dat m of (r, m) \<Rightarrow> (r, (m, h)))
         | _ \<Rightarrow> (Inr 0, (m, h)))),
      ts_cb = (\<lambda>cb dat feed (m, h).
        (case (cb = CB_TS, feed_priv feed) of
           (True, Some k) \<Rightarrow> (case dvb_dmxdev_ts_callback k dat m of (r, m) \<Rightarrow> (r, (m, h)))
         | _ \<Rightarrow> (Inr 0, (m, h)))),
      crc32_be = hw_crc hw,
      write_to_decoder = map_option (\<lambda>w feed dat (m, h). (m, w feed dat h)) (hw_decoder hw),
      start_feed = map_option lift_hw (hw_start hw),
      stop_feed = map_option lift_hw (hw_stop hw)\<rparr>"

definition call_hw ::
  "(dvb_demux \<Rightarrow> dmxdev \<times> 'h \<Rightarrow> cret \<times> dvb_demux \<times> (dmxdev \<times> 'h)) \<Rightarrow> 'h sys \<Rightarrow> cret \<times> 'h sys" where
  "call_hw g s =
     (case g (s_dmx s) (s_dev s, s_hw s) of (r, d, (m, h)) \<Rightarrow> (r, \<lparr>s_dev = m, s_dmx = d, s_hw = h\<rparr>))"

definition call_dmx :: "(dvb_demux \<Rightarrow> cret \<times> dvb_demux) \<Rightarrow> 'h sys \<Rightarrow> cret \<times> 'h sys" where
  "call_dmx g s = (case g (s_dmx s) of (r, d) \<Rightarrow> (r, s\<lparr>s_dmx := d\<rparr>))"

definition returned :: "(cret \<times> dvb_demux) outcome \<Rightarrow> (cret \<times> dvb_demux) option" where
  "returned r = (case r of Returns x \<Rightarrow> Some x | _ \<Rightarrow> None)"


section \<open>Buffers and timers\<close>

definition dvb_dmxdev_set_buffer_size ::
  "(nat \<Rightarrow> u8 list option) \<Rightarrow> nat \<Rightarrow> nat \<Rightarrow> 'h sys \<Rightarrow> cret \<times> 'h sys" where
  "dvb_dmxdev_set_buffer_size vmalloc k sz s =
     (let f = df k s in
      if bf_size (df_buffer f) = sz then (Inr 0, s)
      else if df_state f \<ge> DMXDEV_STATE_GO then (Inl EBUSY, s)
      else
       (let s = upd_df k (\<lambda>f. f\<lparr>df_buffer := (df_buffer f)\<lparr>bf_data := None, bf_size := sz,
                  bf_pread := 0, bf_pwrite := 0\<rparr>\<rparr>) s
        in if sz = 0 then (Inr 0, s)
           else case vmalloc sz of
             None \<Rightarrow> (Inl ENOMEM, s)
           | Some mem \<Rightarrow>
               (Inr 0, upd_df k (\<lambda>f. f\<lparr>df_buffer := (df_buffer f)\<lparr>bf_data := Some mem\<rparr>\<rparr>) s)))"

definition dvb_dmxdev_filter_timeout :: "nat \<Rightarrow> 'h sys \<Rightarrow> 'h sys" where
  "dvb_dmxdev_filter_timeout k s =
     upd_df k (\<lambda>f. f\<lparr>df_buffer := (df_buffer f)\<lparr>bf_error := Some ETIMEDOUT\<rparr>,
       df_state := DMXDEV_STATE_TIMEDOUT\<rparr>) s"

definition dvb_dmxdev_filter_timer :: "'h dmxdev_hw \<Rightarrow> nat \<Rightarrow> 'h sys \<Rightarrow> 'h sys" where
  "dvb_dmxdev_filter_timer hw k s =
     upd_df k (\<lambda>f. f\<lparr>df_timer :=
       (if sct_timeout (df_sec f) \<noteq> 0
        then Some (1 + (hw_hz hw div 2 + hw_hz hw * sct_timeout (df_sec f)) div 1000) else None)\<rparr>) s"

definition get_fe :: "dmx_frontend_source \<Rightarrow> dvb_demux \<Rightarrow> dmx_frontend option" where
  "get_fe src d =
     (case dvbdmx_get_frontends d of
        None \<Rightarrow> None
      | Some fes \<Rightarrow> map_option ((!) fes) (first_index (\<lambda>fe. fe_source fe = src) fes))"


section \<open>Feeds\<close>

definition set_state :: "nat \<Rightarrow> dmxdev_state \<Rightarrow> 'h sys \<Rightarrow> 'h sys" where
  "set_state k st s = upd_df k (\<lambda>f. f\<lparr>df_state := st\<rparr>) s"

definition dvb_dmxdev_feed_stop ::
  "'h dmxdev_hw \<Rightarrow> bool \<Rightarrow> nat \<Rightarrow> 'h sys \<Rightarrow> (cret \<times> 'h sys) option" where
  "dvb_dmxdev_feed_stop hw intr k s =
     (let s = set_state k DMXDEV_STATE_SET s in
      case df_type (df k s) of
        DMXDEV_TYPE_SEC \<Rightarrow> do {
          let s = upd_df k (\<lambda>f. f\<lparr>df_timer := None\<rparr>) s;
          i \<leftarrow> df_feed (df k s);
          Some (Inr 0, snd (call_hw (dmx_section_feed_stop_filtering (dmxdev_env hw) intr i) s))
        }
      | DMXDEV_TYPE_PES \<Rightarrow> do {
          i \<leftarrow> df_feed (df k s);
          Some (Inr 0, snd (call_hw (dmx_ts_feed_stop_filtering (dmxdev_env hw) intr i) s))
        }
      | DMXDEV_TYPE_NONE \<Rightarrow> Some (Inl EINVAL, s))"

definition dvb_dmxdev_feed_start ::
  "'h dmxdev_hw \<Rightarrow> bool \<Rightarrow> nat \<Rightarrow> 'h sys \<Rightarrow> (cret \<times> 'h sys) option" where
  "dvb_dmxdev_feed_start hw intr k s =
     (let s = set_state k DMXDEV_STATE_GO s in
      case df_type (df k s) of
        DMXDEV_TYPE_SEC \<Rightarrow> do {
          i \<leftarrow> df_feed (df k s);
          Some (call_hw (dmx_section_feed_start_filtering (dmxdev_env hw) intr i) s)
        }
      | DMXDEV_TYPE_PES \<Rightarrow> do {
          i \<leftarrow> df_feed (df k s);
          Some (call_hw (dmx_ts_feed_start_filtering (dmxdev_env hw) intr i) s)
        }
      | DMXDEV_TYPE_NONE \<Rightarrow> Some (Inl EINVAL, s))"

text \<open>A running section filter on the given PID, as two routines look for it.\<close>

definition running_on :: "nat \<Rightarrow> dmxdev_filter \<Rightarrow> bool" where
  "running_on pid f \<longleftrightarrow>
     df_state f \<ge> DMXDEV_STATE_GO \<and> df_type f = DMXDEV_TYPE_SEC \<and> df_pid f = pid"

definition dvb_dmxdev_feed_restart ::
  "'h dmxdev_hw \<Rightarrow> bool \<Rightarrow> nat \<Rightarrow> 'h sys \<Rightarrow> (cret \<times> 'h sys) option" where
  "dvb_dmxdev_feed_restart hw intr k s =
     (case first_index (running_on (sct_pid (df_sec (df k s)))) (dd_filters (s_dev s)) of
        Some i \<Rightarrow> do {
          (_, s) \<leftarrow> dvb_dmxdev_feed_start hw intr i s;
          Some (Inr 0, s)
        }
      | None \<Rightarrow> do {
          i \<leftarrow> df_feed (df k s);
          Some (Inr 0, snd (call_dmx (dvbdmx_release_section_feed intr i) s))
        })"

definition dvb_dmxdev_filter_stop ::
  "'h dmxdev_hw \<Rightarrow> bool \<Rightarrow> nat \<Rightarrow> 'h sys \<Rightarrow> (cret \<times> 'h sys) option" where
  "dvb_dmxdev_filter_stop hw intr k s =
     (let f = df k s;
          rewind = upd_df k (\<lambda>f. f\<lparr>df_buffer := (df_buffer f)\<lparr>bf_pread := 0, bf_pwrite := 0\<rparr>\<rparr>) in
      if df_state f < DMXDEV_STATE_GO then Some (Inr 0, s)
      else case df_type f of
        DMXDEV_TYPE_SEC \<Rightarrow>
          (case df_feed f of
             None \<Rightarrow> Some (Inr 0, rewind s)
           | Some i \<Rightarrow> do {
               (_, s) \<leftarrow> dvb_dmxdev_feed_stop hw intr k s;
               s \<leftarrow>
                 (case df_filter f of
                    None \<Rightarrow> Some s
                  | Some j \<Rightarrow> do {
                      (_, d) \<leftarrow> returned (dmx_section_feed_release_filter intr intr i j (s_dmx s));
                      Some (s\<lparr>s_dmx := d\<rparr>)
                    });
               (_, s) \<leftarrow> dvb_dmxdev_feed_restart hw intr k s;
               Some (Inr 0, rewind (upd_df k (\<lambda>f. f\<lparr>df_feed := None\<rparr>) s))
             })
      | DMXDEV_TYPE_PES \<Rightarrow>
          (case df_feed f of
             None \<Rightarrow> Some (Inr 0, rewind s)
           | Some i \<Rightarrow> do {
               (_, s) \<leftarrow> dvb_dmxdev_feed_stop hw intr k s;
               (_, d) \<leftarrow> dvbdmx_release_ts_feed intr i (s_dmx s);
               Some (Inr 0, rewind (upd_df k (\<lambda>f. f\<lparr>df_feed := None\<rparr>) (s\<lparr>s_dmx := d\<rparr>)))
             })
      | DMXDEV_TYPE_NONE \<Rightarrow>
          Some (if df_state f = DMXDEV_STATE_ALLOCATED then Inr 0 else Inl EINVAL, s))"

definition dvb_dmxdev_filter_reset :: "nat \<Rightarrow> 'h sys \<Rightarrow> cret \<times> 'h sys" where
  "dvb_dmxdev_filter_reset k s =
     (if df_state (df k s) < DMXDEV_STATE_SET then (Inr 0, s)
      else (Inr 0, set_state k DMXDEV_STATE_ALLOCATED
             (upd_df k (\<lambda>f. f\<lparr>df_type := DMXDEV_TYPE_NONE, df_pid := 0xffff\<rparr>) s)))"


section \<open>Starting a filter\<close>

text \<open>The bytes of a section filter: the user's byte 0 stays, the others skip the length field.\<close>

definition fill_filter :: "nat \<Rightarrow> dmx_filter_t \<Rightarrow> dvb_demux_filter \<Rightarrow> dvb_demux_filter" where
  "fill_filter k fl f =
     f\<lparr>filter_priv := Some k,
       filter_value := (blit (filter_value f) 3 (take (DMX_FILTER_SIZE - 1) (drop 1 (fl_filter fl))))
         [0 := fl_filter fl ! 0],
       filter_mask := (blit (filter_mask f) 3 (take (DMX_FILTER_SIZE - 1) (drop 1 (fl_mask fl))))
         [0 := fl_mask fl ! 0, 1 := 0, 2 := 0],
       filter_mode := (blit (filter_mode f) 3 (take (DMX_FILTER_SIZE - 1) (drop 1 (fl_mode fl))))
         [0 := fl_mode fl ! 0]\<rparr>"

text \<open>
  The section branch of \<open>dvb_dmxdev_filter_start\<close>: join the feed of a running filter on the same PID,
  which is stopped meanwhile, or allocate a feed.
\<close>

definition start_join ::
  "'h dmxdev_hw \<Rightarrow> bool \<Rightarrow> nat \<Rightarrow> 'h sys \<Rightarrow> (cret \<times> 'h sys) option" where
  "start_join hw intr k s =
     (let para = df_sec (df k s);
          s = upd_df k (\<lambda>f. f\<lparr>df_filter := None, df_feed := None\<rparr>) s;
          s = (case first_index (running_on (sct_pid para)) (dd_filters (s_dev s)) of
                 Some i \<Rightarrow> upd_df k (\<lambda>f. f\<lparr>df_feed := df_feed (df i s)\<rparr>) s
               | None \<Rightarrow> s) in
      if df_feed (df k s) = None then
        (case call_dmx (dvbdmx_allocate_section_feed intr CB_SECTION) s of
           (Inl e, s) \<Rightarrow> Some (Inl e, s)
         | (Inr i, s) \<Rightarrow>
            (let s = upd_df k (\<lambda>f. f\<lparr>df_feed := Some i\<rparr>) s in
             case call_dmx (dmx_section_feed_set intr i (sct_pid para) 32768 False
                    (sct_flags para AND DMX_CHECK_CRC \<noteq> 0)) s of
               (Inl e, s) \<Rightarrow> do { (_, s) \<leftarrow> dvb_dmxdev_feed_restart hw intr k s; Some (Inl e, s) }
             | (Inr _, s) \<Rightarrow> Some (Inr 0, s)))
      else do { (_, s) \<leftarrow> dvb_dmxdev_feed_stop hw intr k s; Some (Inr 0, s) })"

definition start_section ::
  "'h dmxdev_hw \<Rightarrow> bool \<Rightarrow> nat \<Rightarrow> 'h sys \<Rightarrow> (cret \<times> 'h sys) option" where
  "start_section hw intr k s = do {
     (r, s) \<leftarrow> start_join hw intr k s;
     case r of
       Inl e \<Rightarrow> Some (Inl e, s)
     | Inr _ \<Rightarrow> do {
         i \<leftarrow> df_feed (df k s);
         case call_dmx (dmx_section_feed_allocate_filter intr i) s of
           (Inl e, s) \<Rightarrow> do {
             (_, s) \<leftarrow> dvb_dmxdev_feed_restart hw intr k s;
             Some (Inl e, snd (call_hw (dmx_section_feed_start_filtering (dmxdev_env hw) intr i) s))
           }
         | (Inr j, s) \<Rightarrow>
            (let s = upd_df k (\<lambda>f. f\<lparr>df_filter := Some j\<rparr>) s;
                 s = s\<lparr>s_dmx := upd_filter j (fill_filter k (sct_filter (df_sec (df k s)))) (s_dmx s)\<rparr>;
                 s = upd_df k (\<lambda>f. f\<lparr>df_todo := 0\<rparr>) s in
             case call_hw (dmx_section_feed_start_filtering (dmxdev_env hw) intr i) s of
               (Inl e, s) \<Rightarrow> Some (Inl e, s)
             | (Inr _, s) \<Rightarrow>
                 Some (Inr 0, set_state k DMXDEV_STATE_GO (dvb_dmxdev_filter_timer hw k s)))
       }
   }"

definition start_pes ::
  "'h dmxdev_hw \<Rightarrow> bool \<Rightarrow> nat \<Rightarrow> 'h sys \<Rightarrow> (cret \<times> 'h sys) option" where
  "start_pes hw intr k s =
     (let para = df_pes (df k s);
          s = upd_df k (\<lambda>f. f\<lparr>df_feed := None\<rparr>) s;
          tt = (if pes_pes_type para < DMX_PES_OTHER then TS_DECODER else 0);
          tt = (if pes_output para = DMX_OUT_TS_TAP then tt OR TS_PACKET else tt);
          tt = (if pes_output para = DMX_OUT_TAP then tt OR (TS_PAYLOAD_ONLY OR TS_PACKET) else tt) in
      case call_dmx (dvbdmx_allocate_ts_feed intr CB_TS) s of
        (Inl e, s) \<Rightarrow> Some (Inl e, s)
      | (Inr i, s) \<Rightarrow>
         (let s = upd_df k (\<lambda>f. f\<lparr>df_feed := Some i\<rparr>) s;
              s = s\<lparr>s_dmx := upd_feed i (\<lambda>f. f\<lparr>feed_priv := Some k\<rparr>) (s_dmx s)\<rparr> in
          case call_dmx (dmx_ts_feed_set intr i (pes_pid para) tt (nat (pes_pes_type para)) 188 32768
                 False 0) s of
            (Inl e, s) \<Rightarrow> do {
              (_, d) \<leftarrow> dvbdmx_release_ts_feed intr i (s_dmx s);
              Some (Inl e, s\<lparr>s_dmx := d\<rparr>)
            }
          | (Inr _, s) \<Rightarrow>
             (case call_hw (dmx_ts_feed_start_filtering (dmxdev_env hw) intr i) s of
                (Inl e, s) \<Rightarrow> Some (Inl e, s)
              | (Inr _, s) \<Rightarrow> Some (Inr 0, set_state k DMXDEV_STATE_GO s))))"

definition dvb_dmxdev_filter_start ::
  "'h dmxdev_hw \<Rightarrow> (nat \<Rightarrow> u8 list option) \<Rightarrow> bool \<Rightarrow> nat \<Rightarrow> 'h sys \<Rightarrow> (cret \<times> 'h sys) option" where
  "dvb_dmxdev_filter_start hw vmalloc intr k s =
     (if df_state (df k s) < DMXDEV_STATE_SET then Some (Inl EINVAL, s)
      else do {
        s \<leftarrow>
          (if df_state (df k s) \<ge> DMXDEV_STATE_GO then map_option snd (dvb_dmxdev_filter_stop hw intr k s)
           else Some s);
        let s =
          (if bf_data (df_buffer (df k s)) = None
           then upd_df k (\<lambda>f. f\<lparr>df_buffer := (df_buffer f)\<lparr>bf_data := vmalloc (bf_size (df_buffer f))\<rparr>\<rparr>) s
           else s);
        if bf_data (df_buffer (df k s)) = None then Some (Inl ENOMEM, s)
        else do {
          let s = upd_df k (\<lambda>f. f\<lparr>df_buffer := (df_buffer f)\<lparr>bf_pread := 0, bf_pwrite := 0\<rparr>\<rparr>) s;
          case df_type (df k s) of
            DMXDEV_TYPE_SEC \<Rightarrow> start_section hw intr k s
          | DMXDEV_TYPE_PES \<Rightarrow> start_pes hw intr k s
          | DMXDEV_TYPE_NONE \<Rightarrow> Some (Inl EINVAL, s)
        }
      })"


section \<open>The demux device\<close>

text \<open>\<open>intr1\<close> and \<open>intr2\<close> interrupt the mutexes of the device and of the filter.\<close>

definition dvb_demux_open :: "bool \<Rightarrow> 'h sys \<Rightarrow> cret \<times> 'h sys" where
  "dvb_demux_open intr1 s =
     (if \<not> dd_present (s_dev s) then (Inl EINVAL, s)
      else if intr1 then (Inl ERESTARTSYS, s)
      else case first_index (\<lambda>f. df_state f = DMXDEV_STATE_FREE) (dd_filters (s_dev s)) of
        None \<Rightarrow> (Inl EMFILE, s)
      | Some k \<Rightarrow>
          (Inr k, upd_df k (\<lambda>f. f\<lparr>df_buffer := dvb_dmxdev_buffer_init, df_type := DMXDEV_TYPE_NONE,
             df_state := DMXDEV_STATE_ALLOCATED, df_feed := None, df_timer := None\<rparr>) s))"

definition dvb_dmxdev_filter_free ::
  "'h dmxdev_hw \<Rightarrow> bool \<Rightarrow> bool \<Rightarrow> bool \<Rightarrow> nat \<Rightarrow> 'h sys \<Rightarrow> (cret \<times> 'h sys) option" where
  "dvb_dmxdev_filter_free hw intr1 intr2 intr k s =
     (if intr1 \<or> intr2 then Some (Inl ERESTARTSYS, s)
      else do {
        (_, s) \<leftarrow> dvb_dmxdev_filter_stop hw intr k s;
        let (_, s) = dvb_dmxdev_filter_reset k s;
        let s = upd_df k (\<lambda>f. f\<lparr>df_buffer := (df_buffer f)\<lparr>bf_data := None\<rparr>\<rparr>) s;
        Some (Inr 0, set_state k DMXDEV_STATE_FREE s)
      })"

definition invert_mode :: "dmx_filter_t \<Rightarrow> dmx_filter_t" where
  "invert_mode fl = fl\<lparr>fl_mode := map (\<lambda>b. b XOR 0xff) (fl_mode fl)\<rparr>"

definition dvb_dmxdev_filter_set ::
  "'h dmxdev_hw \<Rightarrow> (nat \<Rightarrow> u8 list option) \<Rightarrow> bool \<Rightarrow> nat \<Rightarrow> dmx_sct_filter_params \<Rightarrow> 'h sys \<Rightarrow>
     (cret \<times> 'h sys) option" where
  "dvb_dmxdev_filter_set hw vmalloc intr k params s = do {
     (_, s) \<leftarrow> dvb_dmxdev_filter_stop hw intr k s;
     let s = upd_df k (\<lambda>f. f\<lparr>df_type := DMXDEV_TYPE_SEC, df_pid := sct_pid params,
               df_sec := params\<lparr>sct_filter := invert_mode (sct_filter params)\<rparr>,
               df_state := DMXDEV_STATE_SET\<rparr>) s;
     if sct_flags params AND DMX_IMMEDIATE_START \<noteq> 0 then dvb_dmxdev_filter_start hw vmalloc intr k s
     else Some (Inr 0, s)
   }"

definition dvb_dmxdev_pes_filter_set ::
  "'h dmxdev_hw \<Rightarrow> (nat \<Rightarrow> u8 list option) \<Rightarrow> bool \<Rightarrow> nat \<Rightarrow> dmx_pes_filter_params \<Rightarrow> 'h sys \<Rightarrow>
     (cret \<times> 'h sys) option" where
  "dvb_dmxdev_pes_filter_set hw vmalloc intr k params s = do {
     (_, s) \<leftarrow> dvb_dmxdev_filter_stop hw intr k s;
     if pes_pes_type params > DMX_PES_OTHER \<or> pes_pes_type params < 0 then Some (Inl EINVAL, s)
     else do {
       let s = upd_df k (\<lambda>f. f\<lparr>df_type := DMXDEV_TYPE_PES, df_pid := pes_pid params, df_pes := params,
                 df_state := DMXDEV_STATE_SET\<rparr>) s;
       if pes_flags params AND DMX_IMMEDIATE_START \<noteq> 0 then dvb_dmxdev_filter_start hw vmalloc intr k s
       else Some (Inr 0, s)
     }
   }"


text \<open>
  \<open>dvb_dmxdev_read_sec\<close> keeps section boundaries: while \<open>df_todo\<close> is not positive, \<open>3 + df_todo\<close> header
  bytes are still to be read; then it is the number of bytes left of the section. The header is
  read back from the user's memory; \<open>from_ok\<close> says whether that succeeds.
\<close>

definition read_body ::
  "(nat \<Rightarrow> bool) \<Rightarrow> bool \<Rightarrow> nat \<Rightarrow> wakeup list \<Rightarrow> u8 list \<Rightarrow> dmxdev_filter \<Rightarrow>
     (cret \<times> u8 list \<times> dmxdev_filter \<times> wakeup list) outcome" where
  "read_body user_ok non_blocking count ws out1 f =
     (case dvb_dmxdev_buffer_read user_ok non_blocking (min count (nat (df_todo f))) ws (df_buffer f) of
        Deadlock \<Rightarrow> Deadlock
      | Fault \<Rightarrow> Fault
      | Returns (Inl e, out, b, ws) \<Rightarrow> Returns (Inl e, out1 @ out, f\<lparr>df_buffer := b\<rparr>, ws)
      | Returns (Inr n, out, b, ws) \<Rightarrow>
          Returns (Inr (n + length out1), out1 @ out, f\<lparr>df_buffer := b, df_todo := df_todo f - int n\<rparr>, ws))"

definition dvb_dmxdev_read_sec ::
  "(nat \<Rightarrow> bool) \<Rightarrow> (nat \<Rightarrow> bool) \<Rightarrow> bool \<Rightarrow> nat \<Rightarrow> wakeup list \<Rightarrow> dmxdev_filter \<Rightarrow>
     (cret \<times> u8 list \<times> dmxdev_filter \<times> wakeup list) outcome" where
  "dvb_dmxdev_read_sec user_ok from_ok non_blocking count ws f =
     (if df_todo f \<le> 0 then
        (case dvb_dmxdev_buffer_read user_ok non_blocking (min (nat (3 + df_todo f)) count) ws (df_buffer f) of
           Deadlock \<Rightarrow> Deadlock
         | Fault \<Rightarrow> Fault
         | Returns (Inl e, out, b, ws) \<Rightarrow> Returns (Inl e, out, f\<lparr>df_buffer := b, df_todo := 0\<rparr>, ws)
         | Returns (Inr n, out, b, ws) \<Rightarrow>
             if \<not> from_ok n then Returns (Inl EFAULT, out, f\<lparr>df_buffer := b\<rparr>, ws)
             else
              (let hdr = blit (df_secheader f) (nat (- df_todo f)) out;
                   todo = df_todo f - int n in
               if todo > - 3 then
                 Returns (Inr n, out, f\<lparr>df_buffer := b, df_secheader := hdr, df_todo := todo\<rparr>, ws)
               else
                (let todo = int (unat (hdr ! 1 AND 0x0f) * 256 + unat (hdr ! 2));
                     f = f\<lparr>df_buffer := b, df_secheader := hdr, df_todo := todo\<rparr> in
                 if count - n = 0 then Returns (Inr n, out, f, ws)
                 else read_body user_ok non_blocking (count - n) ws out f)))
      else read_body user_ok non_blocking count ws [] f)"

definition dvb_demux_read ::
  "(nat \<Rightarrow> bool) \<Rightarrow> (nat \<Rightarrow> bool) \<Rightarrow> bool \<Rightarrow> bool \<Rightarrow> nat \<Rightarrow> wakeup list \<Rightarrow> nat \<Rightarrow> 'h sys \<Rightarrow>
     (cret \<times> u8 list \<times> 'h sys \<times> wakeup list) outcome" where
  "dvb_demux_read user_ok from_ok intr2 non_blocking count ws k s =
     (if intr2 then Returns (Inl ERESTARTSYS, [], s, ws)
      else if df_type (df k s) = DMXDEV_TYPE_SEC then
        (case dvb_dmxdev_read_sec user_ok from_ok non_blocking count ws (df k s) of
           Deadlock \<Rightarrow> Deadlock
         | Fault \<Rightarrow> Fault
         | Returns (r, out, f, ws) \<Rightarrow> Returns (r, out, upd_df k (\<lambda>_. f) s, ws))
      else
        (case dvb_dmxdev_buffer_read user_ok non_blocking count ws (df_buffer (df k s)) of
           Deadlock \<Rightarrow> Deadlock
         | Fault \<Rightarrow> Fault
         | Returns (r, out, b, ws) \<Rightarrow> Returns (r, out, upd_df k (\<lambda>f. f\<lparr>df_buffer := b\<rparr>) s, ws)))"

datatype dmx_ioctl =
    DMX_START
  | DMX_STOP
  | DMX_SET_FILTER dmx_sct_filter_params
  | DMX_SET_PES_FILTER dmx_pes_filter_params
  | DMX_SET_BUFFER_SIZE nat
  | DMX_GET_EVENT
  | DMX_GET_PES_PIDS
  | DMX_GET_STC nat
  | DMX_OTHER_CMD nat

text \<open>
  The value a command returns through its argument is not part of the state; \<open>get_stc\<close> is a hook of
  the hardware driver that only returns values.
\<close>

definition dvb_demux_do_ioctl ::
  "'h dmxdev_hw \<Rightarrow> (nat \<Rightarrow> u8 list option) \<Rightarrow> (nat \<Rightarrow> 'h \<Rightarrow> cret) option \<Rightarrow> bool \<Rightarrow> bool \<Rightarrow> bool \<Rightarrow> nat \<Rightarrow>
     dmx_ioctl \<Rightarrow> 'h sys \<Rightarrow> (cret \<times> 'h sys) option" where
  "dvb_demux_do_ioctl hw vmalloc get_stc intr1 intr2 intr k cmd s =
     (if intr1 then Some (Inl ERESTARTSYS, s)
      else case cmd of
        DMX_START \<Rightarrow>
          if intr2 then Some (Inl ERESTARTSYS, s)
          else if df_state (df k s) < DMXDEV_STATE_SET then Some (Inl EINVAL, s)
          else dvb_dmxdev_filter_start hw vmalloc intr k s
      | DMX_STOP \<Rightarrow>
          if intr2 then Some (Inl ERESTARTSYS, s) else dvb_dmxdev_filter_stop hw intr k s
      | DMX_SET_FILTER params \<Rightarrow>
          if intr2 then Some (Inl ERESTARTSYS, s)
          else dvb_dmxdev_filter_set hw vmalloc intr k params s
      | DMX_SET_PES_FILTER params \<Rightarrow>
          if intr2 then Some (Inl ERESTARTSYS, s)
          else dvb_dmxdev_pes_filter_set hw vmalloc intr k params s
      | DMX_SET_BUFFER_SIZE n \<Rightarrow>
          if intr2 then Some (Inl ERESTARTSYS, s)
          else Some (dvb_dmxdev_set_buffer_size vmalloc k n s)
      | DMX_GET_EVENT \<Rightarrow> Some (Inr 0, s)
      | DMX_GET_PES_PIDS \<Rightarrow> Some (fst (dvbdmx_get_pes_pids (s_dmx s)), s)
      | DMX_GET_STC num \<Rightarrow>
          (case get_stc of None \<Rightarrow> Some (Inl EINVAL, s) | Some g \<Rightarrow> Some (g num (s_hw s), s))
      | DMX_OTHER_CMD _ \<Rightarrow> Some (Inl EINVAL, s))"

datatype poll_flag = POLLIN | POLLRDNORM | POLLPRI | POLLERR | POLLOUT | POLLWRNORM

definition buffer_poll :: "dmxdev_buffer \<Rightarrow> poll_flag list" where
  "buffer_poll b =
     (if bf_error b \<noteq> None then [POLLIN, POLLRDNORM, POLLPRI, POLLERR]
      else if bf_pread b \<noteq> bf_pwrite b then [POLLIN, POLLRDNORM, POLLPRI] else [])"

definition dvb_demux_poll :: "nat \<Rightarrow> 'h sys \<Rightarrow> poll_flag list" where
  "dvb_demux_poll k s =
     (if df_state (df k s) \<noteq> DMXDEV_STATE_GO \<and> df_state (df k s) \<noteq> DMXDEV_STATE_DONE
         \<and> df_state (df k s) \<noteq> DMXDEV_STATE_TIMEDOUT
      then [] else buffer_poll (df_buffer (df k s)))"

definition dvb_demux_release ::
  "'h dmxdev_hw \<Rightarrow> bool \<Rightarrow> bool \<Rightarrow> bool \<Rightarrow> nat \<Rightarrow> 'h sys \<Rightarrow> (cret \<times> 'h sys) option" where
  "dvb_demux_release hw intr1 intr2 intr k s = dvb_dmxdev_filter_free hw intr1 intr2 intr k s"


section \<open>The dvr device\<close>

datatype access_mode = O_RDONLY | O_WRONLY | O_RDWR

text \<open>
  The demux below always has a \<open>write\<close> method. The results of disconnecting and connecting the
  frontend are ignored.
\<close>

definition switch_frontend :: "bool \<Rightarrow> dmx_frontend option \<Rightarrow> 'h sys \<Rightarrow> 'h sys" where
  "switch_frontend intr fe s =
     (let d = snd (dvbdmx_disconnect_frontend intr (s_dmx s));
          d = (case fe of
                 Some fe \<Rightarrow> snd (dvbdmx_connect_frontend intr fe d)
               | None \<Rightarrow> if dmx_frontend d \<noteq> None \<or> intr then d else d\<lparr>dmx_frontend := None\<rparr>)
      in s\<lparr>s_dmx := d\<rparr>)"

definition dvb_dvr_open ::
  "(nat \<Rightarrow> u8 list option) \<Rightarrow> bool \<Rightarrow> bool \<Rightarrow> access_mode \<Rightarrow> 'h sys \<Rightarrow> cret \<times> 'h sys" where
  "dvb_dvr_open vmalloc intr1 intr mode s =
     (if intr1 then (Inl ERESTARTSYS, s)
      else case mode of
        O_RDWR \<Rightarrow> (if \<not> dd_duplex (s_dev s) then (Inl EOPNOTSUPP, s) else (Inr 0, s))
      | O_RDONLY \<Rightarrow>
         (let b = dvb_dmxdev_buffer_init\<lparr>bf_size := DVR_BUFFER_SIZE, bf_data := vmalloc DVR_BUFFER_SIZE\<rparr>;
              s = s\<lparr>s_dev := (s_dev s)\<lparr>dd_dvr_buffer := b\<rparr>\<rparr>
          in if bf_data b = None then (Inl ENOMEM, s) else (Inr 0, s))
      | O_WRONLY \<Rightarrow>
         (let s = s\<lparr>s_dev := (s_dev s)\<lparr>dd_dvr_orig_fe := dmx_frontend (s_dmx s)\<rparr>\<rparr> in
          case get_fe DMX_MEMORY_FE (s_dmx s) of
            None \<Rightarrow> (Inl EINVAL, s)
          | Some fe \<Rightarrow> (Inr 0, switch_frontend intr (Some fe) s)))"

definition dvb_dvr_release :: "bool \<Rightarrow> bool \<Rightarrow> access_mode \<Rightarrow> 'h sys \<Rightarrow> cret \<times> 'h sys" where
  "dvb_dvr_release intr1 intr mode s =
     (if intr1 then (Inl ERESTARTSYS, s)
      else case mode of
        O_WRONLY \<Rightarrow> (Inr 0, switch_frontend intr (dd_dvr_orig_fe (s_dev s)) s)
      | O_RDONLY \<Rightarrow>
          (Inr 0, s\<lparr>s_dev := (s_dev s)\<lparr>dd_dvr_buffer := (dd_dvr_buffer (s_dev s))\<lparr>bf_data := None\<rparr>\<rparr>\<rparr>)
      | O_RDWR \<Rightarrow> (Inr 0, s))"

definition dvb_dvr_write ::
  "'h dmxdev_hw \<Rightarrow> bool \<Rightarrow> bool \<Rightarrow> bool \<Rightarrow> access_mode \<Rightarrow> u8 list \<Rightarrow> 'h sys \<Rightarrow> (cret \<times> 'h sys) option" where
  "dvb_dvr_write hw intr1 intr signal mode buf s =
     (if mode \<noteq> O_WRONLY then Some (Inl EINVAL, s)
      else if intr1 then Some (Inl ERESTARTSYS, s)
      else do {
        (r, d, (m, h)) \<leftarrow> dvbdmx_write (dmxdev_env hw) intr signal buf (s_dmx s) (s_dev s, s_hw s);
        Some (r, \<lparr>s_dev = m, s_dmx = d, s_hw = h\<rparr>)
      })"

definition dvb_dvr_read ::
  "(nat \<Rightarrow> bool) \<Rightarrow> bool \<Rightarrow> nat \<Rightarrow> wakeup list \<Rightarrow> 'h sys \<Rightarrow> (cret \<times> u8 list \<times> 'h sys \<times> wakeup list) outcome"
where
  "dvb_dvr_read user_ok non_blocking count ws s =
     (case dvb_dmxdev_buffer_read user_ok non_blocking count ws (dd_dvr_buffer (s_dev s)) of
        Deadlock \<Rightarrow> Deadlock
      | Fault \<Rightarrow> Fault
      | Returns (r, out, b, ws) \<Rightarrow>
          Returns (r, out, s\<lparr>s_dev := (s_dev s)\<lparr>dd_dvr_buffer := b\<rparr>\<rparr>, ws))"

definition dvb_dvr_do_ioctl :: "bool \<Rightarrow> dmx_ioctl \<Rightarrow> cret" where
  "dvb_dvr_do_ioctl intr1 cmd =
     (if intr1 then Inl ERESTARTSYS
      else case cmd of DMX_SET_BUFFER_SIZE _ \<Rightarrow> Inr 0 | _ \<Rightarrow> Inl EINVAL)"

definition dvb_dvr_poll :: "access_mode \<Rightarrow> 'h sys \<Rightarrow> poll_flag list" where
  "dvb_dvr_poll mode s =
     (if mode = O_RDONLY then buffer_poll (dd_dvr_buffer (s_dev s)) else [POLLOUT, POLLWRNORM, POLLPRI])"


section \<open>Setting the device up\<close>

definition dvb_dmxdev_init ::
  "dmxdev_filter list option \<Rightarrow> dmxdev_state list option \<Rightarrow> 'h sys \<Rightarrow> cret \<times> 'h sys" where
  "dvb_dmxdev_init filtermem dvrmem s =
     (case dvbdmx_open (s_dmx s) of
        (Inl _, d) \<Rightarrow> (Inl EUSERS, s\<lparr>s_dmx := d\<rparr>)
      | (Inr _, d) \<Rightarrow>
         (let s = s\<lparr>s_dmx := d\<rparr> in
          case filtermem of
            None \<Rightarrow> (Inl ENOMEM, s\<lparr>s_dev := (s_dev s)\<lparr>dd_present := False\<rparr>\<rparr>)
          | Some fs \<Rightarrow>
             (case dvrmem of
                None \<Rightarrow> (Inl ENOMEM, s\<lparr>s_dev := (s_dev s)\<lparr>dd_present := False\<rparr>\<rparr>)
              | Some dvr \<Rightarrow>
                  (Inr 0, s\<lparr>s_dev := (s_dev s)\<lparr>dd_present := True,
                     dd_filters := map (\<lambda>f. f\<lparr>df_buffer := (df_buffer f)\<lparr>bf_data := None\<rparr>,
                       df_state := DMXDEV_STATE_FREE\<rparr>) fs,
                     dd_dvr := map (\<lambda>_. DMXDEV_STATE_FREE) dvr,
                     dd_dvr_buffer := dvb_dmxdev_buffer_init\<rparr>\<rparr>))))"

definition dvb_dmxdev_release :: "'h sys \<Rightarrow> 'h sys" where
  "dvb_dmxdev_release s =
     s\<lparr>s_dev := (s_dev s)\<lparr>dd_present := False, dd_filters := [], dd_dvr := []\<rparr>,
       s_dmx := snd (dvbdmx_close (s_dmx s))\<rparr>"

end
