(* ===== verification/Demux_Invariant.thy ===== *)
theory Demux_Invariant
  imports Demux_Api
begin

text \<open>
  The invariant of the demux interface (\<open>dmx_wf\<close>): the feed list and the filter chains are intact
  in every state that calls of the interface and packets can reach (\<open>dmx_step\<close>). Most operations keep
  the links between feeds and filters (\<open>dmx_links\<close>) and so the invariant; the rest have a lemma each.
\<close>

section \<open>The invariant\<close>

definition owned :: "dvb_demux \<Rightarrow> dmx_type \<Rightarrow> nat \<Rightarrow> nat \<Rightarrow> bool" where
  "owned d t i j \<longleftrightarrow> j < length (dmx_filters d) \<and> filter_feed (dmx_filters d ! j) = Some i
     \<and> filter_state (dmx_filters d ! j) \<noteq> DMX_STATE_FREE \<and> filter_type (dmx_filters d ! j) = t"

text \<open>
  A feed in use: a section feed has a chain of filters of its own, without repetition, and a
  transport stream feed has one filter.
\<close>

definition feed_wf :: "dvb_demux \<Rightarrow> nat \<Rightarrow> bool" where
  "feed_wf d i \<longleftrightarrow>
     (if feed_type (dmx_feeds d ! i) = DMX_TYPE_SEC
      then \<exists>ids. filter_chain (dmx_filters d) (feed_filter (dmx_feeds d ! i)) ids \<and> distinct ids
             \<and> (\<forall>j \<in> set ids. owned d DMX_TYPE_SEC i j)
      else \<exists>j. feed_filter (dmx_feeds d ! i) = Some j \<and> owned d DMX_TYPE_TS i j)"

definition in_use :: "dvb_demux \<Rightarrow> nat \<Rightarrow> bool" where
  "in_use d i \<longleftrightarrow> i < length (dmx_feeds d) \<and> feed_state (dmx_feeds d ! i) \<noteq> DMX_STATE_FREE"

definition dmx_wf :: "dvb_demux \<Rightarrow> bool" where
  "dmx_wf d \<longleftrightarrow> distinct (feed_list d) \<and> (\<forall>i \<in> set (feed_list d). in_use d i)
     \<and> (\<forall>i. in_use d i \<longrightarrow> feed_wf d i)"

text \<open>All of this is a matter of the links between feeds and filters.\<close>

definition filter_links :: "dvb_demux_filter \<Rightarrow> nat option \<times> nat option \<times> bool \<times> dmx_type" where
  "filter_links f = (filter_next f, filter_feed f, filter_state f = DMX_STATE_FREE, filter_type f)"

definition feed_links :: "dvb_demux_feed \<Rightarrow> bool \<times> dmx_type \<times> nat option" where
  "feed_links f = (feed_state f = DMX_STATE_FREE, feed_type f, feed_filter f)"

definition dmx_links ::
  "dvb_demux \<Rightarrow> (nat option \<times> nat option \<times> bool \<times> dmx_type) list \<times> (bool \<times> dmx_type \<times> nat option) list
     \<times> nat list" where
  "dmx_links d = (map filter_links (dmx_filters d), map feed_links (dmx_feeds d), feed_list d)"

lemma map_nth_cong: "map f xs = map f ys \<Longrightarrow> i < length xs \<Longrightarrow> f (xs ! i) = f (ys ! i)"
  by (metis length_map nth_map)

lemma filter_chain_cong:
  assumes "length fs' = length fs"
    and "\<And>j. j \<in> set ids \<Longrightarrow> j < length fs \<Longrightarrow> filter_next (fs' ! j) = filter_next (fs ! j)"
  shows "filter_chain fs' h ids = filter_chain fs h ids"
  using assms(2)
proof (induction ids arbitrary: h)
  case Nil
  then show ?case by (cases h) auto
next
  case (Cons j ids)
  then show ?case by (cases h) (auto simp: assms(1))
qed

lemma filter_links_cong:
  assumes "map filter_links fs' = map filter_links fs" "j < length fs"
  shows "filter_next (fs' ! j) = filter_next (fs ! j) \<and> filter_feed (fs' ! j) = filter_feed (fs ! j)
    \<and> (filter_state (fs' ! j) = DMX_STATE_FREE) = (filter_state (fs ! j) = DMX_STATE_FREE)
    \<and> filter_type (fs' ! j) = filter_type (fs ! j)"
proof -
  have "j < length fs'" using assms by (metis length_map)
  from map_nth_cong [OF assms(1) this] show ?thesis by (simp add: filter_links_def)
qed

lemma feed_links_cong:
  assumes "map feed_links fs' = map feed_links fs" "i < length fs"
  shows "feed_type (fs' ! i) = feed_type (fs ! i) \<and> feed_filter (fs' ! i) = feed_filter (fs ! i)
    \<and> (feed_state (fs' ! i) = DMX_STATE_FREE) = (feed_state (fs ! i) = DMX_STATE_FREE)"
proof -
  have "i < length fs'" using assms by (metis length_map)
  from map_nth_cong [OF assms(1) this] show ?thesis by (simp add: feed_links_def)
qed

lemma dmx_links_imp:
  assumes "dmx_links d' = dmx_links d"
  shows "in_use d' i = in_use d i" "in_use d i \<Longrightarrow> feed_wf d' i = feed_wf d i"
proof -
  have fl: "map filter_links (dmx_filters d') = map filter_links (dmx_filters d)"
    and el: "map feed_links (dmx_feeds d') = map feed_links (dmx_feeds d)"
    using assms by (simp_all add: dmx_links_def)
  have len: "length (dmx_feeds d') = length (dmx_feeds d)"
    "length (dmx_filters d') = length (dmx_filters d)"
    using map_eq_imp_length_eq [OF el] map_eq_imp_length_eq [OF fl] by auto
  show "in_use d' i = in_use d i"
    using feed_links_cong [OF el, of i] len by (auto simp: in_use_def)
  have own: "owned d' t i j = owned d t i j" for t j
    using filter_links_cong [OF fl, of j] len by (auto simp: owned_def)
  have ch: "filter_chain (dmx_filters d') h ids = filter_chain (dmx_filters d) h ids" for h ids
    by (rule filter_chain_cong) (use len filter_links_cong [OF fl] in auto)
  show "feed_wf d' i = feed_wf d i" if "in_use d i"
    using feed_links_cong [OF el, of i] that by (simp add: feed_wf_def own ch in_use_def)
qed

lemma dmx_wf_links: "dmx_links d' = dmx_links d \<Longrightarrow> dmx_wf d' = dmx_wf d"
  using dmx_links_imp [of d' d] by (simp add: dmx_wf_def) (metis dmx_links_def prod.inject)

lemma links_wf: "dmx_links d' = dmx_links d \<Longrightarrow> dmx_wf d \<Longrightarrow> dmx_wf d'"
  using dmx_wf_links [of d' d] by blast

lemma in_use_bound [simp]: "in_use d i \<Longrightarrow> i < length (dmx_feeds d)"
  by (simp add: in_use_def)

text \<open>Updates that keep the links.\<close>

lemma upd_feed_links [simp]:
  "feed_links (g (dmx_feeds d ! i)) = feed_links (dmx_feeds d ! i) \<Longrightarrow>
     dmx_links (upd_feed i g d) = dmx_links d"
  by (simp add: dmx_links_def upd_feed_def map_update_eq)

lemma upd_filter_links [simp]:
  "filter_links (g (dmx_filters d ! j)) = filter_links (dmx_filters d ! j) \<Longrightarrow>
     dmx_links (upd_filter j g d) = dmx_links d"
  by (simp add: dmx_links_def upd_filter_def map_update_eq)

lemma upd_feed_simps [simp]:
  "dmx_filters (upd_feed i g d) = dmx_filters d" "feed_list (upd_feed i g d) = feed_list d"
  "length (dmx_feeds (upd_feed i g d)) = length (dmx_feeds d)"
  "i < length (dmx_feeds d) \<Longrightarrow>
     dmx_feeds (upd_feed i g d) ! k = (if k = i then g (dmx_feeds d ! i) else dmx_feeds d ! k)"
  "pesfilter (upd_feed i g d) = pesfilter d" "tsbuf (upd_feed i g d) = tsbuf d"
  "tsbufp (upd_feed i g d) = tsbufp d"
  by (auto simp: upd_feed_def nth_list_update)

lemma upd_filter_simps [simp]:
  "dmx_feeds (upd_filter j g d) = dmx_feeds d" "feed_list (upd_filter j g d) = feed_list d"
  "length (dmx_filters (upd_filter j g d)) = length (dmx_filters d)"
  "j < length (dmx_filters d) \<Longrightarrow>
     dmx_filters (upd_filter j g d) ! k = (if k = j then g (dmx_filters d ! j) else dmx_filters d ! k)"
  "pesfilter (upd_filter j g d) = pesfilter d" "tsbuf (upd_filter j g d) = tsbuf d"
  "tsbufp (upd_filter j g d) = tsbufp d"
  by (auto simp: upd_filter_def nth_list_update)


section \<open>Every operation keeps the invariant\<close>

lemma dmx_wfD:
  assumes "dmx_wf d"
  shows "distinct (feed_list d)" "i \<in> set (feed_list d) \<Longrightarrow> in_use d i" "in_use d i \<Longrightarrow> feed_wf d i"
  using assms by (auto simp: dmx_wf_def)

lemma feed_add_wf [inv_intros]: "dmx_wf d \<Longrightarrow> in_use d i \<Longrightarrow> dmx_wf (dvb_demux_feed_add i d)"
  by (auto simp: dvb_demux_feed_add_def dvb_demux_feed_find_def dmx_wf_def in_use_def feed_wf_def owned_def)

lemma in_use_feed_add [simp]: "in_use (dvb_demux_feed_add i d) k = in_use d k"
  by (simp add: dvb_demux_feed_add_def in_use_def)

text \<open>A change to a filter that no feed owns.\<close>

lemma upd_filter_unowned:
  assumes "\<And>t. \<not> owned d t i j" "feed_wf d i"
  shows "feed_wf (upd_filter j g d) i"
proof -
  have own: "owned (upd_filter j g d) t i k" if "owned d t i k" for t k
  proof -
    have "k \<noteq> j" using that assms(1) by blast
    then show ?thesis using that by (simp add: owned_def upd_filter_def)
  qed
  have ch: "filter_chain (dmx_filters (upd_filter j g d)) h ids = filter_chain (dmx_filters d) h ids"
    if "\<forall>k \<in> set ids. owned d DMX_TYPE_SEC i k" for h ids
  proof (rule filter_chain_cong)
    fix k assume "k \<in> set ids"
    then have "k \<noteq> j" using that assms(1) by blast
    then show "filter_next (dmx_filters (upd_filter j g d) ! k) = filter_next (dmx_filters d ! k)"
      by (simp add: upd_filter_def)
  qed simp
  show ?thesis
  proof (cases "feed_type (dmx_feeds d ! i) = DMX_TYPE_SEC")
    case True
    then obtain ids where "filter_chain (dmx_filters d) (feed_filter (dmx_feeds d ! i)) ids"
      "distinct ids" "\<forall>k \<in> set ids. owned d DMX_TYPE_SEC i k"
      using assms(2) by (auto simp: feed_wf_def)
    with True ch own show ?thesis by (auto simp: feed_wf_def intro!: exI [of _ ids])
  qed (use assms(2) own in \<open>auto simp: feed_wf_def\<close>)
qed

lemma not_owned_free: "filter_state (dmx_filters d ! j) = DMX_STATE_FREE \<Longrightarrow> \<not> owned d t i j"
  by (simp add: owned_def)

lemma upd_free_filter_wf:
  assumes "dmx_wf d" "filter_state (dmx_filters d ! j) = DMX_STATE_FREE"
  shows "dmx_wf (upd_filter j g d)"
  using assms upd_filter_unowned [OF not_owned_free [OF assms(2)]]
  by (auto simp: dmx_wf_def in_use_def)

text \<open>A change to one feed leaves the others alone.\<close>

lemma feed_wf_upd_feed_other: "k \<noteq> i \<Longrightarrow> feed_wf (upd_feed i g d) k = feed_wf d k"
  by (simp add: feed_wf_def owned_def upd_feed_def)

lemma feed_wf_upd_feed_list [simp]:
  "feed_wf (d\<lparr>feed_list := l\<rparr>) k = feed_wf d k" "in_use (d\<lparr>feed_list := l\<rparr>) k = in_use d k"
  by (simp_all add: feed_wf_def owned_def in_use_def)

lemma upd_feed_wf:
  assumes "dmx_wf d" "in_use (upd_feed i g d) i \<Longrightarrow> feed_wf (upd_feed i g d) i"
    and "i \<in> set (feed_list d) \<Longrightarrow> in_use (upd_feed i g d) i"
  shows "dmx_wf (upd_feed i g d)"
proof -
  have "in_use (upd_feed i g d) k = in_use d k" if "k \<noteq> i" for k
    using that by (simp add: in_use_def upd_feed_def)
  with assms feed_wf_upd_feed_other [of _ i g d] show ?thesis
    unfolding dmx_wf_def by (metis upd_feed_simps(2))
qed

lemma feed_alloc_Some:
  assumes "dvb_dmx_feed_alloc d = Some (i, d')"
  shows "i < length (dmx_feeds d)" "feed_state (dmx_feeds d ! i) = DMX_STATE_FREE"
    "d' = upd_feed i (\<lambda>f. f\<lparr>feed_state := DMX_STATE_ALLOCATED\<rparr>) d"
  using assms by (auto simp: dvb_dmx_feed_alloc_def dest: first_index_Some)

lemma filter_alloc_Some:
  assumes "dvb_dmx_filter_alloc d = Some (j, d')"
  shows "j < length (dmx_filters d)" "filter_state (dmx_filters d ! j) = DMX_STATE_FREE"
    "d' = upd_filter j (\<lambda>f. f\<lparr>filter_state := DMX_STATE_ALLOCATED\<rparr>) d"
  using assms by (auto simp: dvb_dmx_filter_alloc_def dest: first_index_Some)

lemma upd_feed_twice [simp]: "upd_feed i g (upd_feed i h d) = upd_feed i (g \<circ> h) d"
  by (cases "i < length (dmx_feeds d)") (simp_all add: upd_feed_def list_update_beyond)

lemma upd_filter_twice [simp]: "upd_filter i g (upd_filter i h d) = upd_filter i (g \<circ> h) d"
  by (cases "i < length (dmx_filters d)") (simp_all add: upd_filter_def list_update_beyond)

lemma allocate_section_feed_wf [inv_intros]:
  assumes "dmx_wf d" "dvbdmx_allocate_section_feed intr cb d = (r, d')"
  shows "dmx_wf d'"
proof (cases "intr \<or> dvb_dmx_feed_alloc d = None")
  case True
  with assms show ?thesis by (auto simp: dvbdmx_allocate_section_feed_def split: if_splits)
next
  case False
  then obtain i d1 where al: "dvb_dmx_feed_alloc d = Some (i, d1)" by auto
  note f = feed_alloc_Some [OF al]
  have "i \<notin> set (feed_list d)" using dmx_wfD(2) [OF assms(1), of i] f by (auto simp: in_use_def)
  moreover have "feed_wf (upd_feed i g d) i"
    if "feed_type (g (dmx_feeds d ! i)) = DMX_TYPE_SEC" "feed_filter (g (dmx_feeds d ! i)) = None" for g
    using that f(1) by (auto simp: feed_wf_def)
  ultimately show ?thesis
    using assms(2) False al f(3)
    by (auto simp: dvbdmx_allocate_section_feed_def intro!: upd_feed_wf [OF assms(1)])
qed

lemma feed_wf_cong:
  "dmx_filters d' = dmx_filters d \<Longrightarrow> dmx_feeds d' ! k = dmx_feeds d ! k \<Longrightarrow> feed_wf d' k = feed_wf d k"
  by (simp add: feed_wf_def owned_def)

lemma upd_filter_feed_commute: "upd_filter j g (upd_feed i h d) = upd_feed i h (upd_filter j g d)"
  by (simp add: upd_filter_def upd_feed_def)

lemma allocate_ts_feed_wf [inv_intros]:
  assumes "dmx_wf d" "dvbdmx_allocate_ts_feed intr cb d = (r, d')"
  shows "dmx_wf d'"
proof (cases "intr \<or> dvb_dmx_feed_alloc d = None")
  case True
  with assms show ?thesis by (auto simp: dvbdmx_allocate_ts_feed_def split: if_splits)
next
  case False
  then obtain i d1 where al: "dvb_dmx_feed_alloc d = Some (i, d1)" by auto
  note f = feed_alloc_Some [OF al]
  have nin: "i \<notin> set (feed_list d)" using dmx_wfD(2) [OF assms(1), of i] f by (auto simp: in_use_def)
  let ?g = "\<lambda>f. f\<lparr>feed_type := DMX_TYPE_TS, feed_cb := cb, feed_pid := 0xffff, peslen := 0xfffa,
    feed_priv := None, is_filtering := False\<rparr>"
  show ?thesis
  proof (cases "dvb_dmx_filter_alloc (upd_feed i ?g d1)")
    case None
    then have "d' = upd_feed i ((\<lambda>f. f\<lparr>feed_filter := None, feed_state := DMX_STATE_FREE\<rparr>)
        \<circ> (?g \<circ> (\<lambda>f. f\<lparr>feed_state := DMX_STATE_ALLOCATED\<rparr>))) d"
      using assms(2) False al f(3) by (simp add: dvbdmx_allocate_ts_feed_def)
    then show ?thesis
      using nin f(1) by (auto simp: in_use_def intro!: upd_feed_wf [OF assms(1)])
  next
    case (Some p)
    obtain j d2 where p: "p = (j, d2)" by (cases p)
    note al2 = filter_alloc_Some [OF Some [unfolded p]]
    let ?h = "\<lambda>f. f\<lparr>filter_state := DMX_STATE_ALLOCATED, filter_type := DMX_TYPE_TS,
      filter_feed := Some i, filter_state := DMX_STATE_READY\<rparr>"
    let ?k = "\<lambda>f. (?g (f\<lparr>feed_state := DMX_STATE_ALLOCATED\<rparr>))\<lparr>feed_filter := Some j\<rparr>"
    have d': "d' = upd_feed i ?k (upd_filter j ?h d)"
      using assms(2) False al f(3) Some p al2(3)
      by (simp add: dvbdmx_allocate_ts_feed_def upd_filter_feed_commute comp_def)
    have "dmx_wf (upd_filter j ?h d)"
      by (rule upd_free_filter_wf [OF assms(1)]) (use al2(2) f in simp)
    then show ?thesis
      unfolding d' using nin f al2(1)
      by (auto simp: feed_wf_def owned_def intro!: upd_feed_wf)
  qed
qed

text \<open>Releasing a feed: it leaves the list, and at most a filter of its own changes.\<close>

lemma release_feed_wf:
  assumes "dmx_wf d" "feed_list d' = remove1 i (feed_list d)"
    and "\<And>k. in_use d' k \<longleftrightarrow> in_use d k \<and> k \<noteq> i"
    and "\<And>k. k \<noteq> i \<Longrightarrow> in_use d k \<Longrightarrow> feed_wf d k \<Longrightarrow> feed_wf d' k"
  shows "dmx_wf d'"
  using assms by (auto simp: dmx_wf_def)

lemma feed_del_simps [simp]:
  "feed_list (dvb_demux_feed_del i d) = remove1 i (feed_list d)"
  "dmx_feeds (dvb_demux_feed_del i d) = dmx_feeds d"
  "dmx_filters (dvb_demux_feed_del i d) = dmx_filters d"
  "pesfilter (dvb_demux_feed_del i d) = pesfilter d"
  by (auto simp: dvb_demux_feed_del_def dvb_demux_feed_find_def remove1_idem)

lemma release_section_feed_wf [inv_intros]:
  assumes "dmx_wf d" "in_use d i" "dvbdmx_release_section_feed intr i d = (r, d')"
  shows "dmx_wf d'"
proof (cases intr)
  case True
  with assms show ?thesis by (simp add: dvbdmx_release_section_feed_def)
next
  case False
  then have d': "d' = upd_feed i (\<lambda>f. f\<lparr>feed_pid := 0xffff\<rparr>)
      (dvb_demux_feed_del i (upd_feed i (\<lambda>f. f\<lparr>feed_state := DMX_STATE_FREE\<rparr>) d))"
    using assms by (auto simp: dvbdmx_release_section_feed_def in_use_def Let_def)
  show ?thesis
  proof (rule release_feed_wf [OF assms(1)])
    show "feed_list d' = remove1 i (feed_list d)" by (simp add: d')
    show "in_use d' k \<longleftrightarrow> in_use d k \<and> k \<noteq> i" for k
      using assms(2) by (auto simp: d' in_use_def)
    show "feed_wf d' k" if "k \<noteq> i" "feed_wf d k" for k
      using that assms(2) feed_wf_cong [of d' d k] by (simp add: d' in_use_def)
  qed
qed

lemma release_ts_feed_wf [inv_intros]:
  assumes "dmx_wf d" "in_use d i" "feed_type (dmx_feeds d ! i) = DMX_TYPE_TS"
    and "dvbdmx_release_ts_feed intr i d = Some (r, d')"
  shows "dmx_wf d'"
proof (cases intr)
  case True
  with assms show ?thesis by (simp add: dvbdmx_release_ts_feed_def Let_def)
next
  case False
  from dmx_wfD(3) [OF assms(1,2)] assms(3) obtain j where
    j: "feed_filter (dmx_feeds d ! i) = Some j" "owned d DMX_TYPE_TS i j"
    by (auto simp: feed_wf_def)
  let ?d = "upd_feed i (\<lambda>f. f\<lparr>feed_pid := 0xffff\<rparr>) (dvb_demux_feed_del i
      (upd_filter j (\<lambda>f. f\<lparr>filter_state := DMX_STATE_FREE\<rparr>)
        (upd_feed i (\<lambda>f. f\<lparr>feed_state := DMX_STATE_FREE\<rparr>) d)))"
  have d': "d' = ?d \<or> d' = ?d\<lparr>pesfilter := (pesfilter d)[pes_type (dmx_feeds d ! i) := None]\<rparr>"
    using assms(2,4) False j
    by (auto simp: dvbdmx_release_ts_feed_def in_use_def Let_def split: if_splits)
  let ?u = "upd_filter j (\<lambda>f. f\<lparr>filter_state := DMX_STATE_FREE\<rparr>) d"
  show ?thesis
  proof (rule release_feed_wf [OF assms(1)])
    show "feed_list d' = remove1 i (feed_list d)" using d' by auto
    show "in_use d' k \<longleftrightarrow> in_use d k \<and> k \<noteq> i" for k
      using assms(2) d' by (auto simp: in_use_def split: if_splits)
    show "feed_wf d' k" if "k \<noteq> i" "feed_wf d k" for k
    proof -
      have "\<not> owned d t k j" for t using j(2) that(1) by (simp add: owned_def)
      then have "feed_wf ?u k" by (rule upd_filter_unowned) (rule that(2))
      moreover have "dmx_filters d' = dmx_filters ?u" "dmx_feeds d' ! k = dmx_feeds ?u ! k"
        using d' that assms(2) by (auto simp: in_use_def upd_filter_def)
      ultimately show ?thesis by (simp add: feed_wf_cong [of d' ?u])
    qed
  qed
qed

lemma allocate_filter_wf [inv_intros]:
  assumes "dmx_wf d" "in_use d i" "feed_type (dmx_feeds d ! i) = DMX_TYPE_SEC"
    and "dmx_section_feed_allocate_filter intr i d = (r, d')"
  shows "dmx_wf d'"
proof (cases "intr \<or> dvb_dmx_filter_alloc d = None")
  case True
  with assms show ?thesis by (auto simp: dmx_section_feed_allocate_filter_def split: if_splits)
next
  case False
  then obtain j d1 where al: "dvb_dmx_filter_alloc d = Some (j, d1)" by auto
  note f = filter_alloc_Some [OF al]
  let ?h = "\<lambda>f. f\<lparr>filter_state := DMX_STATE_ALLOCATED, filter_priv := None, filter_feed := Some i,
    filter_type := DMX_TYPE_SEC, filter_state := DMX_STATE_READY,
    filter_next := feed_filter (dmx_feeds d ! i)\<rparr>"
  let ?d = "upd_filter j ?h d"
  have d': "d' = upd_feed i (\<lambda>f. f\<lparr>feed_filter := Some j\<rparr>) ?d"
    using assms(4) False al f(3)
    by (simp add: dmx_section_feed_allocate_filter_def comp_def)
  from dmx_wfD(3) [OF assms(1,2)] assms(3) obtain ids where
    ids: "filter_chain (dmx_filters d) (feed_filter (dmx_feeds d ! i)) ids" "distinct ids"
      "\<forall>k \<in> set ids. owned d DMX_TYPE_SEC i k"
    by (auto simp: feed_wf_def)
  have nin: "j \<notin> set ids" using ids(3) not_owned_free [OF f(2)] by auto
  have ch: "filter_chain (dmx_filters ?d) (feed_filter (dmx_feeds d ! i)) ids"
    by (subst filter_chain_cong [of _ "dmx_filters d"]) (use ids nin f(1) in auto)
  have "feed_wf d' i"
    using assms(2,3) ch ids nin f(1)
    by (auto simp: d' feed_wf_def in_use_def owned_def intro!: exI [of _ "j # ids"])
  then show ?thesis
    unfolding d' using assms(2)
    by (intro upd_feed_wf upd_free_filter_wf [OF assms(1) f(2)]) (auto simp: in_use_def)
qed

text \<open>Unlinking a filter from a chain.\<close>

lemma filter_chain_Cons [simp]:
  "filter_chain fs h (j # ids) \<longleftrightarrow>
     h = Some j \<and> j < length fs \<and> filter_chain fs (filter_next (fs ! j)) ids"
  by (cases h) auto

lemma find_pred_chain:
  assumes "filter_chain fs h ids" "h \<noteq> Some j" "find_pred n fs h j = Some p"
  shows "\<exists>xs ys. ids = xs @ p # j # ys"
  using assms
proof (induction n fs h j arbitrary: ids rule: find_pred.induct)
  case (3 n fs f j)
  then obtain ids' where ids: "ids = f # ids'" "filter_chain fs (filter_next (fs ! f)) ids'"
    by (cases ids) auto
  show ?case
  proof (cases "filter_next (fs ! f) = Some j")
    case True
    with ids obtain ys where "ids' = j # ys" by (cases ids') auto
    with True ids 3(4) show ?thesis by auto
  next
    case False
    with 3 ids have "\<exists>xs ys. ids' = xs @ p # j # ys" by auto
    with ids show ?thesis by (metis append_Cons)
  qed
qed auto

lemma chain_unlink:
  assumes "filter_chain fs h (xs @ p # j # ys)" "distinct (xs @ p # j # ys)"
  shows "filter_chain (fs[p := (fs ! p)\<lparr>filter_next := filter_next (fs ! j)\<rparr>]) h (xs @ p # ys)"
  using assms
proof (induction xs arbitrary: h)
  case Nil
  have old: "filter_chain fs (filter_next (fs ! j)) ys" using Nil(1) by simp
  have "p \<notin> set ys" using Nil(2) by simp
  then have "filter_chain (fs[p := (fs ! p)\<lparr>filter_next := filter_next (fs ! j)\<rparr>]) (filter_next (fs ! j)) ys"
    by (subst filter_chain_cong [of _ fs]) (auto simp: nth_update_if old)
  with Nil show ?case by (cases h) auto
next
  case (Cons x xs)
  then show ?case by (cases h) auto
qed

lemma unlink_filter_wf:
  assumes "dmx_wf d" "in_use d i" "feed_type (dmx_feeds d ! i) = DMX_TYPE_SEC"
    and "unlink_filter i j d = Some d'"
  shows "dmx_wf d' \<and> (\<exists>ids. filter_chain (dmx_filters d') (feed_filter (dmx_feeds d' ! i)) ids
    \<and> j \<notin> set ids \<and> distinct ids \<and> (\<forall>k \<in> set ids. owned d' DMX_TYPE_SEC i k))"
proof -
  from dmx_wfD(3) [OF assms(1,2)] assms(3) obtain ids where
    ids: "filter_chain (dmx_filters d) (feed_filter (dmx_feeds d ! i)) ids" "distinct ids"
      "\<forall>k \<in> set ids. owned d DMX_TYPE_SEC i k"
    by (auto simp: feed_wf_def)
  show ?thesis
  proof (cases "feed_filter (dmx_feeds d ! i) = Some j")
    case True
    then obtain ids' where id: "ids = j # ids'" "filter_chain (dmx_filters d) (filter_next (dmx_filters d ! j)) ids'"
      using ids(1) by (cases ids) auto
    have d': "d' = upd_feed i (\<lambda>f. f\<lparr>feed_filter := filter_next (dmx_filters d ! j)\<rparr>) d"
      using True assms(4) by (simp add: unlink_filter_def)
    have new: "filter_chain (dmx_filters d') (feed_filter (dmx_feeds d' ! i)) ids'"
      "\<forall>k \<in> set ids'. owned d' DMX_TYPE_SEC i k"
      using id ids(3) assms(2) by (auto simp: d' owned_def in_use_def)
    then have "feed_wf d' i"
      using id ids(2) assms(2,3) by (auto simp: d' feed_wf_def in_use_def)
    then have "dmx_wf d'"
      unfolding d' using assms(2) by (intro upd_feed_wf [OF assms(1)]) (auto simp: in_use_def)
    with new id ids(2) show ?thesis by auto
  next
    case False
    then obtain p where p: "find_pred (length (dmx_filters d)) (dmx_filters d)
        (feed_filter (dmx_feeds d ! i)) j = Some p"
      and d': "d' = upd_filter p (\<lambda>f. f\<lparr>filter_next := filter_next (dmx_filters d ! j)\<rparr>) d"
      using assms(4) by (auto simp: unlink_filter_def)
    from find_pred_chain [OF ids(1) False p] obtain xs ys where id: "ids = xs @ p # j # ys" by blast
    have new: "filter_chain (dmx_filters d') (feed_filter (dmx_feeds d' ! i)) (xs @ p # ys)"
      using chain_unlink [of "dmx_filters d" _ xs p j ys] ids(1,2) id by (simp add: d' upd_filter_def)
    have own: "owned d' t m k = owned d t m k" for t m k
      using ids(3) id by (auto simp: d' owned_def)
    have "feed_wf d' m" if "in_use d m" for m
    proof (cases "m = i")
      case True
      with new ids(2,3) id assms(3) own show ?thesis
        by (auto simp: feed_wf_def d' intro!: exI [of _ "xs @ p # ys"])
    next
      case False
      have "\<not> owned d t m p" for t using ids(3) id False by (auto simp: owned_def)
      then show ?thesis unfolding d' by (rule upd_filter_unowned) (rule dmx_wfD(3) [OF assms(1) that])
    qed
    then have "dmx_wf d'" using assms(1) by (auto simp: dmx_wf_def d' in_use_def)
    with new id ids(2,3) own show ?thesis by (intro conjI exI [of _ "xs @ p # ys"]) auto
  qed
qed

lemma release_filter_wf [inv_intros]:
  assumes "dmx_wf d" "in_use d i" "feed_type (dmx_feeds d ! i) = DMX_TYPE_SEC"
    and "dmx_section_feed_release_filter intr intr2 i j d = Returns (r, d')"
  shows "dmx_wf d'"
proof (cases "unlink_filter i j d = None \<or> d' = d")
  case True
  with assms show ?thesis
    by (auto simp: dmx_section_feed_release_filter_def split: if_splits option.splits)
next
  case False
  then obtain d1 where u: "unlink_filter i j d = Some d1"
    and d': "d' = upd_filter j (\<lambda>f. f\<lparr>filter_state := DMX_STATE_FREE\<rparr>) d1"
    and ff: "filter_feed (dmx_filters d ! j) = Some i"
    using assms(4) by (auto simp: dmx_section_feed_release_filter_def split: if_splits option.splits)
  from unlink_filter_wf [OF assms(1-3) u] obtain ids where wf: "dmx_wf d1"
    and ids: "filter_chain (dmx_filters d1) (feed_filter (dmx_feeds d1 ! i)) ids"
      "j \<notin> set ids" "distinct ids" "\<forall>k \<in> set ids. owned d1 DMX_TYPE_SEC i k"
    by blast
  have same: "filter_feed (dmx_filters d1 ! j) = Some i" "dmx_feeds d1 ! m = dmx_feeds d ! m \<or> m = i"
    "feed_type (dmx_feeds d1 ! i) = DMX_TYPE_SEC" "in_use d1 m = in_use d m" for m
    using u ff assms(2,3)
    by (auto simp: unlink_filter_def upd_feed_def upd_filter_def in_use_def nth_update_if
        Let_def split: if_splits)
  have "feed_wf d' m" if "in_use d1 m" for m
  proof (cases "m = i")
    case True
    have "filter_chain (dmx_filters d') (feed_filter (dmx_feeds d1 ! i)) ids"
      by (subst filter_chain_cong [of _ "dmx_filters d1"])
        (use ids in \<open>auto simp: d' upd_filter_def nth_update_if\<close>)
    moreover have "\<forall>k \<in> set ids. owned d' DMX_TYPE_SEC i k"
      using ids by (auto simp: d' owned_def upd_filter_def nth_update_if)
    ultimately show ?thesis
      using True ids same(3) by (auto simp: feed_wf_def d' intro!: exI [of _ ids])
  next
    case False
    then have "\<not> owned d1 t m j" for t using same(1) by (simp add: owned_def)
    then show ?thesis unfolding d' by (rule upd_filter_unowned) (rule dmx_wfD(3) [OF wf that])
  qed
  with wf show ?thesis by (auto simp: dmx_wf_def d' in_use_def)
qed


section \<open>Packets keep the links\<close>

lemma section_feed_frame:
  "dvb_dmx_swfilter_section_feed env fs feed c = Some (r, feed', c') \<Longrightarrow> sec_frame feed feed'"
  by (auto simp: dvb_dmx_swfilter_section_feed_def dvb_dmx_crc32_def Let_def sec_frame_def
      split: if_splits option.splits sum.splits Option.bind_splits)

lemma sec_frame_update:
  "sec_frame (feed\<lparr>feed_cc := cc\<rparr>) f = sec_frame feed f"
  "sec_frame (feed\<lparr>crc_val := v\<rparr>) f = sec_frame feed f"
  "sec_frame (feed\<lparr>seclen := n\<rparr>) f = sec_frame feed f"
  "sec_frame (feed\<lparr>secbuf := mem\<rparr>) f = sec_frame feed f"
  "sec_frame (feed\<lparr>secbufp := n\<rparr>) f = sec_frame feed f"
  "sec_frame (feed\<lparr>peslen := l\<rparr>) f = sec_frame feed f"
  "sec_frame feed (f\<lparr>feed_cc := cc\<rparr>) = sec_frame feed f"
  "sec_frame feed (f\<lparr>crc_val := v\<rparr>) = sec_frame feed f"
  "sec_frame feed (f\<lparr>seclen := n\<rparr>) = sec_frame feed f"
  "sec_frame feed (f\<lparr>secbuf := mem\<rparr>) = sec_frame feed f"
  "sec_frame feed (f\<lparr>secbufp := n\<rparr>) = sec_frame feed f"
  "sec_frame feed (f\<lparr>peslen := l\<rparr>) = sec_frame feed f"
  by (simp_all add: sec_frame_def)

lemma section_rest_frame:
  "section_rest env fs feed buf p ptr c = Some (r, feed', c') \<Longrightarrow> sec_frame feed feed'"
  by (auto simp: section_rest_def Let_def sec_frame_update split: if_splits Option.bind_splits
      dest!: section_feed_frame)

lemma section_continue_frame:
  "section_continue env fs feed buf p c = Some (r, feed', c') \<Longrightarrow> sec_frame feed feed'"
  by (auto simp: section_continue_def Let_def sec_frame_update split: if_splits Option.bind_splits
      dest!: section_feed_frame)

lemma section_starts_frame:
  "section_starts env fs feed buf p c = Some (r, feed', c') \<Longrightarrow> sec_frame feed feed'"
proof (induction "188 - p" arbitrary: feed p c rule: less_induct)
  case less
  have step: "sec_frame feed f" if "dvb_dmx_swfilter_section_feed env fs
      (feed\<lparr>crc_val := - 1, seclen := n, secbuf := mem, secbufp := m\<rparr>) c = Some (q, f, c1)" for n mem m q f c1
    using section_feed_frame [OF that] by (simp add: sec_frame_update)
  have rec: "sec_frame feed feed'" if "\<not> 188 \<le> p + section_length (drop p buf)" "sec_frame feed f"
    "section_starts env fs f buf (p + section_length (drop p buf)) c1 = Some (r, feed', c')" for f c1
  proof -
    have "188 - (p + section_length (drop p buf)) < 188 - p"
      using that(1) section_length_ge_3 [of "drop p buf"] by linarith
    from less.hyps [OF this that(3)] that(2) show ?thesis by (rule sec_frame_trans [rotated])
  qed
  from less.prems show ?case
    by (subst (asm) section_starts.simps)
      (auto simp: Let_def sec_frame_update split: if_splits Option.bind_splits dest!: step intro: rec)
qed

lemma section_packet_frame:
  "dvb_dmx_swfilter_section_packet env fs feed buf c = Some (r, feed', c') \<Longrightarrow> sec_frame feed feed'"
  by (auto simp: dvb_dmx_swfilter_section_packet_def Let_def sec_frame_update
      split: if_splits Option.bind_splits sum.splits
      dest!: section_rest_frame section_continue_frame section_starts_frame intro: sec_frame_trans)

lemma packet_type_frame:
  "dvb_dmx_swfilter_packet_type env fs feed buf c = Some (feed', c') \<Longrightarrow> sec_frame feed feed'"
  by (auto simp: dvb_dmx_swfilter_packet_type_def dvb_dmx_swfilter_payload_def Let_def sec_frame_update
      split: dmx_type.splits if_splits Option.bind_splits sum.splits option.splits prod.splits
      dest!: section_packet_frame)

lemma sec_frame_links: "sec_frame feed feed' \<Longrightarrow> feed_links feed' = feed_links feed"
  by (simp add: sec_frame_def feed_links_def)

lemma swfilter_feeds_ConsE:
  assumes "swfilter_feeds env buf (i # is) d c = Some (d', c')"
  obtains f c1 where "i < length (dmx_feeds d)" "sec_frame (dmx_feeds d ! i) f"
    "swfilter_feeds env buf is (d\<lparr>dmx_feeds := (dmx_feeds d)[i := f]\<rparr>) c1 = Some (d', c')"
proof -
  let ?step = "if feed_pid (dmx_feeds d ! i) = ts_pid buf
    then dvb_dmx_swfilter_packet_type env (dmx_filters d) (dmx_feeds d ! i) buf c
    else Some (dmx_feeds d ! i, c)"
  from assms obtain f c0 where i: "i < length (dmx_feeds d)" and st: "?step = Some (f, c0)"
    by (auto simp: rd_def Option.bind_eq_Some_conv simp del: list_update_id split: if_splits)
  have "sec_frame (dmx_feeds d ! i) f"
    using st packet_type_frame by (auto split: if_splits)
  moreover obtain c1 where
    "swfilter_feeds env buf is (d\<lparr>dmx_feeds := (dmx_feeds d)[i := f]\<rparr>) c1 = Some (d', c')"
    using assms i st
    by (simp only: swfilter_feeds.simps rd_in_range Option.bind.simps prod.case)
      (auto simp: Option.bind_eq_Some_conv)
  ultimately show thesis using i that by blast
qed

lemma swfilter_feeds_links:
  "swfilter_feeds env buf is d c = Some (d', c') \<Longrightarrow> dmx_links d' = dmx_links d"
proof (induction "is" arbitrary: d c)
  case Nil
  then show ?case by simp
next
  case (Cons i "is")
  from Cons.prems obtain f c1 where i: "i < length (dmx_feeds d)" and f: "sec_frame (dmx_feeds d ! i) f"
    and rec: "swfilter_feeds env buf is (d\<lparr>dmx_feeds := (dmx_feeds d)[i := f]\<rparr>) c1 = Some (d', c')"
    by (rule swfilter_feeds_ConsE)
  have "dmx_links (d\<lparr>dmx_feeds := (dmx_feeds d)[i := f]\<rparr>) = dmx_links d"
    using sec_frame_links [OF f] i by (simp add: dmx_links_def map_update list_update_same_conv)
  with Cons.IH [OF rec] show ?case by simp
qed

lemma tsbuf_links [simp]:
  "dmx_links (d\<lparr>tsbuf := t\<rparr>) = dmx_links d" "dmx_links (d\<lparr>tsbufp := n\<rparr>) = dmx_links d"
  by (simp_all add: dmx_links_def)

lemma swfilter_packet_links:
  "dvb_dmx_swfilter_packet env buf d c = Some (d', c') \<Longrightarrow> dmx_links d' = dmx_links d"
  by (auto simp: dvb_dmx_swfilter_packet_def dest: swfilter_feeds_links)

lemma swfilter_scan_links:
  "swfilter_scan env buf d c = Some (d', c') \<Longrightarrow> dmx_links d' = dmx_links d"
proof (induction env buf d c rule: swfilter_scan.induct)
  case (2 env b bs d c)
  then show ?case
    by (auto simp: swfilter_scan.simps(2) split: if_splits Option.bind_splits dest: swfilter_packet_links)
qed simp

lemma swfilter_links:
  "dvb_dmx_swfilter env buf d c = Some (d', c') \<Longrightarrow> dmx_links d' = dmx_links d"
  by (auto simp: dvb_dmx_swfilter_def Let_def split: if_splits Option.bind_splits
      dest!: swfilter_scan_links swfilter_packet_links)


section \<open>The remaining operations keep the invariant\<close>

lemma ts_feed_set_wf [inv_intros]:
  assumes "dmx_wf d" "in_use d i" "dmx_ts_feed_set intr i pid tt pt n m descr tmo d = (r, d')"
  shows "dmx_wf d'"
proof (cases "d' = d")
  case False
  let ?d = "if tt AND TS_DECODER \<noteq> 0
    then d\<lparr>pesfilter := (pesfilter d)[pt := Some i], dmx_pids := (dmx_pids d)[pt := pid]\<rparr> else d"
  have l: "dmx_links ?d = dmx_links d" by (simp add: dmx_links_def)
  have u: "in_use (dvb_demux_feed_add i ?d) i" using assms(2) dmx_links_imp(1) [OF l] by simp
  have "dmx_wf (dvb_demux_feed_add i ?d)"
    using assms dmx_wf_links [OF l] dmx_links_imp(1) [OF l] by (intro feed_add_wf) auto
  moreover have "dmx_links d' = dmx_links (dvb_demux_feed_add i ?d)"
  proof (cases descr)
    case True
    with assms(3) False have "d' = upd_feed i (\<lambda>f. f\<lparr>feed_pid := pid, buffer_size := m,
        descramble := descr, feed_timeout := tmo, cb_length := n, ts_type := tt, pes_type := pt\<rparr>)
        (dvb_demux_feed_add i ?d)"
      unfolding dmx_ts_feed_set_def Let_def by (auto simp del: upd_feed_twice split: if_split_asm)
    then show ?thesis by (simp add: feed_links_def)
  next
    case no: False
    with assms(3) False have "d' = upd_feed i (\<lambda>f. f\<lparr>feed_state := DMX_STATE_READY\<rparr>) (upd_feed i
        (\<lambda>f. f\<lparr>feed_pid := pid, buffer_size := m, descramble := descr, feed_timeout := tmo,
          cb_length := n, ts_type := tt, pes_type := pt\<rparr>) (dvb_demux_feed_add i ?d))"
      unfolding dmx_ts_feed_set_def Let_def by (auto simp del: upd_feed_twice split: if_split_asm)
    with u show ?thesis by (simp add: feed_links_def in_use_def)
  qed
  ultimately show ?thesis using dmx_wf_links by blast
qed (use assms in simp)

lemma section_feed_set_wf [inv_intros]:
  assumes "dmx_wf d" "in_use d i" "dmx_section_feed_set intr i pid n descr check d = (r, d')"
  shows "dmx_wf d'"
proof (cases "d' = d")
  case False
  have u: "in_use (dvb_demux_feed_add i d) i" using assms(2) by simp
  have "dmx_links d' = dmx_links (dvb_demux_feed_add i d)"
  proof (cases descr)
    case True
    with assms(3) False have "d' = upd_feed i
        (\<lambda>f. f\<lparr>feed_pid := pid, buffer_size := n, descramble := descr\<rparr>) (dvb_demux_feed_add i d)"
      unfolding dmx_section_feed_set_def Let_def by (auto split: if_split_asm)
    then show ?thesis by (simp add: feed_links_def)
  next
    case no: False
    with assms(3) False have "d' = upd_feed i (\<lambda>f. f\<lparr>check_crc := check, feed_state := DMX_STATE_READY\<rparr>)
        (upd_feed i (\<lambda>f. f\<lparr>feed_pid := pid, buffer_size := n, descramble := descr\<rparr>)
          (dvb_demux_feed_add i d))"
      unfolding dmx_section_feed_set_def Let_def by (auto split: if_split_asm)
    with u show ?thesis by (simp add: feed_links_def in_use_def)
  qed
  with feed_add_wf [OF assms(1,2)] show ?thesis using dmx_wf_links by blast
qed (use assms in simp)

lemma prepare_secfilter_links: "filter_links (prepare_secfilter f) = filter_links f"
  by (simp add: filter_links_def prepare_secfilter_def Let_def)

lemma prepare_chain_links:
  "map filter_links (prepare_chain n h fs) = map filter_links fs"
  by (induction n h fs rule: prepare_chain.induct)
    (simp_all add: map_update_eq prepare_secfilter_links)

lemma prepare_secfilters_links [simp]: "dmx_links (prepare_secfilters i d) = dmx_links d"
  by (simp add: prepare_secfilters_def dmx_links_def prepare_chain_links)

lemma prepare_secfilters_feeds [simp]: "dmx_feeds (prepare_secfilters i d) = dmx_feeds d"
  by (simp add: prepare_secfilters_def)

lemma ts_feed_start_links:
  assumes "in_use d i" "dmx_ts_feed_start_filtering env intr i d c = (r, d', c')"
  shows "dmx_links d' = dmx_links d"
  using assms by (auto simp: dmx_ts_feed_start_filtering_def in_use_def feed_links_def Let_def
      split: if_splits option.splits prod.splits sum.splits)

lemma ts_feed_stop_links:
  assumes "in_use d i" "dmx_ts_feed_stop_filtering env intr i d c = (r, d', c')"
  shows "dmx_links d' = dmx_links d"
  using assms by (auto simp: dmx_ts_feed_stop_filtering_def in_use_def feed_links_def Let_def
      split: if_splits option.splits prod.splits sum.splits)

lemma section_feed_start_links:
  assumes "in_use d i" "dmx_section_feed_start_filtering env intr i d c = (r, d', c')"
  shows "dmx_links d' = dmx_links d"
  using assms by (auto simp: dmx_section_feed_start_filtering_def in_use_def feed_links_def Let_def
      split: if_splits option.splits prod.splits sum.splits)

lemma section_feed_stop_links:
  assumes "in_use d i" "dmx_section_feed_stop_filtering env intr i d c = (r, d', c')"
  shows "dmx_links d' = dmx_links d"
  using assms by (auto simp: dmx_section_feed_stop_filtering_def in_use_def feed_links_def Let_def
      split: if_splits option.splits prod.splits sum.splits)


section \<open>What the demux can go through\<close>

text \<open>
  One step of the demux: a call of its interface by a client that passes pointers it got from it,
  a client filling in a filter, packets, or something that happens to the clients alone.
\<close>

inductive dmx_step :: "'c dmx_env \<Rightarrow> dvb_demux \<times> 'c \<Rightarrow> dvb_demux \<times> 'c \<Rightarrow> bool" for env where
  step_alloc_ts: "dvbdmx_allocate_ts_feed intr cb d = (r, d') \<Longrightarrow> dmx_step env (d, c) (d', c)"
| step_release_ts: "in_use d i \<Longrightarrow> feed_type (dmx_feeds d ! i) = DMX_TYPE_TS \<Longrightarrow>
    dvbdmx_release_ts_feed intr i d = Some (r, d') \<Longrightarrow> dmx_step env (d, c) (d', c)"
| step_ts_set: "in_use d i \<Longrightarrow> dmx_ts_feed_set intr i pid tt pt n m descr tmo d = (r, d') \<Longrightarrow>
    dmx_step env (d, c) (d', c)"
| step_ts_start: "in_use d i \<Longrightarrow> dmx_ts_feed_start_filtering env intr i d c = (r, d', c') \<Longrightarrow>
    dmx_step env (d, c) (d', c')"
| step_ts_stop: "in_use d i \<Longrightarrow> dmx_ts_feed_stop_filtering env intr i d c = (r, d', c') \<Longrightarrow>
    dmx_step env (d, c) (d', c')"
| step_alloc_sec: "dvbdmx_allocate_section_feed intr cb d = (r, d') \<Longrightarrow> dmx_step env (d, c) (d', c)"
| step_release_sec: "in_use d i \<Longrightarrow> dvbdmx_release_section_feed intr i d = (r, d') \<Longrightarrow>
    dmx_step env (d, c) (d', c)"
| step_sec_set: "in_use d i \<Longrightarrow> dmx_section_feed_set intr i pid n descr check d = (r, d') \<Longrightarrow>
    dmx_step env (d, c) (d', c)"
| step_alloc_filter: "in_use d i \<Longrightarrow> feed_type (dmx_feeds d ! i) = DMX_TYPE_SEC \<Longrightarrow>
    dmx_section_feed_allocate_filter intr i d = (r, d') \<Longrightarrow> dmx_step env (d, c) (d', c)"
| step_release_filter: "in_use d i \<Longrightarrow> feed_type (dmx_feeds d ! i) = DMX_TYPE_SEC \<Longrightarrow>
    dmx_section_feed_release_filter intr intr2 i j d = Returns (r, d') \<Longrightarrow> dmx_step env (d, c) (d', c)"
| step_set_filter: "d' = upd_filter j (\<lambda>f. f\<lparr>filter_value := v, filter_mask := m, filter_mode := md,
    filter_priv := pr\<rparr>) d \<Longrightarrow> dmx_step env (d, c) (d', c)"
| step_sec_start: "in_use d i \<Longrightarrow> dmx_section_feed_start_filtering env intr i d c = (r, d', c') \<Longrightarrow>
    dmx_step env (d, c) (d', c')"
| step_sec_stop: "in_use d i \<Longrightarrow> dmx_section_feed_stop_filtering env intr i d c = (r, d', c') \<Longrightarrow>
    dmx_step env (d, c) (d', c')"
| step_stream: "dvb_dmx_swfilter env buf d c = Some (d', c') \<Longrightarrow> dmx_step env (d, c) (d', c')"
| step_packet: "dvb_dmx_swfilter_packet env buf d c = Some (d', c') \<Longrightarrow> dmx_step env (d, c) (d', c')"
| step_client: "dmx_step env (d, c) (d, c')"

lemma dmx_step_wf:
  assumes "dmx_step env s s'" "dmx_wf (fst s)"
  shows "dmx_wf (fst s')"
  using assms(1)
proof (cases rule: dmx_step.cases)
  case (step_set_filter d' j v m md pr d c)
  then have "dmx_links d' = dmx_links d" by (simp add: filter_links_def)
  with links_wf show ?thesis using assms(2) step_set_filter by simp
next
  case (step_client d c c')
  with assms(2) show ?thesis by simp
qed (use assms(2) in \<open>simp, blast intro: inv_intros links_wf ts_feed_start_links ts_feed_stop_links
      section_feed_start_links section_feed_stop_links swfilter_links swfilter_packet_links\<close>)+

text \<open>The demux right after \<open>dvb_dmx_init\<close>.\<close>

lemma init_wf:
  assumes "dvb_dmx_init dmx (Some fs) (Some feeds) d0 muxs = (r, d, muxs')"
  shows "dmx_wf d"
proof -
  have "feed_list d = []" "dmx_feeds d = map (\<lambda>f. f\<lparr>feed_state := DMX_STATE_FREE\<rparr>) feeds"
    using assms by (auto simp: dvb_dmx_init_def dmx_register_demux_def Let_def)
  then show ?thesis by (auto simp: dmx_wf_def in_use_def)
qed

text \<open>
  C4: the invariant of the demux. Whatever \<open>vmalloc\<close> left in the arrays, and whatever sequence of
  interface calls and packets follows \<open>dvb_dmx_init\<close>: the feed list has no duplicates and only feeds
  in use, every section feed in use has a finite chain of filters that belong to it alone, and
  every transport stream feed in use has its filter.
\<close>

theorem demux_invariant:
  assumes "dvb_dmx_init dmx (Some fs) (Some feeds) d0 muxs = (r, d, muxs')"
    and "(dmx_step env)\<^sup>*\<^sup>* (d, c) s"
  shows "dmx_wf (fst s)"
  using assms(2)
proof (induction rule: rtranclp_induct)
  case base
  then show ?case using init_wf [OF assms(1)] by simp
next
  case (step s s')
  then show ?case by (blast intro: dmx_step_wf)
qed


section \<open>Concrete demuxes and the witness\<close>

abbreviation ex_idle :: dvb_demux where
  "ex_idle \<equiv> ex_demux\<lparr>dmx_feeds := [(ex_feed 0)\<lparr>is_filtering := False, feed_state := DMX_STATE_READY\<rparr>]\<rparr>"

abbreviation ex_hw :: "u8 list list dmx_env" where
  "ex_hw \<equiv> ex_env\<lparr>start_feed := Some (\<lambda>_ c. (Inr 0, c))\<rparr>"

lemma ex_demux_chain: "filter_chain [ex_filter] (Some 0) [0]"
  by simp

lemma ex_demux_wf: "dmx_wf ex_demux" "dmx_wf ex_idle"
  by (auto simp: dmx_wf_def in_use_def feed_wf_def owned_def less_Suc_eq intro!: exI [of _ "[0]"])

definition ex_init :: dvb_demux where
  "ex_init = fst (snd (dvb_dmx_init 7 (Some [ex_filter]) (Some [ex_feed 5]) ex_demux []))"

definition ex_started :: dvb_demux where
  "ex_started = fst (snd (dmx_section_feed_start_filtering ex_hw False 0 ex_idle []))"

lemma ex_init_run: "dvb_dmx_init 7 (Some [ex_filter]) (Some [ex_feed 5]) ex_demux [] = (Inr 0, ex_init, [(7, 0)])"
  by (simp add: ex_init_def dvb_dmx_init_def dmx_register_demux_def)

lemma ex_started_run: "dmx_section_feed_start_filtering ex_hw False 0 ex_idle [] = (Inr 0, ex_started, [])"
  by (simp add: ex_started_def dmx_section_feed_start_filtering_def Let_def)

lemma ex_started_feed: "dmx_feeds ex_started ! 0 = ex_feed 0"
  by (simp add: ex_started_def dmx_section_feed_start_filtering_def Let_def)

theorem demux_invariant_witness:
  "dmx_wf (snd (dvbdmx_allocate_section_feed False 0 ex_init))"
  using demux_invariant [OF ex_init_run, of ex_env "[]"
      "(snd (dvbdmx_allocate_section_feed False 0 ex_init), [])"]
    step_alloc_sec [of False 0 ex_init _ _ ex_env "[]", OF surjective_pairing]
  by (simp add: r_into_rtranclp)

end
