(* ===== verification/Demux_Properties.thy ===== *)
theory Demux_Properties
  imports Demux_Invariant
begin

text \<open>
  What follows from the invariant: no packet makes the demux fault, filters accept what their
  value, mask and mode bytes say, and what allocation, release and decoder slots promise.
\<close>

section \<open>Packets never leave their arrays\<close>

definition sec_lens_ok :: "dvb_demux \<Rightarrow> bool" where
  "sec_lens_ok d \<longleftrightarrow> (\<forall>i \<in> set (feed_list d). length (secbuf (dmx_feeds d ! i)) = SECBUF_SIZE
     \<and> seclen (dmx_feeds d ! i) \<le> SECBUF_SIZE)"

lemma feed_wf_chain_ok:
  "feed_wf d i \<Longrightarrow> feed_type (dmx_feeds d ! i) = DMX_TYPE_SEC \<Longrightarrow>
     chain_ok (dmx_filters d) (dmx_feeds d ! i)"
  by (auto simp: feed_wf_def chain_ok_def)

lemma ts_feed_total:
  assumes "length buf = 188" "feed_type feed \<noteq> DMX_TYPE_SEC"
  shows "\<exists>feed' c'. dvb_dmx_swfilter_packet_type env fs feed buf c = Some (feed', c')"
proof -
  have "188 - payload buf + payload buf \<le> length buf"
    using assms(1) by (simp add: payload_def)
  then show ?thesis
    using assms
    by (cases "feed_type feed")
      (auto simp: dvb_dmx_swfilter_packet_type_def dvb_dmx_swfilter_payload_def Let_def
        split: option.splits prod.splits)
qed

lemma packet_type_total:
  assumes "length buf = 188" "feed_type feed = DMX_TYPE_SEC \<Longrightarrow> sec_safe fs feed \<and> seclen feed \<le> SECBUF_SIZE"
  shows "\<exists>feed' c'. dvb_dmx_swfilter_packet_type env fs feed buf c = Some (feed', c')"
proof (cases "feed_type feed = DMX_TYPE_SEC")
  case True
  with section_packet_safe [of fs feed buf env c] assms obtain r feed' c' where
    "dvb_dmx_swfilter_section_packet env fs feed buf c = Some (r, feed', c')"
    by (auto simp: SECBUF_SIZE_def elim: safe_stepE)
  with True show ?thesis by (auto simp: dvb_dmx_swfilter_packet_type_def split: sum.splits)
qed (rule ts_feed_total [OF assms(1)])

lemma swfilter_feeds_total:
  assumes "length buf = 188" "distinct is" "\<forall>i \<in> set is. i < length (dmx_feeds d)
    \<and> (feed_type (dmx_feeds d ! i) = DMX_TYPE_SEC \<longrightarrow>
         sec_safe (dmx_filters d) (dmx_feeds d ! i) \<and> seclen (dmx_feeds d ! i) \<le> SECBUF_SIZE)"
  shows "\<exists>d' c'. swfilter_feeds env buf is d c = Some (d', c')"
  using assms(2,3)
proof (induction "is" arbitrary: d c)
  case Nil
  then show ?case by simp
next
  case (Cons i "is")
  let ?feed = "dmx_feeds d ! i"
  obtain f c0 where st: "(if feed_pid ?feed = ts_pid buf
      then dvb_dmx_swfilter_packet_type env (dmx_filters d) ?feed buf c else Some (?feed, c)) = Some (f, c0)"
  proof (cases "feed_pid ?feed = ts_pid buf")
    case True
    with packet_type_total [OF assms(1), of ?feed "dmx_filters d" env c] Cons.prems(2) that
    show thesis by auto
  qed (use that in auto)
  have "\<exists>d' c'. swfilter_feeds env buf is (d\<lparr>dmx_feeds := (dmx_feeds d)[i := f]\<rparr>) c1 = Some (d', c')" for c1
  proof (rule Cons.IH)
    show "distinct is" using Cons.prems(1) by simp
    have "dmx_feeds (d\<lparr>dmx_feeds := (dmx_feeds d)[i := f]\<rparr>) ! k = dmx_feeds d ! k" if "k \<in> set is" for k
      using that Cons.prems(1) by (auto simp: nth_update_if)
    then show "\<forall>k \<in> set is. k < length (dmx_feeds (d\<lparr>dmx_feeds := (dmx_feeds d)[i := f]\<rparr>))
      \<and> (feed_type (dmx_feeds (d\<lparr>dmx_feeds := (dmx_feeds d)[i := f]\<rparr>) ! k) = DMX_TYPE_SEC \<longrightarrow>
         sec_safe (dmx_filters (d\<lparr>dmx_feeds := (dmx_feeds d)[i := f]\<rparr>))
           (dmx_feeds (d\<lparr>dmx_feeds := (dmx_feeds d)[i := f]\<rparr>) ! k)
         \<and> seclen (dmx_feeds (d\<lparr>dmx_feeds := (dmx_feeds d)[i := f]\<rparr>) ! k) \<le> SECBUF_SIZE)"
      using Cons.prems(2) by simp
  qed
  with st Cons.prems(2) assms(1) show ?case
    by (simp only: swfilter_feeds.simps rd_in_range list.set_intros Option.bind.simps prod.case) simp
qed

text \<open>
  C5: a packet makes the demux leave its arrays only if a section feed is already waiting for a section
  of more than 4096 bytes (what happens then shows \<open>oversized_section_overflows\<close>). In every state with the
  invariant in which no feed is, any 188 bytes are processed to the end, for all feeds, inside the
  packet, the reassembly buffers of 4096 bytes and the filter chains.
\<close>

theorem packet_never_faults:
  assumes "dmx_wf d" "sec_lens_ok d" "length buf = 188"
  shows "\<exists>d' c'. dvb_dmx_swfilter_packet env buf d c = Some (d', c')"
  unfolding dvb_dmx_swfilter_packet_def
proof (rule swfilter_feeds_total [OF assms(3)])
  show "distinct (feed_list d)" by (rule dmx_wfD(1) [OF assms(1)])
  show "\<forall>i \<in> set (feed_list d). i < length (dmx_feeds d)
    \<and> (feed_type (dmx_feeds d ! i) = DMX_TYPE_SEC \<longrightarrow>
         sec_safe (dmx_filters d) (dmx_feeds d ! i) \<and> seclen (dmx_feeds d ! i) \<le> SECBUF_SIZE)"
    using assms(2) dmx_wfD(2,3) [OF assms(1)]
    by (auto simp: sec_lens_ok_def sec_safe_def feed_wf_chain_ok)
qed


section \<open>Filters mean what the client asked for\<close>

lemma fold_OR_eq_0: "fold (OR) xs a = 0 \<longleftrightarrow> a = 0 \<and> (\<forall>x \<in> set xs. x = (0 :: u8))"
  by (induction xs arbitrary: a) (auto simp: word_or_eq_0)

lemma prepare_secfilter_match: "filter_match (prepare_secfilter f) buf = filter_spec f buf"
proof -
  have "doneq (prepare_secfilter f) \<longleftrightarrow> (\<exists>i < 18. filter_mask f ! i AND NOT (filter_mode f ! i) \<noteq> 0)"
    by (auto simp: prepare_secfilter_def Let_def fold_OR_eq_0 DVB_DEMUX_MASK_MAX_def)
  moreover have "maskandmode (prepare_secfilter f) ! i = filter_mask f ! i AND filter_mode f ! i"
    "maskandnotmode (prepare_secfilter f) ! i = filter_mask f ! i AND NOT (filter_mode f ! i)" if "i < 18" for i
    using that by (simp_all add: prepare_secfilter_def Let_def DVB_DEMUX_MASK_MAX_def)
  moreover have "filter_value (prepare_secfilter f) = filter_value f"
    by (simp add: prepare_secfilter_def Let_def)
  ultimately show ?thesis
    by (simp add: filter_match_def filter_spec_def Let_def ac_simps cong: conj_cong)
qed

lemma filter_spec_prepare [simp]: "filter_spec (prepare_secfilter f) = filter_spec f"
  by (simp add: fun_eq_iff filter_spec_def prepare_secfilter_def Let_def)

lemma prepare_chain_nth:
  assumes "filter_chain fs h ids" "distinct ids" "length ids \<le> n"
  shows "prepare_chain n h fs ! k = (if k \<in> set ids then prepare_secfilter (fs ! k) else fs ! k)"
  using assms
proof (induction ids arbitrary: n h fs)
  case Nil
  then show ?case by (cases h) auto
next
  case (Cons j ids)
  then obtain m where n: "n = Suc m" "length ids \<le> m" by (cases n) auto
  from Cons.prems have h: "h = Some j" "j < length fs" "filter_chain fs (filter_next (fs ! j)) ids"
    "j \<notin> set ids" "distinct ids"
    by simp_all
  have "filter_chain (fs[j := prepare_secfilter (fs ! j)]) (filter_next (fs ! j)) ids"
    by (subst filter_chain_cong [of _ fs]) (use h in \<open>auto simp: nth_update_if\<close>)
  from Cons.IH [OF this h(5) n(2)] n(1) h show ?case by (auto simp: nth_update_if)
qed

lemma section_start_ok:
  assumes "dmx_section_feed_start_filtering env False i d c = (Inr n, d', c')"
  shows "\<not> is_filtering (dmx_feeds d ! i)" "feed_filter (dmx_feeds d ! i) \<noteq> None"
    "d' = upd_feed i (\<lambda>f. f\<lparr>is_filtering := True, feed_state := DMX_STATE_GO\<rparr>)
       (prepare_secfilters i (upd_feed i (\<lambda>f. f\<lparr>secbufp := 0, seclen := 0\<rparr>) d))"
  using assms by (auto simp: dmx_section_feed_start_filtering_def Let_def
      split: if_splits option.splits prod.splits sum.splits)

text \<open>After a successful start the chain has the masks the filters ask for.\<close>

lemma section_start_chain:
  assumes "dmx_wf d" "in_use d i" "feed_type (dmx_feeds d ! i) = DMX_TYPE_SEC"
    and "dmx_section_feed_start_filtering env False i d c = (Inr n, d', c')"
  obtains h ids where "feed_filter (dmx_feeds d' ! i) = Some h"
    "filter_chain (dmx_filters d') (Some h) ids" "distinct ids"
    "\<forall>j \<in> set ids. filter_match (dmx_filters d' ! j) = filter_spec (dmx_filters d' ! j)"
proof -
  note st = section_start_ok [OF assms(4)]
  from dmx_wfD(3) [OF assms(1,2)] assms(3) obtain ids where
    ids: "filter_chain (dmx_filters d) (feed_filter (dmx_feeds d ! i)) ids" "distinct ids"
    by (auto simp: feed_wf_def)
  obtain h where h: "feed_filter (dmx_feeds d ! i) = Some h" using st(2) by auto
  have i: "i < length (dmx_feeds d)" using assms(2) by simp
  have fs: "dmx_filters d' = prepare_chain (length (dmx_filters d)) (Some h) (dmx_filters d)"
    using h i by (simp add: st(3) prepare_secfilters_def)
  have len: "length ids \<le> length (dmx_filters d)" by (rule filter_chain_length [OF ids])
  note nth = prepare_chain_nth [OF ids(1) [unfolded h] ids(2) len]
  have "length (dmx_filters d') = length (dmx_filters d)"
    using arg_cong [OF prepare_chain_links, of length] by (simp add: fs)
  then have "filter_chain (dmx_filters d') (Some h) ids"
    by (subst filter_chain_cong [of _ "dmx_filters d"])
      (use ids(1) h in \<open>auto simp: fs nth prepare_secfilter_def Let_def\<close>)
  moreover have "\<forall>j \<in> set ids. filter_match (dmx_filters d' ! j) = filter_spec (dmx_filters d' ! j)"
    by (simp add: fs nth fun_eq_iff prepare_secfilter_match)
  moreover have "feed_filter (dmx_feeds d' ! i) = Some h"
    using h i by (simp add: st(3))
  ultimately show thesis using ids(2) that by blast
qed

lemma fold_cong_set:
  "(\<And>x y. x \<in> set xs \<Longrightarrow> f x y = g x y) \<Longrightarrow> fold f xs c = fold g xs c"
  by (induction xs arbitrary: c) auto

text \<open>
  From start to delivery. If starting a section feed succeeds and then the packets of one
  section of 18 to 4096 bytes with a good checksum arrive, the section goes, once and unchanged, to
  exactly those filters of the feed whose value, mask and mode bytes accept it (\<open>filter_spec\<close>), in
  the order of the chain.
\<close>

theorem started_feed_delivers:
  assumes "dmx_wf d" "in_use d i" "feed_type (dmx_feeds d ! i) = DMX_TYPE_SEC"
    and "length (secbuf (dmx_feeds d ! i)) = SECBUF_SIZE"
    and "dmx_section_feed_start_filtering env False i d c = (Inr n, d', c')"
    and "packetised cc sec bufs" "length sec = section_length sec" "18 \<le> length sec"
    and "length sec \<le> 4096" "crc_good env (dmx_feeds d' ! i) sec"
    and "cb_succeeds env (feed_cb (dmx_feeds d' ! i))"
  shows "\<exists>feed' h ids. feed_filter (dmx_feeds d' ! i) = Some h
    \<and> filter_chain (dmx_filters d') (Some h) ids
    \<and> swfilter_run env (dmx_filters d') bufs (dmx_feeds d' ! i) c' = Some (feed',
        fold (\<lambda>f c. if filter_spec f sec then snd (sec_cb env (feed_cb (dmx_feeds d' ! i)) sec f c) else c)
          (map ((!) (dmx_filters d')) ids) c')"
proof -
  obtain h ids where h: "feed_filter (dmx_feeds d' ! i) = Some h"
    and ids: "filter_chain (dmx_filters d') (Some h) ids" "distinct ids"
    and m: "\<forall>j \<in> set ids. filter_match (dmx_filters d' ! j) = filter_spec (dmx_filters d' ! j)"
    by (rule section_start_chain [OF assms(1-3,5)])
  have "sec_clean (dmx_feeds d' ! i)"
    using assms(2-4) section_start_ok(3) [OF assms(5)] by (simp add: sec_clean_def)
  then have "finishes env (dmx_filters d') (dmx_feeds d' ! i) sec c' (\<lambda>feed' c''. sec_clean feed'
      \<and> sec_frame (dmx_feeds d' ! i) feed'
      \<and> c'' = deliver env (feed_cb (dmx_feeds d' ! i)) sec (map ((!) (dmx_filters d')) ids) c')"
    by (intro finishes_chain) (use h ids assms in \<open>auto simp: sec_clean_def\<close>)
  from reassembly_finishes [OF assms(6) \<open>sec_clean _\<close> assms(7,9) this] obtain feed' where
    "swfilter_run env (dmx_filters d') bufs (dmx_feeds d' ! i) c' = Some (feed',
        deliver env (feed_cb (dmx_feeds d' ! i)) sec (map ((!) (dmx_filters d')) ids) c')"
    by blast
  moreover have "deliver env cb sec (map ((!) (dmx_filters d')) ids) c'
      = fold (\<lambda>f c. if filter_spec f sec then snd (sec_cb env cb sec f c) else c)
          (map ((!) (dmx_filters d')) ids) c'" for cb
    unfolding deliver_def by (rule fold_cong_set) (use m in auto)
  ultimately show ?thesis using h ids by auto
qed


section \<open>Allocation and release\<close>

text \<open>
  A failed allocation costs nothing. If \<open>dvbdmx_allocate_ts_feed\<close> fails, for lack of a feed or of
  a filter, every feed and every filter is as free or as used as before; if it succeeds, it hands
  out a feed that was free.
\<close>

theorem allocate_ts_feed_slots:
  assumes "dvbdmx_allocate_ts_feed intr cb d = (r, d')"
  shows "case r of
      Inl e \<Rightarrow> map feed_state (dmx_feeds d') = map feed_state (dmx_feeds d)
        \<and> map filter_state (dmx_filters d') = map filter_state (dmx_filters d)
    | Inr i \<Rightarrow> \<not> in_use d i \<and> i < length (dmx_feeds d) \<and> in_use d' i
        \<and> (\<forall>k. k \<noteq> i \<longrightarrow> in_use d' k = in_use d k)"
proof (cases "intr \<or> dvb_dmx_feed_alloc d = None")
  case True
  with assms show ?thesis by (auto simp: dvbdmx_allocate_ts_feed_def split: if_splits)
next
  case False
  then obtain i d1 where al: "dvb_dmx_feed_alloc d = Some (i, d1)" by auto
  note f = feed_alloc_Some [OF al]
  have same: "map feed_state (dmx_feeds (upd_feed i g d)) = map feed_state (dmx_feeds d)"
    if "feed_state (g (dmx_feeds d ! i)) = DMX_STATE_FREE" for g
    using f that by (simp add: upd_feed_def map_update list_update_same_conv)
  show ?thesis
    using assms False al f same
    by (auto simp: dvbdmx_allocate_ts_feed_def in_use_def Let_def split: option.splits
        dest!: filter_alloc_Some)
qed

lemma filter_chain_unique: "filter_chain fs h ids \<Longrightarrow> filter_chain fs h ids' \<Longrightarrow> ids' = ids"
proof (induction ids arbitrary: h ids')
  case Nil
  then show ?case by (cases h; cases ids') auto
next
  case (Cons j ids)
  then obtain ids'' where "ids' = j # ids''" "filter_chain fs (filter_next (fs ! j)) ids''"
    by (cases ids') auto
  with Cons show ?case by auto
qed

lemma find_pred_total:
  assumes "filter_chain fs h ids" "j \<in> set ids" "h \<noteq> Some j" "length ids \<le> n"
  shows "\<exists>p. find_pred n fs h j = Some p"
  using assms
proof (induction ids arbitrary: h n)
  case (Cons k ids)
  then obtain m where "n = Suc m" by (cases n) auto
  with Cons show ?case by auto
qed simp

lemma unlink_filter_chain:
  assumes "filter_chain (dmx_filters d) (feed_filter (dmx_feeds d ! i)) ids" "distinct ids"
    and "j \<in> set ids" "i < length (dmx_feeds d)"
  shows "\<exists>d'. unlink_filter i j d = Some d'
    \<and> filter_chain (dmx_filters d') (feed_filter (dmx_feeds d' ! i)) (remove1 j ids)"
proof (cases "feed_filter (dmx_feeds d ! i) = Some j")
  case True
  then obtain ids' where "ids = j # ids'" using assms(1) by (cases ids) auto
  with True assms show ?thesis by (simp add: unlink_filter_def)
next
  case False
  have "length ids \<le> length (dmx_filters d)" by (rule filter_chain_length [OF assms(1,2)])
  from find_pred_total [OF assms(1,3) False this] obtain p where
    p: "find_pred (length (dmx_filters d)) (dmx_filters d) (feed_filter (dmx_feeds d ! i)) j = Some p" ..
  from find_pred_chain [OF assms(1) False p] obtain xs ys where id: "ids = xs @ p # j # ys" by blast
  then have "remove1 j ids = xs @ p # ys" using assms(2) by (simp add: remove1_append)
  with chain_unlink [of "dmx_filters d" _ xs p j ys] assms(1,2) id p False show ?thesis
    by (simp add: unlink_filter_def upd_filter_def)
qed

text \<open>
  A filter can only be released after the feed is stopped. While the feed is filtering, the call
  on one of its filters never returns, because \<open>stop_filtering\<close> waits for the mutex the caller
  holds; once the feed is stopped the same call returns 0, the filter is free and no longer linked.
\<close>

theorem release_filter_needs_stop:
  assumes "dmx_wf d" "in_use d i" "feed_type (dmx_feeds d ! i) = DMX_TYPE_SEC"
    and "filter_chain (dmx_filters d) (feed_filter (dmx_feeds d ! i)) ids" "j \<in> set ids"
  shows "if is_filtering (dmx_feeds d ! i)
    then dmx_section_feed_release_filter False False i j d = Deadlock
    else \<exists>d'. dmx_section_feed_release_filter False False i j d = Returns (Inr 0, d')
      \<and> filter_state (dmx_filters d' ! j) = DMX_STATE_FREE
      \<and> filter_chain (dmx_filters d') (feed_filter (dmx_feeds d' ! i)) (remove1 j ids)"
proof -
  from dmx_wfD(3) [OF assms(1,2)] assms(3) obtain ids' where
    ids': "filter_chain (dmx_filters d) (feed_filter (dmx_feeds d ! i)) ids'" "distinct ids'"
      "\<forall>k \<in> set ids'. owned d DMX_TYPE_SEC i k"
    by (auto simp: feed_wf_def)
  then have ids: "distinct ids" "owned d DMX_TYPE_SEC i j"
    using filter_chain_unique [OF assms(4) ids'(1)] assms(5) by auto
  obtain d1 where d1: "unlink_filter i j d = Some d1"
    "filter_chain (dmx_filters d1) (feed_filter (dmx_feeds d1 ! i)) (remove1 j ids)"
    using unlink_filter_chain [OF assms(4) ids(1) assms(5)] assms(2) by auto
  let ?d = "upd_filter j (\<lambda>f. f\<lparr>filter_state := DMX_STATE_FREE\<rparr>) d1"
  have "filter_chain (dmx_filters ?d) (feed_filter (dmx_feeds ?d ! i)) (remove1 j ids)"
    by (subst filter_chain_cong [of _ "dmx_filters d1"])
      (use d1(2) in \<open>auto simp: upd_filter_def nth_update_if\<close>)
  moreover have "j < length (dmx_filters d1)"
    using d1(1) ids(2) by (auto simp: unlink_filter_def owned_def Let_def split: if_splits)
  ultimately show ?thesis
    using d1(1) ids(2) by (simp add: dmx_section_feed_release_filter_def owned_def)
qed

text \<open>
  a decoder has one source. \<open>dmx_ts_feed_set\<close> with \<open>TS_DECODER\<close> refuses a decoder slot that
  another feed holds and changes nothing; when it accepts, the slot belongs to the feed and the
  slot's PID is the feed's.
\<close>

theorem decoder_slot_exclusive:
  assumes "dmx_ts_feed_set intr i pid tt pt n m descr tmo d = (r, d')"
    and "tt AND TS_DECODER \<noteq> 0" "length (pesfilter d) = 20" "length (dmx_pids d) = 20"
    and "i < length (dmx_feeds d)"
  shows "case r of
      Inr _ \<Rightarrow> pesfilter d ! pt \<in> {None, Some i} \<and> pesfilter d' ! pt = Some i \<and> dmx_pids d' ! pt = pid
        \<and> feed_pid (dmx_feeds d' ! i) = pid \<and> (\<forall>q. q \<noteq> pt \<longrightarrow> pesfilter d' ! q = pesfilter d ! q)
    | Inl e \<Rightarrow> pt < 20 \<and> (\<exists>k. pesfilter d ! pt = Some k \<and> k \<noteq> i) \<longrightarrow> d' = d"
proof -
  have "pt < 20" if "r = Inr x" for x
    using assms(1,2) that by (auto simp: dmx_ts_feed_set_def DMX_TS_PES_OTHER_def Let_def split: if_splits)
  then show ?thesis
    using assms
    by (auto simp: dmx_ts_feed_set_def Let_def dvb_demux_feed_add_def upd_feed_def
        split: if_splits sum.splits)
qed

text \<open>
  releasing a feed can take a decoder slot from another one. The release looks at the \<open>ts_type\<close>
  and \<open>pes_type\<close> the feed structure holds, which an allocation does not reset; if the structure was
  used for a decoder before and was not set since, the slot of whichever feed holds it now is
  cleared.
\<close>

theorem release_clears_foreign_slot:
  assumes "in_use d i" "feed_filter (dmx_feeds d ! i) = Some j"
    and "ts_type (dmx_feeds d ! i) AND TS_DECODER \<noteq> 0" "pes_type (dmx_feeds d ! i) = pt"
    and "pt < length (pesfilter d)" "pesfilter d ! pt = Some k" "k \<noteq> i"
  shows "\<exists>d'. dvbdmx_release_ts_feed False i d = Some (Inr 0, d') \<and> pesfilter d' ! pt = None
    \<and> (in_use d k \<longrightarrow> in_use d' k)"
  using assms
  by (auto simp: dvbdmx_release_ts_feed_def in_use_def Let_def upd_feed_def)


section \<open>Witnesses\<close>

theorem packet_never_faults_witness:
  "\<exists>d' c'. dvb_dmx_swfilter_packet ex_env (replicate 188 0x47) ex_demux [] = Some (d', c')"
  by (rule packet_never_faults [OF ex_demux_wf(1)]) (simp_all add: sec_lens_ok_def SECBUF_SIZE_def)

theorem started_feed_delivers_witness:
  "\<exists>feed' h ids. feed_filter (dmx_feeds ex_started ! 0) = Some h
    \<and> filter_chain (dmx_filters ex_started) (Some h) ids
    \<and> swfilter_run ex_hw (dmx_filters ex_started) (packetise 3 ([0x42, 0x01, 0x2c] @ replicate 300 7))
        (dmx_feeds ex_started ! 0) []
      = Some (feed', fold (\<lambda>f c. if filter_spec f ([0x42, 0x01, 0x2c] @ replicate 300 7)
            then snd (sec_cb ex_hw (feed_cb (dmx_feeds ex_started ! 0)) ([0x42, 0x01, 0x2c] @ replicate 300 7) f c)
            else c) (map ((!) (dmx_filters ex_started)) ids) [])"
proof (rule started_feed_delivers [OF ex_demux_wf(2) _ _ _ ex_started_run])
  show "packetised 3 ([0x42, 0x01, 0x2c] @ replicate 300 7) (packetise 3 ([0x42, 0x01, 0x2c] @ replicate 300 7))"
    by (rule packetise_packetised) simp
qed (simp_all add: ex_started_feed in_use_def SECBUF_SIZE_def section_length_def crc_good_def cb_succeeds_def)

theorem allocate_ts_feed_slots_witness:
  "map feed_state (dmx_feeds (snd (dvbdmx_allocate_ts_feed False 0 ex_demux))) = [DMX_STATE_GO]"
  using allocate_ts_feed_slots [of False 0 ex_demux "Inl EBUSY" ex_demux]
  by (simp add: dvbdmx_allocate_ts_feed_def dvb_dmx_feed_alloc_def)

theorem release_filter_needs_stop_witness:
  "dmx_section_feed_release_filter False False 0 0 ex_demux = Deadlock
    \<and> (\<exists>d'. dmx_section_feed_release_filter False False 0 0 ex_idle = Returns (Inr 0, d'))"
  using release_filter_needs_stop [OF ex_demux_wf(1), of 0 "[0]" 0]
    release_filter_needs_stop [OF ex_demux_wf(2), of 0 "[0]" 0]
  by (auto simp: in_use_def)

theorem decoder_slot_exclusive_witness:
  "pesfilter (snd (dmx_ts_feed_set False 0 0x100 TS_DECODER 1 0 0 False 0 ex_idle)) ! 1 = Some 0"
  using decoder_slot_exclusive [where d = ex_idle and pt = 1 and i = 0 and intr = False and pid = "0x100"
      and tt = TS_DECODER and n = 0 and m = 0 and descr = False and tmo = 0, OF surjective_pairing]
  by (simp add: dmx_ts_feed_set_def DMX_MAX_PID_def DMX_TS_PES_OTHER_def TS_DECODER_def Let_def)

theorem release_clears_foreign_slot_witness:
  "\<exists>d'. dvbdmx_release_ts_feed False 0 (ex_idle\<lparr>
        dmx_feeds := [(ex_feed 0)\<lparr>ts_type := TS_DECODER, pes_type := 1\<rparr>, ex_feed 0],
        pesfilter := (replicate 20 None)[1 := Some 1]\<rparr>) = Some (Inr 0, d') \<and> pesfilter d' ! 1 = None"
  using release_clears_foreign_slot [of "ex_idle\<lparr>
        dmx_feeds := [(ex_feed 0)\<lparr>ts_type := TS_DECODER, pes_type := 1\<rparr>, ex_feed 0],
        pesfilter := (replicate 20 None)[1 := Some 1]\<rparr>" 0 0 1 1]
  by (auto simp: in_use_def TS_DECODER_def)

end
