(* ===== verification/Dmxdev_Properties.thy ===== *)
theory Dmxdev_Properties
  imports Dmxdev Demux_Properties
begin

text \<open>
  What the \<open>demux\<close> device promises to the program that reads it: reads follow the boundaries of the
  sections, a filter set by \<open>DMX_SET_FILTER\<close> accepts what its bytes say, one-shot filters deliver
  once, and a file is one filter of its own.
\<close>

section \<open>Reading sections\<close>

text \<open>
  \<open>at_section f pre cur\<close>: the reader has got \<open>pre\<close> of the section \<open>pre @ cur\<close>, and the filter
  remembers where it is.
\<close>

definition at_section :: "dmxdev_filter \<Rightarrow> u8 list \<Rightarrow> u8 list \<Rightarrow> bool" where
  "at_section f pre cur \<longleftrightarrow> length (pre @ cur) = section_length (pre @ cur) \<and> length (df_secheader f) = 3
     \<and> (if length pre < 3 then df_todo f = - int (length pre) \<and> take (length pre) (df_secheader f) = pre
        else df_todo f = int (length cur))"

lemma read_body_section:
  assumes "bf_ok (df_buffer f)" "bf_contents (df_buffer f) = cur @ rest" "cur \<noteq> []"
    and "df_todo f = int (length cur)" "\<And>k. user_ok k"
  shows "\<exists>b'. read_body user_ok nb count [] out f = Returns (Inr (min count (length cur) + length out),
      out @ take count cur, f\<lparr>df_buffer := b', df_todo := int (length (drop count cur))\<rparr>, [])
    \<and> bf_ok b' \<and> bf_contents b' = drop count cur @ rest"
proof -
  let ?n = "min count (length cur)"
  have "?n \<le> length (bf_contents (df_buffer f))" by (simp add: assms(2))
  from buffer_read_available [of "df_buffer f" user_ok ?n nb, OF assms(1,5) this] assms(2,3) obtain b' where
    b': "dvb_dmxdev_buffer_read user_ok nb ?n [] (df_buffer f)
        = Returns (Inr ?n, take ?n (cur @ rest), b', [])"
      "bf_ok b'" "bf_contents b' = drop ?n (cur @ rest)"
    by auto
  have "take ?n (cur @ rest) = take count cur" "drop ?n (cur @ rest) = drop count cur @ rest"
    by (simp_all add: min_def)
  moreover have "int (length cur) - int ?n = int (length (drop count cur))" by simp
  ultimately show ?thesis
    using b' assms(4) by (intro exI [of _ b']) (simp add: read_body_def)
qed

lemma blit_prefix:
  assumes "length hdr = 3" "take (length pre) hdr = pre" "length pre + length out \<le> 3"
  shows "take (length (pre @ out)) (blit hdr (length pre) out) = pre @ out"
    "length (blit hdr (length pre) out) = 3"
  using assms take_blit_end [of "length pre" out hdr] by simp_all

lemma section_todo:
  assumes "take 3 hdr = take 3 sec" "3 \<le> length hdr" "3 \<le> length sec" "length sec = section_length sec"
  shows "int (unat (hdr ! 1 AND 0x0f) * 256 + unat (hdr ! 2)) = int (length sec - 3)"
proof -
  have "section_length hdr = section_length sec"
    by (rule section_length_cong) (use assms in auto)
  with assms(4) show ?thesis unfolding section_length_def by linarith
qed

text \<open>
  \<open>reads_next\<close>: a read of \<open>count\<close> bytes returns the next bytes of the section and leaves the filter
  behind them. The three lemmas are the three places a read can start and end: behind the header,
  inside the header, and across its end.
\<close>

definition reads_next ::
  "(nat \<Rightarrow> bool) \<Rightarrow> (nat \<Rightarrow> bool) \<Rightarrow> bool \<Rightarrow> nat \<Rightarrow> dmxdev_filter \<Rightarrow> u8 list \<Rightarrow> u8 list \<Rightarrow> u8 list \<Rightarrow> bool" where
  "reads_next user_ok from_ok nb count f pre cur rest \<longleftrightarrow>
     (\<exists>f'. dvb_dmxdev_read_sec user_ok from_ok nb count [] f
        = Returns (Inr (min count (length cur)), take count cur, f', [])
      \<and> at_section f' (pre @ take count cur) (drop count cur)
      \<and> bf_ok (df_buffer f') \<and> bf_contents (df_buffer f') = drop count cur @ rest)"

lemma read_sec_behind_header:
  assumes "at_section f pre cur" "bf_ok (df_buffer f)" "bf_contents (df_buffer f) = cur @ rest"
    and "cur \<noteq> []" "\<forall>n. user_ok n" "\<not> length pre < 3"
  shows "reads_next user_ok from_ok nb count f pre cur rest"
proof -
  have todo: "df_todo f = int (length cur)" "length (df_secheader f) = 3"
    "length (pre @ cur) = section_length (pre @ cur)"
    using assms(1,6) by (auto simp: at_section_def)
  have pos: "\<not> df_todo f \<le> 0" using todo assms(4) by simp
  from read_body_section [OF assms(2,3,4) todo(1), of user_ok nb count "[]"] assms(5) obtain b' where
    "read_body user_ok nb count [] [] f = Returns (Inr (min count (length cur)), take count cur,
        f\<lparr>df_buffer := b', df_todo := int (length (drop count cur))\<rparr>, [])"
    "bf_ok b'" "bf_contents b' = drop count cur @ rest"
    by auto
  with pos assms(6) todo show ?thesis
    by (auto simp: dvb_dmxdev_read_sec_def at_section_def reads_next_def)
qed

lemma at_section_header:
  assumes "at_section f pre cur" "length pre < 3"
  shows "df_todo f = - int (length pre)" "take (length pre) (df_secheader f) = pre"
    "length (df_secheader f) = 3" "length (pre @ cur) = section_length (pre @ cur)"
  using assms by (auto simp: at_section_def)

text \<open>The first call of \<open>read_sec\<close> to the buffer, for at most the rest of the header.\<close>

lemma read_sec_header_bytes:
  assumes "at_section f pre cur" "bf_ok (df_buffer f)" "bf_contents (df_buffer f) = cur @ rest"
    and "3 < length (pre @ cur)" "\<forall>n. user_ok n" "length pre < 3" "h \<le> 3 - length pre"
  shows "\<exists>b1. dvb_dmxdev_buffer_read user_ok nb h [] (df_buffer f) = Returns (Inr h, take h cur, b1, []) \<and>
           bf_ok b1 \<and> bf_contents b1 = drop h cur @ rest"
    and "take (length pre + h) (blit (df_secheader f) (length pre) (take h cur)) = pre @ take h cur"
    and "length (blit (df_secheader f) (length pre) (take h cur)) = 3"
proof -
  have h: "h \<le> length cur" "cur \<noteq> []" using assms(4,6,7) by auto
  show "\<exists>b1. dvb_dmxdev_buffer_read user_ok nb h [] (df_buffer f) = Returns (Inr h, take h cur, b1, []) \<and>
      bf_ok b1 \<and> bf_contents b1 = drop h cur @ rest"
    using buffer_read_available [OF assms(2), of user_ok h nb] assms(3,5) h by auto
  show "take (length pre + h) (blit (df_secheader f) (length pre) (take h cur)) = pre @ take h cur"
    "length (blit (df_secheader f) (length pre) (take h cur)) = 3"
    using blit_prefix [OF at_section_header(3,2) [OF assms(1,6)], of "take h cur"] assms(6,7) h(1) by auto
qed

lemma read_sec_inside_header:
  assumes "at_section f pre cur" "bf_ok (df_buffer f)" "bf_contents (df_buffer f) = cur @ rest"
    and "3 < length (pre @ cur)" "0 < count" "\<forall>n. user_ok n" "\<forall>n. from_ok n"
    and short: "count < 3 - length pre"
  shows "reads_next user_ok from_ok nb count f pre cur rest"
proof -
  have pre: "length pre < 3" using short by simp
  note st = at_section_header [OF assms(1) pre]
  note hdr = read_sec_header_bytes [OF assms(1-4,6) pre, of count]
  from hdr(1) short obtain b1 where
    "dvb_dmxdev_buffer_read user_ok nb count [] (df_buffer f) = Returns (Inr count, take count cur, b1, [])"
    "bf_ok b1" "bf_contents b1 = drop count cur @ rest"
    by (metis less_imp_le)
  moreover have "nat (3 + df_todo f) = 3 - length pre" "count \<le> length cur"
    using st(1) assms(4) short by auto
  ultimately show ?thesis
    using short st hdr(2,3) assms(5,7) pre
    by (auto simp: dvb_dmxdev_read_sec_def at_section_def min_def Let_def reads_next_def)
qed

lemma take_drop_split:
  assumes "h \<le> count" "h \<le> length cur"
  shows "take h cur @ take (count - h) (drop h cur) = take count cur"
    "drop (count - h) (drop h cur) = drop count cur"
    "min (count - h) (length cur - h) + h = min count (length cur)"
  using assms by (metis take_add le_add_diff_inverse, simp, linarith)

lemma read_sec_across_header:
  assumes "at_section f pre cur" "bf_ok (df_buffer f)" "bf_contents (df_buffer f) = cur @ rest"
    and "3 < length (pre @ cur)" "\<forall>n. user_ok n" "\<forall>n. from_ok n"
    and pre: "length pre < 3" and long: "\<not> count < 3 - length pre"
  shows "reads_next user_ok from_ok nb count f pre cur rest"
proof -
  note st = at_section_header [OF assms(1) pre]
  define h where "h = 3 - length pre"
  have hh: "h = min (3 - length pre) count" "length pre + h = 3" "h \<le> count" "h \<le> length cur"
    "nat (3 + df_todo f) = 3 - length pre" "0 < h" "drop h cur \<noteq> []"
    using pre long st(1) assms(4) by (auto simp: h_def)
  note hdr = read_sec_header_bytes [OF assms(1-5) pre, of h]
  let ?hdr = "blit (df_secheader f) (length pre) (take h cur)"
  from hdr(1) obtain b1 where
    b1: "dvb_dmxdev_buffer_read user_ok nb h [] (df_buffer f) = Returns (Inr h, take h cur, b1, [])"
      "bf_ok b1" "bf_contents b1 = drop h cur @ rest"
    by (metis h_def order_refl)
  have "take 3 ?hdr = take 3 (pre @ cur)" using hdr(2) hh pre by (simp add: h_def)
  then have todo: "int (unat (?hdr ! 1 AND 0x0f) * 256 + unat (?hdr ! 2)) = int (length (drop h cur))"
    using section_todo [of ?hdr "pre @ cur"] hdr(3) assms(4) st(4) hh by (simp add: h_def)
  let ?f = "f\<lparr>df_buffer := b1, df_secheader := ?hdr, df_todo := int (length (drop h cur))\<rparr>"
  have red: "dvb_dmxdev_read_sec user_ok from_ok nb count [] f =
    (if count - h = 0 then Returns (Inr h, take h cur, ?f, [])
     else read_body user_ok nb (count - h) [] (take h cur) ?f)"
    using st(1) hh(5,6) b1(1) assms(6) todo hh(2)
    unfolding dvb_dmxdev_read_sec_def hh(1) [symmetric] by (simp add: Let_def hh(1) [symmetric])
  from read_body_section [of ?f "drop h cur" rest user_ok nb "count - h" "take h cur"] b1 assms(5) hh(7)
  obtain b' where "read_body user_ok nb (count - h) [] (take h cur) ?f
      = Returns (Inr (min count (length cur)), take count cur,
          ?f\<lparr>df_buffer := b', df_todo := int (length (drop count cur))\<rparr>, [])"
    "bf_ok b'" "bf_contents b' = drop count cur @ rest"
    using hh(4) take_drop_split [OF hh(3,4)] by auto
  with red b1 st hdr(3) hh show ?thesis
    by (cases "count = h") (auto simp: at_section_def min_def reads_next_def h_def)
qed

lemma read_sec_next:
  assumes "at_section f pre cur" "bf_ok (df_buffer f)" "bf_contents (df_buffer f) = cur @ rest"
    and "cur \<noteq> []" "3 < length (pre @ cur)" "0 < count" "\<forall>n. user_ok n" "\<forall>n. from_ok n"
  shows "reads_next user_ok from_ok nb count f pre cur rest"
proof -
  consider "\<not> length pre < 3" | "count < 3 - length pre" | "length pre < 3" "\<not> count < 3 - length pre"
    by blast
  then show ?thesis
    using read_sec_behind_header [OF assms(1-4,7)] read_sec_inside_header [OF assms(1-3,5-8)]
      read_sec_across_header [OF assms(1-3,5,7,8)]
    by cases blast+
qed

text \<open>
  C7: reads never cross the end of a section. If the unread part \<open>cur\<close> of a section longer than its
  header is in the buffer, a read of \<open>count\<close> bytes returns the next \<open>min count (length cur)\<close> bytes of
  that section and leaves the filter at the place behind them, wherever in the section, header
  included, earlier reads stopped.
\<close>

theorem read_sec_keeps_boundaries:
  assumes "at_section f pre cur" "bf_ok (df_buffer f)" "bf_contents (df_buffer f) = cur @ rest"
    and "cur \<noteq> []" "3 < length (pre @ cur)" "0 < count" "\<forall>n. user_ok n" "\<forall>n. from_ok n"
  shows "\<exists>f'. dvb_dmxdev_read_sec user_ok from_ok nb count [] f
      = Returns (Inr (min count (length cur)), take count cur, f', [])
    \<and> at_section f' (pre @ take count cur) (drop count cur)
    \<and> bf_ok (df_buffer f') \<and> bf_contents (df_buffer f') = drop count cur @ rest"
  using read_sec_next [OF assms] unfolding reads_next_def .


text \<open>
  the shortest sections are lost. A section that is only a header (length field 0) with nothing
  behind it in the buffer: a non-blocking read of more than three bytes consumes the header, then
  finds the buffer empty and returns \<open>-EWOULDBLOCK\<close>, so that the reader never learns of the section.
\<close>

theorem read_sec_loses_empty_section:
  assumes "bf_ok (df_buffer f)" "bf_contents (df_buffer f) = sec" "length sec = 3"
    and "section_length sec = 3" "df_todo f = 0" "length (df_secheader f) = 3" "3 < count"
    and "\<forall>n. user_ok n" "\<forall>n. from_ok n"
  shows "\<exists>out f'. dvb_dmxdev_read_sec user_ok from_ok True count [] f = Returns (Inl EWOULDBLOCK, out, f', [])
    \<and> bf_contents (df_buffer f') = [] \<and> df_todo f' = 0"
proof -
  have "sec \<noteq> []" using assms(3) by auto
  with buffer_read_available [OF assms(1), of user_ok 3 True] assms(2,3,8) obtain b1 where
    b1: "dvb_dmxdev_buffer_read user_ok True 3 [] (df_buffer f) = Returns (Inr 3, sec, b1, [])"
      "bf_ok b1" "bf_contents b1 = []"
    by auto
  have hdr: "blit (df_secheader f) 0 sec = sec" using assms(3,6) by (simp add: blit_def)
  have todo: "int (unat (sec ! 1 AND 0x0f) * 256 + unat (sec ! 2)) = 0"
    using assms(4) by (simp add: section_length_def)
  show ?thesis
    using assms(5,7,9) b1 hdr todo buffer_read_empty [OF b1(2,3), of user_ok 0 "[]"]
    by (auto simp: dvb_dmxdev_read_sec_def read_body_def Let_def min_def)
qed


section \<open>Section filters from the user's point of view\<close>

text \<open>
  Byte \<open>i\<close> of a user's filter looks at byte 0 of the section for \<open>i = 0\<close> and at byte \<open>i + 2\<close> otherwise.
  Where the mode bit is 0 the masked bits must be equal; if there are masked bits with mode bit 1,
  at least one of them must differ.
\<close>

definition filter_pos :: "nat \<Rightarrow> nat" where
  "filter_pos i = (if i = 0 then 0 else i + 2)"

definition user_accepts :: "dmx_filter_t \<Rightarrow> u8 list \<Rightarrow> bool" where
  "user_accepts fl sec \<longleftrightarrow>
     (let diff = (\<lambda>i. fl_mask fl ! i AND (fl_filter fl ! i XOR sec ! filter_pos i)) in
      (\<forall>i < 16. diff i AND NOT (fl_mode fl ! i) = 0)
      \<and> ((\<exists>i < 16. fl_mask fl ! i AND fl_mode fl ! i \<noteq> 0) \<longrightarrow>
           (\<exists>i < 16. diff i AND fl_mode fl ! i \<noteq> 0)))"

lemma ex_less_18: "(\<exists>i < (18 :: nat). P i) \<longleftrightarrow> P 1 \<or> P 2 \<or> (\<exists>i < 16. P (filter_pos i))"
proof
  assume "\<exists>i < 18. P i"
  then obtain i where i: "i < 18" "P i" by blast
  show "P 1 \<or> P 2 \<or> (\<exists>i < 16. P (filter_pos i))"
  proof (cases "i = 0 \<or> 2 < i")
    case True
    then have "filter_pos (if i = 0 then 0 else i - 2) = i" "(if i = 0 then 0 else i - 2) < 16"
      using i(1) by (auto simp: filter_pos_def)
    then show ?thesis using i(2) by metis
  next
    case False
    then have "i = 1 \<or> i = 2" by linarith
    then show ?thesis using i(2) by auto
  qed
next
  assume "P 1 \<or> P 2 \<or> (\<exists>i < 16. P (filter_pos i))"
  then show "\<exists>i < 18. P i"
  proof (elim disjE exE conjE)
    fix i assume "i < (16 :: nat)" "P (filter_pos i)"
    then show ?thesis by (intro exI [of _ "filter_pos i"]) (auto simp: filter_pos_def)
  next
    assume "P 1"
    then show ?thesis by (intro exI [of _ 1]) simp
  next
    assume "P 2"
    then show ?thesis by (intro exI [of _ 2]) simp
  qed
qed

lemma all_less_18: "(\<forall>i < (18 :: nat). P i) \<longleftrightarrow> P 1 \<and> P 2 \<and> (\<forall>i < 16. P (filter_pos i))"
  using ex_less_18 [of "\<lambda>i. \<not> P i"] by blast

lemma fill_filter_nth:
  assumes "length old = 18" "length new = 16" "i < 16"
  shows "((blit old 3 (take 15 (drop 1 new)))[0 := new ! 0]) ! filter_pos i = new ! i"
  using assms by (auto simp: filter_pos_def nth_blit nth_list_update)

lemma xor_ff: "x XOR 0xff = NOT x" for x :: u8
proof -
  have "(0xff :: u8) = - 1" by simp
  then show ?thesis by (simp only: bit.xor_one_right)
qed

lemma installed_filter_match:
  assumes "length (fl_filter fl) = 16" "length (fl_mask fl) = 16" "length (fl_mode fl) = 16"
    and "length (filter_value f) = 18" "length (filter_mask f) = 18" "length (filter_mode f) = 18"
  shows "filter_match (prepare_secfilter (fill_filter k (invert_mode fl) f)) sec \<longleftrightarrow> user_accepts fl sec"
proof -
  let ?f = "fill_filter k (invert_mode fl) f"
  have v: "filter_value ?f ! filter_pos i = fl_filter fl ! i" if "i < 16" for i
    using that fill_filter_nth [OF assms(4,1) that] by (simp add: fill_filter_def DMX_FILTER_SIZE_def invert_mode_def)
  have o: "filter_mode ?f ! filter_pos i = NOT (fl_mode fl ! i)" if "i < 16" for i
    using that fill_filter_nth [of "filter_mode f" "map (\<lambda>b. b XOR 0xff) (fl_mode fl)" i] assms(3,6)
    by (simp add: fill_filter_def DMX_FILTER_SIZE_def invert_mode_def xor_ff)
  have m: "filter_mask ?f ! filter_pos i = fl_mask fl ! i" if "i < 16" for i
    using that fill_filter_nth [OF assms(5,2) that]
    by (auto simp: fill_filter_def DMX_FILTER_SIZE_def invert_mode_def nth_update_if filter_pos_def)
  have "length (blit (filter_mask f) 3 (take 15 (drop 1 (fl_mask fl)))) = 18"
    using assms(2,5) by simp
  then have z: "filter_mask ?f ! Suc 0 = 0" "filter_mask ?f ! 2 = 0"
    by (simp_all add: fill_filter_def DMX_FILTER_SIZE_def invert_mode_def)
  show ?thesis
    unfolding prepare_secfilter_match filter_spec_def user_accepts_def Let_def ex_less_18 all_less_18
    by (simp add: z v o m and.assoc cong: conj_cong)
qed

text \<open>
  C6: a filter means what its bytes say. The filter that \<open>DMX_SET_FILTER\<close> and the start of the feed
  install in the demux, with the mode bytes inverted and the bytes spread around the length field,
  accepts exactly the sections the user's filter, mask and mode bytes accept.
\<close>

theorem set_filter_meaning:
  assumes "length (fl_filter fl) = 16" "length (fl_mask fl) = 16" "length (fl_mode fl) = 16"
    and "length (filter_value f) = 18" "length (filter_mask f) = 18" "length (filter_mode f) = 18"
  shows "filter_match (prepare_secfilter (fill_filter k (invert_mode fl) f)) sec \<longleftrightarrow> user_accepts fl sec"
  by (rule installed_filter_match [OF assms])


section \<open>Callbacks and states\<close>

lemma upd_dev_simps [simp]:
  "length (dd_filters (upd_dev k g m)) = length (dd_filters m)"
  "k < length (dd_filters m) \<Longrightarrow>
     dd_filters (upd_dev k g m) ! n = (if n = k then g (dd_filters m ! k) else dd_filters m ! n)"
  "dd_dvr_buffer (upd_dev k g m) = dd_dvr_buffer m" "dd_present (upd_dev k g m) = dd_present m"
  by (auto simp: upd_dev_def nth_update_if)

lemma upd_df_simps [simp]:
  "s_dmx (upd_df k g s) = s_dmx s" "s_hw (upd_df k g s) = s_hw s"
  "s_dev (upd_df k g s) = upd_dev k g (s_dev s)"
  by (simp_all add: upd_df_def)

lemma callback_write_effect:
  assumes "bf_ok b"
  shows "if length (bf_contents b) + length sec < bf_size b
    then bf_ok (callback_write sec b) \<and> bf_contents (callback_write sec b) = bf_contents b @ sec
    else bf_error (callback_write sec b) = Some EOVERFLOW \<and> bf_contents (callback_write sec b) = []"
proof (cases "length (bf_contents b) + length sec < bf_size b")
  case True
  then have "length sec \<le> bf_room b" by (simp add: bf_room_def)
  from buffer_write_fits [OF _ this] True assms show ?thesis
    by (auto simp: callback_write_def bf_ok_def)
next
  case False
  have wf: "bf_wf b" using assms by (simp add: bf_ok_def)
  have "bf_room b < length sec" using False bf_contents_less [OF wf] by (simp add: bf_room_def)
  from buffer_write_full [OF wf this] False wf show ?thesis
    by (auto simp: callback_write_def bf_contents_def split: option.splits)
qed

text \<open>
  What a section callback does to a running filter. If the section fits it is appended to the
  buffer; if not, the buffer is emptied and the error for the reader is \<open>EOVERFLOW\<close>. A one-shot
  filter is done afterwards and takes no further section; other filters are not touched.
\<close>

theorem section_callback_effect:
  assumes "k < length (dd_filters m)" "df_state (dd_filters m ! k) = DMXDEV_STATE_GO"
    and "bf_ok (df_buffer (dd_filters m ! k))"
    and "dvb_dmxdev_section_callback k sec m = (r, m')"
  shows "r = Inr 0
    \<and> (if length (bf_contents (df_buffer (dd_filters m ! k))) + length sec
          < bf_size (df_buffer (dd_filters m ! k))
       then bf_ok (df_buffer (dd_filters m' ! k))
         \<and> bf_contents (df_buffer (dd_filters m' ! k)) = bf_contents (df_buffer (dd_filters m ! k)) @ sec
       else bf_error (df_buffer (dd_filters m' ! k)) = Some EOVERFLOW
         \<and> bf_contents (df_buffer (dd_filters m' ! k)) = [])
    \<and> (sct_flags (df_sec (dd_filters m ! k)) AND DMX_ONESHOT \<noteq> 0 \<longrightarrow>
         df_state (dd_filters m' ! k) = DMXDEV_STATE_DONE
         \<and> dvb_dmxdev_section_callback k sec2 m' = (Inr 0, m'))
    \<and> (\<forall>n. n \<noteq> k \<longrightarrow> dd_filters m' ! n = dd_filters m ! n)"
proof -
  let ?f = "dd_filters m ! k"
  let ?b = "df_buffer ?f"
  let ?fits = "length (bf_contents ?b) + length sec < bf_size ?b"
  have wf: "bf_wf ?b" "bf_error ?b = None" using assms(3) by (simp_all add: bf_ok_def)
  note cw = callback_write_effect [OF assms(3), of sec]
  let ?g = "(\<lambda>f. if sct_flags (df_sec f) AND DMX_ONESHOT \<noteq> 0 then f\<lparr>df_state := DMXDEV_STATE_DONE\<rparr> else f)
    (?f\<lparr>df_timer := None, df_buffer := callback_write sec ?b\<rparr>)"
  have m': "m' = upd_dev k (\<lambda>_. ?g) m" "r = Inr 0"
    using assms(2,4) wf(2) by (auto simp: dvb_dmxdev_section_callback_def Let_def)
  have "dvb_dmxdev_section_callback k sec2 m' = (Inr 0, m')"
    if "df_state (dd_filters m' ! k) = DMXDEV_STATE_DONE"
    using that by (simp add: dvb_dmxdev_section_callback_def Let_def)
  moreover have "df_buffer (dd_filters m' ! k) = callback_write sec ?b"
    "sct_flags (df_sec ?f) AND DMX_ONESHOT \<noteq> 0 \<Longrightarrow> df_state (dd_filters m' ! k) = DMXDEV_STATE_DONE"
    "\<forall>n. n \<noteq> k \<longrightarrow> dd_filters m' ! n = dd_filters m ! n"
    using assms(1) by (simp_all add: m'(1))
  ultimately show ?thesis using cw m'(2) by simp
qed

text \<open>
  one filter per file. \<open>dvb_demux_open\<close> hands out a filter that was free, with an empty buffer and
  no type, and changes no other filter; it fails with \<open>EMFILE\<close> only if no filter is free.
\<close>

theorem demux_open_exclusive:
  assumes "dd_present (s_dev s)"
  shows "case dvb_demux_open False s of
      (Inr k, s') \<Rightarrow> k < length (dd_filters (s_dev s)) \<and> df_state (df k s) = DMXDEV_STATE_FREE
        \<and> df_state (df k s') = DMXDEV_STATE_ALLOCATED \<and> df_type (df k s') = DMXDEV_TYPE_NONE
        \<and> bf_contents (df_buffer (df k s')) = [] \<and> s_dmx s' = s_dmx s
        \<and> (\<forall>n. n \<noteq> k \<longrightarrow> df n s' = df n s)
    | (Inl e, s') \<Rightarrow> e = EMFILE \<and> s' = s
        \<and> (\<forall>k < length (dd_filters (s_dev s)). df_state (df k s) \<noteq> DMXDEV_STATE_FREE)"
proof (cases "first_index (\<lambda>f. df_state f = DMXDEV_STATE_FREE) (dd_filters (s_dev s))")
  case None
  moreover from this have "\<forall>f \<in> set (dd_filters (s_dev s)). df_state f \<noteq> DMXDEV_STATE_FREE"
    by (simp add: first_index_None)
  ultimately show ?thesis using assms by (simp add: dvb_demux_open_def)
next
  case (Some k)
  with first_index_Some [OF this] assms show ?thesis
    by (auto simp: dvb_demux_open_def bf_contents_def dvb_dmxdev_buffer_init_def)
qed

text \<open>
  a resize never pulls memory from under a running filter. \<open>DMX_SET_BUFFER_SIZE\<close> on a filter that
  has been started fails with \<open>EBUSY\<close> and changes nothing, unless the size is the present one;
  otherwise the buffer afterwards is empty and well-formed, or without memory after \<open>ENOMEM\<close>.
\<close>

theorem set_buffer_size_safe:
  assumes "k < length (dd_filters (s_dev s))" "dvb_dmxdev_set_buffer_size vmalloc k n s = (r, s')"
    and "\<forall>m mem. vmalloc m = Some mem \<longrightarrow> length mem = m" "bf_size (df_buffer (df k s)) \<noteq> n" "0 < n"
  shows "if df_state (df k s) \<ge> DMXDEV_STATE_GO then r = Inl EBUSY \<and> s' = s
    else case r of
        Inr _ \<Rightarrow> bf_wf (df_buffer (df k s')) \<and> bf_contents (df_buffer (df k s')) = []
          \<and> bf_size (df_buffer (df k s')) = n
      | Inl e \<Rightarrow> e = ENOMEM \<and> bf_data (df_buffer (df k s')) = None"
  using assms
  by (auto simp: dvb_dmxdev_set_buffer_size_def Let_def bf_wf_def bf_contents_def
      split: if_splits option.splits)

text \<open>Starting and stopping a feed reaches the hardware, not the device.\<close>

lemma start_keeps_dev:
  "\<exists>r d' h'. dmx_section_feed_start_filtering (dmxdev_env hw) intr e d (m, h) = (r, d', (m, h'))"
  by (auto simp: dmx_section_feed_start_filtering_def dmxdev_env_def lift_hw_def Let_def
      split: option.splits prod.splits sum.splits)

text \<open>
  a finished one-shot filter can come back. When another filter on the same PID is stopped,
  \<open>dvb_dmxdev_feed_restart\<close> restarts the feed through the first filter of that PID whose state is at
  least \<open>GO\<close>, and that sets its state to \<open>GO\<close> again even if it was done or timed out: it will accept
  another section.
\<close>

theorem restart_revives_done_filter:
  assumes "first_index (running_on (sct_pid (df_sec (df k s)))) (dd_filters (s_dev s)) = Some i"
    and "df_state (df i s) \<in> {DMXDEV_STATE_DONE, DMXDEV_STATE_TIMEDOUT}" "df_feed (df i s) = Some e"
  shows "\<exists>s'. dvb_dmxdev_feed_restart hw intr k s = Some (Inr 0, s') \<and> df_state (df i s') = DMXDEV_STATE_GO"
proof -
  have i: "i < length (dd_filters (s_dev s))" "df_type (df i s) = DMXDEV_TYPE_SEC"
    using first_index_Some [OF assms(1)] by (auto simp: running_on_def)
  obtain r d' h' where st: "dmx_section_feed_start_filtering (dmxdev_env hw) intr e (s_dmx s)
      (upd_dev i (\<lambda>f. f\<lparr>df_state := DMXDEV_STATE_GO\<rparr>) (s_dev s), s_hw s)
      = (r, d', (upd_dev i (\<lambda>f. f\<lparr>df_state := DMXDEV_STATE_GO\<rparr>) (s_dev s), h'))"
    using start_keeps_dev [of hw intr e "s_dmx s"
        "upd_dev i (\<lambda>f. f\<lparr>df_state := DMXDEV_STATE_GO\<rparr>) (s_dev s)" "s_hw s"] by blast
  have "dvb_dmxdev_feed_start hw intr i s = Some (r, \<lparr>s_dev =
      upd_dev i (\<lambda>f. f\<lparr>df_state := DMXDEV_STATE_GO\<rparr>) (s_dev s), s_dmx = d', s_hw = h'\<rparr>)"
    using i assms(3) st by (simp add: dvb_dmxdev_feed_start_def set_state_def call_hw_def Let_def)
  with assms(1) i show ?thesis by (simp add: dvb_dmxdev_feed_restart_def)
qed


section \<open>Witnesses\<close>

abbreviation ex_params :: "u32 \<Rightarrow> dmx_sct_filter_params" where
  "ex_params flags \<equiv> \<lparr>sct_pid = 0x11, sct_filter = \<lparr>fl_filter = 0x42 # replicate 15 0,
     fl_mask = 0xff # replicate 15 0, fl_mode = replicate 16 0\<rparr>, sct_timeout = 0, sct_flags = flags\<rparr>"

text \<open>A section filter with a memory of eight bytes whose first \<open>n\<close> bytes are unread.\<close>

abbreviation ex_df :: "dmxdev_state \<Rightarrow> u8 list \<Rightarrow> nat \<Rightarrow> dmxdev_filter" where
  "ex_df st mem n \<equiv> \<lparr>df_filter = Some 0, df_feed = Some 0, df_sec = ex_params DMX_ONESHOT,
     df_pes = \<lparr>pes_pid = 0, pes_output = DMX_OUT_TAP, pes_pes_type = 20, pes_flags = 0\<rparr>,
     df_type = DMXDEV_TYPE_SEC, df_state = st,
     df_buffer = \<lparr>bf_data = Some mem, bf_size = 8, bf_pread = 0, bf_pwrite = n, bf_error = None\<rparr>,
     df_timer = None, df_todo = 0, df_secheader = [0, 0, 0], df_pid = 0x11\<rparr>"

abbreviation ex_dev :: "dmxdev_filter list \<Rightarrow> dmxdev" where
  "ex_dev fs \<equiv> \<lparr>dd_present = True, dd_filters = fs, dd_dvr = [], dd_duplex = False,
     dd_dvr_orig_fe = None, dd_dvr_buffer = dvb_dmxdev_buffer_init\<rparr>"

abbreviation ex_sys :: "dmxdev_filter list \<Rightarrow> unit sys" where
  "ex_sys fs \<equiv> \<lparr>s_dev = ex_dev fs, s_dmx = ex_demux, s_hw = ()\<rparr>"

abbreviation ex_dhw :: "unit dmxdev_hw" where
  "ex_dhw \<equiv> \<lparr>hw_start = Some (\<lambda>_ h. (Inr 0, h)), hw_stop = Some (\<lambda>_ h. (Inr 0, h)), hw_decoder = None,
     hw_crc = (\<lambda>c _. c), hw_hz = 100\<rparr>"

lemma ex_df_ok: "length mem = 8 \<Longrightarrow> n < 8 \<Longrightarrow> bf_ok (df_buffer (ex_df st mem n))"
  by (simp add: bf_ok_def bf_wf_def)

lemma ex_df_contents:
  "length mem = 8 \<Longrightarrow> n < 8 \<Longrightarrow> bf_contents (df_buffer (ex_df st mem n)) = take n mem"
  by (rule nth_equalityI)
    (auto simp: bf_contents_def ring_contents_def ring_dist_def)

theorem read_sec_keeps_boundaries_witness:
  "\<exists>f'. dvb_dmxdev_read_sec (\<lambda>_. True) (\<lambda>_. True) True 2 []
        (ex_df DMXDEV_STATE_GO [0x42, 0, 2, 7, 8, 9, 0, 0] 6)
      = Returns (Inr (min 2 (length [0x42, 0, 2, 7, 8 :: u8])), take 2 [0x42, 0, 2, 7, 8], f', [])
    \<and> at_section f' ([] @ take 2 [0x42, 0, 2, 7, 8]) (drop 2 [0x42, 0, 2, 7, 8])
    \<and> bf_ok (df_buffer f') \<and> bf_contents (df_buffer f') = drop 2 [0x42, 0, 2, 7, 8] @ [9]"
  by (rule read_sec_keeps_boundaries [OF _ ex_df_ok])
    (simp_all add: at_section_def section_length_def
      ex_df_contents [of "[0x42, 0, 2, 7, 8, 9, 0, 0]" 6 DMXDEV_STATE_GO, simplified])

theorem read_sec_loses_empty_section_witness:
  "\<exists>out f'. dvb_dmxdev_read_sec (\<lambda>_. True) (\<lambda>_. True) True 4096 []
        (ex_df DMXDEV_STATE_GO [0x42, 0, 0, 7, 8, 9, 0, 0] 3)
      = Returns (Inl EWOULDBLOCK, out, f', []) \<and> bf_contents (df_buffer f') = [] \<and> df_todo f' = 0"
  by (rule read_sec_loses_empty_section [OF ex_df_ok, of _ _ _ "[0x42, 0, 0]"])
    (simp_all add: section_length_def
      ex_df_contents [of "[0x42, 0, 0, 7, 8, 9, 0, 0]" 3 DMXDEV_STATE_GO, simplified])

theorem set_filter_meaning_witness:
  "filter_match (prepare_secfilter (fill_filter 0 (invert_mode (sct_filter (ex_params 0))) ex_filter))
      (0x42 # replicate 17 1) \<longleftrightarrow> user_accepts (sct_filter (ex_params 0)) (0x42 # replicate 17 1)"
  by (rule set_filter_meaning) simp_all

theorem section_callback_effect_witness:
  "df_state (dd_filters (snd (dvb_dmxdev_section_callback 0 [0x42, 0, 0]
      (ex_dev [ex_df DMXDEV_STATE_GO (replicate 8 0) 0]))) ! 0) = DMXDEV_STATE_DONE"
  using section_callback_effect [of 0 "ex_dev [ex_df DMXDEV_STATE_GO (replicate 8 0) 0]" "[0x42, 0, 0]",
      OF _ _ _ surjective_pairing]
  by (simp add: bf_ok_def bf_wf_def DMX_ONESHOT_def)

theorem demux_open_exclusive_witness:
  "df_state (df 1 (snd (dvb_demux_open False (ex_sys [ex_df DMXDEV_STATE_GO (replicate 8 0) 0,
      ex_df DMXDEV_STATE_FREE (replicate 8 0) 0])))) = DMXDEV_STATE_ALLOCATED"
  using demux_open_exclusive [of "ex_sys [ex_df DMXDEV_STATE_GO (replicate 8 0) 0,
      ex_df DMXDEV_STATE_FREE (replicate 8 0) 0]"]
  by (simp add: dvb_demux_open_def)

theorem set_buffer_size_safe_witness:
  "dvb_dmxdev_set_buffer_size (\<lambda>n. Some (replicate n 0)) 0 16
      (ex_sys [ex_df DMXDEV_STATE_GO (replicate 8 0) 0])
    = (Inl EBUSY, ex_sys [ex_df DMXDEV_STATE_GO (replicate 8 0) 0])"
  using set_buffer_size_safe [of 0 "ex_sys [ex_df DMXDEV_STATE_GO (replicate 8 0) 0]"
      "\<lambda>n. Some (replicate n 0)" 16, OF _ surjective_pairing]
  by (simp add: prod_eq_iff)

theorem restart_revives_done_filter_witness:
  "\<exists>s'. dvb_dmxdev_feed_restart ex_dhw False 1 (ex_sys [ex_df DMXDEV_STATE_DONE (replicate 8 0) 0,
        ex_df DMXDEV_STATE_SET (replicate 8 0) 0]) = Some (Inr 0, s')
    \<and> df_state (df 0 s') = DMXDEV_STATE_GO"
  by (rule restart_revives_done_filter [where e = 0])
    (simp_all add: running_on_def dmxdev_state_order)

end
