(* ===== verification/Section_Path.thy ===== *)
theory Section_Path
  imports Dmxdev_Properties
begin

text \<open>
  The way of a section through the components: transport packets, the reassembly of the demux, the
  filter the device installed for the application, the callback into the buffer of the device, and
  the \<open>read\<close> of the application. \<open>dmxdev_env\<close> is what connects them: the callbacks of the demux are
  those of the device.
\<close>

section \<open>The device as a client of the demux\<close>

lemma dmxdev_cb_succeeds: "cb_succeeds (dmxdev_env hw) cb"
  by (auto simp: cb_succeeds_def dmxdev_env_def dvb_dmxdev_section_callback_def Let_def split_beta
      split: option.split bool.split)

lemma dmxdev_section_cb:
  "sec_cb (dmxdev_env hw) CB_SECTION sec f (m, h) =
     (case filter_priv f of None \<Rightarrow> (Inr 0, (m, h))
      | Some k \<Rightarrow> (Inr 0, (snd (dvb_dmxdev_section_callback k sec m), h)))"
  by (simp add: dmxdev_env_def dvb_dmxdev_section_callback_def Let_def split: option.split)

lemma section_callback_other:
  "n \<noteq> k \<Longrightarrow> dd_filters (snd (dvb_dmxdev_section_callback k sec m)) ! n = dd_filters m ! n"
  "length (dd_filters (snd (dvb_dmxdev_section_callback k sec m))) = length (dd_filters m)"
  by (simp_all add: dvb_dmxdev_section_callback_def upd_dev_def Let_def)

text \<open>Filters of other readers leave this reader's state alone.\<close>

lemma deliver_other:
  assumes "\<forall>f \<in> set flts. filter_priv f \<noteq> Some k"
  shows "\<exists>m'. deliver (dmxdev_env hw) CB_SECTION sec flts (m, h) = (m', h) \<and>
    dd_filters m' ! k = dd_filters m ! k \<and> length (dd_filters m') = length (dd_filters m)"
  using assms
proof (induction flts arbitrary: m)
  case Nil
  then show ?case by (simp add: deliver_def)
next
  case (Cons f flts)
  define m1 where "m1 = fst (if filter_match f sec then snd (sec_cb (dmxdev_env hw) CB_SECTION sec f (m, h)) else (m, h))"
  have m1: "(if filter_match f sec then snd (sec_cb (dmxdev_env hw) CB_SECTION sec f (m, h)) else (m, h)) = (m1, h)"
    "dd_filters m1 ! k = dd_filters m ! k" "length (dd_filters m1) = length (dd_filters m)"
    using Cons.prems by (auto simp: m1_def dmxdev_section_cb section_callback_other split: option.split)
  obtain m' where "deliver (dmxdev_env hw) CB_SECTION sec flts (m1, h) = (m', h)"
    "dd_filters m' ! k = dd_filters m1 ! k" "length (dd_filters m') = length (dd_filters m1)"
    using Cons by auto
  with m1 show ?case by (auto simp: deliver_def)
qed

lemma deliver_one:
  assumes "j \<in> set ids" "distinct ids" "\<forall>i \<in> set ids. filter_priv (fs ! i) = Some k \<longrightarrow> i = j"
    and "filter_priv (fs ! j) = Some k"
  shows "\<exists>m1 m'. deliver (dmxdev_env hw) CB_SECTION sec (map ((!) fs) ids) (m, h) = (m', h) \<and>
    dd_filters m1 ! k = dd_filters m ! k \<and> length (dd_filters m1) = length (dd_filters m) \<and>
    dd_filters m' ! k =
      (if filter_match (fs ! j) sec then dd_filters (snd (dvb_dmxdev_section_callback k sec m1)) ! k
       else dd_filters m ! k)"
proof -
  obtain xs ys where ids: "ids = xs @ j # ys" using split_list [OF assms(1)] by blast
  have none: "\<forall>f \<in> set (map ((!) fs) xs). filter_priv f \<noteq> Some k" "\<forall>f \<in> set (map ((!) fs) ys). filter_priv f \<noteq> Some k"
    using assms(2,3) unfolding ids by auto
  obtain m1 where m1: "deliver (dmxdev_env hw) CB_SECTION sec (map ((!) fs) xs) (m, h) = (m1, h)"
    "dd_filters m1 ! k = dd_filters m ! k" "length (dd_filters m1) = length (dd_filters m)"
    using deliver_other [OF none(1), of hw sec m h] by blast
  define m2 where "m2 = (if filter_match (fs ! j) sec then snd (dvb_dmxdev_section_callback k sec m1) else m1)"
  obtain m' where m': "deliver (dmxdev_env hw) CB_SECTION sec (map ((!) fs) ys) (m2, h) = (m', h)"
    "dd_filters m' ! k = dd_filters m2 ! k"
    using deliver_other [OF none(2), of hw sec m2 h] by blast
  have "deliver (dmxdev_env hw) CB_SECTION sec (map ((!) fs) ids) (m, h) =
      deliver (dmxdev_env hw) CB_SECTION sec (map ((!) fs) ys)
        (deliver (dmxdev_env hw) CB_SECTION sec [fs ! j]
          (deliver (dmxdev_env hw) CB_SECTION sec (map ((!) fs) xs) (m, h)))"
    by (simp add: deliver_def ids)
  also have "\<dots> = (m', h)"
    unfolding m1(1) using m'(1) by (auto simp: deliver_def dmxdev_section_cb assms(4) m2_def)
  finally show ?thesis using m1 m'(2) by (auto simp: m2_def)
qed


section \<open>From the packets to the reader\<close>

text \<open>A running section filter whose reader has read everything so far.\<close>

definition reader_ready :: "dmxdev_filter \<Rightarrow> bool" where
  "reader_ready f \<longleftrightarrow> df_state f = DMXDEV_STATE_GO \<and> bf_ok (df_buffer f) \<and> bf_contents (df_buffer f) = [] \<and>
     df_todo f = 0 \<and> length (df_secheader f) = 3"

lemma callback_then_read:
  assumes "k < length (dd_filters m)" "reader_ready (dd_filters m ! k)" "length sec < bf_size (df_buffer (dd_filters m ! k))"
    and "length sec = section_length sec" "3 < length sec" "length sec \<le> count"
  shows "\<exists>f'. dvb_dmxdev_read_sec (\<lambda>_. True) (\<lambda>_. True) nb count []
      (dd_filters (snd (dvb_dmxdev_section_callback k sec m)) ! k) = Returns (Inr (length sec), sec, f', [])"
proof -
  let ?f = "dd_filters m ! k"
  define f where "f = dd_filters (snd (dvb_dmxdev_section_callback k sec m)) ! k"
  have f: "df_buffer f = callback_write sec (df_buffer ?f)" "df_todo f = df_todo ?f" "df_secheader f = df_secheader ?f"
    using assms(1,2)
    by (simp_all add: f_def reader_ready_def bf_ok_def dvb_dmxdev_section_callback_def upd_dev_def Let_def)
  have "bf_ok (df_buffer f)" "bf_contents (df_buffer f) = sec @ []"
    using callback_write_effect [of "df_buffer ?f" sec] assms(2,3) by (simp_all add: f reader_ready_def)
  moreover have "at_section f [] sec"
    using assms(2,4) by (simp add: at_section_def f reader_ready_def)
  ultimately have "reads_next (\<lambda>_. True) (\<lambda>_. True) nb count f [] sec []"
    using assms(5,6) by (intro read_sec_next) auto
  then show ?thesis using assms(6) by (auto simp: reads_next_def f_def min_def)
qed

text \<open>
  C1: the whole way of a section. An application has a section filter with the bytes, masks and modes
  \<open>fl\<close>; the device has installed it as the filter \<open>j\<close> of a running feed, and its reader is idle. When
  the packets of a section with a good checksum arrive, then: if the user's filter accepts the section,
  the next \<open>read\<close> with room for it returns exactly the bytes of that section; if not, the state of
  the reader is untouched. Other filters on the same feed make no difference.
\<close>

theorem section_reaches_reader:
  assumes "packetised cc sec bufs" "sec_clean feed" "length sec = section_length sec"
    and "18 \<le> length sec" "length sec \<le> 4096" "crc_good (dmxdev_env hw) feed sec" "feed_cb feed = CB_SECTION"
    and "feed_filter feed = Some first" "filter_chain fs (Some first) ids" "distinct ids" "j \<in> set ids"
    and "fs ! j = prepare_secfilter (fill_filter k (invert_mode fl) f)"
    and "length (fl_filter fl) = 16" "length (fl_mask fl) = 16" "length (fl_mode fl) = 16"
    and "length (filter_value f) = 18" "length (filter_mask f) = 18" "length (filter_mode f) = 18"
    and "\<forall>i \<in> set ids. filter_priv (fs ! i) = Some k \<longrightarrow> i = j"
    and "k < length (dd_filters m)" "reader_ready (dd_filters m ! k)"
    and "length sec < bf_size (df_buffer (dd_filters m ! k))" "length sec \<le> count"
  shows "\<exists>feed' m'. swfilter_run (dmxdev_env hw) fs bufs feed (m, h) = Some (feed', (m', h)) \<and>
    (if user_accepts fl sec
     then \<exists>f'. dvb_dmxdev_read_sec (\<lambda>_. True) (\<lambda>_. True) nb count [] (dd_filters m' ! k)
            = Returns (Inr (length sec), sec, f', [])
     else dd_filters m' ! k = dd_filters m ! k)"
proof -
  let ?c = "deliver (dmxdev_env hw) CB_SECTION sec (map ((!) fs) ids) (m, h)"
  have "finishes (dmxdev_env hw) fs feed sec (m, h) (\<lambda>feed' c'. sec_clean feed' \<and> sec_frame feed feed' \<and>
      c' = deliver (dmxdev_env hw) (feed_cb feed) sec (map ((!) fs) ids) (m, h))"
    by (rule finishes_chain [OF assms(8-10) dmxdev_cb_succeeds]) (use assms(2,4-6) in \<open>auto simp: sec_clean_def\<close>)
  from reassembly_finishes [OF assms(1-3,5) this] obtain feed' where
    run: "swfilter_run (dmxdev_env hw) fs bufs feed (m, h) = Some (feed', ?c)"
    using assms(7) by auto
  have priv: "filter_priv (fs ! j) = Some k"
    by (simp add: assms(12) prepare_secfilter_def fill_filter_def Let_def)
  obtain m1 m' where m': "?c = (m', h)" "dd_filters m1 ! k = dd_filters m ! k"
    "length (dd_filters m1) = length (dd_filters m)"
    "dd_filters m' ! k = (if filter_match (fs ! j) sec
       then dd_filters (snd (dvb_dmxdev_section_callback k sec m1)) ! k else dd_filters m ! k)"
    using deliver_one [OF assms(11,10,19) priv, of hw sec m h] by blast
  have accepts: "filter_match (fs ! j) sec \<longleftrightarrow> user_accepts fl sec"
    unfolding assms(12) by (rule installed_filter_match [OF assms(13-18)])
  show ?thesis
    using run m' accepts callback_then_read [of k m1 sec count nb] assms(3,4,20-23) by auto
qed


text \<open>A section of 303 bytes with the table id the user asked for, and an idle reader with 1024 bytes.\<close>

definition ex_section :: "u8 list" where
  "ex_section = [0x42, 0x01, 0x2c] @ replicate 300 7"

definition ex_reader :: dmxdev_filter where
  "ex_reader = (ex_df DMXDEV_STATE_GO [] 0)\<lparr>df_buffer := \<lparr>bf_data = Some (replicate 1024 0), bf_size = 1024,
     bf_pread = 0, bf_pwrite = 0, bf_error = None\<rparr>\<rparr>"

definition ex_installed :: dvb_demux_filter where
  "ex_installed = prepare_secfilter (fill_filter 0 (invert_mode (sct_filter (ex_params 0))) ex_filter)"

theorem section_reaches_reader_witness:
  "\<exists>feed' m' f'. swfilter_run (dmxdev_env ex_dhw) [ex_installed] (packetise 3 ex_section) (ex_feed 0)
       (ex_dev [ex_reader], ()) = Some (feed', (m', ())) \<and>
     dvb_dmxdev_read_sec (\<lambda>_. True) (\<lambda>_. True) True 4096 [] (dd_filters m' ! 0)
       = Returns (Inr 303, ex_section, f', [])"
proof -
  have ready: "reader_ready ex_reader" "bf_size (df_buffer ex_reader) = 1024"
    by (simp_all add: reader_ready_def ex_reader_def bf_ok_def bf_wf_def bf_contents_def)
  have sec: "length ex_section = 303" "section_length ex_section = 303"
    by (simp_all add: ex_section_def section_length_def)
  have pk: "packetised 3 ex_section (packetise 3 ex_section)"
    by (rule packetise_packetised) (simp_all add: sec ex_section_def)
  let ?fl = "sct_filter (ex_params 0)"
  have "fl_mask ?fl ! i AND (fl_filter ?fl ! i XOR ex_section ! filter_pos i) = 0" "fl_mode ?fl ! i = 0"
    if "i < 16" for i
    using that by (simp_all add: ex_section_def filter_pos_def nth_Cons')
  then have acc: "user_accepts ?fl ex_section"
    by (auto simp: user_accepts_def)
  have next_none: "filter_next ex_installed = None"
    by (simp add: ex_installed_def prepare_secfilter_def fill_filter_def invert_mode_def Let_def)
  show ?thesis
    using section_reaches_reader [OF pk, of "ex_feed 0" ex_dhw 0 "[ex_installed]" "[0]" 0 0
        "sct_filter (ex_params 0)" ex_filter "ex_dev [ex_reader]" 4096 "()" True] acc ready sec next_none
    by (simp add: ex_installed_def sec_clean_def SECBUF_SIZE_def crc_good_def CB_SECTION_def
        ex_section_def)
qed

end
