(* ===== verification/Dvbdev.thy ===== *)
theory Dvbdev
  imports Dvb_Prelude
begin

text \<open>
  \<open>dvbdev.c\<close> and \<open>dvb_usercopy\<close> of \<open>dvb_functions.c\<close>: the registry of adapters and of the devices each
  adapter carries, the numbering of device nodes, the dispatch of \<open>open\<close> to the device behind a minor
  number, and the generic \<open>open\<close>, \<open>release\<close> and \<open>ioctl\<close>.

  A pointer to an adapter or to a device is an address; \<open>adapters\<close> and \<open>devices\<close> are the heap, and a
  freed object has no entry there. The address \<open>kmalloc\<close> returns is a parameter (\<open>None\<close> when it
  returns null), as is whether a signal interrupts \<open>down_interruptible\<close>. A routine that would touch a
  freed object has the value \<open>None\<close>. The definitions follow the branches for kernels before 2.5.0,
  where a device keeps its devfs handle; \<open>devfs\<close> is the set of entries that are registered.
\<close>

section \<open>Types\<close>

datatype devfs_entry =
    Devfs_Dir nat               \<comment> \<open>\<open>adapter<num>\<close>\<close>
  | Devfs_Node nat nat nat      \<comment> \<open>\<open>adapter<num>/<dnames[type]><id>\<close>\<close>

record dvb_device =
  dd_fops :: "nat option"
  dd_devfs_handle :: "devfs_entry option"
  dd_adapter :: nat
  dd_type :: nat
  dd_id :: nat
  dd_readers :: int
  dd_writers :: int
  dd_users :: int
  dd_kernel_ioctl :: "nat option"
  dd_priv :: nat

record dvb_adapter =
  ad_num :: nat
  ad_devfs_handle :: "devfs_entry option"
  ad_device_list :: "nat list"
  ad_name :: string
  ad_proposed_mac :: "u8 list"

record dvbdev_state =
  dvb_adapter_list :: "nat list"
  adapters :: "nat \<rightharpoonup> dvb_adapter"
  devices :: "nat \<rightharpoonup> dvb_device"
  devfs :: "devfs_entry list"

definition dnames :: "string list" where
  "dnames = [''video'', ''audio'', ''sec'', ''frontend'', ''demux'', ''dvr'', ''ca'', ''net'', ''osd'']"

abbreviation (input) DVB_DEVICE_FRONTEND :: nat where "DVB_DEVICE_FRONTEND \<equiv> 3"
abbreviation (input) DVB_DEVICE_DEMUX :: nat where "DVB_DEVICE_DEMUX \<equiv> 4"
abbreviation (input) DVB_DEVICE_NET :: nat where "DVB_DEVICE_NET \<equiv> 7"

text \<open>
  The two macros are those of a kernel without \<open>CONFIG_DVB_DEVFS_ONLY\<close>, where nodes are found by their
  minor number; with that option every minor is 0 and \<open>dvbdev_find_device\<close> does not exist.
\<close>

definition DVB_MAX_IDS :: nat where
  "DVB_MAX_IDS = 4"

definition nums2minor :: "nat \<Rightarrow> nat \<Rightarrow> nat \<Rightarrow> u32" where
  "nums2minor num type ident =
     push_bit 6 (of_nat num) OR push_bit 4 (of_nat ident) OR of_nat type"


section \<open>Opening a device node\<close>

fun find_in_devices :: "dvbdev_state \<Rightarrow> nat \<Rightarrow> u32 \<Rightarrow> nat list \<Rightarrow> nat option option" where
  "find_in_devices st num minor [] = Some None"
| "find_in_devices st num minor (p # ps) = do {
     dev \<leftarrow> devices st p;
     if nums2minor num (dd_type dev) (dd_id dev) = minor then Some (Some p)
     else find_in_devices st num minor ps
   }"

fun find_in_adapters :: "dvbdev_state \<Rightarrow> u32 \<Rightarrow> nat list \<Rightarrow> nat option option" where
  "find_in_adapters st minor [] = Some None"
| "find_in_adapters st minor (a # as) = do {
     adap \<leftarrow> adapters st a;
     r \<leftarrow> find_in_devices st (ad_num adap) minor (ad_device_list adap);
     case r of Some p \<Rightarrow> Some (Some p) | None \<Rightarrow> find_in_adapters st minor as
   }"

definition dvbdev_find_device :: "u32 \<Rightarrow> dvbdev_state \<Rightarrow> nat option option" where
  "dvbdev_find_device minor st = find_in_adapters st minor (dvb_adapter_list st)"

text \<open>
  \<open>fops_get\<close> and \<open>fops_put\<close> of the kernel count the users of the module that owns the operations;
  \<open>live\<close> says whether that module can still be entered.
\<close>

record dvb_file =
  f_private_data :: "nat option"
  f_op :: "nat option"
  f_rdonly :: bool      \<comment> \<open>\<open>(f_flags & O_ACCMODE) == O_RDONLY\<close>\<close>
  f_nonblock :: bool

definition fops_get ::
  "(nat \<Rightarrow> bool) \<Rightarrow> nat option \<Rightarrow> (nat \<Rightarrow> int) \<Rightarrow> nat option \<times> (nat \<Rightarrow> int)" where
  "fops_get live fop refs =
     (case fop of
        None \<Rightarrow> (None, refs)
      | Some f \<Rightarrow> if live f then (Some f, refs(f := refs f + 1)) else (None, refs))"

definition fops_put :: "nat option \<Rightarrow> (nat \<Rightarrow> int) \<Rightarrow> (nat \<Rightarrow> int)" where
  "fops_put fop refs = (case fop of None \<Rightarrow> refs | Some f \<Rightarrow> refs(f := refs f - 1))"

text \<open>
  \<open>fop_open f\<close> is the \<open>open\<close> routine of the operations \<open>f\<close>, when they have one; it returns the error
  code and the file and registry it leaves.
\<close>

definition dvb_device_open ::
  "(nat \<Rightarrow> (dvb_file \<Rightarrow> dvbdev_state \<Rightarrow> cret \<times> dvb_file \<times> dvbdev_state) option) \<Rightarrow> (nat \<Rightarrow> bool) \<Rightarrow> u32 \<Rightarrow>
   dvb_file \<Rightarrow> (nat \<Rightarrow> int) \<Rightarrow> dvbdev_state \<Rightarrow> (cret \<times> dvb_file \<times> (nat \<Rightarrow> int) \<times> dvbdev_state) option" where
  "dvb_device_open fop_open live minor file refs st = do {
     r \<leftarrow> dvbdev_find_device minor st;
     case r of None \<Rightarrow> Some (Inl ENODEV, file, refs, st)
     | Some p \<Rightarrow> do {
         dev \<leftarrow> devices st p;
         if dd_fops dev = None then Some (Inl ENODEV, file, refs, st)
         else do {
           let old_fops = f_op file;
           let (fop, refs) = fops_get live (dd_fops dev) refs;
           let file = file\<lparr>f_private_data := Some p, f_op := fop\<rparr>;
           f \<leftarrow> fop;
           let (err, file, st) = (case fop_open f of
                 None \<Rightarrow> (Inr 0, file, st) | Some opn \<Rightarrow> opn file st);
           let (file, refs) =
             (if err \<noteq> Inr 0
              then (let (fop, refs) = fops_get live old_fops (fops_put (f_op file) refs)
                    in (file\<lparr>f_op := fop\<rparr>, refs))
              else (file, refs));
           Some (err, file, fops_put old_fops refs, st)
         }
       }
   }"


section \<open>Generic file operations\<close>

definition dvb_generic_open :: "dvb_file \<Rightarrow> dvbdev_state \<Rightarrow> (cret \<times> dvbdev_state) option" where
  "dvb_generic_open file st =
     (case f_private_data file of None \<Rightarrow> Some (Inl ENODEV, st)
      | Some p \<Rightarrow> do {
          dev \<leftarrow> devices st p;
          if dd_users dev = 0 then Some (Inl EBUSY, st)
          else if f_rdonly file then
            (if dd_readers dev = 0 then Some (Inl EBUSY, st)
             else Some (Inr 0, st\<lparr>devices := (devices st)(p \<mapsto>
               dev\<lparr>dd_readers := dd_readers dev - 1, dd_users := dd_users dev - 1\<rparr>)\<rparr>))
          else
            (if dd_writers dev = 0 then Some (Inl EBUSY, st)
             else Some (Inr 0, st\<lparr>devices := (devices st)(p \<mapsto>
               dev\<lparr>dd_writers := dd_writers dev - 1, dd_users := dd_users dev - 1\<rparr>)\<rparr>))
        })"

definition dvb_generic_release :: "dvb_file \<Rightarrow> dvbdev_state \<Rightarrow> (cret \<times> dvbdev_state) option" where
  "dvb_generic_release file st =
     (case f_private_data file of None \<Rightarrow> Some (Inl ENODEV, st)
      | Some p \<Rightarrow> do {
          dev \<leftarrow> devices st p;
          let dev = (if f_rdonly file then dev\<lparr>dd_readers := dd_readers dev + 1\<rparr>
                     else dev\<lparr>dd_writers := dd_writers dev + 1\<rparr>);
          Some (Inr 0, st\<lparr>devices := (devices st)(p \<mapsto> dev\<lparr>dd_users := dd_users dev + 1\<rparr>)\<rparr>)
        })"

text \<open>
  \<open>dvb_usercopy\<close> copies the argument of an ioctl into the kernel, calls the driver and copies the
  result back, as the direction bits of the command say. \<open>user\<close> holds the bytes at the argument when
  they can be read, \<open>wr_ok\<close> says whether they can be written, \<open>mem_ok\<close> whether \<open>kmalloc\<close> succeeds. The
  second component of the result is what the user's memory receives.
\<close>

datatype ioc_dir = IOC_NONE | IOC_READ | IOC_WRITE | IOC_WRITE_READ

datatype ioctl_arg = Arg_Value nat | Arg_Buffer "u8 list"

definition dvb_usercopy ::
  "ioc_dir \<Rightarrow> nat \<Rightarrow> nat \<Rightarrow> u8 list option \<Rightarrow> bool \<Rightarrow> bool \<Rightarrow>
   (ioctl_arg \<Rightarrow> 's \<Rightarrow> cret \<times> ioctl_arg \<times> 's) \<Rightarrow> 's \<Rightarrow> cret \<times> ioctl_arg option \<times> 's" where
  "dvb_usercopy dir sz arg user wr_ok mem_ok func st =
     (if dir \<noteq> IOC_NONE \<and> sz > 128 \<and> \<not> mem_ok then (Inl ENOMEM, None, st)
      else if dir \<noteq> IOC_NONE \<and> user = None then (Inl EFAULT, None, st)
      else
       (let parg = (if dir = IOC_NONE then Arg_Value arg else Arg_Buffer (take sz (the user)));
            (err, parg, st) = func parg st;
            err = (if err = Inl ENOIOCTLCMD then Inl EINVAL else err)
        in case err of
             Inl e \<Rightarrow> (Inl e, None, st)
           | Inr n \<Rightarrow>
               if dir = IOC_READ \<or> dir = IOC_WRITE_READ
               then (if wr_ok then (Inr n, Some parg, st) else (Inl EFAULT, None, st))
               else (Inr n, None, st)))"

text \<open>\<open>kernel_ioctl k\<close> is the routine the device's \<open>kernel_ioctl\<close> field points to.\<close>

definition dvb_generic_ioctl ::
  "(nat \<Rightarrow> dvb_file \<Rightarrow> nat \<Rightarrow> ioctl_arg \<Rightarrow> dvbdev_state \<Rightarrow> cret \<times> ioctl_arg \<times> dvbdev_state) \<Rightarrow> dvb_file \<Rightarrow>
   nat \<Rightarrow> ioc_dir \<Rightarrow> nat \<Rightarrow> nat \<Rightarrow> u8 list option \<Rightarrow> bool \<Rightarrow> bool \<Rightarrow> dvbdev_state \<Rightarrow>
   (cret \<times> ioctl_arg option \<times> dvbdev_state) option" where
  "dvb_generic_ioctl kernel_ioctl file cmd dir sz arg user wr_ok mem_ok st =
     (case f_private_data file of None \<Rightarrow> Some (Inl ENODEV, None, st)
      | Some p \<Rightarrow> do {
          dev \<leftarrow> devices st p;
          case dd_kernel_ioctl dev of None \<Rightarrow> Some (Inl EINVAL, None, st)
          | Some k \<Rightarrow>
              Some (dvb_usercopy dir sz arg user wr_ok mem_ok (kernel_ioctl k file cmd) st)
        })"


section \<open>Registration\<close>

text \<open>The inner scan of \<open>dvbdev_get_free_id\<close>: is the identifier in use for this type?\<close>

fun id_in_use :: "dvbdev_state \<Rightarrow> nat \<Rightarrow> nat \<Rightarrow> nat list \<Rightarrow> bool option" where
  "id_in_use st type ident [] = Some False"
| "id_in_use st type ident (p # ps) = do {
     dev \<leftarrow> devices st p;
     if dd_type dev = type \<and> dd_id dev = ident then Some True else id_in_use st type ident ps
   }"

function free_id_from :: "dvbdev_state \<Rightarrow> nat \<Rightarrow> nat list \<Rightarrow> nat \<Rightarrow> cret option" where
  "free_id_from st type devs ident =
     (if ident < DVB_MAX_IDS then do {
        used \<leftarrow> id_in_use st type ident devs;
        if used then free_id_from st type devs (ident + 1) else Some (Inr ident)
      } else Some (Inl ENFILE))"
  by pat_completeness auto
termination
  by (relation "measure (\<lambda>(st, type, devs, ident). DVB_MAX_IDS - ident)") auto

declare free_id_from.simps [simp del]

definition dvbdev_get_free_id :: "nat \<Rightarrow> nat \<Rightarrow> dvbdev_state \<Rightarrow> cret option" where
  "dvbdev_get_free_id a type st = do {
     adap \<leftarrow> adapters st a;
     free_id_from st type (ad_device_list adap) 0
   }"

text \<open>
  \<open>dvb_register_device\<close> drops the lock between choosing the number and adding the device, so that
  another registration may run in between. Its two halves are therefore definitions of their own:
  \<open>register_device_number\<close> up to the \<open>up\<close>, and \<open>register_device_publish\<close> after it.
\<close>

definition register_device_number ::
  "nat \<Rightarrow> nat \<Rightarrow> bool \<Rightarrow> nat option \<Rightarrow> dvbdev_state \<Rightarrow> (errno + nat \<times> nat) option" where
  "register_device_number a type intr mem st =
     (if intr then Some (Inl ERESTARTSYS)
      else do {
        r \<leftarrow> dvbdev_get_free_id a type st;
        case r of Inl e \<Rightarrow> Some (Inl ENFILE)
        | Inr ident \<Rightarrow>
           (case mem of None \<Rightarrow> Some (Inl ENOMEM) | Some p \<Rightarrow> Some (Inr (ident, p)))
      })"

definition register_device_publish ::
  "nat \<Rightarrow> dvb_device \<Rightarrow> nat \<Rightarrow> nat \<Rightarrow> nat \<Rightarrow> nat \<Rightarrow> dvbdev_state \<Rightarrow> dvbdev_state option" where
  "register_device_publish a template priv type ident p st = do {
     adap \<leftarrow> adapters st a;
     name \<leftarrow> rd dnames type;
     let entry = Devfs_Node (ad_num adap) type ident;
     Some (st\<lparr>devices := (devices st)(p \<mapsto>
             template\<lparr>dd_type := type, dd_id := ident, dd_adapter := a, dd_priv := priv,
                      dd_devfs_handle := Some entry\<rparr>),
           adapters := (adapters st)(a \<mapsto>
             adap\<lparr>ad_device_list := ad_device_list adap @ [p]\<rparr>),
           devfs := devfs st @ [entry]\<rparr>)
   }"

text \<open>The pointer the caller receives in \<open>*pdvbdev\<close> is the middle component; \<open>None\<close> is null, or
  that the pointer is not assigned (an interrupted call).\<close>

definition dvb_register_device ::
  "nat \<Rightarrow> dvb_device \<Rightarrow> nat \<Rightarrow> nat \<Rightarrow> bool \<Rightarrow> nat option \<Rightarrow> dvbdev_state \<Rightarrow>
   (cret \<times> nat option \<times> dvbdev_state) option" where
  "dvb_register_device a template priv type intr mem st = do {
     r \<leftarrow> register_device_number a type intr mem st;
     case r of Inl e \<Rightarrow> Some (Inl e, None, st)
     | Inr (ident, p) \<Rightarrow> do {
         st \<leftarrow> register_device_publish a template priv type ident p st;
         Some (Inr 0, Some p, st)
       }
   }"

definition dvb_unregister_device :: "nat option \<Rightarrow> dvbdev_state \<Rightarrow> dvbdev_state option" where
  "dvb_unregister_device dvbdev st =
     (case dvbdev of None \<Rightarrow> Some st
      | Some p \<Rightarrow> do {
          dev \<leftarrow> devices st p;
          adap \<leftarrow> adapters st (dd_adapter dev);
          Some (st\<lparr>devfs := filter (\<lambda>e. Some e \<noteq> dd_devfs_handle dev) (devfs st),
                   adapters := (adapters st)(dd_adapter dev \<mapsto>
                     adap\<lparr>ad_device_list := remove1 p (ad_device_list adap)\<rparr>),
                   devices := (devices st)(p := None)\<rparr>)
        })"

text \<open>
  \<open>dvbdev_get_free_adapter_num\<close> has no bound: \<open>while (1)\<close>. The outer option of the scan is whether
  it touches freed memory, the loop's own option whether it ends.
\<close>

fun num_in_use :: "dvbdev_state \<Rightarrow> nat \<Rightarrow> nat list \<Rightarrow> bool option" where
  "num_in_use st num [] = Some False"
| "num_in_use st num (a # as) = do {
     adap \<leftarrow> adapters st a;
     if ad_num adap = num then Some True else num_in_use st num as
   }"

partial_function (option) free_adapter_num_from :: "dvbdev_state \<Rightarrow> nat \<Rightarrow> nat option" where
  "free_adapter_num_from st num =
     (case num_in_use st num (dvb_adapter_list st) of
        None \<Rightarrow> None
      | Some used \<Rightarrow> if used then free_adapter_num_from st (num + 1) else Some num)"

definition dvbdev_get_free_adapter_num :: "dvbdev_state \<Rightarrow> nat option" where
  "dvbdev_get_free_adapter_num st = free_adapter_num_from st 0"

definition dvb_register_adapter ::
  "string \<Rightarrow> bool \<Rightarrow> nat option \<Rightarrow> dvbdev_state \<Rightarrow> (cret \<times> nat option \<times> dvbdev_state) option" where
  "dvb_register_adapter name intr mem st =
     (if intr then Some (Inl ERESTARTSYS, None, st)
      else do {
        num \<leftarrow> dvbdev_get_free_adapter_num st;
        case mem of None \<Rightarrow> Some (Inl ENOMEM, None, st)
        | Some a \<Rightarrow>
            Some (Inr num, Some a, st\<lparr>adapters := (adapters st)(a \<mapsto>
                \<lparr>ad_num = num, ad_devfs_handle = Some (Devfs_Dir num), ad_device_list = [],
                 ad_name = name, ad_proposed_mac = replicate 6 0\<rparr>),
              dvb_adapter_list := dvb_adapter_list st @ [a],
              devfs := devfs st @ [Devfs_Dir num]\<rparr>)
      })"

definition dvb_unregister_adapter ::
  "nat \<Rightarrow> bool \<Rightarrow> dvbdev_state \<Rightarrow> (cret \<times> dvbdev_state) option" where
  "dvb_unregister_adapter a intr st = do {
     adap \<leftarrow> adapters st a;
     let st = st\<lparr>devfs := filter (\<lambda>e. Some e \<noteq> ad_devfs_handle adap) (devfs st)\<rparr>;
     if intr then Some (Inl ERESTARTSYS, st)
     else Some (Inr 0, st\<lparr>dvb_adapter_list := remove1 a (dvb_adapter_list st),
                          adapters := (adapters st)(a := None)\<rparr>)
   }"

definition init_dvbdev :: dvbdev_state where
  "init_dvbdev = \<lparr>dvb_adapter_list = [], adapters = Map.empty, devices = Map.empty, devfs = []\<rparr>"


section \<open>Minor numbers\<close>

lemma nums2minor_nat:
  assumes "num < 2 ^ 26" "type < 16" "ident < 4"
  shows "unat (nums2minor num type ident) = num * 64 + (ident * 16 + type)"
proof -
  have 1: "ident * 16 OR type = ident * 16 + type"
    using or_disjoint_nat [of type 4 ident] assms by simp
  have 2: "num * 64 OR (ident * 16 + type) = num * 64 + (ident * 16 + type)"
    using or_disjoint_nat [of "ident * 16 + type" 6 num] assms by simp
  have "nums2minor num type ident = of_nat (num * 64 OR ident * 16 OR type)"
    by (simp add: nums2minor_def push_bit_of_nat push_bit_eq_mult of_nat_or_eq)
  also have "num * 64 OR ident * 16 OR type = num * 64 + (ident * 16 + type)"
    by (simp add: or.assoc 1 2)
  finally show ?thesis using assms by (simp only:) (subst unat_of_nat, simp)
qed

lemma nums2minor_inject:
  assumes "num < 2 ^ 26" "type < 16" "ident < 4" "num' < 2 ^ 26" "type' < 16" "ident' < 4"
    and "nums2minor num type ident = nums2minor num' type' ident'"
  shows "num = num' \<and> type = type' \<and> ident = ident'"
proof -
  have "num * 64 + (ident * 16 + type) = num' * 64 + (ident' * 16 + type')"
    using arg_cong [OF assms(7), of unat] nums2minor_nat [OF assms(1-3)] nums2minor_nat [OF assms(4-6)]
    by simp
  moreover have "num' = num"
    using calculation assms(2,3,5,6) by linarith
  moreover have "ident' = ident"
    using calculation assms(2,5) by linarith
  ultimately show ?thesis by simp
qed

lemma find_in_devices_none:
  assumes "\<And>q. q \<in> set ps \<Longrightarrow> \<exists>d. devices st q = Some d \<and> nums2minor num (dd_type d) (dd_id d) \<noteq> minor"
  shows "find_in_devices st num minor ps = Some None"
  using assms by (induction ps) fastforce+

lemma find_in_devices_unique:
  assumes "p \<in> set ps" "devices st p = Some d" "nums2minor num (dd_type d) (dd_id d) = minor"
    and "\<And>q. q \<in> set ps \<Longrightarrow> \<exists>e. devices st q = Some e \<and>
           (nums2minor num (dd_type e) (dd_id e) = minor \<longrightarrow> q = p)"
  shows "find_in_devices st num minor ps = Some (Some p)"
  using assms
proof (induction ps)
  case Nil
  then show ?case by simp
next
  case (Cons q qs)
  obtain e where e: "devices st q = Some e"
      "nums2minor num (dd_type e) (dd_id e) = minor \<longrightarrow> q = p"
    using Cons.prems(4) [of q] by auto
  show ?case
  proof (cases "q = p")
    case True
    then show ?thesis using Cons.prems(2,3) by simp
  next
    case False
    then have "p \<in> set qs" using Cons.prems(1) by simp
    from Cons.IH [OF this Cons.prems(2,3)] Cons.prems(4) have "find_in_devices st num minor qs = Some (Some p)"
      by simp
    then show ?thesis using e False by simp
  qed
qed


section \<open>The scans for free numbers\<close>

lemma id_in_use_eq:
  "\<forall>p \<in> set ps. devices st p \<noteq> None \<Longrightarrow>
     id_in_use st type ident ps =
       Some (\<exists>p \<in> set ps. dd_type (the (devices st p)) = type \<and> dd_id (the (devices st p)) = ident)"
  by (induction ps) auto

lemma free_id_from_correct:
  assumes "\<forall>p \<in> set ps. devices st p \<noteq> None"
  shows "\<exists>r. free_id_from st type ps ident = Some r \<and>
    (case r of
       Inr i \<Rightarrow> ident \<le> i \<and> i < DVB_MAX_IDS \<and> id_in_use st type i ps = Some False \<and>
                (\<forall>j. ident \<le> j \<and> j < i \<longrightarrow> id_in_use st type j ps = Some True)
     | Inl e \<Rightarrow> e = ENFILE \<and> (\<forall>j. ident \<le> j \<and> j < DVB_MAX_IDS \<longrightarrow> id_in_use st type j ps = Some True))"
  using assms
proof (induction "DVB_MAX_IDS - ident" arbitrary: ident)
  case 0
  then show ?case by (subst free_id_from.simps) auto
next
  case (Suc n)
  then have lt: "ident < DVB_MAX_IDS" and IH: "n = DVB_MAX_IDS - (ident + 1)" by auto
  obtain u where u: "id_in_use st type ident ps = Some u"
    using id_in_use_eq [OF Suc.prems] by blast
  show ?case
  proof (cases u)
    case False
    then show ?thesis using u lt by (subst free_id_from.simps) auto
  next
    case True
    obtain r where r: "free_id_from st type ps (ident + 1) = Some r"
      "case r of
         Inr i \<Rightarrow> ident + 1 \<le> i \<and> i < DVB_MAX_IDS \<and> id_in_use st type i ps = Some False \<and>
                (\<forall>j. ident + 1 \<le> j \<and> j < i \<longrightarrow> id_in_use st type j ps = Some True)
       | Inl e \<Rightarrow> e = ENFILE \<and> (\<forall>j. ident + 1 \<le> j \<and> j < DVB_MAX_IDS \<longrightarrow> id_in_use st type j ps = Some True)"
      using Suc.hyps(1) [OF IH Suc.prems] by blast
    have step: "ident \<le> j \<Longrightarrow> j = ident \<or> ident + 1 \<le> j" for j by auto
    have "free_id_from st type ps ident = Some r"
      using True u lt r(1) by (subst free_id_from.simps) simp
    then show ?thesis using True u r(2) step by (fastforce split: sum.splits)
  qed
qed

lemma num_in_use_eq:
  "\<forall>a \<in> set as. adapters st a \<noteq> None \<Longrightarrow>
     num_in_use st num as = Some (\<exists>a \<in> set as. ad_num (the (adapters st a)) = num)"
  by (induction as) auto

definition adapter_nums :: "dvbdev_state \<Rightarrow> nat set" where
  "adapter_nums st = (\<lambda>a. ad_num (the (adapters st a))) ` set (dvb_adapter_list st)"

lemma ex_unused_num: "\<exists>n. n \<notin> adapter_nums st"
  using ex_new_if_finite [of "adapter_nums st"] by (simp add: adapter_nums_def infinite_UNIV_nat)

lemma free_adapter_num_from_least:
  assumes live: "\<forall>a \<in> set (dvb_adapter_list st). adapters st a \<noteq> None"
    and "num \<le> (LEAST n. n \<notin> adapter_nums st)"
  shows "free_adapter_num_from st num = Some (LEAST n. n \<notin> adapter_nums st)"
  using assms(2)
proof (induction "(LEAST n. n \<notin> adapter_nums st) - num" arbitrary: num)
  case 0
  then have "num = (LEAST n. n \<notin> adapter_nums st)" by simp
  then have "num \<notin> adapter_nums st" using LeastI_ex [OF ex_unused_num] by metis
  then have "num_in_use st num (dvb_adapter_list st) = Some False"
    by (simp only: num_in_use_eq [OF live]) (auto simp: adapter_nums_def)
  then show ?case
    using \<open>num = _\<close> by (subst free_adapter_num_from.simps) simp
next
  case (Suc k)
  then have "num < (LEAST n. n \<notin> adapter_nums st)" by simp
  then have "num \<in> adapter_nums st" using not_less_Least by blast
  then have "num_in_use st num (dvb_adapter_list st) = Some True"
    by (simp only: num_in_use_eq [OF live]) (auto simp: adapter_nums_def)
  moreover have "free_adapter_num_from st (num + 1) = Some (LEAST n. n \<notin> adapter_nums st)"
    using Suc.hyps \<open>num < _\<close> by simp
  ultimately show ?case by (subst free_adapter_num_from.simps) simp
qed

lemma free_adapter_num_returns:
  assumes "\<forall>a \<in> set (dvb_adapter_list st). adapters st a \<noteq> None"
  shows "dvbdev_get_free_adapter_num st = Some (LEAST n. n \<notin> adapter_nums st)"
  unfolding dvbdev_get_free_adapter_num_def
  by (rule free_adapter_num_from_least [OF assms]) simp

end
