(* ===== verification/Dvbdev_Registry.thy ===== *)
theory Dvbdev_Registry
  imports Dvbdev
begin

text \<open>
  The registry of \<open>dvbdev.c\<close> under any sequence of registrations, removals, opens and closes: its
  invariant, that a device node leads to its device, and how many files the generic \<open>open\<close> lets a
  device have at a time. The drivers keep two rules of the interface: the memory allocator returns
  addresses that are not in use, and an adapter is removed after its devices.
\<close>

section \<open>The invariant of the registry\<close>



























section \<open>Histories of the registry\<close>








section \<open>A node leads to its device\<close>


definition ex_template :: dvb_device where
  "ex_template = \<lparr>dd_fops = Some 7, dd_devfs_handle = None, dd_adapter = 0, dd_type = 0, dd_id = 0,
     dd_readers = 0, dd_writers = 1, dd_users = 1, dd_kernel_ioctl = None, dd_priv = 0\<rparr>"

text \<open>An adapter at address 100 with one demux device at address 200.\<close>

definition ex_adapter :: dvb_adapter where
  "ex_adapter = \<lparr>ad_num = 0, ad_devfs_handle = Some (Devfs_Dir 0), ad_device_list = [],
     ad_name = ''avia'', ad_proposed_mac = replicate 6 0\<rparr>"

definition ex_registry :: dvbdev_state where
  "ex_registry = \<lparr>dvb_adapter_list = [100],
     adapters = [100 \<mapsto> ex_adapter\<lparr>ad_device_list := [200]\<rparr>],
     devices = [200 \<mapsto> ex_template\<lparr>dd_type := 4, dd_id := 0, dd_adapter := 100, dd_priv := 5,
       dd_devfs_handle := Some (Devfs_Node 0 4 0)\<rparr>],
     devfs = [Devfs_Dir 0, Devfs_Node 0 4 0]\<rparr>"




text \<open>
  The number of a device is chosen under the lock, but the device enters the list after the lock is
  released: two registrations of the same type whose first halves run before either second half get
  the same number, and the node of the second leads to the first.
\<close>

theorem register_device_race:
  assumes "adapters st a = Some x" "ad_device_list x = []" "dvb_adapter_list st = [a]"
    and "type < length dnames" "p \<noteq> q"
  shows "\<exists>st1 st2.
    register_device_number a type False (Some p) st = Some (Inr (0, p)) \<and>
    register_device_number a type False (Some q) st = Some (Inr (0, q)) \<and>
    register_device_publish a t1 r1 type 0 p st = Some st1 \<and>
    register_device_publish a t2 r2 type 0 q st1 = Some st2 \<and>
    dd_id (the (devices st2 p)) = dd_id (the (devices st2 q)) \<and>
    dvbdev_find_device (nums2minor (ad_num x) type 0) st2 = Some (Some p)"
  using assms
  by (simp add: register_device_number_def register_device_publish_def dvbdev_get_free_id_def
      free_id_from.simps DVB_MAX_IDS_def dvbdev_find_device_def Let_def)



section \<open>How many files a device has\<close>

text \<open>
  The contract of a device that hands out a fixed number of opens, separately for readers and
  writers and in total: a successful open takes one from its kind and one from the total and happens
  only while neither is used up, a close gives them back. \<open>run_opens\<close> is a history of opens and closes;
  an open that is refused changes nothing, and only an open file is closed. Its result counts the
  files that are open. Clients learn from the contract that the counts never exceed the budget.
\<close>

datatype file_event = Open_File bool | Close_File bool

fun run_opens ::
  "(bool \<Rightarrow> 's \<Rightarrow> 's option) \<Rightarrow> (bool \<Rightarrow> 's \<Rightarrow> 's option) \<Rightarrow> file_event list \<Rightarrow> 's \<Rightarrow> nat \<times> nat \<Rightarrow>
   ('s \<times> nat \<times> nat) option" where
  "run_opens opn rel [] s (r, w) = Some (s, r, w)"
| "run_opens opn rel (Open_File ro # es) s (r, w) =
     (case opn ro s of
        None \<Rightarrow> run_opens opn rel es s (r, w)
      | Some s' \<Rightarrow> run_opens opn rel es s' (if ro then (r + 1, w) else (r, w + 1)))"
| "run_opens opn rel (Close_File ro # es) s (r, w) =
     (if (if ro then r else w) = 0 then None
      else case rel ro s of
        None \<Rightarrow> None
      | Some s' \<Rightarrow> run_opens opn rel es s' (if ro then (r - 1, w) else (r, w - 1)))"

locale open_budget =
  fixes opn rel :: "bool \<Rightarrow> 's \<Rightarrow> 's option"
    and left :: "bool \<Rightarrow> 's \<Rightarrow> int"
    and total :: "'s \<Rightarrow> int"
  assumes opn_left: "opn ro s = Some s' \<Longrightarrow> left ro s \<noteq> 0 \<and> left ro s' = left ro s - 1"
    and opn_other: "opn ro s = Some s' \<Longrightarrow> left (\<not> ro) s' = left (\<not> ro) s"
    and opn_total: "opn ro s = Some s' \<Longrightarrow> total s \<noteq> 0 \<and> total s' = total s - 1"
    and rel_left: "rel ro s = Some s' \<Longrightarrow> left ro s' = left ro s + 1"
    and rel_other: "rel ro s = Some s' \<Longrightarrow> left (\<not> ro) s' = left (\<not> ro) s"
    and rel_total: "rel ro s = Some s' \<Longrightarrow> total s' = total s + 1"
begin

lemma run_opens_conserves:
  "run_opens opn rel es s (r, w) = Some (s', r', w') \<Longrightarrow>
     left True s' + int r' = left True s + int r \<and> left False s' + int w' = left False s + int w \<and>
     total s' + int r' + int w' = total s + int r + int w"
proof (induction es arbitrary: s r w)
  case Nil
  then show ?case by simp
next
  case (Cons e es)
  show ?case
  proof (cases e)
    case (Open_File ro)
    show ?thesis
    proof (cases "opn ro s")
      case None
      then show ?thesis using Cons Open_File by simp
    next
      case (Some t)
      then show ?thesis
        using Cons.IH [of t "if ro then r + 1 else r" "if ro then w else w + 1"] Cons.prems Open_File
          opn_left [OF Some] opn_other [OF Some] opn_total [OF Some]
        by (cases ro) auto
    qed
  next
    case (Close_File ro)
    then obtain t where t: "rel ro s = Some t" "(if ro then r else w) \<noteq> 0"
      using Cons.prems by (auto split: if_splits option.splits)
    then show ?thesis
      using Cons.IH [of t "if ro then r - 1 else r" "if ro then w else w - 1"] Cons.prems Close_File
        rel_left [OF t(1)] rel_other [OF t(1)] rel_total [OF t(1)]
      by (cases ro) (auto simp: of_nat_diff)
  qed
qed

lemma run_opens_bounded:
  "run_opens opn rel es s (r, w) = Some (s', r', w') \<Longrightarrow>
     (0 \<le> left True s \<longrightarrow> 0 \<le> left True s') \<and> (0 \<le> left False s \<longrightarrow> 0 \<le> left False s') \<and>
     (0 \<le> total s \<longrightarrow> 0 \<le> total s')"
proof (induction es arbitrary: s r w)
  case Nil
  then show ?case by simp
next
  case (Cons e es)
  show ?case
  proof (cases e)
    case (Open_File ro)
    show ?thesis
    proof (cases "opn ro s")
      case None
      then show ?thesis using Cons Open_File by simp
    next
      case (Some t)
      then show ?thesis
        using Cons.IH [of t "if ro then r + 1 else r" "if ro then w else w + 1"] Cons.prems Open_File
          opn_left [OF Some] opn_other [OF Some] opn_total [OF Some]
        by (cases ro) auto
    qed
  next
    case (Close_File ro)
    then obtain t where t: "rel ro s = Some t" "(if ro then r else w) \<noteq> 0"
      using Cons.prems by (auto split: if_splits option.splits)
    then show ?thesis
      using Cons.IH [of t "if ro then r - 1 else r" "if ro then w else w - 1"] Cons.prems Close_File
        rel_left [OF t(1)] rel_other [OF t(1)] rel_total [OF t(1)]
      by (cases ro) auto
  qed
qed

end

text \<open>The generic operations on the file of one device.\<close>

definition device_file :: "nat \<Rightarrow> bool \<Rightarrow> dvb_file" where
  "device_file p ro = \<lparr>f_private_data = Some p, f_op = None, f_rdonly = ro, f_nonblock = False\<rparr>"

definition open_device :: "nat \<Rightarrow> bool \<Rightarrow> dvbdev_state \<Rightarrow> dvbdev_state option" where
  "open_device p ro st = (case dvb_generic_open (device_file p ro) st of
     Some (Inr _, st') \<Rightarrow> Some st' | _ \<Rightarrow> None)"

definition close_device :: "nat \<Rightarrow> bool \<Rightarrow> dvbdev_state \<Rightarrow> dvbdev_state option" where
  "close_device p ro st = (case dvb_generic_release (device_file p ro) st of
     Some (Inr _, st') \<Rightarrow> Some st' | _ \<Rightarrow> None)"

definition opens_left :: "nat \<Rightarrow> bool \<Rightarrow> dvbdev_state \<Rightarrow> int" where
  "opens_left p ro st = (let d = the (devices st p) in if ro then dd_readers d else dd_writers d)"

definition users_left :: "nat \<Rightarrow> dvbdev_state \<Rightarrow> int" where
  "users_left p st = dd_users (the (devices st p))"

lemmas generic_file_defs = open_device_def close_device_def opens_left_def users_left_def
  device_file_def dvb_generic_open_def dvb_generic_release_def

lemma open_device_SomeE:
  assumes "open_device p ro st = Some st'"
  obtains "opens_left p ro st \<noteq> 0" "opens_left p ro st' = opens_left p ro st - 1"
    "opens_left p (\<not> ro) st' = opens_left p (\<not> ro) st"
    "users_left p st \<noteq> 0" "users_left p st' = users_left p st - 1"
  using assms
  by (cases ro) (auto simp: generic_file_defs bind_eq_Some_conv Let_def split: option.split_asm if_splits)

lemma close_device_SomeE:
  assumes "close_device p ro st = Some st'"
  obtains "opens_left p ro st' = opens_left p ro st + 1"
    "opens_left p (\<not> ro) st' = opens_left p (\<not> ro) st" "users_left p st' = users_left p st + 1"
  using assms
  by (cases ro) (auto simp: generic_file_defs bind_eq_Some_conv Let_def split: option.split_asm if_splits)

interpretation generic_files: open_budget "open_device p" "close_device p" "opens_left p" "users_left p"
  for p
  by unfold_locales (auto elim: open_device_SomeE close_device_SomeE)

text \<open>
  C13: whatever sequence of opens and closes a device sees through the generic \<open>open\<close> and \<open>release\<close>,
  no more files are open for reading, for writing and in all than the counters of its template
  allow, and the counters always show what is left. A device with one writer and one user (the
  network device) so has at most one open file.
\<close>

theorem open_files_bounded:
  assumes "devices st p = Some d" "0 \<le> dd_readers d" "0 \<le> dd_writers d" "0 \<le> dd_users d"
    and "run_opens (open_device p) (close_device p) es st (0, 0) = Some (st', r, w)"
  shows "int r \<le> dd_readers d \<and> int w \<le> dd_writers d \<and> int r + int w \<le> dd_users d \<and>
    opens_left p True st' = dd_readers d - int r \<and> opens_left p False st' = dd_writers d - int w \<and>
    users_left p st' = dd_users d - int r - int w"
  using generic_files.run_opens_conserves [OF assms(5)] generic_files.run_opens_bounded [OF assms(5)]
    assms(1-4)
  by (simp add: opens_left_def users_left_def)

theorem open_files_bounded_witness:
  "\<exists>st'. run_opens (open_device 200) (close_device 200) [Open_File False, Open_File False] ex_registry (0, 0)
      = Some (st', 0, 1) \<and> opens_left 200 False st' = 0"
proof -
  obtain st' where run: "run_opens (open_device 200) (close_device 200) [Open_File False, Open_File False]
      ex_registry (0, 0) = Some (st', 0, 1)"
    by (simp add: generic_file_defs ex_registry_def ex_template_def Let_def)
  have "devices ex_registry 200 = Some (ex_template\<lparr>dd_type := 4, dd_id := 0, dd_adapter := 100,
      dd_priv := 5, dd_devfs_handle := Some (Devfs_Node 0 4 0)\<rparr>)" (is "_ = Some ?d")
    by (simp add: ex_registry_def)
  from open_files_bounded [OF this _ _ _ run] run show ?thesis
    by (auto simp: ex_template_def)
qed

end
