(* ===== verification/Dvb_I2c.thy ===== *)
theory Dvb_I2c
  imports Dvb_Prelude
begin

text \<open>
  \<open>dvb_i2c.c\<close>: the registry that brings the busses of the adapters and the drivers of the chips on them
  together. Whichever of the two is registered later probes what is there already; a driver that
  attaches becomes a client of the bus.

  Function pointers and addresses are numbers; two pointers are equal when their numbers are. The
  drivers' \<open>attach\<close> and \<open>detach\<close> routines are parameters, in the record \<open>i2c_env\<close>, as are the state
  \<open>'h\<close> they work on, whether a module can still be entered, and whether the memory for a client can be
  allocated. \<open>i2c_mutex_free\<close> is \<open>dvb_i2c_mutex\<close>; a \<open>down\<close> of a mutex that nobody will release is a
  \<open>Deadlock\<close>.
\<close>

section \<open>Types\<close>

text \<open>Used both for the drivers and for the clients of a bus, as in the code. (The code leaves
  \<open>attach\<close> of a client uninitialised and never reads it; the model keeps the driver's there.)\<close>

record i2c_device =
  id_owner :: "nat option"
  id_attach :: nat
  id_detach :: nat
  id_data :: nat

record i2c_bus =
  ib_addr :: nat
  ib_xfer :: nat
  ib_data :: nat
  ib_adapter :: nat
  ib_id :: nat
  ib_client_list :: "i2c_device list"

record 'h i2c_state =
  i2c_buslist :: "i2c_bus list"
  i2c_devicelist :: "i2c_device list"
  i2c_mutex_free :: bool
  module_refs :: "nat \<Rightarrow> int"
  i2c_hw :: 'h

record 'h i2c_env =
  env_attach :: "nat \<Rightarrow> nat \<Rightarrow> nat \<Rightarrow> 'h \<Rightarrow> bool \<times> nat \<times> 'h"
    \<comment> \<open>routine, bus, data before: did it return 0, data after\<close>
  env_detach :: "nat \<Rightarrow> nat \<Rightarrow> nat \<Rightarrow> 'h \<Rightarrow> 'h"
  env_live :: "nat \<Rightarrow> bool"
  env_client_mem :: "nat \<Rightarrow> nat \<Rightarrow> bool"


section \<open>Clients\<close>

definition register_i2c_client :: "bool \<Rightarrow> i2c_bus \<Rightarrow> i2c_device \<Rightarrow> cret \<times> i2c_bus" where
  "register_i2c_client mem_ok i2c dev =
     (if \<not> mem_ok then (Inl ENOMEM, i2c)
      else (Inr 0, i2c\<lparr>ib_client_list := ib_client_list i2c @ [dev]\<rparr>))"

definition module_get :: "nat option \<Rightarrow> (nat \<Rightarrow> int) \<Rightarrow> (nat \<Rightarrow> int)" where
  "module_get owner refs = (case owner of None \<Rightarrow> refs | Some m \<Rightarrow> refs(m := refs m + 1))"

definition module_put :: "nat option \<Rightarrow> (nat \<Rightarrow> int) \<Rightarrow> (nat \<Rightarrow> int)" where
  "module_put owner refs = (case owner of None \<Rightarrow> refs | Some m \<Rightarrow> refs(m := refs m - 1))"

definition owner_live :: "(nat \<Rightarrow> bool) \<Rightarrow> nat option \<Rightarrow> bool" where
  "owner_live live owner = (case owner of None \<Rightarrow> True | Some m \<Rightarrow> live m)"

text \<open>The bus, the driver with the data \<open>attach\<close> left in it, the module counts and the hardware.\<close>

definition try_attach_device ::
  "'h i2c_env \<Rightarrow> i2c_bus \<Rightarrow> i2c_device \<Rightarrow> (nat \<Rightarrow> int) \<Rightarrow> 'h \<Rightarrow>
   i2c_bus \<times> i2c_device \<times> (nat \<Rightarrow> int) \<times> 'h" where
  "try_attach_device env i2c dev refs h =
     (if \<not> owner_live (env_live env) (id_owner dev) then (i2c, dev, refs, h)
      else
       (let refs = module_get (id_owner dev) refs;
            (ok, dat, h) = env_attach env (id_attach dev) (ib_addr i2c) (id_data dev) h;
            dev = dev\<lparr>id_data := dat\<rparr>
        in if ok
           then (snd (register_i2c_client (env_client_mem env (ib_addr i2c) (id_attach dev)) i2c dev), dev, refs, h)
           else (i2c, dev, module_put (id_owner dev) refs, h)))"

definition detach_device ::
  "'h i2c_env \<Rightarrow> i2c_bus \<Rightarrow> i2c_device \<Rightarrow> (nat \<Rightarrow> int) \<Rightarrow> 'h \<Rightarrow> (nat \<Rightarrow> int) \<times> 'h" where
  "detach_device env i2c dev refs h =
     (module_put (id_owner dev) refs, env_detach env (id_detach dev) (ib_addr i2c) (id_data dev) h)"

fun detach_matching ::
  "'h i2c_env \<Rightarrow> i2c_bus \<Rightarrow> i2c_device \<Rightarrow> i2c_device list \<Rightarrow> (nat \<Rightarrow> int) \<Rightarrow> 'h \<Rightarrow>
   i2c_device list \<times> (nat \<Rightarrow> int) \<times> 'h" where
  "detach_matching env i2c dev [] refs h = ([], refs, h)"
| "detach_matching env i2c dev (client # cs) refs h =
     (if id_detach client = id_detach dev
      then (let (refs, h) = detach_device env i2c dev refs h in detach_matching env i2c dev cs refs h)
      else (let (cs, refs, h) = detach_matching env i2c dev cs refs h in (client # cs, refs, h)))"

definition unregister_i2c_client_from_bus ::
  "'h i2c_env \<Rightarrow> i2c_device \<Rightarrow> i2c_bus \<Rightarrow> (nat \<Rightarrow> int) \<Rightarrow> 'h \<Rightarrow> i2c_bus \<times> (nat \<Rightarrow> int) \<times> 'h" where
  "unregister_i2c_client_from_bus env dev i2c refs h =
     (let (cs, refs, h) = detach_matching env i2c dev (ib_client_list i2c) refs h
      in (i2c\<lparr>ib_client_list := cs\<rparr>, refs, h))"

fun unregister_i2c_client_from_all_busses ::
  "'h i2c_env \<Rightarrow> i2c_device \<Rightarrow> i2c_bus list \<Rightarrow> (nat \<Rightarrow> int) \<Rightarrow> 'h \<Rightarrow> i2c_bus list \<times> (nat \<Rightarrow> int) \<times> 'h" where
  "unregister_i2c_client_from_all_busses env dev [] refs h = ([], refs, h)"
| "unregister_i2c_client_from_all_busses env dev (i2c # bs) refs h =
     (let (i2c, refs, h) = unregister_i2c_client_from_bus env dev i2c refs h;
          (bs, refs, h) = unregister_i2c_client_from_all_busses env dev bs refs h
      in (i2c # bs, refs, h))"

lemma detach_matching_list:
  "fst (detach_matching env i2c dev cs refs h) = filter (\<lambda>c. id_detach c \<noteq> id_detach dev) cs"
  by (induction cs arbitrary: refs h) (auto simp: split_beta)

text \<open>
  \<open>list_for_each_safe\<close> keeps the next entry before the body runs. The body removes the entry, and with
  it every client that has the same \<open>detach\<close>; when the kept entry is one of these, the loop goes on at
  an entry that is no longer in the list and follows its cleared \<open>next\<close> pointer. \<open>None\<close> is that case.
\<close>

function unregister_all_clients_from_bus ::
  "'h i2c_env \<Rightarrow> i2c_bus \<Rightarrow> (nat \<Rightarrow> int) \<Rightarrow> 'h \<Rightarrow> (i2c_bus \<times> (nat \<Rightarrow> int) \<times> 'h) option" where
  "unregister_all_clients_from_bus env i2c refs h =
     (case ib_client_list i2c of
        [] \<Rightarrow> Some (i2c, refs, h)
      | [dev] \<Rightarrow> Some (unregister_i2c_client_from_bus env dev i2c refs h)
      | dev # n # _ \<Rightarrow>
          if id_detach n = id_detach dev then None
          else (let (i2c', refs', h') = unregister_i2c_client_from_bus env dev i2c refs h
                in unregister_all_clients_from_bus env i2c' refs' h'))"
  by pat_completeness auto
termination
proof (relation "measure (\<lambda>(env, i2c, refs, h). length (ib_client_list i2c))")
  fix env :: "'h i2c_env" and i2c refs h dev n list n' and x and i2c' y refs' h'
  assume *: "ib_client_list i2c = dev # list" "list = n # n'"
    "x = unregister_i2c_client_from_bus env dev i2c refs h" "(i2c', y) = x"
  have "ib_client_list i2c' = filter (\<lambda>c. id_detach c \<noteq> id_detach dev) (dev # n # n')"
    using * by (auto simp: unregister_i2c_client_from_bus_def split_beta detach_matching_list)
  then have "length (ib_client_list i2c') \<le> length (n # n')"
    by (simp add: le_SucI)
  then show "((env, i2c', refs', h'), env, i2c, refs, h) \<in> measure (\<lambda>(env, i2c, refs, h). length (ib_client_list i2c))"
    using * by simp
qed simp

declare unregister_all_clients_from_bus.simps [simp del]


section \<open>Probing\<close>

fun probe_device_on_all_busses ::
  "'h i2c_env \<Rightarrow> i2c_device \<Rightarrow> i2c_bus list \<Rightarrow> (nat \<Rightarrow> int) \<Rightarrow> 'h \<Rightarrow>
   i2c_bus list \<times> i2c_device \<times> (nat \<Rightarrow> int) \<times> 'h" where
  "probe_device_on_all_busses env dev [] refs h = ([], dev, refs, h)"
| "probe_device_on_all_busses env dev (i2c # bs) refs h =
     (let (i2c, dev, refs, h) = try_attach_device env i2c dev refs h;
          (bs, dev, refs, h) = probe_device_on_all_busses env dev bs refs h
      in (i2c # bs, dev, refs, h))"

fun probe_devices_on_bus ::
  "'h i2c_env \<Rightarrow> i2c_bus \<Rightarrow> i2c_device list \<Rightarrow> (nat \<Rightarrow> int) \<Rightarrow> 'h \<Rightarrow>
   i2c_bus \<times> i2c_device list \<times> (nat \<Rightarrow> int) \<times> 'h" where
  "probe_devices_on_bus env i2c [] refs h = (i2c, [], refs, h)"
| "probe_devices_on_bus env i2c (dev # ds) refs h =
     (let (i2c, dev, refs, h) = try_attach_device env i2c dev refs h;
          (i2c, ds, refs, h) = probe_devices_on_bus env i2c ds refs h
      in (i2c, dev # ds, refs, h))"

fun dvb_find_i2c_bus :: "nat \<Rightarrow> nat \<Rightarrow> nat \<Rightarrow> i2c_bus list \<Rightarrow> i2c_bus option" where
  "dvb_find_i2c_bus xfer adapter ident [] = None"
| "dvb_find_i2c_bus xfer adapter ident (i2c # bs) =
     (if ib_xfer i2c = xfer \<and> ib_adapter i2c = adapter \<and> ib_id i2c = ident then Some i2c
      else dvb_find_i2c_bus xfer adapter ident bs)"


section \<open>Interface\<close>

text \<open>
  \<open>down\<close> and \<open>down_interruptible\<close>: a free mutex is taken; on a mutex that stays taken the first waits
  for good and the second until a signal (\<open>intr\<close>). Both also see the signal while the mutex is free.
\<close>

definition dvb_register_i2c_bus ::
  "'h i2c_env \<Rightarrow> bool \<Rightarrow> nat option \<Rightarrow> nat \<Rightarrow> nat \<Rightarrow> nat \<Rightarrow> nat \<Rightarrow> 'h i2c_state \<Rightarrow>
   (nat option \<times> 'h i2c_state) outcome" where
  "dvb_register_i2c_bus env intr mem xfer dat adapter ident st =
     (if intr then Returns (None, st)
      else if \<not> i2c_mutex_free st then Deadlock
      else case mem of
        None \<Rightarrow> Returns (None, st\<lparr>i2c_mutex_free := False\<rparr>)
      | Some addr \<Rightarrow>
         (let i2c = \<lparr>ib_addr = addr, ib_xfer = xfer, ib_data = dat, ib_adapter = adapter, ib_id = ident,
                     ib_client_list = []\<rparr>;
              (i2c, ds, refs, h) =
                probe_devices_on_bus env i2c (i2c_devicelist st) (module_refs st) (i2c_hw st)
          in Returns (Some addr, st\<lparr>i2c_buslist := i2c_buslist st @ [i2c], i2c_devicelist := ds,
                                   module_refs := refs, i2c_hw := h\<rparr>)))"

definition dvb_unregister_i2c_bus ::
  "'h i2c_env \<Rightarrow> nat \<Rightarrow> nat \<Rightarrow> nat \<Rightarrow> 'h i2c_state \<Rightarrow> 'h i2c_state outcome" where
  "dvb_unregister_i2c_bus env xfer adapter ident st =
     (if \<not> i2c_mutex_free st then Deadlock
      else case dvb_find_i2c_bus xfer adapter ident (i2c_buslist st) of
        None \<Rightarrow> Returns st
      | Some i2c \<Rightarrow>
         (case unregister_all_clients_from_bus env i2c (module_refs st) (i2c_hw st) of
            None \<Rightarrow> Fault
          | Some (_, refs, h) \<Rightarrow>
              Returns (st\<lparr>i2c_buslist := filter (\<lambda>b. ib_addr b \<noteq> ib_addr i2c) (i2c_buslist st),
                          module_refs := refs, i2c_hw := h\<rparr>)))"

text \<open>\<open>garbage\<close> is what the allocated memory holds where the driver's \<open>data\<close> will be.\<close>

definition dvb_register_i2c_device ::
  "'h i2c_env \<Rightarrow> bool \<Rightarrow> bool \<Rightarrow> nat \<Rightarrow> nat option \<Rightarrow> nat \<Rightarrow> nat \<Rightarrow> 'h i2c_state \<Rightarrow>
   (cret \<times> 'h i2c_state) outcome" where
  "dvb_register_i2c_device env intr mem_ok garbage owner attach detach st =
     (if intr then Returns (Inl ERESTARTSYS, st)
      else if \<not> i2c_mutex_free st then Deadlock
      else if \<not> mem_ok then Returns (Inl ENOMEM, st\<lparr>i2c_mutex_free := False\<rparr>)
      else
       (let dev = \<lparr>id_owner = owner, id_attach = attach, id_detach = detach, id_data = garbage\<rparr>;
            (bs, dev, refs, h) =
              probe_device_on_all_busses env dev (i2c_buslist st) (module_refs st) (i2c_hw st)
        in Returns (Inr 0, st\<lparr>i2c_devicelist := i2c_devicelist st @ [dev], i2c_buslist := bs,
                             module_refs := refs, i2c_hw := h\<rparr>)))"

definition dvb_unregister_i2c_device ::
  "'h i2c_env \<Rightarrow> nat \<Rightarrow> 'h i2c_state \<Rightarrow> (cret \<times> 'h i2c_state) outcome" where
  "dvb_unregister_i2c_device env attach st =
     (if \<not> i2c_mutex_free st then Deadlock
      else case first_index (\<lambda>d. id_attach d = attach) (i2c_devicelist st) of
        None \<Rightarrow> Returns (Inl EINVAL, st)
      | Some k \<Rightarrow>
         (let dev = i2c_devicelist st ! k;
              (bs, refs, h) =
                unregister_i2c_client_from_all_busses env dev (i2c_buslist st) (module_refs st) (i2c_hw st)
          in Returns (Inr 0, st\<lparr>i2c_devicelist := take k (i2c_devicelist st) @ drop (Suc k) (i2c_devicelist st),
                               i2c_buslist := bs, module_refs := refs, i2c_hw := h\<rparr>)))"

definition i2c_init :: "'h \<Rightarrow> 'h i2c_state" where
  "i2c_init h = \<lparr>i2c_buslist = [], i2c_devicelist = [], i2c_mutex_free = True, module_refs = (\<lambda>_. 0),
     i2c_hw = h\<rparr>"


section \<open>Effect of the single steps\<close>

text \<open>
  From here on a driver's answer to a probe is a function \<open>answers\<close> of the driver and the bus: chips
  are soldered on. Modules can be entered and there is memory for clients.
\<close>

definition steady_env :: "(nat \<Rightarrow> nat \<Rightarrow> bool) \<Rightarrow> 'h i2c_env \<Rightarrow> bool" where
  "steady_env answers env \<longleftrightarrow>
     (\<forall>a b d h. fst (env_attach env a b d h) = answers a b) \<and> (\<forall>m. env_live env m) \<and>
     (\<forall>b a. env_client_mem env b a)"

definition client_key :: "i2c_device \<Rightarrow> nat option \<times> nat \<times> nat" where
  "client_key c = (id_owner c, id_attach c, id_detach c)"

definition bus_ident :: "i2c_bus \<Rightarrow> nat \<times> nat \<times> nat \<times> nat" where
  "bus_ident b = (ib_addr b, ib_xfer b, ib_adapter b, ib_id b)"

definition owned_clients :: "nat \<Rightarrow> i2c_device list \<Rightarrow> int" where
  "owned_clients m cs = int (length (filter (\<lambda>c. id_owner c = Some m) cs))"

lemma owned_clients_simps [simp]:
  "owned_clients m [] = 0"
  "owned_clients m (c # cs) = (if id_owner c = Some m then 1 else 0) + owned_clients m cs"
  "owned_clients m (cs @ ds) = owned_clients m cs + owned_clients m ds"
  by (simp_all add: owned_clients_def)

lemma owner_live_all: "(\<And>m. live m) \<Longrightarrow> owner_live live owner"
  by (simp add: owner_live_def split: option.split)

lemma module_get_eq: "module_get owner refs m = refs m + (if owner = Some m then 1 else 0)"
  by (simp add: module_get_def split: option.split)

lemma module_put_eq: "module_put owner refs m = refs m - (if owner = Some m then 1 else 0)"
  by (simp add: module_put_def split: option.split)

lemma try_attach_effect:
  assumes "steady_env answers env" "try_attach_device env i2c dev refs h = (i2c', dev', refs', h')"
  shows "client_key dev' = client_key dev" "bus_ident i2c' = bus_ident i2c"
    "map client_key (ib_client_list i2c') = map client_key (ib_client_list i2c) @
       (if answers (id_attach dev) (ib_addr i2c) then [client_key dev] else [])"
    "refs' m - owned_clients m (ib_client_list i2c') = refs m - owned_clients m (ib_client_list i2c)"
proof -
  obtain ok dat h1 where att: "env_attach env (id_attach dev) (ib_addr i2c) (id_data dev) h = (ok, dat, h1)"
    by (cases "env_attach env (id_attach dev) (ib_addr i2c) (id_data dev) h") auto
  moreover have "ok = answers (id_attach dev) (ib_addr i2c)"
    using assms(1) att unfolding steady_env_def by (metis fst_conv)
  moreover have "owner_live (env_live env) (id_owner dev)" "env_client_mem env b a" for a b
    using assms(1) by (auto simp: steady_env_def intro: owner_live_all)
  ultimately show "client_key dev' = client_key dev" "bus_ident i2c' = bus_ident i2c"
    "map client_key (ib_client_list i2c') = map client_key (ib_client_list i2c) @
       (if answers (id_attach dev) (ib_addr i2c) then [client_key dev] else [])"
    "refs' m - owned_clients m (ib_client_list i2c') = refs m - owned_clients m (ib_client_list i2c)"
    using assms(2)
    by (auto simp: try_attach_device_def register_i2c_client_def client_key_def bus_ident_def
        module_get_eq module_put_eq Let_def split: if_splits)
qed

lemma probe_devices_on_bus_effect:
  assumes "steady_env answers env" "probe_devices_on_bus env i2c ds refs h = (i2c', ds', refs', h')"
  shows "map client_key ds' = map client_key ds \<and> bus_ident i2c' = bus_ident i2c \<and>
    map client_key (ib_client_list i2c') = map client_key (ib_client_list i2c) @
       map client_key (filter (\<lambda>d. answers (id_attach d) (ib_addr i2c)) ds) \<and>
    refs' m - owned_clients m (ib_client_list i2c') = refs m - owned_clients m (ib_client_list i2c)"
  using assms(2)
proof (induction ds arbitrary: i2c refs h i2c' ds' refs' h')
  case (Cons d ds)
  obtain i1 d1 r1 h1 where t: "try_attach_device env i2c d refs h = (i1, d1, r1, h1)"
    by (metis prod_cases4)
  obtain i2 ds2 r2 h2 where p: "probe_devices_on_bus env i1 ds r1 h1 = (i2, ds2, r2, h2)"
    by (metis prod_cases4)
  have eqs: "i2c' = i2" "ds' = d1 # ds2" "refs' = r2"
    using Cons.prems t p by simp_all
  note te = try_attach_effect [OF assms(1) t]
  have addr: "ib_addr i1 = ib_addr i2c" using te(2) by (simp add: bus_ident_def)
  show ?case using eqs Cons.IH [OF p] te(1-3) te(4) [of m] addr by simp
qed auto

definition owned_total :: "nat \<Rightarrow> i2c_bus list \<Rightarrow> int" where
  "owned_total m bs = sum_list (map (\<lambda>b. owned_clients m (ib_client_list b)) bs)"

lemma owned_total_simps [simp]:
  "owned_total m [] = 0"
  "owned_total m (b # bs) = owned_clients m (ib_client_list b) + owned_total m bs"
  "owned_total m (bs @ cs) = owned_total m bs + owned_total m cs"
  by (simp_all add: owned_total_def)

lemma probe_device_on_all_busses_effect:
  assumes "steady_env answers env" "probe_device_on_all_busses env dev bs refs h = (bs', dev', refs', h')"
  shows "client_key dev' = client_key dev \<and>
    list_all2 (\<lambda>b b'. bus_ident b' = bus_ident b \<and>
       map client_key (ib_client_list b') = map client_key (ib_client_list b) @
         (if answers (id_attach dev) (ib_addr b) then [client_key dev] else [])) bs bs' \<and>
    refs' m - owned_total m bs' = refs m - owned_total m bs"
  using assms(2)
proof (induction bs arbitrary: dev refs h bs' dev' refs' h')
  case (Cons b bs)
  obtain i1 d1 r1 h1 where t: "try_attach_device env b dev refs h = (i1, d1, r1, h1)"
    by (metis prod_cases4)
  obtain bs2 d2 r2 h2 where p: "probe_device_on_all_busses env d1 bs r1 h1 = (bs2, d2, r2, h2)"
    by (metis prod_cases4)
  have eqs: "bs' = i1 # bs2" "dev' = d2" "refs' = r2"
    using Cons.prems t p by simp_all
  note te = try_attach_effect [OF assms(1) t]
  have att: "id_attach d1 = id_attach dev" using te(1) by (simp add: client_key_def)
  show ?case using eqs Cons.IH [OF p, unfolded att te(1)] te(1-3) te(4) [of m] by simp
qed auto

lemma detach_matching_refs:
  assumes "\<And>c. c \<in> set cs \<Longrightarrow> id_detach c = id_detach dev \<Longrightarrow> id_owner c = id_owner dev"
    and "detach_matching env i2c dev cs refs h = (cs', refs', h')"
  shows "refs' m - owned_clients m cs' = refs m - owned_clients m cs"
  using assms
proof (induction cs arbitrary: refs h cs' refs' h')
  case (Cons c cs)
  show ?case
  proof (cases "id_detach c = id_detach dev")
    case True
    have own: "id_owner c = id_owner dev" by (rule Cons.prems(1)) (simp_all add: True)
    have "detach_matching env i2c dev cs (module_put (id_owner dev) refs)
        (env_detach env (id_detach dev) (ib_addr i2c) (id_data dev) h) = (cs', refs', h')"
      using Cons.prems(2) True by (simp add: detach_device_def)
    then have "refs' m - owned_clients m cs' = module_put (id_owner dev) refs m - owned_clients m cs"
      by (rule Cons.IH [rotated]) (use Cons.prems(1) in auto)
    then show ?thesis using own by (simp add: module_put_eq)
  next
    case False
    obtain cs2 r2 h2 where m: "detach_matching env i2c dev cs refs h = (cs2, r2, h2)"
      by (metis prod_cases3)
    have "r2 m - owned_clients m cs2 = refs m - owned_clients m cs"
      by (rule Cons.IH [OF _ m]) (use Cons.prems(1) in auto)
    then show ?thesis using m Cons.prems(2) False by auto
  qed
qed simp

lemma unregister_from_bus_effect:
  assumes "\<And>c. c \<in> set (ib_client_list i2c) \<Longrightarrow> id_detach c = id_detach dev \<Longrightarrow> id_owner c = id_owner dev"
    and "unregister_i2c_client_from_bus env dev i2c refs h = (i2c', refs', h')"
  shows "bus_ident i2c' = bus_ident i2c"
    "ib_client_list i2c' = filter (\<lambda>c. id_detach c \<noteq> id_detach dev) (ib_client_list i2c)"
    "refs' m - owned_clients m (ib_client_list i2c') = refs m - owned_clients m (ib_client_list i2c)"
proof -
  obtain cs r2 h2 where m: "detach_matching env i2c dev (ib_client_list i2c) refs h = (cs, r2, h2)"
    by (metis prod_cases3)
  have eqs: "i2c' = i2c\<lparr>ib_client_list := cs\<rparr>" "refs' = r2"
    using assms(2) m by (simp_all add: unregister_i2c_client_from_bus_def)
  show "bus_ident i2c' = bus_ident i2c" by (simp add: eqs bus_ident_def)
  show "ib_client_list i2c' = filter (\<lambda>c. id_detach c \<noteq> id_detach dev) (ib_client_list i2c)"
    using detach_matching_list [of env i2c dev "ib_client_list i2c" refs h] m by (simp add: eqs)
  show "refs' m - owned_clients m (ib_client_list i2c') = refs m - owned_clients m (ib_client_list i2c)"
    using detach_matching_refs [OF assms(1) m] by (simp add: eqs)
qed

lemma unregister_from_all_effect:
  assumes "\<And>b c. b \<in> set bs \<Longrightarrow> c \<in> set (ib_client_list b) \<Longrightarrow> id_detach c = id_detach dev \<Longrightarrow>
      id_owner c = id_owner dev"
    and "unregister_i2c_client_from_all_busses env dev bs refs h = (bs', refs', h')"
  shows "list_all2 (\<lambda>b b'. bus_ident b' = bus_ident b \<and>
       ib_client_list b' = filter (\<lambda>c. id_detach c \<noteq> id_detach dev) (ib_client_list b)) bs bs' \<and>
    refs' m - owned_total m bs' = refs m - owned_total m bs"
  using assms
proof (induction bs arbitrary: refs h bs' refs' h')
  case (Cons b bs)
  obtain i1 r1 h1 where t: "unregister_i2c_client_from_bus env dev b refs h = (i1, r1, h1)"
    by (metis prod_cases3)
  obtain bs2 r2 h2 where p: "unregister_i2c_client_from_all_busses env dev bs r1 h1 = (bs2, r2, h2)"
    by (metis prod_cases3)
  have eqs: "bs' = i1 # bs2" "refs' = r2"
    using Cons.prems t p by simp_all
  have own: "id_owner c = id_owner dev" if "c \<in> set (ib_client_list b)" "id_detach c = id_detach dev" for c
    by (rule Cons.prems(1) [of b c]) (simp_all add: that)
  note te = unregister_from_bus_effect [OF own t]
  have "list_all2 (\<lambda>b b'. bus_ident b' = bus_ident b \<and>
       ib_client_list b' = filter (\<lambda>c. id_detach c \<noteq> id_detach dev) (ib_client_list b)) bs bs2 \<and>
      r2 m - owned_total m bs2 = r1 m - owned_total m bs"
    by (rule Cons.IH [OF _ p]) (use Cons.prems(1) in auto)
  then show ?case using eqs te(1,2) te(3) [of m] by simp
qed auto

lemma unregister_all_clients_effect:
  "distinct (map id_detach (ib_client_list i2c)) \<Longrightarrow>
     \<exists>i2c' refs' h'. unregister_all_clients_from_bus env i2c refs h = Some (i2c', refs', h') \<and>
       ib_client_list i2c' = [] \<and> (\<forall>m. refs' m = refs m - owned_clients m (ib_client_list i2c))"
proof (induction "ib_client_list i2c" arbitrary: i2c refs h)
  case Nil
  then show ?case by (subst unregister_all_clients_from_bus.simps) simp
next
  case (Cons dev cs)
  obtain i1 r1 h1 where t: "unregister_i2c_client_from_bus env dev i2c refs h = (i1, r1, h1)"
    by (metis prod_cases3)
  have dist: "distinct (map id_detach (dev # cs))" using Cons.prems Cons.hyps(2) by simp
  have own: "id_owner c = id_owner dev" if "c \<in> set (ib_client_list i2c)" "id_detach c = id_detach dev" for c
    using that dist unfolding Cons.hyps(2) [symmetric] by (auto simp: image_iff)
  note te = unregister_from_bus_effect [OF own t]
  have rest: "ib_client_list i1 = cs"
    using te(2) dist unfolding Cons.hyps(2) [symmetric] by (auto simp: filter_id_conv image_iff)
  have refs1: "r1 m = refs m - (if id_owner dev = Some m then 1 else 0)" for m
    using te(3) [of m] rest Cons.hyps(2) [symmetric] by simp
  show ?case
  proof (cases cs)
    case Nil
    then have "unregister_all_clients_from_bus env i2c refs h = Some (i1, r1, h1)"
      using Cons.hyps(2) [symmetric] t by (subst unregister_all_clients_from_bus.simps) simp
    then show ?thesis using rest Nil refs1 Cons.hyps(2) [symmetric] by simp
  next
    case (Cons n ns)
    have ne: "id_detach n \<noteq> id_detach dev" using dist Cons by auto
    have "unregister_all_clients_from_bus env i2c refs h = unregister_all_clients_from_bus env i1 r1 h1"
      using Cons.hyps(2) [symmetric] t Cons ne by (subst unregister_all_clients_from_bus.simps) simp
    moreover obtain i2 r2 h2 where "unregister_all_clients_from_bus env i1 r1 h1 = Some (i2, r2, h2)"
        "ib_client_list i2 = []" "\<forall>m. r2 m = r1 m - owned_clients m (ib_client_list i1)"
      using Cons.hyps(1) [of i1 r1 h1] rest dist by auto
    ultimately show ?thesis using refs1 rest Cons.hyps(2) [symmetric] by simp
  qed
qed


section \<open>The clients of a bus are the drivers that answer on it\<close>

abbreviation key_detach :: "nat option \<times> nat \<times> nat \<Rightarrow> nat" where
  "key_detach k \<equiv> snd (snd k)"

definition bus_ok ::
  "(nat \<Rightarrow> nat \<Rightarrow> bool) \<Rightarrow> (nat option \<times> nat \<times> nat) set \<Rightarrow> nat \<Rightarrow> (nat option \<times> nat \<times> nat) list \<Rightarrow> bool" where
  "bus_ok answers ks addr cs \<longleftrightarrow>
     distinct (map key_detach cs) \<and> set cs = {k \<in> ks. answers (fst (snd k)) addr}"

definition i2c_wf :: "(nat \<Rightarrow> nat \<Rightarrow> bool) \<Rightarrow> 'h i2c_state \<Rightarrow> bool" where
  "i2c_wf answers st \<longleftrightarrow>
     distinct (map id_detach (i2c_devicelist st)) \<and> distinct (map ib_addr (i2c_buslist st)) \<and>
     (\<forall>b \<in> set (i2c_buslist st). bus_ok answers (client_key ` set (i2c_devicelist st)) (ib_addr b)
        (map client_key (ib_client_list b))) \<and>
     (\<forall>m. module_refs st m = owned_total m (i2c_buslist st)) \<and> i2c_mutex_free st"

text \<open>
  Drivers register routines of their own, the allocator returns unused addresses and has memory; what
  may happen in any order is that busses and drivers come and go.
\<close>

inductive i2c_step :: "'h i2c_env \<Rightarrow> 'h i2c_state \<Rightarrow> 'h i2c_state \<Rightarrow> bool" for env where
  step_register_bus:
    "dvb_register_i2c_bus env intr (Some addr) xfer dat adapter ident st = Returns (r, st') \<Longrightarrow>
     addr \<notin> ib_addr ` set (i2c_buslist st) \<Longrightarrow> i2c_step env st st'"
| step_unregister_bus:
    "dvb_unregister_i2c_bus env xfer adapter ident st = Returns st' \<Longrightarrow> i2c_step env st st'"
| step_register_driver:
    "dvb_register_i2c_device env intr True garbage owner attach detach st = Returns (r, st') \<Longrightarrow>
     detach \<notin> id_detach ` set (i2c_devicelist st) \<Longrightarrow> i2c_step env st st'"
| step_unregister_driver:
    "dvb_unregister_i2c_device env attach st = Returns (r, st') \<Longrightarrow> i2c_step env st st'"

inductive i2c_reachable :: "'h i2c_env \<Rightarrow> 'h i2c_state \<Rightarrow> bool" for env where
  i2c_start: "i2c_reachable env (i2c_init h)"
| i2c_next: "i2c_reachable env st \<Longrightarrow> i2c_step env st st' \<Longrightarrow> i2c_reachable env st'"

lemma key_detach_client_key [simp]: "key_detach (client_key c) = id_detach c"
  and key_attach_client_key [simp]: "fst (snd (client_key c)) = id_attach c"
  by (simp_all add: client_key_def)

lemma map_key_detach: "map (key_detach \<circ> client_key) cs = map id_detach cs"
  by simp

lemma list_all2_map_eq: "list_all2 (\<lambda>x y. f y = f x \<and> P x y) xs ys \<Longrightarrow> map f ys = map f xs"
  by (induction rule: list_all2_induct) auto

lemma list_all2_setD: "list_all2 P xs ys \<Longrightarrow> y \<in> set ys \<Longrightarrow> \<exists>x \<in> set xs. P x y"
  by (induction rule: list_all2_induct) auto

lemma bus_ident_map: "map bus_ident bs' = map bus_ident bs \<Longrightarrow> map ib_addr bs' = map ib_addr bs"
proof -
  assume "map bus_ident bs' = map bus_ident bs"
  then have "map (fst \<circ> bus_ident) bs' = map (fst \<circ> bus_ident) bs" by (metis map_map)
  then show ?thesis by (simp add: comp_def bus_ident_def)
qed

lemma register_bus_wf:
  assumes env: "steady_env answers env" and wf: "i2c_wf answers st"
    and reg: "dvb_register_i2c_bus env intr (Some addr) xfer dat adapter ident st = Returns (r, st')"
    and fresh: "addr \<notin> ib_addr ` set (i2c_buslist st)"
  shows "i2c_wf answers st'"
proof (cases intr)
  case False
  define i2c where "i2c = \<lparr>ib_addr = addr, ib_xfer = xfer, ib_data = dat, ib_adapter = adapter,
      ib_id = ident, ib_client_list = []\<rparr>"
  obtain i1 ds r1 h1 where p:
      "probe_devices_on_bus env i2c (i2c_devicelist st) (module_refs st) (i2c_hw st) = (i1, ds, r1, h1)"
    by (metis prod_cases4)
  have st': "st' = st\<lparr>i2c_buslist := i2c_buslist st @ [i1], i2c_devicelist := ds,
      module_refs := r1, i2c_hw := h1\<rparr>"
    using reg p False wf by (simp add: dvb_register_i2c_bus_def i2c_wf_def flip: i2c_def)
  have eff: "map client_key ds = map client_key (i2c_devicelist st)" "bus_ident i1 = bus_ident i2c"
      "map client_key (ib_client_list i1) =
         map client_key (filter (\<lambda>d. answers (id_attach d) addr) (i2c_devicelist st))"
      "r1 m - owned_clients m (ib_client_list i1) = module_refs st m" for m
    using probe_devices_on_bus_effect [OF env p] by (simp_all add: i2c_def)
  have addr: "ib_addr i1 = addr" using eff(2) by (simp add: bus_ident_def i2c_def)
  have keys: "client_key ` set ds = client_key ` set (i2c_devicelist st)"
      "map id_detach ds = map id_detach (i2c_devicelist st)"
    using eff(1) by (metis list.set_map) (metis eff(1) map_key_detach map_map)
  have "bus_ok answers (client_key ` set (i2c_devicelist st)) addr (map client_key (ib_client_list i1))"
    unfolding eff(3) bus_ok_def using wf
    by (auto simp: i2c_wf_def comp_def distinct_map_filter)
  moreover have "r1 m = module_refs st m + owned_clients m (ib_client_list i1)" for m
    using eff(4) [of m] by simp
  ultimately show ?thesis
    using wf fresh by (auto simp: st' i2c_wf_def keys addr)
qed (use assms in \<open>simp add: dvb_register_i2c_bus_def\<close>)

lemma unregister_bus_wf:
  assumes wf: "i2c_wf answers st" and un: "dvb_unregister_i2c_bus env xfer adapter ident st = Returns st'"
  shows "i2c_wf answers st'"
proof (cases "dvb_find_i2c_bus xfer adapter ident (i2c_buslist st)")
  case (Some i2c)
  have mem: "dvb_find_i2c_bus xfer adapter ident bs = Some i2c \<Longrightarrow> i2c \<in> set bs" for bs
    by (induction bs) (auto split: if_splits)
  have "distinct (map id_detach (ib_client_list i2c))"
    using wf mem [OF Some] by (auto simp: i2c_wf_def bus_ok_def comp_def)
  then obtain i1 r1 h1 where u:
      "unregister_all_clients_from_bus env i2c (module_refs st) (i2c_hw st) = Some (i1, r1, h1)"
      "\<forall>m. r1 m = module_refs st m - owned_clients m (ib_client_list i2c)"
    using unregister_all_clients_effect [of i2c env "module_refs st" "i2c_hw st"] by blast
  define bs where "bs = filter (\<lambda>b. ib_addr b \<noteq> ib_addr i2c) (i2c_buslist st)"
  have st': "st' = st\<lparr>i2c_buslist := bs, module_refs := r1, i2c_hw := h1\<rparr>"
    using un Some u(1) wf by (simp add: dvb_unregister_i2c_bus_def i2c_wf_def bs_def)
  have "i2c \<in> set xs \<Longrightarrow> distinct (map ib_addr xs) \<Longrightarrow>
      owned_total m (filter (\<lambda>b. ib_addr b \<noteq> ib_addr i2c) xs) + owned_clients m (ib_client_list i2c) = owned_total m xs"
    for m xs
  proof (induction xs)
    case (Cons b xs)
    show ?case
    proof (cases "b = i2c")
      case True
      then have "filter (\<lambda>b. ib_addr b \<noteq> ib_addr i2c) xs = xs"
        using Cons.prems(2) by (auto simp: filter_id_conv image_iff)
      then show ?thesis using True by simp
    next
      case False
      then show ?thesis using Cons by (auto simp: image_iff)
    qed
  qed simp
  then have "owned_total m bs + owned_clients m (ib_client_list i2c) = owned_total m (i2c_buslist st)" for m
    using mem [OF Some] wf by (simp add: i2c_wf_def bs_def)
  then have "r1 m = owned_total m bs" for m
    using u(2) wf by (simp add: i2c_wf_def algebra_simps) (metis add_diff_cancel_right')
  then show ?thesis
    using wf by (auto simp: st' i2c_wf_def bs_def distinct_map_filter)
qed (use assms in \<open>auto simp: dvb_unregister_i2c_bus_def split: if_splits\<close>)


lemma register_driver_wf:
  assumes env: "steady_env answers env" and wf: "i2c_wf answers st"
    and reg: "dvb_register_i2c_device env intr True garbage owner attach detach st = Returns (r, st')"
    and fresh: "detach \<notin> id_detach ` set (i2c_devicelist st)"
  shows "i2c_wf answers st'"
proof (cases intr)
  case False
  define dev where "dev = \<lparr>id_owner = owner, id_attach = attach, id_detach = detach, id_data = garbage\<rparr>"
  obtain bs d1 r1 h1 where p:
      "probe_device_on_all_busses env dev (i2c_buslist st) (module_refs st) (i2c_hw st) = (bs, d1, r1, h1)"
    by (metis prod_cases4)
  have st': "st' = st\<lparr>i2c_devicelist := i2c_devicelist st @ [d1], i2c_buslist := bs,
      module_refs := r1, i2c_hw := h1\<rparr>"
    using reg p False wf by (simp add: dvb_register_i2c_device_def i2c_wf_def flip: dev_def)
  have key: "client_key d1 = client_key dev"
    and all: "list_all2 (\<lambda>b b'. bus_ident b' = bus_ident b \<and>
       map client_key (ib_client_list b') = map client_key (ib_client_list b) @
         (if answers attach (ib_addr b) then [client_key dev] else [])) (i2c_buslist st) bs"
    and refs: "r1 m - owned_total m bs = module_refs st m - owned_total m (i2c_buslist st)" for m
    using probe_device_on_all_busses_effect [OF env p] by (simp_all add: dev_def)
  have idents: "map ib_addr bs = map ib_addr (i2c_buslist st)"
    by (rule bus_ident_map [OF list_all2_map_eq [OF all]])
  have d1: "id_detach d1 = detach" using key by (simp add: client_key_def dev_def)
  have "bus_ok answers (insert (client_key dev) (client_key ` set (i2c_devicelist st))) (ib_addr b')
          (map client_key (ib_client_list b'))" if mem: "b' \<in> set bs" for b'
  proof -
    obtain b where b: "b \<in> set (i2c_buslist st)" "bus_ident b' = bus_ident b"
        "map client_key (ib_client_list b') = map client_key (ib_client_list b) @
         (if answers attach (ib_addr b) then [client_key dev] else [])"
      using list_all2_setD [OF all mem] by blast
    have ok: "bus_ok answers (client_key ` set (i2c_devicelist st)) (ib_addr b) (map client_key (ib_client_list b))"
      using wf b(1) by (simp add: i2c_wf_def)
    have "detach \<notin> id_detach ` set (ib_client_list b)"
    proof
      assume "detach \<in> id_detach ` set (ib_client_list b)"
      then have "detach \<in> key_detach ` set (map client_key (ib_client_list b))" by force
      then show False using ok fresh by (auto simp: bus_ok_def)
    qed
    moreover have "ib_addr b' = ib_addr b" using b(2) by (simp add: bus_ident_def)
    moreover have "client_key dev = (owner, attach, detach)" by (simp add: client_key_def dev_def)
    ultimately show ?thesis
      using ok unfolding bus_ok_def b(3) by (auto simp: comp_def)
  qed
  moreover have "r1 m = owned_total m bs" for m
    using refs [of m] wf by (simp add: i2c_wf_def)
  ultimately show ?thesis
    using wf fresh key by (simp add: st' i2c_wf_def idents d1)
qed (use assms in \<open>simp add: dvb_register_i2c_device_def\<close>)

lemma unregister_driver_wf:
  assumes wf: "i2c_wf answers st" and un: "dvb_unregister_i2c_device env attach st = Returns (r, st')"
  shows "i2c_wf answers st'"
proof (cases "first_index (\<lambda>d. id_attach d = attach) (i2c_devicelist st)")
  case (Some k)
  let ?ds = "i2c_devicelist st"
  define dev where "dev = ?ds ! k"
  have k: "k < length ?ds" using first_index_Some [OF Some] by simp
  obtain bs r1 h1 where p:
      "unregister_i2c_client_from_all_busses env dev (i2c_buslist st) (module_refs st) (i2c_hw st) = (bs, r1, h1)"
    by (metis prod_cases3)
  have st': "st' = st\<lparr>i2c_devicelist := take k ?ds @ drop (Suc k) ?ds, i2c_buslist := bs,
      module_refs := r1, i2c_hw := h1\<rparr>"
    using un Some p wf by (simp add: dvb_unregister_i2c_device_def i2c_wf_def flip: dev_def)
  have split: "?ds = take k ?ds @ dev # drop (Suc k) ?ds" using k by (simp add: dev_def id_take_nth_drop)
  then have dist: "distinct (map id_detach (take k ?ds @ dev # drop (Suc k) ?ds))"
    using wf by (simp add: i2c_wf_def)
  have same: "c = dev" if "c \<in> set ?ds" "id_detach c = id_detach dev" for c
    using dist that by (subst (asm) split) (auto simp: image_iff)
  have rest: "set (take k ?ds @ drop (Suc k) ?ds) = {d \<in> set ?ds. id_detach d \<noteq> id_detach dev}"
    using dist by (subst (3) split) (auto simp: image_iff)
  have ok: "bus_ok answers (client_key ` set ?ds) (ib_addr b) (map client_key (ib_client_list b))"
    if "b \<in> set (i2c_buslist st)" for b
    using wf that by (simp add: i2c_wf_def)
  have own: "id_owner c = id_owner dev"
    if "b \<in> set (i2c_buslist st)" "c \<in> set (ib_client_list b)" "id_detach c = id_detach dev" for b c
  proof -
    have "client_key c \<in> client_key ` set ?ds" using ok [OF that(1)] that(2) by (auto simp: bus_ok_def)
    then obtain d where d: "d \<in> set ?ds" "client_key c = client_key d" by auto
    then have "id_detach d = id_detach dev" "id_owner c = id_owner d" using that(3) by (simp_all add: client_key_def)
    then show ?thesis using same [OF d(1)] by metis
  qed
  have eff: "list_all2 (\<lambda>b b'. bus_ident b' = bus_ident b \<and>
       ib_client_list b' = filter (\<lambda>c. id_detach c \<noteq> id_detach dev) (ib_client_list b)) (i2c_buslist st) bs \<and>
     r1 m - owned_total m bs = module_refs st m - owned_total m (i2c_buslist st)" for m
    by (rule unregister_from_all_effect [OF _ p]) (rule own)
  note all = eff [THEN conjunct1] and refs = eff [THEN conjunct2]
  have idents: "map ib_addr bs = map ib_addr (i2c_buslist st)"
    by (rule bus_ident_map [OF list_all2_map_eq [OF all]])
  have "bus_ok answers (client_key ` set (take k ?ds @ drop (Suc k) ?ds)) (ib_addr b')
          (map client_key (ib_client_list b'))" if mem: "b' \<in> set bs" for b'
  proof -
    obtain b where b: "b \<in> set (i2c_buslist st)" "bus_ident b' = bus_ident b"
        "ib_client_list b' = filter (\<lambda>c. id_detach c \<noteq> id_detach dev) (ib_client_list b)"
      using list_all2_setD [OF all mem] by blast
    have "ib_addr b' = ib_addr b" using b(2) by (simp add: bus_ident_def)
    moreover have "client_key ` {c \<in> set (ib_client_list b). id_detach c \<noteq> id_detach dev} =
        {x \<in> client_key ` set (ib_client_list b). key_detach x \<noteq> id_detach dev}" by auto
    moreover have "client_key ` {d \<in> set ?ds. id_detach d \<noteq> id_detach dev} =
        {x \<in> client_key ` set ?ds. key_detach x \<noteq> id_detach dev}" by auto
    ultimately show ?thesis
      using ok [OF b(1)] unfolding bus_ok_def b(3) rest by (auto simp: comp_def distinct_map_filter)
  qed
  moreover have "r1 m = owned_total m bs" for m
    using refs [of m] wf by (simp add: i2c_wf_def)
  moreover have "distinct (map id_detach (take k ?ds @ drop (Suc k) ?ds))" using dist by simp
  ultimately show ?thesis
    using wf by (simp add: st' i2c_wf_def idents)
qed (use assms in \<open>auto simp: dvb_unregister_i2c_device_def split: if_splits\<close>)

lemma i2c_step_wf:
  "i2c_step env st st' \<Longrightarrow> steady_env answers env \<Longrightarrow> i2c_wf answers st \<Longrightarrow> i2c_wf answers st'"
proof (induction rule: i2c_step.induct)
  case (step_register_bus intr addr xfer dat adapter ident st r st')
  then show ?case using register_bus_wf by metis
next
  case (step_unregister_bus xfer adapter ident st st')
  then show ?case using unregister_bus_wf by metis
next
  case (step_register_driver intr garbage owner attach detach st r st')
  then show ?case using register_driver_wf by metis
next
  case (step_unregister_driver attach st r st')
  then show ?case using unregister_driver_wf by metis
qed

lemma i2c_reachable_wf: "i2c_reachable env st \<Longrightarrow> steady_env answers env \<Longrightarrow> i2c_wf answers st"
proof (induction rule: i2c_reachable.induct)
  case (i2c_start h)
  then show ?case by (simp add: i2c_wf_def i2c_init_def)
next
  case (i2c_next st st')
  then show ?case using i2c_step_wf by metis
qed

text \<open>
  Two busses and one driver that answers on both: the hardware state logs what \<open>detach\<close> is called
  with; \<open>attach\<close> hands out the address of the bus as the client's data.
\<close>

definition ex_i2c_env :: "(nat \<times> nat) list i2c_env" where
  "ex_i2c_env = \<lparr>env_attach = (\<lambda>a b d h. (a < 10, b, h)), env_detach = (\<lambda>f b d h. h @ [(b, d)]),
     env_live = (\<lambda>_. True), env_client_mem = (\<lambda>_ _. True)\<rparr>"

definition ex_client :: "nat \<Rightarrow> i2c_device" where
  "ex_client dat = \<lparr>id_owner = Some 3, id_attach = 1, id_detach = 2, id_data = dat\<rparr>"

definition ex_i2c :: "(nat \<times> nat) list i2c_state" where
  "ex_i2c = \<lparr>i2c_buslist =
       [\<lparr>ib_addr = 50, ib_xfer = 0, ib_data = 0, ib_adapter = 100, ib_id = 0, ib_client_list = [ex_client 50]\<rparr>,
        \<lparr>ib_addr = 60, ib_xfer = 0, ib_data = 0, ib_adapter = 100, ib_id = 1, ib_client_list = [ex_client 60]\<rparr>],
     i2c_devicelist = [ex_client 60], i2c_mutex_free = True,
     module_refs = (\<lambda>_. 0)(3 := 2), i2c_hw = []\<rparr>"

lemmas ex_i2c_defs = ex_i2c_def ex_client_def ex_i2c_env_def i2c_init_def

lemma ex_i2c_reachable: "i2c_reachable ex_i2c_env ex_i2c"
proof -
  let ?b = "\<lambda>a i cs. \<lparr>ib_addr = a, ib_xfer = 0, ib_data = 0, ib_adapter = 100, ib_id = i, ib_client_list = cs\<rparr>"
  let ?s1 = "(i2c_init [])\<lparr>i2c_buslist := [?b 50 0 []]\<rparr>"
  let ?s2 = "?s1\<lparr>i2c_buslist := [?b 50 0 [ex_client 50]], i2c_devicelist := [ex_client 50],
      module_refs := (\<lambda>_. 0)(3 := 1)\<rparr>"
  have "dvb_register_i2c_bus ex_i2c_env False (Some 50) 0 0 100 0 (i2c_init []) = Returns (Some 50, ?s1)"
    by (simp add: dvb_register_i2c_bus_def ex_i2c_defs)
  then have 1: "i2c_step ex_i2c_env (i2c_init []) ?s1"
    by (rule step_register_bus) (simp add: i2c_init_def)
  have "dvb_register_i2c_device ex_i2c_env False True 0 (Some 3) 1 2 ?s1 = Returns (Inr 0, ?s2)"
    by (simp add: dvb_register_i2c_device_def ex_i2c_defs try_attach_device_def owner_live_def
        module_get_def register_i2c_client_def Let_def)
  then have 2: "i2c_step ex_i2c_env ?s1 ?s2"
    by (rule step_register_driver) (simp add: i2c_init_def)
  have "dvb_register_i2c_bus ex_i2c_env False (Some 60) 0 0 100 1 ?s2 = Returns (Some 60, ex_i2c)"
    by (simp add: dvb_register_i2c_bus_def ex_i2c_defs try_attach_device_def owner_live_def
        module_get_def register_i2c_client_def Let_def)
  then have 3: "i2c_step ex_i2c_env ?s2 ex_i2c"
    by (rule step_register_bus) (simp add: i2c_init_def)
  show ?thesis by (rule i2c_next [OF i2c_next [OF i2c_next [OF i2c_start 1] 2] 3])
qed

text \<open>
  C14: in whatever order busses and drivers are registered and removed, the clients of a bus are
  exactly the registered drivers that answer on it, each once; and the use count of a module is the
  number of clients its drivers have on all busses, so a module is in use while one of its chips is.
\<close>

theorem i2c_clients_exact:
  assumes "i2c_reachable env st" "steady_env answers env"
  shows "(\<forall>b \<in> set (i2c_buslist st).
      client_key ` set (ib_client_list b) =
        client_key ` {d \<in> set (i2c_devicelist st). answers (id_attach d) (ib_addr b)} \<and>
      distinct (map client_key (ib_client_list b))) \<and>
    module_refs st m =
      (\<Sum>b \<leftarrow> i2c_buslist st. int (length (filter (\<lambda>c. id_owner c = Some m) (ib_client_list b))))"
proof -
  have wf: "i2c_wf answers st" by (rule i2c_reachable_wf [OF assms])
  have "client_key ` set (ib_client_list b) =
      client_key ` {d \<in> set (i2c_devicelist st). answers (id_attach d) (ib_addr b)} \<and>
      distinct (map client_key (ib_client_list b))" if "b \<in> set (i2c_buslist st)" for b
  proof -
    have "bus_ok answers (client_key ` set (i2c_devicelist st)) (ib_addr b) (map client_key (ib_client_list b))"
      using wf that by (simp add: i2c_wf_def)
    then have "distinct (map client_key (ib_client_list b))"
        "set (map client_key (ib_client_list b)) =
           {k \<in> client_key ` set (i2c_devicelist st). answers (fst (snd k)) (ib_addr b)}"
      unfolding bus_ok_def by (blast dest: distinct_map [THEN iffD1])+
    then show ?thesis by auto
  qed
  moreover have "module_refs st m = owned_total m (i2c_buslist st)" using wf by (simp add: i2c_wf_def)
  ultimately show ?thesis by (simp add: owned_total_def owned_clients_def)
qed

theorem i2c_clients_exact_witness:
  "i2c_reachable ex_i2c_env ex_i2c \<and> steady_env (\<lambda>a b. a < 10) ex_i2c_env \<and> module_refs ex_i2c 3 = 2 \<and>
   (\<Sum>b \<leftarrow> i2c_buslist ex_i2c. int (length (filter (\<lambda>c. id_owner c = Some 3) (ib_client_list b)))) = 2"
proof -
  have "steady_env (\<lambda>a b. a < 10) ex_i2c_env" by (simp add: steady_env_def ex_i2c_env_def)
  from i2c_clients_exact [OF ex_i2c_reachable this, of 3] this show ?thesis
    using ex_i2c_reachable by (simp add: ex_i2c_def)
qed

text \<open>
  Removing a driver calls \<open>detach\<close> with the driver's own \<open>data\<close>, which the last \<open>attach\<close> wrote, and not
  with the client's: with two busses the first bus gets the data of the second.
\<close>

theorem unregister_driver_detaches_with_last_data:
  "\<exists>st'. dvb_unregister_i2c_device ex_i2c_env 1 ex_i2c = Returns (Inr 0, st') \<and>
     i2c_hw st' = [(50, 60), (60, 60)] \<and> i2c_buslist ex_i2c ! 0 = (i2c_buslist ex_i2c ! 0)\<lparr>ib_client_list := [ex_client 50]\<rparr>"
  by (simp add: dvb_unregister_i2c_device_def ex_i2c_defs unregister_i2c_client_from_bus_def detach_device_def)

text \<open>Without memory for the bus, \<open>dvb_register_i2c_bus\<close> returns with the mutex held: the next removal
  never returns.\<close>

theorem register_bus_without_memory_locks:
  assumes "i2c_mutex_free st"
  shows "\<exists>st'. dvb_register_i2c_bus env False None xfer dat adapter ident st = Returns (None, st') \<and>
    dvb_unregister_i2c_bus env x a i st' = Deadlock \<and> dvb_unregister_i2c_device env attach st' = Deadlock"
  using assms
  by (simp add: dvb_register_i2c_bus_def dvb_unregister_i2c_bus_def dvb_unregister_i2c_device_def)

end
