(* ===== verification/Pes_Filter.thy ===== *)
theory Pes_Filter
  imports Demux_Section
begin

text \<open>
  \<open>dvb_filter.c\<close>: the AC-3 header parser and the routine that cuts a PES packet into transport stream
  packets, the direction opposite to the demultiplexer's payload path. The rest of the file is
  disabled with \<open>#if 0\<close>.
\<close>

section \<open>AC-3 headers\<close>

definition freq :: "u32 list" where
  "freq = [441, 480, 320, 0]"

definition ac3_bitrates :: "u32 list" where
  "ac3_bitrates = [32,40,48,56,64,80,96,112,128,160,192,224,256,320,384,448,512,576,640,
     0,0,0,0,0,0,0,0,0,0,0,0,0]"

definition ac3_freq :: "u32 list" where
  "ac3_freq = [480, 441, 320, 0]"

definition ac3_frames :: "u32 list list" where
  "ac3_frames =
     [[64,80,96,112,128,160,192,224,256,320,384,448,512,640,768,896,1024,
       1152,1280,0,0,0,0,0,0,0,0,0,0,0,0,0],
      [69,87,104,121,139,174,208,243,278,348,417,487,557,696,835,975,1114,
       1253,1393,0,0,0,0,0,0,0,0,0,0,0,0,0],
      [96,120,144,168,192,240,288,336,384,480,576,672,768,960,1152,1344,
       1536,1728,1920,0,0,0,0,0,0,0,0,0,0,0,0,0]]"

record dvb_audio_info =
  ai_layer :: int
  ai_bit_rate :: u32
  ai_frequency :: u32
  ai_mode :: u32
  ai_mode_extension :: u32
  ai_emphasis :: u32
  ai_framesize :: u32
  ai_off :: u32

text \<open>
  The scan for the sync word \<open>0b 77\<close>. The second byte is read only after a matching first one, and
  then even where it lies behind the \<open>count\<close> bytes. \<open>Some None\<close>: not found.
\<close>

function ac3_scan :: "u8 list \<Rightarrow> nat \<Rightarrow> nat \<Rightarrow> nat option option" where
  "ac3_scan mbuf count c =
     (if c < count then do {
        b0 \<leftarrow> rd mbuf c;
        if b0 = 0x0b then do {
          b1 \<leftarrow> rd mbuf (c + 1);
          if b1 = 0x77 then Some (Some c) else ac3_scan mbuf count (c + 1)
        } else ac3_scan mbuf count (c + 1)
      } else Some None)"
  by pat_completeness auto
termination
  by (relation "measure (\<lambda>(mbuf, count, c). count - c)") auto

declare ac3_scan.simps [simp del]

definition dvb_filter_get_ac3info ::
  "u8 list \<Rightarrow> nat \<Rightarrow> dvb_audio_info \<Rightarrow> (cret \<times> dvb_audio_info) option" where
  "dvb_filter_get_ac3info mbuf count ai = do {
     found \<leftarrow> ac3_scan mbuf count 0;
     case found of None \<Rightarrow> Some (Inl EPERM, ai)
     | Some c \<Rightarrow>
        (let ai = ai\<lparr>ai_off := of_nat c\<rparr> in
         if c + 5 \<ge> count then Some (Inl EPERM, ai)
         else do {
           h2 \<leftarrow> rd mbuf (c + 2 + 2);
           let frame = h2 AND 0x3f;
           let fr = unat (drop_bit 6 (h2 AND 0xc0));
           br \<leftarrow> rd ac3_bitrates (unat (drop_bit 1 frame));
           fq \<leftarrow> rd freq fr;
           row \<leftarrow> rd ac3_frames fr;
           fs \<leftarrow> rd row (unat (drop_bit 1 frame));
           let fs = (if frame AND 1 \<noteq> 0 \<and> fr = 1 then fs + 1 else fs);
           Some (Inr 0, ai\<lparr>ai_layer := 0, ai_bit_rate := br * 1000, ai_frequency := fq * 100,
                            ai_framesize := push_bit 1 fs\<rparr>)
         })
   }"


section \<open>Cutting a PES packet\<close>

record pes2ts_state =
  p2ts_buf :: "u8 list"      \<comment> \<open>188 bytes\<close>
  p2ts_cc :: u8

definition memset :: "'a list \<Rightarrow> nat \<Rightarrow> 'a \<Rightarrow> nat \<Rightarrow> 'a list option" where
  "memset d i v n = (if i + n \<le> length d then Some (blit d i (replicate n v)) else None)"

definition dvb_filter_pes2ts_init :: "pes2ts_state \<Rightarrow> u16 \<Rightarrow> pes2ts_state" where
  "dvb_filter_pes2ts_init p2ts pid =
     p2ts\<lparr>p2ts_buf := ((p2ts_buf p2ts)[0 := 0x47, 1 := ucast (drop_bit 8 pid), 2 := ucast (pid AND 0xff)]),
          p2ts_cc := 0\<rparr>"

text \<open>
  The loop over full packets. \<open>cb\<close> is the callback with its private state; it reads the packet and
  returns an \<open>int\<close>. \<open>Inl ret\<close>: the callback stopped the loop; \<open>Inr pes\<close>: what is left of the data.
\<close>

function pes2ts_loop ::
  "(u8 list \<Rightarrow> 's \<Rightarrow> int \<times> 's) \<Rightarrow> pes2ts_state \<Rightarrow> u8 list \<Rightarrow> 's \<Rightarrow>
   ((int + u8 list) \<times> pes2ts_state \<times> 's) option" where
  "pes2ts_loop cb p2ts pes s =
     (if length pes \<ge> 184 then
        (case memcpy ((p2ts_buf p2ts)[3 := 0x10 OR (p2ts_cc p2ts AND 0x0f)]) 4 pes 0 184 of
           None \<Rightarrow> None
         | Some buf \<Rightarrow>
            (case cb buf s of (ret, s) \<Rightarrow>
               if ret \<noteq> 0 then Some (Inl ret, p2ts\<lparr>p2ts_buf := buf, p2ts_cc := p2ts_cc p2ts + 1\<rparr>, s)
               else pes2ts_loop cb
                 (p2ts\<lparr>p2ts_buf := buf[1 := buf ! 1 AND NOT 0x40], p2ts_cc := p2ts_cc p2ts + 1\<rparr>)
                 (drop 184 pes) s))
      else Some (Inr pes, p2ts, s))"
  by pat_completeness auto
termination
  by (relation "measure (\<lambda>(cb, p2ts, pes, s). length pes)") auto

declare pes2ts_loop.simps [simp del]

text \<open>\<open>pes\<close> holds the \<open>len\<close> bytes of the call.\<close>

definition dvb_filter_pes2ts ::
  "(u8 list \<Rightarrow> 's \<Rightarrow> int \<times> 's) \<Rightarrow> pes2ts_state \<Rightarrow> u8 list \<Rightarrow> 's \<Rightarrow>
   (int \<times> pes2ts_state \<times> 's) option" where
  "dvb_filter_pes2ts cb p2ts pes s = do {
     (r, p2ts, s) \<leftarrow> pes2ts_loop cb
       (p2ts\<lparr>p2ts_buf := (p2ts_buf p2ts)[1 := p2ts_buf p2ts ! 1 OR 0x40]\<rparr>) pes s;
     case r of Inl ret \<Rightarrow> Some (ret, p2ts, s)
     | Inr pes \<Rightarrow>
         if length pes = 0 then Some (0, p2ts, s)
         else do {
           let buf = (p2ts_buf p2ts)[3 := 0x30 OR (p2ts_cc p2ts AND 0x0f)];
           let rest = 183 - length pes;
           buf \<leftarrow> (if rest \<noteq> 0 then
                     (let buf = buf[5 := 0x00]
                      in if rest - 1 \<noteq> 0 then memset buf 6 0xff (rest - 1) else Some buf)
                   else Some buf);
           let buf = buf[4 := of_nat rest];
           buf \<leftarrow> memcpy buf (5 + rest) pes 0 (length pes);
           let (ret, s) = cb buf s;
           Some (ret, p2ts\<lparr>p2ts_buf := buf, p2ts_cc := p2ts_cc p2ts + 1\<rparr>, s)
         }
   }"


section \<open>The packets of a PES packet\<close>

text \<open>
  What the receiver of the packets sees, as a function of the data alone: full packets with the
  start indicator on the first, and a last packet filled up with an adaptation field.
\<close>

definition stuffing :: "nat \<Rightarrow> u8 list" where
  "stuffing rest = (if rest = 0 then [] else 0 # replicate (rest - 1) 0xff)"

definition short_packet :: "u8 \<Rightarrow> u8 \<Rightarrow> u8 \<Rightarrow> u8 \<Rightarrow> u8 list \<Rightarrow> u8 list" where
  "short_packet h0 h1 h2 cc pes =
     [h0, h1, h2, 0x30 OR (cc AND 0x0f), of_nat (183 - length pes)] @ stuffing (183 - length pes) @ pes"

function ts_packets :: "u8 \<Rightarrow> u8 \<Rightarrow> u8 \<Rightarrow> u8 \<Rightarrow> u8 list \<Rightarrow> u8 list list" where
  "ts_packets h0 h1 h2 cc pes =
     (if length pes \<ge> 184
      then ([h0, h1, h2, 0x10 OR (cc AND 0x0f)] @ take 184 pes) #
           ts_packets h0 (h1 AND NOT 0x40) h2 (cc + 1) (drop 184 pes)
      else if pes = [] then [] else [short_packet h0 h1 h2 cc pes])"
  by pat_completeness auto
termination
  by (relation "measure (\<lambda>(h0, h1, h2, cc, pes). length pes)") auto

declare ts_packets.simps [simp del]

definition log_packet :: "u8 list \<Rightarrow> u8 list list \<Rightarrow> int \<times> u8 list list" where
  "log_packet buf s = (0, s @ [buf])"

lemma take_4_eq: "length buf = 188 \<Longrightarrow> take 4 buf = [buf ! 0, buf ! 1, buf ! 2, buf ! 3]"
  by (rule nth_equalityI) (auto simp: less_Suc_eq numeral_eq_Suc)

lemma full_packet_eq:
  assumes "length buf = 188" "184 \<le> length pes"
  shows "memcpy (buf[3 := x]) 4 pes 0 184 = Some ([buf ! 0, buf ! 1, buf ! 2, x] @ take 184 pes)"
  using assms take_4_eq [of "buf[3 := x]"] by (simp add: blit_def)

lemma short_packet_eq:
  assumes "length buf = 188" "pes \<noteq> []" "length pes < 184"
  defines "rest \<equiv> 183 - length pes"
  shows "(do {
       b \<leftarrow> (if rest \<noteq> 0 then
               (let b = (buf[3 := x])[5 := 0x00]
                in if rest - 1 \<noteq> 0 then memset b 6 0xff (rest - 1) else Some b)
             else Some (buf[3 := x]));
       memcpy (b[4 := of_nat rest]) (5 + rest) pes 0 (length pes)
     }) = Some ([buf ! 0, buf ! 1, buf ! 2, x, of_nat rest] @ stuffing rest @ pes)"
proof -
  have len: "5 + rest + length pes = 188" using assms by simp
  define b where "b = (if rest = 0 then buf[3 := x] else blit ((buf[3 := x])[5 := 0]) 6 (replicate (rest - 1) 0xff))"
  have rest_le: "rest \<le> 182" using assms by (cases pes) auto
  have set_eq: "(if rest \<noteq> 0 then
               (let b = (buf[3 := x])[5 := 0x00]
                in if rest - 1 \<noteq> 0 then memset b 6 0xff (rest - 1) else Some b)
             else Some (buf[3 := x])) = Some b"
    using assms(1) rest_le by (auto simp: b_def memset_def Let_def)
  have lb: "length b = 188" using assms(1) rest_le by (simp add: b_def)
  have nth: "b ! i = (if i = 3 then x else if 5 \<le> i \<and> i < 5 + rest then (if i = 5 then 0 else 0xff) else buf ! i)"
    if "i < 188" for i
    using that assms(1) rest_le by (auto simp: b_def nth_blit nth_list_update)
  have "take (5 + rest) (b[4 := of_nat rest]) =
      [buf ! 0, buf ! 1, buf ! 2, x, of_nat rest] @ stuffing rest"
  proof (rule nth_equalityI)
    fix i
    assume "i < length (take (5 + rest) (b[4 := of_nat rest]))"
    then have i: "i < 5 + rest" by simp
    then consider "i < 5" | "i = 5" | "5 < i" by linarith
    then show "take (5 + rest) (b[4 := of_nat rest]) ! i =
        ([buf ! 0, buf ! 1, buf ! 2, x, of_nat rest] @ stuffing rest) ! i"
    proof cases
      case 1
      then have "i = 0 \<or> i = 1 \<or> i = 2 \<or> i = 3 \<or> i = 4" by linarith
      then show ?thesis using lb i nth [of i] rest_le by auto
    next
      case 2
      then show ?thesis using lb i nth [of i] rest_le by (simp add: stuffing_def nth_append)
    next
      case 3
      then show ?thesis using lb i nth [of i] rest_le by (auto simp: stuffing_def nth_append nth_Cons')
    qed
  qed (use lb rest_le in \<open>simp add: stuffing_def\<close>)
  then have "memcpy (b[4 := of_nat rest]) (5 + rest) pes 0 (length pes) =
      Some ([buf ! 0, buf ! 1, buf ! 2, x, of_nat rest] @ stuffing rest @ pes)"
    using lb len by (simp add: memcpy_def blit_def)
  then show ?thesis by (simp only: set_eq bind.bind_lunit)
qed

definition packets_of :: "pes2ts_state \<Rightarrow> u8 list \<Rightarrow> u8 list list" where
  "packets_of p pes = ts_packets (p2ts_buf p ! 0) (p2ts_buf p ! 1) (p2ts_buf p ! 2) (p2ts_cc p) pes"

lemma pes2ts_loop_full:
  assumes "length (p2ts_buf p) = 188"
  shows "\<exists>p' rest pre. pes2ts_loop log_packet p pes s = Some (Inr rest, p', s @ pre) \<and>
    length rest < 184 \<and> length (p2ts_buf p') = 188 \<and> packets_of p pes = pre @ packets_of p' rest"
  using assms
proof (induction "length pes" arbitrary: p pes s rule: less_induct)
  case less
  show ?case
  proof (cases "length pes < 184")
    case True
    then have "pes2ts_loop log_packet p pes s = Some (Inr pes, p, s @ [])"
      by (subst pes2ts_loop.simps) simp
    then show ?thesis using True less.prems by fastforce
  next
    case False
    then have long: "184 \<le> length pes" by simp
    let ?pkt = "[p2ts_buf p ! 0, p2ts_buf p ! 1, p2ts_buf p ! 2, 0x10 OR (p2ts_cc p AND 0x0f)] @ take 184 pes"
    define q where "q = p\<lparr>p2ts_buf := ?pkt[1 := p2ts_buf p ! 1 AND NOT 0x40], p2ts_cc := p2ts_cc p + 1\<rparr>"
    have step: "pes2ts_loop log_packet p pes s = pes2ts_loop log_packet q (drop 184 pes) (s @ [?pkt])"
      using long less.prems
      by (subst pes2ts_loop.simps) (simp add: full_packet_eq log_packet_def q_def del: memcpy_in_range)
    have spec: "packets_of p pes = ?pkt # packets_of q (drop 184 pes)"
      unfolding packets_of_def by (subst ts_packets.simps) (use long in \<open>simp add: q_def\<close>)
    have "length (drop 184 pes) < length pes" "length (p2ts_buf q) = 188"
      using long by (simp_all add: q_def)
    from less.hyps [OF this, of "s @ [?pkt]"] obtain p' rest pre where
      "pes2ts_loop log_packet q (drop 184 pes) (s @ [?pkt]) = Some (Inr rest, p', (s @ [?pkt]) @ pre)"
      "length rest < 184" "length (p2ts_buf p') = 188" "packets_of q (drop 184 pes) = pre @ packets_of p' rest"
      by blast
    then have "pes2ts_loop log_packet p pes s = Some (Inr rest, p', s @ (?pkt # pre)) \<and> length rest < 184 \<and>
        length (p2ts_buf p') = 188 \<and> packets_of p pes = (?pkt # pre) @ packets_of p' rest"
      using step spec by simp
    then show ?thesis by blast
  qed
qed

lemma pes2ts_packets:
  assumes "length (p2ts_buf p) = 188"
  shows "\<exists>p'. dvb_filter_pes2ts log_packet p pes s =
    Some (0, p', s @ ts_packets (p2ts_buf p ! 0) (p2ts_buf p ! 1 OR 0x40) (p2ts_buf p ! 2) (p2ts_cc p) pes)"
proof -
  define q where "q = p\<lparr>p2ts_buf := (p2ts_buf p)[1 := p2ts_buf p ! 1 OR 0x40]\<rparr>"
  have q: "length (p2ts_buf q) = 188"
      "packets_of q pes = ts_packets (p2ts_buf p ! 0) (p2ts_buf p ! 1 OR 0x40) (p2ts_buf p ! 2) (p2ts_cc p) pes"
    using assms by (simp_all add: q_def packets_of_def)
  obtain p' rest pre where loop: "pes2ts_loop log_packet q pes s = Some (Inr rest, p', s @ pre)"
      "length rest < 184" "length (p2ts_buf p') = 188" "packets_of q pes = pre @ packets_of p' rest"
    using pes2ts_loop_full [OF q(1)] by blast
  show ?thesis
  proof (cases "rest = []")
    case True
    then have "packets_of p' rest = []" by (simp add: packets_of_def ts_packets.simps)
    then show ?thesis
      using loop True q(2) unfolding dvb_filter_pes2ts_def q_def [symmetric] by simp
  next
    case False
    have "packets_of p' rest = [short_packet (p2ts_buf p' ! 0) (p2ts_buf p' ! 1) (p2ts_buf p' ! 2) (p2ts_cc p') rest]"
      using False loop(2) by (simp add: packets_of_def ts_packets.simps)
    moreover have "\<exists>p''. dvb_filter_pes2ts log_packet p pes s = Some (0, p'', (s @ pre) @
        [short_packet (p2ts_buf p' ! 0) (p2ts_buf p' ! 1) (p2ts_buf p' ! 2) (p2ts_cc p') rest])"
      using loop(1) False short_packet_eq [OF loop(3) False loop(2), of "0x30 OR (p2ts_cc p' AND 0x0f)"]
      unfolding dvb_filter_pes2ts_def q_def [symmetric]
      by (auto simp: bind_eq_Some_conv short_packet_def log_packet_def Let_def)
    ultimately show ?thesis using loop(4) q(2) by simp
  qed
qed


lemma control_bits:
  fixes cc :: u8
  shows "(0x10 OR (cc AND 0x0f)) AND 0x10 \<noteq> 0" "(0x10 OR (cc AND 0x0f)) AND 0x20 = 0"
    "(0x30 OR (cc AND 0x0f)) AND 0x10 \<noteq> 0" "(0x30 OR (cc AND 0x0f)) AND 0x20 \<noteq> 0"
    "(0x10 OR (cc AND 0x0f)) AND 0x0f = cc AND 0x0f" "(0x30 OR (cc AND 0x0f)) AND 0x0f = cc AND 0x0f"
  by (simp_all add: word_ao_dist word_bw_assocs)

lemma start_bit:
  fixes h :: u8
  shows "(h AND NOT 0x40) AND 0x40 = 0" "(h OR 0x40) AND 0x40 = 0x40"
    "(h AND NOT 0x40) AND NOT 0x40 = h AND NOT 0x40" "(h OR 0x40) AND NOT 0x40 = h AND NOT 0x40"
  by (simp_all add: word_ao_dist word_bw_assocs)

lemma payload_full: "payload ([h0, h1, h2, 0x10 OR (cc AND 0x0f)] @ dat) = 184"
  by (simp add: payload_def control_bits)

lemma payload_short:
  assumes "pes \<noteq> []" "length pes < 184"
  shows "payload (short_packet h0 h1 h2 cc pes) = length pes"
proof -
  have "length pes \<le> 183" "183 - length pes < 2 ^ LENGTH(8)" using assms by auto
  then have "unat (of_nat (183 - length pes) :: u8) = 183 - length pes"
    by (subst unat_of_nat) simp
  then show ?thesis
    using assms by (simp add: payload_def short_packet_def control_bits)
qed

lemma length_short_packet:
  "pes \<noteq> [] \<Longrightarrow> length pes < 184 \<Longrightarrow> length (short_packet h0 h1 h2 cc pes) = 188"
  by (auto simp: short_packet_def stuffing_def)

lemma drop_short_packet:
  assumes "pes \<noteq> []" "length pes < 184"
  shows "drop (188 - length pes) (short_packet h0 h1 h2 cc pes) = pes"
proof -
  define pre where "pre = [h0, h1, h2, 0x30 OR (cc AND 0x0f), of_nat (183 - length pes)] @ stuffing (183 - length pes)"
  have "length (stuffing n) = n" for n by (simp add: stuffing_def)
  then have "length pre = 188 - length pes" using assms(2) by (simp add: pre_def)
  moreover have "short_packet h0 h1 h2 cc pes = pre @ pes" by (simp add: short_packet_def pre_def)
  ultimately show ?thesis by simp
qed

lemma ts_packets_length: "length (ts_packets h0 h1 h2 cc pes) = (length pes + 183) div 184"
proof (induction h0 h1 h2 cc pes rule: ts_packets.induct)
  case (1 h0 h1 h2 cc pes)
  show ?case
  proof (cases "184 \<le> length pes")
    case True
    then obtain k where "length pes = 184 + k" using le_Suc_ex by blast
    then have "(length pes + 183) div 184 = Suc ((length pes - 184 + 183) div 184)"
      using div_add_self1 [of 184 "k + 183"] by (simp add: add.assoc)
    then show ?thesis using 1 True by (subst ts_packets.simps) simp
  next
    case False
    have "(length pes + 183) div 184 = 1" if "pes \<noteq> []"
      using that False by (cases pes) (auto simp: div_if)
    then show ?thesis using False by (subst ts_packets.simps) auto
  qed
qed

lemma ts_packets_headers:
  assumes "i < length (ts_packets h0 h1 h2 cc pes)"
  shows "(let q = ts_packets h0 h1 h2 cc pes ! i in
     length q = 188 \<and> q ! 0 = h0 \<and> q ! 2 = h2 \<and> q ! 1 = (if i = 0 then h1 else h1 AND NOT 0x40) \<and>
     q ! 3 AND 0x0f = (cc + of_nat i) AND 0x0f)"
  using assms
proof (induction h0 h1 h2 cc pes arbitrary: i rule: ts_packets.induct)
  case (1 h0 h1 h2 cc pes)
  show ?case
  proof (cases "184 \<le> length pes")
    case True
    note eq = ts_packets.simps [of h0 h1 h2 cc pes]
    show ?thesis
    proof (cases i)
      case 0
      then show ?thesis using True by (simp add: eq control_bits)
    next
      case (Suc j)
      then have "j < length (ts_packets h0 (h1 AND NOT 0x40) h2 (cc + 1) (drop 184 pes))"
        using "1.prems" True by (simp add: eq)
      from "1.IH" [OF True this] show ?thesis
        using True Suc by (simp add: eq Let_def start_bit(3) add.assoc split: if_splits)
    qed
  next
    case False
    then have "pes \<noteq> []" "i = 0" using "1.prems" by (auto simp: ts_packets.simps split: if_splits)
    then show ?thesis
      using False length_short_packet [of pes h0 h1 h2 cc]
      by (simp add: ts_packets.simps [of h0 h1 h2 cc pes] short_packet_def control_bits)
  qed
qed


section \<open>Back through the demultiplexer\<close>

fun payload_run :: "'c dmx_env \<Rightarrow> dvb_demux_feed \<Rightarrow> u8 list list \<Rightarrow> 'c \<Rightarrow> (dvb_demux_feed \<times> 'c) option" where
  "payload_run env feed [] c = Some (feed, c)"
| "payload_run env feed (buf # bufs) c =
     (case dvb_dmx_swfilter_payload env feed buf c of
        None \<Rightarrow> None
      | Some (r, feed, c) \<Rightarrow> payload_run env feed bufs c)"

definition collecting :: "u8 list dmx_env \<Rightarrow> bool" where
  "collecting env \<longleftrightarrow> (\<forall>f dat feed c. ts_cb env f dat feed c = (Inr 0, c @ dat))"

lemma payload_packet_run:
  assumes "collecting env" "length buf = 188" "payload buf = n" "n \<noteq> 0" "n \<le> 184"
  shows "\<exists>r. dvb_dmx_swfilter_payload env feed buf c =
    Some (r, feed\<lparr>peslen := (if buf ! 1 AND 0x40 \<noteq> 0 then 0xfffa else peslen feed) + of_nat n\<rparr>,
      c @ drop (188 - n) buf)"
  using assms by (simp add: dvb_dmx_swfilter_payload_def collecting_def)

lemma payload_run_packets:
  assumes "collecting env"
  shows "\<exists>feed'. payload_run env feed (ts_packets h0 h1 h2 cc pes) c = Some (feed', c @ pes) \<and>
    (pes \<noteq> [] \<longrightarrow> peslen feed' =
       (if h1 AND 0x40 \<noteq> 0 then 0xfffa else peslen feed) + of_nat (length pes)) \<and>
    (pes = [] \<longrightarrow> peslen feed' = peslen feed)"
proof (induction h0 h1 h2 cc pes arbitrary: feed c rule: ts_packets.induct)
  case (1 h0 h1 h2 cc pes)
  show ?case
  proof (cases "184 \<le> length pes")
    case True
    let ?pkt = "[h0, h1, h2, 0x10 OR (cc AND 0x0f)] @ take 184 pes"
    let ?feed = "feed\<lparr>peslen := (if h1 AND 0x40 \<noteq> 0 then 0xfffa else peslen feed) + 184\<rparr>"
    obtain r where run: "dvb_dmx_swfilter_payload env feed ?pkt c = Some (r, ?feed, c @ take 184 pes)"
      using payload_packet_run [OF assms _ payload_full, of h0 h1 h2 cc "take 184 pes" feed c] True by auto
    obtain feed' where rest: "payload_run env ?feed (ts_packets h0 (h1 AND NOT 0x40) h2 (cc + 1) (drop 184 pes))
        (c @ take 184 pes) = Some (feed', (c @ take 184 pes) @ drop 184 pes)"
      "drop 184 pes \<noteq> [] \<longrightarrow> peslen feed' = peslen ?feed + of_nat (length (drop 184 pes))"
      "drop 184 pes = [] \<longrightarrow> peslen feed' = peslen ?feed"
      using "1.IH" [OF True, of ?feed "c @ take 184 pes"] start_bit(1) [of h1] by auto
    define base where "base = (if h1 AND 0x40 \<noteq> 0 then 0xfffa else peslen feed)"
    have "peslen feed' = peslen ?feed + of_nat (length (drop 184 pes))"
      using rest(2,3) by (cases "drop 184 pes = []") (simp_all del: length_drop drop_eq_Nil)
    then have "peslen feed' = base + (184 + of_nat (length (drop 184 pes)))"
      unfolding base_def [symmetric] by (simp add: add.assoc del: length_drop)
    moreover have "of_nat (length pes) = (184 :: u16) + of_nat (length (drop 184 pes))"
      using True by (metis le_add_diff_inverse length_drop of_nat_add of_nat_numeral)
    ultimately have "peslen feed' = (if h1 AND 0x40 \<noteq> 0 then 0xfffa else peslen feed) + of_nat (length pes)"
      by (simp only: base_def)
    moreover have "payload_run env feed (ts_packets h0 h1 h2 cc pes) c = Some (feed', c @ pes)"
      using run rest(1) True by (subst ts_packets.simps) simp
    ultimately show ?thesis using True by auto
  next
    case False
    show ?thesis
    proof (cases "pes = []")
      case True
      then show ?thesis by (simp add: ts_packets.simps)
    next
      case ne: False
      have "length pes < 184" using False by simp
      moreover have "drop (188 - length pes) (short_packet h0 h1 h2 cc pes) = pes"
        by (rule drop_short_packet) (use ne False in auto)
      moreover have "short_packet h0 h1 h2 cc pes ! 1 = h1" by (simp add: short_packet_def)
      ultimately show ?thesis
        using payload_packet_run [OF assms, of "short_packet h0 h1 h2 cc pes" "length pes" feed c]
          length_short_packet [OF ne] payload_short [OF ne] ne
        by (subst ts_packets.simps) auto
    qed
  qed
qed


text \<open>
  C15: cutting a PES packet with \<open>dvb_filter_pes2ts\<close> always succeeds when the callback accepts the
  packets, and yields one packet for every started 184 bytes: each 188 bytes long with the sync byte
  and PID the structure was set up with, the start indicator on the first packet only, and continuity
  counters that count on from the stored one. Run through the demultiplexer's payload path, the
  packets give back exactly the PES packet, and \<open>peslen\<close> ends as its length field would have it.
\<close>

theorem pes2ts_roundtrip:
  assumes "length (p2ts_buf p) = 188" "collecting env" "pes \<noteq> []"
  shows "\<exists>p' pkts feed'. dvb_filter_pes2ts log_packet p pes [] = Some (0, p', pkts) \<and>
    length pkts = (length pes + 183) div 184 \<and>
    (\<forall>i < length pkts. length (pkts ! i) = 188 \<and> pkts ! i ! 0 = p2ts_buf p ! 0 \<and>
       pkts ! i ! 2 = p2ts_buf p ! 2 \<and> (pkts ! i ! 1 AND 0x40 \<noteq> 0 \<longleftrightarrow> i = 0) \<and>
       pkts ! i ! 1 AND NOT 0x40 = p2ts_buf p ! 1 AND NOT 0x40 \<and>
       pkts ! i ! 3 AND 0x0f = (p2ts_cc p + of_nat i) AND 0x0f) \<and>
    payload_run env feed pkts [] = Some (feed', pes) \<and> peslen feed' = of_nat (length pes) - 6"
proof -
  let ?pkts = "ts_packets (p2ts_buf p ! 0) (p2ts_buf p ! 1 OR 0x40) (p2ts_buf p ! 2) (p2ts_cc p) pes"
  obtain p' where cut: "dvb_filter_pes2ts log_packet p pes [] = Some (0, p', ?pkts)"
    using pes2ts_packets [OF assms(1), of pes "[]"] by auto
  have start: "(p2ts_buf p ! 1 OR 0x40) AND 0x40 \<noteq> 0" by (simp add: start_bit(2))
  obtain feed' where run: "payload_run env feed ?pkts [] = Some (feed', pes)"
      "peslen feed' = 0xfffa + of_nat (length pes)"
    using payload_run_packets [OF assms(2), of feed "p2ts_buf p ! 0" "p2ts_buf p ! 1 OR 0x40"
        "p2ts_buf p ! 2" "p2ts_cc p" pes "[]"] start assms(3) by auto
  have head: "length (?pkts ! i) = 188 \<and> ?pkts ! i ! 0 = p2ts_buf p ! 0 \<and>
       ?pkts ! i ! 2 = p2ts_buf p ! 2 \<and> (?pkts ! i ! 1 AND 0x40 \<noteq> 0 \<longleftrightarrow> i = 0) \<and>
       ?pkts ! i ! 1 AND NOT 0x40 = p2ts_buf p ! 1 AND NOT 0x40 \<and>
       ?pkts ! i ! 3 AND 0x0f = (p2ts_cc p + of_nat i) AND 0x0f" if "i < length ?pkts" for i
    using ts_packets_headers [OF that] start start_bit [of "p2ts_buf p ! 1"]
      start_bit [of "p2ts_buf p ! 1 OR 0x40"]
    by (cases "i = 0") (simp_all only: Let_def simp_thms if_True if_False)
  have "peslen feed' = of_nat (length pes) - 6" using run(2) by simp
  with cut run(1) head ts_packets_length show ?thesis by blast
qed


section \<open>What the AC-3 parser reports\<close>

lemma ac3_scan_first:
  assumes "n < count" "count \<le> length mbuf" "n + 1 < length mbuf" "mbuf ! n = 0x0b" "mbuf ! (n + 1) = 0x77"
    and "\<And>i. i < n \<Longrightarrow> \<not> (mbuf ! i = 0x0b \<and> mbuf ! (i + 1) = 0x77)" and "c \<le> n"
  shows "ac3_scan mbuf count c = Some (Some n)"
  using assms(7)
proof (induction "n - c" arbitrary: c)
  case 0
  then show ?case using assms(1-5) by (subst ac3_scan.simps) simp
next
  case (Suc k)
  then have "c < n" by simp
  moreover have "ac3_scan mbuf count (c + 1) = Some (Some n)" using Suc by simp
  ultimately show ?case using assms(1-3) assms(6) [of c] by (subst ac3_scan.simps) simp
qed

lemma ac3_code_bounds:
  fixes b :: u8
  shows "unat (drop_bit 6 (b AND 0xc0)) \<le> 3" "unat (drop_bit 1 (b AND 0x3f)) \<le> 31"
proof -
  have "unat (drop_bit 6 (b AND 0xc0)) = unat (b AND 0xc0) div 64"
    by (simp only: unat_drop_bit_eq) (simp add: drop_bit_eq_div)
  moreover have "unat (b AND 0xc0) \<le> 192" by (rule unat_and_mask_le) simp
  ultimately show "unat (drop_bit 6 (b AND 0xc0)) \<le> 3" by simp
  have "unat (drop_bit 1 (b AND 0x3f)) = unat (b AND 0x3f) div 2"
    by (simp only: unat_drop_bit_eq) (simp add: drop_bit_eq_div)
  moreover have "unat (b AND 0x3f) \<le> 63" by (rule unat_and_mask_le) simp
  ultimately show "unat (drop_bit 1 (b AND 0x3f)) \<le> 31" by simp
qed

text \<open>The size in 16 bit words of a frame of 1536 samples at a bit rate in kbit/s.\<close>

definition frame_words :: "nat \<Rightarrow> nat \<Rightarrow> nat" where
  "frame_words kbps hz = kbps * 1000 * 1536 div (hz * 16)"

definition ac3_hz :: "nat \<Rightarrow> nat" where
  "ac3_hz fr = unat (ac3_freq ! fr) * 100"

lemma ac3_hz_simps: "ac3_hz 0 = 48000" "ac3_hz (Suc 0) = 44100" "ac3_hz 2 = 32000"
  by (simp_all add: ac3_hz_def ac3_freq_def)

lemma ac3_frames_rows:
  "map unat (take 19 (ac3_frames ! 0)) = map (\<lambda>b. frame_words (unat b) 48000) (take 19 ac3_bitrates)"
  "map unat (take 19 (ac3_frames ! 1)) = map (\<lambda>b. frame_words (unat b) 44100) (take 19 ac3_bitrates)"
  "map unat (take 19 (ac3_frames ! 2)) = map (\<lambda>b. frame_words (unat b) 32000) (take 19 ac3_bitrates)"
  by (simp_all add: ac3_frames_def ac3_bitrates_def frame_words_def)

lemma ac3_frames_length: "length ac3_frames = 3" "fr < 3 \<Longrightarrow> length (ac3_frames ! fr) = 32"
    "length ac3_bitrates = 32" "length freq = 4"
  by (auto simp: ac3_frames_def ac3_bitrates_def freq_def less_Suc_eq numeral_eq_Suc)

lemma ac3_frames_nth:
  assumes "fr < 3" "k < 19"
  shows "unat (ac3_frames ! fr ! k) = frame_words (unat (ac3_bitrates ! k)) (ac3_hz fr)"
proof -
  have nth: "map f (take 19 xs) ! k = f (xs ! k)" if "length xs = 32" for f :: "u32 \<Rightarrow> nat" and xs
    using that assms(2) by simp
  from assms(1) consider "fr = 0" | "fr = 1" | "fr = 2" by linarith
  then show ?thesis
    using arg_cong [OF ac3_frames_rows(1), of "\<lambda>xs. xs ! k"] arg_cong [OF ac3_frames_rows(2), of "\<lambda>xs. xs ! k"]
      arg_cong [OF ac3_frames_rows(3), of "\<lambda>xs. xs ! k"]
    by cases (simp_all add: nth ac3_frames_length ac3_hz_simps del: take_map)
qed

lemma ac3_bitrates_le: "k < 19 \<Longrightarrow> unat (ac3_bitrates ! k) \<le> 640"
proof -
  assume "k < 19"
  moreover have "list_all (\<lambda>b. unat b \<le> 640) ac3_bitrates" by (simp add: ac3_bitrates_def)
  ultimately show ?thesis by (simp add: list_all_length ac3_frames_length)
qed

lemma ac3_frames_le:
  assumes "fr < 3" "k < 32"
  shows "unat (ac3_frames ! fr ! k) \<le> 1920"
proof -
  have "list_all (list_all (\<lambda>w. unat w \<le> 1920)) ac3_frames" by (simp add: ac3_frames_def)
  then show ?thesis using assms by (simp add: list_all_length ac3_frames_length)
qed

lemma unat_mult_small: "unat a * unat b < 2 ^ 32 \<Longrightarrow> unat (a * b) = unat a * unat b" for a b :: u32
  by (subst unat_mult_lem [THEN iffD1]) simp_all

lemma unat_add_small: "unat a + unat b < 2 ^ 32 \<Longrightarrow> unat (a + b) = unat a + unat b" for a b :: u32
  by (subst unat_add_lem [THEN iffD1]) simp_all

lemma and_1_odd: "(x AND 1 \<noteq> 0) = odd (unat x)" for x :: u8
proof -
  have "odd (unat x) = bit x 0"
    by (simp only: bit_0 [symmetric] bit_unsigned_iff) (simp add: bit_imp_le_length)
  then show ?thesis by (simp add: and_one_eq mod_2_eq_odd bit_0)
qed

text \<open>
  C16: the first sync word of a buffer that holds a whole header is found, and bit rate and frame size
  are those of the AC-3 standard, at the sampling rate the header's code stands for: the table agrees
  with \<open>bit rate * 1536 / sampling rate\<close>, with the odd codes one word longer at 44.1 kHz. But the
  frequency that is reported is another one: 44100 Hz for the code of 48 kHz and 48000 Hz for that of
  44.1 kHz.
\<close>

theorem ac3info_correct:
  assumes "n + 5 < count" "count \<le> length mbuf" "mbuf ! n = 0x0b" "mbuf ! (n + 1) = 0x77"
    and "\<And>i. i < n \<Longrightarrow> \<not> (mbuf ! i = 0x0b \<and> mbuf ! (i + 1) = 0x77)"
    and "fr = unat (drop_bit 6 (mbuf ! (n + 4) AND 0xc0))" "k = unat (drop_bit 1 (mbuf ! (n + 4) AND 0x3f))"
    and "fr \<noteq> 3" "k < 19"
  shows "\<exists>ai'. dvb_filter_get_ac3info mbuf count ai = Some (Inr 0, ai') \<and> ai_off ai' = of_nat n \<and>
    unat (ai_bit_rate ai') = unat (ac3_bitrates ! k) * 1000 \<and>
    unat (ai_framesize ai') = 2 * (frame_words (unat (ac3_bitrates ! k)) (ac3_hz fr) +
      (if odd (unat (mbuf ! (n + 4) AND 0x3f)) \<and> fr = 1 then 1 else 0)) \<and>
    unat (ai_frequency ai') = (if fr = 0 then 44100 else if fr = 1 then 48000 else 32000)"
proof -
  let ?b = "mbuf ! (n + 4)"
  have fr: "fr < 3" using ac3_code_bounds(1) [of ?b] assms(6,8) by simp
  have scan: "ac3_scan mbuf count 0 = Some (Some n)"
    by (rule ac3_scan_first) (use assms in auto)
  define fs where "fs = (if (?b AND 0x3f) AND 1 \<noteq> 0 \<and> fr = 1 then ac3_frames ! fr ! k + 1 else ac3_frames ! fr ! k)"
  define ai' where "ai' = ai\<lparr>ai_off := of_nat n, ai_layer := 0, ai_bit_rate := ac3_bitrates ! k * 1000,
      ai_frequency := freq ! fr * 100, ai_framesize := push_bit 1 fs\<rparr>"
  have run: "dvb_filter_get_ac3info mbuf count ai = Some (Inr 0, ai')"
  proof -
    have rds: "rd mbuf (n + 2 + 2) = Some ?b"
        "rd ac3_bitrates (unat (drop_bit 1 (?b AND 0x3f))) = Some (ac3_bitrates ! k)"
        "rd freq fr = Some (freq ! fr)" "rd ac3_frames fr = Some (ac3_frames ! fr)"
        "rd (ac3_frames ! fr) (unat (drop_bit 1 (?b AND 0x3f))) = Some (ac3_frames ! fr ! k)"
      unfolding assms(7) [symmetric] using assms(1,2,9) fr by (simp_all add: ac3_frames_length numeral_eq_Suc)
    have "\<not> count \<le> n + 5" using assms(1) by simp
    then show ?thesis
      unfolding dvb_filter_get_ac3info_def ai'_def fs_def
      by (simp only: scan bind.bind_lunit option.case Let_def rds if_False assms(6) [symmetric])
  qed
  have small: "unat (ac3_frames ! fr ! k) \<le> 1920" by (rule ac3_frames_le) (use fr assms(9) in auto)
  have "unat (ac3_bitrates ! k * 1000) = unat (ac3_bitrates ! k) * 1000"
    using ac3_bitrates_le [OF assms(9)] by (subst unat_mult_small) simp_all
  moreover have "unat (push_bit 1 fs) = 2 * (frame_words (unat (ac3_bitrates ! k)) (ac3_hz fr) +
      (if odd (unat (?b AND 0x3f)) \<and> fr = 1 then 1 else 0))"
  proof -
    have "unat fs = unat (ac3_frames ! fr ! k) + (if odd (unat (?b AND 0x3f)) \<and> fr = 1 then 1 else 0)"
      using small and_1_odd [of "?b AND 0x3f"] unat_add_small [of "ac3_frames ! fr ! k" 1] by (auto simp: fs_def)
    moreover have "unat fs \<le> 1921" using calculation small by (auto split: if_splits)
    then have "unat (fs * 2) = unat fs * 2" by (subst unat_mult_small) simp_all
    ultimately show ?thesis
      by (simp add: push_bit_eq_mult ac3_frames_nth [OF fr assms(9)])
  qed
  moreover have "unat (freq ! fr * 100) = (if fr = 0 then 44100 else if fr = 1 then 48000 else 32000)"
  proof -
    from fr consider "fr = 0" | "fr = 1" | "fr = 2" by linarith
    then show ?thesis by cases (simp_all add: freq_def)
  qed
  ultimately show ?thesis using run by (simp add: ai'_def)
qed

definition ex_collect :: "u8 list dmx_env" where
  "ex_collect = \<lparr>sec_cb = (\<lambda>_ _ _ c. (Inr 0, c)), ts_cb = (\<lambda>_ dat _ c. (Inr 0, c @ dat)),
     crc32_be = (\<lambda>_ _. 0), write_to_decoder = None, start_feed = None, stop_feed = None\<rparr>"

definition ex_p2ts :: pes2ts_state where
  "ex_p2ts = dvb_filter_pes2ts_init \<lparr>p2ts_buf = replicate 188 0, p2ts_cc = 9\<rparr> 0x123"

theorem pes2ts_roundtrip_witness:
  "\<exists>p' pkts feed'. dvb_filter_pes2ts log_packet ex_p2ts (replicate 200 7) [] = Some (0, p', pkts) \<and>
     length pkts = 2 \<and> pkts ! 1 ! 2 = 0x23 \<and>
     payload_run ex_collect (ex_feed 0) pkts [] = Some (feed', replicate 200 7) \<and> peslen feed' = 194"
proof -
  have "length (p2ts_buf ex_p2ts) = 188" "p2ts_buf ex_p2ts ! 2 = 0x23"
    by (simp_all add: ex_p2ts_def dvb_filter_pes2ts_init_def)
  moreover have "collecting ex_collect" by (simp add: collecting_def ex_collect_def)
  ultimately show ?thesis
    using pes2ts_roundtrip [of ex_p2ts ex_collect "replicate 200 7" "ex_feed 0"] by fastforce
qed

definition ex_audio_info :: dvb_audio_info where
  "ex_audio_info = \<lparr>ai_layer = 2, ai_bit_rate = 0, ai_frequency = 0, ai_mode = 0, ai_mode_extension = 0,
     ai_emphasis = 0, ai_framesize = 0, ai_off = 0\<rparr>"

theorem ac3info_correct_witness:
  "\<exists>ai'. dvb_filter_get_ac3info [1, 0x0b, 0x77, 0, 0, 0, 0, 0] 8 ex_audio_info = Some (Inr 0, ai') \<and>
     unat (ai_bit_rate ai') = 32000 \<and> unat (ai_framesize ai') = 128 \<and> unat (ai_frequency ai') = 44100"
proof -
  have "\<not> ([1, 0x0b, 0x77, 0, 0, 0, 0, 0 :: u8] ! i = 0x0b \<and> [1, 0x0b, 0x77, 0, 0, 0, 0, 0 :: u8] ! (i + 1) = 0x77)"
    if "i < 1" for i using that by simp
  from ac3info_correct [of 1 8 "[1, 0x0b, 0x77, 0, 0, 0, 0, 0]", OF _ _ _ _ this, of 0 0 ex_audio_info] show ?thesis
    by (auto simp: ac3_hz_simps frame_words_def ac3_bitrates_def)
qed

end
