(* ===== verification/Dvb_Net.thy ===== *)
theory Dvb_Net
  imports Demux_Properties Dvbdev
begin

text \<open>
  \<open>dvb_net.c\<close>: network interfaces that receive IP datagrams from the sections of a PID (multi protocol
  encapsulation). An interface is a client of the demultiplexer: it allocates a section feed, one
  section filter for each hardware address it listens to, and its callback turns a section into an
  ethernet frame.

  The interfaces of a \<open>dvb_net\<close> are the elements of an array; a pointer to one is its index, which is
  also the \<open>priv\<close> of its filters. The definitions follow the branches for kernels before 2.5.0. The
  demultiplexer (\<open>dvb_demux\<close>) and the hardware below it (\<open>'h\<close>) are threaded through the calls;
  \<open>intr\<close> is the interruption of the demux's mutex, for all calls a routine makes. \<open>None\<close> as a result
  means that a call does not return or leaves an array. Handing a packet to the kernel
  (\<open>netif_rx\<close>) appends it to \<open>nt_rx\<close>; \<open>schedule_work\<close> puts the work on \<open>nt_work\<close> unless it is there.
\<close>

section \<open>Types\<close>

definition DVB_NET_MULTICAST_MAX :: nat where "DVB_NET_MULTICAST_MAX = 10"
definition DVB_NET_DEVICES_MAX :: nat where "DVB_NET_DEVICES_MAX = 10"

datatype rx_mode = RX_MODE_UNI | RX_MODE_MULTI | RX_MODE_ALL_MULTI | RX_MODE_PROMISC

record net_device_stats =
  rx_packets :: u32
  rx_bytes :: u32
  rx_errors :: u32
  rx_dropped :: u32
  rx_length_errors :: u32
  rx_crc_errors :: u32
  rx_frame_errors :: u32

record dvb_net_priv =
  np_in_use :: int
  np_stats :: net_device_stats
  np_pid :: nat
  secfeed :: "nat option"
  secfilter :: "nat option"
  multi_num :: nat
  multi_secfilter :: "nat option list"
  multi_macs :: "u8 list list"
  np_rx_mode :: rx_mode

record net_device =
  nd_adapter_num :: nat
  nd_if_num :: nat             \<comment> \<open>the name is \<open>dvb<adapter>_<if_num>\<close>\<close>
  nd_dev_addr :: "u8 list"
  nd_broadcast :: "u8 list"
  nd_promisc :: bool
  nd_allmulti :: bool
  nd_noarp :: bool
  nd_mc_list :: "u8 list list"
  nd_running :: bool
  nd_mtu :: nat
  nd_base_addr :: nat
  nd_priv :: "dvb_net_priv option"

datatype pkt_type = PACKET_HOST | PACKET_BROADCAST | PACKET_MULTICAST

text \<open>\<open>skb_head\<close> is what \<open>mac.raw\<close> points to, \<open>skb_data\<close> the data after it. The protocol is in host
  order.\<close>

record sk_buff =
  skb_dev :: nat
  skb_head :: "u8 list"
  skb_data :: "u8 list"
  skb_pkt_type :: pkt_type
  skb_protocol :: u16

datatype net_work = Work_Set_Multicast nat | Work_Restart_Feed nat

record dvb_net =
  nt_state :: "bool list"
  nt_device :: "net_device list"
  nt_rx :: "sk_buff list"
  nt_work :: "net_work list"


section \<open>Receiving\<close>

definition ETH_P_802_3 :: u16 where "ETH_P_802_3 = 0x0001"
definition ETH_P_802_2 :: u16 where "ETH_P_802_2 = 0x0004"

text \<open>The frame is split behind the 14 byte header (\<open>hard_header_len\<close>).\<close>

definition dvb_net_eth_type_trans :: "nat \<Rightarrow> net_device \<Rightarrow> u8 list \<Rightarrow> sk_buff option" where
  "dvb_net_eth_type_trans n dev frame =
     (let eth = take 14 frame; dat = drop 14 frame;
          ptype = (if eth ! 0 AND 1 \<noteq> 0 then
                     (if take 6 eth = nd_broadcast dev then PACKET_BROADCAST else PACKET_MULTICAST)
                   else PACKET_HOST);
          h_proto = push_bit 8 (ucast (eth ! 12)) OR (ucast (eth ! 13) :: u16)
      in if h_proto \<ge> 1536
         then Some \<lparr>skb_dev = n, skb_head = eth, skb_data = dat, skb_pkt_type = ptype, skb_protocol = h_proto\<rparr>
         else do {
           b0 \<leftarrow> rd dat 0;
           b1 \<leftarrow> rd dat 1;
           Some \<lparr>skb_dev = n, skb_head = eth, skb_data = dat, skb_pkt_type = ptype,
             skb_protocol = (if b0 = 0xff \<and> b1 = 0xff then ETH_P_802_3 else ETH_P_802_2)\<rparr>
         })"

definition upd_stats :: "(net_device_stats \<Rightarrow> net_device_stats) \<Rightarrow> net_device \<Rightarrow> net_device" where
  "upd_stats g dev = dev\<lparr>nd_priv := map_option (\<lambda>p. p\<lparr>np_stats := g (np_stats p)\<rparr>) (nd_priv dev)\<rparr>"

text \<open>
  \<open>pkt\<close> holds the \<open>pkt_len\<close> bytes of the section. The new device and the packet for \<open>netif_rx\<close>, if any;
  \<open>mem_ok\<close>: \<open>dev_alloc_skb\<close> succeeds. \<open>None\<close> where the private data is a null pointer.
\<close>

definition dvb_net_sec ::
  "bool \<Rightarrow> nat \<Rightarrow> net_device \<Rightarrow> u8 list \<Rightarrow> (net_device \<times> sk_buff option) option" where
  "dvb_net_sec mem_ok n dev pkt =
     (if nd_priv dev = None then None
      else if length pkt < 16 then
        Some (upd_stats (\<lambda>s. s\<lparr>rx_errors := rx_errors s + 1, rx_length_errors := rx_length_errors s + 1\<rparr>) dev, None)
      else if pkt ! 5 AND 0xfd \<noteq> 0xc1 then
        Some (upd_stats (\<lambda>s. s\<lparr>rx_errors := rx_errors s + 1, rx_crc_errors := rx_crc_errors s + 1\<rparr>) dev, None)
      else if pkt ! 5 AND 0x02 \<noteq> 0 then
        Some (upd_stats (\<lambda>s. s\<lparr>rx_dropped := rx_dropped s + 1\<rparr>) dev, None)
      else if pkt ! 7 \<noteq> 0 then
        Some (upd_stats (\<lambda>s. s\<lparr>rx_errors := rx_errors s + 1, rx_frame_errors := rx_frame_errors s + 1\<rparr>) dev, None)
      else if \<not> mem_ok then
        Some (upd_stats (\<lambda>s. s\<lparr>rx_dropped := rx_dropped s + 1\<rparr>) dev, None)
      else do {
        let eth = [pkt ! 0x0b, pkt ! 0x0a, pkt ! 0x09, pkt ! 0x08, pkt ! 0x04, pkt ! 0x03] @
                  replicate 6 0 @ [0x08, 0x00] @ take (length pkt - 12 - 4) (drop 12 pkt);
        skb \<leftarrow> dvb_net_eth_type_trans n dev eth;
        Some (upd_stats (\<lambda>s. s\<lparr>rx_packets := rx_packets s + 1,
                rx_bytes := rx_bytes s + of_nat (length (skb_data skb))\<rparr>) dev, Some skb)
      })"

text \<open>The callback the demux knows by the number \<open>CB_NET\<close>; its state are the devices and the packets
  received. A device number in the filter is never out of range.\<close>

definition CB_NET :: nat where "CB_NET = 2"

definition dvb_net_callback ::
  "bool \<Rightarrow> u8 list \<Rightarrow> dvb_demux_filter \<Rightarrow> net_device list \<times> sk_buff list \<Rightarrow>
   (cret \<times> net_device list \<times> sk_buff list) option" where
  "dvb_net_callback mem_ok buffer1 flt c = do {
     n \<leftarrow> filter_priv flt;
     let (devs, rx) = c;
     dev \<leftarrow> rd devs n;
     (dev, skb) \<leftarrow> dvb_net_sec mem_ok n dev buffer1;
     Some (Inr 0, devs[n := dev], rx @ (case skb of None \<Rightarrow> [] | Some p \<Rightarrow> [p]))
   }"

definition dvb_net_tx :: "u8 list \<Rightarrow> cret" where
  "dvb_net_tx skb = Inr 0"

definition dvb_net_get_stats :: "net_device \<Rightarrow> net_device_stats option" where
  "dvb_net_get_stats dev = map_option np_stats (nd_priv dev)"


section \<open>Filters and feeds\<close>

definition mask_normal :: "u8 list" where "mask_normal = [0xff, 0xff, 0xff, 0xff, 0xff, 0xff]"
definition mask_allmulti :: "u8 list" where "mask_allmulti = [0xff, 0xff, 0xff, 0x00, 0x00, 0x00]"
definition mac_allmulti :: "u8 list" where "mac_allmulti = [0x01, 0x00, 0x5e, 0x00, 0x00, 0x00]"
definition mask_promisc :: "u8 list" where "mask_promisc = [0x00, 0x00, 0x00, 0x00, 0x00, 0x00]"

text \<open>What \<open>dvb_net_filter_set\<close> writes into the filter it has allocated.\<close>

definition net_filter_fill :: "nat \<Rightarrow> u8 list \<Rightarrow> u8 list \<Rightarrow> dvb_demux_filter \<Rightarrow> dvb_demux_filter" where
  "net_filter_fill n mac mac_mask f =
     f\<lparr>filter_priv := Some n,
       filter_value := (replicate 18 0)[0 := 0x3e, 3 := mac ! 5, 4 := mac ! 4, 8 := mac ! 3,
         9 := mac ! 2, 10 := mac ! 1, 11 := mac ! 0],
       filter_mask := (replicate 18 0)[0 := 0xff, 3 := mac_mask ! 5, 4 := mac_mask ! 4, 8 := mac_mask ! 3,
         9 := mac_mask ! 2, 10 := mac_mask ! 1, 11 := mac_mask ! 0],
       filter_mode := replicate 18 0xff\<rparr>"

text \<open>The filter pointer that is left in \<open>*secfilter\<close> is the second component.\<close>

definition dvb_net_filter_set ::
  "bool \<Rightarrow> nat \<Rightarrow> nat \<Rightarrow> u8 list \<Rightarrow> u8 list \<Rightarrow> dvb_demux \<Rightarrow> cret \<times> nat option \<times> dvb_demux" where
  "dvb_net_filter_set intr n feed mac mac_mask d =
     (case dmx_section_feed_allocate_filter intr feed d of
        (Inl e, d) \<Rightarrow> (Inl e, None, d)
      | (Inr j, d) \<Rightarrow> (Inr 0, Some j, upd_filter j (net_filter_fill n mac mac_mask) d))"

text \<open>The loop over the multicast addresses: position \<open>i\<close> of \<open>multi_secfilter\<close> and \<open>multi_macs\<close>.\<close>

fun set_multi_filters ::
  "bool \<Rightarrow> nat \<Rightarrow> nat \<Rightarrow> u8 list list \<Rightarrow> nat list \<Rightarrow> nat option list \<Rightarrow> dvb_demux \<Rightarrow> nat option list \<times> dvb_demux"
where
  "set_multi_filters intr n feed macs [] fs d = (fs, d)"
| "set_multi_filters intr n feed macs (i # is) fs d =
     (let (_, j, d) = dvb_net_filter_set intr n feed (macs ! i) mask_normal d
      in set_multi_filters intr n feed macs is (fs[i := j]) d)"

definition dvb_net_feed_start ::
  "'h dmx_env \<Rightarrow> bool \<Rightarrow> nat \<Rightarrow> net_device \<Rightarrow> dvb_net_priv \<Rightarrow> dvb_demux \<Rightarrow> 'h \<Rightarrow>
   cret \<times> dvb_net_priv \<times> dvb_demux \<times> 'h" where
  "dvb_net_feed_start env intr n dev priv d h =
     (let priv = priv\<lparr>secfeed := None, secfilter := None\<rparr> in
      case dvbdmx_allocate_section_feed intr CB_NET d of
        (Inl e, d) \<Rightarrow> (Inl e, priv, d, h)
      | (Inr feed, d) \<Rightarrow>
         (let priv = priv\<lparr>secfeed := Some feed\<rparr> in
          case dmx_section_feed_set intr feed (np_pid priv) 32768 False True d of
            (Inl e, d) \<Rightarrow>
              (let (_, d) = dvbdmx_release_section_feed intr feed d in (Inl e, priv\<lparr>secfeed := None\<rparr>, d, h))
          | (Inr _, d) \<Rightarrow>
             (let (priv, d) =
                (if np_rx_mode priv \<noteq> RX_MODE_PROMISC
                 then (let (_, j, d) = dvb_net_filter_set intr n feed (nd_dev_addr dev) mask_normal d
                       in (priv\<lparr>secfilter := j\<rparr>, d))
                 else (priv, d));
                  (priv, d) =
                (case np_rx_mode priv of
                   RX_MODE_UNI \<Rightarrow> (priv, d)
                 | RX_MODE_MULTI \<Rightarrow>
                     (let (fs, d) = set_multi_filters intr n feed (multi_macs priv) [0 ..< multi_num priv]
                                      (multi_secfilter priv) d
                      in (priv\<lparr>multi_secfilter := fs\<rparr>, d))
                 | RX_MODE_ALL_MULTI \<Rightarrow>
                     (let (_, j, d) = dvb_net_filter_set intr n feed mac_allmulti mask_allmulti d
                      in (priv\<lparr>multi_num := 1, multi_secfilter := (multi_secfilter priv)[0 := j]\<rparr>, d))
                 | RX_MODE_PROMISC \<Rightarrow>
                     (let (_, j, d) = dvb_net_filter_set intr n feed (nd_dev_addr dev) mask_promisc d
                      in (priv\<lparr>multi_num := 0, secfilter := j\<rparr>, d)));
                  (_, d, h) = dmx_section_feed_start_filtering env intr feed d h
              in (Inr 0, priv, d, h))))"

definition net_release_filter :: "bool \<Rightarrow> nat \<Rightarrow> nat \<Rightarrow> dvb_demux \<Rightarrow> dvb_demux option" where
  "net_release_filter intr feed j d =
     (case dmx_section_feed_release_filter intr intr feed j d of
        Returns (_, d) \<Rightarrow> Some d | _ \<Rightarrow> None)"

fun release_multi_filters ::
  "bool \<Rightarrow> nat \<Rightarrow> nat list \<Rightarrow> nat option list \<Rightarrow> dvb_demux \<Rightarrow> (nat option list \<times> dvb_demux) option" where
  "release_multi_filters intr feed [] fs d = Some (fs, d)"
| "release_multi_filters intr feed (i # is) fs d =
     (case fs ! i of
        None \<Rightarrow> release_multi_filters intr feed is fs d
      | Some j \<Rightarrow> do {
          d \<leftarrow> net_release_filter intr feed j d;
          release_multi_filters intr feed is (fs[i := None]) d
        })"

definition dvb_net_feed_stop ::
  "'h dmx_env \<Rightarrow> bool \<Rightarrow> dvb_net_priv \<Rightarrow> dvb_demux \<Rightarrow> 'h \<Rightarrow> (dvb_net_priv \<times> dvb_demux \<times> 'h) option" where
  "dvb_net_feed_stop env intr priv d h =
     (case secfeed priv of None \<Rightarrow> Some (priv, d, h)
      | Some feed \<Rightarrow> do {
          let (_, d, h) = (if is_filtering (dmx_feeds d ! feed)
                           then dmx_section_feed_stop_filtering env intr feed d h else (Inr 0, d, h));
          (priv, d) \<leftarrow> (case secfilter priv of
             None \<Rightarrow> Some (priv, d)
           | Some j \<Rightarrow> map_option (\<lambda>d. (priv\<lparr>secfilter := None\<rparr>, d)) (net_release_filter intr feed j d));
          (fs, d) \<leftarrow> release_multi_filters intr feed [0 ..< multi_num priv] (multi_secfilter priv) d;
          let (_, d) = dvbdmx_release_section_feed intr feed d;
          Some (priv\<lparr>multi_secfilter := fs, secfeed := None\<rparr>, d, h)
        })"


section \<open>Configuration and work queue\<close>

definition dvb_set_mc_filter :: "u8 list \<Rightarrow> dvb_net_priv \<Rightarrow> cret \<times> dvb_net_priv" where
  "dvb_set_mc_filter addr priv =
     (if multi_num priv = DVB_NET_MULTICAST_MAX then (Inl ENOMEM, priv)
      else (Inr 0, priv\<lparr>multi_macs := (multi_macs priv)[multi_num priv := addr],
                         multi_num := multi_num priv + 1\<rparr>))"

definition multicast_config :: "net_device \<Rightarrow> dvb_net_priv \<Rightarrow> dvb_net_priv" where
  "multicast_config dev priv =
     (let priv = priv\<lparr>np_rx_mode := RX_MODE_UNI\<rparr> in
      if nd_promisc dev then priv\<lparr>np_rx_mode := RX_MODE_PROMISC\<rparr>
      else if nd_allmulti dev then priv\<lparr>np_rx_mode := RX_MODE_ALL_MULTI\<rparr>
      else if nd_mc_list dev \<noteq> [] then
        fold (\<lambda>addr p. snd (dvb_set_mc_filter addr p)) (nd_mc_list dev)
          (priv\<lparr>np_rx_mode := RX_MODE_MULTI, multi_num := 0\<rparr>)
      else priv)"

text \<open>A call on interface \<open>n\<close> that works on its private data, the demux and the hardware.\<close>

definition on_device ::
  "nat \<Rightarrow> (net_device \<Rightarrow> dvb_net_priv \<Rightarrow> dvb_demux \<Rightarrow> 'h \<Rightarrow> (dvb_net_priv \<times> dvb_demux \<times> 'h) option) \<Rightarrow>
   dvb_net \<Rightarrow> dvb_demux \<Rightarrow> 'h \<Rightarrow> (dvb_net \<times> dvb_demux \<times> 'h) option" where
  "on_device n g net d h = do {
     dev \<leftarrow> rd (nt_device net) n;
     priv \<leftarrow> nd_priv dev;
     (priv, d, h) \<leftarrow> g dev priv d h;
     Some (net\<lparr>nt_device := (nt_device net)[n := dev\<lparr>nd_priv := Some priv\<rparr>]\<rparr>, d, h)
   }"

definition start_feed_of ::
  "'h dmx_env \<Rightarrow> bool \<Rightarrow> nat \<Rightarrow> net_device \<Rightarrow> dvb_net_priv \<Rightarrow> dvb_demux \<Rightarrow> 'h \<Rightarrow>
   (dvb_net_priv \<times> dvb_demux \<times> 'h) option" where
  "start_feed_of env intr n dev priv d h = Some (snd (dvb_net_feed_start env intr n dev priv d h))"

definition wq_set_multicast_list ::
  "'h dmx_env \<Rightarrow> bool \<Rightarrow> nat \<Rightarrow> dvb_net \<Rightarrow> dvb_demux \<Rightarrow> 'h \<Rightarrow> (dvb_net \<times> dvb_demux \<times> 'h) option" where
  "wq_set_multicast_list env intr n =
     on_device n (\<lambda>dev priv d h. do {
       (priv, d, h) \<leftarrow> dvb_net_feed_stop env intr priv d h;
       start_feed_of env intr n dev (multicast_config dev priv) d h
     })"

definition schedule_work :: "net_work \<Rightarrow> dvb_net \<Rightarrow> dvb_net" where
  "schedule_work w net = (if w \<in> set (nt_work net) then net else net\<lparr>nt_work := nt_work net @ [w]\<rparr>)"

definition dvb_net_set_multicast_list :: "nat \<Rightarrow> dvb_net \<Rightarrow> dvb_net" where
  "dvb_net_set_multicast_list n net = schedule_work (Work_Set_Multicast n) net"

definition dvb_net_set_config :: "net_device \<Rightarrow> cret" where
  "dvb_net_set_config dev = (if nd_running dev then Inl EBUSY else Inr 0)"

definition wq_restart_net_feed ::
  "'h dmx_env \<Rightarrow> bool \<Rightarrow> nat \<Rightarrow> dvb_net \<Rightarrow> dvb_demux \<Rightarrow> 'h \<Rightarrow> (dvb_net \<times> dvb_demux \<times> 'h) option" where
  "wq_restart_net_feed env intr n =
     on_device n (\<lambda>dev priv d h.
       if nd_running dev then do {
         (priv, d, h) \<leftarrow> dvb_net_feed_stop env intr priv d h;
         start_feed_of env intr n dev priv d h
       } else Some (priv, d, h))"

definition dvb_net_set_mac :: "nat \<Rightarrow> u8 list \<Rightarrow> dvb_net \<Rightarrow> (cret \<times> dvb_net) option" where
  "dvb_net_set_mac n sa_data net = do {
     dev \<leftarrow> rd (nt_device net) n;
     let net = net\<lparr>nt_device := (nt_device net)[n := dev\<lparr>nd_dev_addr := take 6 sa_data\<rparr>]\<rparr>;
     Some (Inr 0, if nd_running dev then schedule_work (Work_Restart_Feed n) net else net)
   }"

definition run_work ::
  "'h dmx_env \<Rightarrow> bool \<Rightarrow> net_work \<Rightarrow> dvb_net \<Rightarrow> dvb_demux \<Rightarrow> 'h \<Rightarrow> (dvb_net \<times> dvb_demux \<times> 'h) option" where
  "run_work env intr w =
     (case w of Work_Set_Multicast n \<Rightarrow> wq_set_multicast_list env intr n
      | Work_Restart_Feed n \<Rightarrow> wq_restart_net_feed env intr n)"

text \<open>\<open>flush_scheduled_work\<close> runs what is pending, oldest first.\<close>

fun run_works ::
  "'h dmx_env \<Rightarrow> bool \<Rightarrow> net_work list \<Rightarrow> dvb_net \<Rightarrow> dvb_demux \<Rightarrow> 'h \<Rightarrow> (dvb_net \<times> dvb_demux \<times> 'h) option" where
  "run_works env intr [] net d h = Some (net, d, h)"
| "run_works env intr (w # ws) net d h = do {
     (net, d, h) \<leftarrow> run_work env intr w net d h;
     run_works env intr ws net d h
   }"

definition flush_scheduled_work ::
  "'h dmx_env \<Rightarrow> bool \<Rightarrow> dvb_net \<Rightarrow> dvb_demux \<Rightarrow> 'h \<Rightarrow> (dvb_net \<times> dvb_demux \<times> 'h) option" where
  "flush_scheduled_work env intr net d h = run_works env intr (nt_work net) (net\<lparr>nt_work := []\<rparr>) d h"

definition dvb_net_open ::
  "'h dmx_env \<Rightarrow> bool \<Rightarrow> nat \<Rightarrow> dvb_net \<Rightarrow> dvb_demux \<Rightarrow> 'h \<Rightarrow> (dvb_net \<times> dvb_demux \<times> 'h) option" where
  "dvb_net_open env intr n =
     on_device n (\<lambda>dev priv d h. start_feed_of env intr n dev (priv\<lparr>np_in_use := np_in_use priv + 1\<rparr>) d h)"

definition dvb_net_stop ::
  "'h dmx_env \<Rightarrow> bool \<Rightarrow> nat \<Rightarrow> dvb_net \<Rightarrow> dvb_demux \<Rightarrow> 'h \<Rightarrow> (dvb_net \<times> dvb_demux \<times> 'h) option" where
  "dvb_net_stop env intr n =
     on_device n (\<lambda>dev priv d h. dvb_net_feed_stop env intr (priv\<lparr>np_in_use := np_in_use priv - 1\<rparr>) d h)"


section \<open>Interfaces\<close>

definition get_if :: "dvb_net \<Rightarrow> nat option \<times> dvb_net" where
  "get_if net =
     (case first_index (\<lambda>used. \<not> used) (nt_state net) of
        None \<Rightarrow> (None, net)
      | Some i \<Rightarrow> (Some i, net\<lparr>nt_state := (nt_state net)[i := True]\<rparr>))"

definition new_priv :: "nat \<Rightarrow> dvb_net_priv" where
  "new_priv pid = \<lparr>np_in_use = 0,
     np_stats = \<lparr>rx_packets = 0, rx_bytes = 0, rx_errors = 0, rx_dropped = 0, rx_length_errors = 0,
       rx_crc_errors = 0, rx_frame_errors = 0\<rparr>,
     np_pid = pid, secfeed = None, secfilter = None, multi_num = 0,
     multi_secfilter = replicate DVB_NET_MULTICAST_MAX None,
     multi_macs = replicate DVB_NET_MULTICAST_MAX (replicate 6 0), np_rx_mode = RX_MODE_UNI\<rparr>"

text \<open>\<open>ether_setup\<close> sets the broadcast address.\<close>

definition dvb_net_init_dev :: "net_device \<Rightarrow> net_device" where
  "dvb_net_init_dev dev = dev\<lparr>nd_broadcast := replicate 6 0xff, nd_mtu := 4096, nd_mc_list := [],
     nd_noarp := True\<rparr>"

text \<open>\<open>mem_ok\<close>: the private data can be allocated; \<open>reg\<close>: what \<open>register_netdev\<close> returns after calling the
  device's \<open>init\<close>.\<close>

definition dvb_net_add_if ::
  "dvb_adapter \<Rightarrow> bool \<Rightarrow> cret \<Rightarrow> nat \<Rightarrow> dvb_net \<Rightarrow> cret \<times> dvb_net" where
  "dvb_net_add_if adapter mem_ok reg pid net =
     (case get_if net of
        (None, net) \<Rightarrow> (Inl EINVAL, net)
      | (Some i, net) \<Rightarrow>
         (let dev = \<lparr>nd_adapter_num = ad_num adapter, nd_if_num = i, nd_dev_addr = ad_proposed_mac adapter,
                     nd_broadcast = replicate 6 0, nd_promisc = False, nd_allmulti = False, nd_noarp = False,
                     nd_mc_list = [], nd_running = False, nd_mtu = 0, nd_base_addr = 0, nd_priv = None\<rparr>
          in if \<not> mem_ok then (Inl ENOMEM, net\<lparr>nt_device := (nt_device net)[i := dev]\<rparr>)
             else
              (let dev = dvb_net_init_dev (dev\<lparr>nd_priv := Some (new_priv pid), nd_base_addr := pid\<rparr>);
                   net = net\<lparr>nt_device := (nt_device net)[i := dev]\<rparr>
               in case reg of Inl e \<Rightarrow> (Inl e, net) | Inr _ \<Rightarrow> (Inr i, net))))"

text \<open>\<open>num\<close> comes from the user without a check: outside the arrays the result is \<open>None\<close>.\<close>

definition dvb_net_remove_if ::
  "'h dmx_env \<Rightarrow> bool \<Rightarrow> nat \<Rightarrow> dvb_net \<Rightarrow> dvb_demux \<Rightarrow> 'h \<Rightarrow> (cret \<times> dvb_net \<times> dvb_demux \<times> 'h) option" where
  "dvb_net_remove_if env intr num net d h = do {
     dev \<leftarrow> rd (nt_device net) num;
     used \<leftarrow> rd (nt_state net) num;
     if \<not> used then Some (Inl EINVAL, net, d, h)
     else do {
       priv \<leftarrow> nd_priv dev;
       if np_in_use priv \<noteq> 0 then Some (Inl EBUSY, net, d, h)
       else do {
         (net, d, h) \<leftarrow> dvb_net_stop env intr num net d h;
         (net, d, h) \<leftarrow> flush_scheduled_work env intr net d h;
         dev \<leftarrow> rd (nt_device net) num;
         Some (Inr 0, net\<lparr>nt_device := (nt_device net)[num := dev\<lparr>nd_priv := None\<rparr>],
                          nt_state := (nt_state net)[num := False]\<rparr>, d, h)
       }
     }
   }"

datatype net_ioctl = NET_ADD_IF nat | NET_REMOVE_IF nat | NET_GET_IF nat | NET_OTHER

text \<open>
  The argument structure \<open>dvb_net_if\<close> is an argument of the command and its new value, as a pair
  \<open>(pid, if_num)\<close>, part of the result.
\<close>

definition dvb_net_do_ioctl ::
  "'h dmx_env \<Rightarrow> dvb_adapter \<Rightarrow> bool \<Rightarrow> bool \<Rightarrow> cret \<Rightarrow> bool \<Rightarrow> dvb_file \<Rightarrow> net_ioctl \<Rightarrow> dvb_net \<Rightarrow>
   dvb_demux \<Rightarrow> 'h \<Rightarrow> (cret \<times> (nat \<times> nat) option \<times> dvb_net \<times> dvb_demux \<times> 'h) option" where
  "dvb_net_do_ioctl env adapter intr mem_ok reg admin fl cmd net d h =
     (if f_rdonly fl then Some (Inl EPERM, None, net, d, h)
      else case cmd of
        NET_ADD_IF pid \<Rightarrow>
          if \<not> admin then Some (Inl EPERM, None, net, d, h)
          else (case dvb_net_add_if adapter mem_ok reg pid net of
                  (Inl e, net) \<Rightarrow> Some (Inl e, None, net, d, h)
                | (Inr i, net) \<Rightarrow> Some (Inr 0, Some (pid, i), net, d, h))
      | NET_GET_IF i \<Rightarrow>
          if i \<ge> DVB_NET_DEVICES_MAX \<or> \<not> nt_state net ! i then Some (Inl EFAULT, None, net, d, h)
          else do {
            dev \<leftarrow> rd (nt_device net) i;
            priv \<leftarrow> nd_priv dev;
            Some (Inr 0, Some (np_pid priv, i), net, d, h)
          }
      | NET_REMOVE_IF num \<Rightarrow>
          if \<not> admin then Some (Inl EPERM, None, net, d, h)
          else map_option (\<lambda>(r, net, d, h). (r, None, net, d, h)) (dvb_net_remove_if env intr num net d h)
      | NET_OTHER \<Rightarrow> Some (Inl EINVAL, None, net, d, h))"

fun remove_ifs ::
  "'h dmx_env \<Rightarrow> bool \<Rightarrow> nat list \<Rightarrow> dvb_net \<Rightarrow> dvb_demux \<Rightarrow> 'h \<Rightarrow> (dvb_net \<times> dvb_demux \<times> 'h) option" where
  "remove_ifs env intr [] net d h = Some (net, d, h)"
| "remove_ifs env intr (i # is) net d h = do {
     (net, d, h) \<leftarrow> (if \<not> nt_state net ! i then Some (net, d, h)
                      else map_option snd (dvb_net_remove_if env intr i net d h));
     remove_ifs env intr is net d h
   }"

definition dvb_net_release ::
  "'h dmx_env \<Rightarrow> bool \<Rightarrow> nat option \<Rightarrow> dvbdev_state \<Rightarrow> dvb_net \<Rightarrow> dvb_demux \<Rightarrow> 'h \<Rightarrow>
   (dvbdev_state \<times> dvb_net \<times> dvb_demux \<times> 'h) option" where
  "dvb_net_release env intr dvbdev reg net d h = do {
     reg \<leftarrow> dvb_unregister_device dvbdev reg;
     (net, d, h) \<leftarrow> remove_ifs env intr [0 ..< DVB_NET_DEVICES_MAX] net d h;
     Some (reg, net, d, h)
   }"

definition dvbdev_net :: dvb_device where
  "dvbdev_net = \<lparr>dd_fops = Some 1, dd_devfs_handle = None, dd_adapter = 0, dd_type = 0, dd_id = 0,
     dd_readers = 0, dd_writers = 1, dd_users = 1, dd_kernel_ioctl = None, dd_priv = 0\<rparr>"

text \<open>The result of \<open>dvb_register_device\<close> is ignored. \<open>net\<close> is the memory handed in.\<close>

definition dvb_net_init ::
  "nat \<Rightarrow> nat \<Rightarrow> bool \<Rightarrow> nat option \<Rightarrow> dvbdev_state \<Rightarrow> dvb_net \<Rightarrow> (cret \<times> nat option \<times> dvbdev_state \<times> dvb_net) option"
where
  "dvb_net_init a self intr mem reg net = do {
     let net = net\<lparr>nt_state := replicate DVB_NET_DEVICES_MAX False\<rparr>;
     (_, dvbdev, reg) \<leftarrow> dvb_register_device a dvbdev_net self DVB_DEVICE_NET intr mem reg;
     Some (Inr 0, dvbdev, reg, net)
   }"

end
