(* ===== verification/Dvb_Net_Properties.thy ===== *)
theory Dvb_Net_Properties
  imports Dvb_Net
begin

text \<open>
  The network interfaces: which sections reach the callback of an interface, which frame the kernel
  gets for a section, and what happens to an interface that is removed while work for it is pending.
\<close>

section \<open>From a section to a frame\<close>

text \<open>
  A datagram section as the multiplexer makes it: the six bytes of the hardware address are spread
  over the header, the datagram follows, then the checksum.
\<close>

definition mpe_section :: "u8 \<Rightarrow> u8 \<Rightarrow> u8 list \<Rightarrow> u8 list \<Rightarrow> u8 list \<Rightarrow> u8 list" where
  "mpe_section l1 l2 mac ip crc =
     [0x3e, l1, l2, mac ! 5, mac ! 4, 0xc1, 0, 0, mac ! 3, mac ! 2, mac ! 1, mac ! 0] @ ip @ crc"

definition section_mac :: "u8 list \<Rightarrow> u8 list" where
  "section_mac sec = [sec ! 11, sec ! 10, sec ! 9, sec ! 8, sec ! 4, sec ! 3]"

lemma length_6_eq: "length mac = 6 \<Longrightarrow> [mac ! 0, mac ! 1, mac ! 2, mac ! 3, mac ! 4, mac ! 5] = mac"
  by (rule nth_equalityI) (auto simp: less_Suc_eq numeral_eq_Suc)

lemma section_mac_mpe: "length mac = 6 \<Longrightarrow> section_mac (mpe_section l1 l2 mac ip crc) = mac"
  by (simp add: section_mac_def mpe_section_def length_6_eq [simplified])

text \<open>The frame \<open>dvb_net_sec\<close> makes is always of type IP, so the 802.2 branches are not reached.\<close>

definition frame_type :: "net_device \<Rightarrow> u8 list \<Rightarrow> pkt_type" where
  "frame_type dev mac =
     (if mac ! 0 AND 1 = 0 then PACKET_HOST
      else if mac = nd_broadcast dev then PACKET_BROADCAST else PACKET_MULTICAST)"

lemma eth_type_trans_ip:
  assumes "length mac = 6"
  shows "dvb_net_eth_type_trans n dev (mac @ replicate 6 0 @ [0x08, 0x00] @ dat) =
    Some \<lparr>skb_dev = n, skb_head = mac @ replicate 6 0 @ [0x08, 0x00], skb_data = dat,
      skb_pkt_type = frame_type dev mac, skb_protocol = 0x0800\<rparr>"
proof -
  have m: "(mac @ xs) ! 0 = mac ! 0" "(mac @ replicate 6 0 @ [0x08, 0x00]) ! 12 = 0x08"
    "(mac @ replicate 6 0 @ [0x08, 0x00]) ! 13 = 0x00" for xs
    using assms by (simp_all add: nth_append)
  show ?thesis
    using assms m by (simp add: dvb_net_eth_type_trans_def frame_type_def Let_def)
qed

text \<open>Which sections become a frame; every other one is counted, under errors or as dropped.\<close>

definition deliverable :: "u8 list \<Rightarrow> bool" where
  "deliverable pkt \<longleftrightarrow> 16 \<le> length pkt \<and> pkt ! 5 AND 0xfd = 0xc1 \<and> pkt ! 5 AND 0x02 = 0 \<and> pkt ! 7 = 0"

lemma dvb_net_sec_delivers:
  assumes "deliverable pkt" "nd_priv dev = Some priv"
  shows "dvb_net_sec True n dev pkt =
    Some (upd_stats (\<lambda>s. s\<lparr>rx_packets := rx_packets s + 1, rx_bytes := rx_bytes s + of_nat (length pkt - 16)\<rparr>) dev,
      Some \<lparr>skb_dev = n, skb_head = section_mac pkt @ replicate 6 0 @ [0x08, 0x00],
        skb_data = take (length pkt - 16) (drop 12 pkt), skb_pkt_type = frame_type dev (section_mac pkt),
        skb_protocol = 0x0800\<rparr>)"
proof -
  have len: "length (section_mac pkt) = 6" by (simp add: section_mac_def)
  have eq: "[pkt ! 0x0b, pkt ! 0x0a, pkt ! 0x09, pkt ! 0x08, pkt ! 0x04, pkt ! 0x03] = section_mac pkt"
    by (simp add: section_mac_def)
  have diff: "length pkt - 12 - 4 = length pkt - 16" by simp
  have "length (take (length pkt - 16) (drop 12 pkt)) = length pkt - 16"
    using assms(1) by (simp add: deliverable_def)
  then show ?thesis
    using assms unfolding dvb_net_sec_def eq diff eth_type_trans_ip [OF len] deliverable_def Let_def
    by simp
qed

lemma dvb_net_sec_drops:
  assumes "\<not> deliverable pkt" "nd_priv dev = Some priv"
  shows "\<exists>dev'. dvb_net_sec True n dev pkt = Some (dev', None) \<and>
    (\<exists>g. dev' = upd_stats g dev \<and>
      (\<forall>s. rx_packets (g s) = rx_packets s \<and> rx_bytes (g s) = rx_bytes s \<and>
         rx_errors (g s) + rx_dropped (g s) = rx_errors s + rx_dropped s + 1))"
  using assms unfolding dvb_net_sec_def deliverable_def
  by (auto intro!: exI conjI)

text \<open>
  C17: a datagram section arrives as the ethernet frame it was made from: destination is the address
  spread over the section header, type is IP, and the data is the datagram without header and
  checksum; the interface's counters grow by one packet and the datagram's bytes.
\<close>

theorem mpe_section_to_frame:
  assumes "length mac = 6" "length crc = 4" "nd_priv dev = Some priv"
  shows "dvb_net_sec True n dev (mpe_section l1 l2 mac ip crc) =
    Some (dev\<lparr>nd_priv := Some (priv\<lparr>np_stats := (np_stats priv)\<lparr>rx_packets := rx_packets (np_stats priv) + 1,
        rx_bytes := rx_bytes (np_stats priv) + of_nat (length ip)\<rparr>\<rparr>)\<rparr>,
      Some \<lparr>skb_dev = n, skb_head = mac @ replicate 6 0 @ [0x08, 0x00], skb_data = ip,
        skb_pkt_type = frame_type dev mac, skb_protocol = 0x0800\<rparr>)"
proof -
  let ?sec = "mpe_section l1 l2 mac ip crc"
  have d: "deliverable ?sec" using assms(2) by (simp add: deliverable_def mpe_section_def)
  have len: "length ?sec - 16 = length ip" using assms(2) by (simp add: mpe_section_def)
  have dat: "take (length ip) (drop 12 ?sec) = ip" by (simp add: mpe_section_def)
  show ?thesis
    unfolding dvb_net_sec_delivers [OF d assms(3)] section_mac_mpe [OF assms(1)] len dat
    using assms(3) by (simp add: upd_stats_def)
qed


section \<open>The filter of an address\<close>










lemma allocate_filter_SomeD:
  assumes "dmx_section_feed_allocate_filter intr i d = (Inr j, d')"
  shows "j < length (dmx_filters d')"
proof -
  obtain j' d1 where alloc: "dvb_dmx_filter_alloc d = Some (j', d1)" and "j' = j"
    and d': "length (dmx_filters d') = length (dmx_filters d1)"
    using assms by (auto simp: dmx_section_feed_allocate_filter_def upd_feed_def upd_filter_def
        split: if_splits option.split_asm prod.split_asm)
  then have "first_index (\<lambda>f. filter_state f = DMX_STATE_FREE) (dmx_filters d) = Some j"
      "length (dmx_filters d1) = length (dmx_filters d)"
    by (auto simp: dvb_dmx_filter_alloc_def upd_filter_def)
  then show ?thesis using first_index_Some d' by fastforce
qed

lemma net_filter_set_SomeD:
  assumes "dvb_net_filter_set intr n feed mac mac_mask d = (r, Some j, d')"
  shows "\<exists>f. j < length (dmx_filters d') \<and> dmx_filters d' ! j = net_filter_fill n mac mac_mask f"
proof -
  obtain d1 where a: "dmx_section_feed_allocate_filter intr feed d = (Inr j, d1)"
      and d': "d' = upd_filter j (net_filter_fill n mac mac_mask) d1"
    using assms by (auto simp: dvb_net_filter_set_def split: prod.split_asm sum.split_asm)
  show ?thesis using allocate_filter_SomeD [OF a] by (auto simp: d' upd_filter_def)
qed



lemma filter_next_prepare [simp]: "filter_next (prepare_secfilter f) = filter_next f"
  by (simp add: prepare_secfilter_def Let_def)

lemma prepare_chain_single:
  "j < length fs \<Longrightarrow> filter_next (fs ! j) = None \<Longrightarrow>
     prepare_chain (length fs) (Some j) fs = fs[j := prepare_secfilter (fs ! j)]"
  by (cases "length fs") auto





section \<open>Opening and closing an interface\<close>

definition same_allocation :: "dvb_demux \<Rightarrow> dvb_demux \<Rightarrow> bool" where
  "same_allocation d d' \<longleftrightarrow> map feed_state (dmx_feeds d') = map feed_state (dmx_feeds d) \<and>
     map filter_state (dmx_filters d') = map filter_state (dmx_filters d) \<and> feed_list d' = feed_list d"

lemma release_multi_none:
  "\<forall>i \<in> set is. fs ! i = None \<Longrightarrow> release_multi_filters intr feed is fs d = Some (fs, d)"
  by (induction "is") auto

text \<open>Feed \<open>i\<close> holds the single filter \<open>j\<close>; everything else is as in \<open>d\<close>.\<close>

definition attached :: "dvb_demux \<Rightarrow> nat \<Rightarrow> nat \<Rightarrow> dvb_demux \<Rightarrow> bool" where
  "attached d i j d' \<longleftrightarrow> (\<exists>fl fe. dmx_filters d' = (dmx_filters d)[j := fl] \<and> filter_next fl = None \<and>
     filter_feed fl = Some i \<and> dmx_feeds d' = (dmx_feeds d)[i := fe] \<and> feed_filter fe = Some j \<and>
     feed_state fe \<noteq> DMX_STATE_FREE \<and> feed_list d' = i # feed_list d)"

lemma attachedI:
  "dmx_filters d' = (dmx_filters d)[j := fl] \<Longrightarrow> filter_next fl = None \<Longrightarrow> filter_feed fl = Some i \<Longrightarrow>
   dmx_feeds d' = (dmx_feeds d)[i := fe] \<Longrightarrow> feed_filter fe = Some j \<Longrightarrow> feed_state fe \<noteq> DMX_STATE_FREE \<Longrightarrow>
   feed_list d' = i # feed_list d \<Longrightarrow> attached d i j d'"
  unfolding attached_def by blast

definition released :: "dvb_demux \<Rightarrow> nat \<Rightarrow> nat \<Rightarrow> dvb_demux \<Rightarrow> bool" where
  "released d i j d' \<longleftrightarrow> (\<exists>fl fe. dmx_filters d' = (dmx_filters d)[j := fl] \<and> filter_state fl = DMX_STATE_FREE \<and>
     dmx_feeds d' = (dmx_feeds d)[i := fe] \<and> feed_state fe \<noteq> DMX_STATE_FREE \<and> feed_list d' = i # feed_list d)"

lemma attached_idle:
  assumes "attached d i j d1" "i < length (dmx_feeds d)" "stop_feed env = Some sp"
  shows "\<not> is_filtering (dmx_feeds (fst (snd (dmx_section_feed_stop_filtering env False i d1 h))) ! i)"
  using assms by (auto simp: attached_def dmx_section_feed_stop_filtering_def upd_feed_def split: prod.split)

lemma attached_release:
  assumes "attached d i j d1" "i < length (dmx_feeds d)" "j < length (dmx_filters d)"
    and "\<not> is_filtering (dmx_feeds d1 ! i)"
  shows "\<exists>d2. net_release_filter False i j d1 = Some d2 \<and> released d i j d2"
proof -
  obtain fl fe where *: "dmx_filters d1 = (dmx_filters d)[j := fl]" "filter_next fl = None"
     "filter_feed fl = Some i" "dmx_feeds d1 = (dmx_feeds d)[i := fe]" "feed_filter fe = Some j"
     "feed_state fe \<noteq> DMX_STATE_FREE" "feed_list d1 = i # feed_list d"
    using assms(1) unfolding attached_def by blast
  have "net_release_filter False i j d1 = Some (d1\<lparr>dmx_feeds := (dmx_feeds d)[i := fe\<lparr>feed_filter := None\<rparr>],
      dmx_filters := (dmx_filters d)[j := fl\<lparr>filter_state := DMX_STATE_FREE\<rparr>]\<rparr>)"
    using * assms(2-4)
    by (simp add: net_release_filter_def dmx_section_feed_release_filter_def unlink_filter_def upd_feed_def upd_filter_def)
  moreover have "released d i j (d1\<lparr>dmx_feeds := (dmx_feeds d)[i := fe\<lparr>feed_filter := None\<rparr>],
      dmx_filters := (dmx_filters d)[j := fl\<lparr>filter_state := DMX_STATE_FREE\<rparr>]\<rparr>)"
    unfolding released_def
    by (rule exI [of _ "fl\<lparr>filter_state := DMX_STATE_FREE\<rparr>"], rule exI [of _ "fe\<lparr>feed_filter := None\<rparr>"])
      (simp add: *)
  ultimately show ?thesis by blast
qed

lemma released_feed:
  assumes "released d i j d1" "i < length (dmx_feeds d)" "feed_state (dmx_feeds d ! i) = DMX_STATE_FREE"
    and "i \<notin> set (feed_list d)" "j < length (dmx_filters d)" "filter_state (dmx_filters d ! j) = DMX_STATE_FREE"
  shows "same_allocation d (snd (dvbdmx_release_section_feed False i d1))"
proof -
  obtain fl fe where *: "dmx_filters d1 = (dmx_filters d)[j := fl]" "filter_state fl = DMX_STATE_FREE"
     "dmx_feeds d1 = (dmx_feeds d)[i := fe]" "feed_state fe \<noteq> DMX_STATE_FREE" "feed_list d1 = i # feed_list d"
    using assms(1) unfolding released_def by blast
  show ?thesis
    using * assms(2-6)
    by (simp add: dvbdmx_release_section_feed_def upd_feed_def dvb_demux_feed_del_def dvb_demux_feed_find_def
        same_allocation_def map_update_eq Let_def)
qed

lemma attached_start:
  assumes "attached d i j d1" "i < length (dmx_feeds d)" "j < length (dmx_filters d)"
  shows "attached d i j (fst (snd (dmx_section_feed_start_filtering env intr i d1 h)))"
proof -
  have prep: "prepare_chain (length (dmx_filters d)) (Some j) ((dmx_filters d)[j := fl]) =
      (dmx_filters d)[j := prepare_secfilter fl]" if "filter_next fl = None" for fl
    using prepare_chain_single [of j "(dmx_filters d)[j := fl]"] that assms(3) by simp
  have fl: "filter_next (prepare_secfilter f) = filter_next f" "filter_feed (prepare_secfilter f) = filter_feed f" for f
    by (simp_all add: prepare_secfilter_def Let_def)
  show ?thesis
    using assms
    by (fastforce simp: attached_def dmx_section_feed_start_filtering_def upd_feed_def prepare_secfilters_def
        prep fl Let_def split: option.split prod.split sum.split)
qed

lemma attached_stop:
  assumes "attached d i j d1" "i < length (dmx_feeds d)"
  shows "attached d i j (fst (snd (dmx_section_feed_stop_filtering env intr i d1 h)))"
  using assms
  by (fastforce simp: attached_def dmx_section_feed_stop_filtering_def upd_feed_def split: option.split prod.split)

lemma feed_start_stop_unicast:
  assumes wf: "dmx_wf d" and mode: "np_rx_mode priv = RX_MODE_UNI"
    and hooks: "start_feed env = Some st" "stop_feed env = Some sp"
    and multi: "\<forall>i < multi_num priv. multi_secfilter priv ! i = None"
    and start: "dvb_net_feed_start env False n dev priv d h = (r, priv1, d1, h1)"
  shows "\<exists>priv2 d2 h2. dvb_net_feed_stop env False (priv1\<lparr>np_in_use := u\<rparr>) d1 h1 = Some (priv2, d2, h2) \<and>
    same_allocation d d2 \<and> secfeed priv2 = None \<and> secfilter priv2 = None"
proof (cases "first_index (\<lambda>f. feed_state f = DMX_STATE_FREE) (dmx_feeds d)")
  case None
  then have "priv1 = priv\<lparr>secfeed := None, secfilter := None\<rparr>" "d1 = d" "h1 = h"
    using start by (auto simp: dvb_net_feed_start_def dvbdmx_allocate_section_feed_def dvb_dmx_feed_alloc_def)
  then show ?thesis by (simp add: dvb_net_feed_stop_def same_allocation_def)
next
  case (Some i)
  then have i: "i < length (dmx_feeds d)" "feed_state (dmx_feeds d ! i) = DMX_STATE_FREE"
    using first_index_Some by fastforce+
  have notin: "i \<notin> set (feed_list d)" using wf i by (auto simp: dmx_wf_def in_use_def)
  define fa where "fa = (dmx_feeds d ! i)\<lparr>feed_state := DMX_STATE_ALLOCATED, feed_type := DMX_TYPE_SEC,
      feed_cb := CB_NET, feed_pid := 0xffff, secbufp := 0, feed_filter := None, is_filtering := False, feed_priv := None\<rparr>"
  have alloc: "dvbdmx_allocate_section_feed False CB_NET d = (Inr i, d\<lparr>dmx_feeds := (dmx_feeds d)[i := fa]\<rparr>)"
    using Some i by (simp add: dvbdmx_allocate_section_feed_def dvb_dmx_feed_alloc_def upd_feed_def fa_def)
  show ?thesis
  proof (cases "np_pid priv > 0x1fff")
    case True
    then have "priv1 = priv\<lparr>secfeed := None, secfilter := None\<rparr>" "h1 = h"
        "d1 = d\<lparr>dmx_feeds := (dmx_feeds d)[i := fa\<lparr>feed_state := DMX_STATE_FREE, feed_pid := 0xffff\<rparr>]\<rparr>"
      using start i notin
      by (auto simp: dvb_net_feed_start_def alloc dmx_section_feed_set_def dvbdmx_release_section_feed_def
          upd_feed_def dvb_demux_feed_del_def dvb_demux_feed_find_def fa_def Let_def)
    then show ?thesis
      using i by (auto simp: dvb_net_feed_stop_def same_allocation_def map_update_eq)
  next
    case False
    define fb where "fb = fa\<lparr>feed_pid := np_pid priv, buffer_size := 32768, descramble := False,
        check_crc := True, feed_state := DMX_STATE_READY\<rparr>"
    define db where "db = d\<lparr>dmx_feeds := (dmx_feeds d)[i := fb], feed_list := i # feed_list d\<rparr>"
    have set: "dmx_section_feed_set False i (np_pid priv) 32768 False True (d\<lparr>dmx_feeds := (dmx_feeds d)[i := fa]\<rparr>) = (Inr 0, db)"
      using False i notin
      by (simp add: dmx_section_feed_set_def dvb_demux_feed_add_def dvb_demux_feed_find_def upd_feed_def db_def fb_def Let_def)
    have mid: "dvb_net_feed_start env False n dev priv d h =
        (let (_, j, d') = dvb_net_filter_set False n i (nd_dev_addr dev) mask_normal db;
             (_, d', h') = dmx_section_feed_start_filtering env False i d' h
         in (Inr 0, priv\<lparr>secfeed := Some i, secfilter := j\<rparr>, d', h'))"
      by (simp add: dvb_net_feed_start_def alloc set mode Let_def split_beta)
    show ?thesis
    proof (cases "first_index (\<lambda>f. filter_state f = DMX_STATE_FREE) (dmx_filters d)")
      case None
      have "dvb_net_filter_set False n i (nd_dev_addr dev) mask_normal db = (Inl EBUSY, None, db)"
        using None by (simp add: dvb_net_filter_set_def dmx_section_feed_allocate_filter_def dvb_dmx_filter_alloc_def db_def)
      then have "priv1 = priv\<lparr>secfeed := Some i, secfilter := None\<rparr>" "d1 = db" "h1 = h"
        using start i unfolding mid
        by (auto simp: dmx_section_feed_start_filtering_def db_def fb_def fa_def)
      then have "dvb_net_feed_stop env False (priv1\<lparr>np_in_use := u\<rparr>) d1 h1 =
          Some (priv\<lparr>secfilter := None, np_in_use := u, secfeed := None\<rparr>, db\<lparr>dmx_feeds := (dmx_feeds d)[i := fb\<lparr>feed_state := DMX_STATE_FREE, feed_pid := 0xffff\<rparr>],
            feed_list := feed_list d\<rparr>, h)"
        using i notin multi
        by (simp add: dvb_net_feed_stop_def db_def fb_def fa_def release_multi_none dvbdmx_release_section_feed_def
            upd_feed_def dvb_demux_feed_del_def dvb_demux_feed_find_def Let_def)
      then show ?thesis
        using i by (auto simp: same_allocation_def db_def map_update_eq)
    next
      case (Some j)
      then have j: "j < length (dmx_filters d)" "filter_state (dmx_filters d ! j) = DMX_STATE_FREE"
        using first_index_Some by fastforce+
      define dc where "dc = snd (snd (dvb_net_filter_set False n i (nd_dev_addr dev) mask_normal db))"
      note defs = dvb_net_filter_set_def dmx_section_feed_allocate_filter_def dvb_dmx_filter_alloc_def
          db_def upd_filter_def upd_feed_def fb_def fa_def net_filter_fill_def
      have fset: "dvb_net_filter_set False n i (nd_dev_addr dev) mask_normal db = (Inr 0, Some j, dc)"
        using Some unfolding dc_def by (simp add: defs)
      have "attached d i j dc"
        by (rule attachedI [where fl = "dmx_filters dc ! j" and fe = "dmx_feeds dc ! i"])
          (use Some i j in \<open>simp_all add: dc_def defs\<close>)
      then have at: "attached d i j d1"
        using attached_start [OF _ i(1) j(1), of dc env False h] start unfolding mid fset
        by (auto split: prod.splits)
      have priv1: "priv1 = priv\<lparr>secfeed := Some i, secfilter := Some j\<rparr>"
        using start unfolding mid fset by (auto split: prod.splits)
      define d2 where "d2 = (if is_filtering (dmx_feeds d1 ! i)
          then fst (snd (dmx_section_feed_stop_filtering env False i d1 h1)) else d1)"
      have at2: "attached d i j d2" using attached_stop [OF at i(1), of env False h1] at by (simp add: d2_def)
      have nf: "\<not> is_filtering (dmx_feeds d2 ! i)"
        using attached_idle [OF at i(1) hooks(2), of h1] by (simp add: d2_def)
      from at2 nf obtain d3 where rel: "net_release_filter False i j d2 = Some d3" and d3: "released d i j d3"
        using attached_release [OF at2 i(1) j(1) nf] by blast
      obtain rr hh where stp: "(if is_filtering (dmx_feeds d1 ! i)
          then dmx_section_feed_stop_filtering env False i d1 h1 else (Inr 0, d1, h1)) = (rr, d2, hh)"
        by (cases "is_filtering (dmx_feeds d1 ! i)";
            cases "dmx_section_feed_stop_filtering env False i d1 h1") (auto simp: d2_def)
      show ?thesis
        using released_feed [OF d3 i notin j] multi
        by (simp add: dvb_net_feed_stop_def priv1 stp rel release_multi_none split_beta)
    qed
  qed
qed

text \<open>
  Opening an interface and closing it again leaves the demultiplexer with the feeds and filters
  allocated that were allocated before, whatever goes wrong on the way: no free feed or filter, a PID
  out of range, a hardware that refuses to start. (For an interface in unicast mode whose calls are
  not interrupted by signals.)
\<close>

theorem net_open_stop_balanced:
  assumes "dmx_wf d" "n < length (nt_device net)" "nd_priv (nt_device net ! n) = Some priv"
    and "np_rx_mode priv = RX_MODE_UNI" "\<forall>i < multi_num priv. multi_secfilter priv ! i = None"
    and "start_feed env = Some st" "stop_feed env = Some sp"
  shows "\<exists>net1 d1 h1 net2 d2 h2 priv2. dvb_net_open env False n net d h = Some (net1, d1, h1) \<and>
    dvb_net_stop env False n net1 d1 h1 = Some (net2, d2, h2) \<and> same_allocation d d2 \<and>
    nd_priv (nt_device net2 ! n) = Some priv2 \<and> secfeed priv2 = None \<and> secfilter priv2 = None"
proof -
  let ?dev = "nt_device net ! n" and ?priv = "priv\<lparr>np_in_use := np_in_use priv + 1\<rparr>"
  obtain r priv1 d1 h1 where start: "dvb_net_feed_start env False n ?dev ?priv d h = (r, priv1, d1, h1)"
    by (metis prod_cases4)
  obtain priv2 d2 h2 where stop:
      "dvb_net_feed_stop env False (priv1\<lparr>np_in_use := np_in_use priv1 - 1\<rparr>) d1 h1 = Some (priv2, d2, h2)"
      "same_allocation d d2" "secfeed priv2 = None" "secfilter priv2 = None"
    using feed_start_stop_unicast [where u = "np_in_use priv1 - 1", OF assms(1) _ assms(6,7) _ start] assms(4,5) by auto
  show ?thesis
    using assms(2,3) start stop
    by (simp add: dvb_net_open_def dvb_net_stop_def on_device_def start_feed_of_def)
qed



section \<open>An interface with pending work is removed\<close>

definition ex_mac :: "u8 list" where "ex_mac = [0x00, 0x50, 0x94, 1, 2, 3]"

definition ex_net_device :: net_device where
  "ex_net_device = \<lparr>nd_adapter_num = 0, nd_if_num = 0, nd_dev_addr = ex_mac, nd_broadcast = replicate 6 0xff,
     nd_promisc = False, nd_allmulti = False, nd_noarp = True, nd_mc_list = [], nd_running = False,
     nd_mtu = 4096, nd_base_addr = 0x100, nd_priv = Some (new_priv 0x100)\<rparr>"

definition ex_net :: "net_work list \<Rightarrow> dvb_net" where
  "ex_net ws = \<lparr>nt_state = [True], nt_device = [ex_net_device], nt_rx = [], nt_work = ws\<rparr>"

definition ex_net_env :: "unit dmx_env" where
  "ex_net_env = \<lparr>sec_cb = (\<lambda>_ _ _ c. (Inr 0, c)), ts_cb = (\<lambda>_ _ _ c. (Inr 0, c)), crc32_be = (\<lambda>_ _. 0),
     write_to_decoder = None, start_feed = Some (\<lambda>_ c. (Inr 0, c)), stop_feed = Some (\<lambda>_ c. (Inr 0, c))\<rparr>"

lemma ex_init_free: "map feed_state (dmx_feeds ex_init) = [DMX_STATE_FREE]"
    "map filter_state (dmx_filters ex_init) = [DMX_STATE_FREE]" "feed_list ex_init = []"
    "length (dmx_feeds ex_init) = 1" "length (dmx_filters ex_init) = 1"
  by (simp_all add: ex_init_def dvb_dmx_init_def dmx_register_demux_def)

lemma ex_init_wf: "dmx_wf ex_init"
  using ex_init_free by (auto simp: dmx_wf_def in_use_def)

text \<open>
  \<open>dvb_net_remove_if\<close> stops the feed and only then runs the pending work: a multicast update that is
  still queued starts the feed again. The interface's data is freed, but the demux keeps a filtering
  feed whose callback uses it.
\<close>

theorem remove_if_leaves_feed_running:
  "\<exists>net' d'. dvb_net_remove_if ex_net_env False 0 (ex_net [Work_Set_Multicast 0]) ex_init () =
      Some (Inr 0, net', d', ()) \<and>
    nt_state net' = [False] \<and> is_filtering (dmx_feeds d' ! 0) \<and> feed_cb (dmx_feeds d' ! 0) = CB_NET \<and>
    filter_priv (dmx_filters d' ! 0) = Some 0 \<and> dvb_net_sec True 0 (nt_device net' ! 0) pkt = None"
  by (simp add: dvb_net_remove_if_def ex_net_def ex_net_device_def ex_init_def dvb_dmx_init_def
      dmx_register_demux_def new_priv_def dvb_net_stop_def on_device_def dvb_net_feed_stop_def
      flush_scheduled_work_def run_work_def wq_set_multicast_list_def multicast_config_def start_feed_of_def
      dvb_net_feed_start_def dvbdmx_allocate_section_feed_def dvb_dmx_feed_alloc_def upd_feed_def upd_filter_def
      dmx_section_feed_set_def dvb_demux_feed_add_def dvb_demux_feed_find_def dvb_net_filter_set_def
      dmx_section_feed_allocate_filter_def dvb_dmx_filter_alloc_def dmx_section_feed_start_filtering_def
      ex_net_env_def prepare_secfilters_def prepare_secfilter_def net_filter_fill_def dvb_net_sec_def Let_def
      DVB_NET_MULTICAST_MAX_def)

text \<open>A number the user passes to \<open>NET_REMOVE_IF\<close> is not checked.\<close>

theorem remove_if_unchecked_number:
  assumes "length (nt_device net) \<le> num" "\<not> f_rdonly fl"
  shows "dvb_net_do_ioctl env adapter intr mem_ok reg True fl (NET_REMOVE_IF num) net d h = None"
  using assms by (simp add: dvb_net_do_ioctl_def dvb_net_remove_if_def rd_def)


section \<open>Witnesses\<close>

theorem mpe_section_to_frame_witness:
  "\<exists>dev' skb. dvb_net_sec True 0 ex_net_device (mpe_section 0xb0 0x0f ex_mac [0x45, 0, 0] [9, 9, 9, 9]) = Some (dev', Some skb) \<and>
     skb_data skb = [0x45, 0, 0] \<and> take 6 (skb_head skb) = ex_mac \<and> skb_pkt_type skb = PACKET_HOST"
proof -
  have "length ex_mac = 6" "length [9, 9, 9, 9 :: u8] = 4" "nd_priv ex_net_device = Some (new_priv 0x100)"
    by (simp_all add: ex_mac_def ex_net_device_def)
  from mpe_section_to_frame [OF this, of 0 "0xb0" "0x0f" "[0x45, 0, 0]"] show ?thesis
    by (simp add: frame_type_def ex_mac_def)
qed


theorem net_open_stop_balanced_witness:
  "\<exists>net1 d1 h1 net2 d2 h2. dvb_net_open ex_net_env False 0 (ex_net []) ex_init () = Some (net1, d1, h1) \<and>
    dvb_net_stop ex_net_env False 0 net1 d1 h1 = Some (net2, d2, h2) \<and> same_allocation ex_init d2"
proof -
  have "nd_priv (nt_device (ex_net []) ! 0) = Some (new_priv 0x100)" "0 < length (nt_device (ex_net []))"
    by (simp_all add: ex_net_def ex_net_device_def)
  from net_open_stop_balanced [OF ex_init_wf this(2,1), of ex_net_env "\<lambda>_ c. (Inr 0, c)" "\<lambda>_ c. (Inr 0, c)" "()"]
  show ?thesis by (force simp: new_priv_def ex_net_env_def)
qed

end
