(* ===== verification/Dvb_Frontend.thy ===== *)
theory Dvb_Frontend
  imports Dvbdev Dvb_I2c "HOL-Library.Signed_Division"
begin

text \<open>
  \<open>dvb_frontend.c\<close>: the tuner devices. Each has a kernel thread that watches the lock of the
  demodulator, scans for a drifted signal when the lock is lost, and queues events for the
  application; the ioctls of the device tune and read the events. Both run under the semaphore of the
  frontend.

  The chip drivers' routines, the notifiers, the clock and what a sleeping process sees are outside:
  they are the record \<open>fe_env\<close>, over a state \<open>'h\<close> of the hardware and the world. Reading the clock and
  being interrupted are functions of that state, so that they may differ at every call. Function
  pointers and addresses are numbers, 0 the null pointer; a freed object has no entry in its map, and
  an access to it has the outcome \<open>None\<close> (\<open>Fault\<close>). C's \<open>int\<close> frequencies wrap at 32 bits and are
  words, compared as signed numbers. The definitions follow the branches for kernels before 2.5.0;
  their workaround around \<open>kernel_thread\<close> saves and restores a field of the caller and has no effect here.
\<close>

section \<open>Types\<close>

datatype fe_type = FE_QPSK | FE_QAM | FE_OFDM

abbreviation (input) FE_CAN_RECOVER :: u32 where "FE_CAN_RECOVER \<equiv> 0x20000000"
abbreviation (input) FE_CAN_CLEAN_SETUP :: u32 where "FE_CAN_CLEAN_SETUP \<equiv> 0x40000000"
abbreviation (input) FE_CAN_MUTE_TS :: u32 where "FE_CAN_MUTE_TS \<equiv> 0x80000000"

abbreviation (input) FE_HAS_LOCK :: u32 where "FE_HAS_LOCK \<equiv> 0x10"
abbreviation (input) FE_TIMEDOUT :: u32 where "FE_TIMEDOUT \<equiv> 0x20"

text \<open>The fields of the description that the core reads.\<close>

record dvb_frontend_info =
  fi_type :: fe_type
  fi_frequency_stepsize :: u32
  fi_notifier_delay :: u32
  fi_caps :: u32

text \<open>
  The union of the three parameter sets is seven 32-bit words. The first is the symbol rate of the
  two kinds that have one; the core reads it whichever member was written.
\<close>

record dvb_frontend_parameters =
  fp_frequency :: u32
  fp_inversion :: u32
  fp_symbol_rate :: u32
  fp_rest :: "u32 list"

record dvb_frontend_event =
  ev_status :: u32
  ev_parameters :: dvb_frontend_parameters

datatype fe_cmd =
    FE_SLEEP | FE_INIT | FE_RESET
  | FE_GET_INFO | FE_DISEQC_RESET_OVERLOAD | FE_DISEQC_SEND_MASTER_CMD | FE_DISEQC_RECV_SLAVE_REPLY
  | FE_DISEQC_SEND_BURST | FE_SET_TONE | FE_SET_VOLTAGE | FE_ENABLE_HIGH_LNB_VOLTAGE
  | FE_READ_STATUS | FE_READ_BER | FE_READ_SIGNAL_STRENGTH | FE_READ_SNR | FE_READ_UNCORRECTED_BLOCKS
  | FE_SET_FRONTEND | FE_GET_FRONTEND | FE_GET_EVENT
  | FE_OTHER nat

text \<open>
  The object the argument of an ioctl points to, seen with the type each command gives it; a plain
  value, or the bytes of another structure, are \<open>fa_other\<close>.
\<close>

record fe_arg =
  fa_status :: u32
  fa_parameters :: dvb_frontend_parameters
  fa_event :: dvb_frontend_event
  fa_other :: "u32 list"

record dvb_frontend =
  fr_before_ioctl :: "nat option"
  fr_ioctl :: nat
  fr_after_ioctl :: "nat option"
  fr_notifier_callback :: "nat option"
  fr_i2c :: i2c_bus
  fr_before_after_data :: nat
  fr_notifier_data :: nat
  fr_data :: nat

abbreviation (input) MAX_EVENT :: nat where "MAX_EVENT \<equiv> 8"

record dvb_fe_events =
  events :: "dvb_frontend_event list"
  eventw :: nat
  eventr :: nat
  overflow :: bool

text \<open>\<open>fe_sem\<close> is the count of the semaphore.\<close>

record dvb_frontend_data =
  fe_info :: dvb_frontend_info
  fe_frontend :: dvb_frontend
  fe_dvbdev :: "nat option"
  fe_parameters :: dvb_frontend_parameters
  fe_events :: dvb_fe_events
  fe_sem :: int
  thread_pid :: nat
  release_jiffies :: u32
  lost_sync_jiffies :: u32
  bending :: u32
  lnb_drift :: u32
  timeout_count :: int
  lost_sync_count :: int
  fe_exit :: bool
  fe_status :: u32

record dvb_frontend_ioctl_data =
  fio_adapter :: nat
  fio_before_ioctl :: "nat option"
  fio_after_ioctl :: "nat option"
  fio_before_after_data :: nat

record dvb_frontend_notifier_data =
  fno_adapter :: nat
  fno_callback :: nat
  fno_data :: nat

record 'h fe_state =
  frontend_list :: "nat list"
  frontends :: "nat \<rightharpoonup> dvb_frontend_data"
  frontend_ioctl_list :: "dvb_frontend_ioctl_data list"
  frontend_notifier_list :: "dvb_frontend_notifier_data list"
  fe_registry :: dvbdev_state
  fe_world :: 'h

record 'h fe_env =
  fv_ioctl :: "nat \<Rightarrow> dvb_frontend \<Rightarrow> fe_cmd \<Rightarrow> fe_arg \<Rightarrow> 'h \<Rightarrow> cret \<times> fe_arg \<times> 'h"
  fv_notify :: "nat \<Rightarrow> u32 \<Rightarrow> nat \<Rightarrow> 'h \<Rightarrow> 'h"
  fv_jiffies :: "'h \<Rightarrow> u32"
  fv_delay :: "u32 \<Rightarrow> 'h \<Rightarrow> 'h"
  fv_intr :: "'h \<Rightarrow> bool"          \<comment> \<open>\<open>down_interruptible\<close> is interrupted\<close>
  fv_hz :: nat
  fv_shutdown_timeout :: nat      \<comment> \<open>\<open>dvb_shutdown_timeout\<close>, a module parameter\<close>

definition empty_params :: dvb_frontend_parameters where
  "empty_params = \<lparr>fp_frequency = 0, fp_inversion = 0, fp_symbol_rate = 0, fp_rest = replicate 6 0\<rparr>"

definition empty_event :: dvb_frontend_event where
  "empty_event = \<lparr>ev_status = 0, ev_parameters = empty_params\<rparr>"

text \<open>An argument of the core's own calls: null, parameters, or a status word.\<close>

definition null_arg :: fe_arg where
  "null_arg = \<lparr>fa_status = 0, fa_parameters = empty_params, fa_event = empty_event, fa_other = []\<rparr>"

definition params_arg :: "dvb_frontend_parameters \<Rightarrow> fe_arg" where
  "params_arg p = null_arg\<lparr>fa_parameters := p\<rparr>"

definition status_arg :: "u32 \<Rightarrow> fe_arg" where
  "status_arg s = null_arg\<lparr>fa_status := s\<rparr>"

definition put_fe :: "nat \<Rightarrow> dvb_frontend_data \<Rightarrow> 'h fe_state \<Rightarrow> 'h fe_state" where
  "put_fe p fe st = st\<lparr>frontends := (frontends st)(p \<mapsto> fe)\<rparr>"

definition put_fe_world :: "nat \<Rightarrow> dvb_frontend_data \<times> 'h \<Rightarrow> 'h fe_state \<Rightarrow> 'h fe_state" where
  "put_fe_world p feh st = put_fe p (fst feh) (st\<lparr>fe_world := snd feh\<rparr>)"

text \<open>\<open>frontend.i2c->adapter->num\<close>\<close>

definition adapter_num :: "'h fe_state \<Rightarrow> dvb_frontend_data \<Rightarrow> nat option" where
  "adapter_num st fe =
     map_option ad_num (adapters (fe_registry st) (ib_adapter (fr_i2c (fe_frontend fe))))"


section \<open>The drivers' ioctls\<close>

definition dvb_frontend_internal_ioctl ::
  "'h fe_env \<Rightarrow> dvb_frontend \<Rightarrow> fe_cmd \<Rightarrow> fe_arg \<Rightarrow> 'h \<Rightarrow> cret \<times> fe_arg \<times> 'h" where
  "dvb_frontend_internal_ioctl env frontend cmd arg h =
     (let (err, arg, h) = (case fr_before_ioctl frontend of
            None \<Rightarrow> (Inl EOPNOTSUPP, arg, h)
          | Some before_ioctl \<Rightarrow> fv_ioctl env before_ioctl frontend cmd arg h)
      in if err \<noteq> Inl EOPNOTSUPP then (err, arg, h)
         else
          (let (err, arg, h) = fv_ioctl env (fr_ioctl frontend) frontend cmd arg h
           in if err \<noteq> Inl EOPNOTSUPP then (err, arg, h)
              else case fr_after_ioctl frontend of
                None \<Rightarrow> (err, arg, h)
              | Some after_ioctl \<Rightarrow> fv_ioctl env after_ioctl frontend cmd arg h))"


section \<open>Frontends side by side\<close>

definition tuned_to :: "dvb_frontend_data \<Rightarrow> u32" where
  "tuned_to fe = fp_frequency (fe_parameters fe) + lnb_drift fe + bending fe"

text \<open>The \<open>list_for_each\<close> of \<open>dvb_bend_frequency\<close>: does it come to a frontend in the way?\<close>

fun bend_conflict :: "'h fe_state \<Rightarrow> nat \<Rightarrow> nat \<Rightarrow> dvb_frontend_data \<Rightarrow> nat list \<Rightarrow> bool option" where
  "bend_conflict st num p this_fe [] = Some False"
| "bend_conflict st num p this_fe (q # qs) = do {
     fe \<leftarrow> frontends st q;
     n \<leftarrow> adapter_num st fe;
     if n \<noteq> num then bend_conflict st num p this_fe qs
     else
      (let f = tuned_to fe; frequency = tuned_to this_fe;
           stepsize = fi_frequency_stepsize (fe_info this_fe)
       in if p \<noteq> q \<and> lost_sync_count fe \<noteq> -1 \<and>
             sint frequency > sint (f - stepsize) \<and> sint frequency < sint (f + stepsize)
          then Some True
          else bend_conflict st num p this_fe qs)
   }"

function dvb_bend_frequency :: "'h fe_env \<Rightarrow> nat \<Rightarrow> nat \<Rightarrow> 'h fe_state \<Rightarrow> 'h fe_state option" where
  "dvb_bend_frequency env p recursive st = do {
     this_fe \<leftarrow> frontends st p;
     this_fe_adap_num \<leftarrow> adapter_num st this_fe;
     let stepsize = fi_frequency_stepsize (fe_info this_fe);
     if stepsize = 0 \<or> recursive > 10 then Some st
     else if recursive = 0 \<and> fv_intr env (fe_world st) then Some st
     else do {
       let this_fe = (if recursive = 0 then this_fe\<lparr>bending := 0\<rparr> else this_fe);
       let st = put_fe p this_fe st;
       found \<leftarrow> bend_conflict st this_fe_adap_num p this_fe (frontend_list st);
       if found then do {
         let this_fe = (if recursive mod 2 \<noteq> 0 then this_fe\<lparr>bending := bending this_fe + stepsize\<rparr>
                        else this_fe\<lparr>bending := - bending this_fe\<rparr>);
         dvb_bend_frequency env p (recursive + 1) (put_fe p this_fe st)
       } else Some st
     }
   }"
  by pat_completeness auto
termination
  by (relation "measure (\<lambda>(env, p, recursive, st). 11 - recursive)") auto

declare dvb_bend_frequency.simps [simp del]


section \<open>Events\<close>

definition dvb_call_frontend_notifiers ::
  "'h fe_env \<Rightarrow> u32 \<Rightarrow> dvb_frontend_data \<times> 'h \<Rightarrow> dvb_frontend_data \<times> 'h" where
  "dvb_call_frontend_notifiers env s feh =
     (let (fe, h) = feh;
          fe = (if fe_status fe AND FE_HAS_LOCK \<noteq> 0 \<and> s AND FE_HAS_LOCK = 0
                then fe\<lparr>lost_sync_jiffies := fv_jiffies env h\<rparr> else fe);
          h = (if (s XOR fe_status fe) AND FE_HAS_LOCK \<noteq> 0 \<and> s AND FE_HAS_LOCK \<noteq> 0
               then fv_delay env (fi_notifier_delay (fe_info fe)) h else h);
          fe = fe\<lparr>fe_status := s\<rparr>
      in if s AND FE_HAS_LOCK = 0 \<and> fi_caps (fe_info fe) AND FE_CAN_MUTE_TS \<noteq> 0 then (fe, h)
         else case fr_notifier_callback (fe_frontend fe) of
           None \<Rightarrow> (fe, h)
         | Some c \<Rightarrow> (fe, fv_notify env c (fe_status fe) (fr_notifier_data (fe_frontend fe)) h))"

text \<open>The store into the ring, with the position pushed when it is full.\<close>

definition store_event :: "dvb_frontend_event \<Rightarrow> dvb_fe_events \<Rightarrow> dvb_fe_events" where
  "store_event e ev =
     (let wp = (eventw ev + 1) mod MAX_EVENT;
          ev = (if wp = eventr ev
                then ev\<lparr>overflow := True, eventr := (eventr ev + 1) mod MAX_EVENT\<rparr> else ev)
      in ev\<lparr>events := (events ev)[eventw ev := e], eventw := wp\<rparr>)"

definition event_parameters ::
  "'h fe_env \<Rightarrow> dvb_frontend_data \<Rightarrow> u32 \<Rightarrow> 'h \<Rightarrow> dvb_frontend_parameters \<times> 'h" where
  "event_parameters env fe status h =
     (if status AND FE_HAS_LOCK \<noteq> 0
      then (let (_, arg, h) = dvb_frontend_internal_ioctl env (fe_frontend fe) FE_GET_FRONTEND
                  (params_arg (fe_parameters fe)) h
            in (fa_parameters arg, h))
      else (fe_parameters fe, h))"

text \<open>
  The source writes the status of the event after it has released the semaphore of the queue. Here it
  is stored with the event: every caller holds the semaphore of the frontend, which a reader must hold
  to copy an event, so that no reader sees the event before its status is written.
\<close>

definition dvb_frontend_add_event ::
  "'h fe_env \<Rightarrow> u32 \<Rightarrow> dvb_frontend_data \<times> 'h \<Rightarrow> dvb_frontend_data \<times> 'h" where
  "dvb_frontend_add_event env status feh =
     (let (fe, h) = feh in
      if fv_intr env h then (fe, h)
      else
       (let (parameters, h) = event_parameters env fe status h;
            e = \<lparr>ev_status = status, ev_parameters = parameters\<rparr>
        in dvb_call_frontend_notifiers env status
             (fe\<lparr>fe_events := store_event e (fe_events fe)\<rparr>, h)))"

text \<open>
  What happens while a reader sleeps in \<open>wait_event_interruptible\<close>, with the semaphore released: a
  signal, or something another process does to the frontend. \<open>Deadlock\<close> is a sleep that nothing ends.
\<close>

datatype 'h fe_wakeup =
    Fe_Signalled
  | Fe_Changed "dvb_frontend_data \<times> 'h \<Rightarrow> dvb_frontend_data \<times> 'h"

fun fe_wait_event ::
  "'h fe_wakeup list \<Rightarrow> dvb_frontend_data \<times> 'h \<Rightarrow> (bool \<times> (dvb_frontend_data \<times> 'h) \<times> 'h fe_wakeup list) outcome"
where
  "fe_wait_event ws feh =
     (if eventw (fe_events (fst feh)) \<noteq> eventr (fe_events (fst feh)) then Returns (True, feh, ws)
      else case ws of
        [] \<Rightarrow> Deadlock
      | Fe_Signalled # ws \<Rightarrow> Returns (False, feh, ws)
      | Fe_Changed g # ws \<Rightarrow> fe_wait_event ws (g feh))"

declare fe_wait_event.simps [simp del]

definition down_fe :: "dvb_frontend_data \<Rightarrow> dvb_frontend_data option" where
  "down_fe fe = (if fe_sem fe > 0 then Some (fe\<lparr>fe_sem := fe_sem fe - 1\<rparr>) else None)"

definition up_fe :: "dvb_frontend_data \<Rightarrow> dvb_frontend_data" where
  "up_fe fe = fe\<lparr>fe_sem := fe_sem fe + 1\<rparr>"

definition take_event ::
  "'h fe_env \<Rightarrow> fe_arg \<Rightarrow> dvb_frontend_data \<times> 'h \<Rightarrow> cret \<times> fe_arg \<times> dvb_frontend_data \<times> 'h" where
  "take_event env arg feh =
     (let (fe, h) = feh; ev = fe_events fe in
      if fv_intr env h then (Inl ERESTARTSYS, arg, fe, h)
      else (Inr 0, arg\<lparr>fa_event := events ev ! eventr ev\<rparr>,
            fe\<lparr>fe_events := ev\<lparr>eventr := (eventr ev + 1) mod MAX_EVENT\<rparr>\<rparr>, h))"

text \<open>The wait of a blocking reader, from the \<open>up\<close> to the check of its result.\<close>

definition wait_for_event ::
  "'h fe_env \<Rightarrow> 'h fe_wakeup list \<Rightarrow> dvb_frontend_data \<times> 'h \<Rightarrow>
   (cret \<times> (dvb_frontend_data \<times> 'h) \<times> 'h fe_wakeup list) outcome" where
  "wait_for_event env ws feh =
     (case fe_wait_event ws (up_fe (fst feh), snd feh) of
        Deadlock \<Rightarrow> Deadlock
      | Fault \<Rightarrow> Fault
      | Returns (woken, (fe, h), ws) \<Rightarrow>
          if fv_intr env h then Returns (Inl ERESTARTSYS, (fe, h), ws)
          else case down_fe fe of
            None \<Rightarrow> Deadlock
          | Some fe \<Rightarrow> Returns (if woken then Inr 0 else Inl ERESTARTSYS, (fe, h), ws))"

definition dvb_frontend_get_event ::
  "'h fe_env \<Rightarrow> bool \<Rightarrow> fe_arg \<Rightarrow> 'h fe_wakeup list \<Rightarrow> dvb_frontend_data \<times> 'h \<Rightarrow>
   (cret \<times> fe_arg \<times> (dvb_frontend_data \<times> 'h) \<times> 'h fe_wakeup list) outcome" where
  "dvb_frontend_get_event env nonblock arg ws feh =
     (let (fe, h) = feh; ev = fe_events fe in
      if overflow ev
      then Returns (Inl EOVERFLOW, arg, (fe\<lparr>fe_events := ev\<lparr>overflow := False\<rparr>\<rparr>, h), ws)
      else if eventw ev = eventr ev then
        (if nonblock then Returns (Inl EWOULDBLOCK, arg, (fe, h), ws)
         else case wait_for_event env ws (fe, h) of
           Deadlock \<Rightarrow> Deadlock
         | Fault \<Rightarrow> Fault
         | Returns (Inl e, feh, ws) \<Rightarrow> Returns (Inl e, arg, feh, ws)
         | Returns (Inr _, feh, ws) \<Rightarrow>
             (let (err, arg, fe, h) = take_event env arg feh in Returns (err, arg, (fe, h), ws)))
      else (let (err, arg, fe, h) = take_event env arg (fe, h) in Returns (err, arg, (fe, h), ws)))"


section \<open>Tuning\<close>

text \<open>
  The caller's parameters come back with what the driver wrote into them. \<open>dvb_frontend_recover\<close>
  passes the frontend's own copy and stores the result there.
\<close>

definition first_trial_setup ::
  "'h fe_env \<Rightarrow> dvb_frontend_parameters \<Rightarrow> dvb_frontend_data \<times> 'h \<Rightarrow> dvb_frontend_data \<times> 'h" where
  "first_trial_setup env param feh =
     (let (fe, h) = feh;
          fe = fe\<lparr>timeout_count := 0, lost_sync_count := 0, lost_sync_jiffies := fv_jiffies env h,
                  lnb_drift := 0\<rparr>;
          (fe, h) = (if fe_status fe AND NOT FE_TIMEDOUT \<noteq> 0
                     then dvb_frontend_add_event env 0 (fe, h) else (fe, h))
      in (fe\<lparr>fe_parameters := param\<rparr>, h))"

definition dvb_frontend_set_parameters ::
  "'h fe_env \<Rightarrow> nat \<Rightarrow> dvb_frontend_parameters \<Rightarrow> bool \<Rightarrow> 'h fe_state \<Rightarrow>
   (cret \<times> dvb_frontend_parameters \<times> 'h fe_state) option" where
  "dvb_frontend_set_parameters env p param first_trial st = do {
     fe \<leftarrow> frontends st p;
     let feh = (if first_trial then first_trial_setup env param (fe, fe_world st) else (fe, fe_world st));
     st \<leftarrow> dvb_bend_frequency env p 0 (put_fe_world p feh st);
     fe \<leftarrow> frontends st p;
     let param = param\<lparr>fp_frequency := fp_frequency param + (lnb_drift fe + bending fe)\<rparr>;
     let (err, arg, h) = dvb_frontend_internal_ioctl env (fe_frontend fe) FE_SET_FRONTEND
                           (params_arg param) (fe_world st);
     let param = fa_parameters arg;
     Some (err, param\<lparr>fp_frequency := fp_frequency param - (lnb_drift fe + bending fe)\<rparr>,
           st\<lparr>fe_world := h\<rparr>)
   }"

definition dvb_frontend_init :: "'h fe_env \<Rightarrow> dvb_frontend_data \<times> 'h \<Rightarrow> dvb_frontend_data \<times> 'h" where
  "dvb_frontend_init env feh =
     (let (_, _, h) = dvb_frontend_internal_ioctl env (fe_frontend (fst feh)) FE_INIT null_arg (snd feh)
      in (fst feh, h))"

text \<open>The new quality and the delay until the status is read again.\<close>

definition update_delay :: "nat \<Rightarrow> int \<Rightarrow> bool \<Rightarrow> int \<times> int" where
  "update_delay hz quality locked =
     (let quality = (if locked then (quality * 220 + 36 * 256) sdiv 256 else (quality * 220 + 0) sdiv 256);
          q2 = quality - 128;
          q2 = q2 * q2
      in (quality, int (hz div 20) + (q2 * int hz) sdiv (128 * 128)))"

definition recover_stepsize :: "dvb_frontend_data \<Rightarrow> u32" where
  "recover_stepsize fe =
     (case fi_type (fe_info fe) of
        FE_QPSK \<Rightarrow> fp_symbol_rate (fe_parameters fe) div 16000
      | FE_QAM \<Rightarrow> 0
      | FE_OFDM \<Rightarrow> fi_frequency_stepsize (fe_info fe) * 2)"

definition zigzag_drift :: "dvb_frontend_data \<Rightarrow> dvb_frontend_data" where
  "zigzag_drift fe =
     (let j = lost_sync_count fe in
      if j mod 32 = 0 then fe\<lparr>lnb_drift := 0\<rparr>
      else
       (let fe = fe\<lparr>lnb_drift := - lnb_drift fe\<rparr>
        in if j mod 2 \<noteq> 0 then fe\<lparr>lnb_drift := lnb_drift fe + recover_stepsize fe\<rparr> else fe))"

definition dvb_frontend_recover :: "'h fe_env \<Rightarrow> nat \<Rightarrow> 'h fe_state \<Rightarrow> 'h fe_state option" where
  "dvb_frontend_recover env p st = do {
     fe \<leftarrow> frontends st p;
     let fe = zigzag_drift fe;
     (_, param, st) \<leftarrow> dvb_frontend_set_parameters env p (fe_parameters fe) False (put_fe p fe st);
     fe \<leftarrow> frontends st p;
     let fe = fe\<lparr>fe_parameters := param\<rparr>;
     let (_, _, h) = dvb_frontend_internal_ioctl env (fe_frontend fe) FE_RESET null_arg (fe_world st);
     Some (put_fe_world p (fe, h) st)
   }"


section \<open>The thread\<close>

definition dvb_frontend_is_exiting :: "'h fe_env \<Rightarrow> nat \<Rightarrow> 'h fe_state \<Rightarrow> bool option" where
  "dvb_frontend_is_exiting env p st = do {
     fe \<leftarrow> frontends st p;
     if fe_exit fe then Some True
     else do {
       d \<leftarrow> fe_dvbdev fe;
       dev \<leftarrow> devices (fe_registry st) d;
       Some (dd_writers dev = 1 \<and>
             fv_jiffies env (fe_world st) - release_jiffies fe > of_nat (fv_shutdown_timeout env * fv_hz env))
     }
   }"

text \<open>
  The thread is a machine with three places: before the check of its loop, where it holds the
  semaphore; asleep, where it does not; and gone. Its local variables are \<open>fe_thread\<close>; \<open>th_s\<close> is not
  initialised before the driver writes it, so its first value is arbitrary.
\<close>

datatype fe_pc = T_Loop | T_Sleep | T_Done

record fe_thread =
  th_quality :: int
  th_delay :: int
  th_s :: u32

text \<open>The lines before the loop.\<close>

definition thread_enter :: "'h fe_env \<Rightarrow> nat \<Rightarrow> u32 \<Rightarrow> 'h fe_state \<Rightarrow> (fe_thread \<times> 'h fe_state) option" where
  "thread_enter env p s st = do {
     fe \<leftarrow> frontends st p;
     let feh = dvb_call_frontend_notifiers env 0 (fe\<lparr>lost_sync_count := -1\<rparr>, fe_world st);
     Some (\<lparr>th_quality = 0, th_delay = int (3 * fv_hz env), th_s = s\<rparr>,
           put_fe_world p (dvb_frontend_init env feh) st)
   }"

text \<open>The lines behind the loop.\<close>

definition thread_leave :: "'h fe_env \<Rightarrow> nat \<Rightarrow> 'h fe_state \<Rightarrow> 'h fe_state option" where
  "thread_leave env p st = do {
     fe \<leftarrow> frontends st p;
     let h = (if fv_shutdown_timeout env \<noteq> 0
              then snd (snd (dvb_frontend_internal_ioctl env (fe_frontend fe) FE_SLEEP null_arg (fe_world st)))
              else fe_world st);
     Some (put_fe_world p ((up_fe fe)\<lparr>thread_pid := 0\<rparr>, h) st)
   }"

definition lost_timeout ::
  "'h fe_env \<Rightarrow> 'h \<Rightarrow> u32 \<Rightarrow> dvb_frontend_data \<Rightarrow> u32 \<times> dvb_frontend_data" where
  "lost_timeout env h s fe =
     (if fv_jiffies env h - lost_sync_jiffies fe > of_nat (2 * fv_hz env)
      then (s OR FE_TIMEDOUT,
            if fe_status fe AND FE_TIMEDOUT = 0 then fe\<lparr>timeout_count := timeout_count fe + 1\<rparr> else fe)
      else (s, fe))"

text \<open>The reaction to a status without lock: \<open>None\<close> in the first component is the \<open>continue\<close>.\<close>

definition thread_lost ::
  "'h fe_env \<Rightarrow> nat \<Rightarrow> u32 \<Rightarrow> int \<Rightarrow> 'h fe_state \<Rightarrow> (u32 option \<times> int \<times> 'h fe_state) option" where
  "thread_lost env p s delay st = do {
     fe \<leftarrow> frontends st p;
     let fe = fe\<lparr>lost_sync_count := lost_sync_count fe + 1\<rparr>;
     let caps = fi_caps (fe_info fe);
     let st = put_fe p fe st;
     if caps AND FE_CAN_RECOVER = 0 \<and> caps AND FE_CAN_CLEAN_SETUP = 0 \<and> lost_sync_count fe < 10
     then Some (None, delay, st)
     else do {
       (delay, st) \<leftarrow> (if caps AND FE_CAN_RECOVER = 0
                      then map_option (\<lambda>st. (int (fv_hz env div 5), st)) (dvb_frontend_recover env p st)
                      else Some (delay, st));
       fe \<leftarrow> frontends st p;
       let (s, fe) = lost_timeout env (fe_world st) s fe;
       Some (Some s, delay, put_fe p fe st)
     }
   }"

text \<open>The last two lines of the loop's body.\<close>

definition report_status :: "'h fe_env \<Rightarrow> nat \<Rightarrow> u32 \<Rightarrow> 'h fe_state \<Rightarrow> 'h fe_state option" where
  "report_status env p s st = do {
     fe \<leftarrow> frontends st p;
     Some (if s \<noteq> fe_status fe
           then put_fe_world p (dvb_frontend_add_event env s (fe, fe_world st)) st else st)
   }"

text \<open>The loop's body from the reading of the status on.\<close>

definition thread_status ::
  "'h fe_env \<Rightarrow> nat \<Rightarrow> fe_thread \<Rightarrow> 'h fe_state \<Rightarrow> (fe_thread \<times> 'h fe_state) option" where
  "thread_status env p th st = do {
     fe \<leftarrow> frontends st p;
     let (_, arg, h) = dvb_frontend_internal_ioctl env (fe_frontend fe) FE_READ_STATUS
                         (status_arg (th_s th)) (fe_world st);
     let st = st\<lparr>fe_world := h\<rparr>;
     let s = fa_status arg;
     let (quality, delay) = update_delay (fv_hz env) (th_quality th) (s AND FE_HAS_LOCK \<noteq> 0);
     let s = s AND NOT FE_TIMEDOUT;
     (news, delay, st) \<leftarrow>
       (if s AND FE_HAS_LOCK \<noteq> 0
        then Some (Some s, delay, put_fe p (fe\<lparr>timeout_count := 0, lost_sync_count := 0\<rparr>) st)
        else thread_lost env p s delay st);
     case news of
       None \<Rightarrow> Some (\<lparr>th_quality = quality, th_delay = delay, th_s = s\<rparr>, st)
     | Some s \<Rightarrow> do {
         st \<leftarrow> report_status env p s st;
         Some (\<lparr>th_quality = quality, th_delay = delay, th_s = s\<rparr>, st)
       }
   }"

text \<open>
  One move of the thread. From \<open>T_Loop\<close> it checks whether to exit, and releases the semaphore and
  sleeps if not. When it wakes up, \<open>sig\<close> says whether a signal is pending, and it takes the semaphore
  again; \<open>None\<close> is also that the semaphore is not free, so that there is no move yet.
\<close>

definition thread_step ::
  "'h fe_env \<Rightarrow> nat \<Rightarrow> bool \<Rightarrow> fe_pc \<times> fe_thread \<times> 'h fe_state \<Rightarrow> (fe_pc \<times> fe_thread \<times> 'h fe_state) option"
where
  "thread_step env p sig s =
     (let (pc, th, st) = s in
      case pc of
        T_Done \<Rightarrow> None
      | T_Loop \<Rightarrow> do {
          exiting \<leftarrow> dvb_frontend_is_exiting env p st;
          fe \<leftarrow> frontends st p;
          if exiting then map_option (\<lambda>st. (T_Done, th, st)) (thread_leave env p st)
          else Some (T_Sleep, th, put_fe p (up_fe fe) st)
        }
      | T_Sleep \<Rightarrow>
          if sig \<or> fv_intr env (fe_world st) then map_option (\<lambda>st. (T_Done, th, st)) (thread_leave env p st)
          else do {
            fe \<leftarrow> frontends st p;
            fe \<leftarrow> down_fe fe;
            let st = put_fe p fe st;
            if lost_sync_count fe = -1 then Some (T_Loop, th, st)
            else do {
              exiting \<leftarrow> dvb_frontend_is_exiting env p st;
              if exiting then map_option (\<lambda>st. (T_Done, th, st)) (thread_leave env p st)
              else map_option (\<lambda>(th, st). (T_Loop, th, st)) (thread_status env p th st)
            }
          })"

text \<open>
  \<open>dvb_frontend_stop\<close> asks the thread to exit and sleeps until it has; what happens in that sleep is
  \<open>meanwhile\<close>. \<open>alive\<close> is whether the process still exists (\<open>kill_proc\<close> finds it).
\<close>

definition dvb_frontend_stop ::
  "bool \<Rightarrow> ('h fe_state \<Rightarrow> 'h fe_state) \<Rightarrow> nat \<Rightarrow> 'h fe_state \<Rightarrow> 'h fe_state option" where
  "dvb_frontend_stop alive meanwhile p st = do {
     fe \<leftarrow> frontends st p;
     let fe = fe\<lparr>fe_exit := True\<rparr>;
     if thread_pid fe = 0 then Some (put_fe p fe st)
     else if \<not> alive then Some (put_fe p (fe\<lparr>fe_sem := 1\<rparr>) st)
     else Some (meanwhile (put_fe p fe st))
   }"

text \<open>\<open>kthread\<close> is the result of \<open>kernel_thread\<close>, \<open>sig\<close> whether a signal is pending.\<close>

definition dvb_frontend_start ::
  "'h fe_env \<Rightarrow> bool \<Rightarrow> bool \<Rightarrow> ('h fe_state \<Rightarrow> 'h fe_state) \<Rightarrow> cret \<Rightarrow> nat \<Rightarrow> 'h fe_state \<Rightarrow>
   (cret \<times> 'h fe_state) outcome" where
  "dvb_frontend_start env sig alive meanwhile kthread p st =
     (case frontends st p of None \<Rightarrow> Fault
      | Some fe \<Rightarrow>
         if thread_pid fe \<noteq> 0 \<and> \<not> fe_exit fe then Returns (Inr 0, st)
         else
          (case (if thread_pid fe \<noteq> 0 then dvb_frontend_stop alive meanwhile p st else Some st) of
             None \<Rightarrow> Fault
           | Some st \<Rightarrow>
              if sig \<or> fv_intr env (fe_world st) then Returns (Inl EINTR, st)
              else
               (case frontends st p of None \<Rightarrow> Fault
                | Some fe \<Rightarrow>
                   (case down_fe fe of None \<Rightarrow> Deadlock
                    | Some fe \<Rightarrow>
                       (let fe = fe\<lparr>fe_exit := False, thread_pid := 0\<rparr> in
                        case kthread of
                          Inl e \<Rightarrow> Returns (Inl e, put_fe p (up_fe fe) st)
                        | Inr pid \<Rightarrow> Returns (Inr 0, put_fe p (fe\<lparr>thread_pid := pid\<rparr>) st))))))"


section \<open>System calls\<close>

definition file_device :: "dvb_file \<Rightarrow> 'h fe_state \<Rightarrow> dvb_device option" where
  "file_device file st = do {
     p \<leftarrow> f_private_data file;
     devices (fe_registry st) p
   }"

text \<open>The \<open>switch\<close> of \<open>dvb_frontend_ioctl\<close>, between the \<open>down\<close> and the \<open>up\<close>.\<close>

definition frontend_command ::
  "'h fe_env \<Rightarrow> bool \<Rightarrow> fe_cmd \<Rightarrow> fe_arg \<Rightarrow> 'h fe_wakeup list \<Rightarrow> nat \<Rightarrow> dvb_frontend_data \<Rightarrow> 'h fe_state \<Rightarrow>
   (cret \<times> fe_arg \<times> 'h fe_state \<times> 'h fe_wakeup list) outcome" where
  "frontend_command env nonblock cmd parg ws p fe st =
     (if cmd \<in> {FE_DISEQC_SEND_MASTER_CMD, FE_DISEQC_SEND_BURST, FE_SET_TONE} then
        (let (fe, h) = (if fe_status fe \<noteq> 0 then dvb_call_frontend_notifiers env 0 (fe, fe_world st)
                        else (fe, fe_world st));
             (_, parg, h) = dvb_frontend_internal_ioctl env (fe_frontend fe) cmd parg h
         in Returns (Inr 0, parg, put_fe_world p (fe, h) st, ws))
      else if cmd = FE_SET_FRONTEND then
        (case dvb_frontend_set_parameters env p (fa_parameters parg) True (put_fe p fe st) of
           None \<Rightarrow> Fault
         | Some (err, param, st) \<Rightarrow> Returns (err, parg\<lparr>fa_parameters := param\<rparr>, st, ws))
      else if cmd = FE_GET_EVENT then
        (case dvb_frontend_get_event env nonblock parg ws (fe, fe_world st) of
           Deadlock \<Rightarrow> Deadlock
         | Fault \<Rightarrow> Fault
         | Returns (err, parg, feh, ws) \<Rightarrow> Returns (err, parg, put_fe_world p feh st, ws))
      else
        (let parg = (if cmd = FE_GET_FRONTEND then parg\<lparr>fa_parameters := fe_parameters fe\<rparr> else parg);
             (_, parg, h) = dvb_frontend_internal_ioctl env (fe_frontend fe) cmd parg (fe_world st)
         in Returns (Inr 0, parg, put_fe_world p (fe, h) st, ws)))"

definition dvb_frontend_ioctl ::
  "'h fe_env \<Rightarrow> dvb_file \<Rightarrow> fe_cmd \<Rightarrow> fe_arg \<Rightarrow> 'h fe_wakeup list \<Rightarrow> 'h fe_state \<Rightarrow>
   (cret \<times> fe_arg \<times> 'h fe_state \<times> 'h fe_wakeup list) outcome" where
  "dvb_frontend_ioctl env file cmd parg ws st =
     (case file_device file st of None \<Rightarrow> Fault
      | Some dev \<Rightarrow>
        if dd_priv dev = 0 then Returns (Inl ENODEV, parg, st, ws)
        else case frontends st (dd_priv dev) of None \<Rightarrow> Fault
        | Some fe \<Rightarrow>
          if fr_ioctl (fe_frontend fe) = 0 \<or> fe_exit fe then Returns (Inl ENODEV, parg, st, ws)
          else if fv_intr env (fe_world st) then Returns (Inl ERESTARTSYS, parg, st, ws)
          else case down_fe fe of None \<Rightarrow> Deadlock
          | Some fe \<Rightarrow>
            (case frontend_command env (f_nonblock file) cmd parg ws (dd_priv dev) fe st of
               Deadlock \<Rightarrow> Deadlock
             | Fault \<Rightarrow> Fault
             | Returns (err, parg, st, ws) \<Rightarrow>
                (case frontends st (dd_priv dev) of None \<Rightarrow> Fault
                 | Some fe \<Rightarrow> Returns (err, parg, put_fe (dd_priv dev) (up_fe fe) st, ws))))"

text \<open>Whether the result is \<open>POLLIN | POLLRDNORM | POLLPRI\<close>, rather than 0.\<close>

definition dvb_frontend_poll :: "dvb_file \<Rightarrow> 'h fe_state \<Rightarrow> bool option" where
  "dvb_frontend_poll file st = do {
     dev \<leftarrow> file_device file st;
     fe \<leftarrow> frontends st (dd_priv dev);
     Some (eventw (fe_events fe) \<noteq> eventr (fe_events fe))
   }"

definition clear_events :: "nat \<Rightarrow> 'h fe_state \<Rightarrow> 'h fe_state option" where
  "clear_events p st = do {
     fe \<leftarrow> frontends st p;
     Some (put_fe p (fe\<lparr>fe_events := (fe_events fe)\<lparr>eventr := 0, eventw := 0\<rparr>\<rparr>) st)
   }"

definition dvb_frontend_open ::
  "'h fe_env \<Rightarrow> bool \<Rightarrow> bool \<Rightarrow> ('h fe_state \<Rightarrow> 'h fe_state) \<Rightarrow> cret \<Rightarrow> dvb_file \<Rightarrow> 'h fe_state \<Rightarrow>
   (cret \<times> 'h fe_state) outcome" where
  "dvb_frontend_open env sig alive meanwhile kthread file st =
     (case file_device file st of None \<Rightarrow> Fault
      | Some dev \<Rightarrow>
        (case dvb_generic_open file (fe_registry st) of None \<Rightarrow> Fault
         | Some (Inl e, reg) \<Rightarrow> Returns (Inl e, st\<lparr>fe_registry := reg\<rparr>)
         | Some (Inr n, reg) \<Rightarrow>
            (let st = st\<lparr>fe_registry := reg\<rparr> in
             if f_rdonly file then Returns (Inr n, st)
             else case dvb_frontend_start env sig alive meanwhile kthread (dd_priv dev) st of
               Deadlock \<Rightarrow> Deadlock
             | Fault \<Rightarrow> Fault
             | Returns (ret, st) \<Rightarrow>
                (case (if ret \<noteq> Inr 0 then dvb_generic_release file (fe_registry st)
                       else Some (Inr 0, fe_registry st)) of
                   None \<Rightarrow> Fault
                 | Some (_, reg) \<Rightarrow>
                    (case clear_events (dd_priv dev) (st\<lparr>fe_registry := reg\<rparr>) of
                       None \<Rightarrow> Fault
                     | Some st \<Rightarrow> Returns (ret, st))))))"

definition dvb_frontend_release ::
  "'h fe_env \<Rightarrow> dvb_file \<Rightarrow> 'h fe_state \<Rightarrow> (cret \<times> 'h fe_state) option" where
  "dvb_frontend_release env file st = do {
     dev \<leftarrow> file_device file st;
     fe \<leftarrow> frontends st (dd_priv dev);
     let st = (if f_rdonly file then st
               else put_fe (dd_priv dev) (fe\<lparr>release_jiffies := fv_jiffies env (fe_world st)\<rparr>) st);
     (ret, reg) \<leftarrow> dvb_generic_release file (fe_registry st);
     Some (ret, st\<lparr>fe_registry := reg\<rparr>)
   }"


section \<open>Hooks of the adapters\<close>

text \<open>
  \<open>each_frontend f\<close> is a \<open>list_for_each\<close> over the frontends whose body changes only the entry itself.
\<close>

fun each_frontend ::
  "(dvb_frontend_data \<Rightarrow> dvb_frontend_data) \<Rightarrow> nat list \<Rightarrow> 'h fe_state \<Rightarrow> 'h fe_state option" where
  "each_frontend f [] st = Some st"
| "each_frontend f (p # ps) st = do {
     fe \<leftarrow> frontends st p;
     each_frontend f ps (put_fe p (f fe) st)
   }"

definition on_adapter :: "nat \<Rightarrow> dvb_frontend_data \<Rightarrow> bool" where
  "on_adapter adapter fe \<longleftrightarrow> ib_adapter (fr_i2c (fe_frontend fe)) = adapter"

definition attach_ioctls :: "dvb_frontend_ioctl_data \<Rightarrow> dvb_frontend_data \<Rightarrow> dvb_frontend_data" where
  "attach_ioctls io fe =
     fe\<lparr>fe_frontend := (fe_frontend fe)\<lparr>fr_before_ioctl := fio_before_ioctl io,
         fr_after_ioctl := fio_after_ioctl io, fr_before_after_data := fio_before_after_data io\<rparr>\<rparr>"

definition attach_notifier :: "dvb_frontend_notifier_data \<Rightarrow> dvb_frontend_data \<Rightarrow> dvb_frontend_data" where
  "attach_notifier no fe =
     fe\<lparr>fe_frontend := (fe_frontend fe)\<lparr>fr_notifier_callback := Some (fno_callback no),
         fr_notifier_data := fno_data no\<rparr>\<rparr>"

definition dvb_add_frontend_ioctls ::
  "'h fe_env \<Rightarrow> bool \<Rightarrow> nat \<Rightarrow> nat option \<Rightarrow> nat option \<Rightarrow> nat \<Rightarrow> 'h fe_state \<Rightarrow> (cret \<times> 'h fe_state) option" where
  "dvb_add_frontend_ioctls env mem_ok adapter before_ioctl after_ioctl dat st =
     (if fv_intr env (fe_world st) then Some (Inl ERESTARTSYS, st)
      else if \<not> mem_ok then Some (Inl ENOMEM, st)
      else do {
        let io = \<lparr>fio_adapter = adapter, fio_before_ioctl = before_ioctl, fio_after_ioctl = after_ioctl,
                  fio_before_after_data = dat\<rparr>;
        let st = st\<lparr>frontend_ioctl_list := frontend_ioctl_list st @ [io]\<rparr>;
        st \<leftarrow> each_frontend (\<lambda>fe.
                if on_adapter adapter fe \<and> fr_before_ioctl (fe_frontend fe) = None \<and>
                   fr_after_ioctl (fe_frontend fe) = None
                then attach_ioctls io fe else fe) (frontend_list st) st;
        Some (Inr 0, st)
      })"

text \<open>\<open>remove_first P\<close> is a \<open>list_for_each_safe\<close> that deletes the first entry with \<open>P\<close> and leaves.\<close>

fun remove_first :: "('a \<Rightarrow> bool) \<Rightarrow> 'a list \<Rightarrow> 'a list" where
  "remove_first P [] = []"
| "remove_first P (x # xs) = (if P x then xs else x # remove_first P xs)"

definition dvb_remove_frontend_ioctls ::
  "nat \<Rightarrow> nat option \<Rightarrow> nat option \<Rightarrow> 'h fe_state \<Rightarrow> 'h fe_state option" where
  "dvb_remove_frontend_ioctls adapter before_ioctl after_ioctl st = do {
     st \<leftarrow> each_frontend (\<lambda>fe.
             if on_adapter adapter fe \<and> fr_before_ioctl (fe_frontend fe) = before_ioctl \<and>
                fr_after_ioctl (fe_frontend fe) = after_ioctl
             then fe\<lparr>fe_frontend := (fe_frontend fe)\<lparr>fr_before_ioctl := None, fr_after_ioctl := None\<rparr>\<rparr>
             else fe) (frontend_list st) st;
     Some (st\<lparr>frontend_ioctl_list := remove_first (\<lambda>io. fio_adapter io = adapter \<and>
             fio_before_ioctl io = before_ioctl \<and> fio_after_ioctl io = after_ioctl) (frontend_ioctl_list st)\<rparr>)
   }"

definition dvb_add_frontend_notifier ::
  "'h fe_env \<Rightarrow> bool \<Rightarrow> nat \<Rightarrow> nat \<Rightarrow> nat \<Rightarrow> 'h fe_state \<Rightarrow> (cret \<times> 'h fe_state) option" where
  "dvb_add_frontend_notifier env mem_ok adapter callback dat st =
     (if fv_intr env (fe_world st) then Some (Inl ERESTARTSYS, st)
      else if \<not> mem_ok then Some (Inl ENOMEM, st)
      else do {
        let no = \<lparr>fno_adapter = adapter, fno_callback = callback, fno_data = dat\<rparr>;
        let st = st\<lparr>frontend_notifier_list := frontend_notifier_list st @ [no]\<rparr>;
        st \<leftarrow> each_frontend (\<lambda>fe.
                if on_adapter adapter fe \<and> fr_notifier_callback (fe_frontend fe) = None
                then attach_notifier no fe else fe) (frontend_list st) st;
        Some (Inr 0, st)
      })"

definition dvb_remove_frontend_notifier ::
  "nat \<Rightarrow> nat \<Rightarrow> 'h fe_state \<Rightarrow> 'h fe_state option" where
  "dvb_remove_frontend_notifier adapter callback st = do {
     st \<leftarrow> each_frontend (\<lambda>fe.
             if on_adapter adapter fe \<and> fr_notifier_callback (fe_frontend fe) = Some callback
             then fe\<lparr>fe_frontend := (fe_frontend fe)\<lparr>fr_notifier_callback := None\<rparr>\<rparr>
             else fe) (frontend_list st) st;
     Some (st\<lparr>frontend_notifier_list := remove_first (\<lambda>no. fno_adapter no = adapter \<and>
             fno_callback no = callback) (frontend_notifier_list st)\<rparr>)
   }"


section \<open>Registration\<close>

definition dvb_frontend_fops :: nat where "dvb_frontend_fops = 1"
definition dvb_frontend_kernel_ioctl :: nat where "dvb_frontend_kernel_ioctl = 1"

definition frontend_template :: dvb_device where
  "frontend_template = \<lparr>dd_fops = Some dvb_frontend_fops, dd_devfs_handle = None, dd_adapter = 0, dd_type = 0,
     dd_id = 0, dd_readers = -2, dd_writers = 1, dd_users = -1,
     dd_kernel_ioctl = Some dvb_frontend_kernel_ioctl, dd_priv = 0\<rparr>"

definition new_frontend_data :: "nat \<Rightarrow> i2c_bus \<Rightarrow> nat \<Rightarrow> dvb_frontend_info \<Rightarrow> dvb_frontend_data" where
  "new_frontend_data ioctl i2c dat info =
     \<lparr>fe_info = info,
      fe_frontend = \<lparr>fr_before_ioctl = None, fr_ioctl = ioctl, fr_after_ioctl = None,
        fr_notifier_callback = None, fr_i2c = i2c, fr_before_after_data = 0, fr_notifier_data = 0,
        fr_data = dat\<rparr>,
      fe_dvbdev = None, fe_parameters = empty_params,
      fe_events = \<lparr>events = replicate MAX_EVENT empty_event, eventw = 0, eventr = 0, overflow = False\<rparr>,
      fe_sem = 1, thread_pid = 0, release_jiffies = 0, lost_sync_jiffies = 0, bending = 0, lnb_drift = 0,
      timeout_count = 0, lost_sync_count = 0, fe_exit = False, fe_status = 0\<rparr>"

definition adopt_hooks :: "'h fe_state \<Rightarrow> dvb_frontend_data \<Rightarrow> dvb_frontend_data" where
  "adopt_hooks st fe =
     (let adapter = ib_adapter (fr_i2c (fe_frontend fe));
          fe = (case find (\<lambda>io. fio_adapter io = adapter) (frontend_ioctl_list st) of
                  None \<Rightarrow> fe | Some io \<Rightarrow> attach_ioctls io fe)
      in case find (\<lambda>no. fno_adapter no = adapter) (frontend_notifier_list st) of
           None \<Rightarrow> fe | Some no \<Rightarrow> attach_notifier no fe)"

text \<open>
  \<open>mem\<close> and \<open>dev_mem\<close> are the addresses \<open>kmalloc\<close> returns here and in \<open>dvb_register_device\<close>, \<open>dev_intr\<close>
  whether that call is interrupted. Its result is not looked at.
\<close>

definition dvb_register_frontend ::
  "'h fe_env \<Rightarrow> nat option \<Rightarrow> bool \<Rightarrow> nat option \<Rightarrow> nat \<Rightarrow> i2c_bus \<Rightarrow> nat \<Rightarrow> dvb_frontend_info \<Rightarrow>
   'h fe_state \<Rightarrow> (cret \<times> 'h fe_state) option" where
  "dvb_register_frontend env mem dev_intr dev_mem ioctl i2c dat info st =
     (if fv_intr env (fe_world st) then Some (Inl ERESTARTSYS, st)
      else case mem of
        None \<Rightarrow> Some (Inl ENOMEM, st)
      | Some p \<Rightarrow> do {
          let fe = adopt_hooks st (new_frontend_data ioctl i2c dat info);
          let st = st\<lparr>frontend_list := frontend_list st @ [p]\<rparr>;
          (_, d, reg) \<leftarrow> dvb_register_device (ib_adapter i2c) frontend_template p DVB_DEVICE_FRONTEND
                           dev_intr dev_mem (fe_registry st);
          Some (Inr 0, put_fe p (fe\<lparr>fe_dvbdev := d\<rparr>) (st\<lparr>fe_registry := reg\<rparr>))
        })"

fun find_frontend :: "'h fe_state \<Rightarrow> nat \<Rightarrow> nat \<Rightarrow> nat list \<Rightarrow> nat option option" where
  "find_frontend st ioctl i2c [] = Some None"
| "find_frontend st ioctl i2c (p # ps) = do {
     fe \<leftarrow> frontends st p;
     if fr_ioctl (fe_frontend fe) = ioctl \<and> ib_addr (fr_i2c (fe_frontend fe)) = i2c then Some (Some p)
     else find_frontend st ioctl i2c ps
   }"

definition dvb_unregister_frontend ::
  "bool \<Rightarrow> ('h fe_state \<Rightarrow> 'h fe_state) \<Rightarrow> nat \<Rightarrow> nat \<Rightarrow> 'h fe_state \<Rightarrow> (cret \<times> 'h fe_state) option" where
  "dvb_unregister_frontend alive meanwhile ioctl i2c st = do {
     r \<leftarrow> find_frontend st ioctl i2c (frontend_list st);
     case r of
       None \<Rightarrow> Some (Inl EINVAL, st)
     | Some p \<Rightarrow> do {
         fe \<leftarrow> frontends st p;
         reg \<leftarrow> dvb_unregister_device (fe_dvbdev fe) (fe_registry st);
         let st = st\<lparr>fe_registry := reg, frontend_list := remove1 p (frontend_list st)\<rparr>;
         st \<leftarrow> dvb_frontend_stop alive meanwhile p st;
         Some (Inr 0, st\<lparr>frontends := (frontends st)(p := None)\<rparr>)
       }
   }"

end
