(* ===== verification/Dvb_Frontend_Properties.thy ===== *)
theory Dvb_Frontend_Properties
  imports Dvb_Frontend Ring_Arith
begin

text \<open>
  The tuner devices: the event queue as a bounded queue that forgets its oldest entries, the choice of
  a frequency between tuners that stand side by side, the scan for a drifted signal, and the state
  machine of the thread under the semaphore it shares with the system calls.
\<close>

section \<open>The event queue\<close>

text \<open>
  A queue of bounded capacity that never refuses: a put into a full queue drops the oldest entry and
  raises a flag. The client's fact is what a whole sequence of puts leaves.
\<close>

locale lossy_queue =
  fixes cap :: nat
    and inv :: "'q \<Rightarrow> bool"
    and contents :: "'q \<Rightarrow> 'e list"
    and lost :: "'q \<Rightarrow> bool"
    and put :: "'e \<Rightarrow> 'q \<Rightarrow> 'q"
  assumes cap_pos: "0 < cap"
    and cap_bound: "inv q \<Longrightarrow> length (contents q) \<le> cap"
    and put_inv: "inv q \<Longrightarrow> inv (put e q)"
    and put_contents: "inv q \<Longrightarrow>
      contents (put e q) = (if length (contents q) < cap then contents q else tl (contents q)) @ [e]"
    and put_lost: "inv q \<Longrightarrow> lost (put e q) \<longleftrightarrow> lost q \<or> length (contents q) = cap"
begin

lemma put_latest:
  assumes "inv q"
  shows "contents (put e q) = drop (length (contents q @ [e]) - cap) (contents q @ [e])"
proof (cases "length (contents q) < cap")
  case True
  then show ?thesis using assms by (simp add: put_contents)
next
  case False
  then have "length (contents q) = cap" using cap_bound [OF assms] by simp
  then show ?thesis using assms cap_pos by (simp add: put_contents tl_drop drop_Suc)
qed

lemma puts_keep_latest:
  assumes "inv q"
  shows "inv (fold put es q) \<and>
    contents (fold put es q) = drop (length (contents q @ es) - cap) (contents q @ es) \<and>
    (lost (fold put es q) \<longleftrightarrow> lost q \<or> cap < length (contents q @ es))"
  using assms
proof (induction es arbitrary: q)
  case Nil
  then show ?case using cap_bound [OF Nil] by simp
next
  case (Cons e es)
  have q: "inv (put e q)" using Cons.prems by (rule put_inv)
  let ?d = "length (contents q) + 1 - cap"
  have latest: "contents (put e q) = drop ?d (contents q @ [e])"
    using put_latest [OF Cons.prems, of e] by simp
  have d: "?d \<le> length (contents q)" using cap_pos by simp
  have all: "contents (put e q) @ es = drop ?d (contents q @ e # es)"
    unfolding latest using d by simp
  have pos: "length (drop ?d (contents q @ e # es)) - cap + ?d = length (contents q @ e # es) - cap"
    using d by simp
  have "lost (put e q) \<or> cap < length (contents (put e q) @ es)
      \<longleftrightarrow> lost q \<or> cap < length (contents q @ e # es)"
    unfolding all using cap_bound [OF Cons.prems] put_lost [OF Cons.prems, of e] by auto
  moreover have "drop (length (contents (put e q) @ es) - cap) (contents (put e q) @ es)
      = drop (length (contents q @ e # es) - cap) (contents q @ e # es)"
    unfolding all drop_drop pos ..
  ultimately show ?case
    using Cons.IH [OF q] by simp
qed

end

definition events_wf :: "dvb_fe_events \<Rightarrow> bool" where
  "events_wf ev \<longleftrightarrow> length (events ev) = MAX_EVENT \<and> eventw ev < MAX_EVENT \<and> eventr ev < MAX_EVENT"

definition event_queue :: "dvb_fe_events \<Rightarrow> dvb_frontend_event list" where
  "event_queue ev = ring_contents (events ev) (eventr ev) (eventw ev)"

lemma length_event_queue: "events_wf ev \<Longrightarrow> length (event_queue ev) = ring_dist MAX_EVENT (eventr ev) (eventw ev)"
  by (simp add: event_queue_def events_wf_def)

lemma event_queue_bound: "events_wf ev \<Longrightarrow> length (event_queue ev) \<le> 7"
  using ring_dist_less [of "eventr ev" MAX_EVENT "eventw ev"] length_event_queue [of ev]
  by (simp add: events_wf_def)

lemma event_queue_empty:
  assumes "events_wf ev"
  shows "event_queue ev = [] \<longleftrightarrow> eventw ev = eventr ev"
proof -
  have "event_queue ev = [] \<longleftrightarrow> ring_dist MAX_EVENT (eventr ev) (eventw ev) = 0"
    by (simp only: length_event_queue [OF assms, symmetric] length_0_conv)
  with assms show ?thesis by (auto simp: events_wf_def ring_dist_0_iff)
qed

lemma ring_full:
  assumes "r < 8" "w < (8 :: nat)"
  shows "(w + 1) mod 8 = r \<longleftrightarrow> ring_dist 8 r w = 7"
  using assms by (auto simp: ring_dist_def mod_less_double split: if_splits)

lemma event_queue_drop:
  assumes "events_wf ev" "event_queue ev \<noteq> []"
  shows "events_wf (ev\<lparr>eventr := (eventr ev + 1) mod MAX_EVENT\<rparr>)"
    and "event_queue (ev\<lparr>eventr := (eventr ev + 1) mod MAX_EVENT\<rparr>) = tl (event_queue ev)"
    and "events ev ! eventr ev = hd (event_queue ev)"
proof -
  have len: "length (events ev) = 8" "eventr ev < 8" "eventw ev < 8"
    using assms(1) by (simp_all add: events_wf_def)
  have d: "1 \<le> ring_dist 8 (eventr ev) (eventw ev)"
    using assms length_event_queue [OF assms(1)] by (cases "event_queue ev") auto
  show "events_wf (ev\<lparr>eventr := (eventr ev + 1) mod MAX_EVENT\<rparr>)"
    using len by (simp add: events_wf_def)
  show "event_queue (ev\<lparr>eventr := (eventr ev + 1) mod MAX_EVENT\<rparr>) = tl (event_queue ev)"
    using ring_contents_advance [of "eventr ev" "events ev" "eventw ev" 1] len d
    by (simp add: event_queue_def drop_Suc)
  show "events ev ! eventr ev = hd (event_queue ev)"
    using nth_ring_contents [of 0 "events ev" "eventr ev" "eventw ev"] len d assms(2)
    by (simp add: event_queue_def hd_conv_nth)
qed

lemma event_queue_append:
  assumes "events_wf ev" "length (event_queue ev) < 7"
  shows "events_wf (ev\<lparr>events := (events ev)[eventw ev := e], eventw := (eventw ev + 1) mod MAX_EVENT\<rparr>)"
    and "event_queue (ev\<lparr>events := (events ev)[eventw ev := e], eventw := (eventw ev + 1) mod MAX_EVENT\<rparr>)
           = event_queue ev @ [e]"
  using assms ring_contents_store [of "eventr ev" "events ev" "eventw ev" "[e]"] length_event_queue [OF assms(1)]
  by (simp_all add: events_wf_def event_queue_def ring_store_single)

lemma store_event_queue:
  assumes "events_wf ev"
  shows "events_wf (store_event e ev)"
    and "event_queue (store_event e ev) =
           (if length (event_queue ev) < 7 then event_queue ev else tl (event_queue ev)) @ [e]"
    and "overflow (store_event e ev) \<longleftrightarrow> overflow ev \<or> length (event_queue ev) = 7"
proof -
  let ?ev = "if (eventw ev + 1) mod MAX_EVENT = eventr ev
             then ev\<lparr>overflow := True, eventr := (eventr ev + 1) mod MAX_EVENT\<rparr> else ev"
  have full: "(eventw ev + 1) mod MAX_EVENT = eventr ev \<longleftrightarrow> length (event_queue ev) = 7"
    using ring_full [of "eventr ev" "eventw ev"] assms length_event_queue [OF assms]
    by (simp add: events_wf_def)
  have store: "store_event e ev = ?ev\<lparr>events := (events ?ev)[eventw ?ev := e], eventw := (eventw ?ev + 1) mod MAX_EVENT\<rparr>"
    by (simp add: store_event_def Let_def)
  have room: "events_wf ?ev \<and> length (event_queue ?ev) < 7 \<and>
      event_queue ?ev = (if length (event_queue ev) < 7 then event_queue ev else tl (event_queue ev)) \<and>
      (overflow ?ev \<longleftrightarrow> overflow ev \<or> length (event_queue ev) = 7)"
  proof (cases "length (event_queue ev) = 7")
    case True
    then have "event_queue ev \<noteq> []" by auto
    from event_queue_drop [OF assms this] True full show ?thesis
      by (simp add: event_queue_def events_wf_def)
  next
    case False
    with event_queue_bound [OF assms] full assms show ?thesis by simp
  qed
  then show "events_wf (store_event e ev)"
    "event_queue (store_event e ev) =
       (if length (event_queue ev) < 7 then event_queue ev else tl (event_queue ev)) @ [e]"
    "overflow (store_event e ev) \<longleftrightarrow> overflow ev \<or> length (event_queue ev) = 7"
    unfolding store using event_queue_append [of ?ev e] by auto
qed

interpretation feq: lossy_queue 7 events_wf event_queue overflow store_event
  by unfold_locales (simp_all add: event_queue_bound store_event_queue)

text \<open>The events a list of status words makes, with what the driver reports as the parameters.\<close>

fun reported_events ::
  "'h fe_env \<Rightarrow> u32 list \<Rightarrow> dvb_frontend_data \<times> 'h \<Rightarrow> dvb_frontend_event list" where
  "reported_events env [] feh = []"
| "reported_events env (s # ss) feh =
     \<lparr>ev_status = s, ev_parameters = fst (event_parameters env (fst feh) s (snd feh))\<rparr>
       # reported_events env ss (dvb_frontend_add_event env s feh)"

lemma notifiers_keep_events [frame_simps]:
  "fe_events (fst (dvb_call_frontend_notifiers env s feh)) = fe_events (fst feh)"
  by (simp add: dvb_call_frontend_notifiers_def Let_def split_beta split: option.split)

lemma add_event_stores:
  assumes "\<not> fv_intr env (snd feh)"
  shows "fe_events (fst (dvb_frontend_add_event env s feh)) =
    store_event \<lparr>ev_status = s, ev_parameters = fst (event_parameters env (fst feh) s (snd feh))\<rparr>
      (fe_events (fst feh))"
  using assms by (simp add: dvb_frontend_add_event_def Let_def split_beta frame_simps)

lemma add_events_store:
  assumes "\<And>h. \<not> fv_intr env h"
  shows "fe_events (fst (fold (dvb_frontend_add_event env) ss feh)) =
    fold store_event (reported_events env ss feh) (fe_events (fst feh))"
  using assms by (induction ss arbitrary: feh) (simp_all add: add_event_stores)

lemma reported_status: "map ev_status (reported_events env ss feh) = ss"
  by (induction ss arbitrary: feh) simp_all

text \<open>An application that reads without blocking, \<open>n\<close> times: the results it sees.\<close>

fun read_events :: "'h fe_env \<Rightarrow> nat \<Rightarrow> dvb_frontend_data \<times> 'h \<Rightarrow> (errno + dvb_frontend_event) list" where
  "read_events env 0 feh = []"
| "read_events env (Suc n) feh =
     (case dvb_frontend_get_event env True null_arg [] feh of
        Returns (Inl e, arg, feh, ws) \<Rightarrow> Inl e # read_events env n feh
      | Returns (Inr _, arg, feh, ws) \<Rightarrow> Inr (fa_event arg) # read_events env n feh
      | _ \<Rightarrow> [])"

lemma read_events_queue:
  assumes "\<And>h. \<not> fv_intr env h" "events_wf (fe_events (fst feh))" "\<not> overflow (fe_events (fst feh))"
    and "event_queue (fe_events (fst feh)) = es"
  shows "read_events env (length es + 1) feh = map Inr es @ [Inl EWOULDBLOCK]"
  using assms(2-4)
proof (induction es arbitrary: feh)
  case Nil
  then have "eventw (fe_events (fst feh)) = eventr (fe_events (fst feh))"
    using event_queue_empty by blast
  with Nil show ?case by (simp add: dvb_frontend_get_event_def Let_def split_beta)
next
  case (Cons e es)
  let ?ev = "fe_events (fst feh)"
  have ne: "event_queue ?ev \<noteq> []" using Cons.prems(3) by simp
  have "eventw ?ev \<noteq> eventr ?ev" using event_queue_empty [OF Cons.prems(1)] ne by simp
  then have step: "read_events env (length (e # es) + 1) feh = Inr (events ?ev ! eventr ?ev) #
      read_events env (length es + 1)
        ((fst feh)\<lparr>fe_events := ?ev\<lparr>eventr := (eventr ?ev + 1) mod MAX_EVENT\<rparr>\<rparr>, snd feh)"
    using Cons.prems(2) assms(1) by (simp add: dvb_frontend_get_event_def take_event_def Let_def split_beta)
  show ?case
    unfolding step using Cons.IH event_queue_drop [OF Cons.prems(1) ne] Cons.prems by simp
qed

text \<open>
  C19: an application that reads its events after any number of status changes gets, in order, the
  events of the last seven of them, each with the status word of that change; if there were more than
  seven it is told so first, once, by \<open>EOVERFLOW\<close>; then the device reports that there are no more.
\<close>

theorem frontend_events_latest:
  assumes "\<And>h. \<not> fv_intr env h" "events_wf (fe_events fe)" "event_queue (fe_events fe) = []"
    and "\<not> overflow (fe_events fe)"
  shows "let feh = fold (dvb_frontend_add_event env) ss (fe, h);
             latest = drop (length ss - 7) (reported_events env ss (fe, h))
         in map ev_status latest = drop (length ss - 7) ss \<and>
            read_events env (length latest + (if 7 < length ss then 2 else 1)) feh =
              (if 7 < length ss then [Inl EOVERFLOW] else []) @ map Inr latest @ [Inl EWOULDBLOCK]"
proof -
  define feh where "feh = fold (dvb_frontend_add_event env) ss (fe, h)"
  define es where "es = reported_events env ss (fe, h)"
  have len: "length es = length ss"
    using arg_cong [OF reported_status [of env ss "(fe, h)"], of length] by (simp add: es_def)
  let ?ev = "fe_events (fst feh)"
  have ev: "events_wf ?ev" "event_queue ?ev = drop (length ss - 7) es" "overflow ?ev \<longleftrightarrow> 7 < length ss"
    using feq.puts_keep_latest [OF assms(2), of es] assms(3,4) len
    by (simp_all add: feh_def add_events_store [OF assms(1)] es_def)
  have status: "map ev_status (drop (length ss - 7) es) = drop (length ss - 7) ss"
    by (simp add: drop_map [symmetric] es_def reported_status)
  show ?thesis
  proof (cases "7 < length ss")
    case False
    then show ?thesis
      using read_events_queue [OF assms(1) ev(1) _ ev(2)] ev(3) status
      unfolding feh_def [symmetric] es_def [symmetric] Let_def by simp
  next
    case True
    let ?feh = "((fst feh)\<lparr>fe_events := ?ev\<lparr>overflow := False\<rparr>\<rparr>, snd feh)"
    have "read_events env (n + 2) feh = Inl EOVERFLOW # read_events env (n + 1) ?feh" for n
      using True ev(3) by (simp add: dvb_frontend_get_event_def Let_def split_beta)
    moreover have "read_events env (length (drop (length ss - 7) es) + 1) ?feh
        = map Inr (drop (length ss - 7) es) @ [Inl EWOULDBLOCK]"
      by (rule read_events_queue [OF assms(1)]) (use ev in \<open>simp_all add: events_wf_def event_queue_def\<close>)
    ultimately show ?thesis
      using True status unfolding feh_def [symmetric] es_def [symmetric] Let_def by simp
  qed
qed


section \<open>Tuners side by side\<close>

text \<open>
  Another tuner of the adapter is in the way of a frontend: it is in use, and the two frequencies are
  less than a step apart.
\<close>

definition in_the_way :: "'h fe_state \<Rightarrow> nat \<Rightarrow> dvb_frontend_data \<Rightarrow> bool" where
  "in_the_way st p this_fe \<longleftrightarrow>
     (\<exists>q \<in> set (frontend_list st). \<exists>fe. q \<noteq> p \<and> frontends st q = Some fe \<and>
        adapter_num st fe = adapter_num st this_fe \<and> lost_sync_count fe \<noteq> -1 \<and>
        sint (tuned_to this_fe) > sint (tuned_to fe - fi_frequency_stepsize (fe_info this_fe)) \<and>
        sint (tuned_to this_fe) < sint (tuned_to fe + fi_frequency_stepsize (fe_info this_fe)))"

text \<open>The frontends of the list and their adapters are there.\<close>

definition frontends_live :: "'h fe_state \<Rightarrow> bool" where
  "frontends_live st \<longleftrightarrow>
     (\<forall>p \<in> set (frontend_list st). \<exists>fe. frontends st p = Some fe \<and> adapter_num st fe \<noteq> None)"

lemma put_fe_simps [simp]:
  "frontends (put_fe p fe st) = (frontends st)(p \<mapsto> fe)"
  "frontend_list (put_fe p fe st) = frontend_list st"
  "fe_registry (put_fe p fe st) = fe_registry st"
  "fe_world (put_fe p fe st) = fe_world st"
  "put_fe p fe (put_fe p fe' st) = put_fe p fe st"
  "adapter_num (put_fe p fe st) fe'' = adapter_num st fe''"
  by (simp_all add: put_fe_def adapter_num_def)

lemma put_fe_same: "frontends st p = Some fe \<Longrightarrow> put_fe p fe st = st"
  by (simp add: put_fe_def map_upd_triv)

lemma adapter_num_cong [simp]: "adapter_num st (fe\<lparr>bending := b\<rparr>) = adapter_num st fe"
  by (simp add: adapter_num_def)

lemma bend_conflict_eq:
  assumes "\<forall>q \<in> set ps. \<exists>fe. frontends st q = Some fe \<and> adapter_num st fe \<noteq> None"
    and "adapter_num st this_fe = Some num" "adapter_num st x = Some num"
  shows "bend_conflict (put_fe p x st) num p this_fe ps =
    Some (\<exists>q \<in> set ps. \<exists>fe. q \<noteq> p \<and> frontends st q = Some fe \<and>
        adapter_num st fe = adapter_num st this_fe \<and> lost_sync_count fe \<noteq> -1 \<and>
        sint (tuned_to this_fe) > sint (tuned_to fe - fi_frequency_stepsize (fe_info this_fe)) \<and>
        sint (tuned_to this_fe) < sint (tuned_to fe + fi_frequency_stepsize (fe_info this_fe)))"
  using assms(1)
proof (induction ps)
  case Nil
  then show ?case by simp
next
  case (Cons q qs)
  then obtain fe n where "frontends st q = Some fe" "adapter_num st fe = Some n" by auto
  with Cons assms(2,3) show ?case by (cases "q = p") (auto simp: Let_def)
qed

lemma bend_conflict_in_the_way:
  assumes "frontends_live st" "adapter_num st fe = Some num"
  shows "bend_conflict (put_fe p (fe\<lparr>bending := b\<rparr>) st) num p (fe\<lparr>bending := b\<rparr>) (frontend_list st)
    = Some (in_the_way st p (fe\<lparr>bending := b\<rparr>))"
  using bend_conflict_eq [of "frontend_list st" st "fe\<lparr>bending := b\<rparr>" num "fe\<lparr>bending := b\<rparr>" p] assms
  by (simp add: frontends_live_def in_the_way_def)

lemma bend_unfold:
  assumes "frontends_live st" "frontends st p = Some fe" "adapter_num st fe \<noteq> None"
    and "fi_frequency_stepsize (fe_info fe) \<noteq> 0" "0 < r" "r \<le> 10"
  shows "dvb_bend_frequency env p r (put_fe p (fe\<lparr>bending := b\<rparr>) st) =
    (if in_the_way st p (fe\<lparr>bending := b\<rparr>)
     then dvb_bend_frequency env p (r + 1) (put_fe p
       (fe\<lparr>bending := if r mod 2 \<noteq> 0 then b + fi_frequency_stepsize (fe_info fe) else - b\<rparr>) st)
     else Some (put_fe p (fe\<lparr>bending := b\<rparr>) st))"
proof -
  obtain num where num: "adapter_num st fe = Some num" using assms(3) by blast
  show ?thesis
    using assms(4-6) num bend_conflict_in_the_way [OF assms(1) num, of p b]
    by (subst dvb_bend_frequency.simps) (simp add: Let_def)
qed

lemma bend_start:
  assumes "frontends_live st" "frontends st p = Some fe" "adapter_num st fe \<noteq> None"
    and "fi_frequency_stepsize (fe_info fe) \<noteq> 0" "\<not> fv_intr env (fe_world st)"
  shows "dvb_bend_frequency env p 0 st =
    (if in_the_way st p (fe\<lparr>bending := 0\<rparr>)
     then dvb_bend_frequency env p 1 (put_fe p (fe\<lparr>bending := 0\<rparr>) st)
     else Some (put_fe p (fe\<lparr>bending := 0\<rparr>) st))"
proof -
  obtain num where num: "adapter_num st fe = Some num" using assms(3) by blast
  show ?thesis
    using assms(2,4,5) num bend_conflict_in_the_way [OF assms(1) num, of p 0]
    by (subst dvb_bend_frequency.simps) (simp add: Let_def)
qed

lemma bend_too_deep:
  assumes "adapter_num st fe \<noteq> None" "10 < r"
  shows "dvb_bend_frequency env p r (put_fe p (fe\<lparr>bending := b\<rparr>) st) = Some (put_fe p (fe\<lparr>bending := b\<rparr>) st)"
  using assms by (subst dvb_bend_frequency.simps) (auto simp: Let_def)

text \<open>
  C20: the recursion of \<open>dvb_bend_frequency\<close> ends, and changes nothing but the offset of the frontend: it
  becomes the first of 0, one step up, one step down with which no other tuner of the adapter is in
  the way, or one step down when every one of the three has a tuner in the way (the depth limit of
  ten only repeats these three).
\<close>

theorem bend_frequency_result:
  assumes "frontends_live st" "frontends st p = Some fe" "adapter_num st fe \<noteq> None"
    and "fi_frequency_stepsize (fe_info fe) \<noteq> 0" "\<not> fv_intr env (fe_world st)"
  shows "dvb_bend_frequency env p 0 st = Some (put_fe p (fe\<lparr>bending :=
    (let step = fi_frequency_stepsize (fe_info fe) in
     case find (\<lambda>b. \<not> in_the_way st p (fe\<lparr>bending := b\<rparr>)) [0, step, - step] of
       Some b \<Rightarrow> b | None \<Rightarrow> - step)\<rparr>) st)"
  by (simp add: bend_start [OF assms] bend_unfold [OF assms(1-4)] bend_too_deep [OF assms(3)] Let_def)


section \<open>The scan for a drifted signal\<close>

text \<open>One round of the thread without lock, as far as the scan is concerned.\<close>

definition lost_round :: "dvb_frontend_data \<Rightarrow> dvb_frontend_data" where
  "lost_round fe = zigzag_drift (fe\<lparr>lost_sync_count := lost_sync_count fe + 1\<rparr>)"

definition zigzag :: "nat \<Rightarrow> int" where
  "zigzag n = (if odd n then int (n div 2) + 1 else - int (n div 2))"

lemma zigzag_Suc: "zigzag (Suc n) = (if even n then - zigzag n + 1 else - zigzag n)"
  by (auto simp: zigzag_def elim: evenE oddE)

lemma zigzag_range: "zigzag ` {..< 32} = {-15 .. 16}"
proof
  show "zigzag ` {..< 32} \<subseteq> {-15 .. 16}" by (auto simp: zigzag_def)
  show "{-15 .. 16} \<subseteq> zigzag ` {..< 32}"
  proof
    fix k :: int
    assume k: "k \<in> {-15 .. 16}"
    define n where "n = (if 0 < k then 2 * nat k - 1 else 2 * nat (- k))"
    have "n < 32" "zigzag n = k" using k by (auto simp: n_def zigzag_def)
    then show "k \<in> zigzag ` {..< 32}" by blast
  qed
qed

lemma count_mod:
  assumes "(a :: int) mod 32 = 0"
  shows "(a + int n + 1) mod 32 = int (Suc n mod 32)" "(a + int n + 1) mod 2 \<noteq> 0 \<longleftrightarrow> even n"
proof -
  obtain m where a: "a = 32 * m" using assms by auto
  have "(a + int n + 1) mod 32 = (int (Suc n) + m * 32) mod 32"
    unfolding a by (rule arg_cong [where f = "\<lambda>x. x mod 32"]) simp
  also have "\<dots> = int (Suc n) mod 32" by (rule mod_mult_self1)
  finally show "(a + int n + 1) mod 32 = int (Suc n mod 32)" by (simp add: zmod_int)
  show "(a + int n + 1) mod 2 \<noteq> 0 \<longleftrightarrow> even n" by (simp add: a odd_iff_mod_2_eq_one [symmetric] mod_2_eq_odd)
qed

lemma lost_round_simps:
  "lost_sync_count (lost_round fe) = lost_sync_count fe + 1"
  "recover_stepsize (lost_round fe) = recover_stepsize fe"
  "lnb_drift (lost_round fe) =
     (if (lost_sync_count fe + 1) mod 32 = 0 then 0
      else - lnb_drift fe + (if (lost_sync_count fe + 1) mod 2 \<noteq> 0 then recover_stepsize fe else 0))"
  by (simp_all add: lost_round_def zigzag_drift_def recover_stepsize_def Let_def split: fe_type.split)

lemma lost_rounds:
  assumes "lost_sync_count fe mod 32 = 0" "lnb_drift fe = 0"
  shows "lost_sync_count ((lost_round ^^ n) fe) = lost_sync_count fe + int n \<and>
    recover_stepsize ((lost_round ^^ n) fe) = recover_stepsize fe \<and>
    lnb_drift ((lost_round ^^ n) fe) = of_int (zigzag (n mod 32)) * recover_stepsize fe"
proof (induction n)
  case 0
  then show ?case using assms by (simp add: zigzag_def)
next
  case (Suc n)
  have "of_int (zigzag (Suc n mod 32)) * recover_stepsize fe =
    (if int (Suc n mod 32) = 0 then 0
     else - (of_int (zigzag (n mod 32)) * recover_stepsize fe) + (if even n then recover_stepsize fe else 0))"
  proof (cases "Suc n mod 32 = 0")
    case True
    then show ?thesis by (simp add: zigzag_def)
  next
    case False
    then have "Suc n mod 32 = Suc (n mod 32)" by (simp add: mod_Suc split: if_splits)
    moreover have "even (n mod 32) = even n" by (simp add: even_mod_2_iff dvd_mod_iff)
    ultimately show ?thesis by (simp add: zigzag_Suc ring_distribs)
  qed
  then show ?case
    using Suc count_mod [OF assms(1), of n] by (simp add: lost_round_simps add.assoc)
qed

text \<open>
  The scan for a drifted signal. While the lock stays lost, the offset added to the frequency is
  0, +1, -1, +2, -2, \<open>\<dots>\<close> steps, alternating around the frequency the application asked for, and starts
  again after 32 rounds: in any 32 rounds it visits every multiple of the step from 15 below to 16 above.
\<close>

theorem zigzag_scan:
  assumes "lost_sync_count fe mod 32 = 0" "lnb_drift fe = 0"
  shows "lnb_drift ((lost_round ^^ n) fe) = of_int (zigzag (n mod 32)) * recover_stepsize fe \<and>
    (\<lambda>k. lnb_drift ((lost_round ^^ k) fe)) ` {..< 32} = (\<lambda>k. of_int k * recover_stepsize fe) ` {-15 .. 16}"
proof
  show "lnb_drift ((lost_round ^^ n) fe) = of_int (zigzag (n mod 32)) * recover_stepsize fe"
    using lost_rounds [OF assms] by blast
  have "(\<lambda>k. lnb_drift ((lost_round ^^ k) fe)) ` {..< 32} =
      (\<lambda>k. of_int (zigzag k) * recover_stepsize fe) ` {..< 32}"
    using lost_rounds [OF assms] by (intro image_cong) auto
  then show "(\<lambda>k. lnb_drift ((lost_round ^^ k) fe)) ` {..< 32} =
      (\<lambda>k. of_int k * recover_stepsize fe) ` {-15 .. 16}"
    by (simp only: zigzag_range [symmetric] image_image)
qed


section \<open>Concrete frontends\<close>

text \<open>Two QPSK tuners of one adapter, and a driver that accepts everything.\<close>

definition ex_fe_env :: "nat fe_env" where
  "ex_fe_env = \<lparr>fv_ioctl = \<lambda>_ _ cmd arg h. (Inr 0, arg, h), fv_notify = \<lambda>_ _ _ h. h,
     fv_jiffies = of_nat, fv_delay = \<lambda>_ h. h, fv_intr = \<lambda>_. False, fv_hz = 100, fv_shutdown_timeout = 5\<rparr>"

definition ex_bus :: "nat \<Rightarrow> i2c_bus" where
  "ex_bus n = \<lparr>ib_addr = n, ib_xfer = 0, ib_data = 0, ib_adapter = 100, ib_id = 0, ib_client_list = []\<rparr>"

definition ex_fe_info :: dvb_frontend_info where
  "ex_fe_info = \<lparr>fi_type = FE_QPSK, fi_frequency_stepsize = 125, fi_notifier_delay = 0, fi_caps = 0\<rparr>"

definition ex_fe :: dvb_frontend_data where
  "ex_fe = (new_frontend_data 7 (ex_bus 50) 0 ex_fe_info)\<lparr>fe_parameters :=
     empty_params\<lparr>fp_frequency := 1100000, fp_symbol_rate := 22000000\<rparr>\<rparr>"

definition ex_fe_registry :: dvbdev_state where
  "ex_fe_registry = \<lparr>dvb_adapter_list = [100],
     adapters = [100 \<mapsto> \<lparr>ad_num = 0, ad_devfs_handle = Some (Devfs_Dir 0), ad_device_list = [],
       ad_name = ''avia'', ad_proposed_mac = replicate 6 0\<rparr>],
     devices = Map.empty, devfs = [Devfs_Dir 0]\<rparr>"

definition ex_fe_state :: "nat fe_state" where
  "ex_fe_state = \<lparr>frontend_list = [1, 2], frontends = [1 \<mapsto> ex_fe, 2 \<mapsto> ex_fe], frontend_ioctl_list = [],
     frontend_notifier_list = [], fe_registry = ex_fe_registry, fe_world = 0\<rparr>"

lemmas ex_fe_defs = ex_fe_env_def ex_bus_def ex_fe_info_def ex_fe_def ex_fe_registry_def ex_fe_state_def
  new_frontend_data_def empty_params_def

theorem frontend_events_latest_witness:
  "let ss = [1, 3, 7, 1, 3, 7, 0x1f, 0, 1];
       feh = fold (dvb_frontend_add_event ex_fe_env) ss (ex_fe, 0);
       latest = drop 2 (reported_events ex_fe_env ss (ex_fe, 0))
   in map ev_status latest = [7, 1, 3, 7, 0x1f, 0, 1] \<and>
      read_events ex_fe_env (length latest + 2) feh = [Inl EOVERFLOW] @ map Inr latest @ [Inl EWOULDBLOCK]"
proof -
  have "events_wf (fe_events ex_fe)" "event_queue (fe_events ex_fe) = []" "\<not> overflow (fe_events ex_fe)"
    "\<not> fv_intr ex_fe_env h" for h
    by (simp_all add: ex_fe_defs events_wf_def event_queue_def)
  note latest = frontend_events_latest [of ex_fe_env ex_fe "[1, 3, 7, 1, 3, 7, 0x1f, 0, 1]" 0, OF this(4,1-3)]
  show ?thesis using latest unfolding Let_def by (simp add: numeral_2_eq_2 del: read_events.simps fold.simps reported_events.simps)
qed

theorem bend_frequency_result_witness:
  "dvb_bend_frequency ex_fe_env 1 0 ex_fe_state = Some (put_fe 1 (ex_fe\<lparr>bending := 125\<rparr>) ex_fe_state)"
proof -
  have num: "adapter_num ex_fe_state ex_fe = Some 0"
    by (simp add: adapter_num_def ex_fe_defs)
  have list: "frontend_list ex_fe_state = [1, 2]" "frontends ex_fe_state = [1 \<mapsto> ex_fe, 2 \<mapsto> ex_fe]"
    by (simp_all add: ex_fe_state_def)
  have way: "in_the_way ex_fe_state 1 (ex_fe\<lparr>bending := 0\<rparr>)" "\<not> in_the_way ex_fe_state 1 (ex_fe\<lparr>bending := 125\<rparr>)"
    by (simp_all add: in_the_way_def list num) (simp_all add: ex_fe_defs tuned_to_def)
  have "frontends_live ex_fe_state" "\<not> fv_intr ex_fe_env (fe_world ex_fe_state)"
    "fi_frequency_stepsize (fe_info ex_fe) = 125"
    by (simp_all add: frontends_live_def list num) (simp_all add: ex_fe_defs)
  with bend_frequency_result [of ex_fe_state 1 ex_fe ex_fe_env] list num way show ?thesis
    by simp
qed

theorem zigzag_scan_witness:
  "lnb_drift ((lost_round ^^ 37) ex_fe) = 3 * 1375 \<and>
   (\<lambda>k. lnb_drift ((lost_round ^^ k) ex_fe)) ` {..< 32} = (\<lambda>k. of_int k * 1375) ` {-15 .. 16}"
proof -
  have "lost_sync_count ex_fe mod 32 = 0" "lnb_drift ex_fe = 0" "recover_stepsize ex_fe = 1375"
    by (simp_all add: ex_fe_defs recover_stepsize_def)
  with zigzag_scan [of ex_fe 37] show ?thesis by (simp add: zigzag_def)
qed

end
