(* ===== verification/Dvb_Frontend_Thread.thy ===== *)
theory Dvb_Frontend_Thread
  imports Dvb_Frontend_Properties
begin

text \<open>
  The thread of a frontend and the system calls on its device as one transition system: the moves of
  the thread, the ioctls, and the opening and closing of the device interleave; the semaphore decides
  which of them can run. The invariant says who holds it and bounds the variables of the thread.
\<close>

section \<open>What the operations leave alone\<close>

definition fe_frame :: "dvb_frontend_data \<Rightarrow> dvb_frontend_data \<Rightarrow> bool" where
  "fe_frame fe fe' \<longleftrightarrow>
     fe_sem fe' = fe_sem fe \<and> thread_pid fe' = thread_pid fe \<and> fe_exit fe' = fe_exit fe \<and>
     (events_wf (fe_events fe) \<longrightarrow> events_wf (fe_events fe')) \<and>
     (-1 \<le> lost_sync_count fe \<longrightarrow> -1 \<le> lost_sync_count fe')"

definition st_frame :: "nat \<Rightarrow> 'h fe_state \<Rightarrow> 'h fe_state \<Rightarrow> bool" where
  "st_frame p st st' \<longleftrightarrow>
     (\<forall>fe. frontends st p = Some fe \<longrightarrow> (\<exists>fe'. frontends st' p = Some fe' \<and> fe_frame fe fe'))"

lemma fe_frame_refl [intro, simp]: "fe_frame fe fe"
  by (simp add: fe_frame_def)

lemma fe_frame_trans [trans]: "fe_frame a b \<Longrightarrow> fe_frame b c \<Longrightarrow> fe_frame a c"
  by (simp add: fe_frame_def)

lemma st_frame_refl [intro, simp]: "st_frame p st st"
  by (simp add: st_frame_def)

lemma st_frame_trans [trans]: "st_frame p a b \<Longrightarrow> st_frame p b c \<Longrightarrow> st_frame p a c"
  unfolding st_frame_def by (meson fe_frame_trans)

lemma put_frame: "frontends st p = Some fe \<Longrightarrow> fe_frame fe fe' \<Longrightarrow> st_frame p st (put_fe p fe' st)"
  by (simp add: st_frame_def)

lemma put_fe_world_simps [simp]:
  "frontends (put_fe_world p feh st) = (frontends st)(p \<mapsto> fst feh)"
  "fe_registry (put_fe_world p feh st) = fe_registry st"
  by (simp_all add: put_fe_world_def put_fe_def)

lemma put_world_frame:
  "frontends st p = Some fe \<Longrightarrow> fe_frame fe (fst feh) \<Longrightarrow> st_frame p st (put_fe_world p feh st)"
  by (simp add: st_frame_def)

lemma world_frame [simp]: "st_frame p st (st'\<lparr>fe_world := h\<rparr>) \<longleftrightarrow> st_frame p st st'"
  by (simp add: st_frame_def)

lemma notifiers_frame: "fe_frame (fst feh) (fst (dvb_call_frontend_notifiers env s feh))"
  by (simp add: dvb_call_frontend_notifiers_def Let_def split_beta fe_frame_def split: option.split)

lemma add_event_frame: "fe_frame (fst feh) (fst (dvb_frontend_add_event env s feh))"
proof (cases "fv_intr env (snd feh)")
  case True
  then show ?thesis by (simp add: dvb_frontend_add_event_def split_beta)
next
  case False
  define e where "e = \<lparr>ev_status = s, ev_parameters = fst (event_parameters env (fst feh) s (snd feh))\<rparr>"
  define fe where "fe = (fst feh)\<lparr>fe_events := store_event e (fe_events (fst feh))\<rparr>"
  have "fe_frame (fst feh) fe" by (simp add: fe_frame_def fe_def store_event_queue(1))
  also have "fe_frame fe (fst (dvb_frontend_add_event env s feh))"
    using False notifiers_frame [of "(fe, snd (event_parameters env (fst feh) s (snd feh)))" env s]
    by (simp add: dvb_frontend_add_event_def split_beta Let_def fe_def e_def)
  finally show ?thesis .
qed

lemma first_trial_frame: "fe_frame (fst feh) (fst (first_trial_setup env param feh))"
proof -
  define fe where "fe = (fst feh)\<lparr>timeout_count := 0, lost_sync_count := 0,
    lost_sync_jiffies := fv_jiffies env (snd feh), lnb_drift := 0\<rparr>"
  have 1: "fe_frame (fst feh) fe" by (simp add: fe_frame_def fe_def)
  have "fe_frame fe (fst (dvb_frontend_add_event env 0 (fe, snd feh)))"
    using add_event_frame [of "(fe, snd feh)" env 0] by simp
  from fe_frame_trans [OF 1 this] have
    "fe_frame (fst feh) ((fst (dvb_frontend_add_event env 0 (fe, snd feh)))\<lparr>fe_parameters := param\<rparr>)"
    by (simp add: fe_frame_def)
  with 1 show ?thesis
    by (simp add: first_trial_setup_def split_beta Let_def fe_def [symmetric]) (simp add: fe_frame_def)
qed

lemma bend_frame: "dvb_bend_frequency env p r st = Some st' \<Longrightarrow> st_frame p st st'"
proof (induction "11 - r" arbitrary: r st rule: less_induct)
  case (less r st)
  from less.prems obtain fe num where fe: "frontends st p = Some fe" "adapter_num st fe = Some num"
    by (subst (asm) dvb_bend_frequency.simps) (auto split: bind_splits)
  let ?s = "fi_frequency_stepsize (fe_info fe)"
  show ?case
  proof (cases "?s = 0 \<or> r > 10 \<or> (r = 0 \<and> fv_intr env (fe_world st))")
    case True
    then show ?thesis using less.prems fe by (subst (asm) dvb_bend_frequency.simps) (auto simp: Let_def split: if_splits)
  next
    case False
    define fe1 where "fe1 = (if r = 0 then fe\<lparr>bending := 0\<rparr> else fe)"
    define fe2 where "fe2 = (if r mod 2 \<noteq> 0 then fe1\<lparr>bending := bending fe1 + ?s\<rparr> else fe1\<lparr>bending := - bending fe1\<rparr>)"
    have fr: "fe_frame fe fe1" "fe_frame fe fe2" by (simp_all add: fe_frame_def fe1_def fe2_def)
    obtain hit where hit: "bend_conflict (put_fe p fe1 st) num p fe1 (frontend_list st) = Some hit"
      using less.prems fe False
      by (subst (asm) dvb_bend_frequency.simps) (auto simp: Let_def fe1_def split: bind_splits if_splits)
    have red: "dvb_bend_frequency env p r st =
        (if hit then dvb_bend_frequency env p (r + 1) (put_fe p fe2 st) else Some (put_fe p fe1 st))"
      using fe False hit
      by (subst dvb_bend_frequency.simps) (auto simp: Let_def fe1_def [symmetric] fe2_def)
    show ?thesis
    proof (cases hit)
      case True
      have "st_frame p (put_fe p fe2 st) st'"
        by (rule less.hyps [of "r + 1"]) (use False True less.prems red in auto)
      with put_frame [OF fe(1) fr(2)] show ?thesis by (rule st_frame_trans)
    next
      case False
      then show ?thesis using red less.prems put_frame [OF fe(1) fr(1)] by simp
    qed
  qed
qed

lemma set_parameters_frame:
  assumes "dvb_frontend_set_parameters env p param first st = Some (err, param', st')"
  shows "st_frame p st st'"
proof -
  from assms obtain fe where fe: "frontends st p = Some fe"
    by (auto simp: dvb_frontend_set_parameters_def split: bind_splits)
  define feh where "feh = (if first then first_trial_setup env param (fe, fe_world st) else (fe, fe_world st))"
  have "fe_frame fe (fst feh)"
    using first_trial_frame [of "(fe, fe_world st)" env param] by (simp add: feh_def)
  then have 1: "st_frame p st (put_fe_world p feh st)" by (rule put_world_frame [OF fe])
  from assms fe obtain st1 h where st1: "dvb_bend_frequency env p 0 (put_fe_world p feh st) = Some st1"
      "st' = st1\<lparr>fe_world := h\<rparr>"
    by (auto simp: dvb_frontend_set_parameters_def Let_def split_beta feh_def [symmetric] split: bind_splits)
  from st_frame_trans [OF 1 bend_frame [OF st1(1)]] st1(2) show ?thesis by simp
qed

lemma recover_frame:
  assumes "dvb_frontend_recover env p st = Some st'"
  shows "st_frame p st st'"
proof -
  from assms obtain fe where fe: "frontends st p = Some fe"
    by (auto simp: dvb_frontend_recover_def split: bind_splits)
  have "fe_frame fe (zigzag_drift fe)"
    by (simp add: fe_frame_def zigzag_drift_def Let_def)
  then have 1: "st_frame p st (put_fe p (zigzag_drift fe) st)" by (rule put_frame [OF fe])
  from assms fe obtain err param st1 fe1 h where
    st1: "dvb_frontend_set_parameters env p (fe_parameters (zigzag_drift fe)) False
            (put_fe p (zigzag_drift fe) st) = Some (err, param, st1)"
      "frontends st1 p = Some fe1" "st' = put_fe_world p (fe1\<lparr>fe_parameters := param\<rparr>, h) st1"
    by (auto simp: dvb_frontend_recover_def Let_def split_beta split: bind_splits)
  have "st_frame p st1 st'" unfolding st1(3) by (rule put_world_frame [OF st1(2)]) (simp add: fe_frame_def)
  from st_frame_trans [OF st_frame_trans [OF 1 set_parameters_frame [OF st1(1)]] this] show ?thesis .
qed


section \<open>The delay between two readings of the status\<close>

lemma sdiv_nonneg: "0 \<le> (a :: int) \<Longrightarrow> 0 < b \<Longrightarrow> a sdiv b = a div b"
  by (auto simp: signed_divide_int_def sgn_if)

lemma update_delay_range:
  assumes "0 \<le> quality" "quality \<le> 249"
  shows "0 \<le> fst (update_delay hz quality locked)" "fst (update_delay hz quality locked) \<le> 249"
    and "int (hz div 20) \<le> snd (update_delay hz quality locked)"
    and "snd (update_delay hz quality locked) \<le> int (hz div 20) + int hz"
proof -
  define q where "q = fst (update_delay hz quality locked)"
  have q: "0 \<le> q" "q \<le> 249"
    using assms by (auto simp: q_def update_delay_def Let_def sdiv_nonneg)
  then show "0 \<le> fst (update_delay hz quality locked)" "fst (update_delay hz quality locked) \<le> 249"
    by (simp_all add: q_def)
  have sq: "0 \<le> (q - 128) * (q - 128)" "(q - 128) * (q - 128) \<le> 128 * 128"
  proof -
    have "\<bar>q - 128\<bar> \<le> 128" using q by linarith
    then show "(q - 128) * (q - 128) \<le> 128 * 128"
      using mult_mono [of "\<bar>q - 128\<bar>" 128 "\<bar>q - 128\<bar>" 128] by (simp add: abs_mult_self_eq)
  qed simp
  have d: "snd (update_delay hz quality locked) = int (hz div 20) + (q - 128) * (q - 128) * int hz div 16384"
    using sq(1) by (simp add: q_def update_delay_def Let_def sdiv_nonneg)
  have "(q - 128) * (q - 128) * int hz div 16384 \<le> 16384 * int hz div 16384"
    using sq(2) by (intro zdiv_mono1 mult_right_mono) auto
  then show "int (hz div 20) \<le> snd (update_delay hz quality locked)"
    "snd (update_delay hz quality locked) \<le> int (hz div 20) + int hz"
    using sq(1) unfolding d by (simp_all add: pos_imp_zdiv_nonneg_iff)
qed

definition thread_ok :: "nat \<Rightarrow> fe_thread \<Rightarrow> bool" where
  "thread_ok hz th \<longleftrightarrow> 0 \<le> th_quality th \<and> th_quality th \<le> 249 \<and>
     int (hz div 20) \<le> th_delay th \<and> th_delay th \<le> int (3 * hz)"

lemma lost_timeout_frame: "fe_frame fe (snd (lost_timeout env h s fe))"
  by (simp add: lost_timeout_def fe_frame_def)

lemma thread_lost_frame:
  assumes "thread_lost env p s delay st = Some (news, delay', st')"
  shows "st_frame p st st' \<and> (delay' = delay \<or> delay' = int (fv_hz env div 5))"
proof -
  from assms obtain fe where fe: "frontends st p = Some fe"
    by (auto simp: thread_lost_def split: bind_splits)
  define fe1 where "fe1 = fe\<lparr>lost_sync_count := lost_sync_count fe + 1\<rparr>"
  define caps where "caps = fi_caps (fe_info fe1)"
  have 1: "st_frame p st (put_fe p fe1 st)"
    by (rule put_frame [OF fe]) (simp add: fe_frame_def fe1_def)
  show ?thesis
  proof (cases "caps AND FE_CAN_RECOVER = 0 \<and> caps AND FE_CAN_CLEAN_SETUP = 0 \<and> lost_sync_count fe1 < 10")
    case True
    then show ?thesis
      using assms fe 1 by (simp add: thread_lost_def fe1_def caps_def Let_def)
  next
    case False
    define st2 where "st2 = put_fe p fe1 st"
    have red: "thread_lost env p s delay st = do {
       (delay, st1) \<leftarrow> (if caps AND FE_CAN_RECOVER = 0
          then map_option (\<lambda>st. (int (fv_hz env div 5), st)) (dvb_frontend_recover env p st2)
          else Some (delay, st2));
       fe2 \<leftarrow> frontends st1 p;
       let (s, fe3) = lost_timeout env (fe_world st1) s fe2;
       Some (Some s, delay, put_fe p fe3 st1)
     }"
      using fe False by (auto simp: thread_lost_def fe1_def caps_def st2_def Let_def)
    obtain st1 fe2 where st1: "st1 = st2 \<or> dvb_frontend_recover env p st2 = Some st1"
      "frontends st1 p = Some fe2" "st' = put_fe p (snd (lost_timeout env (fe_world st1) s fe2)) st1"
      "delay' = delay \<or> delay' = int (fv_hz env div 5)"
      using assms unfolding red by (auto simp: Let_def split_beta split: bind_splits if_splits) blast+
    have "st_frame p st2 st1" using st1(1) recover_frame by blast
    also have "st_frame p st1 st'" unfolding st1(3) by (rule put_frame [OF st1(2) lost_timeout_frame])
    finally show ?thesis using 1 st1(4) st_frame_trans unfolding st2_def by blast
  qed
qed

lemma report_status_frame:
  assumes "report_status env p s st = Some st'"
  shows "st_frame p st st'"
proof -
  from assms obtain fe where fe: "frontends st p = Some fe"
    by (auto simp: report_status_def split: bind_splits)
  have "fe_frame fe (fst (dvb_frontend_add_event env s (fe, fe_world st)))"
    using add_event_frame [of "(fe, fe_world st)" env s] by simp
  from put_world_frame [OF fe this] assms fe show ?thesis
    by (auto simp: report_status_def)
qed

lemma thread_status_frame:
  assumes "thread_status env p th st = Some (th', st')" "thread_ok (fv_hz env) th"
  shows "st_frame p st st' \<and> thread_ok (fv_hz env) th'"
proof -
  from assms(1) obtain fe where fe: "frontends st p = Some fe"
    by (auto simp: thread_status_def split: bind_splits)
  obtain err arg h where io: "dvb_frontend_internal_ioctl env (fe_frontend fe) FE_READ_STATUS
      (status_arg (th_s th)) (fe_world st) = (err, arg, h)"
    by (metis prod_cases3)
  define q where "q = update_delay (fv_hz env) (th_quality th) (fa_status arg AND FE_HAS_LOCK \<noteq> 0)"
  define s where "s = fa_status arg AND NOT FE_TIMEDOUT"
  obtain news delay st1 where news:
    "(if s AND FE_HAS_LOCK \<noteq> 0
      then Some (Some s, snd q, put_fe p (fe\<lparr>timeout_count := 0, lost_sync_count := 0\<rparr>) (st\<lparr>fe_world := h\<rparr>))
      else thread_lost env p s (snd q) (st\<lparr>fe_world := h\<rparr>)) = Some (news, delay, st1)"
    "th_quality th' = fst q \<and> th_delay th' = delay"
    "st' = st1 \<or> (\<exists>s. report_status env p s st1 = Some st')"
    using assms(1) fe io
    by (auto simp: thread_status_def Let_def split_beta q_def s_def
        split: bind_splits option.splits if_splits) blast+
  have w: "st_frame p st (st\<lparr>fe_world := h\<rparr>)" "frontends (st\<lparr>fe_world := h\<rparr>) p = Some fe"
    using fe by simp_all
  have "st_frame p (st\<lparr>fe_world := h\<rparr>) st1 \<and> (delay = snd q \<or> delay = int (fv_hz env div 5))"
  proof (cases "s AND FE_HAS_LOCK \<noteq> 0")
    case True
    have "st_frame p (st\<lparr>fe_world := h\<rparr>)
        (put_fe p (fe\<lparr>timeout_count := 0, lost_sync_count := 0\<rparr>) (st\<lparr>fe_world := h\<rparr>))"
      by (rule put_frame [OF w(2)]) (simp add: fe_frame_def)
    with True news(1) show ?thesis by auto
  next
    case False
    with news(1) thread_lost_frame [of env p s "snd q" "st\<lparr>fe_world := h\<rparr>" news delay st1] show ?thesis by simp
  qed
  moreover have "st_frame p st1 st'"
    using news(3) report_status_frame by blast
  moreover have "thread_ok (fv_hz env) th'" if "delay = snd q \<or> delay = int (fv_hz env div 5)"
    using that assms(2) news(2) update_delay_range [of "th_quality th" "fv_hz env" "fa_status arg AND FE_HAS_LOCK \<noteq> 0"]
      div_le_dividend [of "fv_hz env" 20] unfolding thread_ok_def q_def [symmetric] by auto
  ultimately show ?thesis using w(1) st_frame_trans by blast
qed


section \<open>The thread and the system calls\<close>

type_synonym 'h fe_config = "fe_pc \<times> fe_thread \<times> 'h fe_state"

text \<open>
  The second half of a blocking \<open>FE_GET_EVENT\<close>, from the end of the sleep in \<open>dvb_frontend_get_event\<close> to
  the \<open>up\<close> of \<open>dvb_frontend_ioctl\<close>: \<open>woken\<close> says whether an event or a signal ended the sleep. \<open>None\<close> is
  a reader that still waits for the semaphore.
\<close>

definition reader_wakes ::
  "'h fe_env \<Rightarrow> bool \<Rightarrow> fe_arg \<Rightarrow> dvb_frontend_data \<times> 'h \<Rightarrow> (cret \<times> fe_arg \<times> dvb_frontend_data \<times> 'h) option"
where
  "reader_wakes env woken arg feh =
     (let (fe, h) = feh in
      if fv_intr env h then Some (Inl ERESTARTSYS, arg, up_fe fe, h)
      else case down_fe fe of None \<Rightarrow> None
      | Some fe \<Rightarrow>
          if \<not> woken then Some (Inl ERESTARTSYS, arg, up_fe fe, h)
          else (let (err, arg, fe, h) = take_event env arg (fe, h) in Some (err, arg, up_fe fe, h)))"

lemma get_event_is_sleep_and_wake:
  assumes "\<not> overflow (fe_events fe)" "eventw (fe_events fe) = eventr (fe_events fe)"
    and "fe_wait_event ws (up_fe fe, h) = Returns (woken, feh, ws')"
    and "reader_wakes env woken arg feh = Some (r, arg', fe', h')"
  shows "\<exists>fe1. dvb_frontend_get_event env False arg ws (fe, h) = Returns (r, arg', (fe1, h'), ws') \<and> up_fe fe1 = fe'"
  using assms
  by (auto simp: dvb_frontend_get_event_def wait_for_event_def reader_wakes_def Let_def split_beta
      split: if_splits option.splits) (metis prod.collapse)+

text \<open>
  The transitions of the frontend at the address \<open>p\<close>: a move of the thread; a whole ioctl, if it need
  not sleep; the opening and the closing of the device. A reader that finds no event sleeps without
  the semaphore, which leaves the frontend as it was; what it does after it is woken is a transition
  of its own (\<open>Reader\<close>), possible at any time and with any number of readers, also when another reader
  has taken the event in the meantime. Opening the device for writing when the thread is gone starts
  it anew: \<open>kernel_thread\<close> returns its positive process number, and the thread runs up to its loop.
  No transition has the sleep of the thread ended by a signal; that signals do not interrupt the other
  waits is a hypothesis of the invariant.
\<close>

definition frontend_file :: "nat \<Rightarrow> dvb_file \<Rightarrow> 'h fe_state \<Rightarrow> bool" where
  "frontend_file p fd st \<longleftrightarrow> (\<exists>dev. file_device fd st = Some dev \<and> dd_priv dev = p)"

inductive fe_step :: "'h fe_env \<Rightarrow> nat \<Rightarrow> 'h fe_config \<Rightarrow> 'h fe_config \<Rightarrow> bool" for env p where
  Thread: "thread_step env p False cfg = Some cfg' \<Longrightarrow> fe_step env p cfg cfg'"
| Ioctl: "frontend_file p fd st \<Longrightarrow>
    dvb_frontend_ioctl env fd cmd arg [] st = Returns (r, arg', st', ws) \<Longrightarrow>
    fe_step env p (pc, th, st) (pc, th, st')"
| Reader: "frontends st p = Some fe \<Longrightarrow>
    reader_wakes env woken arg (fe, fe_world st) = Some (r, arg', feh) \<Longrightarrow>
    fe_step env p (pc, th, st) (pc, th, put_fe_world p feh st)"
| Open: "frontend_file p fd st \<Longrightarrow>
    dvb_frontend_open env sig alive meanwhile kthread fd st = Returns (r, st') \<Longrightarrow>
    pc \<noteq> T_Done \<or> f_rdonly fd \<or> r \<noteq> Inr 0 \<Longrightarrow>
    fe_step env p (pc, th, st) (pc, th, st')"
| Open_Start: "frontend_file p fd st \<Longrightarrow> \<not> f_rdonly fd \<Longrightarrow> 0 < pid \<Longrightarrow>
    dvb_frontend_open env sig alive meanwhile (Inr pid) fd st = Returns (Inr 0, st1) \<Longrightarrow>
    thread_enter env p s st1 = Some (th', st') \<Longrightarrow>
    fe_step env p (T_Done, th, st) (T_Loop, th', st')"
| Release: "frontend_file p fd st \<Longrightarrow> dvb_frontend_release env fd st = Some (r, st') \<Longrightarrow>
    fe_step env p (pc, th, st) (pc, th, st')"

text \<open>Everything the frontend can be in after its registration.\<close>

inductive fe_reachable :: "'h fe_env \<Rightarrow> nat \<Rightarrow> 'h fe_config \<Rightarrow> bool" for env p where
  Registered: "dvb_register_frontend env (Some p) dev_intr dev_mem ioctl i2c dat info st0 = Some (Inr 0, st) \<Longrightarrow>
    fe_reachable env p (T_Done, th, st)"
| Step: "fe_reachable env p cfg \<Longrightarrow> fe_step env p cfg cfg' \<Longrightarrow> fe_reachable env p cfg'"

definition fe_inv :: "'h fe_env \<Rightarrow> nat \<Rightarrow> 'h fe_config \<Rightarrow> bool" where
  "fe_inv env p cfg \<longleftrightarrow> (case cfg of (pc, th, st) \<Rightarrow>
     (\<exists>fe. frontends st p = Some fe \<and> events_wf (fe_events fe) \<and> -1 \<le> lost_sync_count fe \<and>
        \<not> fe_exit fe \<and> fe_sem fe = (if pc = T_Loop then 0 else 1) \<and> (thread_pid fe = 0 \<longleftrightarrow> pc = T_Done) \<and>
        (pc \<noteq> T_Done \<longrightarrow> thread_ok (fv_hz env) th)))"

lemma fe_inv_frame:
  assumes "fe_inv env p (pc, th, st)" "st_frame p st st'"
  shows "fe_inv env p (pc, th, st')"
  using assms by (auto simp: fe_inv_def st_frame_def fe_frame_def)

lemma fe_invE:
  assumes "fe_inv env p (pc, th, st)"
  obtains fe where "frontends st p = Some fe" "events_wf (fe_events fe)" "-1 \<le> lost_sync_count fe"
    "\<not> fe_exit fe" "fe_sem fe = (if pc = T_Loop then 0 else 1)" "thread_pid fe = 0 \<longleftrightarrow> pc = T_Done"
    "pc \<noteq> T_Done \<Longrightarrow> thread_ok (fv_hz env) th"
  using assms by (auto simp: fe_inv_def)

lemma leave_inv:
  assumes "fe_inv env p (pc, th, st)" "pc = T_Loop" "thread_leave env p st = Some st'"
  shows "fe_inv env p (T_Done, th, st')"
  using assms by (auto simp: fe_inv_def thread_leave_def up_fe_def Let_def)

lemma thread_step_inv:
  assumes "fe_inv env p (pc, th, st)" "\<And>h. \<not> fv_intr env h"
    and "thread_step env p False (pc, th, st) = Some (pc', th', st')"
  shows "fe_inv env p (pc', th', st')"
proof (cases pc)
  case T_Done
  then show ?thesis using assms(3) by (simp add: thread_step_def)
next
  case T_Loop
  then obtain fe where fe: "frontends st p = Some fe"
      "th' = th \<and> (pc' = T_Done \<and> thread_leave env p st = Some st' \<or> pc' = T_Sleep \<and> st' = put_fe p (up_fe fe) st)"
    using assms(3) by (auto simp: thread_step_def split: bind_splits if_splits)
  moreover have "fe_inv env p (T_Sleep, th, put_fe p (up_fe fe) st)"
    using assms(1) T_Loop fe(1) by (auto simp: fe_inv_def up_fe_def)
  ultimately show ?thesis using leave_inv [OF assms(1) T_Loop] by auto
next
  case T_Sleep
  from assms(1) obtain fe where fe: "frontends st p = Some fe" "fe_sem fe = 1"
    using T_Sleep by (auto elim: fe_invE)
  define st1 where "st1 = put_fe p (fe\<lparr>fe_sem := 0\<rparr>) st"
  have inv1: "fe_inv env p (T_Loop, th, st1)"
    using assms(1) T_Sleep fe by (auto simp: fe_inv_def st1_def)
  have "(pc' = T_Loop \<and> th' = th \<and> st' = st1) \<or> (pc' = T_Done \<and> th' = th \<and> thread_leave env p st1 = Some st') \<or>
      (pc' = T_Loop \<and> thread_status env p th st1 = Some (th', st'))"
    using assms(2,3) T_Sleep fe
    by (auto simp: thread_step_def down_fe_def Let_def st1_def split: bind_splits if_splits)
  then show ?thesis
  proof (elim disjE conjE)
    assume "pc' = T_Loop" "thread_status env p th st1 = Some (th', st')"
    moreover have "thread_ok (fv_hz env) th" using inv1 by (auto elim: fe_invE)
    ultimately have "st_frame p st1 st'" "thread_ok (fv_hz env) th'" "pc' = T_Loop"
      using thread_status_frame [of env p th st1 th' st'] by auto
    with fe_inv_frame [OF inv1] show ?thesis by (auto simp: fe_inv_def)
  qed (use inv1 leave_inv [OF inv1 refl] in auto)
qed


text \<open>An ioctl that runs to its end keeps the semaphore as it was.\<close>

lemma get_event_frame:
  assumes "dvb_frontend_get_event env nb arg [] feh = Returns (r, arg', feh', ws)"
    "events_wf (fe_events (fst feh))"
  shows "fe_frame (fst feh) (fst feh')"
  using assms
  by (auto simp: dvb_frontend_get_event_def take_event_def wait_for_event_def fe_wait_event.simps up_fe_def
      Let_def split_beta fe_frame_def events_wf_def split: if_splits)

lemma command_frame:
  assumes "frontend_command env nb cmd arg [] p fe st = Returns (r, arg', st', ws)" "events_wf (fe_events fe)"
  shows "\<exists>fe'. frontends st' p = Some fe' \<and> fe_frame fe fe'"
proof -
  consider (tone) "cmd \<in> {FE_DISEQC_SEND_MASTER_CMD, FE_DISEQC_SEND_BURST, FE_SET_TONE}" | (tune) "cmd = FE_SET_FRONTEND"
    | (event) "cmd = FE_GET_EVENT"
    | (other) "cmd \<notin> {FE_DISEQC_SEND_MASTER_CMD, FE_DISEQC_SEND_BURST, FE_SET_TONE, FE_SET_FRONTEND, FE_GET_EVENT}"
    by blast
  then show ?thesis
  proof cases
    case tone
    then show ?thesis
      using assms notifiers_frame [of "(fe, fe_world st)" env 0]
      by (auto simp: frontend_command_def Let_def split_beta split: if_splits)
  next
    case tune
    then show ?thesis
      using assms set_parameters_frame [of env p "fa_parameters arg" True "put_fe p fe st"]
      by (auto simp: frontend_command_def st_frame_def split: option.splits)
  next
    case event
    then show ?thesis
      using assms get_event_frame [of env nb arg "(fe, fe_world st)"]
      by (auto simp: frontend_command_def split: outcome.splits)
  next
    case other
    then show ?thesis
      using assms by (auto simp: frontend_command_def Let_def split_beta split: if_splits)
  qed
qed

lemma ioctl_inv:
  assumes "fe_inv env p (pc, th, st)" "frontend_file p fd st"
    and "dvb_frontend_ioctl env fd cmd arg [] st = Returns (r, arg', st', ws)"
  shows "fe_inv env p (pc, th, st')"
proof -
  from assms(1) obtain fe where fe: "frontends st p = Some fe" "events_wf (fe_events fe)" by (rule fe_invE)
  from assms(2) obtain dev where dev: "file_device fd st = Some dev" "dd_priv dev = p"
    by (auto simp: frontend_file_def)
  show ?thesis
  proof (cases "st' = st")
    case True
    then show ?thesis using assms(1) by simp
  next
    case False
    let ?fe = "fe\<lparr>fe_sem := fe_sem fe - 1\<rparr>"
    from assms(3) False dev fe obtain err arg1 st1 fe1 ws1 where
      cmd: "frontend_command env (f_nonblock fd) cmd arg [] p ?fe st = Returns (err, arg1, st1, ws1)"
        "frontends st1 p = Some fe1" "st' = put_fe p (up_fe fe1) st1"
      by (auto simp: dvb_frontend_ioctl_def down_fe_def split: if_splits outcome.splits option.splits)
    have "fe_frame ?fe fe1" using command_frame [OF cmd(1)] fe(2) cmd(2) by auto
    then have "st_frame p st st'"
      using fe(1) cmd(3) by (simp add: st_frame_def fe_frame_def up_fe_def)
    with assms(1) show ?thesis by (rule fe_inv_frame)
  qed
qed

lemma reader_inv:
  assumes "fe_inv env p (pc, th, st)" "\<And>h. \<not> fv_intr env h" "frontends st p = Some fe"
    and "reader_wakes env woken arg (fe, fe_world st) = Some (r, arg', feh)"
  shows "fe_inv env p (pc, th, put_fe_world p feh st)"
proof (rule fe_inv_frame [OF assms(1) put_world_frame [OF assms(3)]])
  show "fe_frame fe (fst feh)"
    using assms(2,4)
    by (auto simp: reader_wakes_def down_fe_def up_fe_def take_event_def Let_def fe_frame_def events_wf_def
        split: if_splits)
qed

lemma registry_frame [simp]:
  "st_frame p (st\<lparr>fe_registry := reg\<rparr>) st' \<longleftrightarrow> st_frame p st st'"
  "st_frame p st (st'\<lparr>fe_registry := reg\<rparr>) \<longleftrightarrow> st_frame p st st'"
  by (simp_all add: st_frame_def)

lemma clear_frame: "clear_events p st = Some st' \<Longrightarrow> st_frame p st st'"
  by (auto simp: clear_events_def st_frame_def fe_frame_def events_wf_def split: bind_splits)

lemma start_running:
  assumes "fe_inv env p (pc, th, st)" "pc \<noteq> T_Done"
  shows "dvb_frontend_start env sig alive meanwhile kthread p st = Returns (Inr 0, st)"
  using assms by (auto elim!: fe_invE simp: dvb_frontend_start_def)

lemma start_stopped:
  assumes "fe_inv env p (T_Done, th, st)"
    "dvb_frontend_start env sig alive meanwhile kthread p st = Returns (r, st')"
  shows "(r \<noteq> Inr 0 \<and> st_frame p st st') \<or>
    (\<exists>fe pid. frontends st p = Some fe \<and> kthread = Inr pid \<and> r = Inr 0 \<and>
       st' = put_fe p (fe\<lparr>fe_sem := 0, fe_exit := False, thread_pid := pid\<rparr>) st)"
  using assms
  by (auto elim!: fe_invE simp: dvb_frontend_start_def down_fe_def up_fe_def st_frame_def fe_frame_def Let_def
      split: if_splits sum.splits)

lemma fe_inv_registry [simp]: "fe_inv env p (pc, th, st\<lparr>fe_registry := reg\<rparr>) \<longleftrightarrow> fe_inv env p (pc, th, st)"
  by (simp add: fe_inv_def)

lemma open_effect:
  assumes "frontend_file p fd st"
    and "dvb_frontend_open env sig alive meanwhile kthread fd st = Returns (r, st')"
  shows "(\<exists>reg. st' = st\<lparr>fe_registry := reg\<rparr> \<and> (f_rdonly fd \<or> r \<noteq> Inr 0)) \<or>
    (\<exists>reg st1. \<not> f_rdonly fd \<and> st_frame p st1 st' \<and>
       dvb_frontend_start env sig alive meanwhile kthread p (st\<lparr>fe_registry := reg\<rparr>) = Returns (r, st1))"
proof -
  obtain dev where dev: "file_device fd st = Some dev" "dd_priv dev = p"
    using assms(1) by (auto simp: frontend_file_def)
  obtain res reg where gen: "dvb_generic_open fd (fe_registry st) = Some (res, reg)"
    using assms(2) dev by (auto simp: dvb_frontend_open_def split: option.splits)
  show ?thesis
  proof (cases "f_rdonly fd \<or> (\<exists>e. res = Inl e)")
    case True
    then have "st' = st\<lparr>fe_registry := reg\<rparr> \<and> (f_rdonly fd \<or> r \<noteq> Inr 0)"
      using assms(2) dev gen by (auto simp: dvb_frontend_open_def Let_def split: sum.splits)
    then show ?thesis by blast
  next
    case False
    then obtain st1 where
      "dvb_frontend_start env sig alive meanwhile kthread p (st\<lparr>fe_registry := reg\<rparr>) = Returns (r, st1)"
      "st_frame p st1 st'"
      using assms(2) dev gen
      by (cases "dvb_frontend_start env sig alive meanwhile kthread p (st\<lparr>fe_registry := reg\<rparr>)")
        (auto simp: dvb_frontend_open_def Let_def split: sum.splits option.splits if_splits dest!: clear_frame)
    with False show ?thesis by blast
  qed
qed

lemma open_inv:
  assumes "fe_inv env p (pc, th, st)" "frontend_file p fd st"
    and "dvb_frontend_open env sig alive meanwhile kthread fd st = Returns (r, st')"
    and "pc \<noteq> T_Done \<or> f_rdonly fd \<or> r \<noteq> Inr 0"
  shows "fe_inv env p (pc, th, st')"
  using open_effect [OF assms(2,3)]
proof (elim disjE exE conjE)
  fix reg
  assume "st' = st\<lparr>fe_registry := reg\<rparr>"
  then show "fe_inv env p (pc, th, st')" "fe_inv env p (pc, th, st')" using assms(1) by simp_all
next
  fix reg st1
  assume start: "dvb_frontend_start env sig alive meanwhile kthread p (st\<lparr>fe_registry := reg\<rparr>) = Returns (r, st1)"
    and clear: "st_frame p st1 st'" and "\<not> f_rdonly fd"
  have "st_frame p st st1"
  proof (cases "pc = T_Done")
    case True
    then show ?thesis
      using start_stopped [OF _ start, of th] assms(1,4) \<open>\<not> f_rdonly fd\<close> by auto
  next
    case False
    then show ?thesis
      using start_running [of env p pc th "st\<lparr>fe_registry := reg\<rparr>"] start assms(1) by auto
  qed
  also note clear
  finally show ?thesis by (rule fe_inv_frame [OF assms(1)])
qed

lemma enter_frame:
  assumes "thread_enter env p s st = Some (th, st')"
  shows "st_frame p st st' \<and> thread_ok (fv_hz env) th"
proof -
  from assms obtain fe where fe: "frontends st p = Some fe"
    by (auto simp: thread_enter_def split: bind_splits)
  let ?feh = "dvb_call_frontend_notifiers env 0 (fe\<lparr>lost_sync_count := -1\<rparr>, fe_world st)"
  have "fe_frame fe (fe\<lparr>lost_sync_count := -1\<rparr>)" by (simp add: fe_frame_def)
  also have "fe_frame (fe\<lparr>lost_sync_count := -1\<rparr>) (fst ?feh)"
    using notifiers_frame [of "(fe\<lparr>lost_sync_count := -1\<rparr>, fe_world st)" env 0] by simp
  also have "fst ?feh = fst (dvb_frontend_init env ?feh)"
    by (simp add: dvb_frontend_init_def split_beta)
  finally have "st_frame p st (put_fe_world p (dvb_frontend_init env ?feh) st)" by (rule put_world_frame [OF fe])
  then show ?thesis using assms fe by (auto simp: thread_enter_def Let_def thread_ok_def)
qed

lemma open_start_inv:
  assumes "fe_inv env p (T_Done, th, st)" "frontend_file p fd st" "\<not> f_rdonly fd" "0 < pid"
    and "dvb_frontend_open env sig alive meanwhile (Inr pid) fd st = Returns (Inr 0, st1)"
    and "thread_enter env p s st1 = Some (th', st')"
  shows "fe_inv env p (T_Loop, th', st')"
proof -
  obtain reg st2 where
    start: "dvb_frontend_start env sig alive meanwhile (Inr pid) p (st\<lparr>fe_registry := reg\<rparr>) = Returns (Inr 0, st2)"
    and clear: "st_frame p st2 st1"
    using open_effect [OF assms(2,5)] assms(3) by auto
  obtain fe where fe: "frontends st p = Some fe"
      "st2 = put_fe p (fe\<lparr>fe_sem := 0, fe_exit := False, thread_pid := pid\<rparr>) (st\<lparr>fe_registry := reg\<rparr>)"
    using start_stopped [OF _ start, of th] assms(1) by auto
  note th' = enter_frame [OF assms(6)]
  have "fe_inv env p (T_Loop, th', st2)"
    using assms(1,4) fe th' by (auto simp: fe_inv_def)
  then show ?thesis using th' clear fe_inv_frame by blast
qed

lemma release_inv:
  assumes "fe_inv env p (pc, th, st)" "frontend_file p fd st" "dvb_frontend_release env fd st = Some (r, st')"
  shows "fe_inv env p (pc, th, st')"
proof (rule fe_inv_frame [OF assms(1)])
  show "st_frame p st st'"
    using assms(2,3)
    by (auto simp: frontend_file_def dvb_frontend_release_def st_frame_def fe_frame_def Let_def
        split: bind_splits if_splits)
qed

lemma registered_inv:
  assumes "dvb_register_frontend env (Some p) dev_intr dev_mem ioctl i2c dat info st0 = Some (Inr 0, st)"
  shows "fe_inv env p (T_Done, th, st)"
proof -
  define fe where "fe = adopt_hooks st0 (new_frontend_data ioctl i2c dat info)"
  have "fe_frame (new_frontend_data ioctl i2c dat info) fe"
    by (simp add: fe_def fe_frame_def adopt_hooks_def attach_ioctls_def attach_notifier_def Let_def
        split: option.split)
  then have "events_wf (fe_events fe) \<and> -1 \<le> lost_sync_count fe \<and> \<not> fe_exit fe \<and> fe_sem fe = 1 \<and> thread_pid fe = 0"
    by (simp add: fe_frame_def new_frontend_data_def events_wf_def)
  with assms show ?thesis
    by (auto simp: dvb_register_frontend_def fe_def [symmetric] fe_inv_def Let_def split: bind_splits if_splits)
qed

lemma fe_step_inv:
  assumes "fe_step env p cfg cfg'" "fe_inv env p cfg" "\<And>h. \<not> fv_intr env h"
  shows "fe_inv env p cfg'"
  using assms(1)
proof cases
  case Thread
  then show ?thesis
    using thread_step_inv [OF _ assms(3)] assms(2) by (cases cfg; cases cfg') auto
next
  case (Ioctl fd st cmd arg r arg' st' ws pc th)
  then show ?thesis using ioctl_inv assms(2) by blast
next
  case (Reader st fe woken arg r arg' feh pc th)
  then show ?thesis using reader_inv assms(2,3) by blast
next
  case (Open fd st sig alive meanwhile kthread r st' pc th)
  then show ?thesis using open_inv assms(2) by blast
next
  case (Open_Start fd st pid sig alive meanwhile st1 s th' st' th)
  then show ?thesis using open_start_inv assms(2) by blast
next
  case (Release fd st r st' pc th)
  then show ?thesis using release_inv assms(2) by blast
qed

lemma fe_reachable_inv:
  assumes "fe_reachable env p cfg" "\<And>h. \<not> fv_intr env h"
  shows "fe_inv env p cfg"
  using assms by induction (auto intro: registered_inv fe_step_inv)


text \<open>
  C21: the thread of a frontend and the system calls on it, sleeping readers included, never run at
  the same time, and the thread is paced. In every state the frontend can be in after its registration,
  as long as no wait is interrupted by a signal (the two lemmas below show what an interrupted one
  does): the semaphore is taken exactly while the thread is in its loop, free while it sleeps or is gone; the
  process number is known exactly while the thread lives; the positions of the event queue stay inside
  its array; and the pause between two readings of the status is between a twentieth of a second and
  three seconds.
\<close>

theorem frontend_thread_invariant:
  assumes "fe_reachable env p (pc, th, st)" "\<And>h. \<not> fv_intr env h"
  shows "\<exists>fe. frontends st p = Some fe \<and>
    fe_sem fe = (if pc = T_Loop then 0 else 1) \<and>
    (thread_pid fe = 0 \<longleftrightarrow> pc = T_Done) \<and>
    length (events (fe_events fe)) = MAX_EVENT \<and> eventw (fe_events fe) < MAX_EVENT \<and> eventr (fe_events fe) < MAX_EVENT \<and>
    (pc \<noteq> T_Done \<longrightarrow> int (fv_hz env div 20) \<le> th_delay th \<and> th_delay th \<le> int (3 * fv_hz env))"
  using fe_reachable_inv [OF assms] by (auto simp: fe_inv_def events_wf_def thread_ok_def)

text \<open>
  Two waits that a signal interrupts release a semaphore they do not hold, so that afterwards two
  processes can be in the critical section: the sleep of the thread, and that of a reader.
\<close>

lemma interrupted_thread_raises_semaphore:
  assumes "frontends st p = Some fe" "fe_sem fe = 1"
  shows "\<exists>st' fe'. thread_step env p True (T_Sleep, th, st) = Some (T_Done, th, st') \<and>
    frontends st' p = Some fe' \<and> fe_sem fe' = 2"
  using assms by (simp add: thread_step_def thread_leave_def up_fe_def Let_def)

lemma interrupted_reader_raises_semaphore:
  assumes "frontend_file p fd st" "p \<noteq> 0" "frontends st p = Some fe" "fe_sem fe = 1" "\<not> fe_exit fe"
    and "fr_ioctl (fe_frontend fe) \<noteq> 0" "\<not> f_nonblock fd"
    and "\<not> overflow (fe_events fe)" "eventw (fe_events fe) = eventr (fe_events fe)"
    and "\<not> fv_intr env (fe_world st)" "fv_intr env h"
  shows "\<exists>st' fe'. dvb_frontend_ioctl env fd FE_GET_EVENT arg [Fe_Changed (\<lambda>(fe, _). (fe, h)), Fe_Signalled] st
      = Returns (Inl ERESTARTSYS, arg, st', []) \<and> frontends st' p = Some fe' \<and> fe_sem fe' = 2"
  using assms
  by (auto simp: frontend_file_def dvb_frontend_ioctl_def frontend_command_def dvb_frontend_get_event_def
      wait_for_event_def fe_wait_event.simps down_fe_def up_fe_def Let_def)

text \<open>
  A reader does not look again whether there is an event once it has the semaphore. If another reader
  has taken the one event that woke both, it returns an old event and moves the read position past the
  write position, so that the empty queue seems to hold seven more.
\<close>

lemma second_reader_reads_stale_event:
  assumes "events_wf (fe_events fe)" "eventw (fe_events fe) = eventr (fe_events fe)" "0 < fe_sem fe"
    and "\<not> fv_intr env h"
  shows "\<exists>arg' fe'. reader_wakes env True arg (fe, h) = Some (Inr 0, arg', fe', h) \<and>
    fa_event arg' = events (fe_events fe) ! eventr (fe_events fe) \<and>
    event_queue (fe_events fe) = [] \<and> length (event_queue (fe_events fe')) = MAX_EVENT - 1"
proof -
  let ?r = "eventr (fe_events fe)"
  define ev where "ev = (fe_events fe)\<lparr>eventr := (?r + 1) mod MAX_EVENT\<rparr>"
  have "events_wf ev" using assms(1) by (simp add: ev_def events_wf_def)
  moreover have "?r < MAX_EVENT" using assms(1) by (simp add: events_wf_def)
  then have "ring_dist MAX_EVENT (eventr ev) (eventw ev) = MAX_EVENT - 1"
    using assms(2) by (cases "?r + 1 = MAX_EVENT") (auto simp: ev_def ring_dist_def)
  ultimately have "length (event_queue ev) = MAX_EVENT - 1" by (simp add: length_event_queue)
  moreover have "event_queue (fe_events fe) = []"
    using assms(2) by (simp add: event_queue_def)
  ultimately show ?thesis
    using assms(3,4)
    by (simp add: reader_wakes_def down_fe_def up_fe_def take_event_def Let_def ev_def)
qed

text \<open>The driver's error codes do not reach the application, except those of tuning.\<close>

lemma ioctl_drops_errors:
  assumes "dvb_frontend_ioctl env fd cmd arg ws st = Returns (r, arg', st', ws')"
    and "cmd \<noteq> FE_SET_FRONTEND" "cmd \<noteq> FE_GET_EVENT"
  shows "r \<in> {Inr 0, Inl ENODEV, Inl ERESTARTSYS}"
  using assms
  by (auto simp: dvb_frontend_ioctl_def frontend_command_def Let_def split_beta
      split: option.splits if_splits outcome.splits)

text \<open>Opening the device empties the queue but leaves the overflow flag of the last user.\<close>

lemma clear_keeps_overflow:
  assumes "clear_events p st = Some st'" "frontends st p = Some fe" "events_wf (fe_events fe)"
  shows "\<exists>fe'. frontends st' p = Some fe' \<and> event_queue (fe_events fe') = [] \<and>
    overflow (fe_events fe') = overflow (fe_events fe)"
  using assms by (auto simp: clear_events_def event_queue_def)


section \<open>A concrete run\<close>

text \<open>A frontend is registered, opened for writing, and its thread goes to sleep.\<close>

definition ex_fd :: dvb_file where
  "ex_fd = \<lparr>f_private_data = Some 200, f_op = None, f_rdonly = False, f_nonblock = False\<rparr>"

definition ex_empty_state :: "nat fe_state" where
  "ex_empty_state = ex_fe_state\<lparr>frontend_list := [], frontends := Map.empty\<rparr>"

definition ex_registered :: "nat fe_state" where
  "ex_registered = snd (the (dvb_register_frontend ex_fe_env (Some 1) False (Some 200) 7 (ex_bus 50) 0 ex_fe_info
     ex_empty_state))"

definition ex_opened :: "nat fe_state" where
  "ex_opened = (case dvb_frontend_open ex_fe_env False True id (Inr 42) ex_fd ex_registered of
     Returns (r, st) \<Rightarrow> st | _ \<Rightarrow> ex_registered)"

lemmas ex_run_defs = ex_fd_def ex_empty_state_def ex_registered_def ex_opened_def
  dvb_register_frontend_def dvb_register_device_def register_device_number_def register_device_publish_def
  dvbdev_get_free_id_def free_id_from.simps DVB_MAX_IDS_def dnames_def adopt_hooks_def frontend_template_def
  frontend_file_def file_device_def dvb_frontend_open_def dvb_generic_open_def dvb_frontend_start_def down_fe_def
  clear_events_def Let_def

lemma ex_registered_run:
  "dvb_register_frontend ex_fe_env (Some 1) False (Some 200) 7 (ex_bus 50) 0 ex_fe_info ex_empty_state
     = Some (Inr 0, ex_registered)"
  by (simp add: ex_run_defs ex_fe_defs)

lemma ex_opened_run:
  "frontend_file 1 ex_fd ex_registered"
  "dvb_frontend_open ex_fe_env False True id (Inr 42) ex_fd ex_registered = Returns (Inr 0, ex_opened)"
  by (simp_all add: ex_run_defs ex_fe_defs)

theorem frontend_thread_invariant_witness:
  "\<exists>th st fe. fe_reachable ex_fe_env 1 (T_Loop, th, st) \<and> frontends st 1 = Some fe \<and>
     fe_sem fe = 0 \<and> thread_pid fe \<noteq> 0 \<and> 5 \<le> th_delay th \<and> th_delay th \<le> 300"
proof -
  have "frontends ex_opened 1 \<noteq> None" by (simp add: ex_run_defs ex_fe_defs)
  then obtain th st where enter: "thread_enter ex_fe_env 1 0 ex_opened = Some (th, st)"
    by (auto simp: thread_enter_def Let_def)
  have "fe_reachable ex_fe_env 1 (T_Loop, th, st)"
    using fe_reachable.Registered [OF ex_registered_run]
      fe_step.Open_Start [OF ex_opened_run(1) _ _ ex_opened_run(2) enter]
    by (auto simp: ex_fd_def intro: fe_reachable.Step)
  moreover have "\<not> fv_intr ex_fe_env h" "fv_hz ex_fe_env = 100" for h by (simp_all add: ex_fe_env_def)
  ultimately show ?thesis
    using frontend_thread_invariant [of ex_fe_env 1 T_Loop th st] by fastforce
qed

end
