(* ===== verification/Avia_Gt_Ucode.thy ===== *)
theory Avia_Gt_Ucode
  imports Dvb_Prelude
begin

text \<open>
  The feed table of the transport demultiplexer chip, \<open>avia_gt_ucode.c\<close>: the 32 feeds the driver
  hands to the microcode, the two tables of the microcode's memory that select and route a
  PID (\<open>PID_Search_Table\<close>, \<open>PID_Parsing_Control_Table\<close>) and the map of the section filters.

  Of a filter definition only the flag \<open>and_or_flag\<close> ever changes; the driver keeps the table
  \<open>filter_definition_table\<close> besides the one of the microcode.

  The tables are lists of their entries; the bit fields of an entry are its fields, cut to their
  widths. \<open>avia_gt_dmx_risc_write\<close> clears an entry before it stores it, with interrupts off, so a
  store is one step here. \<open>irqs_off\<close> says whether the code has left interrupts disabled: it is
  state, because \<open>prop_ucode_alloc_generic_feed\<close> has exits that do not restore it. The memory image
  that \<open>avia_gt_dmx_load_ucode\<close> copies from a file or from the firmware is an argument of
  \<open>avia_gt_dmx_risc_init\<close>.
\<close>

section \<open>Data\<close>

definition TS :: nat where "TS = 0"
definition PES :: nat where "PES = 1"
definition SECTION :: nat where "SECTION = 2"

definition AVIA_GT_UCODE_MAXIMUM_FEED_NUMBER :: nat where "AVIA_GT_UCODE_MAXIMUM_FEED_NUMBER = 32"
definition AVIA_GT_UCODE_TAP_PID :: u16 where "AVIA_GT_UCODE_TAP_PID = 0x2000"
definition AVIA_GT_DMX_QUEUE_COUNT :: nat where "AVIA_GT_DMX_QUEUE_COUNT = 32"
definition AVIA_GT_DMX_QUEUE_USER_START :: nat where "AVIA_GT_DMX_QUEUE_USER_START = 3"

datatype ucode_cap = CAP_ECD | CAP_PES | CAP_SEC | CAP_TS | CAP_MSGQ | CAP_C_INTERFACE

text \<open>\<open>dest_queue\<close> is signed, with -1 for a free entry; \<open>section_idx\<close> is 255 without a filter.\<close>

record avia_gt_feed =
  dest_queue :: int
  gtf_type :: nat
  section_idx :: nat
  filtercount :: u8
  gtf_pid :: u16

record avia_gt_section =
  sec_idx :: nat
  sec_filtercount :: u8

text \<open>In the search table a set \<open>VALID\<close> bit means that the entry is not used.\<close>

record pid_entry =
  wait_pusi :: bool
  pe_INVALID :: bool
  pe_PID :: u16

record ppc_entry =
  ppc_type :: nat
  ppc_QID :: nat
  ppc_fork :: bool
  ppc_CW_offset :: nat
  ppc_CC :: nat
  ppc_PSH :: bool
  ppc_start_up :: bool
  ppc_PEC :: bool
  ppc_filt_tab_idx :: nat
  ppc_State :: nat
  ppc_no_of_filter :: nat

text \<open>
  The three parts of a filter of the microcode (\<open>sFilter_Parameter_Entry1\<close> to \<open>3\<close>) are one entry; the
  bytes 0 and 3 to 9 of a section are compared.
\<close>

record filter_param =
  fp_mask :: "u8 list"
  fp_param :: "u8 list"
  not_flag :: bool
  not_flag_ver_id_byte :: bool

record ucode_state =
  caps :: "ucode_cap list"
  can_waitpusi :: bool
  qid_offset :: nat
  queue_mode :: "nat list"
  prop_interface :: bool
  ucode_feed :: "avia_gt_feed list"
  section_map :: "int list"
  pid_search_table :: "pid_entry list"
  pid_parsing_control_table :: "ppc_entry list"
  filter_definition_table :: "bool list"
  risc_filter_definition :: "bool list"
  risc_filter_param :: "filter_param list"
  irqs_off :: bool


section \<open>Tables\<close>

definition pid2feedidx :: "u16 \<Rightarrow> ucode_state \<Rightarrow> nat option" where
  "pid2feedidx pid u = first_index (\<lambda>f. dest_queue f \<noteq> -1 \<and> gtf_pid f = pid) (ucode_feed u)"

definition prop_ucode_set_pid_table ::
  "nat \<Rightarrow> bool \<Rightarrow> bool \<Rightarrow> u16 \<Rightarrow> ucode_state \<Rightarrow> cret \<times> ucode_state" where
  "prop_ucode_set_pid_table entry pusi inval pid u =
     (if entry > 31 then (Inl EINVAL, u)
      else (Inr 0, u\<lparr>pid_search_table := (pid_search_table u)
                       [entry := \<lparr>wait_pusi = pusi, pe_INVALID = inval, pe_PID = pid AND 0x1fff\<rparr>]\<rparr>))"

definition prop_ucode_set_pid_control_table ::
  "nat \<Rightarrow> nat \<Rightarrow> nat \<Rightarrow> bool \<Rightarrow> nat \<Rightarrow> nat \<Rightarrow> bool \<Rightarrow> bool \<Rightarrow> nat \<Rightarrow> bool \<Rightarrow> u8 \<Rightarrow> ucode_state
     \<Rightarrow> cret \<times> ucode_state" where
  "prop_ucode_set_pid_control_table idx queue_nr type fork cw_offset cc start_up pec filt_tab_idx psh
     no_of_filter u =
     (if queue_nr > AVIA_GT_DMX_QUEUE_COUNT then (Inl EINVAL, u)
      else
       (let target = (if queue_nr = 1 \<and> type = TS then 0 else queue_nr) + qid_offset u;
            ppc = \<lparr>ppc_type = type mod 8, ppc_QID = target mod 32, ppc_fork = fork,
                   ppc_CW_offset = cw_offset mod 8, ppc_CC = cc mod 16, ppc_PSH = psh,
                   ppc_start_up = start_up, ppc_PEC = pec, ppc_filt_tab_idx = filt_tab_idx mod 32,
                   ppc_State = 7, ppc_no_of_filter = unat no_of_filter mod 16\<rparr>
        in (Inr 0, u\<lparr>pid_parsing_control_table := (pid_parsing_control_table u)[idx := ppc]\<rparr>)))"

text \<open>The run of map entries that belong to a filter set, marked as unused.\<close>

fun clear_run :: "int \<Rightarrow> int list \<Rightarrow> int list" where
  "clear_run v [] = []"
| "clear_run v (x # xs) = (if x = v then -1 # clear_run v xs else x # xs)"

definition prop_ucode_free_section_filter :: "nat \<Rightarrow> ucode_state \<Rightarrow> ucode_state" where
  "prop_ucode_free_section_filter nr u =
     (if nr > 31 \<or> section_map u ! nr \<noteq> int nr then u
      else if \<exists>f \<in> set (ucode_feed u). section_idx f = nr then u
      else u\<lparr>section_map := take nr (section_map u) @ clear_run (int nr) (drop nr (section_map u))\<rparr>)"


section \<open>Feeds\<close>

text \<open>
  \<open>None\<close> is the result 0xff. Both failing exits leave interrupts disabled. The PID is compared
  with the other feeds after the new entry already carries the tap mark.
\<close>

definition prop_ucode_alloc_generic_feed ::
  "nat \<Rightarrow> nat \<Rightarrow> avia_gt_section option \<Rightarrow> u16 \<Rightarrow> ucode_state \<Rightarrow> nat option \<times> ucode_state" where
  "prop_ucode_alloc_generic_feed queue_nr type sec pid u =
     (case first_index (\<lambda>f. dest_queue f = -1) (ucode_feed u) of
        None \<Rightarrow> (None, u\<lparr>irqs_off := True\<rparr>)
      | Some i \<Rightarrow>
         if (case sec of Some s \<Rightarrow> section_map u ! sec_idx s = -1 | None \<Rightarrow> False)
         then (None, u\<lparr>irqs_off := True\<rparr>)
         else
          (let f = (ucode_feed u ! i)\<lparr>dest_queue := int queue_nr, gtf_type := type,
                     section_idx := (case sec of Some s \<Rightarrow> sec_idx s | None \<Rightarrow> 255),
                     filtercount := (case sec of Some s \<Rightarrow> sec_filtercount s - 1 | None \<Rightarrow> 0),
                     gtf_pid := AVIA_GT_UCODE_TAP_PID\<rparr>;
               u1 = u\<lparr>ucode_feed := (ucode_feed u)[i := f]\<rparr>;
               own = (pid2feedidx pid u1 = None \<or> queue_nr < AVIA_GT_DMX_QUEUE_USER_START);
               f1 = (if own then f\<lparr>gtf_pid := gtf_pid f AND NOT AVIA_GT_UCODE_TAP_PID\<rparr> else f);
               u2 = (if own then snd (prop_ucode_set_pid_table i (can_waitpusi u1) True pid u1) else u1)
           in (Some i, u2\<lparr>ucode_feed := (ucode_feed u2)[i := f1\<lparr>gtf_pid := gtf_pid f1 OR pid\<rparr>]\<rparr>)))"

definition prop_ucode_alloc_section_feed ::
  "nat \<Rightarrow> avia_gt_section option \<Rightarrow> u16 \<Rightarrow> ucode_state \<Rightarrow> nat option \<times> ucode_state" where
  "prop_ucode_alloc_section_feed queue_nr sec pid u =
     (case sec of None \<Rightarrow> (None, u)
      | Some s \<Rightarrow> prop_ucode_alloc_generic_feed queue_nr SECTION sec pid u)"

definition prop_ucode_alloc_feed :: "nat \<Rightarrow> nat \<Rightarrow> u16 \<Rightarrow> ucode_state \<Rightarrow> nat option \<times> ucode_state" where
  "prop_ucode_alloc_feed queue_nr type pid u = prop_ucode_alloc_generic_feed queue_nr type None pid u"

definition prop_ucode_start_feed :: "nat \<Rightarrow> bool \<Rightarrow> ucode_state \<Rightarrow> ucode_state" where
  "prop_ucode_start_feed i tap_feed u =
     (let f = ucode_feed u ! i in
      if dest_queue f = -1 then u
      else
       (let u1 = snd (prop_ucode_set_pid_control_table i (nat (dest_queue f)) (queue_mode u ! gtf_type f)
                   False 0 0 False True (section_idx f) (gtf_type f = SECTION) (filtercount f) u)
        in if tap_feed \<or> gtf_pid f AND AVIA_GT_UCODE_TAP_PID = 0
           then snd (prop_ucode_set_pid_table i (can_waitpusi u1) False
                       (gtf_pid f AND NOT AVIA_GT_UCODE_TAP_PID) u1)
           else u1))"

definition prop_ucode_start_queue_feeds :: "nat \<Rightarrow> ucode_state \<Rightarrow> ucode_state" where
  "prop_ucode_start_queue_feeds queue_nr u =
     fold (\<lambda>i u. if dest_queue (ucode_feed u ! i) = int queue_nr then prop_ucode_start_feed i False u else u)
       [0 ..< AVIA_GT_UCODE_MAXIMUM_FEED_NUMBER] u"

text \<open>The last feed of a section filter takes the filter with it.\<close>

definition prop_ucode_stop_feed :: "nat \<Rightarrow> bool \<Rightarrow> ucode_state \<Rightarrow> ucode_state" where
  "prop_ucode_stop_feed i remove u =
     (let f = ucode_feed u ! i in
      if dest_queue f = -1 then u
      else
       (let u1 =
          (if remove then
            (let idx = section_idx f;
                 u0 = u\<lparr>ucode_feed := (ucode_feed u)[i := f\<lparr>dest_queue := -1, gtf_pid := 0, section_idx := 255\<rparr>]\<rparr>
             in if idx \<noteq> 255 \<and> \<not> (\<exists>g \<in> set (ucode_feed u0). section_idx g = idx)
                then prop_ucode_free_section_filter idx u0 else u0)
           else u)
        in snd (prop_ucode_set_pid_table i True True (gtf_pid (ucode_feed u1 ! i)) u1)))"

definition prop_ucode_stop_queue_feeds :: "nat \<Rightarrow> bool \<Rightarrow> ucode_state \<Rightarrow> ucode_state" where
  "prop_ucode_stop_queue_feeds queue_nr remove u =
     fold (\<lambda>i u. if dest_queue (ucode_feed u ! i) = int queue_nr then prop_ucode_stop_feed i remove u else u)
       [0 ..< AVIA_GT_UCODE_MAXIMUM_FEED_NUMBER] u"


section \<open>Initialisation\<close>

text \<open>
  The interface of a microcode version. Version 0xc001 announces another interface, whose
  functions are not set: the flag \<open>prop_interface\<close> stays as it was, and so do the fields its branch
  does not assign.
\<close>

definition avia_gt_dmx_set_ucode_info :: "nat \<Rightarrow> bool \<Rightarrow> ucode_state \<Rightarrow> ucode_state" where
  "avia_gt_dmx_set_ucode_info version disable_sec u =
     (let (cs, wp, off, pes) =
        (if version \<in> {0x13, 0x14} then ([CAP_ECD, CAP_PES, CAP_SEC, CAP_TS, CAP_MSGQ], True, 1, 3)
         else if version = 0x1a then ([CAP_ECD, CAP_PES, CAP_TS], False, 0, 5)
         else if version \<in> {0xF0, 0xF1, 0xF2, 0xF3, 0xF4} then ([CAP_PES, CAP_SEC, CAP_TS], True, 1, 3)
         else if version \<in> {0xb102, 0xb107, 0xb121} then ([CAP_PES, CAP_TS], False, 0, 3)
         else if version = 0xc001
         then ([CAP_C_INTERFACE, CAP_PES, CAP_SEC, CAP_TS, CAP_MSGQ], can_waitpusi u, 0, queue_mode u ! PES)
         else ([], False, if version < 0xa000 then 1 else 0, 3));
          cs = (if disable_sec then removeAll CAP_SEC cs else cs);
          u1 = u\<lparr>caps := cs, can_waitpusi := wp, qid_offset := off\<rparr>
      in if CAP_C_INTERFACE \<in> set cs then u1\<lparr>queue_mode := [0, 1, 3]\<rparr>
         else u1\<lparr>queue_mode := [0, pes, 4], prop_interface := True\<rparr>)"

text \<open>
  The image is what \<open>load_ucode\<close> leaves in the microcode memory: its version and its tables.
  \<open>None\<close> is the call of \<open>ucode_info.init\<close> through a null pointer.
\<close>

record ucode_image =
  img_version :: nat
  img_pid_search :: "pid_entry list"
  img_pid_parsing :: "ppc_entry list"
  img_filter_definition :: "bool list"
  img_filter_param :: "filter_param list"

definition prop_ucode_init :: "ucode_state \<Rightarrow> ucode_state" where
  "prop_ucode_init u = u\<lparr>filter_definition_table := replicate 32 False\<rparr>"

definition avia_gt_dmx_risc_init :: "ucode_image \<Rightarrow> bool \<Rightarrow> ucode_state \<Rightarrow> ucode_state option" where
  "avia_gt_dmx_risc_init img disable_sec u =
     (let u1 = u\<lparr>section_map := replicate 32 (-1),
                 ucode_feed := replicate AVIA_GT_UCODE_MAXIMUM_FEED_NUMBER
                   \<lparr>dest_queue = -1, gtf_type = 255, section_idx = 255, filtercount = 0xff, gtf_pid = 0xffff\<rparr>,
                 pid_search_table := img_pid_search img,
                 pid_parsing_control_table := img_pid_parsing img,
                 risc_filter_definition := img_filter_definition img,
                 risc_filter_param := img_filter_param img\<rparr>;
          u2 = avia_gt_dmx_set_ucode_info (img_version img) disable_sec u1
      in if prop_interface u2 then Some (prop_ucode_init u2) else None)"


section \<open>What the microcode sees\<close>

text \<open>
  The microcode takes the first valid entry of the search table with the PID of a packet. An entry
  is valid only for an allocated feed, and then holds the PID of that feed without its tap mark; of
  the feeds of user queues no two without the tap mark have the same PID.
\<close>

definition tapped :: "avia_gt_feed \<Rightarrow> bool" where
  "tapped f \<longleftrightarrow> gtf_pid f AND AVIA_GT_UCODE_TAP_PID \<noteq> 0"

definition user_feed :: "avia_gt_feed \<Rightarrow> bool" where
  "user_feed f \<longleftrightarrow> int AVIA_GT_DMX_QUEUE_USER_START \<le> dest_queue f \<and> \<not> tapped f"

definition feed_ok :: "avia_gt_feed \<Rightarrow> bool" where
  "feed_ok f \<longleftrightarrow> dest_queue f \<noteq> -1 \<longrightarrow>
     0 \<le> dest_queue f \<and> dest_queue f < int AVIA_GT_DMX_QUEUE_COUNT \<and> gtf_type f < 3 \<and> gtf_pid f < 0x4000"

definition entry_ok :: "avia_gt_feed \<Rightarrow> pid_entry \<Rightarrow> bool" where
  "entry_ok f e \<longleftrightarrow> \<not> pe_INVALID e \<longrightarrow> dest_queue f \<noteq> -1 \<and> pe_PID e = gtf_pid f AND NOT AVIA_GT_UCODE_TAP_PID"

definition ucode_inv :: "ucode_state \<Rightarrow> bool" where
  "ucode_inv u \<longleftrightarrow>
     length (ucode_feed u) = 32 \<and> length (pid_search_table u) = 32
     \<and> length (pid_parsing_control_table u) = 32 \<and> length (section_map u) = 32
     \<and> length (queue_mode u) = 3
     \<and> (\<forall>i < 32. feed_ok (ucode_feed u ! i) \<and> entry_ok (ucode_feed u ! i) (pid_search_table u ! i))
     \<and> (\<forall>i < 32. \<forall>j < 32. i \<noteq> j \<longrightarrow> user_feed (ucode_feed u ! i) \<longrightarrow> user_feed (ucode_feed u ! j) \<longrightarrow>
          gtf_pid (ucode_feed u ! i) \<noteq> gtf_pid (ucode_feed u ! j))"

text \<open>
  What the driver does to the tables: allocate a feed, start it (with \<open>tap_feed\<close> set by
  \<open>avia_gt_dmx_tap\<close>, clear otherwise), stop it, the same for all feeds of a queue, and free a section filter.
\<close>

inductive ucode_step :: "ucode_state \<Rightarrow> ucode_state \<Rightarrow> bool" where
  uc_alloc: "q < 32 \<Longrightarrow> t < 3 \<Longrightarrow> pid < 0x2000 \<Longrightarrow>
     ucode_step u (snd (prop_ucode_alloc_generic_feed q t sec pid u))"
| uc_start: "i < 32 \<Longrightarrow> ucode_step u (prop_ucode_start_feed i tap_feed u)"
| uc_start_queue: "ucode_step u (prop_ucode_start_queue_feeds q u)"
| uc_stop: "i < 32 \<Longrightarrow> ucode_step u (prop_ucode_stop_feed i r u)"
| uc_stop_queue: "ucode_step u (prop_ucode_stop_queue_feeds q r u)"
| uc_free: "ucode_step u (prop_ucode_free_section_filter n u)"

text \<open>Words: the tap mark is the bit above the 13 bits of a PID.\<close>

lemma pid_less_bits:
  assumes "pid < (0x2000 :: u16)"
  shows "take_bit 13 pid = pid"
proof -
  have "unat pid < 2 ^ 13" using assms by (simp add: word_less_nat_alt)
  then show ?thesis by (simp add: word_unat_eq_iff unsigned_take_bit_eq take_bit_nat_eq_self)
qed

lemma tap_bit: "x AND 0x2000 = (0 :: u16) \<longleftrightarrow> \<not> bit x 13"
proof -
  have "(0x2000 :: u16) = push_bit 13 1" by simp
  then show ?thesis using bit_iff_and_push_bit_not_eq_0 [of x 13] by simp
qed

lemma pid_bits:
  assumes "pid < (0x2000 :: u16)"
  shows "pid AND 0x1fff = pid" "pid AND 0x2000 = 0" "pid AND NOT 0x2000 = pid"
    "(0x2000 OR pid) AND 0x2000 \<noteq> 0" "0x2000 OR pid < 0x4000"
proof -
  have small: "take_bit 13 pid = pid" using assms by (rule pid_less_bits)
  have hi: "\<not> bit pid n" if "13 \<le> n" for n
    using small that by (metis bit_take_bit_iff leD)
  show "pid AND 0x1fff = pid"
    using small by (simp add: take_bit_eq_mask mask_eq_exp_minus_1)
  show c: "pid AND 0x2000 = 0" using hi by (simp add: tap_bit)
  have "pid = (pid AND 0x2000) OR (pid AND NOT 0x2000)"
    by (metis bit.conj_disj_distrib bit.disj_cancel_right bit.conj_one_right)
  then show "pid AND NOT 0x2000 = pid" using c by simp
  show "(0x2000 OR pid) AND 0x2000 \<noteq> 0" by simp
  have "0x2000 OR pid = 0x2000 + pid"
    using c by (simp add: disjunctive_add_eq_or and.commute)
  moreover have "unat pid < 0x2000" using assms by (simp add: word_less_nat_alt)
  then have "unat (0x2000 + pid) < 0x4000" by (simp add: unat_word_ariths)
  ultimately show "0x2000 OR pid < 0x4000" by (simp add: word_less_nat_alt)
qed

text \<open>Every operation on one feed replaces that feed and its search entry.\<close>

lemma ucode_inv_update:
  assumes inv: "ucode_inv u" and i: "i < 32"
    and feeds: "ucode_feed u' = (ucode_feed u)[i := g]"
    and entries: "pid_search_table u' = (pid_search_table u)[i := e]"
    and lens: "length (pid_parsing_control_table u') = length (pid_parsing_control_table u)"
      "length (section_map u') = length (section_map u)" "length (queue_mode u') = length (queue_mode u)"
    and ok: "feed_ok g" "entry_ok g e"
    and new: "\<And>j. user_feed g \<Longrightarrow> j < 32 \<Longrightarrow> j \<noteq> i \<Longrightarrow> user_feed (ucode_feed u ! j) \<Longrightarrow>
      gtf_pid g \<noteq> gtf_pid (ucode_feed u ! j)"
  shows "ucode_inv u'"
proof -
  have F: "ucode_feed u' ! k = (if k = i then g else ucode_feed u ! k)"
    and E: "pid_search_table u' ! k = (if k = i then e else pid_search_table u ! k)" if "k < 32" for k
    using that i inv unfolding feeds entries ucode_inv_def by (simp_all add: nth_list_update)
  have U: "gtf_pid (ucode_feed u' ! a) \<noteq> gtf_pid (ucode_feed u' ! b)"
    if "a < 32" "b < 32" "a \<noteq> b" "user_feed (ucode_feed u' ! a)" "user_feed (ucode_feed u' ! b)" for a b
  proof -
    have old: "gtf_pid (ucode_feed u ! a) \<noteq> gtf_pid (ucode_feed u ! b)"
      if "user_feed (ucode_feed u ! a)" "user_feed (ucode_feed u ! b)"
      using inv that \<open>a < 32\<close> \<open>b < 32\<close> \<open>a \<noteq> b\<close> unfolding ucode_inv_def by blast
    show ?thesis
      using that old new [of a] new [of b] by (auto simp: F split: if_splits)
  qed
  have "feed_ok (ucode_feed u' ! k) \<and> entry_ok (ucode_feed u' ! k) (pid_search_table u' ! k)"
    if "k < 32" for k
    using that ok inv unfolding ucode_inv_def by (simp add: F E)
  moreover have "length (ucode_feed u') = 32" "length (pid_search_table u') = 32"
    using inv by (simp_all add: feeds entries ucode_inv_def)
  ultimately show ?thesis
    using U inv lens unfolding ucode_inv_def by auto
qed

lemma length_clear_run [simp]: "length (clear_run v xs) = length xs"
  by (induction xs) auto

lemma free_section_filter_frame [frame_simps]:
  "ucode_feed (prop_ucode_free_section_filter n u) = ucode_feed u"
  "pid_search_table (prop_ucode_free_section_filter n u) = pid_search_table u"
  "pid_parsing_control_table (prop_ucode_free_section_filter n u) = pid_parsing_control_table u"
  "queue_mode (prop_ucode_free_section_filter n u) = queue_mode u"
  "can_waitpusi (prop_ucode_free_section_filter n u) = can_waitpusi u"
  "length (section_map (prop_ucode_free_section_filter n u)) = length (section_map u)"
  by (auto simp: prop_ucode_free_section_filter_def)

lemma set_pid_control_frame [frame_simps]:
  "ucode_feed (snd (prop_ucode_set_pid_control_table i q t a b c d e f g h u)) = ucode_feed u"
  "pid_search_table (snd (prop_ucode_set_pid_control_table i q t a b c d e f g h u)) = pid_search_table u"
  "length (pid_parsing_control_table (snd (prop_ucode_set_pid_control_table i q t a b c d e f g h u)))
     = length (pid_parsing_control_table u)"
  "section_map (snd (prop_ucode_set_pid_control_table i q t a b c d e f g h u)) = section_map u"
  "queue_mode (snd (prop_ucode_set_pid_control_table i q t a b c d e f g h u)) = queue_mode u"
  by (auto simp: prop_ucode_set_pid_control_table_def Let_def)

lemma set_pid_table_effect [frame_simps]:
  "ucode_feed (snd (prop_ucode_set_pid_table i w v pid u)) = ucode_feed u"
  "i < 32 \<Longrightarrow> pid_search_table (snd (prop_ucode_set_pid_table i w v pid u))
     = (pid_search_table u)[i := \<lparr>wait_pusi = w, pe_INVALID = v, pe_PID = pid AND 0x1fff\<rparr>]"
  "pid_parsing_control_table (snd (prop_ucode_set_pid_table i w v pid u)) = pid_parsing_control_table u"
  "section_map (snd (prop_ucode_set_pid_table i w v pid u)) = section_map u"
  "queue_mode (snd (prop_ucode_set_pid_table i w v pid u)) = queue_mode u"
  by (auto simp: prop_ucode_set_pid_table_def)

lemma entry_ok_invalid [simp]: "entry_ok f \<lparr>wait_pusi = w, pe_INVALID = True, pe_PID = p\<rparr>"
  by (simp add: entry_ok_def)

lemma strip_tap:
  assumes "p < (0x4000 :: u16)"
  shows "(p AND NOT 0x2000) AND 0x1fff = p AND NOT 0x2000"
proof -
  have "unat p < 2 ^ 14" using assms by (simp add: word_less_nat_alt)
  then have small: "take_bit 14 p = p" by (simp add: word_unat_eq_iff unsigned_take_bit_eq take_bit_nat_eq_self)
  have "\<not> bit (p AND NOT 0x2000) n" if "13 \<le> n" for n
  proof (cases "n = 13")
    case True
    have "(p AND NOT 0x2000) AND 0x2000 = 0" by (simp add: and.assoc)
    then show ?thesis using True by (simp add: tap_bit)
  next
    case False
    then have "\<not> n < 14" using that by simp
    then have "\<not> bit p n" using small by (metis bit_take_bit_iff)
    then show ?thesis by (simp add: bit_and_iff)
  qed
  then have "take_bit 13 (p AND NOT 0x2000) = p AND NOT 0x2000"
    by (intro bit_eqI) (metis bit_take_bit_iff not_less)
  then show ?thesis by (simp add: take_bit_eq_mask mask_eq_exp_minus_1)
qed

lemma start_feed_inv [inv_intros]:
  assumes inv: "ucode_inv u" and i: "i < 32"
  shows "ucode_inv (prop_ucode_start_feed i tap_feed u)"
proof (cases "dest_queue (ucode_feed u ! i) = -1")
  case True
  then show ?thesis using inv by (simp add: prop_ucode_start_feed_def)
next
  case False
  let ?f = "ucode_feed u ! i"
  have fok: "feed_ok ?f" and eok: "entry_ok ?f (pid_search_table u ! i)"
    using inv i by (simp_all add: ucode_inv_def)
  have uniq: "gtf_pid ?f \<noteq> gtf_pid (ucode_feed u ! j)"
    if "user_feed ?f" "j < 32" "j \<noteq> i" "user_feed (ucode_feed u ! j)" for j
    using inv i that unfolding ucode_inv_def by blast
  have same: "(ucode_feed u)[i := ?f] = ucode_feed u" by simp
  have "gtf_pid ?f < 0x4000" using fok False by (simp add: feed_ok_def)
  then have "(gtf_pid ?f AND NOT AVIA_GT_UCODE_TAP_PID) AND 0x1fff = gtf_pid ?f AND NOT AVIA_GT_UCODE_TAP_PID"
    by (simp only: AVIA_GT_UCODE_TAP_PID_def strip_tap)
  then have new: "entry_ok ?f \<lparr>wait_pusi = w, pe_INVALID = False,
      pe_PID = (gtf_pid ?f AND NOT AVIA_GT_UCODE_TAP_PID) AND 0x1fff\<rparr>" for w
    using False by (simp add: entry_ok_def)
  show ?thesis
  proof (cases "tap_feed \<or> \<not> tapped ?f")
    case True
    then show ?thesis
      using inv i False uniq fok new same
      by (intro ucode_inv_update [OF inv i, where g = ?f])
         (auto simp: prop_ucode_start_feed_def Let_def tapped_def frame_simps)
  next
    case tap: False
    then show ?thesis
      using inv i False uniq fok eok
      by (intro ucode_inv_update [OF inv i, where g = ?f and e = "pid_search_table u ! i"])
         (auto simp: prop_ucode_start_feed_def Let_def tapped_def frame_simps)
  qed
qed

lemma alloc_generic_feed_cases:
  assumes "prop_ucode_alloc_generic_feed q t sec pid u = (r, u')"
  obtains (full) "r = None" "u' = u\<lparr>irqs_off := True\<rparr>"
    | (claimed) i g where "r = Some i" "i < length (ucode_feed u)" "dest_queue (ucode_feed u ! i) = -1"
        "dest_queue g = int q" "gtf_type g = t"
        "gtf_pid g = (AVIA_GT_UCODE_TAP_PID AND NOT AVIA_GT_UCODE_TAP_PID) OR pid"
        "pid2feedidx pid (u\<lparr>ucode_feed := (ucode_feed u)[i := g\<lparr>gtf_pid := AVIA_GT_UCODE_TAP_PID\<rparr>]\<rparr>) = None
           \<or> q < AVIA_GT_DMX_QUEUE_USER_START"
        "u' = snd (prop_ucode_set_pid_table i (can_waitpusi u) True pid u)\<lparr>ucode_feed := (ucode_feed u)[i := g]\<rparr>"
    | (tap) i g where "r = Some i" "i < length (ucode_feed u)" "dest_queue (ucode_feed u ! i) = -1"
        "dest_queue g = int q" "gtf_type g = t" "gtf_pid g = AVIA_GT_UCODE_TAP_PID OR pid"
        "u' = u\<lparr>ucode_feed := (ucode_feed u)[i := g]\<rparr>"
proof (cases "first_index (\<lambda>f. dest_queue f = -1) (ucode_feed u)")
  case None
  then show ?thesis using assms full by (simp add: prop_ucode_alloc_generic_feed_def)
next
  case (Some i)
  define f where "f = (ucode_feed u ! i)\<lparr>dest_queue := int q, gtf_type := t,
                     section_idx := (case sec of Some s \<Rightarrow> sec_idx s | None \<Rightarrow> 255),
                     filtercount := (case sec of Some s \<Rightarrow> sec_filtercount s - 1 | None \<Rightarrow> 0),
                     gtf_pid := AVIA_GT_UCODE_TAP_PID\<rparr>"
  define own where "own \<longleftrightarrow> pid2feedidx pid (u\<lparr>ucode_feed := (ucode_feed u)[i := f]\<rparr>) = None
    \<or> q < AVIA_GT_DMX_QUEUE_USER_START"
  have i: "i < length (ucode_feed u)" "dest_queue (ucode_feed u ! i) = -1"
    using first_index_Some [OF Some] by simp_all
  have f: "dest_queue f = int q" "gtf_type f = t" "gtf_pid f = AVIA_GT_UCODE_TAP_PID"
    by (simp_all add: f_def)
  have ff: "f\<lparr>gtf_pid := AVIA_GT_UCODE_TAP_PID\<rparr> = f" by (simp add: f_def)
  have u': "r = None \<and> u' = u\<lparr>irqs_off := True\<rparr>
    \<or> r = Some i \<and> own \<and> u' = snd (prop_ucode_set_pid_table i (can_waitpusi u) True pid u)\<lparr>ucode_feed :=
          (ucode_feed u)[i := f\<lparr>gtf_pid := (AVIA_GT_UCODE_TAP_PID AND NOT AVIA_GT_UCODE_TAP_PID) OR pid\<rparr>]\<rparr>
    \<or> r = Some i \<and> \<not> own \<and> u' = u\<lparr>ucode_feed := (ucode_feed u)[i := f\<lparr>gtf_pid := AVIA_GT_UCODE_TAP_PID OR pid\<rparr>]\<rparr>"
    using assms unfolding prop_ucode_alloc_generic_feed_def own_def Some
    by (simp add: Let_def f_def [symmetric] prop_ucode_set_pid_table_def split: if_splits)
       (auto simp: f)?
  show ?thesis
  proof -
    consider "r = None \<and> u' = u\<lparr>irqs_off := True\<rparr>" | "r = Some i \<and> own" | "r = Some i \<and> \<not> own"
      using u' by blast
    then show ?thesis
    proof cases
      case 1
      then show ?thesis using full by blast
    next
      case 2
      then show ?thesis
        using u' i f own_def by (intro claimed [of i "f\<lparr>gtf_pid := (AVIA_GT_UCODE_TAP_PID AND NOT AVIA_GT_UCODE_TAP_PID) OR pid\<rparr>"]) (auto simp: ff)
    next
      case 3
      then show ?thesis using u' i f by (intro tap [of i "f\<lparr>gtf_pid := AVIA_GT_UCODE_TAP_PID OR pid\<rparr>"]) auto
    qed
  qed
qed

lemma alloc_generic_feed_inv [inv_intros]:
  assumes inv: "ucode_inv u" and q: "q < 32" and t: "t < 3" and pid: "pid < 0x2000"
  shows "ucode_inv (snd (prop_ucode_alloc_generic_feed q t sec pid u))"
proof -
  obtain r u' where eq: "prop_ucode_alloc_generic_feed q t sec pid u = (r, u')" by (metis surj_pair)
  then show ?thesis
  proof (cases rule: alloc_generic_feed_cases)
    case full
    then show ?thesis using inv eq by (simp add: ucode_inv_def)
  next
    case (claimed i g)
    have i: "i < 32" using claimed inv by (simp add: ucode_inv_def)
    have gp: "gtf_pid g = pid" using claimed by simp
    have "feed_ok g" using claimed(4,5) gp q t pid
      by (auto simp: feed_ok_def AVIA_GT_DMX_QUEUE_COUNT_def word_less_nat_alt)
    moreover have "gtf_pid g \<noteq> gtf_pid (ucode_feed u ! j)"
      if "user_feed g" "j < 32" "j \<noteq> i" "user_feed (ucode_feed u ! j)" for j
    proof -
      have "\<not> q < AVIA_GT_DMX_QUEUE_USER_START"
        using that(1) claimed(4) by (simp add: user_feed_def)
      then have none: "pid2feedidx pid
          (u\<lparr>ucode_feed := (ucode_feed u)[i := g\<lparr>gtf_pid := AVIA_GT_UCODE_TAP_PID\<rparr>]\<rparr>) = None"
        using claimed(7) by blast
      have len: "length (ucode_feed u) = 32" using inv by (simp add: ucode_inv_def)
      have "ucode_feed u ! j \<in> set ((ucode_feed u)[i := g\<lparr>gtf_pid := AVIA_GT_UCODE_TAP_PID\<rparr>])"
        using that(2,3) len by (metis length_list_update nth_list_update_neq nth_mem)
      then have "\<not> (dest_queue (ucode_feed u ! j) \<noteq> -1 \<and> gtf_pid (ucode_feed u ! j) = pid)"
        using none by (simp add: pid2feedidx_def first_index_None)
      then show ?thesis using that(4) gp by (auto simp: user_feed_def)
    qed
    ultimately show ?thesis
      using claimed(8) i eq
      by (intro ucode_inv_update [OF inv i, where g = g
             and e = "\<lparr>wait_pusi = can_waitpusi u, pe_INVALID = True, pe_PID = pid AND 0x1fff\<rparr>"])
         (simp_all add: frame_simps)
  next
    case (tap i g)
    have i: "i < 32" using tap inv by (simp add: ucode_inv_def)
    have gp: "gtf_pid g < 0x4000" "tapped g"
      using tap pid_bits [OF pid] by (simp_all add: AVIA_GT_UCODE_TAP_PID_def tapped_def)
    have "entry_ok (ucode_feed u ! i) (pid_search_table u ! i)" using inv i by (simp add: ucode_inv_def)
    then have e: "entry_ok g (pid_search_table u ! i)" using tap(3) by (simp add: entry_ok_def)
    have "feed_ok g" using tap(4,5) gp q t by (simp add: feed_ok_def AVIA_GT_DMX_QUEUE_COUNT_def)
    moreover have "\<not> user_feed g" using gp by (simp add: user_feed_def)
    ultimately show ?thesis
      using tap i eq e
      by (intro ucode_inv_update [OF inv i, where g = g and e = "pid_search_table u ! i"]) simp_all
  qed
qed

lemma stop_feed_effect:
  assumes "dest_queue (ucode_feed u ! i) \<noteq> -1" "i < 32"
  obtains p where
    "ucode_feed (prop_ucode_stop_feed i r u) = (ucode_feed u)[i := (if r
       then (ucode_feed u ! i)\<lparr>dest_queue := -1, gtf_pid := 0, section_idx := 255\<rparr> else ucode_feed u ! i)]"
    "pid_search_table (prop_ucode_stop_feed i r u)
       = (pid_search_table u)[i := \<lparr>wait_pusi = True, pe_INVALID = True, pe_PID = p\<rparr>]"
    "pid_parsing_control_table (prop_ucode_stop_feed i r u) = pid_parsing_control_table u"
    "length (section_map (prop_ucode_stop_feed i r u)) = length (section_map u)"
    "queue_mode (prop_ucode_stop_feed i r u) = queue_mode u"
proof -
  define u0 where "u0 = u\<lparr>ucode_feed := (ucode_feed u)
    [i := (ucode_feed u ! i)\<lparr>dest_queue := -1, gtf_pid := 0, section_idx := 255\<rparr>]\<rparr>"
  define u1 where "u1 = (if r then if section_idx (ucode_feed u ! i) \<noteq> 255
      \<and> \<not> (\<exists>g \<in> set (ucode_feed u0). section_idx g = section_idx (ucode_feed u ! i))
    then prop_ucode_free_section_filter (section_idx (ucode_feed u ! i)) u0 else u0 else u)"
  have stop: "prop_ucode_stop_feed i r u
      = snd (prop_ucode_set_pid_table i True True (gtf_pid (ucode_feed u1 ! i)) u1)"
    using assms by (simp add: prop_ucode_stop_feed_def Let_def u0_def u1_def)
  have "ucode_feed u1 = (ucode_feed u)[i := (if r
      then (ucode_feed u ! i)\<lparr>dest_queue := -1, gtf_pid := 0, section_idx := 255\<rparr> else ucode_feed u ! i)]"
    "pid_search_table u1 = pid_search_table u"
    "pid_parsing_control_table u1 = pid_parsing_control_table u"
    "length (section_map u1) = length (section_map u)" "queue_mode u1 = queue_mode u"
    by (simp_all add: u1_def u0_def frame_simps)
  then show ?thesis using assms by (intro that) (simp_all add: stop frame_simps)
qed

lemma stop_feed_inv [inv_intros]:
  assumes inv: "ucode_inv u" and i: "i < 32"
  shows "ucode_inv (prop_ucode_stop_feed i r u)"
proof (cases "dest_queue (ucode_feed u ! i) = -1")
  case True
  then show ?thesis using inv by (simp add: prop_ucode_stop_feed_def)
next
  case False
  let ?f = "ucode_feed u ! i"
  define g where "g = (if r then ?f\<lparr>dest_queue := -1, gtf_pid := 0, section_idx := 255\<rparr> else ?f)"
  have other: "gtf_pid ?f \<noteq> gtf_pid (ucode_feed u ! j)"
    if "user_feed ?f" "j < 32" "j \<noteq> i" "user_feed (ucode_feed u ! j)" for j
    using inv i that unfolding ucode_inv_def by blast
  have "user_feed g \<Longrightarrow> \<not> r" by (auto simp: g_def user_feed_def AVIA_GT_DMX_QUEUE_USER_START_def)
  then have uniq: "gtf_pid g \<noteq> gtf_pid (ucode_feed u ! j)"
    if "user_feed g" "j < 32" "j \<noteq> i" "user_feed (ucode_feed u ! j)" for j
    using other that by (simp add: g_def)
  have ok: "feed_ok g" using inv i by (auto simp: g_def ucode_inv_def feed_ok_def)
  from False i show ?thesis
  proof (rule stop_feed_effect [where r = r], goal_cases)
    case (1 p)
    then show ?case
      by (intro ucode_inv_update [OF inv i _ _ _ _ _ ok entry_ok_invalid uniq]) (simp_all add: g_def)
  qed
qed

lemma free_section_filter_inv [inv_intros]:
  "ucode_inv u \<Longrightarrow> ucode_inv (prop_ucode_free_section_filter n u)"
  by (simp add: ucode_inv_def frame_simps)

lemma fold_keeps: "(\<And>x s. x \<in> set xs \<Longrightarrow> P s \<Longrightarrow> P (f x s)) \<Longrightarrow> P s \<Longrightarrow> P (fold f xs s)"
  by (induction xs arbitrary: s) auto

lemma start_queue_feeds_inv [inv_intros]:
  "ucode_inv u \<Longrightarrow> ucode_inv (prop_ucode_start_queue_feeds q u)"
  unfolding prop_ucode_start_queue_feeds_def
  by (rule fold_keeps [where P = ucode_inv])
     (auto simp: AVIA_GT_UCODE_MAXIMUM_FEED_NUMBER_def start_feed_inv)

lemma stop_queue_feeds_inv [inv_intros]:
  "ucode_inv u \<Longrightarrow> ucode_inv (prop_ucode_stop_queue_feeds q r u)"
  unfolding prop_ucode_stop_queue_feeds_def
  by (rule fold_keeps [where P = ucode_inv])
     (auto simp: AVIA_GT_UCODE_MAXIMUM_FEED_NUMBER_def stop_feed_inv)

lemma ucode_step_inv: "ucode_step u u' \<Longrightarrow> ucode_inv u \<Longrightarrow> ucode_inv u'"
  by (induction rule: ucode_step.induct) (auto intro: inv_intros)

lemma set_ucode_info_frame [frame_simps]:
  "ucode_feed (avia_gt_dmx_set_ucode_info v ds u) = ucode_feed u"
  "section_map (avia_gt_dmx_set_ucode_info v ds u) = section_map u"
  "pid_search_table (avia_gt_dmx_set_ucode_info v ds u) = pid_search_table u"
  "pid_parsing_control_table (avia_gt_dmx_set_ucode_info v ds u) = pid_parsing_control_table u"
  "length (queue_mode (avia_gt_dmx_set_ucode_info v ds u)) = 3"
  by (simp_all add: avia_gt_dmx_set_ucode_info_def Let_def split: prod.splits)

lemma risc_init_inv:
  assumes "avia_gt_dmx_risc_init img ds u = Some u'"
    and "length (img_pid_search img) = 32" "length (img_pid_parsing img) = 32"
    and inval: "\<forall>e \<in> set (img_pid_search img). pe_INVALID e"
  shows "ucode_inv u'"
proof -
  have "pe_INVALID (img_pid_search img ! i)" if "i < 32" for i
    using inval assms(2) that by (metis nth_mem)
  then show ?thesis
    using assms
    by (auto simp: avia_gt_dmx_risc_init_def prop_ucode_init_def ucode_inv_def Let_def frame_simps
        AVIA_GT_UCODE_MAXIMUM_FEED_NUMBER_def feed_ok_def entry_ok_def user_feed_def
        AVIA_GT_DMX_QUEUE_USER_START_def split: if_splits)
qed

inductive ucode_reachable :: "ucode_image \<Rightarrow> bool \<Rightarrow> ucode_state \<Rightarrow> bool" for img ds where
  ucr_init: "avia_gt_dmx_risc_init img ds u0 = Some u \<Longrightarrow> ucode_reachable img ds u"
| ucr_step: "ucode_reachable img ds u \<Longrightarrow> ucode_step u u' \<Longrightarrow> ucode_reachable img ds u'"

definition image_idle :: "ucode_image \<Rightarrow> bool" where
  "image_idle img \<longleftrightarrow> length (img_pid_search img) = 32 \<and> length (img_pid_parsing img) = 32
     \<and> list_all pe_INVALID (img_pid_search img)"

lemma ucode_reachable_inv: "ucode_reachable img ds u \<Longrightarrow> image_idle img \<Longrightarrow> ucode_inv u"
  by (induction rule: ucode_reachable.induct)
     (auto simp: image_idle_def list_all_iff intro: ucode_step_inv risc_init_inv)

lemma strip_tap_inject:
  assumes "\<not> tapped f" "\<not> tapped g"
    and "gtf_pid f AND NOT AVIA_GT_UCODE_TAP_PID = gtf_pid g AND NOT AVIA_GT_UCODE_TAP_PID"
  shows "gtf_pid f = gtf_pid g"
proof -
  have split: "p = (p AND AVIA_GT_UCODE_TAP_PID) OR (p AND NOT AVIA_GT_UCODE_TAP_PID)" for p
    by (metis bit.conj_disj_distrib bit.disj_cancel_right bit.conj_one_right)
  show ?thesis
    using assms split [of "gtf_pid f"] split [of "gtf_pid g"] by (simp add: tapped_def)
qed

lemma valid_entry_facts:
  assumes "ucode_reachable img ds u" "image_idle img"
    and "i < 32" "\<not> pe_INVALID (pid_search_table u ! i)"
  shows "0 \<le> dest_queue (ucode_feed u ! i)" "dest_queue (ucode_feed u ! i) < 32"
    and "gtf_pid (ucode_feed u ! i) AND NOT AVIA_GT_UCODE_TAP_PID = pe_PID (pid_search_table u ! i)"
    and "\<And>j. j < 32 \<Longrightarrow> j \<noteq> i \<Longrightarrow> \<not> pe_INVALID (pid_search_table u ! j) \<Longrightarrow>
      pe_PID (pid_search_table u ! j) = pe_PID (pid_search_table u ! i) \<Longrightarrow>
      \<not> tapped (ucode_feed u ! i) \<Longrightarrow> \<not> tapped (ucode_feed u ! j) \<Longrightarrow>
      dest_queue (ucode_feed u ! i) < 3 \<or> dest_queue (ucode_feed u ! j) < 3"
proof -
  have inv: "ucode_inv u" using assms(1,2) by (rule ucode_reachable_inv)
  have ok: "feed_ok (ucode_feed u ! k)" "entry_ok (ucode_feed u ! k) (pid_search_table u ! k)" if "k < 32" for k
    using inv that by (simp_all add: ucode_inv_def)
  show "0 \<le> dest_queue (ucode_feed u ! i)" "dest_queue (ucode_feed u ! i) < 32"
    "gtf_pid (ucode_feed u ! i) AND NOT AVIA_GT_UCODE_TAP_PID = pe_PID (pid_search_table u ! i)"
    using ok [OF assms(3)] assms(4) by (auto simp: feed_ok_def entry_ok_def AVIA_GT_DMX_QUEUE_COUNT_def)
  fix j
  assume j: "j < 32" "j \<noteq> i" "\<not> pe_INVALID (pid_search_table u ! j)"
    "pe_PID (pid_search_table u ! j) = pe_PID (pid_search_table u ! i)"
    and tap: "\<not> tapped (ucode_feed u ! i)" "\<not> tapped (ucode_feed u ! j)"
  have "gtf_pid (ucode_feed u ! j) = gtf_pid (ucode_feed u ! i)"
    using ok [OF assms(3)] ok [OF j(1)] j assms(4) tap by (intro strip_tap_inject) (auto simp: entry_ok_def)
  then have "\<not> (user_feed (ucode_feed u ! i) \<and> user_feed (ucode_feed u ! j))"
    using inv j(1,2) assms(3) unfolding ucode_inv_def by metis
  with tap show "dest_queue (ucode_feed u ! i) < 3 \<or> dest_queue (ucode_feed u ! j) < 3"
    by (auto simp: user_feed_def AVIA_GT_DMX_QUEUE_USER_START_def)
qed

text \<open>
  C24: After any sequence of allocations, starts (those of a tap included) and stops, a valid entry of
  the search table of the microcode belongs to an allocated feed and carries the PID of that feed
  without its tap mark; and of two valid entries with the same PID at least one is the feed of a
  decoder queue or carries the tap mark, so that no user queue takes the packets of another unless one
  of them is a tap. (With a tap it can, see \<open>tap_start_duplicates\<close>.)
\<close>

theorem search_table_unambiguous:
  assumes "ucode_reachable img ds u" "image_idle img" "i < 32" "\<not> pe_INVALID (pid_search_table u ! i)"
  shows "0 \<le> dest_queue (ucode_feed u ! i) \<and> dest_queue (ucode_feed u ! i) < 32
    \<and> gtf_pid (ucode_feed u ! i) AND NOT AVIA_GT_UCODE_TAP_PID = pe_PID (pid_search_table u ! i)
    \<and> (\<forall>j < 32. j \<noteq> i \<and> \<not> pe_INVALID (pid_search_table u ! j)
        \<and> pe_PID (pid_search_table u ! j) = pe_PID (pid_search_table u ! i)
        \<and> \<not> tapped (ucode_feed u ! i) \<and> \<not> tapped (ucode_feed u ! j)
        \<longrightarrow> dest_queue (ucode_feed u ! i) < 3 \<or> dest_queue (ucode_feed u ! j) < 3)"
  using valid_entry_facts [OF assms] by blast


text \<open>A run of the driver: one feed on a user queue, started.\<close>

definition ex_image :: ucode_image where
  "ex_image = \<lparr>img_version = 0x14,
     img_pid_search = replicate 32 \<lparr>wait_pusi = True, pe_INVALID = True, pe_PID = 0x1fff\<rparr>,
     img_pid_parsing = replicate 32 \<lparr>ppc_type = 0, ppc_QID = 0, ppc_fork = False, ppc_CW_offset = 0,
       ppc_CC = 0, ppc_PSH = False, ppc_start_up = False, ppc_PEC = False, ppc_filt_tab_idx = 0,
       ppc_State = 0, ppc_no_of_filter = 0\<rparr>,
     img_filter_definition = replicate 32 False,
     img_filter_param = replicate 32 \<lparr>fp_mask = replicate 8 0, fp_param = replicate 8 0, not_flag = False,
       not_flag_ver_id_byte = False\<rparr>\<rparr>"

definition ex_ucode0 :: ucode_state where
  "ex_ucode0 = \<lparr>caps = [], can_waitpusi = False, qid_offset = 0, queue_mode = [0, 0, 0], prop_interface = False,
     ucode_feed = [], section_map = [], pid_search_table = [], pid_parsing_control_table = [],
     filter_definition_table = [], risc_filter_definition = [], risc_filter_param = [], irqs_off = False\<rparr>"

definition ex_ucode :: ucode_state where
  "ex_ucode = prop_ucode_start_feed 0 False
     (snd (prop_ucode_alloc_generic_feed 5 TS None 0x100 (the (avia_gt_dmx_risc_init ex_image False ex_ucode0))))"

lemma ex_init: "\<exists>u. avia_gt_dmx_risc_init ex_image False ex_ucode0 = Some u"
  by (simp add: avia_gt_dmx_risc_init_def avia_gt_dmx_set_ucode_info_def ex_image_def Let_def)

lemma ex_ucode_reachable: "ucode_reachable ex_image False ex_ucode"
proof -
  obtain u where u: "avia_gt_dmx_risc_init ex_image False ex_ucode0 = Some u" using ex_init by blast
  then have "ucode_reachable ex_image False u" by (rule ucr_init)
  then show ?thesis
    unfolding ex_ucode_def u
    by (auto intro!: ucr_step [OF _ uc_start] ucr_step [OF _ uc_alloc] simp: TS_def)
qed

lemma ex_ucode_entry: "pid_search_table ex_ucode ! 0 = \<lparr>wait_pusi = True, pe_INVALID = False, pe_PID = 0x100\<rparr>"
  by code_simp

theorem search_table_unambiguous_witness:
  "gtf_pid (ucode_feed ex_ucode ! 0) AND NOT AVIA_GT_UCODE_TAP_PID = 0x100 \<and> dest_queue (ucode_feed ex_ucode ! 0) < 32"
  using search_table_unambiguous [OF ex_ucode_reachable, of 0] ex_ucode_entry
  by (simp add: image_idle_def ex_image_def list_all_iff)

text \<open>
  An allocation compares the PID with those of the other feeds including their tap marks, so that a
  tap that is running is not found. A decoder queue and user queue 5 have feeds for one PID, the second
  with the tap mark; it is started as a tap, the decoder's feed is stopped, and user queue 6 asks for the
  same PID: its feed gets the free entry in front, without the tap mark, and takes the packets of the tap.
\<close>

definition ex_tap_duplicate :: ucode_state where
  "ex_tap_duplicate =
     (let u = the (avia_gt_dmx_risc_init ex_image False ex_ucode0);
          u = prop_ucode_start_feed 0 False (snd (prop_ucode_alloc_generic_feed 0 TS None 0x100 u));
          u = prop_ucode_start_feed 1 True (snd (prop_ucode_alloc_generic_feed 5 TS None 0x100 u));
          u = prop_ucode_stop_feed 0 True u
      in prop_ucode_start_feed 0 False (snd (prop_ucode_alloc_generic_feed 6 TS None 0x100 u)))"

lemma ex_tap_duplicate_reachable: "ucode_reachable ex_image False ex_tap_duplicate"
proof -
  obtain u where u: "avia_gt_dmx_risc_init ex_image False ex_ucode0 = Some u" using ex_init by blast
  then have "ucode_reachable ex_image False u" by (rule ucr_init)
  then show ?thesis
    unfolding ex_tap_duplicate_def u Let_def option.sel
    by (intro ucr_step [OF _ uc_start] ucr_step [OF _ uc_alloc] ucr_step [OF _ uc_stop]) (simp_all add: TS_def)
qed

lemma tap_start_duplicates:
  "map dest_queue (take 2 (ucode_feed ex_tap_duplicate)) = [6, 5]"
  "map gtf_pid (take 2 (ucode_feed ex_tap_duplicate)) = [0x100, 0x2100]"
  "map pe_INVALID (take 2 (pid_search_table ex_tap_duplicate)) = [False, False]"
  "map pe_PID (take 2 (pid_search_table ex_tap_duplicate)) = [0x100, 0x100]"
  by code_simp+

text \<open>An allocation without a free feed leaves interrupts disabled.\<close>

lemma out_of_feeds_disables_interrupts:
  assumes "\<forall>f \<in> set (ucode_feed u). dest_queue f \<noteq> -1"
  shows "prop_ucode_alloc_feed q t pid u = (None, u\<lparr>irqs_off := True\<rparr>)"
  using assms by (simp add: prop_ucode_alloc_feed_def prop_ucode_alloc_generic_feed_def
      first_index_None [THEN iffD2])

text \<open>
  A second feed of a user queue on a PID that is in use gets the tap mark, and starting it does not
  enter it into the search table, now or after the first feed is gone.
\<close>

lemma second_user_feed_not_started:
  assumes "ucode_inv u" "k < 32" "dest_queue (ucode_feed u ! k) \<noteq> -1" "gtf_pid (ucode_feed u ! k) = pid"
    and "AVIA_GT_DMX_QUEUE_USER_START \<le> q" "pid < 0x2000"
    and "prop_ucode_alloc_feed q t pid u = (Some i, u')"
  shows "tapped (ucode_feed u' ! i)"
    and "ucode_feed u'' ! i = ucode_feed u' ! i \<Longrightarrow>
      pid_search_table (prop_ucode_start_feed i False u'') = pid_search_table u''"
proof -
  have len: "length (ucode_feed u) = 32" using assms(1) by (simp add: ucode_inv_def)
  have "prop_ucode_alloc_generic_feed q t None pid u = (Some i, u')"
    using assms(7) by (simp add: prop_ucode_alloc_feed_def)
  then show tap: "tapped (ucode_feed u' ! i)"
  proof (cases rule: alloc_generic_feed_cases)
    case full
    then show ?thesis by simp
  next
    case (claimed j g)
    have "k \<noteq> j" using claimed(3) assms(3) by auto
    then have "ucode_feed u ! k \<in> set ((ucode_feed u)[j := g\<lparr>gtf_pid := AVIA_GT_UCODE_TAP_PID\<rparr>])"
      using assms(2) len by (metis length_list_update nth_list_update_neq nth_mem)
    then have "pid2feedidx pid (u\<lparr>ucode_feed := (ucode_feed u)[j := g\<lparr>gtf_pid := AVIA_GT_UCODE_TAP_PID\<rparr>]\<rparr>) \<noteq> None"
      using assms(3,4) by (auto simp: pid2feedidx_def first_index_None)
    then show ?thesis using claimed(7) assms(5) by simp
  next
    case (tap j g)
    then show ?thesis
      using pid_bits(4) [OF assms(6)] by (simp add: tapped_def AVIA_GT_UCODE_TAP_PID_def)
  qed
  show "pid_search_table (prop_ucode_start_feed i False u'') = pid_search_table u''"
    if "ucode_feed u'' ! i = ucode_feed u' ! i"
    using tap that by (simp add: prop_ucode_start_feed_def Let_def tapped_def frame_simps)
qed

text \<open>A microcode with the other interface is started through a null pointer.\<close>

lemma c_interface_not_initialised:
  assumes "img_version img = 0xc001" "\<not> prop_interface u"
  shows "avia_gt_dmx_risc_init img ds u = None"
  using assms by (simp add: avia_gt_dmx_risc_init_def avia_gt_dmx_set_ucode_info_def Let_def)

end
