(* ===== verification/Avia_Gt_Dmx.thy ===== *)
theory Avia_Gt_Dmx
  imports Avia_Gt_Ucode Ring_Arith
begin

text \<open>
  The queues of the demultiplexer chip, \<open>avia_gt_dmx.c\<close> and \<open>avia_gt_dmx.h\<close>, with the interrupt table
  of \<open>avia_gt_core.c\<close> and the memory map of \<open>avia_gt.h\<close>. The chip writes the packets of a feed into a
  region of its memory and interrupts; the driver reads the write pointer, detects overflow, and a
  bottom half hands the new bytes to the owner of the queue. Three system queues feed the decoders;
  their data can be shared with one user queue.

  \<^item> \<open>gt_queue\<close> is \<open>sAviaGtDmxQueue\<close>; the function pointers of its \<open>info\<close> are fixed by
    \<open>avia_gt_dmx_init\<close> and are the definitions below, \<open>info.index\<close> is the place in \<open>queue_list\<close>.
    Callback procedures and their data are addresses; a call of one is part of the result.
  \<^item> \<open>gt_state\<close> holds the statics of the file, the chip memory, and the registers the code
    uses. A pointer register moves while the chip writes, and the code reads it until two reads agree:
    \<open>qwp\<close> and \<open>aq_rp\<close> list the values the next reads of a register deliver, the last one for ever.
  \<^item> Sizes and positions of queues are far below \<open>2 ^ 32\<close> and are natural numbers; counters that
    wrap are words. Memory outside the chip's 2 MB is excluded by the invariant, not by the accesses.
  \<^item> Left out: debug output, the reset and timing registers that \<open>avia_gt_dmx_init\<close> sets to
    constants, and \<open>avia_gt_dmx_queue_crc32\<close>, which programs the CRC engine of the chip.
\<close>

section \<open>Data\<close>

definition AVIA_GT_DMX_QUEUE_VIDEO :: nat where "AVIA_GT_DMX_QUEUE_VIDEO = 0"
definition AVIA_GT_DMX_QUEUE_AUDIO :: nat where "AVIA_GT_DMX_QUEUE_AUDIO = 1"
definition AVIA_GT_DMX_QUEUE_TELETEXT :: nat where "AVIA_GT_DMX_QUEUE_TELETEXT = 2"
definition AVIA_GT_DMX_QUEUE_USER_END :: nat where "AVIA_GT_DMX_QUEUE_USER_END = 30"
definition AVIA_GT_DMX_QUEUE_MESSAGE :: nat where "AVIA_GT_DMX_QUEUE_MESSAGE = 31"
definition AVIA_GT_DMX_SYSTEM_QUEUES :: nat where "AVIA_GT_DMX_SYSTEM_QUEUES = 0xff"

lemmas gt_consts = AVIA_GT_DMX_QUEUE_VIDEO_def AVIA_GT_DMX_QUEUE_AUDIO_def AVIA_GT_DMX_QUEUE_TELETEXT_def
  AVIA_GT_DMX_QUEUE_USER_END_def AVIA_GT_DMX_QUEUE_MESSAGE_def AVIA_GT_DMX_SYSTEM_QUEUES_def
  AVIA_GT_DMX_QUEUE_COUNT_def AVIA_GT_DMX_QUEUE_USER_START_def

datatype gt_chip_type = ENX | GTX

datatype gt_isr = IsrQueue | IsrPcr | IsrOther nat

record gt_queue =
  cb_proc :: "nat option"
  hw_read_pos :: nat
  hw_write_pos :: nat
  feed_idx :: nat
  irq_count :: u32
  irq_proc :: "nat option"
  mem_addr :: nat
  priv_data :: "nat option"
  qim_irq_count :: u32
  qim_jiffies :: u32
  read_pos :: nat
  q_size :: nat
  write_pos :: nat
  q_pid :: u16
  busy :: bool
  overflow_count :: u8
  qim_mode :: bool
  q_mode :: nat
  running :: bool

record gt_state =
  gt_chip :: gt_chip_type
  gt_mem :: "u8 list"
  queue_list :: "gt_queue list"
  queue_client :: "nat option list"
  queue_size_table :: "nat list"
  ucode :: ucode_state
  msgqueue :: "nat option"
  jiffies :: u32
  kernel_HZ :: u32
  upq :: bool
  qwp :: "nat list list"
  qwp_size :: "nat list"
  qn_int :: "(bool \<times> nat) list"
  aq_rp :: "nat list list"
  aq_wp :: "nat list"
  aq_size :: "nat list"
  clip_bits :: "bool list"
  framer_enable :: bool
  framer_hw :: bool
  force_disc :: bool
  force_stc_reload :: bool
  pcr_pid :: "bool \<times> u16"
  irq_pcr :: nat
  gt_isr_proc_list :: "gt_isr option list"
  irq_unmasked :: "bool list"
  bh_tasks :: "nat list"

definition the_queue :: "nat \<Rightarrow> gt_state \<Rightarrow> gt_queue" where
  "the_queue nr s = queue_list s ! nr"

definition upd_queue :: "nat \<Rightarrow> (gt_queue \<Rightarrow> gt_queue) \<Rightarrow> gt_state \<Rightarrow> gt_state" where
  "upd_queue nr f s = s\<lparr>queue_list := (queue_list s)[nr := f (queue_list s ! nr)]\<rparr>"

definition queue_system_map :: "nat list" where
  "queue_system_map = [2, 0, 1]"

definition avia_gt_dmx_queue_is_system_queue :: "nat \<Rightarrow> bool" where
  "avia_gt_dmx_queue_is_system_queue nr \<longleftrightarrow> nr < AVIA_GT_DMX_QUEUE_USER_START"

definition avia_gt_dmx_get_queue_info :: "nat \<Rightarrow> gt_state \<Rightarrow> gt_queue option" where
  "avia_gt_dmx_get_queue_info nr s = (if nr \<ge> AVIA_GT_DMX_QUEUE_COUNT then None else Some (the_queue nr s))"


section \<open>Interrupt numbers\<close>

definition AVIA_GT_IRQ :: "nat \<Rightarrow> nat \<Rightarrow> nat" where
  "AVIA_GT_IRQ r b = r mod 256 * 256 + b mod 256"

definition AVIA_GT_IRQ_BIT :: "nat \<Rightarrow> nat" where
  "AVIA_GT_IRQ_BIT irq = irq mod 256"

definition AVIA_GT_IRQ_REG :: "nat \<Rightarrow> nat" where
  "AVIA_GT_IRQ_REG irq = irq div 256 mod 256"

definition AVIA_GT_ISR_PROC_NR :: "nat \<Rightarrow> nat \<Rightarrow> nat" where
  "AVIA_GT_ISR_PROC_NR r b = r * 16 + b"

definition isr_nr :: "nat \<Rightarrow> nat" where
  "isr_nr irq = AVIA_GT_ISR_PROC_NR (AVIA_GT_IRQ_REG irq) (AVIA_GT_IRQ_BIT irq)"

definition avia_gt_alloc_irq :: "nat \<Rightarrow> gt_isr \<Rightarrow> gt_state \<Rightarrow> cret \<times> gt_state" where
  "avia_gt_alloc_irq irq isr s =
     (if gt_isr_proc_list s ! isr_nr irq \<noteq> None then (Inl EBUSY, s)
      else (Inr 0, s\<lparr>gt_isr_proc_list := (gt_isr_proc_list s)[isr_nr irq := Some isr],
                     irq_unmasked := (irq_unmasked s)[isr_nr irq := True]\<rparr>))"

definition avia_gt_free_irq :: "nat \<Rightarrow> gt_state \<Rightarrow> gt_state" where
  "avia_gt_free_irq irq s =
     s\<lparr>irq_unmasked := (irq_unmasked s)[isr_nr irq := False],
       gt_isr_proc_list := (gt_isr_proc_list s)[isr_nr irq := None]\<rparr>"

definition avia_gt_dmx_get_queue_irq :: "gt_chip_type \<Rightarrow> nat \<Rightarrow> nat" where
  "avia_gt_dmx_get_queue_irq chip nr =
     (if nr \<ge> AVIA_GT_DMX_QUEUE_COUNT then 0
      else case chip of
        ENX \<Rightarrow> if nr \<ge> 17 then AVIA_GT_IRQ 3 (nr - 16)
               else if nr \<ge> 2 then AVIA_GT_IRQ 4 (nr - 1)
               else AVIA_GT_IRQ 5 (nr + 6)
      | GTX \<Rightarrow> AVIA_GT_IRQ (2 + (if nr div 16 mod 2 = 1 then 1 else 0)) (nr mod 16))"

text \<open>The arithmetic of the decoder is on \<open>u8\<close>.\<close>

definition irq_queue_nr :: "gt_chip_type \<Rightarrow> nat \<Rightarrow> nat" where
  "irq_queue_nr chip irq =
     (let b = AVIA_GT_IRQ_BIT irq; nr = AVIA_GT_IRQ_REG irq in
      case chip of
        ENX \<Rightarrow> if nr = 3 then (b + 16) mod 256
               else if nr = 4 then (b + 1) mod 256
               else if nr = 5 then (b + 250) mod 256
               else AVIA_GT_DMX_QUEUE_COUNT
      | GTX \<Rightarrow> ((nr + 254) mod 256 * 16 + b) mod 256)"


section \<open>Pointer registers\<close>

text \<open>
  Queues 0 to 15 and 16 to 31 share the register addresses; \<open>UPQ\<close> selects the bank.
\<close>

definition avia_gt_dmx_map_queue :: "nat \<Rightarrow> gt_state \<Rightarrow> nat \<times> gt_state" where
  "avia_gt_dmx_map_queue nr s = (nr mod 16, s\<lparr>upq := (nr \<ge> 16)\<rparr>)"

definition bank_reg :: "nat \<Rightarrow> gt_state \<Rightarrow> nat" where
  "bank_reg m s = (if upq s then 16 + m else m)"

text \<open>
  The loop \<open>do ... while (previous != value)\<close> over the values the register delivers. Its first
  comparison is with 0xFFFFFFFF, which no pointer of 22 bits equals: \<open>None\<close> here.
\<close>

fun stable_read :: "nat option \<Rightarrow> nat list \<Rightarrow> nat \<times> nat list" where
  "stable_read prev [] = (0, [])"
| "stable_read prev [v] = (v, [v])"
| "stable_read prev (v # w # vs) = (if prev = Some v then (v, w # vs) else stable_read (Some v) (w # vs))"

text \<open>The two halves of a pointer: 16 bits, and 6 bits below the exponent of the size.\<close>

definition write_qwp :: "nat \<Rightarrow> nat \<Rightarrow> nat \<Rightarrow> gt_state \<Rightarrow> gt_state" where
  "write_qwp m p sz s =
     s\<lparr>qwp := (qwp s)[bank_reg m s := [p div 65536 mod 64 * 65536 + p mod 65536]],
       qwp_size := (qwp_size s)[bank_reg m s := sz]\<rparr>"

definition avia_gt_dmx_queue_set_write_pos :: "nat \<Rightarrow> nat \<Rightarrow> gt_state \<Rightarrow> gt_state" where
  "avia_gt_dmx_queue_set_write_pos nr p s =
     (if nr \<ge> AVIA_GT_DMX_QUEUE_COUNT then s
      else (let (m, s1) = avia_gt_dmx_map_queue nr s
            in write_qwp m (p + mem_addr (the_queue nr s)) (queue_size_table s ! nr) s1))"

definition avia_gt_dmx_queue_get_write_pos :: "nat \<Rightarrow> gt_state \<Rightarrow> nat \<times> gt_state" where
  "avia_gt_dmx_queue_get_write_pos nr s =
     (if nr \<ge> AVIA_GT_DMX_QUEUE_COUNT then (0, s)
      else
       (let q = the_queue nr s;
            (m, s1) = avia_gt_dmx_map_queue nr s;
            r = bank_reg m s1;
            (v, rest) = stable_read None (qwp s1 ! r);
            s2 = s1\<lparr>qwp := (qwp s1)[r := rest]\<rparr>
        in if v < mem_addr q \<or> mem_addr q + q_size q \<le> v
           then (0, avia_gt_dmx_queue_set_write_pos nr 0
                      (upd_queue nr (\<lambda>q. q\<lparr>hw_read_pos := 0, hw_write_pos := 0, read_pos := 0, write_pos := 0\<rparr>) s2))
           else (v - mem_addr q, s2)))"

definition aq_reg :: "nat \<Rightarrow> nat" where
  "aq_reg nr = queue_system_map ! nr"

definition avia_gt_dmx_system_queue_get_read_pos :: "nat \<Rightarrow> gt_state \<Rightarrow> nat \<times> gt_state" where
  "avia_gt_dmx_system_queue_get_read_pos nr s =
     (if \<not> avia_gt_dmx_queue_is_system_queue nr then (0, s)
      else
       (let q = the_queue nr s;
            (v, rest) = stable_read None (aq_rp s ! aq_reg nr);
            s1 = s\<lparr>aq_rp := (aq_rp s)[aq_reg nr := rest]\<rparr>
        in if v < mem_addr q \<or> mem_addr q + q_size q \<le> v then (0, s1) else (v - mem_addr q, s1)))"

definition avia_gt_dmx_system_queue_set_write_pos :: "nat \<Rightarrow> nat \<Rightarrow> gt_state \<Rightarrow> gt_state" where
  "avia_gt_dmx_system_queue_set_write_pos nr p s =
     (if \<not> avia_gt_dmx_queue_is_system_queue nr then s
      else s\<lparr>aq_wp := (aq_wp s)[aq_reg nr := (p + mem_addr (the_queue nr s)) mod 2 ^ 22],
             aq_size := (aq_size s)[aq_reg nr := queue_size_table s ! nr]\<rparr>)"

definition avia_gt_dmx_system_queue_set_read_pos :: "nat \<Rightarrow> nat \<Rightarrow> gt_state \<Rightarrow> gt_state" where
  "avia_gt_dmx_system_queue_set_read_pos nr p s =
     (if \<not> avia_gt_dmx_queue_is_system_queue nr then s
      else s\<lparr>aq_rp := (aq_rp s)[aq_reg nr := [(p + mem_addr (the_queue nr s)) mod 2 ^ 22]]\<rparr>)"

text \<open>The write pointer is stored between the two halves of the read pointer.\<close>

definition avia_gt_dmx_system_queue_set_pos :: "nat \<Rightarrow> nat \<Rightarrow> nat \<Rightarrow> gt_state \<Rightarrow> gt_state" where
  "avia_gt_dmx_system_queue_set_pos nr rp wp s =
     (if \<not> avia_gt_dmx_queue_is_system_queue nr then s
      else
       (let s1 = avia_gt_dmx_system_queue_set_write_pos nr wp s
        in s1\<lparr>aq_rp := (aq_rp s1)[aq_reg nr := [(rp + mem_addr (the_queue nr s)) mod 2 ^ 22]]\<rparr>))"

definition avia_gt_dmx_queue_reset :: "nat \<Rightarrow> gt_state \<Rightarrow> cret \<times> gt_state" where
  "avia_gt_dmx_queue_reset nr s =
     (if nr \<ge> AVIA_GT_DMX_QUEUE_COUNT then (Inl EINVAL, s)
      else
       (let s1 = upd_queue nr (\<lambda>q. q\<lparr>hw_read_pos := 0, hw_write_pos := 0, read_pos := 0, write_pos := 0\<rparr>) s;
            s2 = avia_gt_dmx_queue_set_write_pos nr 0 s1
        in (Inr 0, if avia_gt_dmx_queue_is_system_queue nr
                   then avia_gt_dmx_system_queue_set_pos nr 0 0 s2 else s2)))"

definition avia_gt_dmx_set_queue_irq :: "nat \<Rightarrow> bool \<Rightarrow> nat \<Rightarrow> gt_state \<Rightarrow> gt_state" where
  "avia_gt_dmx_set_queue_irq nr qim block s =
     (let block = (if qim then block else 0); (m, s1) = avia_gt_dmx_map_queue nr s
      in s1\<lparr>qn_int := (qn_int s1)[bank_reg m s1 := (qim, block mod 32)]\<rparr>)"


section \<open>Sharing a system queue\<close>

text \<open>
  \<open>avia_gt_dmx_queue_irq_enable\<close> and \<open>_disable\<close> on a system queue, where they do not look for
  clients; the loop below calls them only there.
\<close>

definition system_queue_irq_disable :: "nat \<Rightarrow> gt_state \<Rightarrow> gt_state" where
  "system_queue_irq_disable nr s =
     avia_gt_free_irq (avia_gt_dmx_get_queue_irq (gt_chip s) nr) (upd_queue nr (\<lambda>q. q\<lparr>running := False\<rparr>) s)"

definition system_queue_irq_enable :: "nat \<Rightarrow> gt_state \<Rightarrow> cret \<times> gt_state" where
  "system_queue_irq_enable nr s =
     avia_gt_alloc_irq (avia_gt_dmx_get_queue_irq (gt_chip s) nr) IsrQueue
       (upd_queue nr (\<lambda>q. q\<lparr>running := True\<rparr>) s)"

text \<open>The first running user queue with the PID and the mode of the system queue.\<close>

definition new_queue_client :: "gt_state \<Rightarrow> nat \<Rightarrow> nat option" where
  "new_queue_client s sys =
     find (\<lambda>nr. running (the_queue nr s) \<and> q_pid (the_queue sys s) \<noteq> 0xFFFF
              \<and> q_pid (the_queue sys s) = q_pid (the_queue nr s)
              \<and> q_mode (the_queue sys s) = q_mode (the_queue nr s))
       [AVIA_GT_DMX_QUEUE_USER_START ..< AVIA_GT_DMX_QUEUE_COUNT]"

definition setup_client :: "nat option \<Rightarrow> nat \<Rightarrow> gt_state \<Rightarrow> gt_state" where
  "setup_client new sys s =
     (let s1 =
       (if new \<noteq> None \<and> queue_client s ! sys = None then
         (let s0 = s\<lparr>queue_client := (queue_client s)[sys := new]\<rparr>;
              (wp, s0) = avia_gt_dmx_queue_get_write_pos sys s0
          in snd (system_queue_irq_enable sys
               (upd_queue sys (\<lambda>q. q\<lparr>hw_write_pos := wp, hw_read_pos := wp, write_pos := wp, read_pos := wp,
                                     overflow_count := 0\<rparr>) s0)))
        else if new = None \<and> queue_client s ! sys \<noteq> None then system_queue_irq_disable sys s
        else s)
      in s1\<lparr>queue_client := (queue_client s1)[sys := new]\<rparr>)"

definition avia_gt_dmx_enable_disable_system_queue_irqs :: "gt_state \<Rightarrow> gt_state" where
  "avia_gt_dmx_enable_disable_system_queue_irqs s =
     fold (\<lambda>sys. setup_client (new_queue_client s sys) sys)
       [AVIA_GT_DMX_QUEUE_VIDEO ..< AVIA_GT_DMX_QUEUE_USER_START] s"

definition avia_gt_dmx_queue_irq_disable :: "nat \<Rightarrow> gt_state \<Rightarrow> gt_state" where
  "avia_gt_dmx_queue_irq_disable nr s =
     (let s1 = upd_queue nr (\<lambda>q. q\<lparr>running := False\<rparr>) s;
          s2 = (if avia_gt_dmx_queue_is_system_queue nr then s1
                else avia_gt_dmx_enable_disable_system_queue_irqs s1)
      in avia_gt_free_irq (avia_gt_dmx_get_queue_irq (gt_chip s) nr) s2)"

definition avia_gt_dmx_queue_irq_enable :: "nat \<Rightarrow> gt_state \<Rightarrow> cret \<times> gt_state" where
  "avia_gt_dmx_queue_irq_enable nr s =
     (let s1 = upd_queue nr (\<lambda>q. q\<lparr>running := True\<rparr>) s;
          s2 = (if avia_gt_dmx_queue_is_system_queue nr then s1
                else avia_gt_dmx_enable_disable_system_queue_irqs s1)
      in avia_gt_alloc_irq (avia_gt_dmx_get_queue_irq (gt_chip s) nr) IsrQueue s2)"


section \<open>Allocation\<close>

definition avia_gt_dmx_alloc_queue ::
  "nat \<Rightarrow> nat option \<Rightarrow> nat option \<Rightarrow> nat option \<Rightarrow> gt_state \<Rightarrow> nat option \<times> gt_state" where
  "avia_gt_dmx_alloc_queue nr irqp cbp priv s =
     (if nr \<ge> AVIA_GT_DMX_QUEUE_COUNT then (None, s)
      else if busy (the_queue nr s) then (None, s)
      else
       (let s1 = upd_queue nr (\<lambda>q. q\<lparr>busy := True, cb_proc := cbp, hw_read_pos := 0, hw_write_pos := 0,
                   irq_count := 0, irq_proc := irqp, priv_data := priv, qim_irq_count := 0,
                   qim_jiffies := jiffies s, qim_mode := False, read_pos := 0, write_pos := 0\<rparr>) s;
            s2 = snd (avia_gt_dmx_queue_reset nr s1)
        in (Some nr, avia_gt_dmx_set_queue_irq nr False 0 s2)))"

definition avia_gt_dmx_alloc_queue_video ::
  "nat option \<Rightarrow> nat option \<Rightarrow> nat option \<Rightarrow> gt_state \<Rightarrow> nat option \<times> gt_state" where
  "avia_gt_dmx_alloc_queue_video = avia_gt_dmx_alloc_queue AVIA_GT_DMX_QUEUE_VIDEO"

definition avia_gt_dmx_alloc_queue_audio ::
  "nat option \<Rightarrow> nat option \<Rightarrow> nat option \<Rightarrow> gt_state \<Rightarrow> nat option \<times> gt_state" where
  "avia_gt_dmx_alloc_queue_audio = avia_gt_dmx_alloc_queue AVIA_GT_DMX_QUEUE_AUDIO"

definition avia_gt_dmx_alloc_queue_teletext ::
  "nat option \<Rightarrow> nat option \<Rightarrow> nat option \<Rightarrow> gt_state \<Rightarrow> nat option \<times> gt_state" where
  "avia_gt_dmx_alloc_queue_teletext = avia_gt_dmx_alloc_queue AVIA_GT_DMX_QUEUE_TELETEXT"

definition avia_gt_dmx_alloc_queue_message ::
  "nat option \<Rightarrow> nat option \<Rightarrow> nat option \<Rightarrow> gt_state \<Rightarrow> nat option \<times> gt_state" where
  "avia_gt_dmx_alloc_queue_message = avia_gt_dmx_alloc_queue AVIA_GT_DMX_QUEUE_MESSAGE"

definition avia_gt_dmx_alloc_queue_user ::
  "nat option \<Rightarrow> nat option \<Rightarrow> nat option \<Rightarrow> gt_state \<Rightarrow> nat option \<times> gt_state" where
  "avia_gt_dmx_alloc_queue_user irqp cbp priv s =
     (case find (\<lambda>nr. \<not> busy (the_queue nr s))
             [AVIA_GT_DMX_QUEUE_USER_START ..< Suc AVIA_GT_DMX_QUEUE_USER_END] of
        None \<Rightarrow> (None, s)
      | Some nr \<Rightarrow> avia_gt_dmx_alloc_queue nr irqp cbp priv s)"

definition avia_gt_dmx_free_queue :: "nat \<Rightarrow> gt_state \<Rightarrow> cret \<times> gt_state" where
  "avia_gt_dmx_free_queue nr s =
     (if nr \<ge> AVIA_GT_DMX_QUEUE_COUNT then (Inl EINVAL, s)
      else if \<not> busy (the_queue nr s) then (Inl EFAULT, s)
      else (Inr 0, upd_queue nr (\<lambda>q. q\<lparr>busy := False, cb_proc := None, irq_count := 0, irq_proc := None,
                                       priv_data := None\<rparr>)
                     (avia_gt_dmx_queue_irq_disable nr s)))"


section \<open>Data access\<close>

definition avia_gt_dmx_queue_get_buf1_ptr :: "gt_queue \<Rightarrow> nat" where
  "avia_gt_dmx_queue_get_buf1_ptr q = mem_addr q + read_pos q"

definition avia_gt_dmx_queue_get_buf2_ptr :: "gt_queue \<Rightarrow> nat" where
  "avia_gt_dmx_queue_get_buf2_ptr q = (if write_pos q \<ge> read_pos q then 0 else mem_addr q)"

definition avia_gt_dmx_queue_get_buf1_size :: "gt_queue \<Rightarrow> nat" where
  "avia_gt_dmx_queue_get_buf1_size q =
     (if write_pos q \<ge> read_pos q then write_pos q - read_pos q else q_size q - read_pos q)"

definition avia_gt_dmx_queue_get_buf2_size :: "gt_queue \<Rightarrow> nat" where
  "avia_gt_dmx_queue_get_buf2_size q = (if write_pos q \<ge> read_pos q then 0 else write_pos q)"

definition avia_gt_dmx_queue_get_bytes_avail :: "gt_queue \<Rightarrow> nat" where
  "avia_gt_dmx_queue_get_bytes_avail q =
     avia_gt_dmx_queue_get_buf1_size q + avia_gt_dmx_queue_get_buf2_size q"

definition avia_gt_dmx_queue_get_bytes_free :: "nat \<Rightarrow> gt_state \<Rightarrow> nat \<times> gt_state" where
  "avia_gt_dmx_queue_get_bytes_free nr s =
     (if \<not> avia_gt_dmx_queue_is_system_queue nr then (0, s)
      else
       (let (rp, s1) = avia_gt_dmx_system_queue_get_read_pos nr s;
            s2 = upd_queue nr (\<lambda>q. q\<lparr>hw_read_pos := rp\<rparr>) s1;
            q = the_queue nr s2
        in (if write_pos q \<ge> hw_read_pos q then (q_size q - write_pos q) + hw_read_pos q - 1
            else (hw_read_pos q - write_pos q) - 1, s2)))"

definition avia_gt_dmx_queue_get_size :: "gt_queue \<Rightarrow> nat" where
  "avia_gt_dmx_queue_get_size q = q_size q"

definition mem_bytes :: "u8 list \<Rightarrow> nat \<Rightarrow> nat \<Rightarrow> u8 list" where
  "mem_bytes mem a n = take n (drop a mem)"

text \<open>The bytes are what a non-null \<open>dest\<close> receives; the count returned is their number.\<close>

definition avia_gt_dmx_queue_data_get :: "nat \<Rightarrow> nat \<Rightarrow> bool \<Rightarrow> gt_state \<Rightarrow> u8 list \<times> gt_state" where
  "avia_gt_dmx_queue_data_get nr count peek s =
     (if nr \<ge> AVIA_GT_DMX_QUEUE_COUNT then ([], s)
      else
       (let q = the_queue nr s;
            count = min count (avia_gt_dmx_queue_get_bytes_avail q);
            wraps = (read_pos q > write_pos q \<and> count \<ge> q_size q - read_pos q);
            ready = (if wraps then q_size q - read_pos q else 0);
            rp = (if wraps then 0 else read_pos q);
            out1 = mem_bytes (gt_mem s) (mem_addr q + read_pos q) ready;
            out2 = mem_bytes (gt_mem s) (mem_addr q + rp) (count - ready)
        in (out1 @ out2, if peek then s else upd_queue nr (\<lambda>q. q\<lparr>read_pos := rp + (count - ready)\<rparr>) s)))"

text \<open>The variants for one value leave it undefined on too few bytes (\<open>None\<close>); the CPU is big-endian.\<close>

definition avia_gt_dmx_queue_data_get8 :: "nat \<Rightarrow> bool \<Rightarrow> gt_state \<Rightarrow> u8 option \<times> gt_state" where
  "avia_gt_dmx_queue_data_get8 nr peek s =
     (case avia_gt_dmx_queue_data_get nr 1 peek s of ([b], s') \<Rightarrow> (Some b, s') | (_, s') \<Rightarrow> (None, s'))"

definition avia_gt_dmx_queue_data_get16 :: "nat \<Rightarrow> bool \<Rightarrow> gt_state \<Rightarrow> u16 option \<times> gt_state" where
  "avia_gt_dmx_queue_data_get16 nr peek s =
     (case avia_gt_dmx_queue_data_get nr 2 peek s of
        ([a, b], s') \<Rightarrow> (Some (ucast a * 256 + ucast b), s') | (_, s') \<Rightarrow> (None, s'))"

definition avia_gt_dmx_queue_data_get32 :: "nat \<Rightarrow> bool \<Rightarrow> gt_state \<Rightarrow> u32 option \<times> gt_state" where
  "avia_gt_dmx_queue_data_get32 nr peek s =
     (case avia_gt_dmx_queue_data_get nr 4 peek s of
        ([a, b, c, d], s') \<Rightarrow> (Some (((ucast a * 256 + ucast b) * 256 + ucast c) * 256 + ucast d), s')
      | (_, s') \<Rightarrow> (None, s'))"

text \<open>\<open>src\<close> is what the copy from user or kernel memory delivers.\<close>

definition avia_gt_dmx_queue_data_put :: "nat \<Rightarrow> u8 list \<Rightarrow> gt_state \<Rightarrow> nat \<times> gt_state" where
  "avia_gt_dmx_queue_data_put nr src s =
     (let (bytes_free, s) = avia_gt_dmx_queue_get_bytes_free nr s in
      if \<not> avia_gt_dmx_queue_is_system_queue nr then (0, s)
      else
       (let q = the_queue nr s;
            count = min (length src) bytes_free;
            wraps = (write_pos q + count \<ge> q_size q);
            ready = (if wraps then q_size q - write_pos q else 0);
            mem1 = (if wraps then blit (gt_mem s) (mem_addr q + write_pos q) (take ready src) else gt_mem s);
            wp = (if wraps then 0 else write_pos q);
            mem2 = blit mem1 (mem_addr q + wp) (take (count - ready) (drop ready src))
        in (count, upd_queue nr (\<lambda>q. q\<lparr>write_pos := wp + (count - ready)\<rparr>) (s\<lparr>gt_mem := mem2\<rparr>))))"

definition avia_gt_dmx_queue_flush :: "nat \<Rightarrow> gt_state \<Rightarrow> gt_state" where
  "avia_gt_dmx_queue_flush nr s = upd_queue nr (\<lambda>q. q\<lparr>read_pos := write_pos q\<rparr>) s"

end
