(* ===== verification/Avia_Gt_Dmx_Irq.thy ===== *)
theory Avia_Gt_Dmx_Irq
  imports Avia_Gt_Dmx
begin

text \<open>
  The rest of \<open>avia_gt_dmx.c\<close>: the queue interrupt with its overflow check, the bottom half with the
  resynchronisation of transport stream queues, starting and stopping queues, writing to the
  decoder queues, the clip mode and the framer, and the layout of the queues in the chip memory.
\<close>

section \<open>The queue interrupt\<close>

text \<open>\<open>time_after(a, b)\<close> of the kernel: the signed difference of two 32-bit tick counts.\<close>

definition time_after :: "u32 \<Rightarrow> u32 \<Rightarrow> bool" where
  "time_after a b \<longleftrightarrow> sint (b - a) < 0"

definition rnd_div :: "nat \<Rightarrow> nat \<Rightarrow> nat" where
  "rnd_div a b = (a + b div 2) div b"

definition avia_gt_dmx_queue_qim_mode_update :: "nat \<Rightarrow> gt_state \<Rightarrow> gt_state" where
  "avia_gt_dmx_queue_qim_mode_update nr s =
     (let q = the_queue nr s; block_pos = rnd_div (hw_write_pos q * 16) (q_size q)
      in avia_gt_dmx_set_queue_irq nr True ((block_pos + 2) mod 16 * 2) s)"

text \<open>Whether the new write position has passed the read position, by the cases of the comment.\<close>

definition irq_overflow :: "nat \<Rightarrow> nat \<Rightarrow> nat \<Rightarrow> bool" where
  "irq_overflow r ow w \<longleftrightarrow>
     r < ow \<and> (r \<le> w \<and> w < ow) \<or> ow < r \<and> (r \<le> w \<or> w < ow)"

definition qim_check :: "nat \<Rightarrow> gt_state \<Rightarrow> gt_state" where
  "qim_check nr s =
     (if qim_mode (the_queue nr s) then avia_gt_dmx_queue_qim_mode_update nr s
      else
       (let s1 = upd_queue nr (\<lambda>q. q\<lparr>qim_irq_count := qim_irq_count q + 1\<rparr>) s in
        if time_after (jiffies s1) (qim_jiffies (the_queue nr s1) + kernel_HZ s1)
        then (let s2 = (if qim_irq_count (the_queue nr s1) > 100
                        then avia_gt_dmx_queue_qim_mode_update nr (upd_queue nr (\<lambda>q. q\<lparr>qim_mode := True\<rparr>) s1)
                        else s1)
              in upd_queue nr (\<lambda>q. q\<lparr>qim_irq_count := 0, qim_jiffies := jiffies s2\<rparr>) s2)
        else s1))"

text \<open>A call of a procedure of the queue's owner: its address, the queue, its data.\<close>

type_synonym proc_call = "nat \<times> nat \<times> nat option"

definition avia_gt_dmx_queue_irq :: "nat \<Rightarrow> gt_state \<Rightarrow> proc_call option \<times> gt_state" where
  "avia_gt_dmx_queue_irq irq s =
     (let nr = irq_queue_nr (gt_chip s) irq in
      if nr \<ge> AVIA_GT_DMX_QUEUE_COUNT then (None, s)
      else if \<not> busy (the_queue nr s) then (None, s)
      else
       (let s1 = upd_queue nr (\<lambda>q. q\<lparr>irq_count := irq_count q + 1\<rparr>) s;
            ow = hw_write_pos (the_queue nr s1);
            (w, s2) = avia_gt_dmx_queue_get_write_pos nr s1;
            s3 = qim_check nr (upd_queue nr (\<lambda>q. q\<lparr>hw_write_pos := w\<rparr>) s2);
            q = the_queue nr s3;
            s4 = (if irq_overflow (read_pos q) ow (hw_write_pos q)
                  then upd_queue nr (\<lambda>q. q\<lparr>overflow_count := overflow_count q + 1\<rparr>) s3 else s3)
        in case irq_proc q of
             Some p \<Rightarrow> (Some (p, nr, priv_data q), s4)
           | None \<Rightarrow> (None, if cb_proc q \<noteq> None then s4\<lparr>bh_tasks := bh_tasks s4 @ [nr]\<rparr> else s4)))"

definition avia_gt_dmx_fake_queue_irq :: "nat \<Rightarrow> gt_state \<Rightarrow> gt_state" where
  "avia_gt_dmx_fake_queue_irq nr s =
     (if nr \<ge> AVIA_GT_DMX_QUEUE_COUNT then s
      else (upd_queue nr (\<lambda>q. q\<lparr>irq_count := irq_count q + 1\<rparr>) s)\<lparr>bh_tasks := bh_tasks s @ [nr]\<rparr>)"


section \<open>The bottom half\<close>

text \<open>\<open>struct ts_header\<close>: the sync byte and the PID of the first four bytes.\<close>

definition ts_head_ok :: "u16 \<Rightarrow> u16 \<Rightarrow> u8 list \<Rightarrow> bool" where
  "ts_head_ok pid1 pid2 ts \<longleftrightarrow>
     ts ! 0 = 0x47 \<and> (let pid = (ucast (ts ! 1) AND 0x1f) * 256 + ucast (ts ! 2) in pid = pid1 \<or> pid = pid2)"

fun resync :: "nat \<Rightarrow> u16 \<Rightarrow> u16 \<Rightarrow> nat \<Rightarrow> gt_state \<Rightarrow> nat \<times> gt_state" where
  "resync nr pid1 pid2 avail s =
     (if avail \<ge> 188 then
       (let s1 = snd (avia_gt_dmx_queue_data_get nr 1 False s);
            ts = fst (avia_gt_dmx_queue_data_get nr 4 True s1)
        in if ts_head_ok pid1 pid2 ts then (avail - 1, s1) else resync nr pid1 pid2 (avail - 1) s1)
      else (avail, s))"

text \<open>
  The PIDs of a transport stream queue. \<open>junk\<close> is the value the uninitialised \<open>pid2\<close> has on the
  stack, which remains when the video queue is in transport stream mode without any PID.
\<close>

definition ts_queue_pids :: "u16 \<Rightarrow> nat \<Rightarrow> gt_state \<Rightarrow> u16 \<times> u16" where
  "ts_queue_pids junk nr s =
     (if nr = AVIA_GT_DMX_QUEUE_VIDEO then
       (let v = q_pid (the_queue AVIA_GT_DMX_QUEUE_VIDEO s);
            a = q_pid (the_queue AVIA_GT_DMX_QUEUE_AUDIO s);
            (pid1, pid2) = (if v \<noteq> 0xFFFF then (v, v) else (0xFFFF, junk))
        in if a \<noteq> 0xFFFF then (if pid1 = 0xFFFF then a else pid1, a) else (pid1, pid2))
      else (q_pid (the_queue nr s), q_pid (the_queue nr s)))"

text \<open>The result of the synchronisation: whether the callback is due.\<close>

definition ts_queue_sync :: "u16 \<Rightarrow> nat \<Rightarrow> gt_state \<Rightarrow> bool \<times> gt_state" where
  "ts_queue_sync junk nr s =
     (let (pid1, pid2) = ts_queue_pids junk nr s;
          avail = avia_gt_dmx_queue_get_bytes_avail (the_queue nr s)
      in if avail < 188 then (False, s)
         else if ts_head_ok pid1 pid2 (fst (avia_gt_dmx_queue_data_get nr 4 True s)) then (True, s)
         else (let (avail', s') = resync nr pid1 pid2 avail s in (188 \<le> avail', s')))"

definition avia_gt_dmx_bh_task :: "u16 \<Rightarrow> nat \<Rightarrow> gt_state \<Rightarrow> proc_call option \<times> gt_state" where
  "avia_gt_dmx_bh_task junk nr s =
     (if nr \<ge> AVIA_GT_DMX_QUEUE_COUNT then (None, s)
      else
       (let s1 = upd_queue nr (\<lambda>q. q\<lparr>write_pos := hw_write_pos q\<rparr>) s; q = the_queue nr s1 in
        if overflow_count q \<noteq> 0
        then (None, upd_queue nr (\<lambda>q. q\<lparr>overflow_count := 0, write_pos := hw_write_pos q, read_pos := hw_write_pos q\<rparr>) s1)
        else if nr = AVIA_GT_DMX_QUEUE_MESSAGE
        then (map_option (\<lambda>p. (p, nr, priv_data q)) (cb_proc q), s1)
        else
         (let (due, s2) = (if q_mode q = TS then ts_queue_sync junk nr s1 else (True, s1));
              owner = (if nr < AVIA_GT_DMX_QUEUE_USER_START \<and> queue_client s2 ! nr \<noteq> None
                       then the_queue (the (queue_client s2 ! nr)) s2 else the_queue nr s2)
          in (if due then map_option (\<lambda>p. (p, nr, priv_data owner)) (cb_proc owner) else None, s2))))"


section \<open>Starting and stopping queues\<close>

text \<open>In transport stream mode the video queue is doubled, over the memory of the audio queue.\<close>

definition avia_gt_dmx_queue_start :: "nat \<Rightarrow> nat \<Rightarrow> u16 \<Rightarrow> gt_state \<Rightarrow> cret \<times> gt_state" where
  "avia_gt_dmx_queue_start nr qmode pid s =
     (if nr \<ge> AVIA_GT_DMX_QUEUE_COUNT then (Inl EINVAL, s)
      else
       (let s1 =
         (if nr = AVIA_GT_DMX_QUEUE_VIDEO then
           (let e = (if qmode = TS then 11 else 10)
            in upd_queue nr (\<lambda>q. q\<lparr>q_size := 2 ^ e * 64\<rparr>) (s\<lparr>queue_size_table := (queue_size_table s)[0 := e]\<rparr>))
          else s);
            s2 = snd (avia_gt_dmx_queue_reset nr s1);
            s3 = upd_queue nr (\<lambda>q. q\<lparr>q_pid := pid, q_mode := qmode\<rparr>) s2;
            s4 = (if avia_gt_dmx_queue_is_system_queue nr
                  then avia_gt_dmx_enable_disable_system_queue_irqs s3 else s3)
        in (Inr 0, s4\<lparr>ucode := prop_ucode_start_queue_feeds nr (ucode s4)\<rparr>)))"

definition avia_gt_dmx_queue_stop :: "nat \<Rightarrow> gt_state \<Rightarrow> cret \<times> gt_state" where
  "avia_gt_dmx_queue_stop nr s =
     (if nr \<ge> AVIA_GT_DMX_QUEUE_COUNT then (Inl EINVAL, s)
      else
       (let s1 = avia_gt_dmx_queue_irq_disable nr (upd_queue nr (\<lambda>q. q\<lparr>q_pid := 0xFFFF\<rparr>) s)
        in (Inr 0, s1\<lparr>ucode := prop_ucode_stop_queue_feeds nr True (ucode s1)\<rparr>)))"

definition avia_gt_dmx_tap :: "nat \<Rightarrow> bool \<Rightarrow> gt_state \<Rightarrow> gt_state" where
  "avia_gt_dmx_tap nr start s =
     (if start then s\<lparr>ucode := prop_ucode_start_feed (feed_idx (the_queue nr s)) True (ucode s)\<rparr>
      else s\<lparr>ucode := prop_ucode_stop_feed (feed_idx (the_queue nr s)) False (ucode s)\<rparr>)"

definition avia_gt_dmx_force_discontinuity :: "gt_state \<Rightarrow> gt_state" where
  "avia_gt_dmx_force_discontinuity s = s\<lparr>force_stc_reload := True, force_disc := True\<rparr>"

definition avia_gt_dmx_set_pcr_pid :: "bool \<Rightarrow> u16 \<Rightarrow> gt_state \<Rightarrow> gt_state" where
  "avia_gt_dmx_set_pcr_pid enable pid s =
     (let s1 = avia_gt_free_irq (irq_pcr s) (s\<lparr>pcr_pid := (enable, pid)\<rparr>)
      in avia_gt_dmx_force_discontinuity (snd (avia_gt_alloc_irq (irq_pcr s) IsrPcr s1)))"


section \<open>Framer and clip mode\<close>

definition avia_gt_dmx_enable_disable_framer :: "bool \<Rightarrow> gt_state \<Rightarrow> gt_state" where
  "avia_gt_dmx_enable_disable_framer enable s =
     (let s1 = s\<lparr>framer_enable := enable\<rparr> in if enable then s1\<lparr>framer_hw := True\<rparr> else s1)"

definition avia_gt_dmx_enable_framer :: "gt_state \<Rightarrow> gt_state" where
  "avia_gt_dmx_enable_framer = avia_gt_dmx_enable_disable_framer True"

definition avia_gt_dmx_disable_framer :: "gt_state \<Rightarrow> gt_state" where
  "avia_gt_dmx_disable_framer = avia_gt_dmx_enable_disable_framer False"

text \<open>\<open>clip_bits\<close> are the bits VCP, ACP and TCP of the configuration register.\<close>

definition avia_gt_dmx_enable_disable_clip_mode :: "nat \<Rightarrow> bool \<Rightarrow> gt_state \<Rightarrow> cret \<times> gt_state" where
  "avia_gt_dmx_enable_disable_clip_mode nr enable s =
     (if nr \<in> {AVIA_GT_DMX_QUEUE_VIDEO, AVIA_GT_DMX_QUEUE_AUDIO, AVIA_GT_DMX_QUEUE_TELETEXT}
      then (Inr 0, avia_gt_dmx_enable_disable_framer (\<not> enable) (s\<lparr>clip_bits := (clip_bits s)[nr := enable]\<rparr>))
      else if nr = AVIA_GT_DMX_SYSTEM_QUEUES
      then (Inr 0, avia_gt_dmx_enable_disable_framer (\<not> enable)
                     (s\<lparr>clip_bits := (clip_bits s)[0 := enable, 1 := enable, 2 := enable]\<rparr>))
      else (Inl EINVAL, s))"

definition avia_gt_dmx_enable_clip_mode :: "nat \<Rightarrow> gt_state \<Rightarrow> cret \<times> gt_state" where
  "avia_gt_dmx_enable_clip_mode nr = avia_gt_dmx_enable_disable_clip_mode nr True"

definition avia_gt_dmx_disable_clip_mode :: "nat \<Rightarrow> gt_state \<Rightarrow> cret \<times> gt_state" where
  "avia_gt_dmx_disable_clip_mode nr = avia_gt_dmx_enable_disable_clip_mode nr False"


section \<open>Writing to a decoder\<close>

text \<open>
  The wait for room. Each poll reads the decoder's read pointer again; once the pointer does not move
  any more and there is too little room, a blocking caller polls for ever (\<open>Deadlock\<close>): a signal
  does not end the loop. \<open>None\<close> is the return of a non-blocking caller.
\<close>

function wait_bytes_free :: "nat \<Rightarrow> nat \<Rightarrow> bool \<Rightarrow> gt_state \<Rightarrow> gt_state option outcome" where
  "wait_bytes_free nr n nonblock s =
     (let (free, s1) = avia_gt_dmx_queue_get_bytes_free nr s in
      if n \<le> free then Returns (Some s1)
      else if nonblock then Returns None
      else if length (aq_rp s1 ! aq_reg nr) < length (aq_rp s ! aq_reg nr)
      then wait_bytes_free nr n nonblock s1
      else Deadlock)"
  by pat_completeness auto
termination by (relation "measure (\<lambda>(nr, n, b, s). length (aq_rp s ! aq_reg nr))") auto

text \<open>\<open>EWOULDBLOCK\<close> is the kernel's other name of \<open>EAGAIN\<close>.\<close>

function queue_write_loop :: "nat \<Rightarrow> nat \<Rightarrow> u8 list \<Rightarrow> bool \<Rightarrow> nat \<Rightarrow> gt_state \<Rightarrow> (cret \<times> gt_state) outcome" where
  "queue_write_loop nr queue_size buf nonblock written s =
     (if buf = [] then Returns (Inr written, s)
      else
       (let n = min (length buf) queue_size in
        if n = 0 then Deadlock
        else
          case wait_bytes_free nr n nonblock s of
            Returns None \<Rightarrow>
              Returns (if written \<noteq> 0 then Inr written else Inl EWOULDBLOCK,
                       snd (avia_gt_dmx_queue_get_bytes_free nr s))
          | Returns (Some s1) \<Rightarrow>
              (let s2 = snd (avia_gt_dmx_queue_data_put nr (take n buf) s1);
                   s3 = avia_gt_dmx_system_queue_set_write_pos nr (write_pos (the_queue nr s2)) s2
               in queue_write_loop nr queue_size (drop n buf) nonblock (written + n) s3)
          | Deadlock \<Rightarrow> Deadlock
          | Fault \<Rightarrow> Fault))"
  by pat_completeness auto
termination by (relation "measure (\<lambda>(nr, qs, buf, b, w, s). length buf)") auto

definition avia_gt_dmx_queue_write :: "nat \<Rightarrow> u8 list \<Rightarrow> bool \<Rightarrow> gt_state \<Rightarrow> (cret \<times> gt_state) outcome" where
  "avia_gt_dmx_queue_write nr buf nonblock s =
     (if \<not> avia_gt_dmx_queue_is_system_queue nr then Returns (Inl EINVAL, s)
      else if buf = [] then Returns (Inr 0, s)
      else queue_write_loop nr (q_size (the_queue nr s) - 1) buf nonblock 0 s)"

definition avia_gt_dmx_queue_nr_get_bytes_free :: "nat \<Rightarrow> gt_state \<Rightarrow> cret \<times> gt_state" where
  "avia_gt_dmx_queue_nr_get_bytes_free nr s =
     (if avia_gt_dmx_get_queue_info nr s = None then (Inl EINVAL, s)
      else (let (free, s1) = avia_gt_dmx_queue_get_bytes_free nr s in (Inr free, s1)))"


section \<open>Initialisation\<close>

text \<open>The memory map for the configured parts of the driver.\<close>

definition AVIA_GT_MEM_ALIGN :: "nat \<Rightarrow> nat" where
  "AVIA_GT_MEM_ALIGN a = (a + 3) div 4 * 4"

definition AVIA_GT_MEM_GV_SIZE :: "bool \<Rightarrow> nat" where
  "AVIA_GT_MEM_GV_SIZE gv = (if gv then 720 * 576 * 2 else 0)"

definition AVIA_GT_MEM_CAPTURE_SIZE :: "bool \<Rightarrow> nat" where
  "AVIA_GT_MEM_CAPTURE_SIZE capture = (if capture then 720 * 576 div 2 else 0)"

definition AVIA_GT_MEM_CAPTURE_OFFS :: "bool \<Rightarrow> nat" where
  "AVIA_GT_MEM_CAPTURE_OFFS gv = AVIA_GT_MEM_ALIGN (AVIA_GT_MEM_ALIGN 0 + AVIA_GT_MEM_GV_SIZE gv)"

definition AVIA_GT_MEM_DMX_OFFS :: "bool \<Rightarrow> bool \<Rightarrow> nat" where
  "AVIA_GT_MEM_DMX_OFFS gv capture =
     AVIA_GT_MEM_ALIGN (AVIA_GT_MEM_CAPTURE_OFFS gv + AVIA_GT_MEM_CAPTURE_SIZE capture)"

definition AVIA_GT_MEM_DMX_SIZE :: nat where
  "AVIA_GT_MEM_DMX_SIZE = 816 * 1024"

definition initial_queue_size_table :: "nat list" where
  "initial_queue_size_table =
     [10, 10, 9, 9, 10, 11, 10, 10,
      8, 8, 8, 8, 8, 8, 8, 8,
      8, 8, 8, 7, 7, 7, 7, 7,
      7, 7, 7, 7, 7, 7, 7, 8]"

text \<open>\<open>addr & (size - 1)\<close> and \<open>& ~(size - 1)\<close> for a size that is a power of two.\<close>

definition align_queue :: "nat \<Rightarrow> nat \<Rightarrow> nat" where
  "align_queue addr sz = (if addr mod sz \<noteq> 0 then (addr + sz) div sz * sz else addr)"

definition init_queue :: "nat \<Rightarrow> nat \<times> gt_state \<Rightarrow> nat \<times> gt_state" where
  "init_queue nr = (\<lambda>(queue_addr, s).
     (let sz = 2 ^ (queue_size_table s ! nr) * 64;
          addr = align_queue queue_addr sz;
          s1 = upd_queue nr (\<lambda>q. q\<lparr>q_size := sz, mem_addr := addr, q_pid := 0xFFFF, running := False\<rparr>) s;
          s2 = (if avia_gt_dmx_queue_is_system_queue nr then avia_gt_dmx_system_queue_set_pos nr 0 0 s1 else s1);
          s3 = avia_gt_dmx_queue_set_write_pos nr 0 s2;
          s4 = avia_gt_dmx_set_queue_irq nr False 0 s3
      in (addr + sz, avia_gt_dmx_queue_irq_disable nr s4)))"

definition gt_queue0 :: gt_queue where
  "gt_queue0 = \<lparr>cb_proc = None, hw_read_pos = 0, hw_write_pos = 0, feed_idx = 0, irq_count = 0, irq_proc = None,
     mem_addr = 0, priv_data = None, qim_irq_count = 0, qim_jiffies = 0, read_pos = 0, q_size = 0, write_pos = 0,
     q_pid = 0, busy = False, overflow_count = 0, qim_mode = False, q_mode = 0, running = False\<rparr>"

text \<open>\<open>handle_msgq\<close> is the address of the handler of the microcode's messages.\<close>

definition avia_gt_dmx_init :: "nat \<Rightarrow> nat \<Rightarrow> ucode_image \<Rightarrow> bool \<Rightarrow> gt_state \<Rightarrow> (cret \<times> gt_state) option" where
  "avia_gt_dmx_init base handle_msgq img hw_sections s = do {
     u \<leftarrow> avia_gt_dmx_risc_init img (\<not> hw_sections) (ucode s);
     let s0 = s\<lparr>ucode := u, queue_list := replicate AVIA_GT_DMX_QUEUE_COUNT gt_queue0\<rparr>;
     let s1 = snd (fold init_queue [0 ..< AVIA_GT_DMX_QUEUE_COUNT] (base, s0));
     if CAP_MSGQ \<in> set (caps u)
     then (case avia_gt_dmx_alloc_queue_message None (Some handle_msgq) None s1 of
             (None, s2) \<Rightarrow> Some (Inr 0, s2\<lparr>msgqueue := None\<rparr>)
           | (Some nr, s2) \<Rightarrow> Some (Inr 0, snd (avia_gt_dmx_queue_irq_enable nr (s2\<lparr>msgqueue := Some nr\<rparr>))))
     else Some (Inr 0, s1)
   }"

definition avia_gt_dmx_exit :: "gt_state \<Rightarrow> gt_state" where
  "avia_gt_dmx_exit s =
     (case msgqueue s of Some nr \<Rightarrow> snd (avia_gt_dmx_free_queue nr s) | None \<Rightarrow> s)"

end
