(* ===== verification/Avia_Gt_Queue.thy ===== *)
theory Avia_Gt_Queue
  imports Avia_Gt_Dmx_Irq
begin

text \<open>
  A queue of the demultiplexer as a source of bytes. The region of a queue in the chip memory with its
  two positions is a circular buffer (\<open>Ring_Arith\<close>); the interface that \<open>struct avia_gt_dmx_queue\<close>
  offers to its clients is the locale \<open>byte_source\<close>, which the access functions of every queue
  satisfy. On it rest the facts on the interrupt and the bottom half: what the chip has written
  reaches the owner of the queue unless it overran the reader, and then the queue is emptied; a
  transport stream queue is handed out at the first packet header.
\<close>

section \<open>The interface of a queue\<close>

locale byte_source =
  fixes inv :: "'s \<Rightarrow> bool"
    and contents :: "'s \<Rightarrow> 'b list"
    and avail :: "'s \<Rightarrow> nat"
    and get :: "nat \<Rightarrow> bool \<Rightarrow> 's \<Rightarrow> 'b list \<times> 's"
  assumes avail_length: "inv s \<Longrightarrow> avail s = length (contents s)"
    and get_out: "inv s \<Longrightarrow> fst (get n p s) = take n (contents s)"
    and peek_same: "snd (get n True s) = s"
    and get_inv: "inv s \<Longrightarrow> inv (snd (get n False s))"
    and get_rest: "inv s \<Longrightarrow> contents (snd (get n False s)) = drop n (contents s)"
begin

text \<open>Dropping bytes one by one.\<close>

lemma skip_inv: "inv s \<Longrightarrow> inv (((\<lambda>s. snd (get (Suc 0) False s)) ^^ k) s)"
  by (induction k) (simp_all add: get_inv)

lemma skip_rest: "inv s \<Longrightarrow> contents (((\<lambda>s. snd (get (Suc 0) False s)) ^^ k) s) = drop k (contents s)"
  by (induction k) (simp_all add: get_rest skip_inv)

lemma skip_avail: "inv s \<Longrightarrow> avail (((\<lambda>s. snd (get (Suc 0) False s)) ^^ k) s) = avail s - k"
  by (simp add: avail_length skip_inv skip_rest)

text \<open>A read in two parts is one read.\<close>

lemma get_get:
  assumes "inv s"
  shows "fst (get m False s) @ fst (get n False (snd (get m False s))) = fst (get (m + n) False s)"
  using assms by (simp add: get_out get_inv get_rest take_add)

lemma get_length: "inv s \<Longrightarrow> length (fst (get n p s)) = min n (avail s)"
  by (simp add: get_out avail_length min.commute)

end


section \<open>Queues as circular buffers\<close>

definition queue_ok :: "gt_state \<Rightarrow> gt_queue \<Rightarrow> bool" where
  "queue_ok s q \<longleftrightarrow> read_pos q < q_size q \<and> write_pos q < q_size q \<and> hw_write_pos q < q_size q
     \<and> mem_addr q + q_size q \<le> length (gt_mem s)"

definition region :: "gt_state \<Rightarrow> gt_queue \<Rightarrow> u8 list" where
  "region s q = mem_bytes (gt_mem s) (mem_addr q) (q_size q)"

definition queue_contents :: "nat \<Rightarrow> gt_state \<Rightarrow> u8 list" where
  "queue_contents nr s = ring_contents (region s (the_queue nr s)) (read_pos (the_queue nr s)) (write_pos (the_queue nr s))"

definition gt_queue_inv :: "nat \<Rightarrow> gt_state \<Rightarrow> bool" where
  "gt_queue_inv nr s \<longleftrightarrow> nr < AVIA_GT_DMX_QUEUE_COUNT \<and> nr < length (queue_list s) \<and> queue_ok s (the_queue nr s)"

definition queue_avail :: "nat \<Rightarrow> gt_state \<Rightarrow> nat" where
  "queue_avail nr s = avia_gt_dmx_queue_get_bytes_avail (the_queue nr s)"

lemma the_queue_upd [simp]:
  "nr < length (queue_list s) \<Longrightarrow> the_queue nr (upd_queue nr f s) = f (the_queue nr s)"
  "nr \<noteq> k \<Longrightarrow> the_queue k (upd_queue nr f s) = the_queue k s"
  by (simp_all add: the_queue_def upd_queue_def)

lemma upd_queue_frame [simp]:
  "gt_mem (upd_queue nr f s) = gt_mem s" "length (queue_list (upd_queue nr f s)) = length (queue_list s)"
  "queue_client (upd_queue nr f s) = queue_client s" "gt_chip (upd_queue nr f s) = gt_chip s"
  "qwp (upd_queue nr f s) = qwp s" "upq (upd_queue nr f s) = upq s" "jiffies (upd_queue nr f s) = jiffies s"
  "queue_size_table (upd_queue nr f s) = queue_size_table s" "ucode (upd_queue nr f s) = ucode s"
  "aq_rp (upd_queue nr f s) = aq_rp s" "aq_wp (upd_queue nr f s) = aq_wp s"
  "bh_tasks (upd_queue nr f s) = bh_tasks s" "gt_isr_proc_list (upd_queue nr f s) = gt_isr_proc_list s"
  "kernel_HZ (upd_queue nr f s) = kernel_HZ s"
  by (simp_all add: upd_queue_def)

lemma upd_queue_upd [simp]: "upd_queue nr f (upd_queue nr g s) = upd_queue nr (\<lambda>q. f (g q)) s"
  by (cases "nr < length (queue_list s)") (simp_all add: upd_queue_def list_update_beyond)

lemma length_region: "mem_addr q + q_size q \<le> length (gt_mem s) \<Longrightarrow> length (region s q) = q_size q"
  by (simp add: region_def mem_bytes_def)

lemma region_bytes:
  assumes "mem_addr q + q_size q \<le> length (gt_mem s)" "a + n \<le> q_size q"
  shows "mem_bytes (gt_mem s) (mem_addr q + a) n = take n (drop a (region s q))"
  using assms by (simp add: region_def mem_bytes_def drop_take add.commute)

lemma bytes_avail_dist:
  "queue_ok s q \<Longrightarrow> avia_gt_dmx_queue_get_bytes_avail q = ring_dist (q_size q) (read_pos q) (write_pos q)"
  by (auto simp: queue_ok_def avia_gt_dmx_queue_get_bytes_avail_def avia_gt_dmx_queue_get_buf1_size_def
      avia_gt_dmx_queue_get_buf2_size_def ring_dist_def)

lemma length_queue_contents:
  "gt_queue_inv nr s \<Longrightarrow> length (queue_contents nr s) = queue_avail nr s"
  using bytes_avail_dist [of s "the_queue nr s"]
  by (simp add: queue_contents_def queue_avail_def gt_queue_inv_def length_region queue_ok_def)

text \<open>The position after a read of \<open>n\<close> bytes, and what is read.\<close>

lemma data_get_effect:
  fixes count :: nat
  assumes inv: "gt_queue_inv nr s"
  defines "n \<equiv> min count (queue_avail nr s)" and "q \<equiv> the_queue nr s"
  shows "fst (avia_gt_dmx_queue_data_get nr count peek s) = take n (queue_contents nr s)"
    and "snd (avia_gt_dmx_queue_data_get nr count peek s)
      = (if peek then s else upd_queue nr (\<lambda>q. q\<lparr>read_pos := (read_pos q + n) mod q_size q\<rparr>) s)"
proof -
  have nr: "nr < AVIA_GT_DMX_QUEUE_COUNT" and ok: "queue_ok s q"
    using inv by (simp_all add: gt_queue_inv_def q_def)
  let ?r = "read_pos q" and ?w = "write_pos q" and ?N = "q_size q"
  have bounds: "?r < ?N" "?w < ?N" "mem_addr q + ?N \<le> length (gt_mem s)"
    using ok by (simp_all add: queue_ok_def)
  have dist: "avia_gt_dmx_queue_get_bytes_avail q = ring_dist ?N ?r ?w"
    using ok by (rule bytes_avail_dist)
  have n: "n = min count (ring_dist ?N ?r ?w)" by (simp add: n_def queue_avail_def q_def [symmetric] dist)
  then have n_le: "n \<le> ring_dist ?N ?r ?w" by simp
  define wraps where "wraps \<longleftrightarrow> ?w < ?r \<and> ?N - ?r \<le> n"
  define ready where "ready = (if wraps then ?N - ?r else 0)"
  define rp where "rp = (if wraps then 0 else ?r)"
  have get: "avia_gt_dmx_queue_data_get nr count peek s =
    (mem_bytes (gt_mem s) (mem_addr q + ?r) ready @ mem_bytes (gt_mem s) (mem_addr q + rp) (n - ready),
     if peek then s else upd_queue nr (\<lambda>q. q\<lparr>read_pos := rp + (n - ready)\<rparr>) s)"
    using nr unfolding rp_def ready_def wraps_def n
    by (simp add: avia_gt_dmx_queue_data_get_def q_def [symmetric] dist Let_def)
  have len: "length (region s q) = ?N" using bounds by (simp add: length_region)
  have fits: "?r + ready \<le> ?N" "rp + (n - ready) \<le> ?N"
    using bounds n_le by (auto simp: ready_def rp_def wraps_def ring_dist_def split: if_splits)
  have "take n (queue_contents nr s) =
    (if ?r + n \<le> ?N then take n (drop ?r (region s q)) else drop ?r (region s q) @ take (n - (?N - ?r)) (region s q))"
    using take_ring_contents [of ?r "region s q" ?w n] bounds n_le
    by (simp add: queue_contents_def q_def [symmetric] len)
  also have "\<dots> = take ready (drop ?r (region s q)) @ take (n - ready) (drop rp (region s q))"
    using bounds n_le len by (auto simp: ready_def rp_def wraps_def ring_dist_def split: if_splits)
  finally show "fst (avia_gt_dmx_queue_data_get nr count peek s) = take n (queue_contents nr s)"
    using fits bounds by (simp add: get region_bytes)
  have "rp + (n - ready) = (?r + n) mod ?N"
    using bounds n_le by (auto simp: rp_def ready_def wraps_def ring_dist_def mod_less_double split: if_splits)
  then show "snd (avia_gt_dmx_queue_data_get nr count peek s)
      = (if peek then s else upd_queue nr (\<lambda>q. q\<lparr>read_pos := (read_pos q + n) mod q_size q\<rparr>) s)"
    by (simp add: get upd_queue_def the_queue_def [symmetric] q_def [symmetric])
qed

lemma data_get_inv: "gt_queue_inv nr s \<Longrightarrow> gt_queue_inv nr (snd (avia_gt_dmx_queue_data_get nr n False s))"
  by (auto simp: data_get_effect gt_queue_inv_def queue_ok_def)

lemma data_get_rest:
  assumes inv: "gt_queue_inv nr s"
  shows "queue_contents nr (snd (avia_gt_dmx_queue_data_get nr n False s)) = drop n (queue_contents nr s)"
proof -
  let ?q = "the_queue nr s" and ?n = "min n (queue_avail nr s)"
  have ok: "queue_ok s ?q" "nr < length (queue_list s)" using inv by (simp_all add: gt_queue_inv_def)
  have len: "length (region s ?q) = q_size ?q" using ok by (simp add: queue_ok_def length_region)
  have "?n \<le> ring_dist (q_size ?q) (read_pos ?q) (write_pos ?q)"
    using ok by (simp add: queue_avail_def bytes_avail_dist)
  then have "ring_contents (region s ?q) ((read_pos ?q + ?n) mod q_size ?q) (write_pos ?q)
      = drop ?n (queue_contents nr s)"
    using ring_contents_advance [of "read_pos ?q" "region s ?q" "write_pos ?q" ?n] ok len
    by (simp add: queue_contents_def queue_ok_def)
  moreover have "drop ?n (queue_contents nr s) = drop n (queue_contents nr s)"
    using length_queue_contents [OF inv] by (simp add: min_def)
  ultimately show ?thesis
    using ok inv by (simp add: data_get_effect queue_contents_def region_def)
qed

interpretation gtq: byte_source "gt_queue_inv nr" "queue_contents nr" "queue_avail nr"
    "avia_gt_dmx_queue_data_get nr" for nr
proof unfold_locales
  fix s n p
  assume inv: "gt_queue_inv nr s"
  show "queue_avail nr s = length (queue_contents nr s)" using inv by (simp add: length_queue_contents)
  show "fst (avia_gt_dmx_queue_data_get nr n p s) = take n (queue_contents nr s)"
    using inv by (simp add: data_get_effect length_queue_contents [symmetric] min_def)
  show "gt_queue_inv nr (snd (avia_gt_dmx_queue_data_get nr n False s))" using inv by (rule data_get_inv)
  show "queue_contents nr (snd (avia_gt_dmx_queue_data_get nr n False s)) = drop n (queue_contents nr s)"
    using inv by (rule data_get_rest)
next
  show "snd (avia_gt_dmx_queue_data_get nr n True s) = s" for n s
    by (simp add: avia_gt_dmx_queue_data_get_def Let_def)
qed


section \<open>Synchronisation of transport stream queues\<close>

definition head_at :: "u16 \<Rightarrow> u16 \<Rightarrow> u8 list \<Rightarrow> nat \<Rightarrow> bool" where
  "head_at pid1 pid2 c k \<longleftrightarrow> ts_head_ok pid1 pid2 (take 4 (drop k c))"

declare resync.simps [simp del]

lemma resync_effect:
  assumes "resync nr p1 p2 avail s = (a', s')" "gt_queue_inv nr s" "avail = queue_avail nr s" "188 \<le> avail"
  obtains k where "0 < k" "k + 187 \<le> avail" "a' = avail - k" "gt_queue_inv nr s'"
    "queue_contents nr s' = drop k (queue_contents nr s)"
    "\<And>j. 0 < j \<Longrightarrow> j < k \<Longrightarrow> \<not> head_at p1 p2 (queue_contents nr s) j"
    "head_at p1 p2 (queue_contents nr s) k \<or> k + 187 = avail"
  using assms
proof (induction avail arbitrary: s thesis rule: less_induct)
  case (less avail)
  define s1 where "s1 = snd (avia_gt_dmx_queue_data_get nr (Suc 0) False s)"
  have inv1: "gt_queue_inv nr s1" using less.prems(3) by (simp add: s1_def gtq.get_inv)
  have c1: "queue_contents nr s1 = drop 1 (queue_contents nr s)"
    using less.prems(3) by (simp add: s1_def gtq.get_rest)
  have a1: "queue_avail nr s1 = avail - 1"
    using less.prems(3,4) inv1 c1 by (simp add: length_queue_contents [symmetric])
  have peek: "fst (avia_gt_dmx_queue_data_get nr 4 True s1) = take 4 (drop 1 (queue_contents nr s))"
    using gtq.get_out [OF inv1] by (simp add: c1)
  have step: "resync nr p1 p2 avail s =
    (if head_at p1 p2 (queue_contents nr s) 1 then (avail - 1, s1) else resync nr p1 p2 (avail - 1) s1)"
    using less.prems(5) by (subst resync.simps) (simp add: s1_def [symmetric] peek [simplified] head_at_def Let_def)
  show thesis
  proof (cases "head_at p1 p2 (queue_contents nr s) 1")
    case True
    then show thesis
      using less.prems step inv1 c1 by (intro less.prems(1) [of 1]) auto
  next
    case False
    then have rec: "resync nr p1 p2 (avail - 1) s1 = (a', s')" using less.prems(2) step by simp
    show thesis
    proof (cases "188 \<le> avail - 1")
      case True
      have shift: "head_at p1 p2 (queue_contents nr s1) j = head_at p1 p2 (queue_contents nr s) (Suc j)" for j
        by (simp add: head_at_def c1 drop_drop [symmetric])
      have lt: "avail - 1 < avail" using less.prems(5) by linarith
      show thesis
      proof (rule less.IH [OF lt _ rec inv1 a1 [symmetric] True])
        fix k
        assume k: "0 < k" "k + 187 \<le> avail - 1" "a' = avail - 1 - k" "gt_queue_inv nr s'"
          "queue_contents nr s' = drop k (queue_contents nr s1)"
          "\<And>j. 0 < j \<Longrightarrow> j < k \<Longrightarrow> \<not> head_at p1 p2 (queue_contents nr s1) j"
          "head_at p1 p2 (queue_contents nr s1) k \<or> k + 187 = avail - 1"
        have "\<not> head_at p1 p2 (queue_contents nr s) j" if "0 < j" "j < Suc k" for j
          using that False k(6) [of "j - 1"] shift [of "j - 1"] by (cases "j = 1") auto
        then show thesis
          using k shift [of k] c1 by (intro less.prems(1) [of "Suc k"]) (auto simp: drop_drop [symmetric])
      qed
    next
      case short: False
      then have "avail = 188" using less.prems(5) by linarith
      then have "a' = 187" "s' = s1" using rec by (simp_all add: resync.simps)
      then show thesis
        using inv1 c1 \<open>avail = 188\<close> by (intro less.prems(1) [of 1]) auto
    qed
  qed
qed

lemma ts_queue_sync_effect:
  assumes inv: "gt_queue_inv nr s" and sync: "ts_queue_sync junk nr s = (due, s')"
    and pids: "ts_queue_pids junk nr s = (p1, p2)"
  shows "due \<Longrightarrow> \<exists>k. k + 188 \<le> length (queue_contents nr s) \<and> head_at p1 p2 (queue_contents nr s) k
      \<and> (\<forall>j < k. \<not> head_at p1 p2 (queue_contents nr s) j) \<and> queue_contents nr s' = drop k (queue_contents nr s)"
    and "\<not> due \<Longrightarrow> k + 188 \<le> length (queue_contents nr s) \<Longrightarrow> \<not> head_at p1 p2 (queue_contents nr s) k"
proof -
  let ?c = "queue_contents nr s"
  have len: "length ?c = queue_avail nr s" using inv by (rule length_queue_contents)
  have peek: "fst (avia_gt_dmx_queue_data_get nr 4 True s) = take 4 ?c" using gtq.get_out [OF inv] by simp
  have unf: "ts_queue_sync junk nr s = (if queue_avail nr s < 188 then (False, s)
      else if head_at p1 p2 ?c 0 then (True, s)
      else (let (a', s') = resync nr p1 p2 (queue_avail nr s) s in (188 \<le> a', s')))"
    by (simp add: ts_queue_sync_def pids peek queue_avail_def [symmetric] head_at_def)
  have "(due \<longrightarrow> (\<exists>k. k + 188 \<le> length ?c \<and> head_at p1 p2 ?c k
      \<and> (\<forall>j < k. \<not> head_at p1 p2 ?c j) \<and> queue_contents nr s' = drop k ?c))
    \<and> (\<not> due \<longrightarrow> (\<forall>k. k + 188 \<le> length ?c \<longrightarrow> \<not> head_at p1 p2 ?c k))"
  proof (cases "188 \<le> queue_avail nr s \<and> \<not> head_at p1 p2 ?c 0")
    case False
    then show ?thesis using sync unf len by (auto split: if_splits intro!: exI [of _ 0])
  next
    case True
    obtain a' where res: "resync nr p1 p2 (queue_avail nr s) s = (a', s')" "due = (188 \<le> a')"
      using sync unf True by (auto split: prod.splits)
    from res(1) inv refl conjunct1 [OF True] show ?thesis
    proof (rule resync_effect)
      fix k
      assume k: "0 < k" "k + 187 \<le> queue_avail nr s" "a' = queue_avail nr s - k" "gt_queue_inv nr s'"
        "queue_contents nr s' = drop k ?c" "\<And>j. 0 < j \<Longrightarrow> j < k \<Longrightarrow> \<not> head_at p1 p2 ?c j"
        "head_at p1 p2 ?c k \<or> k + 187 = queue_avail nr s"
      have before: "\<not> head_at p1 p2 ?c j" if "j < k" for j
        using k(6) [of j] that True by (cases "j = 0") auto
      show ?thesis
      proof (cases "188 \<le> a'")
        case True
        then have "k + 188 \<le> length ?c" "head_at p1 p2 ?c k" using k(2,3,7) len by auto
        then show ?thesis using True res(2) before k(5) by blast
      next
        case False
        then have "queue_avail nr s = k + 187" using k(2,3) by linarith
        then show ?thesis using False res(2) before len by auto
      qed
    qed
  qed
  then show "due \<Longrightarrow> \<exists>k. k + 188 \<le> length ?c \<and> head_at p1 p2 ?c k
      \<and> (\<forall>j < k. \<not> head_at p1 p2 ?c j) \<and> queue_contents nr s' = drop k ?c"
    and "\<not> due \<Longrightarrow> k + 188 \<le> length ?c \<Longrightarrow> \<not> head_at p1 p2 ?c k"
    by blast+
qed

text \<open>
  C23: A transport stream queue is handed to its owner at the first position where at least 188 bytes
  begin with the sync byte and a PID of the queue; everything before is dropped, and the owner is not
  called exactly when there is no such position.
\<close>

theorem ts_queue_sync_first_header:
  assumes "gt_queue_inv nr s" "ts_queue_sync junk nr s = (due, s')" "ts_queue_pids junk nr s = (p1, p2)"
  shows "if due
    then \<exists>k. k + 188 \<le> length (queue_contents nr s) \<and> head_at p1 p2 (queue_contents nr s) k
      \<and> (\<forall>j < k. \<not> head_at p1 p2 (queue_contents nr s) j) \<and> queue_contents nr s' = drop k (queue_contents nr s)
    else \<forall>k. k + 188 \<le> length (queue_contents nr s) \<longrightarrow> \<not> head_at p1 p2 (queue_contents nr s) k"
  using ts_queue_sync_effect [OF assms] by (cases due) simp_all



section \<open>From the chip to the owner\<close>

text \<open>
  The chip as the environment: it stores bytes behind the last one and moves its write pointer.
  Between two interrupts it stores less than the size of a queue.
\<close>

definition chip_write :: "nat \<Rightarrow> u8 list \<Rightarrow> gt_state \<Rightarrow> gt_state" where
  "chip_write nr xs s =
     (let q = the_queue nr s; w = hd (qwp s ! nr) - mem_addr q
      in s\<lparr>gt_mem := blit (gt_mem s) (mem_addr q) (ring_store (region s q) w xs),
           qwp := (qwp s)[nr := [mem_addr q + (w + length xs) mod q_size q]]\<rparr>)"

definition hw_contents :: "nat \<Rightarrow> gt_state \<Rightarrow> u8 list" where
  "hw_contents nr s = ring_contents (region s (the_queue nr s)) (read_pos (the_queue nr s)) (hw_write_pos (the_queue nr s))"

definition chip_inv :: "nat \<Rightarrow> gt_state \<Rightarrow> bool" where
  "chip_inv nr s \<longleftrightarrow> gt_queue_inv nr s \<and> busy (the_queue nr s) \<and> irq_proc (the_queue nr s) = None
     \<and> length (qwp s) = 32 \<and> qwp s ! nr = [mem_addr (the_queue nr s) + hw_write_pos (the_queue nr s)]"

definition chip_irq :: "nat \<Rightarrow> u8 list \<Rightarrow> gt_state \<Rightarrow> gt_state" where
  "chip_irq nr xs s = snd (avia_gt_dmx_queue_irq (avia_gt_dmx_get_queue_irq (gt_chip s) nr) (chip_write nr xs s))"

text \<open>The number of the interrupt leads back to the queue, on both chips.\<close>

lemma irq_roundtrip_all:
  "list_all (\<lambda>nr. irq_queue_nr ENX (avia_gt_dmx_get_queue_irq ENX nr) = nr
     \<and> irq_queue_nr GTX (avia_gt_dmx_get_queue_irq GTX nr) = nr) [0 ..< 32]"
  by code_simp

lemma irq_roundtrip:
  "nr < AVIA_GT_DMX_QUEUE_COUNT \<Longrightarrow> irq_queue_nr chip (avia_gt_dmx_get_queue_irq chip nr) = nr"
  using irq_roundtrip_all by (cases chip) (auto simp: list_all_iff gt_consts)

lemma stable_read_single [simp]: "stable_read p [v] = (v, [v])"
  by simp

text \<open>The overflow check is exact.\<close>

lemma irq_overflow_exact:
  assumes "r < N" "ow < N" "n < N"
  shows "irq_overflow r ow ((ow + n) mod N) \<longleftrightarrow> N \<le> ring_dist N r ow + n"
  using assms by (auto simp: irq_overflow_def ring_dist_def mod_less_double)

lemma the_queue_upd_if:
  "the_queue k (upd_queue nr f s) = (if k = nr \<and> nr < length (queue_list s) then f (the_queue nr s) else the_queue k s)"
  by (auto simp: the_queue_def upd_queue_def list_update_beyond)

lemma set_queue_irq_frame [frame_simps]:
  "the_queue k (avia_gt_dmx_set_queue_irq nr b n s) = the_queue k s"
  "queue_list (avia_gt_dmx_set_queue_irq nr b n s) = queue_list s"
  "gt_mem (avia_gt_dmx_set_queue_irq nr b n s) = gt_mem s"
  "qwp (avia_gt_dmx_set_queue_irq nr b n s) = qwp s"
  "queue_client (avia_gt_dmx_set_queue_irq nr b n s) = queue_client s"
  "gt_chip (avia_gt_dmx_set_queue_irq nr b n s) = gt_chip s"
  by (simp_all add: avia_gt_dmx_set_queue_irq_def avia_gt_dmx_map_queue_def the_queue_def Let_def)

text \<open>The fields of a queue other than those of the interrupt rate.\<close>

definition q_core :: "gt_queue \<Rightarrow> gt_queue" where
  "q_core q = q\<lparr>qim_irq_count := 0, qim_jiffies := 0, qim_mode := False\<rparr>"

lemma q_core_fields:
  "read_pos (q_core q) = read_pos q" "write_pos (q_core q) = write_pos q" "hw_write_pos (q_core q) = hw_write_pos q"
  "mem_addr (q_core q) = mem_addr q" "q_size (q_core q) = q_size q" "busy (q_core q) = busy q"
  "overflow_count (q_core q) = overflow_count q" "cb_proc (q_core q) = cb_proc q" "irq_proc (q_core q) = irq_proc q"
  "priv_data (q_core q) = priv_data q" "q_mode (q_core q) = q_mode q" "q_pid (q_core q) = q_pid q"
  by (simp_all add: q_core_def)

lemma q_core_eq_fields:
  assumes "q_core q = q_core q'"
  shows "read_pos q = read_pos q'" "write_pos q = write_pos q'" "hw_write_pos q = hw_write_pos q'"
    "mem_addr q = mem_addr q'" "q_size q = q_size q'" "busy q = busy q'" "overflow_count q = overflow_count q'"
    "cb_proc q = cb_proc q'" "irq_proc q = irq_proc q'" "priv_data q = priv_data q'" "q_mode q = q_mode q'"
    "q_pid q = q_pid q'"
  using assms q_core_fields by metis+

lemma qim_check_frame [frame_simps]:
  "q_core (the_queue k (qim_check nr s)) = q_core (the_queue k s)"
  "length (queue_list (qim_check nr s)) = length (queue_list s)"
  "gt_mem (qim_check nr s) = gt_mem s" "qwp (qim_check nr s) = qwp s" "gt_chip (qim_check nr s) = gt_chip s"
  by (simp_all add: qim_check_def avia_gt_dmx_queue_qim_mode_update_def Let_def frame_simps the_queue_upd_if
      q_core_def)


lemma bank_reg_map: "nr < 32 \<Longrightarrow> bank_reg (nr mod 16) (s\<lparr>upq := 16 \<le> nr\<rparr>) = nr"
  by (auto simp: bank_reg_def mod_if)

lemma get_write_pos_in_range:
  assumes "nr < 32" "qwp s ! nr = [v]" "mem_addr (the_queue nr s) \<le> v"
    "v < mem_addr (the_queue nr s) + q_size (the_queue nr s)"
  shows "avia_gt_dmx_queue_get_write_pos nr s = (v - mem_addr (the_queue nr s), s\<lparr>upq := 16 \<le> nr\<rparr>)"
proof -
  have "(qwp s)[nr := [v]] = qwp s" using assms(2) by (metis list_update_id)
  then have same: "s\<lparr>upq := 16 \<le> nr, qwp := (qwp s)[nr := [v]]\<rparr> = s\<lparr>upq := 16 \<le> nr\<rparr>" by simp
  show ?thesis
    using assms same
    by (simp add: avia_gt_dmx_queue_get_write_pos_def avia_gt_dmx_map_queue_def bank_reg_map Let_def gt_consts)
qed

text \<open>What one interrupt does to the queue.\<close>

lemma queue_irq_effect:
  assumes nr: "nr < 32" "nr < length (queue_list s)" and busy: "busy (the_queue nr s)"
    and reg: "qwp s ! nr = [mem_addr (the_queue nr s) + w]" "w < q_size (the_queue nr s)"
    and noproc: "irq_proc (the_queue nr s) = None"
  defines "s' \<equiv> snd (avia_gt_dmx_queue_irq (avia_gt_dmx_get_queue_irq (gt_chip s) nr) s)"
  shows "q_core (the_queue nr s') = q_core ((the_queue nr s)\<lparr>hw_write_pos := w, irq_count := irq_count (the_queue nr s) + 1,
      overflow_count := overflow_count (the_queue nr s)
        + (if irq_overflow (read_pos (the_queue nr s)) (hw_write_pos (the_queue nr s)) w then 1 else 0)\<rparr>)"
    and "gt_mem s' = gt_mem s" "qwp s' = qwp s" "gt_chip s' = gt_chip s"
    "length (queue_list s') = length (queue_list s)"
proof -
  define q where "q = the_queue nr s"
  define s1 where "s1 = upd_queue nr (\<lambda>q. q\<lparr>irq_count := irq_count q + 1\<rparr>) s"
  define s3 where "s3 = qim_check nr (upd_queue nr (\<lambda>q. q\<lparr>hw_write_pos := w\<rparr>) (s1\<lparr>upq := 16 \<le> nr\<rparr>))"
  have q1: "the_queue nr s1 = q\<lparr>irq_count := irq_count q + 1\<rparr>" using nr by (simp add: s1_def q_def)
  have reg1: "qwp s1 ! nr = [mem_addr q + w]" "length (queue_list s1) = length (queue_list s)"
    using reg by (simp_all add: s1_def q_def)
  have gw: "avia_gt_dmx_queue_get_write_pos nr s1 = (w, s1\<lparr>upq := 16 \<le> nr\<rparr>)"
    using get_write_pos_in_range [OF nr(1) reg1(1)] reg(2) by (simp add: q1 q_def [symmetric])
  have core: "q_core (the_queue nr s3) = q_core (q\<lparr>irq_count := irq_count q + 1, hw_write_pos := w\<rparr>)"
  proof -
    have "the_queue nr (upd_queue nr (\<lambda>q. q\<lparr>hw_write_pos := w\<rparr>) (s1\<lparr>upq := 16 \<le> nr\<rparr>))
        = (the_queue nr s1)\<lparr>hw_write_pos := w\<rparr>"
      using nr reg1(2) by (simp add: the_queue_def upd_queue_def)
    then show ?thesis by (simp add: s3_def frame_simps q1)
  qed
  note f = q_core_eq_fields [OF core, simplified]
  define s4 where "s4 = (if irq_overflow (read_pos q) (hw_write_pos q) w
    then upd_queue nr (\<lambda>q. q\<lparr>overflow_count := overflow_count q + 1\<rparr>) s3 else s3)"
  have frame3: "length (queue_list s3) = length (queue_list s)" "gt_mem s3 = gt_mem s" "qwp s3 = qwp s" "gt_chip s3 = gt_chip s"
    by (simp_all add: s3_def s1_def frame_simps)
  have eq: "s' = (if cb_proc q \<noteq> None then s4\<lparr>bh_tasks := bh_tasks s4 @ [nr]\<rparr> else s4)"
    unfolding s'_def avia_gt_dmx_queue_irq_def
    using nr(1) busy noproc
    by (simp add: irq_roundtrip gt_consts s1_def [symmetric] gw q1 s3_def [symmetric] f q_def [symmetric]
        s4_def Let_def)
  have "q_core (the_queue nr s4) = q_core (q\<lparr>irq_count := irq_count q + 1, hw_write_pos := w,
      overflow_count := overflow_count q + (if irq_overflow (read_pos q) (hw_write_pos q) w then 1 else 0)\<rparr>)"
  proof (cases "irq_overflow (read_pos q) (hw_write_pos q) w")
    case True
    then have "q_core (the_queue nr s4) = (q_core (the_queue nr s3))\<lparr>overflow_count := overflow_count (the_queue nr s3) + 1\<rparr>"
      using nr frame3 by (simp add: s4_def q_core_def)
    then show ?thesis using True by (simp add: core f) (simp add: q_core_def)
  next
    case False
    then show ?thesis by (simp add: s4_def core)
  qed
  moreover have "the_queue nr s' = the_queue nr s4" by (simp add: eq the_queue_def)
  ultimately show "q_core (the_queue nr s') = q_core ((the_queue nr s)\<lparr>hw_write_pos := w, irq_count := irq_count (the_queue nr s) + 1,
      overflow_count := overflow_count (the_queue nr s)
        + (if irq_overflow (read_pos (the_queue nr s)) (hw_write_pos (the_queue nr s)) w then 1 else 0)\<rparr>)"
    by (simp add: q_def q_core_def)
  show "gt_mem s' = gt_mem s" "qwp s' = qwp s" "gt_chip s' = gt_chip s"
    "length (queue_list s') = length (queue_list s)"
    using frame3 by (simp_all add: eq s4_def)
qed


text \<open>What stays the same of a queue over interrupts.\<close>

definition q_static :: "gt_queue \<Rightarrow> nat \<times> nat \<times> nat \<times> nat \<times> nat option \<times> nat option \<times> nat" where
  "q_static q = (mem_addr q, q_size q, read_pos q, write_pos q, cb_proc q, priv_data q, q_mode q)"

lemma chip_irq_effect:
  assumes inv: "chip_inv nr s" and n: "length xs < q_size (the_queue nr s)"
  defines "s' \<equiv> chip_irq nr xs s" and "q \<equiv> the_queue nr s"
  shows "chip_inv nr s'" and "q_static (the_queue nr s') = q_static q"
    and "overflow_count (the_queue nr s') = overflow_count q
      + (if q_size q \<le> length (hw_contents nr s) + length xs then 1 else 0)"
    and "length (hw_contents nr s) + length xs < q_size q \<Longrightarrow> hw_contents nr s' = hw_contents nr s @ xs"
proof -
  let ?N = "q_size q" and ?w = "(hw_write_pos q + length xs) mod q_size q"
  define t where "t = chip_write nr xs s"
  have nr: "nr < 32" "nr < length (queue_list s)" and ok: "queue_ok s q" and b: "busy q" "irq_proc q = None"
    and reg: "length (qwp s) = 32" "qwp s ! nr = [mem_addr q + hw_write_pos q]"
    using inv by (simp_all add: chip_inv_def gt_queue_inv_def q_def gt_consts)
  have pos: "read_pos q < ?N" "hw_write_pos q < ?N" "mem_addr q + ?N \<le> length (gt_mem s)"
    using ok by (simp_all add: queue_ok_def)
  then have w: "?w < ?N" by (metis mod_less_divisor not_less_zero gr0I)
  have t: "the_queue nr t = q" "queue_list t = queue_list s" "gt_chip t = gt_chip s"
    "qwp t = (qwp s)[nr := [mem_addr q + ?w]]"
    "gt_mem t = blit (gt_mem s) (mem_addr q) (ring_store (region s q) (hw_write_pos q) xs)"
    using reg by (simp_all add: t_def chip_write_def Let_def the_queue_def q_def)
  have lenr: "length (region s q) = ?N" using pos by (simp add: length_region)
  have lens: "length (ring_store (region s q) (hw_write_pos q) xs) = ?N"
    using pos n [folded q_def] by (simp add: lenr)
  have lenm: "length (gt_mem t) = length (gt_mem s)" using pos by (simp add: t lens)
  have regt: "region t q = ring_store (region s q) (hw_write_pos q) xs"
    using pos lens by (simp add: region_def mem_bytes_def t blit_def)
  have eff: "q_core (the_queue nr s') = q_core (q\<lparr>hw_write_pos := ?w, irq_count := irq_count q + 1,
      overflow_count := overflow_count q + (if irq_overflow (read_pos q) (hw_write_pos q) ?w then 1 else 0)\<rparr>)"
    "gt_mem s' = gt_mem t" "qwp s' = qwp t" "length (queue_list s') = length (queue_list s)"
    using queue_irq_effect [of nr t ?w] nr b reg w
    by (simp_all add: s'_def chip_irq_def t_def [symmetric] t)
  note f = q_core_eq_fields [OF eff(1), simplified]
  show "chip_inv nr s'"
    using ok w nr b reg lenm by (simp add: chip_inv_def gt_queue_inv_def queue_ok_def f eff t gt_consts)
  show "q_static (the_queue nr s') = q_static q" by (simp add: q_static_def f)
  have lenh: "length (hw_contents nr s) = ring_dist ?N (read_pos q) (hw_write_pos q)"
    by (simp add: hw_contents_def q_def [symmetric] lenr)
  show "overflow_count (the_queue nr s') = overflow_count q
      + (if ?N \<le> length (hw_contents nr s) + length xs then 1 else 0)"
    using irq_overflow_exact [OF pos(1,2), of "length xs"] n by (simp add: f lenh q_def [symmetric])
  show "hw_contents nr s' = hw_contents nr s @ xs" if "length (hw_contents nr s) + length xs < ?N"
  proof -
    have "region s' (the_queue nr s') = ring_store (region s q) (hw_write_pos q) xs"
      using regt by (simp add: region_def f eff)
    then show ?thesis
      using ring_contents_store [of "read_pos q" "region s q" "hw_write_pos q" xs] pos that lenh lenr
      by (simp add: hw_contents_def f q_def [symmetric])
  qed
qed

lemma chip_irqs_effect:
  assumes "chip_inv nr s" "\<forall>xs \<in> set xss. length xs < q_size (the_queue nr s)"
    "unat (overflow_count (the_queue nr s)) + length xss < 256"
  shows "chip_inv nr (fold (chip_irq nr) xss s)
    \<and> q_static (the_queue nr (fold (chip_irq nr) xss s)) = q_static (the_queue nr s)
    \<and> unat (overflow_count (the_queue nr s)) \<le> unat (overflow_count (the_queue nr (fold (chip_irq nr) xss s)))
    \<and> (if length (hw_contents nr s) + length (concat xss) < q_size (the_queue nr s)
       then overflow_count (the_queue nr (fold (chip_irq nr) xss s)) = overflow_count (the_queue nr s)
         \<and> hw_contents nr (fold (chip_irq nr) xss s) = hw_contents nr s @ concat xss
       else overflow_count (the_queue nr (fold (chip_irq nr) xss s)) \<noteq> 0)"
  using assms
proof (induction xss arbitrary: s)
  case Nil
  have "length (hw_contents nr s) < q_size (the_queue nr s)"
    using Nil.prems(1) by (auto simp: chip_inv_def gt_queue_inv_def queue_ok_def hw_contents_def length_region ring_dist_less)
  then show ?case using Nil by simp
next
  case (Cons xs xss)
  define s' where "s' = chip_irq nr xs s"
  define q where "q = the_queue nr s"
  have xs: "length xs < q_size (the_queue nr s)" using Cons.prems(2) by simp
  note e = chip_irq_effect [OF Cons.prems(1) xs, folded s'_def q_def]
  have sz: "q_size (the_queue nr s') = q_size q" using e(2) by (simp add: q_static_def)
  have oc: "unat (overflow_count (the_queue nr s')) = unat (overflow_count q)
      + (if q_size q \<le> length (hw_contents nr s) + length xs then 1 else 0)"
    using Cons.prems(3) by (simp add: e(3) q_def unat_word_ariths)
  have prem: "\<forall>xs \<in> set xss. length xs < q_size (the_queue nr s')"
    "unat (overflow_count (the_queue nr s')) + length xss < 256"
    using Cons.prems(2,3) by (simp_all add: sz oc q_def)
  note ih = Cons.IH [OF e(1) prem]
  have fold: "fold (chip_irq nr) (xs # xss) s = fold (chip_irq nr) xss s'" by (simp add: s'_def)
  have mono: "unat (overflow_count q) \<le> unat (overflow_count (the_queue nr s'))" by (simp add: oc)
  show ?case
  proof (cases "length (hw_contents nr s) + length xs < q_size q")
    case True
    then have h: "hw_contents nr s' = hw_contents nr s @ xs" and "overflow_count (the_queue nr s') = overflow_count q"
      using e(3,4) by simp_all
    then show ?thesis unfolding fold q_def [symmetric] using ih e(2) sz by (simp add: add.assoc)
  next
    case False
    then have "0 < unat (overflow_count (the_queue nr s'))" using oc by simp
    then have "overflow_count (the_queue nr (fold (chip_irq nr) xss s')) \<noteq> 0"
      using ih by (metis le_zero_eq neq0_conv unsigned_0)
    moreover have "\<not> length (hw_contents nr s) + length (concat (xs # xss)) < q_size q" using False by simp
    ultimately show ?thesis unfolding fold q_def [symmetric] using ih e(2) mono by simp
  qed
qed

text \<open>
  The counter of overflows is a byte: if the bottom half does not run for 256 overflows in a row, it is
  back at zero and the bottom half treats what has been overwritten as data.
\<close>

lemma overflow_count_wraps:
  assumes "chip_inv nr s" "length xs < q_size (the_queue nr s)"
    and "q_size (the_queue nr s) \<le> length (hw_contents nr s) + length xs"
    and "overflow_count (the_queue nr s) = 255"
  shows "overflow_count (the_queue nr (chip_irq nr xs s)) = 0"
  using chip_irq_effect(3) [OF assms(1,2)] assms(3,4) by simp

text \<open>
  C22: The chip writes bytes into the message queue, or into a user queue that is not in transport
  stream mode, and interrupts after each piece, fewer than 256 times before the bottom half runs; no piece
  is as long as the queue. If all the bytes fit behind those the owner has not read yet, the bottom half
  calls the owner's procedure on a queue that holds the old bytes and then all new ones in their order; if
  they do not fit, it calls nothing and the queue is empty.
\<close>

theorem queue_delivers_or_resets:
  assumes inv: "chip_inv nr s" and chunks: "\<forall>xs \<in> set xss. length xs < q_size (the_queue nr s)" "length xss < 256"
    and idle: "overflow_count (the_queue nr s) = 0"
    and mode: "nr = AVIA_GT_DMX_QUEUE_MESSAGE \<or> q_mode (the_queue nr s) \<noteq> TS \<and> AVIA_GT_DMX_QUEUE_USER_START \<le> nr"
    and bh: "avia_gt_dmx_bh_task junk nr (fold (chip_irq nr) xss s) = (call, s')"
  shows "if length (hw_contents nr s) + length (concat xss) < q_size (the_queue nr s)
    then queue_contents nr s' = hw_contents nr s @ concat xss
      \<and> call = map_option (\<lambda>p. (p, nr, priv_data (the_queue nr s))) (cb_proc (the_queue nr s))
    else queue_contents nr s' = [] \<and> call = None"
proof -
  define t where "t = fold (chip_irq nr) xss s"
  define q where "q = the_queue nr t"
  define t1 where "t1 = upd_queue nr (\<lambda>q. q\<lparr>write_pos := hw_write_pos q\<rparr>) t"
  have st: "chip_inv nr t" "q_static q = q_static (the_queue nr s)"
    and oc: "if length (hw_contents nr s) + length (concat xss) < q_size (the_queue nr s)
       then overflow_count q = 0 \<and> hw_contents nr t = hw_contents nr s @ concat xss
       else overflow_count q \<noteq> 0"
    using chip_irqs_effect [OF inv chunks(1)] chunks(2) idle by (simp_all add: t_def q_def)
  have nr: "nr < 32" "nr < length (queue_list t)" using st(1) by (simp_all add: chip_inv_def gt_queue_inv_def gt_consts)
  have q1: "the_queue nr t1 = q\<lparr>write_pos := hw_write_pos q\<rparr>" using nr by (simp add: t1_def q_def)
  have static: "cb_proc q = cb_proc (the_queue nr s)" "priv_data q = priv_data (the_queue nr s)"
    "q_mode q = q_mode (the_queue nr s)"
    using st(2) by (simp_all add: q_static_def)
  have c1: "queue_contents nr t1 = hw_contents nr t"
  proof -
    have "gt_mem t1 = gt_mem t" by (simp add: t1_def)
    then show ?thesis by (simp add: queue_contents_def hw_contents_def q1 q_def [symmetric] region_def)
  qed
  have bh1: "avia_gt_dmx_bh_task junk nr t = (if overflow_count q \<noteq> 0
      then (None, upd_queue nr (\<lambda>q. q\<lparr>overflow_count := 0, write_pos := hw_write_pos q, read_pos := hw_write_pos q\<rparr>) t1)
      else (map_option (\<lambda>p. (p, nr, priv_data q)) (cb_proc q), t1))"
  proof (cases "nr = AVIA_GT_DMX_QUEUE_MESSAGE")
    case True
    have "nr < AVIA_GT_DMX_QUEUE_COUNT" using nr(1) by (simp add: gt_consts)
    then show ?thesis
      unfolding avia_gt_dmx_bh_task_def t1_def [symmetric] by (simp add: True [symmetric] q1)
  next
    case False
    then have "q_mode q \<noteq> TS" "AVIA_GT_DMX_QUEUE_USER_START \<le> nr" "nr < AVIA_GT_DMX_QUEUE_COUNT"
      using mode static(3) nr(1) by (simp_all add: gt_consts)
    then show ?thesis
      unfolding avia_gt_dmx_bh_task_def t1_def [symmetric] by (simp add: False q1)
  qed
  show ?thesis
  proof (cases "overflow_count q = 0")
    case True
    then show ?thesis using bh bh1 oc c1 static by (simp add: t_def [symmetric] split: if_splits)
  next
    case False
    then have "queue_contents nr s' = []"
      using bh bh1 nr by (auto simp: t_def [symmetric] queue_contents_def t1_def)
    then show ?thesis using False bh bh1 oc by (simp add: t_def [symmetric] split: if_splits)
  qed
qed


section \<open>A concrete queue\<close>

definition ex_queue :: gt_queue where
  "ex_queue = gt_queue0\<lparr>mem_addr := 4, q_size := 256, q_pid := 0x100, busy := True, cb_proc := Some 7, q_mode := PES\<rparr>"

definition ex_gt :: gt_state where
  "ex_gt = \<lparr>gt_chip = ENX, gt_mem = replicate 300 0, queue_list = (replicate 32 gt_queue0)[5 := ex_queue],
     queue_client = [None, None, None], queue_size_table = initial_queue_size_table, ucode = ex_ucode,
     msgqueue = None, jiffies = 0, kernel_HZ = 100, upq = False, qwp = replicate 32 [4], qwp_size = replicate 32 0,
     qn_int = replicate 32 (False, 0), aq_rp = replicate 3 [4], aq_wp = replicate 3 4, aq_size = replicate 3 0,
     clip_bits = [False, False, False], framer_enable = False, framer_hw = False, force_disc = False,
     force_stc_reload = False, pcr_pid = (False, 0), irq_pcr = AVIA_GT_IRQ 1 1,
     gt_isr_proc_list = replicate 128 None, irq_unmasked = replicate 128 False, bh_tasks = []\<rparr>"

definition ex_gt_ts :: gt_state where
  "ex_gt_ts = upd_queue 5 (\<lambda>q. q\<lparr>q_mode := TS, write_pos := 200\<rparr>)
     (ex_gt\<lparr>gt_mem := blit (gt_mem ex_gt) 6 [0x47, 0x01, 0x00]\<rparr>)"

theorem queue_delivers_or_resets_witness:
  "queue_contents 5 (snd (avia_gt_dmx_bh_task 0 5 (fold (chip_irq 5) [[1, 2, 3], [4]] ex_gt))) = [1, 2, 3, 4]"
proof -
  have "chip_inv 5 ex_gt" "overflow_count (the_queue 5 ex_gt) = 0" "q_mode (the_queue 5 ex_gt) \<noteq> TS"
    "q_size (the_queue 5 ex_gt) = 256" "hw_contents 5 ex_gt = []" "cb_proc (the_queue 5 ex_gt) = Some 7"
    by code_simp+
  then show ?thesis
    using queue_delivers_or_resets [of 5 ex_gt "[[1, 2, 3], [4]]" 0, OF _ _ _ _ _ surjective_pairing]
    by (simp add: gt_consts)
qed

theorem ts_queue_sync_first_header_witness:
  "\<exists>k. k + 188 \<le> length (queue_contents 5 ex_gt_ts) \<and> head_at 0x100 0x100 (queue_contents 5 ex_gt_ts) k"
proof -
  have "gt_queue_inv 5 ex_gt_ts" "ts_queue_pids 0 5 ex_gt_ts = (0x100, 0x100)" "fst (ts_queue_sync 0 5 ex_gt_ts)"
    by code_simp+
  then show ?thesis
    using ts_queue_sync_first_header [of 5 ex_gt_ts 0, OF _ surjective_pairing] by auto
qed

end
