(* ===== verification/Avia_Gt_System.thy ===== *)
theory Avia_Gt_System
  imports Avia_Gt_Queue
begin

text \<open>
  The queues together: their layout in the chip memory after initialisation, the sharing of the system
  queues, the data path to the decoders, and two interleavings that go wrong.
\<close>

section \<open>What moves queues in memory\<close>

definition geometry :: "gt_state \<Rightarrow> (nat \<times> nat) list" where
  "geometry s = map (\<lambda>q. (mem_addr q, q_size q)) (queue_list s)"

text \<open>What the operations on pointers and interrupts leave alone: the places of the queues and their table.\<close>

definition placement :: "gt_state \<Rightarrow> (nat \<times> nat) list \<times> nat list \<times> u8 list" where
  "placement s = (geometry s, queue_size_table s, gt_mem s)"

lemma placement_upd_queue:
  assumes "\<And>q. mem_addr (f q) = mem_addr q" "\<And>q. q_size (f q) = q_size q"
  shows "placement (upd_queue nr f s) = placement s"
proof -
  have "geometry (upd_queue nr f s) = geometry s"
    unfolding geometry_def upd_queue_def by (simp add: assms map_update_eq)
  then show ?thesis by (simp add: placement_def)
qed

lemma placement_field_updates [frame_simps]:
  "placement (s\<lparr>qwp := a\<rparr>) = placement s" "placement (s\<lparr>qwp_size := b\<rparr>) = placement s"
  "placement (s\<lparr>upq := c\<rparr>) = placement s" "placement (s\<lparr>aq_rp := a\<rparr>) = placement s"
  "placement (s\<lparr>aq_wp := b\<rparr>) = placement s" "placement (s\<lparr>aq_size := b\<rparr>) = placement s"
  "placement (s\<lparr>qn_int := d\<rparr>) = placement s" "placement (s\<lparr>queue_client := e\<rparr>) = placement s"
  "placement (s\<lparr>irq_unmasked := g\<rparr>) = placement s" "placement (s\<lparr>gt_isr_proc_list := h\<rparr>) = placement s"
  "placement (s\<lparr>msgqueue := i\<rparr>) = placement s" "placement (s\<lparr>ucode := u\<rparr>) = placement s"
  by (simp_all add: placement_def geometry_def)

lemma placement_registers [frame_simps]:
  "placement (avia_gt_dmx_queue_set_write_pos nr p s) = placement s"
  "placement (avia_gt_dmx_system_queue_set_write_pos nr p s) = placement s"
  "placement (avia_gt_dmx_system_queue_set_pos nr p r s) = placement s"
  "placement (avia_gt_dmx_set_queue_irq nr b n s) = placement s"
  "placement (avia_gt_free_irq irq s) = placement s"
  "placement (snd (avia_gt_alloc_irq irq isr s)) = placement s"
  by (simp_all add: avia_gt_dmx_queue_set_write_pos_def avia_gt_dmx_map_queue_def write_qwp_def
      avia_gt_dmx_system_queue_set_write_pos_def avia_gt_dmx_system_queue_set_pos_def avia_gt_dmx_set_queue_irq_def
      avia_gt_free_irq_def avia_gt_alloc_irq_def frame_simps Let_def)

lemma placement_get_write_pos [frame_simps]:
  "placement (snd (avia_gt_dmx_queue_get_write_pos nr s)) = placement s"
  by (simp add: avia_gt_dmx_queue_get_write_pos_def avia_gt_dmx_map_queue_def frame_simps placement_upd_queue
      Let_def split: prod.splits)

lemma placement_setup_client [frame_simps]: "placement (setup_client new sys s) = placement s"
proof -
  have "placement (snd (system_queue_irq_enable sys t)) = placement t"
    "placement (system_queue_irq_disable sys t) = placement t" for t
    by (simp_all add: system_queue_irq_enable_def system_queue_irq_disable_def frame_simps placement_upd_queue)
  moreover have "placement x2 = placement s"
    if "avia_gt_dmx_queue_get_write_pos sys (s\<lparr>queue_client := (queue_client s)[sys := new]\<rparr>) = (x1, x2)" for x1 x2
    using placement_get_write_pos [of sys "s\<lparr>queue_client := (queue_client s)[sys := new]\<rparr>"] that
    by (simp add: frame_simps)
  ultimately show ?thesis
    by (auto simp: setup_client_def frame_simps placement_upd_queue Let_def split: prod.splits)
qed

lemma placement_system_irqs [frame_simps]:
  "placement (avia_gt_dmx_enable_disable_system_queue_irqs s) = placement s"
proof -
  have "placement (fold (\<lambda>sys. setup_client (f sys) sys) xs t) = placement t" for f xs t
    by (induction xs arbitrary: t) (simp_all add: frame_simps)
  then show ?thesis by (simp add: avia_gt_dmx_enable_disable_system_queue_irqs_def)
qed

lemma placement_queue_ops [frame_simps]:
  "placement (avia_gt_dmx_queue_irq_disable nr s) = placement s"
  "placement (snd (avia_gt_dmx_queue_irq_enable nr s)) = placement s"
  "placement (snd (avia_gt_dmx_queue_reset nr s)) = placement s"
  "placement (snd (avia_gt_dmx_alloc_queue nr ip cb p s)) = placement s"
  by (simp_all add: avia_gt_dmx_queue_irq_disable_def avia_gt_dmx_queue_irq_enable_def avia_gt_dmx_queue_reset_def
      avia_gt_dmx_alloc_queue_def frame_simps placement_upd_queue Let_def)


section \<open>Layout\<close>

fun layout :: "nat list \<Rightarrow> nat \<Rightarrow> (nat \<times> nat) list" where
  "layout [] a = []"
| "layout (e # es) a = (let sz = 2 ^ e * 64; p = align_queue a sz in (p, sz) # layout es (p + sz))"

lemma layout_Cons:
  "layout (e # es) a = (align_queue a (2 ^ e * 64), 2 ^ e * 64) # layout es (align_queue a (2 ^ e * 64) + 2 ^ e * 64)"
  by (simp add: Let_def)

lemma length_layout [simp]: "length (layout es a) = length es"
  by (induction es arbitrary: a) (simp_all add: Let_def)

lemma align_queue_aligned: "0 < sz \<Longrightarrow> align_queue a sz mod sz = 0"
  by (simp add: align_queue_def)

lemma align_queue_ge: "0 < sz \<Longrightarrow> a \<le> align_queue a sz"
proof -
  assume sz: "0 < sz"
  have "a + sz = (a + sz) div sz * sz + (a + sz) mod sz" by (rule div_mult_mod_eq [symmetric])
  moreover have "(a + sz) mod sz < sz" using sz by simp
  ultimately have "a \<le> (a + sz) div sz * sz" by linarith
  then show ?thesis by (simp add: align_queue_def)
qed

lemma layout_aligned: "i < length es \<Longrightarrow> fst (layout es a ! i) mod snd (layout es a ! i) = 0"
  by (induction es arbitrary: a i) (auto simp: Let_def nth_Cons align_queue_aligned split: nat.splits)

lemma layout_above: "i < length es \<Longrightarrow> a \<le> fst (layout es a ! i)"
proof (induction es arbitrary: a i)
  case (Cons e es)
  have "a \<le> align_queue a (2 ^ e * 64)" by (rule align_queue_ge) simp
  moreover have "a \<le> fst (layout es (align_queue a (2 ^ e * 64) + 2 ^ e * 64) ! k)" if "i = Suc k" for k
    using Cons.IH [of k "align_queue a (2 ^ e * 64) + 2 ^ e * 64"] Cons.prems that calculation by simp
  ultimately show ?case by (auto simp: Let_def nth_Cons split: nat.splits)
qed simp

lemma layout_ordered:
  "i < j \<Longrightarrow> j < length es \<Longrightarrow> fst (layout es a ! i) + snd (layout es a ! i) \<le> fst (layout es a ! j)"
proof (induction es arbitrary: a i j)
  case (Cons e es)
  then show ?case by (auto simp: Let_def nth_Cons layout_above split: nat.splits)
qed simp

lemma init_queue_geometry:
  assumes "nr < length (queue_list s)"
  shows "geometry (snd (init_queue nr (a, s)))
      = (geometry s)[nr := (align_queue a (2 ^ (queue_size_table s ! nr) * 64), 2 ^ (queue_size_table s ! nr) * 64)]"
    and "fst (init_queue nr (a, s))
      = align_queue a (2 ^ (queue_size_table s ! nr) * 64) + 2 ^ (queue_size_table s ! nr) * 64"
    and "queue_size_table (snd (init_queue nr (a, s))) = queue_size_table s"
proof -
  define sz where "sz = 2 ^ (queue_size_table s ! nr) * (64 :: nat)"
  define s1 where "s1 = upd_queue nr (\<lambda>q. q\<lparr>q_size := sz, mem_addr := align_queue a sz, q_pid := 0xFFFF, running := False\<rparr>) s"
  have p: "placement (snd (init_queue nr (a, s))) = placement s1"
    by (simp add: init_queue_def sz_def [symmetric] s1_def [symmetric] frame_simps Let_def)
  have g1: "geometry s1 = (geometry s)[nr := (align_queue a sz, sz)]"
    by (simp add: s1_def geometry_def upd_queue_def map_update)
  show "geometry (snd (init_queue nr (a, s)))
      = (geometry s)[nr := (align_queue a (2 ^ (queue_size_table s ! nr) * 64), 2 ^ (queue_size_table s ! nr) * 64)]"
    using p g1 by (simp add: placement_def sz_def)
  show "queue_size_table (snd (init_queue nr (a, s))) = queue_size_table s"
    using p by (simp add: placement_def s1_def)
  show "fst (init_queue nr (a, s))
      = align_queue a (2 ^ (queue_size_table s ! nr) * 64) + 2 ^ (queue_size_table s ! nr) * 64"
    by (simp add: init_queue_def Let_def)
qed

lemma length_geometry [simp]: "length (geometry s) = length (queue_list s)"
  by (simp add: geometry_def)

text \<open>The loop of the initialisation places the queues as \<open>layout\<close> does.\<close>

lemma fold_init_queue:
  assumes "n + m = length (queue_size_table s)" "length (queue_list s) = length (queue_size_table s)"
  shows "geometry (snd (fold init_queue [n ..< n + m] (a, s))) = take n (geometry s) @ layout (drop n (queue_size_table s)) a"
  using assms
proof (induction m arbitrary: n a s)
  case 0
  then show ?case by simp
next
  case (Suc m)
  define a' where "a' = fst (init_queue n (a, s))"
  define s' where "s' = snd (init_queue n (a, s))"
  have n: "n < length (queue_list s)" using Suc.prems by simp
  note e = init_queue_geometry [OF n, of a, folded a'_def s'_def]
  have len: "length (queue_list s') = length (queue_list s)" using arg_cong [OF e(1), of length] by simp
  have up: "[n ..< n + Suc m] = n # [Suc n ..< Suc n + m]" by (simp add: upt_rec)
  have "fold init_queue [n ..< n + Suc m] (a, s) = fold init_queue [Suc n ..< Suc n + m] (a', s')"
    unfolding up by (simp add: a'_def s'_def)
  then have "geometry (snd (fold init_queue [n ..< n + Suc m] (a, s)))
      = take (Suc n) (geometry s') @ layout (drop (Suc n) (queue_size_table s')) a'"
    using Suc.IH [of "Suc n" s' a'] Suc.prems len e(3) by (simp only: add_Suc add_Suc_right)
  also have "\<dots> = take n (geometry s) @ layout (drop n (queue_size_table s)) a"
  proof -
    have d: "drop n (queue_size_table s) = queue_size_table s ! n # drop (Suc n) (queue_size_table s)"
      using Suc.prems by (simp add: Cons_nth_drop_Suc)
    have t: "take (Suc n) (geometry s') = take n (geometry s) @
        [(align_queue a (2 ^ (queue_size_table s ! n) * 64), 2 ^ (queue_size_table s ! n) * 64)]"
      using n by (simp add: e(1) take_Suc_conv_app_nth)
    show ?thesis unfolding d t e(2,3) by (simp add: Let_def)
  qed
  finally show ?case .
qed

lemma init_geometry:
  assumes "avia_gt_dmx_init base h img hw s = Some (r, s')" "length (queue_size_table s) = 32"
  shows "geometry s' = layout (queue_size_table s) base" "gt_mem s' = gt_mem s"
proof -
  obtain u where u: "avia_gt_dmx_risc_init img (\<not> hw) (ucode s) = Some u"
    using assms(1) by (auto simp: avia_gt_dmx_init_def split: bind_splits)
  define s0 where "s0 = s\<lparr>ucode := u, queue_list := replicate 32 gt_queue0\<rparr>"
  define s1 where "s1 = snd (fold init_queue [0 ..< 32] (base, s0))"
  have "geometry s1 = layout (queue_size_table s) base"
    using fold_init_queue [of 0 32 s0 base] assms(2) by (simp add: s1_def s0_def gt_consts)
  moreover have "gt_mem (snd (fold init_queue xs (a, t))) = gt_mem t" for xs a t
  proof (induction xs arbitrary: a t)
    case (Cons x xs)
    have "gt_mem (snd (init_queue x (a, t))) = gt_mem t"
    proof -
      have "snd (placement (snd (init_queue x (a, t)))) = snd (placement t)"
        by (simp add: init_queue_def frame_simps Let_def) (simp add: placement_def)
      then show ?thesis by (simp add: placement_def)
    qed
    then show ?case using Cons.IH [of "fst (init_queue x (a, t))" "snd (init_queue x (a, t))"] by simp
  qed simp
  then have "gt_mem s1 = gt_mem s" by (simp add: s1_def s0_def)
  moreover have "placement s' = placement s1"
  proof -
    obtain o2 s2 where al: "avia_gt_dmx_alloc_queue_message None (Some h) None s1 = (o2, s2)" by (metis surj_pair)
    have "placement s2 = placement s1"
      using placement_queue_ops(4) [of AVIA_GT_DMX_QUEUE_MESSAGE None "Some h" None s1] al
      by (simp add: avia_gt_dmx_alloc_queue_message_def)
    moreover have "(if CAP_MSGQ \<in> set (caps u)
        then (case o2 of None \<Rightarrow> s2\<lparr>msgqueue := None\<rparr>
              | Some nr \<Rightarrow> snd (avia_gt_dmx_queue_irq_enable nr (s2\<lparr>msgqueue := Some nr\<rparr>)))
        else s1) = s'"
      using assms(1) u al
      by (auto simp: avia_gt_dmx_init_def s0_def [symmetric] s1_def [symmetric] gt_consts Let_def split: option.splits)
    ultimately show ?thesis by (auto simp: frame_simps split: if_splits option.splits)
  qed
  ultimately show "geometry s' = layout (queue_size_table s) base" "gt_mem s' = gt_mem s"
    by (simp_all add: placement_def)
qed


lemma geometry_nth:
  "i < length (queue_list s) \<Longrightarrow> geometry s ! i = (mem_addr (the_queue i s), q_size (the_queue i s))"
  by (simp add: geometry_def the_queue_def)

lemma init_queue_place:
  assumes "avia_gt_dmx_init base h img hw s = Some (r, s')" "length (queue_size_table s) = 32" "i < 32"
  shows "(mem_addr (the_queue i s'), q_size (the_queue i s')) = layout (queue_size_table s) base ! i"
proof -
  have g: "geometry s' = layout (queue_size_table s) base" using init_geometry [OF assms(1,2)] by blast
  then have "length (queue_list s') = 32" using assms(2) by (metis length_geometry length_layout)
  then show ?thesis using geometry_nth [of i s'] assms(3) g by simp
qed

lemma dmx_offs:
  "AVIA_GT_MEM_DMX_OFFS True True = 1036800" "AVIA_GT_MEM_DMX_OFFS False False = 0"
  "AVIA_GT_MEM_DMX_OFFS True False = 829440" "AVIA_GT_MEM_DMX_OFFS False True = 207360"
  by (simp_all add: AVIA_GT_MEM_DMX_OFFS_def AVIA_GT_MEM_CAPTURE_OFFS_def AVIA_GT_MEM_CAPTURE_SIZE_def
      AVIA_GT_MEM_GV_SIZE_def AVIA_GT_MEM_ALIGN_def)

text \<open>The four layouts, by configuration: both parts, none, graphics only, capture only.\<close>

lemma layout_both: "layout initial_queue_size_table 1036800 =
    [(1048576, 65536), (1114112, 65536), (1179648, 32768), (1212416, 32768), (1245184, 65536),
     (1310720, 131072), (1441792, 65536), (1507328, 65536), (1572864, 16384), (1589248, 16384),
     (1605632, 16384), (1622016, 16384), (1638400, 16384), (1654784, 16384), (1671168, 16384),
     (1687552, 16384), (1703936, 16384), (1720320, 16384), (1736704, 16384), (1753088, 8192),
     (1761280, 8192), (1769472, 8192), (1777664, 8192), (1785856, 8192), (1794048, 8192),
     (1802240, 8192), (1810432, 8192), (1818624, 8192), (1826816, 8192), (1835008, 8192),
     (1843200, 8192), (1851392, 16384)]"
  by (simp add: initial_queue_size_table_def align_queue_def layout_Cons del: layout.simps(2))

lemma layout_none: "layout initial_queue_size_table 0 =
    [(0, 65536), (65536, 65536), (131072, 32768), (163840, 32768), (196608, 65536),
     (262144, 131072), (393216, 65536), (458752, 65536), (524288, 16384), (540672, 16384),
     (557056, 16384), (573440, 16384), (589824, 16384), (606208, 16384), (622592, 16384),
     (638976, 16384), (655360, 16384), (671744, 16384), (688128, 16384), (704512, 8192),
     (712704, 8192), (720896, 8192), (729088, 8192), (737280, 8192), (745472, 8192),
     (753664, 8192), (761856, 8192), (770048, 8192), (778240, 8192), (786432, 8192),
     (794624, 8192), (802816, 16384)]"
  by (simp add: initial_queue_size_table_def align_queue_def layout_Cons del: layout.simps(2))

lemma layout_gv: "layout initial_queue_size_table 829440 =
    [(851968, 65536), (917504, 65536), (983040, 32768), (1015808, 32768), (1048576, 65536),
     (1179648, 131072), (1310720, 65536), (1376256, 65536), (1441792, 16384), (1458176, 16384),
     (1474560, 16384), (1490944, 16384), (1507328, 16384), (1523712, 16384), (1540096, 16384),
     (1556480, 16384), (1572864, 16384), (1589248, 16384), (1605632, 16384), (1622016, 8192),
     (1630208, 8192), (1638400, 8192), (1646592, 8192), (1654784, 8192), (1662976, 8192),
     (1671168, 8192), (1679360, 8192), (1687552, 8192), (1695744, 8192), (1703936, 8192),
     (1712128, 8192), (1720320, 16384)]"
  by (simp add: initial_queue_size_table_def align_queue_def layout_Cons del: layout.simps(2))

lemma layout_capture: "layout initial_queue_size_table 207360 =
    [(262144, 65536), (327680, 65536), (393216, 32768), (425984, 32768), (458752, 65536),
     (524288, 131072), (655360, 65536), (720896, 65536), (786432, 16384), (802816, 16384),
     (819200, 16384), (835584, 16384), (851968, 16384), (868352, 16384), (884736, 16384),
     (901120, 16384), (917504, 16384), (933888, 16384), (950272, 16384), (966656, 8192),
     (974848, 8192), (983040, 8192), (991232, 8192), (999424, 8192), (1007616, 8192),
     (1015808, 8192), (1024000, 8192), (1032192, 8192), (1040384, 8192), (1048576, 8192),
     (1056768, 8192), (1064960, 16384)]"
  by (simp add: initial_queue_size_table_def align_queue_def layout_Cons del: layout.simps(2))

lemma layout_inside:
  "list_all (\<lambda>b. list_all (\<lambda>(a, n). a + n \<le> AVIA_GT_MEM_DMX_OFFS b b + AVIA_GT_MEM_DMX_SIZE)
     (layout initial_queue_size_table (AVIA_GT_MEM_DMX_OFFS b b))) [True, False]"
  by (simp add: dmx_offs layout_both layout_none AVIA_GT_MEM_DMX_SIZE_def)

text \<open>With only one of the two configured, the last queues are outside.\<close>

lemma layout_outside:
  "filter (\<lambda>i. AVIA_GT_MEM_DMX_OFFS True False + AVIA_GT_MEM_DMX_SIZE
      < (\<lambda>(a, n). a + n) (layout initial_queue_size_table (AVIA_GT_MEM_DMX_OFFS True False) ! i)) [0 ..< 32]
     = [24 ..< 32]"
  "filter (\<lambda>i. AVIA_GT_MEM_DMX_OFFS False True + AVIA_GT_MEM_DMX_SIZE
      < (\<lambda>(a, n). a + n) (layout initial_queue_size_table (AVIA_GT_MEM_DMX_OFFS False True) ! i)) [0 ..< 32]
     = [28 ..< 32]"
  by (simp_all add: dmx_offs layout_gv layout_capture AVIA_GT_MEM_DMX_SIZE_def upt_rec)

lemma queue_outside:
  assumes init: "avia_gt_dmx_init (AVIA_GT_MEM_DMX_OFFS gv capture) h img hw s = Some (r, s')"
    and table: "queue_size_table s = initial_queue_size_table" and one: "gv \<noteq> capture"
  shows "AVIA_GT_MEM_DMX_OFFS gv capture + AVIA_GT_MEM_DMX_SIZE < mem_addr (the_queue 31 s') + q_size (the_queue 31 s')"
proof -
  let ?l = "layout initial_queue_size_table (AVIA_GT_MEM_DMX_OFFS gv capture)"
  have len: "length initial_queue_size_table = 32" by (simp add: initial_queue_size_table_def)
  have place: "mem_addr (the_queue 31 s') = fst (?l ! 31)" "q_size (the_queue 31 s') = snd (?l ! 31)"
    using init_queue_place [OF init, of 31] len table by (simp, metis fst_conv, simp, metis snd_conv)
  have "(gv, capture) = (True, False) \<or> (gv, capture) = (False, True)" using one by (cases gv) auto
  then show ?thesis
    unfolding place by (auto simp: dmx_offs layout_gv layout_capture AVIA_GT_MEM_DMX_SIZE_def)
qed

lemma queue_layout_facts:
  assumes init: "avia_gt_dmx_init (AVIA_GT_MEM_DMX_OFFS gv capture) h img hw s = Some (r, s')"
    and table: "queue_size_table s = initial_queue_size_table"
  shows "i < 32 \<Longrightarrow> mem_addr (the_queue i s') mod q_size (the_queue i s') = 0"
    and "i < j \<Longrightarrow> j < 32 \<Longrightarrow> mem_addr (the_queue i s') + q_size (the_queue i s') \<le> mem_addr (the_queue j s')"
    and "gv = capture \<Longrightarrow> i < 32 \<Longrightarrow> AVIA_GT_MEM_DMX_OFFS gv capture \<le> mem_addr (the_queue i s')
      \<and> mem_addr (the_queue i s') + q_size (the_queue i s') \<le> AVIA_GT_MEM_DMX_OFFS gv capture + AVIA_GT_MEM_DMX_SIZE"
proof -
  let ?l = "layout initial_queue_size_table (AVIA_GT_MEM_DMX_OFFS gv capture)"
  have len: "length initial_queue_size_table = 32" by (simp add: initial_queue_size_table_def)
  have place: "mem_addr (the_queue i s') = fst (?l ! i)" "q_size (the_queue i s') = snd (?l ! i)" if "i < 32" for i
    using init_queue_place [OF init _ that] len table by (metis fst_conv, metis snd_conv)
  show "i < 32 \<Longrightarrow> mem_addr (the_queue i s') mod q_size (the_queue i s') = 0"
    by (simp add: place layout_aligned len)
  show "i < j \<Longrightarrow> j < 32 \<Longrightarrow> mem_addr (the_queue i s') + q_size (the_queue i s') \<le> mem_addr (the_queue j s')"
    by (simp add: place layout_ordered len)
  assume eq: "gv = capture" and i: "i < 32"
  have "list_all (\<lambda>(a, n). a + n \<le> AVIA_GT_MEM_DMX_OFFS gv capture + AVIA_GT_MEM_DMX_SIZE) ?l"
    using layout_inside eq by (cases capture) simp_all
  moreover have "?l ! i \<in> set ?l" using i len by (intro nth_mem) simp
  ultimately have "fst (?l ! i) + snd (?l ! i) \<le> AVIA_GT_MEM_DMX_OFFS gv capture + AVIA_GT_MEM_DMX_SIZE"
    by (auto simp: list_all_iff)
  moreover have "AVIA_GT_MEM_DMX_OFFS gv capture \<le> fst (?l ! i)" using i len by (intro layout_above) simp
  ultimately show "AVIA_GT_MEM_DMX_OFFS gv capture \<le> mem_addr (the_queue i s')
      \<and> mem_addr (the_queue i s') + q_size (the_queue i s') \<le> AVIA_GT_MEM_DMX_OFFS gv capture + AVIA_GT_MEM_DMX_SIZE"
    using i by (simp add: place)
qed

text \<open>
  C25: After the initialisation every queue lies at a multiple of its size and no two queues overlap;
  and all of them lie inside the memory of the demultiplexer exactly when the graphics and the capture
  memory are both configured or both not: with only one of them the last queues lie behind its end.
\<close>

theorem queue_layout:
  assumes "avia_gt_dmx_init (AVIA_GT_MEM_DMX_OFFS gv capture) h img hw s = Some (r, s')"
    and "queue_size_table s = initial_queue_size_table"
  shows "(\<forall>i < 32. mem_addr (the_queue i s') mod q_size (the_queue i s') = 0)
    \<and> (\<forall>j < 32. \<forall>i < j. mem_addr (the_queue i s') + q_size (the_queue i s') \<le> mem_addr (the_queue j s'))
    \<and> (gv = capture \<longleftrightarrow> (\<forall>i < 32. AVIA_GT_MEM_DMX_OFFS gv capture \<le> mem_addr (the_queue i s')
        \<and> mem_addr (the_queue i s') + q_size (the_queue i s') \<le> AVIA_GT_MEM_DMX_OFFS gv capture + AVIA_GT_MEM_DMX_SIZE))"
proof -
  have "\<exists>i < 32. \<not> mem_addr (the_queue i s') + q_size (the_queue i s') \<le> AVIA_GT_MEM_DMX_OFFS gv capture + AVIA_GT_MEM_DMX_SIZE"
    if "gv \<noteq> capture"
    using queue_outside [OF assms that] by (intro exI [of _ 31]) simp
  then show ?thesis using queue_layout_facts [OF assms] by blast
qed


lemma ex_gt_init: "\<exists>s'. avia_gt_dmx_init (AVIA_GT_MEM_DMX_OFFS True True) 9 ex_image True ex_gt = Some (Inr 0, s')"
proof -
  have "\<exists>u. avia_gt_dmx_risc_init ex_image False (ucode ex_gt) = Some u"
    by (simp add: avia_gt_dmx_risc_init_def avia_gt_dmx_set_ucode_info_def ex_image_def Let_def)
  then show ?thesis
    by (auto simp: avia_gt_dmx_init_def Let_def split: prod.splits option.splits)
qed

theorem queue_layout_witness:
  "\<exists>s'. avia_gt_dmx_init (AVIA_GT_MEM_DMX_OFFS True True) 9 ex_image True ex_gt = Some (Inr 0, s')
     \<and> mem_addr (the_queue 3 s') + q_size (the_queue 3 s') \<le> mem_addr (the_queue 4 s')
     \<and> mem_addr (the_queue 31 s') + q_size (the_queue 31 s') \<le> AVIA_GT_MEM_DMX_OFFS True True + AVIA_GT_MEM_DMX_SIZE"
proof -
  obtain s' where s': "avia_gt_dmx_init (AVIA_GT_MEM_DMX_OFFS True True) 9 ex_image True ex_gt = Some (Inr 0, s')"
    using ex_gt_init by blast
  have "queue_size_table ex_gt = initial_queue_size_table" by (simp add: ex_gt_def)
  from queue_layout [OF s' this] s' show ?thesis by force
qed

text \<open>In transport stream mode the video queue covers the audio queue, and nothing behind it.\<close>

lemma spts_covers_audio:
  assumes "avia_gt_dmx_init (AVIA_GT_MEM_DMX_OFFS True True) h img hw s = Some (r, s')"
    "queue_size_table s = initial_queue_size_table"
  shows "mem_addr (the_queue 0 s') + 2 ^ 11 * 64 = mem_addr (the_queue 1 s') + q_size (the_queue 1 s')"
proof -
  have "layout initial_queue_size_table (AVIA_GT_MEM_DMX_OFFS True True) ! 0 = (1048576, 65536)"
    "layout initial_queue_size_table (AVIA_GT_MEM_DMX_OFFS True True) ! 1 = (1114112, 65536)"
    by (simp_all add: dmx_offs layout_both)
  moreover have "length initial_queue_size_table = 32" by (simp add: initial_queue_size_table_def)
  ultimately show ?thesis
    using init_queue_place [OF assms(1), of 0] init_queue_place [OF assms(1), of 1] assms(2) by simp
qed


section \<open>Writing to a decoder\<close>

text \<open>What the decoder has still to read, with its read pointer at rest.\<close>

definition decoder_pos :: "nat \<Rightarrow> gt_state \<Rightarrow> nat" where
  "decoder_pos nr s = hd (aq_rp s ! aq_reg nr) - mem_addr (the_queue nr s)"

definition decoder_contents :: "nat \<Rightarrow> gt_state \<Rightarrow> u8 list" where
  "decoder_contents nr s = ring_contents (region s (the_queue nr s)) (decoder_pos nr s) (write_pos (the_queue nr s))"

definition decoder_inv :: "nat \<Rightarrow> gt_state \<Rightarrow> bool" where
  "decoder_inv nr s \<longleftrightarrow> nr < 3 \<and> nr < length (queue_list s) \<and> length (aq_wp s) = 3
     \<and> write_pos (the_queue nr s) < q_size (the_queue nr s)
     \<and> mem_addr (the_queue nr s) + q_size (the_queue nr s) \<le> length (gt_mem s)
     \<and> mem_addr (the_queue nr s) + q_size (the_queue nr s) \<le> 2 ^ 22
     \<and> length (aq_rp s ! aq_reg nr) = 1
     \<and> mem_addr (the_queue nr s) \<le> hd (aq_rp s ! aq_reg nr)
     \<and> hd (aq_rp s ! aq_reg nr) < mem_addr (the_queue nr s) + q_size (the_queue nr s)"

lemma the_queue_mem: "the_queue nr (s\<lparr>gt_mem := m\<rparr>) = the_queue nr s"
  by (simp add: the_queue_def)

lemma region_blit:
  assumes "a + n \<le> length mem" "w + length xs \<le> n"
  shows "mem_bytes (blit mem (a + w) xs) a n = blit (mem_bytes mem a n) w xs"
proof (rule nth_equalityI)
  show "length (mem_bytes (blit mem (a + w) xs) a n) = length (blit (mem_bytes mem a n) w xs)"
    using assms by (simp add: mem_bytes_def)
next
  fix i
  assume "i < length (mem_bytes (blit mem (a + w) xs) a n)"
  then have i: "i < n" using assms by (simp add: mem_bytes_def)
  then have "mem_bytes (blit mem (a + w) xs) a n ! i = blit mem (a + w) xs ! (a + i)"
    using assms by (simp add: mem_bytes_def)
  then show "mem_bytes (blit mem (a + w) xs) a n ! i = blit (mem_bytes mem a n) w xs ! i"
    using assms i nth_blit [of "a + w" xs mem "a + i"] nth_blit [of w xs "mem_bytes mem a n" i]
    by (simp add: mem_bytes_def)
qed

lemma bytes_free_effect:
  assumes "decoder_inv nr s"
  shows "avia_gt_dmx_queue_get_bytes_free nr s
    = (q_size (the_queue nr s) - 1 - length (decoder_contents nr s),
       upd_queue nr (\<lambda>q. q\<lparr>hw_read_pos := decoder_pos nr s\<rparr>) s)"
proof -
  let ?q = "the_queue nr s"
  obtain v where v: "aq_rp s ! aq_reg nr = [v]" "mem_addr ?q \<le> v" "v < mem_addr ?q + q_size ?q"
    using assms by (cases "aq_rp s ! aq_reg nr") (auto simp: decoder_inv_def)
  have same: "(aq_rp s)[aq_reg nr := [v]] = aq_rp s" using v(1) by (metis list_update_id)
  have rp: "avia_gt_dmx_system_queue_get_read_pos nr s = (v - mem_addr ?q, s)"
    using assms v same
    by (simp add: avia_gt_dmx_system_queue_get_read_pos_def avia_gt_dmx_queue_is_system_queue_def
        decoder_inv_def gt_consts Let_def)
  have pos: "decoder_pos nr s = v - mem_addr ?q" by (simp add: decoder_pos_def v)
  have len: "length (decoder_contents nr s) = ring_dist (q_size ?q) (v - mem_addr ?q) (write_pos ?q)"
    using assms by (simp add: decoder_contents_def pos decoder_inv_def length_region)
  show ?thesis
    using assms v
    by (auto simp: avia_gt_dmx_queue_get_bytes_free_def avia_gt_dmx_queue_is_system_queue_def rp pos len
        ring_dist_def decoder_inv_def gt_consts Let_def)
qed

lemma data_put_effect:
  assumes inv: "decoder_inv nr s" and fits: "length xs \<le> q_size (the_queue nr s) - 1 - length (decoder_contents nr s)"
  defines "s' \<equiv> snd (avia_gt_dmx_queue_data_put nr xs s)"
  shows "fst (avia_gt_dmx_queue_data_put nr xs s) = length xs"
    and "decoder_contents nr s' = decoder_contents nr s @ xs" and "decoder_inv nr s'"
    and "aq_rp s' = aq_rp s" and "q_size (the_queue nr s') = q_size (the_queue nr s)"
    "mem_addr (the_queue nr s') = mem_addr (the_queue nr s)" "length (aq_wp s') = length (aq_wp s)"
proof -
  let ?q = "the_queue nr s"
  let ?N = "q_size ?q" and ?w = "write_pos ?q" and ?r = "decoder_pos nr s" and ?n = "length xs"
  define s1 where "s1 = upd_queue nr (\<lambda>q. q\<lparr>hw_read_pos := ?r\<rparr>) s"
  have b: "nr < 3" "nr < length (queue_list s)" "?w < ?N" "mem_addr ?q + ?N \<le> length (gt_mem s)" "?r < ?N"
    using inv by (auto simp: decoder_inv_def decoder_pos_def)
  have lenr: "length (region s ?q) = ?N" using b by (simp add: length_region)
  have lend: "length (decoder_contents nr s) = ring_dist ?N ?r ?w" by (simp add: decoder_contents_def lenr)
  have dl: "ring_dist ?N ?r ?w < ?N" using b by (intro ring_dist_less)
  then have room: "ring_dist ?N ?r ?w + ?n < ?N" using fits lend by linarith
  then have n: "?n < ?N" by linarith
  have q1: "the_queue nr s1 = ?q\<lparr>hw_read_pos := ?r\<rparr>" using b by (simp add: s1_def)
  define ready where "ready = (if ?N \<le> ?w + ?n then ?N - ?w else 0)"
  define wp where "wp = (if ?N \<le> ?w + ?n then 0 else ?w)"
  define mem2 where "mem2 = blit (if ?N \<le> ?w + ?n then blit (gt_mem s) (mem_addr ?q + ?w) (take ready xs) else gt_mem s)
    (mem_addr ?q + wp) (take (?n - ready) (drop ready xs))"
  have put: "avia_gt_dmx_queue_data_put nr xs s
      = (?n, upd_queue nr (\<lambda>q. q\<lparr>write_pos := wp + (?n - ready)\<rparr>) (s1\<lparr>gt_mem := mem2\<rparr>))"
    using b fits lend
    unfolding avia_gt_dmx_queue_data_put_def bytes_free_effect [OF inv] s1_def [symmetric] mem2_def wp_def ready_def
    by (simp add: q1 avia_gt_dmx_queue_is_system_queue_def gt_consts Let_def min_def s1_def)
  then show "fst (avia_gt_dmx_queue_data_put nr xs s) = ?n" by simp
  have wp': "wp + (?n - ready) = (?w + ?n) mod ?N"
    using b n by (auto simp: wp_def ready_def mod_less_double)
  have s': "the_queue nr s' = ?q\<lparr>hw_read_pos := ?r, write_pos := (?w + ?n) mod ?N\<rparr>" "gt_mem s' = mem2"
    "aq_rp s' = aq_rp s" "length (queue_list s') = length (queue_list s)" "aq_wp s' = aq_wp s"
    using b q1 by (simp_all add: s'_def put wp' the_queue_mem s1_def)
  have mem: "mem_bytes mem2 (mem_addr ?q) ?N = ring_store (region s ?q) ?w xs" "length mem2 = length (gt_mem s)"
  proof -
    have 1: "mem_bytes (blit (gt_mem s) (mem_addr ?q + ?w) (take ready xs)) (mem_addr ?q) ?N
        = blit (region s ?q) ?w (take ready xs)" if "?N \<le> ?w + ?n"
      using b that by (subst region_blit) (auto simp: region_def ready_def)
    show "mem_bytes mem2 (mem_addr ?q) ?N = ring_store (region s ?q) ?w xs"
      using b n lenr 1 region_blit [of "mem_addr ?q" ?N "gt_mem s" ?w xs]
        region_blit [of "mem_addr ?q" ?N "blit (gt_mem s) (mem_addr ?q + ?w) (take ready xs)" 0 "take (?n - ready) (drop ready xs)"]
      by (auto simp: mem2_def wp_def ready_def ring_store_def region_def)
    show "length mem2 = length (gt_mem s)"
      using b n by (auto simp: mem2_def wp_def ready_def)
  qed
  have pos': "decoder_pos nr s' = ?r" by (simp add: decoder_pos_def s')
  show "decoder_contents nr s' = decoder_contents nr s @ xs"
    using ring_contents_store [of ?r "region s ?q" ?w xs] b lenr room
    by (simp add: decoder_contents_def pos' s' region_def mem [unfolded region_def])
  show "decoder_inv nr s'"
    using inv b mem(2) by (simp add: decoder_inv_def s')
  show "aq_rp s' = aq_rp s" "q_size (the_queue nr s') = ?N" "mem_addr (the_queue nr s') = mem_addr ?q"
    "length (aq_wp s') = length (aq_wp s)"
    by (simp_all add: s')
qed


declare wait_bytes_free.simps [simp del] queue_write_loop.simps [simp del]

lemma wait_bytes_free_rest:
  assumes "decoder_inv nr s"
  shows "wait_bytes_free nr n nonblock s =
    (if n \<le> q_size (the_queue nr s) - 1 - length (decoder_contents nr s)
     then Returns (Some (upd_queue nr (\<lambda>q. q\<lparr>hw_read_pos := decoder_pos nr s\<rparr>) s))
     else if nonblock then Returns None else Deadlock)"
  by (subst wait_bytes_free.simps) (simp add: bytes_free_effect [OF assms] Let_def)

lemma decoder_hw_read_pos:
  assumes "nr < length (queue_list s)"
  shows "decoder_contents nr (upd_queue nr (\<lambda>q. q\<lparr>hw_read_pos := p\<rparr>) s) = decoder_contents nr s"
    "decoder_inv nr (upd_queue nr (\<lambda>q. q\<lparr>hw_read_pos := p\<rparr>) s) = decoder_inv nr s"
    "q_size (the_queue nr (upd_queue nr (\<lambda>q. q\<lparr>hw_read_pos := p\<rparr>) s)) = q_size (the_queue nr s)"
    "aq_rp (upd_queue nr (\<lambda>q. q\<lparr>hw_read_pos := p\<rparr>) s) = aq_rp s"
  using assms by (simp_all add: decoder_contents_def decoder_pos_def decoder_inv_def region_def)

lemma decoder_aq_wp:
  "decoder_contents nr (avia_gt_dmx_system_queue_set_write_pos nr p s) = decoder_contents nr s"
  "the_queue nr (avia_gt_dmx_system_queue_set_write_pos nr p s) = the_queue nr s"
  by (simp_all add: avia_gt_dmx_system_queue_set_write_pos_def decoder_contents_def decoder_pos_def region_def
      the_queue_def)

lemma decoder_write_effect:
  assumes inv: "decoder_inv nr s" and buf: "buf \<noteq> []" "length buf < q_size (the_queue nr s)"
  defines "room \<equiv> q_size (the_queue nr s) - 1 - length (decoder_contents nr s)"
  shows "length buf \<le> room \<Longrightarrow> \<exists>s'. avia_gt_dmx_queue_write nr buf nonblock s = Returns (Inr (length buf), s')
      \<and> decoder_contents nr s' = decoder_contents nr s @ buf
      \<and> aq_wp s' ! aq_reg nr = mem_addr (the_queue nr s') + write_pos (the_queue nr s')"
    and "room < length buf \<Longrightarrow> \<exists>s'. avia_gt_dmx_queue_write nr buf True s = Returns (Inl EWOULDBLOCK, s')
      \<and> decoder_contents nr s' = decoder_contents nr s \<and> aq_wp s' = aq_wp s"
    and "room < length buf \<Longrightarrow> avia_gt_dmx_queue_write nr buf False s = Deadlock"
proof -
  define q where "q = the_queue nr s"
  define s1 where "s1 = upd_queue nr (\<lambda>q. q\<lparr>hw_read_pos := decoder_pos nr s\<rparr>) s"
  have nr: "nr < 3" "nr < length (queue_list s)" using inv by (simp_all add: decoder_inv_def)
  have sys: "avia_gt_dmx_queue_is_system_queue nr" using nr by (simp add: avia_gt_dmx_queue_is_system_queue_def gt_consts)
  have n: "min (length buf) (q_size q - 1) = length buf" "length buf \<noteq> 0" using buf by (auto simp: q_def)
  have wr: "avia_gt_dmx_queue_write nr buf nonblock s =
    (case wait_bytes_free nr (length buf) nonblock s of
       Returns None \<Rightarrow> Returns (Inl EWOULDBLOCK, snd (avia_gt_dmx_queue_get_bytes_free nr s))
     | Returns (Some s1) \<Rightarrow>
         (let s2 = snd (avia_gt_dmx_queue_data_put nr buf s1);
              s3 = avia_gt_dmx_system_queue_set_write_pos nr (write_pos (the_queue nr s2)) s2
          in Returns (Inr (length buf), s3))
     | Deadlock \<Rightarrow> Deadlock | Fault \<Rightarrow> Fault)" for nonblock
    using sys buf n
    by (simp add: avia_gt_dmx_queue_write_def q_def [symmetric] Let_def queue_write_loop.simps [of nr _ buf]
        queue_write_loop.simps [of nr _ "[]"] split: outcome.splits option.splits)
  note wait = wait_bytes_free_rest [OF inv, folded room_def]
  show "\<exists>s'. avia_gt_dmx_queue_write nr buf nonblock s = Returns (Inr (length buf), s')
      \<and> decoder_contents nr s' = decoder_contents nr s @ buf
      \<and> aq_wp s' ! aq_reg nr = mem_addr (the_queue nr s') + write_pos (the_queue nr s')"
    if fits: "length buf \<le> room"
  proof -
    define s2 where "s2 = snd (avia_gt_dmx_queue_data_put nr buf s1)"
    have inv1: "decoder_inv nr s1" and c1: "decoder_contents nr s1 = decoder_contents nr s"
      and z1: "q_size (the_queue nr s1) = q_size (the_queue nr s)"
      using inv nr by (simp_all add: s1_def decoder_hw_read_pos)
    have "length buf \<le> q_size (the_queue nr s1) - 1 - length (decoder_contents nr s1)"
      using fits by (simp add: room_def c1 z1)
    note e = data_put_effect [OF inv1 this, folded s2_def]
    define s3 where "s3 = avia_gt_dmx_system_queue_set_write_pos nr (write_pos (the_queue nr s2)) s2"
    have "aq_reg nr < 3" using nr by (auto simp: aq_reg_def queue_system_map_def less_Suc_eq numeral_eq_Suc)
    moreover have "length (aq_wp s2) = 3" "write_pos (the_queue nr s2) + mem_addr (the_queue nr s2) < 2 ^ 22"
      using e(3) by (simp_all add: decoder_inv_def)
    ultimately have "aq_wp s3 ! aq_reg nr = mem_addr (the_queue nr s3) + write_pos (the_queue nr s3)"
      using sys by (simp add: s3_def decoder_aq_wp) (simp add: avia_gt_dmx_system_queue_set_write_pos_def)
    moreover have "avia_gt_dmx_queue_write nr buf nonblock s = Returns (Inr (length buf), s3)"
      using fits by (simp add: wr wait s1_def [symmetric] s2_def [symmetric] s3_def [symmetric] Let_def)
    moreover have "decoder_contents nr s3 = decoder_contents nr s @ buf"
      using e(2) c1 by (simp add: s3_def decoder_aq_wp)
    ultimately show ?thesis by blast
  qed
  show "\<exists>s'. avia_gt_dmx_queue_write nr buf True s = Returns (Inl EWOULDBLOCK, s')
      \<and> decoder_contents nr s' = decoder_contents nr s \<and> aq_wp s' = aq_wp s" if "room < length buf"
    using that nr by (simp add: wr wait bytes_free_effect [OF inv] decoder_hw_read_pos)
  show "avia_gt_dmx_queue_write nr buf False s = Deadlock" if "room < length buf"
    using that by (simp add: wr wait)
qed

text \<open>
  A write of at most the size of a decoder queue less one, with the decoder at rest, puts all bytes
  behind those the decoder has still to read and publishes the new write position, if there is room; if
  not, nothing is written, and the call returns \<open>EAGAIN\<close> without blocking and otherwise never returns.
\<close>

theorem decoder_write_all_or_nothing:
  assumes "decoder_inv nr s" "buf \<noteq> []" "length buf < q_size (the_queue nr s)"
  shows "if length buf \<le> q_size (the_queue nr s) - 1 - length (decoder_contents nr s)
    then \<exists>s'. avia_gt_dmx_queue_write nr buf nonblock s = Returns (Inr (length buf), s')
      \<and> decoder_contents nr s' = decoder_contents nr s @ buf
      \<and> aq_wp s' ! aq_reg nr = mem_addr (the_queue nr s') + write_pos (the_queue nr s')
    else if nonblock
    then \<exists>s'. avia_gt_dmx_queue_write nr buf nonblock s = Returns (Inl EWOULDBLOCK, s')
      \<and> decoder_contents nr s' = decoder_contents nr s \<and> aq_wp s' = aq_wp s
    else avia_gt_dmx_queue_write nr buf nonblock s = Deadlock"
  using decoder_write_effect [OF assms] by (cases nonblock) auto


definition ex_gt_decoder :: gt_state where
  "ex_gt_decoder = upd_queue 0 (\<lambda>q. q\<lparr>mem_addr := 4, q_size := 16, write_pos := 14\<rparr>) (ex_gt\<lparr>aq_rp := replicate 3 [16]\<rparr>)"

theorem decoder_write_all_or_nothing_witness:
  "\<exists>s'. avia_gt_dmx_queue_write 0 [1, 2, 3, 4] True ex_gt_decoder = Returns (Inr 4, s')
     \<and> decoder_contents 0 s' = [0, 0, 1, 2, 3, 4]"
proof -
  have "decoder_inv 0 ex_gt_decoder" "q_size (the_queue 0 ex_gt_decoder) = 16" "decoder_contents 0 ex_gt_decoder = [0, 0]"
    by (simp_all add: decoder_inv_def ex_gt_decoder_def ex_gt_def the_queue_def upd_queue_def gt_queue0_def ex_queue_def
        aq_reg_def queue_system_map_def decoder_contents_def decoder_pos_def region_def mem_bytes_def ring_contents_def
        ring_dist_def upt_rec)
  then show ?thesis
    using decoder_write_all_or_nothing [of 0 ex_gt_decoder "[1, 2, 3, 4]" True]
    by (auto simp: eval_nat_numeral)
qed


section \<open>Sharing of the system queues\<close>

definition sys_isr :: "gt_state \<Rightarrow> nat \<Rightarrow> nat" where
  "sys_isr s nr = isr_nr (avia_gt_dmx_get_queue_irq (gt_chip s) nr)"

definition irq_installed :: "gt_state \<Rightarrow> nat \<Rightarrow> bool" where
  "irq_installed s sys \<longleftrightarrow> gt_isr_proc_list s ! sys_isr s sys \<noteq> None"

lemma sys_isr_values:
  "sys_isr s 0 = (case gt_chip s of ENX \<Rightarrow> 86 | GTX \<Rightarrow> 32)" "sys_isr s 1 = (case gt_chip s of ENX \<Rightarrow> 87 | GTX \<Rightarrow> 33)"
  "sys_isr s 2 = (case gt_chip s of ENX \<Rightarrow> 65 | GTX \<Rightarrow> 34)"
  by (simp_all add: sys_isr_def isr_nr_def avia_gt_dmx_get_queue_irq_def AVIA_GT_IRQ_def AVIA_GT_IRQ_BIT_def
      AVIA_GT_IRQ_REG_def AVIA_GT_ISR_PROC_NR_def gt_consts split: gt_chip_type.splits)

lemma get_write_pos_frame [frame_simps]:
  "queue_client (snd (avia_gt_dmx_queue_get_write_pos nr s)) = queue_client s"
  "gt_chip (snd (avia_gt_dmx_queue_get_write_pos nr s)) = gt_chip s"
  "gt_isr_proc_list (snd (avia_gt_dmx_queue_get_write_pos nr s)) = gt_isr_proc_list s"
  by (simp_all add: avia_gt_dmx_queue_get_write_pos_def avia_gt_dmx_map_queue_def avia_gt_dmx_queue_set_write_pos_def
      write_qwp_def Let_def split: prod.splits)

lemma setup_client_effect:
  assumes "length (gt_isr_proc_list s) = 128" "sys_isr s sys < 128"
  shows "queue_client (setup_client new sys s) = (queue_client s)[sys := new]"
    and "gt_chip (setup_client new sys s) = gt_chip s"
    and "\<exists>v. gt_isr_proc_list (setup_client new sys s) = (gt_isr_proc_list s)[sys_isr s sys := v] \<and>
      (v \<noteq> None) = (if (queue_client s ! sys = None) = (new = None) then irq_installed s sys else new \<noteq> None)"
proof -
  let ?t = "s\<lparr>queue_client := (queue_client s)[sys := new]\<rparr>"
  obtain wp t where gw: "avia_gt_dmx_queue_get_write_pos sys ?t = (wp, t)" by (metis surj_pair)
  have t: "queue_client t = (queue_client s)[sys := new]" "gt_chip t = gt_chip s" "gt_isr_proc_list t = gt_isr_proc_list s"
    using get_write_pos_frame [of sys ?t] gw by simp_all
  note d = setup_client_def gw t system_queue_irq_enable_def system_queue_irq_disable_def avia_gt_alloc_irq_def
    avia_gt_free_irq_def Let_def sys_isr_def irq_installed_def
  show "queue_client (setup_client new sys s) = (queue_client s)[sys := new]" "gt_chip (setup_client new sys s) = gt_chip s"
    by (simp_all add: d)
  consider (on) "new \<noteq> None \<and> queue_client s ! sys = None \<and> gt_isr_proc_list s ! sys_isr s sys = None"
    | (off) "new = None \<and> queue_client s ! sys \<noteq> None"
    | (same) "(new \<noteq> None) = (queue_client s ! sys \<noteq> None) \<or> new \<noteq> None \<and> gt_isr_proc_list s ! sys_isr s sys \<noteq> None" by blast
  then show "\<exists>v. gt_isr_proc_list (setup_client new sys s) = (gt_isr_proc_list s)[sys_isr s sys := v] \<and>
      (v \<noteq> None) = (if (queue_client s ! sys = None) = (new = None) then irq_installed s sys else new \<noteq> None)"
  proof cases
    case on
    then show ?thesis using assms by (intro exI [of _ "Some IsrQueue"]) (auto simp: d)
  next
    case off
    then show ?thesis by (intro exI [of _ None]) (auto simp: d)
  next
    case same
    then show ?thesis using assms by (intro exI [of _ "gt_isr_proc_list s ! sys_isr s sys"]) (auto simp: d)
  qed
qed

lemma sys_isr_lt3: "k < 3 \<Longrightarrow> sys_isr t k < 128"
  using sys_isr_values [of t] by (auto simp: less_Suc_eq numeral_eq_Suc split: gt_chip_type.splits)

lemma sys_isr_distinct: "k < 3 \<Longrightarrow> l < 3 \<Longrightarrow> k \<noteq> l \<Longrightarrow> sys_isr t k \<noteq> sys_isr t l"
  using sys_isr_values [of t] by (auto simp: less_Suc_eq numeral_eq_Suc split: gt_chip_type.splits)

text \<open>What has been settled after the first system queues have been looked at.\<close>

definition clients_settled :: "gt_state \<Rightarrow> nat \<Rightarrow> gt_state \<Rightarrow> bool" where
  "clients_settled s n t \<longleftrightarrow> gt_chip t = gt_chip s \<and> length (queue_client t) = 3 \<and> length (gt_isr_proc_list t) = 128
     \<and> (\<forall>sys < 3. if sys < n
          then queue_client t ! sys = new_queue_client s sys \<and>
            irq_installed t sys = (if (queue_client s ! sys = None) = (new_queue_client s sys = None)
              then irq_installed s sys else new_queue_client s sys \<noteq> None)
          else queue_client t ! sys = queue_client s ! sys \<and> irq_installed t sys = irq_installed s sys)"

lemma clients_settled_step:
  assumes t: "clients_settled s n t" and n: "n < 3"
  shows "clients_settled s (Suc n) (setup_client (new_queue_client s n) n t)" (is "clients_settled s _ ?t")
proof -
  have old: "gt_chip t = gt_chip s" "length (queue_client t) = 3" "length (gt_isr_proc_list t) = 128"
      "queue_client t ! n = queue_client s ! n" "irq_installed t n = irq_installed s n"
    using t n by (auto simp: clients_settled_def)
  obtain v where e: "gt_isr_proc_list ?t = (gt_isr_proc_list t)[sys_isr t n := v]"
      "(v \<noteq> None) = (if (queue_client t ! n = None) = (new_queue_client s n = None) then irq_installed t n
        else new_queue_client s n \<noteq> None)"
    and c: "queue_client ?t = (queue_client t)[n := new_queue_client s n]" "gt_chip ?t = gt_chip t"
    using setup_client_effect [OF old(3) sys_isr_lt3 [OF n]] by metis
  have irq: "irq_installed ?t k = (if k = n then v \<noteq> None else irq_installed t k)" if "k < 3" for k
    using that n c(2) e(1) old(3) sys_isr_lt3 [OF n, of t] sys_isr_distinct [OF n that, of t]
    by (auto simp: irq_installed_def sys_isr_def nth_list_update)
  show ?thesis
    using t n c e old by (auto simp: clients_settled_def irq nth_list_update less_Suc_eq)
qed

lemma system_irqs_effect:
  assumes "length (queue_client s) = 3" "length (gt_isr_proc_list s) = 128"
  shows "clients_settled s 3 (avia_gt_dmx_enable_disable_system_queue_irqs s)"
proof -
  have "clients_settled s 0 s" using assms by (simp add: clients_settled_def)
  from clients_settled_step [OF clients_settled_step [OF clients_settled_step [OF this]]]
  show ?thesis
    by (simp add: avia_gt_dmx_enable_disable_system_queue_irqs_def gt_consts upt_rec numeral_eq_Suc)
qed

text \<open>
  C26: When the driver looks for clients, a system queue gets the first running user queue with its PID
  and mode as its client, or none if there is none. Its interrupt is installed when it gets a client and
  had none, and removed when it loses its client; in the other two cases the interrupt is left as it was.
  (So the interrupt is on exactly while there is a client, as long as nothing else touches it; stopping
  the system queue itself does, see \<open>restarted_queue_loses_client\<close>.)
\<close>

theorem system_queue_sharing_exact:
  assumes "length (queue_client s) = 3" "length (gt_isr_proc_list s) = 128" "sys < 3"
  defines "s' \<equiv> avia_gt_dmx_enable_disable_system_queue_irqs s"
  shows "queue_client s' ! sys = find (\<lambda>nr. running (the_queue nr s) \<and> q_pid (the_queue sys s) \<noteq> 0xFFFF
        \<and> q_pid (the_queue nr s) = q_pid (the_queue sys s) \<and> q_mode (the_queue nr s) = q_mode (the_queue sys s)) [3 ..< 32]
    \<and> irq_installed s' sys =
        (if queue_client s ! sys = None \<and> queue_client s' ! sys \<noteq> None then True
         else if queue_client s ! sys \<noteq> None \<and> queue_client s' ! sys = None then False
         else irq_installed s sys)"
proof -
  have e: "queue_client s' ! sys = new_queue_client s sys"
      "irq_installed s' sys = (if (queue_client s ! sys = None) = (new_queue_client s sys = None)
              then irq_installed s sys else new_queue_client s sys \<noteq> None)"
    using system_irqs_effect [OF assms(1,2)] assms(3) by (simp_all add: clients_settled_def s'_def)
  have "new_queue_client s sys = find (\<lambda>nr. running (the_queue nr s) \<and> q_pid (the_queue sys s) \<noteq> 0xFFFF
        \<and> q_pid (the_queue nr s) = q_pid (the_queue sys s) \<and> q_mode (the_queue nr s) = q_mode (the_queue sys s)) [3 ..< 32]"
    unfolding new_queue_client_def AVIA_GT_DMX_QUEUE_USER_START_def AVIA_GT_DMX_QUEUE_COUNT_def
    by (rule arg_cong [where f = "\<lambda>p. find p _"]) auto
  with e show ?thesis by auto
qed

definition ex_gt_shared :: gt_state where
  "ex_gt_shared = upd_queue 5 (\<lambda>q. q\<lparr>running := True\<rparr>)
     (upd_queue 2 (\<lambda>q. q\<lparr>busy := True, q_pid := 0x100, q_mode := PES, mem_addr := 4, q_size := 256\<rparr>) ex_gt)"

lemma new_queue_client_ex: "map (new_queue_client ex_gt_shared) [0, 1, 2] = [None, None, Some 5]"
  by code_simp

theorem system_queue_sharing_exact_witness:
  "queue_client (avia_gt_dmx_enable_disable_system_queue_irqs ex_gt_shared) ! 2 = Some 5
    \<and> irq_installed (avia_gt_dmx_enable_disable_system_queue_irqs ex_gt_shared) 2"
proof -
  have "find (\<lambda>nr. running (the_queue nr ex_gt_shared) \<and> q_pid (the_queue 2 ex_gt_shared) \<noteq> 0xFFFF
        \<and> q_pid (the_queue nr ex_gt_shared) = q_pid (the_queue 2 ex_gt_shared)
        \<and> q_mode (the_queue nr ex_gt_shared) = q_mode (the_queue 2 ex_gt_shared)) [3 ..< 32] = Some 5"
    by code_simp
  moreover have "length (queue_client ex_gt_shared) = 3" "length (gt_isr_proc_list ex_gt_shared) = 128"
      "queue_client ex_gt_shared ! 2 = None"
    by (simp_all add: ex_gt_shared_def ex_gt_def upd_queue_def)
  ultimately show ?thesis using system_queue_sharing_exact [of ex_gt_shared 2] by simp
qed

text \<open>What the search for the client of one system queue leaves alone.\<close>

lemma setup_client_frame:
  shows "gt_chip (setup_client new sys s) = gt_chip s"
    and "k \<noteq> sys \<Longrightarrow> queue_client (setup_client new sys s) ! k = queue_client s ! k"
    and "i \<noteq> sys_isr s sys \<Longrightarrow> gt_isr_proc_list (setup_client new sys s) ! i = gt_isr_proc_list s ! i"
proof -
  let ?t = "s\<lparr>queue_client := (queue_client s)[sys := new]\<rparr>"
  obtain wp t where gw: "avia_gt_dmx_queue_get_write_pos sys ?t = (wp, t)" by (metis surj_pair)
  have t: "queue_client t = (queue_client s)[sys := new]" "gt_chip t = gt_chip s" "gt_isr_proc_list t = gt_isr_proc_list s"
    using get_write_pos_frame [of sys ?t] gw by simp_all
  note d = setup_client_def gw t system_queue_irq_enable_def system_queue_irq_disable_def
        avia_gt_alloc_irq_def avia_gt_free_irq_def Let_def sys_isr_def
  show "gt_chip (setup_client new sys s) = gt_chip s"
    "k \<noteq> sys \<Longrightarrow> queue_client (setup_client new sys s) ! k = queue_client s ! k"
    "i \<noteq> sys_isr s sys \<Longrightarrow> gt_isr_proc_list (setup_client new sys s) ! i = gt_isr_proc_list s ! i"
    by (simp_all add: d)
qed

lemma setup_client_kept:
  "queue_client s ! sys \<noteq> None \<Longrightarrow> new \<noteq> None \<Longrightarrow>
     gt_isr_proc_list (setup_client new sys s) = gt_isr_proc_list s"
  by (auto simp: setup_client_def Let_def)

lemma system_irqs_keep_entered_client:
  assumes sys: "sys < 3" and client: "queue_client s ! sys \<noteq> None" "new_queue_client s sys \<noteq> None"
  shows "gt_isr_proc_list (avia_gt_dmx_enable_disable_system_queue_irqs s) ! sys_isr s sys = gt_isr_proc_list s ! sys_isr s sys"
proof -
  have ne: "sys_isr t k \<noteq> sys_isr s sys" if "k < 3" "k \<noteq> sys" "gt_chip t = gt_chip s" for t k
  proof -
    have "k = 0 \<or> k = 1 \<or> k = 2" "sys = 0 \<or> sys = 1 \<or> sys = 2" using that(1) sys by auto
    then show ?thesis using that(2,3) sys_isr_values [of s] sys_isr_values [of t] by (auto split: gt_chip_type.splits)
  qed
  have step: "gt_isr_proc_list (setup_client (new_queue_client s k) k t) ! sys_isr s sys = gt_isr_proc_list t ! sys_isr s sys
      \<and> gt_chip (setup_client (new_queue_client s k) k t) = gt_chip s
      \<and> (k < sys \<longrightarrow> queue_client (setup_client (new_queue_client s k) k t) ! sys = queue_client t ! sys)"
    if "k < 3" "gt_chip t = gt_chip s" "k \<le> sys \<Longrightarrow> queue_client t ! sys \<noteq> None" for k t
  proof (cases "k = sys")
    case True
    then show ?thesis
      using that client setup_client_kept [of t sys "new_queue_client s sys"] by (simp add: setup_client_frame(1))
  next
    case False
    then show ?thesis using ne [of k t] that by (simp add: setup_client_frame)
  qed
  define s1 where "s1 = setup_client (new_queue_client s 0) 0 s"
  define s2 where "s2 = setup_client (new_queue_client s 1) 1 s1"
  have s': "avia_gt_dmx_enable_disable_system_queue_irqs s = setup_client (new_queue_client s 2) 2 s2"
    by (simp add: avia_gt_dmx_enable_disable_system_queue_irqs_def gt_consts upt_rec s1_def s2_def numeral_2_eq_2)
  have 1: "gt_isr_proc_list s1 ! sys_isr s sys = gt_isr_proc_list s ! sys_isr s sys" "gt_chip s1 = gt_chip s"
    "1 \<le> sys \<Longrightarrow> queue_client s1 ! sys \<noteq> None"
    using step [of 0 s] client by (auto simp: s1_def)
  have 2: "gt_isr_proc_list s2 ! sys_isr s sys = gt_isr_proc_list s1 ! sys_isr s sys" "gt_chip s2 = gt_chip s"
    "2 \<le> sys \<Longrightarrow> queue_client s2 ! sys \<noteq> None"
    using step [of 1 s1] 1 by (auto simp: s2_def)
  show ?thesis using step [of 2 s2] 1 2 by (simp add: s')
qed

lemma queue_reset_frame [frame_simps]:
  "gt_isr_proc_list (snd (avia_gt_dmx_queue_reset nr s)) = gt_isr_proc_list s"
  "queue_client (snd (avia_gt_dmx_queue_reset nr s)) = queue_client s"
  "gt_chip (snd (avia_gt_dmx_queue_reset nr s)) = gt_chip s"
  "k \<noteq> nr \<Longrightarrow> the_queue k (snd (avia_gt_dmx_queue_reset nr s)) = the_queue k s"
  "length (queue_list (snd (avia_gt_dmx_queue_reset nr s))) = length (queue_list s)"
  by (simp_all add: avia_gt_dmx_queue_reset_def avia_gt_dmx_queue_set_write_pos_def avia_gt_dmx_map_queue_def write_qwp_def
      avia_gt_dmx_system_queue_set_pos_def avia_gt_dmx_system_queue_set_write_pos_def the_queue_def upd_queue_def Let_def)

text \<open>
  Stopping a system queue takes its interrupt away but leaves its client entered; when the queue is
  started again with the PID and the mode of that client, the interrupt is not installed again, and the
  client gets no more data.
\<close>

theorem restarted_queue_loses_client:
  assumes sys: "sys < 3" "length (queue_list s) = 32" "length (gt_isr_proc_list s) = 128"
    and client: "queue_client s ! sys = Some k" "3 \<le> k" "k < 32"
    and wants: "running (the_queue k s)" "q_pid (the_queue k s) = pid" "q_mode (the_queue k s) = mode" "pid \<noteq> 0xFFFF"
  defines "s' \<equiv> snd (avia_gt_dmx_queue_start sys mode pid (snd (avia_gt_dmx_queue_stop sys s)))"
  shows "gt_isr_proc_list s' ! sys_isr s sys = None"
proof -
  define s0 where "s0 = snd (avia_gt_dmx_queue_stop sys s)"
  have sq: "avia_gt_dmx_queue_is_system_queue sys" using sys by (simp add: avia_gt_dmx_queue_is_system_queue_def gt_consts)
  have lt: "sys_isr s sys < 128"
    using sys(1) sys_isr_values [of s] by (auto simp: less_Suc_eq numeral_eq_Suc split: gt_chip_type.splits)
  have s0: "gt_chip s0 = gt_chip s" "queue_client s0 = queue_client s" "gt_isr_proc_list s0 ! sys_isr s sys = None"
    "the_queue k s0 = the_queue k s" "length (queue_list s0) = 32"
    using sys client(2) sq lt
    by (simp_all add: s0_def avia_gt_dmx_queue_stop_def avia_gt_dmx_queue_irq_disable_def avia_gt_free_irq_def
        sys_isr_def gt_consts Let_def the_queue_def upd_queue_def)
  define s1 where "s1 = (if sys = AVIA_GT_DMX_QUEUE_VIDEO then
           (let e = (if mode = TS then 11 else 10)
            in upd_queue sys (\<lambda>q. q\<lparr>q_size := 2 ^ e * 64\<rparr>) (s0\<lparr>queue_size_table := (queue_size_table s0)[0 := e]\<rparr>))
          else s0)"
  define t where "t = upd_queue sys (\<lambda>q. q\<lparr>q_pid := pid, q_mode := mode\<rparr>) (snd (avia_gt_dmx_queue_reset sys s1))"
  have s1: "gt_chip s1 = gt_chip s" "queue_client s1 = queue_client s" "gt_isr_proc_list s1 = gt_isr_proc_list s0"
    "the_queue k s1 = the_queue k s" "length (queue_list s1) = 32"
    using s0 sys(1) client(2) by (simp_all add: s1_def Let_def the_queue_def upd_queue_def)
  have t: "gt_chip t = gt_chip s" "queue_client t ! sys \<noteq> None" "gt_isr_proc_list t ! sys_isr s sys = None"
    "the_queue k t = the_queue k s" "q_pid (the_queue sys t) = pid" "q_mode (the_queue sys t) = mode"
    using s1 s0 sys(1) client by (simp_all add: t_def frame_simps)
  have "k \<in> set [AVIA_GT_DMX_QUEUE_USER_START ..< AVIA_GT_DMX_QUEUE_COUNT]"
    using client(2,3) unfolding set_upt gt_consts atLeastLessThan_iff by blast
  moreover have "running (the_queue k t) \<and> q_pid (the_queue sys t) \<noteq> 0xFFFF
      \<and> q_pid (the_queue sys t) = q_pid (the_queue k t) \<and> q_mode (the_queue sys t) = q_mode (the_queue k t)"
    using t wants by simp
  ultimately have "new_queue_client t sys \<noteq> None"
    unfolding new_queue_client_def find_None_iff by blast
  then have "gt_isr_proc_list (avia_gt_dmx_enable_disable_system_queue_irqs t) ! sys_isr s sys = None"
    using system_irqs_keep_entered_client [OF sys(1) t(2)] t(1,3) by (simp add: sys_isr_def)
  moreover have "gt_isr_proc_list s' = gt_isr_proc_list (avia_gt_dmx_enable_disable_system_queue_irqs t)"
    using sys(1) sq
    by (simp add: s'_def s0_def [symmetric] avia_gt_dmx_queue_start_def s1_def t_def gt_consts Let_def)
  ultimately show ?thesis by simp
qed

theorem restarted_queue_loses_client_witness:
  "gt_isr_proc_list (snd (avia_gt_dmx_queue_start 2 PES 0x100 (snd (avia_gt_dmx_queue_stop 2
      (ex_gt_shared\<lparr>queue_client := [None, None, Some 5]\<rparr>))))) ! 65 = None"
proof -
  let ?s = "ex_gt_shared\<lparr>queue_client := [None, None, Some 5]\<rparr>"
  have "length (queue_list ?s) = 32" "length (gt_isr_proc_list ?s) = 128" "running (the_queue 5 ?s)"
    "q_pid (the_queue 5 ?s) = 0x100" "q_mode (the_queue 5 ?s) = PES" "queue_client ?s ! 2 = Some 5" "gt_chip ?s = ENX"
    by code_simp+
  then show ?thesis
    using restarted_queue_loses_client [of 2 ?s 5 "0x100" PES] sys_isr_values(3) [of ?s] by simp
qed


section \<open>The register bank\<close>

text \<open>The interrupt of a queue leaves the bank of that queue selected.\<close>

lemma qim_check_upq: "upq s = (16 \<le> nr) \<Longrightarrow> upq (qim_check nr s) = (16 \<le> nr)"
  by (simp add: qim_check_def avia_gt_dmx_queue_qim_mode_update_def avia_gt_dmx_set_queue_irq_def
      avia_gt_dmx_map_queue_def Let_def)

lemma queue_irq_selects_bank:
  assumes "nr < 32" "busy (the_queue nr s)"
  shows "upq (snd (avia_gt_dmx_queue_irq (avia_gt_dmx_get_queue_irq (gt_chip s) nr) s)) = (16 \<le> nr)"
proof -
  define s1 where "s1 = upd_queue nr (\<lambda>q. q\<lparr>irq_count := irq_count q + 1\<rparr>) s"
  obtain w s2 where gw: "avia_gt_dmx_queue_get_write_pos nr s1 = (w, s2)" by (metis surj_pair)
  have "upq (snd (avia_gt_dmx_queue_get_write_pos nr t)) = (16 \<le> nr)" for t
    using assms(1)
    by (simp add: avia_gt_dmx_queue_get_write_pos_def avia_gt_dmx_map_queue_def avia_gt_dmx_queue_set_write_pos_def
        write_qwp_def gt_consts Let_def split: prod.splits)
  then have "upq s2 = (16 \<le> nr)" using gw by (metis snd_conv)
  then have "upq (qim_check nr (upd_queue nr (\<lambda>q. q\<lparr>hw_write_pos := w\<rparr>) s2)) = (16 \<le> nr)"
    by (intro qim_check_upq) simp
  then show ?thesis
    using assms
    by (simp add: avia_gt_dmx_queue_irq_def irq_roundtrip gt_consts s1_def [symmetric] gw Let_def split: option.splits)
qed

lemma interrupted_pointer_write_effect:
  fixes pos :: nat
  assumes nr: "16 \<le> nr" "nr < 32" and k: "k < 16" "busy (the_queue k s)"
    and map: "avia_gt_dmx_map_queue nr s = (m, s1)"
    and irq: "s2 = snd (avia_gt_dmx_queue_irq (avia_gt_dmx_get_queue_irq (gt_chip s1) k) s1)"
    and len: "length (qwp s2) = 32"
  defines "p \<equiv> mem_addr (the_queue nr s) + pos"
  assumes p: "p < 2 ^ 22"
  shows "qwp (write_qwp m p sz s2) ! (nr - 16) = [p]" "qwp (write_qwp m p sz s2) ! nr = qwp s2 ! nr"
proof -
  have m: "m = nr - 16" "s1 = s\<lparr>upq := True\<rparr>"
    using map nr by (auto simp: avia_gt_dmx_map_queue_def mod_if)
  have "busy (the_queue k s1)" using k(2) m(2) by (simp add: the_queue_def)
  then have "\<not> upq s2" using queue_irq_selects_bank [of k s1] k(1) irq by simp
  then have r: "bank_reg m s2 = nr - 16" by (simp add: bank_reg_def m)
  have "p div 65536 mod 64 * 65536 + p mod 65536 = p"
  proof -
    have "p div 65536 < 64" using p by (simp add: less_mult_imp_div_less)
    then show ?thesis by simp
  qed
  then show "qwp (write_qwp m p sz s2) ! (nr - 16) = [p]" using nr len by (simp add: write_qwp_def r)
  show "qwp (write_qwp m p sz s2) ! nr = qwp s2 ! nr" using nr by (simp add: write_qwp_def r)
qed

text \<open>
  An interrupt of a queue of the lower bank between the selection of the upper bank and the access makes
  \<open>avia_gt_dmx_queue_set_write_pos\<close> store the pointer of queue \<open>nr\<close> into the register of queue \<open>nr - 16\<close>, and
  the register of queue \<open>nr\<close> keeps its value: the selection and the access are not protected together.
\<close>

theorem interrupted_pointer_write:
  assumes "16 \<le> nr" "nr < 32" "k < 16" "busy (the_queue k s)"
    and "avia_gt_dmx_map_queue nr s = (m, s1)"
    and "s2 = snd (avia_gt_dmx_queue_irq (avia_gt_dmx_get_queue_irq (gt_chip s1) k) s1)" "length (qwp s2) = 32"
    and "mem_addr (the_queue nr s) + pos < 2 ^ 22"
  shows "qwp (write_qwp m (mem_addr (the_queue nr s) + pos) sz s2) ! (nr - 16) = [mem_addr (the_queue nr s) + pos]
    \<and> qwp (write_qwp m (mem_addr (the_queue nr s) + pos) sz s2) ! nr = qwp s2 ! nr"
  using interrupted_pointer_write_effect [OF assms] by blast


theorem interrupted_pointer_write_witness:
  "qwp (write_qwp 4 0 8 (snd (avia_gt_dmx_queue_irq (avia_gt_dmx_get_queue_irq ENX 5) (snd (avia_gt_dmx_map_queue 20 ex_gt))))) ! 4 = [0]"
proof -
  let ?s1 = "snd (avia_gt_dmx_map_queue 20 ex_gt)"
  let ?s2 = "snd (avia_gt_dmx_queue_irq (avia_gt_dmx_get_queue_irq (gt_chip ?s1) 5) ?s1)"
  have "busy (the_queue 5 ex_gt)" "avia_gt_dmx_map_queue 20 ex_gt = (4, ?s1)" "length (qwp ?s2) = 32" "mem_addr (the_queue 20 ex_gt) = 0"
    "gt_chip ?s1 = ENX"
    by code_simp+
  then show ?thesis using interrupted_pointer_write [of 20 5 ex_gt 4 ?s1 ?s2 0 8] by simp
qed

end
