(* ===== verification/Avia_Gt_Napi_Callback.thy ===== *)
theory Avia_Gt_Napi_Callback
  imports Avia_Gt_Queue Demux_Sync
begin

text \<open>
  The callbacks of \<open>avia_gt_napi.c\<close>, which the bottom half of a queue calls with the bytes the chip has
  delivered: whole transport packets for the software demultiplexer
  (\<open>avia_gt_napi_queue_callback_generic\<close>), the sections the microcode let through
  (\<open>avia_gt_napi_queue_callback_section\<close>), and transport packets or PES data for one client
  (\<open>avia_gt_napi_queue_callback_ts_pes\<close>).

  \<open>nr\<close> is the queue, \<open>s\<close> the state of the chip and its driver, \<open>d\<close> the software demultiplexer and \<open>'c\<close> the
  clients behind the callbacks. A callback with two pieces of a buffer gets them joined. The checksum
  engine of the chip computes the function \<open>crc32_be\<close> of the kernel.
\<close>

section \<open>Whole packets\<close>

text \<open>At most \<open>n\<close> bytes are dropped in front of a sync byte.\<close>

fun lose_sync :: "nat \<Rightarrow> nat \<Rightarrow> gt_state \<Rightarrow> gt_state" where
  "lose_sync nr 0 s = s"
| "lose_sync nr (Suc n) s =
     (if fst (avia_gt_dmx_queue_data_get8 nr True s) = Some 0x47 then s
      else lose_sync nr n (snd (avia_gt_dmx_queue_data_get nr 1 False s)))"

definition chunk_bytes :: "nat \<Rightarrow> nat \<Rightarrow> gt_state \<Rightarrow> u8 list" where
  "chunk_bytes nr n s = mem_bytes (gt_mem s) (avia_gt_dmx_queue_get_buf1_ptr (the_queue nr s)) n"

text \<open>The packets in front of the end of the buffer, and the one that wraps around it.\<close>

definition wrapped_packets ::
  "'c dmx_env \<Rightarrow> nat \<Rightarrow> nat \<Rightarrow> nat \<Rightarrow> gt_state \<Rightarrow> dvb_demux \<Rightarrow> 'c \<Rightarrow> (nat \<times> gt_state \<times> dvb_demux \<times> 'c) option" where
  "wrapped_packets env nr avail chunk1 s d c = do {
     let chunk1 = chunk1 - chunk1 mod 188;
     (s, d, c) \<leftarrow>
       (if chunk1 \<noteq> 0 then do {
          (d, c) \<leftarrow> dvb_dmx_swfilter_packets env (chunk_bytes nr chunk1 s) (chunk1 div 188) d c;
          Some (snd (avia_gt_dmx_queue_data_get nr chunk1 False s), d, c)
        } else Some (s, d, c));
     let (ts_buf, s) = avia_gt_dmx_queue_data_get nr 188 False s;
     (d, c) \<leftarrow> dvb_dmx_swfilter_packet env ts_buf d c;
     Some (avail - chunk1 - 188, s, d, c)
   }"

definition avia_gt_napi_queue_callback_generic ::
  "'c dmx_env \<Rightarrow> nat \<Rightarrow> gt_state \<Rightarrow> dvb_demux \<Rightarrow> 'c \<Rightarrow> (gt_state \<times> dvb_demux \<times> 'c) option" where
  "avia_gt_napi_queue_callback_generic env nr s d c =
     (let avail = avia_gt_dmx_queue_get_bytes_avail (the_queue nr s) in
      if avail < 188 then Some (s, d, c)
      else
       (let s = lose_sync nr avail s; avail = avia_gt_dmx_queue_get_bytes_avail (the_queue nr s) in
        if avail < 188 then Some (s, d, c)
        else do {
          let avail = avail - avail mod 188;
          let chunk1 = avia_gt_dmx_queue_get_buf1_size (the_queue nr s);
          (avail, s, d, c) \<leftarrow>
            (if avail > chunk1 then wrapped_packets env nr avail chunk1 s d c else Some (avail, s, d, c));
          if avail \<noteq> 0 then do {
            (d, c) \<leftarrow> dvb_dmx_swfilter_packets env (chunk_bytes nr avail s) (avail div 188) d c;
            Some (snd (avia_gt_dmx_queue_data_get nr avail False s), d, c)
          } else Some (s, d, c)
        }))"


section \<open>Packets or payload for one client\<close>

text \<open>
  \<open>dvr_send\<close> is the hook of another driver that sends transport packets to the network: it gets the two
  pieces and returns how many bytes it took.
\<close>

definition avia_gt_napi_queue_callback_ts_pes ::
  "(u8 list \<Rightarrow> u8 list \<Rightarrow> 'c \<Rightarrow> nat \<times> 'c) option \<Rightarrow> 'c dmx_env \<Rightarrow> dvb_demux_feed \<Rightarrow> nat \<Rightarrow> gt_state \<Rightarrow> 'c
     \<Rightarrow> gt_state \<times> 'c" where
  "avia_gt_napi_queue_callback_ts_pes dvr_send env feed nr s c =
     (let q = the_queue nr s;
          buf1_len = avia_gt_dmx_queue_get_buf1_size q;
          buf2_len = avia_gt_dmx_queue_get_buf2_size q;
          len = buf1_len + buf2_len;
          ts = (feed_type feed = DMX_TYPE_TS \<and> ts_type feed AND TS_PAYLOAD_ONLY = 0);
          cutoff = (if ts then len mod 188 else 0);
          (buf1_len, buf2_len) =
            (if cutoff > buf2_len then (buf1_len - (cutoff - buf2_len), 0) else (buf1_len, buf2_len - cutoff));
          buf1 = mem_bytes (gt_mem s) (avia_gt_dmx_queue_get_buf1_ptr q) buf1_len;
          buf2 = mem_bytes (gt_mem s) (avia_gt_dmx_queue_get_buf2_ptr q) buf2_len
      in case (if ts then dvr_send else None) of
           Some send \<Rightarrow>
             (let (remove, c) = send buf1 buf2 c in (snd (avia_gt_dmx_queue_data_get nr remove False s), c))
         | None \<Rightarrow>
             (snd (avia_gt_dmx_queue_data_get nr (len - cutoff) False s),
              snd (ts_cb env (feed_cb feed) (buf1 @ buf2) feed c)))"


section \<open>Sections\<close>

fun skip_padding :: "nat \<Rightarrow> nat \<Rightarrow> gt_state \<Rightarrow> nat \<times> gt_state" where
  "skip_padding nr 0 s = (0, s)"
| "skip_padding nr (Suc n) s =
     (if fst (avia_gt_dmx_queue_data_get8 nr True s) = Some 0xff
      then skip_padding nr n (snd (avia_gt_dmx_queue_data_get8 nr False s))
      else (Suc n, s))"

text \<open>
  The comparison of a section with a filter. The loop may leave with \<open>i = compare_len\<close>, and the code then
  looks at \<open>maskandmode[i]\<close> with the last \<open>xor\<close> once more; for \<open>i = 18\<close> that is behind the array, where
  the structure has \<open>maskandnotmode\<close>.
\<close>

fun hw_filter_scan :: "dvb_demux_filter \<Rightarrow> u8 list \<Rightarrow> nat list \<Rightarrow> u8 \<Rightarrow> u8 \<Rightarrow> u8 option \<times> u8" where
  "hw_filter_scan f sec [] xr neq = (Some neq, xr)"
| "hw_filter_scan f sec (i # is) xr neq =
     (let xr = filter_value f ! i XOR sec ! i in
      if maskandmode f ! i AND xr \<noteq> 0 then (None, xr)
      else hw_filter_scan f sec is xr (neq OR (maskandnotmode f ! i AND xr)))"

definition hw_filter_accepts :: "dvb_demux_filter \<Rightarrow> u8 list \<Rightarrow> nat \<Rightarrow> bool" where
  "hw_filter_accepts f sec n \<longleftrightarrow>
     (case hw_filter_scan f sec [0 ..< n] 0 0 of
        (None, _) \<Rightarrow> False
      | (Some neq, xr) \<Rightarrow> (maskandmode f @ maskandnotmode f) ! n AND xr = 0 \<and> \<not> (doneq f \<and> neq = 0))"

text \<open>One section for all filters of the feed; \<open>dat\<close> is what the callbacks get.\<close>

fun hw_sectionfilters ::
  "'c dmx_env \<Rightarrow> dvb_demux_feed \<Rightarrow> u32 \<Rightarrow> u8 list \<Rightarrow> nat \<Rightarrow> u8 list \<Rightarrow> dvb_demux_filter list \<Rightarrow> 'c \<Rightarrow> 'c" where
  "hw_sectionfilters env feed crc sec n dat [] c = c"
| "hw_sectionfilters env feed crc sec n dat (f # fs) c =
     (if crc \<noteq> 0 \<and> check_crc feed then hw_sectionfilters env feed crc sec n dat fs c
      else if \<not> hw_filter_accepts f sec n then hw_sectionfilters env feed crc sec n dat fs c
      else hw_sectionfilters env feed crc sec n dat fs (snd (sec_cb env (feed_cb feed) dat f c)))"

text \<open>The bytes of a section that stays in the queue during the callbacks.\<close>

definition queue_section :: "nat \<Rightarrow> nat \<Rightarrow> gt_state \<Rightarrow> u8 list" where
  "queue_section nr n s =
     (let q = the_queue nr s; chunk1 = avia_gt_dmx_queue_get_buf1_size q in
      if n \<le> chunk1 then mem_bytes (gt_mem s) (avia_gt_dmx_queue_get_buf1_ptr q) n
      else mem_bytes (gt_mem s) (avia_gt_dmx_queue_get_buf1_ptr q) chunk1
         @ mem_bytes (gt_mem s) (avia_gt_dmx_queue_get_buf2_ptr q) (n - chunk1))"

definition hw_section ::
  "'c dmx_env \<Rightarrow> dvb_demux_feed \<Rightarrow> dvb_demux_filter list \<Rightarrow> nat \<Rightarrow> nat \<Rightarrow> gt_state \<Rightarrow> 'c \<Rightarrow> gt_state \<times> 'c" where
  "hw_section env feed fs nr n s c =
     (let compare_len = min n DVB_DEMUX_MASK_MAX;
          need_crc = (fs \<noteq> [] \<and> check_crc feed);
          crc = (if need_crc then crc32_be env (- 1) (fst (avia_gt_dmx_queue_data_get nr n True s)) else 0)
      in if 1 < length fs \<or> compare_len = n
         then (let (sec, s) = avia_gt_dmx_queue_data_get nr n False s
               in (s, hw_sectionfilters env feed crc sec compare_len sec fs c))
         else (let sec = fst (avia_gt_dmx_queue_data_get nr compare_len True s)
               in (snd (avia_gt_dmx_queue_data_get nr n False s),
                   hw_sectionfilters env feed crc sec compare_len (queue_section nr n s) fs c)))"

text \<open>A length that cannot be: what is in the queue is thrown away and the feed starts again.\<close>

definition section_restart :: "nat \<Rightarrow> gt_state \<Rightarrow> gt_state" where
  "section_restart nr s =
     (let s1 = ((\<lambda>s. snd (avia_gt_dmx_queue_data_get8 nr False s)) ^^ avia_gt_dmx_queue_get_bytes_avail (the_queue nr s)) s;
          s2 = s1\<lparr>ucode := prop_ucode_stop_queue_feeds nr False (ucode s1)\<rparr>;
          s3 = snd (avia_gt_dmx_queue_reset nr s2)
      in s3\<lparr>ucode := prop_ucode_start_queue_feeds nr (ucode s3)\<rparr>)"

lemma skip_padding_le: "fst (skip_padding nr n s) \<le> n"
proof (induction nr n s rule: skip_padding.induct)
  case (2 nr n s)
  then show ?case by (auto intro: le_SucI)
qed simp

lemma skip_padding_le': "skip_padding nr n s = (m, s') \<Longrightarrow> m \<le> n"
  using skip_padding_le [of nr n s] by simp

text \<open>\<open>None\<close> is the null pointer of a feed without filters, which is followed when there is a section.\<close>

function section_loop ::
  "'c dmx_env \<Rightarrow> dvb_demux_feed \<Rightarrow> dvb_demux_filter list \<Rightarrow> nat \<Rightarrow> nat \<Rightarrow> gt_state \<Rightarrow> 'c \<Rightarrow> (gt_state \<times> 'c) option" where
  "section_loop env feed fs nr avail s c =
     (if avail < 3 then Some (s, c)
      else
       (case skip_padding nr avail s of (avail', s1) \<Rightarrow>
         if avail' < 3 then Some (s1, c)
         else
          (let n = section_length (fst (avia_gt_dmx_queue_data_get nr 3 True s1)) in
           if n > 4096 then Some (section_restart nr s1, c)
           else if n > avail' then Some (s1, c)
           else if fs = [] then None
           else (case hw_section env feed fs nr n s1 c of (s2, c2) \<Rightarrow> section_loop env feed fs nr (avail' - n) s2 c2))))"
  by pat_completeness auto
termination
  by (relation "measure (\<lambda>(_, _, _, _, avail, _, _). avail)")
     (auto simp: section_length_def dest: skip_padding_le' skip_padding_le' [OF sym])

declare section_loop.simps [simp del]

definition avia_gt_napi_queue_callback_section ::
  "'c dmx_env \<Rightarrow> dvb_demux_feed \<Rightarrow> dvb_demux_filter list \<Rightarrow> nat \<Rightarrow> gt_state \<Rightarrow> 'c \<Rightarrow> (gt_state \<times> 'c) option" where
  "avia_gt_napi_queue_callback_section env feed fs nr s c =
     section_loop env feed fs nr (avia_gt_dmx_queue_get_bytes_avail (the_queue nr s)) s c"

end
