(* ===== verification/Avia_Gt_Filter.thy ===== *)
theory Avia_Gt_Filter
  imports Avia_Gt_Ucode Demux_Types
begin

text \<open>
  The section filters of the microcode, \<open>prop_ucode_alloc_section_filter\<close> of \<open>avia_gt_ucode.c\<close>. The
  microcode compares only the bytes 0 and 3 to 9 of a section, has 32 filters for all feeds, and no
  filter mixes bits that must be equal with bits of which one must differ. The driver therefore
  rewrites the filters of a feed: it splits a single filter, drops the negated bits of several, joins
  filters that differ little, and looks for a run of free entries.

  \<open>sec_slot\<close> is one index into the arrays \<open>mask\<close>, \<open>value\<close>, \<open>mode\<close>, \<open>in_use\<close>, \<open>ver_not\<close>,
  \<open>unchanged\<close>, \<open>not_value\<close> and \<open>not_mask\<close> of the function. The last two are set only together with
  \<open>ver_not\<close> but always compared: \<open>junk\<close> is what the stack holds at an index otherwise. A result \<open>None\<close> is
  the return of 0, which makes the caller filter in software.
\<close>

section \<open>Normal form\<close>

definition MAX_SECTION_FILTERS :: nat where "MAX_SECTION_FILTERS = 16"

record sec_slot =
  sl_mask :: "u8 list"
  sl_value :: "u8 list"
  sl_mode :: "u8 list"
  in_use :: int
  ver_not :: bool
  unchanged :: bool
  not_value :: u8
  not_mask :: u8

text \<open>The byte of a section that byte \<open>i\<close> of a filter of the microcode is compared with.\<close>

definition sec_byte :: "nat \<Rightarrow> nat" where
  "sec_byte i = (if i = 0 then 0 else i + 2)"

text \<open>The last byte with a mask, -1 without.\<close>

definition last_used :: "nat \<Rightarrow> u8 list \<Rightarrow> int" where
  "last_used n ms = fold (\<lambda>i r. if ms ! i \<noteq> 0 then int i else r) [0 ..< n] (-1)"

definition normalize_filter :: "u8 \<times> u8 \<Rightarrow> dvb_demux_filter \<Rightarrow> sec_slot" where
  "normalize_filter junk f =
     (let mask = map (\<lambda>i. filter_mask f ! sec_byte i) [0 ..< 8];
          value = map (\<lambda>i. filter_value f ! sec_byte i AND filter_mask f ! sec_byte i) [0 ..< 8];
          mode = map (\<lambda>i. filter_mode f ! sec_byte i OR NOT (filter_mask f ! sec_byte i)) [0 ..< 8];
          vn = (mode ! 3 \<noteq> 0xff \<and> mode ! 3 AND mask ! 3 = 0)
      in \<lparr>sl_mask = mask, sl_value = value, sl_mode = mode, in_use = last_used 8 mask,
          ver_not = vn, unchanged = True,
          not_value = (if vn then value ! 3 else fst junk),
          not_mask = (if vn then mask ! 3 else snd junk)\<rparr>)"

definition collect_filters :: "(nat \<Rightarrow> u8 \<times> u8) \<Rightarrow> dvb_demux_filter list \<Rightarrow> sec_slot list option" where
  "collect_filters junk fs =
     (let sl = map (\<lambda>i. normalize_filter (junk i) (fs ! i)) [0 ..< min (length fs) MAX_SECTION_FILTERS] in
      if fs = [] \<or> (\<exists>s \<in> set sl. in_use s = -1) \<or> MAX_SECTION_FILTERS < length fs then None else Some sl)"


section \<open>A single filter\<close>

text \<open>The slots, and the flags \<open>not_the_first\<close> and \<open>not_the_second\<close>.\<close>

definition single_filter :: "u8 \<times> u8 \<Rightarrow> sec_slot \<Rightarrow> sec_slot list \<times> bool \<times> bool" where
  "single_filter junk s =
     (let nots = [i \<leftarrow> [0 ..< 8]. sl_mode s ! i \<noteq> 0xff];
          anz_not = length nots;
          anz_mixed = length [i \<leftarrow> nots. sl_mode s ! i AND sl_mask s ! i \<noteq> 0];
          anz_normal = length [i \<leftarrow> [0 ..< 8]. sl_mode s ! i = 0xff \<and> sl_mask s ! i \<noteq> 0]
      in if anz_not = 1 \<and> anz_mixed = 0 \<and> sl_mode s ! 3 \<noteq> 0xff then ([s], False, False)
         else if anz_not > 0 \<and> anz_normal > 0 then
          (let mask = map2 (AND) (sl_mask s) (sl_mode s);
               pos = s\<lparr>sl_mask := mask, sl_value := map2 (AND) (sl_value s) mask\<rparr>;
               neg = \<lparr>sl_mask = map NOT (sl_mode s), sl_value = map2 (\<lambda>v m. v AND NOT m) (sl_value s) (sl_mode s),
                      sl_mode = [], in_use = in_use s, ver_not = False, unchanged = True,
                      not_value = fst junk, not_mask = snd junk\<rparr>
           in ([pos, neg], False, True))
         else if anz_not > 0 then ([s], True, False)
         else ([s], False, False))"


section \<open>Several filters\<close>

definition drop_negated :: "sec_slot \<Rightarrow> sec_slot" where
  "drop_negated s =
     (let mask = map2 (AND) (sl_mask s) (sl_mode s)
      in s\<lparr>sl_mask := mask, sl_value := map2 (AND) (sl_value s) mask, in_use := last_used 8 mask\<rparr>)"

definition hweight8 :: "u8 \<Rightarrow> nat" where
  "hweight8 w = length [n \<leftarrow> [0 ..< 8]. bit w n]"

text \<open>
  The search for one different bit. \<open>None\<close> is the jump to \<open>next_check\<close>, which also leaves the loop at
  a byte where the filters are equal; otherwise the result is \<open>different_bit_index\<close> with \<open>xor\<close>.
\<close>

fun one_bit_scan :: "sec_slot \<Rightarrow> sec_slot \<Rightarrow> nat list \<Rightarrow> (nat \<times> u8) option \<Rightarrow> (nat \<times> u8) option option" where
  "one_bit_scan a b [] d = Some d"
| "one_bit_scan a b (k # ks) d =
     (if sl_mask a ! k = sl_mask b ! k \<and> sl_value a ! k \<noteq> sl_value b ! k then
        (if d \<noteq> None then None
         else if hweight8 (sl_value a ! k XOR sl_value b ! k) = 1
         then one_bit_scan a b ks (Some (k, sl_value a ! k XOR sl_value b ! k))
         else None)
      else None)"

datatype merge_result = Keep | Merged sec_slot | GiveUp

definition same_ver_not :: "sec_slot \<Rightarrow> sec_slot \<Rightarrow> bool" where
  "same_ver_not a b \<longleftrightarrow> not_value a = not_value b \<and> not_mask a = not_mask b \<and> ver_not a = ver_not b"

definition cut_bytes :: "nat \<Rightarrow> u8 list \<Rightarrow> u8 list" where
  "cut_bytes n xs = map (\<lambda>k. if k < n then xs ! k else 0) [0 ..< 8]"

definition compare_len :: "sec_slot \<Rightarrow> sec_slot \<Rightarrow> nat" where
  "compare_len a b = nat (min (in_use a) (in_use b)) + 1"

definition merge_one_bit :: "nat \<Rightarrow> sec_slot \<Rightarrow> sec_slot \<Rightarrow> (nat \<times> u8) option \<Rightarrow> merge_result" where
  "merge_one_bit n a b d =
     (let a1 =
       (case d of
          Some (k, x) \<Rightarrow>
           (let m = sl_mask a ! k - x; mask = (sl_mask a)[k := m]
            in a\<lparr>sl_mask := mask, sl_value := (sl_value a)[k := sl_value a ! k AND m],
                 in_use := (if int k = in_use a then last_used n mask else int n - 1)\<rparr>)
        | None \<Rightarrow> a\<lparr>in_use := int n - 1\<rparr>)
      in if in_use a1 = -1 then GiveUp
         else Merged (a1\<lparr>unchanged := (unchanged a \<and> same_ver_not a b),
                         sl_mask := cut_bytes n (sl_mask a1), sl_value := cut_bytes n (sl_value a1)\<rparr>))"

definition merge_redundant :: "nat \<Rightarrow> sec_slot \<Rightarrow> sec_slot \<Rightarrow> merge_result" where
  "merge_redundant n a b =
     (let t = (\<lambda>k. sl_mask a ! k AND sl_mask b ! k) in
      if \<forall>k \<in> {..<n}. (t k = sl_mask a ! k \<or> t k = sl_mask b ! k) \<and> sl_value a ! k AND t k = sl_value b ! k AND t k
      then Merged (a\<lparr>sl_mask := map (\<lambda>k. if k < n then t k else 0) [0 ..< 8],
                     sl_value := map (\<lambda>k. if k < n then sl_value a ! k AND t k else 0) [0 ..< 8],
                     unchanged := (unchanged a \<and> same_ver_not a b), in_use := int n - 1\<rparr>)
      else Keep)"

definition merge_slots :: "sec_slot \<Rightarrow> sec_slot \<Rightarrow> merge_result" where
  "merge_slots a b =
     (let n = compare_len a b in
      case one_bit_scan a b [0 ..< n] None of
        Some d \<Rightarrow> merge_one_bit n a b d
      | None \<Rightarrow> merge_redundant n a b)"

text \<open>One pass over the pairs of slots, and the passes until nothing changes; \<open>None\<close> is the return of 0.\<close>

fun elim_inner :: "nat \<Rightarrow> nat list \<Rightarrow> sec_slot list \<times> nat \<Rightarrow> (sec_slot list \<times> nat) option" where
  "elim_inner i [] st = Some st"
| "elim_inner i (j # js) (sl, anz) =
     (if anz \<le> 1 then Some (sl, anz)
      else if in_use (sl ! j) = -1 then elim_inner i js (sl, anz)
      else case merge_slots (sl ! i) (sl ! j) of
        Keep \<Rightarrow> elim_inner i js (sl, anz)
      | GiveUp \<Rightarrow> None
      | Merged s \<Rightarrow> elim_inner i js (sl[i := s, j := (sl ! j)\<lparr>in_use := -1\<rparr>], anz - 1))"

fun elim_outer :: "nat list \<Rightarrow> sec_slot list \<times> nat \<Rightarrow> (sec_slot list \<times> nat) option" where
  "elim_outer [] st = Some st"
| "elim_outer (i # is) (sl, anz) =
     (if anz \<le> 1 then Some (sl, anz)
      else if in_use (sl ! i) = -1 then elim_outer is (sl, anz)
      else do {
        st \<leftarrow> elim_inner i [i + 1 ..< MAX_SECTION_FILTERS] (sl, anz);
        elim_outer is st
      })"

definition elim_pass :: "sec_slot list \<times> nat \<Rightarrow> (sec_slot list \<times> nat) option" where
  "elim_pass st = elim_outer [0 ..< MAX_SECTION_FILTERS - 1] st"

lemma elim_inner_le: "elim_inner i js st = Some st' \<Longrightarrow> snd st' \<le> snd st"
proof (induction i js st rule: elim_inner.induct)
  case (2 i j js sl anz)
  then show ?case by (auto split: if_splits merge_result.splits)
qed auto

lemma elim_outer_le: "elim_outer is st = Some st' \<Longrightarrow> snd st' \<le> snd st"
proof (induction "is" st arbitrary: st' rule: elim_outer.induct)
  case (2 i "is" sl anz)
  show ?case
  proof (cases "anz \<le> 1 \<or> in_use (sl ! i) = -1")
    case True
    then show ?thesis using 2 by (auto split: if_splits)
  next
    case False
    then obtain st1 where "elim_inner i [i + 1 ..< MAX_SECTION_FILTERS] (sl, anz) = Some st1"
      "elim_outer is st1 = Some st'"
      using 2(3) by (auto simp: bind_eq_Some_conv)
    then have "snd st1 \<le> anz" "snd st' \<le> snd st1"
      using elim_inner_le [of i _ "(sl, anz)" st1] 2(2) False by simp_all
    then show ?thesis by simp
  qed
qed auto

function eliminate :: "sec_slot list \<times> nat \<Rightarrow> (sec_slot list \<times> nat) option" where
  "eliminate st =
     (case elim_pass st of
        None \<Rightarrow> None
      | Some st' \<Rightarrow> if snd st' = snd st then Some st' else eliminate st')"
  by pat_completeness auto
termination
  by (relation "measure snd") (auto simp: elim_pass_def dest: elim_outer_le)

declare eliminate.simps [simp del]

definition unused_slot :: "u8 \<times> u8 \<Rightarrow> sec_slot" where
  "unused_slot junk = \<lparr>sl_mask = [], sl_value = [], sl_mode = [], in_use = -1, ver_not = False, unchanged = False,
     not_value = fst junk, not_mask = snd junk\<rparr>"

definition several_filters :: "(nat \<Rightarrow> u8 \<times> u8) \<Rightarrow> sec_slot list \<Rightarrow> (sec_slot list \<times> nat) option" where
  "several_filters junk sl =
     (let sl1 = map drop_negated sl in
      if \<exists>s \<in> set sl1. in_use s = -1 then None
      else eliminate (sl1 @ map (\<lambda>i. unused_slot (junk i)) [length sl ..< MAX_SECTION_FILTERS], length sl))"


section \<open>Space in the tables\<close>

type_synonym space = "bool \<times> nat option \<times> nat \<times> nat option \<times> nat"

definition space_step :: "nat \<Rightarrow> int list \<Rightarrow> nat \<Rightarrow> space \<Rightarrow> space" where
  "space_step anz m i = (\<lambda>(run, entry, entry_len, new_entry, new_entry_len).
     (if m ! i = -1 then
        (if run then (True, entry, entry_len, new_entry, new_entry_len + 1)
         else if new_entry_len < entry_len \<and> new_entry_len \<ge> anz
         then (True, new_entry, new_entry_len, Some i, 1)
         else (True, entry, entry_len, Some i, 1))
      else (False, entry, entry_len, new_entry, new_entry_len)))"

definition find_space :: "nat \<Rightarrow> int list \<Rightarrow> nat option" where
  "find_space anz m =
     (case fold (space_step anz m) [0 ..< 32] (False, None, 33, None, 33) of
        (_, entry, entry_len, new_entry, new_entry_len) \<Rightarrow>
          if entry = None \<and> new_entry \<noteq> None \<and> new_entry_len \<ge> anz
            \<or> new_entry_len < entry_len \<and> new_entry_len \<ge> anz
          then new_entry else entry)"

definition filter_entry :: "sec_slot \<Rightarrow> filter_param" where
  "filter_entry s =
     (if unchanged s \<and> ver_not s
      then \<lparr>fp_mask = (sl_mask s)[3 := not_mask s], fp_param = (sl_value s)[3 := not_value s],
            not_flag = False, not_flag_ver_id_byte = True\<rparr>
      else \<lparr>fp_mask = sl_mask s, fp_param = sl_value s, not_flag = False, not_flag_ver_id_byte = False\<rparr>)"

definition set_not_flag :: "nat \<Rightarrow> bool \<Rightarrow> filter_param list \<Rightarrow> filter_param list" where
  "set_not_flag i b es = (if i < length es then es[i := (es ! i)\<lparr>not_flag := b\<rparr>] else es)"

text \<open>The first \<open>anz\<close> slots in use. The flag of a second entry that does not exist is not stored.\<close>

definition filter_entries :: "sec_slot list \<Rightarrow> nat \<Rightarrow> bool \<Rightarrow> bool \<Rightarrow> filter_param list" where
  "filter_entries sl anz not1 not2 =
     set_not_flag 1 not2 (set_not_flag 0 not1 (map filter_entry (take anz [s \<leftarrow> sl. in_use s \<noteq> -1])))"

text \<open>The stores into the memory of the microcode; filter definitions are stored in pairs.\<close>

definition store_filters :: "nat \<Rightarrow> bool \<Rightarrow> filter_param list \<Rightarrow> ucode_state \<Rightarrow> ucode_state" where
  "store_filters entry and_or es u =
     (let e = entry div 2 * 2; defs = (filter_definition_table u)[entry := and_or]
      in u\<lparr>section_map := blit (section_map u) entry (replicate (length es) (int entry)),
           filter_definition_table := defs,
           risc_filter_definition := (risc_filter_definition u)[e := defs ! e, e + 1 := defs ! (e + 1)],
           risc_filter_param := blit (risc_filter_param u) entry es\<rparr>)"

text \<open>The flag \<open>and_or\<close> and the filters of the microcode for the filters of a feed.\<close>

definition convert_filters ::
  "(nat \<Rightarrow> u8 \<times> u8) \<Rightarrow> dvb_demux_filter list \<Rightarrow> (bool \<times> filter_param list) option" where
  "convert_filters junk fs = do {
     sl \<leftarrow> collect_filters junk fs;
     if length sl = 1
     then (let (sl1, not1, not2) = single_filter (junk 1) (sl ! 0)
           in Some (False, filter_entries sl1 (length sl1) not1 not2))
     else do {
       (sl1, anz) \<leftarrow> several_filters junk sl;
       Some (True, filter_entries sl1 anz False False)
     }
   }"

definition prop_ucode_alloc_section_filter ::
  "(nat \<Rightarrow> u8 \<times> u8) \<Rightarrow> dvb_demux_filter list \<Rightarrow> ucode_state \<Rightarrow> avia_gt_section option \<times> ucode_state" where
  "prop_ucode_alloc_section_filter junk fs u =
     (case convert_filters junk fs of
        None \<Rightarrow> (None, u)
      | Some (and_or, es) \<Rightarrow>
         (case find_space (length es) (section_map u) of
            None \<Rightarrow> (None, u)
          | Some entry \<Rightarrow>
              (Some \<lparr>sec_idx = entry, sec_filtercount = of_nat (length es)\<rparr>, store_filters entry and_or es u)))"

end
