(* ===== verification/Avia_Gt_Filter_Merge.thy ===== *)
theory Avia_Gt_Filter_Merge
  imports Avia_Gt_Filter
begin

text \<open>
  The rewriting of the filters of a feed, byte by byte: what a slot accepts, that a joined slot accepts
  whatever its two parts accept, and the invariant of the passes over the slots.
\<close>

section \<open>Bytes of a filter\<close>

definition negated :: "dvb_demux_filter \<Rightarrow> nat \<Rightarrow> bool" where
  "negated f i \<longleftrightarrow> filter_mask f ! i AND NOT (filter_mode f ! i) \<noteq> 0"

definition version_negated :: "dvb_demux_filter \<Rightarrow> bool" where
  "version_negated f \<longleftrightarrow> negated f 5 \<and> filter_mask f ! 5 AND filter_mode f ! 5 = 0"

definition hw_byte :: "nat \<Rightarrow> bool" where
  "hw_byte i \<longleftrightarrow> i = 0 \<or> 3 \<le> i \<and> i \<le> 9"

lemma byte_bits:
  fixes m v mo x :: u8
  shows "x AND m AND (mo OR NOT m) = v AND m AND (mo OR NOT m) \<longleftrightarrow> m AND (v XOR x) AND mo = 0"
    and "x AND NOT (mo OR NOT m) = (v AND m) AND NOT (mo OR NOT m) \<longleftrightarrow> m AND (v XOR x) AND NOT mo = 0"
    and "x AND m = v AND m \<longleftrightarrow> m AND (v XOR x) AND mo = 0 \<and> m AND (v XOR x) AND NOT mo = 0"
    and "(mo OR NOT m) AND m = m AND mo"
    and "NOT (mo OR NOT m) = m AND NOT mo"
  by (auto simp: bit_eq_iff bit_simps)

lemma mode_ff: "mo OR NOT m = 0xff \<longleftrightarrow> m AND NOT mo = (0 :: u8)"
proof -
  have ff: "(0xff :: u8) = - 1" by simp
  have "mo OR NOT m = 0xff \<longleftrightarrow> NOT (mo OR NOT m) = NOT (- 1 :: u8)"
    unfolding ff by (simp only: bit.compl_eq_compl_iff)
  then show ?thesis by (simp add: byte_bits and.commute)
qed

lemma sec_byte_hw: "k < 8 \<Longrightarrow> hw_byte (sec_byte k)" "k < 8 \<Longrightarrow> sec_byte k < 18" "sec_byte k = 5 \<longleftrightarrow> k = 3"
  by (auto simp: sec_byte_def hw_byte_def)

lemma hw_byteE:
  assumes "hw_byte i"
  obtains k where "k < 8" "i = sec_byte k"
  using assms
proof (cases "i = 0")
  case True
  then show ?thesis using that [of 0] by (simp add: sec_byte_def)
next
  case False
  then show ?thesis using assms that [of "i - 2"] by (auto simp: hw_byte_def sec_byte_def)
qed

text \<open>What a filter demands of a byte: the bits that must be equal, and the bits of which one must differ.\<close>

definition pos_ok :: "dvb_demux_filter \<Rightarrow> u8 list \<Rightarrow> nat \<Rightarrow> bool" where
  "pos_ok f sec i \<longleftrightarrow> filter_mask f ! i AND (filter_value f ! i XOR sec ! i) AND filter_mode f ! i = 0"

definition neg_hit :: "dvb_demux_filter \<Rightarrow> u8 list \<Rightarrow> nat \<Rightarrow> bool" where
  "neg_hit f sec i \<longleftrightarrow> filter_mask f ! i AND (filter_value f ! i XOR sec ! i) AND NOT (filter_mode f ! i) \<noteq> 0"

lemma neg_hit_negated: "neg_hit f sec i \<Longrightarrow> negated f i"
  by (auto simp: neg_hit_def negated_def bit_eq_iff bit_simps)


section \<open>Slots\<close>

definition slot_accepts :: "sec_slot \<Rightarrow> u8 list \<Rightarrow> bool" where
  "slot_accepts s sec \<longleftrightarrow> (\<forall>k < 8. sec ! sec_byte k AND sl_mask s ! k = sl_value s ! k)"

definition slot_ok :: "sec_slot \<Rightarrow> bool" where
  "slot_ok s \<longleftrightarrow> length (sl_mask s) = 8 \<and> length (sl_value s) = 8 \<and> 0 \<le> in_use s \<and> in_use s < 8
     \<and> (\<forall>k < 8. sl_value s ! k AND sl_mask s ! k = sl_value s ! k)"

lemma normalize_nth:
  assumes "k < 8"
  shows "sl_mask (normalize_filter j f) ! k = filter_mask f ! sec_byte k"
    and "sl_value (normalize_filter j f) ! k = filter_value f ! sec_byte k AND filter_mask f ! sec_byte k"
    and "sl_mode (normalize_filter j f) ! k = filter_mode f ! sec_byte k OR NOT (filter_mask f ! sec_byte k)"
  using assms by (simp_all add: normalize_filter_def Let_def)

lemma length_normalize [simp]:
  "length (sl_mask (normalize_filter j f)) = 8" "length (sl_value (normalize_filter j f)) = 8"
  "length (sl_mode (normalize_filter j f)) = 8"
  by (simp_all add: normalize_filter_def Let_def)

lemma normalize_ver_not [simp]:
  "ver_not (normalize_filter j f) = version_negated f" "unchanged (normalize_filter j f)"
proof -
  have "ver_not (normalize_filter j f) \<longleftrightarrow> filter_mode f ! 5 OR NOT (filter_mask f ! 5) \<noteq> 0xff
      \<and> (filter_mode f ! 5 OR NOT (filter_mask f ! 5)) AND filter_mask f ! 5 = 0"
    by (simp add: normalize_filter_def Let_def sec_byte_def)
  then show "ver_not (normalize_filter j f) = version_negated f"
    by (simp add: mode_ff byte_bits version_negated_def negated_def)
  show "unchanged (normalize_filter j f)" by (simp add: normalize_filter_def Let_def)
qed

lemma normalize_not_value:
  "version_negated f \<Longrightarrow> not_value (normalize_filter j f) = filter_value f ! 5 AND filter_mask f ! 5"
  "version_negated f \<Longrightarrow> not_mask (normalize_filter j f) = filter_mask f ! 5"
  using normalize_ver_not(1) [of j f] normalize_nth [of 3 j f]
  by (simp_all add: normalize_filter_def Let_def sec_byte_def)

lemma last_used_range: "last_used n ms = -1 \<or> 0 \<le> last_used n ms \<and> last_used n ms < int n"
  unfolding last_used_def by (induction n) auto

lemma in_use_normalize: "in_use (normalize_filter j f) = last_used 8 (sl_mask (normalize_filter j f))"
  by (simp add: normalize_filter_def Let_def)

lemma normalize_ok: "in_use (normalize_filter j f) \<noteq> -1 \<Longrightarrow> slot_ok (normalize_filter j f)"
  using last_used_range [of 8 "sl_mask (normalize_filter j f)"]
  by (auto simp: slot_ok_def in_use_normalize normalize_nth and.assoc)

lemma drop_negated_ok:
  assumes "in_use (drop_negated (normalize_filter j f)) \<noteq> -1"
  shows "slot_ok (drop_negated (normalize_filter j f))"
  using assms last_used_range [of 8 "map2 (AND) (sl_mask (normalize_filter j f)) (sl_mode (normalize_filter j f))"]
  by (auto simp: slot_ok_def drop_negated_def Let_def and.assoc)

lemma drop_negated_accepts:
  "(\<forall>k < 8. pos_ok f sec (sec_byte k)) \<longleftrightarrow> slot_accepts (drop_negated (normalize_filter j f)) sec"
  by (simp add: slot_accepts_def drop_negated_def Let_def normalize_nth byte_bits(1) pos_ok_def and.assoc)


section \<open>Joining slots\<close>

definition covers :: "sec_slot \<Rightarrow> sec_slot \<Rightarrow> bool" where
  "covers s' s \<longleftrightarrow> (\<forall>sec. slot_accepts s sec \<longrightarrow> slot_accepts s' sec)"

definition ver_data :: "sec_slot \<Rightarrow> bool \<times> u8 \<times> u8" where
  "ver_data s = (ver_not s, not_value s, not_mask s)"

lemma covers_refl [simp]: "covers s s" by (simp add: covers_def)

lemma covers_trans: "covers a b \<Longrightarrow> covers b c \<Longrightarrow> covers a c" by (auto simp: covers_def)

lemma length_cut_bytes [simp]: "length (cut_bytes n xs) = 8" by (simp add: cut_bytes_def)

lemma cut_bytes_nth: "k < 8 \<Longrightarrow> cut_bytes n xs ! k = (if k < n then xs ! k else 0)" by (simp add: cut_bytes_def)

text \<open>A bit in which two values differ, taken out of their common mask.\<close>

lemma one_bit_bytes:
  fixes m va vb x :: u8
  assumes "va AND m = va" "vb AND m = vb"
  shows "m - (va XOR vb) = m AND NOT (va XOR vb)"
    and "x AND m = va \<or> x AND m = vb \<Longrightarrow> x AND (m AND NOT (va XOR vb)) = va AND (m AND NOT (va XOR vb))"
proof -
  have "(va XOR vb) AND m = va XOR vb"
    using assms by (simp add: bit.conj_xor_distrib2)
  then have d: "m = (m AND NOT (va XOR vb)) + (va XOR vb)"
  proof -
    assume sub: "(va XOR vb) AND m = va XOR vb"
    have "(m AND NOT (va XOR vb)) AND (va XOR vb) = 0" by (simp add: and.assoc)
    then have "(m AND NOT (va XOR vb)) + (va XOR vb) = (m AND NOT (va XOR vb)) OR (va XOR vb)"
      by (rule disjunctive_add_eq_or)
    also have "\<dots> = m" using sub by (metis and.commute bit.conj_disj_distrib bit.conj_one_right bit.disj_cancel_left)
    finally show ?thesis by simp
  qed
  then show "m - (va XOR vb) = m AND NOT (va XOR vb)" by (metis add_diff_cancel_right')
  show "x AND (m AND NOT (va XOR vb)) = va AND (m AND NOT (va XOR vb))" if "x AND m = va \<or> x AND m = vb"
    using that by (auto simp: bit_eq_iff bit_simps)
qed

lemma one_bit_scan_Some:
  assumes "one_bit_scan a b ks d = Some (Some (k, x))"
  shows "d = Some (k, x) \<or> k \<in> set ks \<and> sl_mask a ! k = sl_mask b ! k \<and> x = sl_value a ! k XOR sl_value b ! k"
  using assms
  by (induction a b ks d rule: one_bit_scan.induct) (auto split: if_splits)

lemma one_bit_scan_None:
  assumes "one_bit_scan a b ks d = Some None"
  shows "d = None \<and> ks = []"
  using assms
  by (induction a b ks d rule: one_bit_scan.induct) (auto split: if_splits)

text \<open>All bytes but the one that differs are cut off: the loop goes on only at bytes that differ.\<close>

lemma one_bit_scan_length:
  assumes "one_bit_scan a b ks (Some d) = Some r"
  shows "ks = []"
  using assms by (cases ks) (auto split: if_splits)

lemma merge_one_bit_covers:
  assumes ok: "slot_ok a" "slot_ok b" and n: "n \<le> 8"
    and scan: "one_bit_scan a b [0 ..< n] None = Some (Some (k, x))"
    and m: "merge_one_bit n a b (Some (k, x)) = Merged s"
  shows "covers s a" "covers s b" "slot_ok s" "ver_data s = ver_data a"
proof -
  have k: "k < n" "sl_mask a ! k = sl_mask b ! k" "x = sl_value a ! k XOR sl_value b ! k"
    using one_bit_scan_Some [OF scan] by auto
  let ?m = "sl_mask a ! k AND NOT x"
  have va: "sl_value a ! k AND sl_mask a ! k = sl_value a ! k" and vb: "sl_value b ! k AND sl_mask a ! k = sl_value b ! k"
    using ok k(1) n unfolding k(2) slot_ok_def by (metis k(2) order_less_le_trans)+
  have sub: "sl_mask a ! k - x = ?m" using one_bit_bytes(1) [OF va vb] k(3) by simp
  have "n = 1"
  proof -
    obtain n' where n': "n = Suc n'" using k(1) by (cases n) auto
    then have "[0 ..< n] = 0 # [1 ..< n]" by (simp add: upt_rec)
    then have "one_bit_scan a b [1 ..< n] (Some (0, sl_value a ! 0 XOR sl_value b ! 0)) = Some (Some (k, x))"
      using scan by (auto split: if_splits)
    then show ?thesis using one_bit_scan_length n' by fastforce
  qed
  then have [simp]: "n = 1" "k = 0" using k(1) by auto
  have s: "sl_mask s = cut_bytes 1 ((sl_mask a)[0 := ?m])" "sl_value s = cut_bytes 1 ((sl_value a)[0 := sl_value a ! 0 AND ?m])"
    "ver_data s = ver_data a" "in_use s = (if in_use a = 0 then last_used 1 ((sl_mask a)[0 := ?m]) else 0)" "in_use s \<noteq> -1"
    using m sub by (auto simp: merge_one_bit_def Let_def ver_data_def split: if_splits)
  show "ver_data s = ver_data a" by (rule s(3))
  have len: "length (sl_mask a) = 8" "length (sl_value a) = 8" using ok by (simp_all add: slot_ok_def)
  show "slot_ok s"
    using s len last_used_range [of 1 "(sl_mask a)[0 := ?m]"] va
    by (auto simp: slot_ok_def cut_bytes_nth and.assoc)
  have acc: "slot_accepts s sec" if "sec ! sec_byte 0 AND sl_mask a ! 0 = sl_value a ! 0
      \<or> sec ! sec_byte 0 AND sl_mask a ! 0 = sl_value b ! 0" for sec
    using one_bit_bytes(2) [OF va vb, of "sec ! sec_byte 0"] that k(3) len
    by (auto simp: slot_accepts_def s cut_bytes_nth)
  have first: "sec ! sec_byte 0 AND sl_mask c ! 0 = sl_value c ! 0" if "slot_accepts c sec" for c sec
    using that by (simp add: slot_accepts_def)
  show "covers s a" "covers s b"
    unfolding covers_def using first [of a] first [of b] k(2) by (auto intro: acc)
qed

lemma merge_redundant_covers:
  assumes ok: "slot_ok a" "slot_ok b" and n: "n \<le> 8" "0 < n"
    and m: "merge_redundant n a b = Merged s"
  shows "covers s a" "covers s b" "slot_ok s" "ver_data s = ver_data a"
proof -
  let ?t = "\<lambda>k. sl_mask a ! k AND sl_mask b ! k"
  have agree: "sl_value a ! k AND ?t k = sl_value b ! k AND ?t k" if "k < n" for k
    using m that by (auto simp: merge_redundant_def Let_def split: if_splits)
  have s: "sl_mask s = map (\<lambda>k. if k < n then ?t k else 0) [0 ..< 8]"
    "sl_value s = map (\<lambda>k. if k < n then sl_value a ! k AND ?t k else 0) [0 ..< 8]"
    "in_use s = int n - 1" "ver_data s = ver_data a"
    using m by (auto simp: merge_redundant_def Let_def ver_data_def split: if_splits)
  show "ver_data s = ver_data a" by (rule s(4))
  show "slot_ok s" using s n by (auto simp: slot_ok_def and.assoc)
  have s_accepts: "slot_accepts s sec" if "\<And>k. k < n \<Longrightarrow> sec ! sec_byte k AND ?t k = sl_value a ! k AND ?t k" for sec
    using that by (simp add: slot_accepts_def s)
  have byte: "y AND (ma AND mb) = va AND (ma AND mb)" if "y AND ma = va \<or> y AND mb = va" for y ma mb va :: u8
    using that by (auto simp: bit_eq_iff bit_simps)
  show "covers s a"
    unfolding covers_def using n(1) by (intro allI impI s_accepts byte) (simp add: slot_accepts_def)
  have "sec ! sec_byte k AND ?t k = sl_value b ! k AND ?t k" if "slot_accepts b sec" "k < n" for sec k
    using that n(1) by (intro byte) (simp add: slot_accepts_def)
  then show "covers s b"
    unfolding covers_def using agree by (intro allI impI s_accepts) simp
qed


lemma merge_slots_covers:
  assumes ok: "slot_ok a" "slot_ok b" and m: "merge_slots a b = Merged s"
  shows "covers s a" "covers s b" "slot_ok s" "ver_data s = ver_data a"
proof -
  let ?n = "compare_len a b"
  have n: "?n \<le> 8" "0 < ?n" using ok by (auto simp: compare_len_def slot_ok_def)
  have "covers s a \<and> covers s b \<and> slot_ok s \<and> ver_data s = ver_data a"
  proof (cases "one_bit_scan a b [0 ..< ?n] None")
    case None
    then have "merge_redundant ?n a b = Merged s" using m by (simp add: merge_slots_def)
    then show ?thesis using merge_redundant_covers [OF ok n] by blast
  next
    case (Some d)
    then obtain k x where d: "d = Some (k, x)" using one_bit_scan_None n(2) by (cases d) force+
    then have "merge_one_bit ?n a b (Some (k, x)) = Merged s" using m Some by (simp add: merge_slots_def)
    then show ?thesis using merge_one_bit_covers [OF ok n(1)] Some d by blast
  qed
  then show "covers s a" "covers s b" "slot_ok s" "ver_data s = ver_data a" by blast+
qed


section \<open>Passes\<close>

text \<open>
  The invariant of the elimination: slots in use are well formed and counted, every original slot is
  covered by one of them, and what is known of the version data of the originals stays true.
\<close>

definition used :: "sec_slot list \<Rightarrow> sec_slot list" where
  "used sl = [s \<leftarrow> sl. in_use s \<noteq> -1]"

definition elim_inv :: "(bool \<times> u8 \<times> u8 \<Rightarrow> bool) \<Rightarrow> sec_slot list \<Rightarrow> sec_slot list \<times> nat \<Rightarrow> bool" where
  "elim_inv Q orig = (\<lambda>(sl, anz). length sl = MAX_SECTION_FILTERS \<and> anz = length (used sl)
     \<and> (\<forall>s \<in> set (used sl). slot_ok s \<and> Q (ver_data s))
     \<and> (\<forall>c \<in> set orig. \<exists>s \<in> set (used sl). covers s c))"

lemma set_used: "s \<in> set (used sl) \<longleftrightarrow> (\<exists>i < length sl. s = sl ! i \<and> in_use (sl ! i) \<noteq> -1)"
  by (auto simp: used_def in_set_conv_nth)

lemma length_used_update:
  assumes "i < length sl"
  shows "length (used (sl[i := s])) + (if in_use (sl ! i) \<noteq> -1 then 1 else 0)
    = length (used sl) + (if in_use s \<noteq> -1 then 1 else 0)"
proof -
  have "sl = take i sl @ sl ! i # drop (Suc i) sl" using assms by (rule id_take_nth_drop)
  then have "length (used sl) = length (used (take i sl @ sl ! i # drop (Suc i) sl))" by simp
  then show ?thesis using assms by (simp add: used_def upd_conv_take_nth_drop)
qed

lemma elim_inv_merge:
  assumes inv: "elim_inv Q orig (sl, anz)" and ij: "i < j" "j < MAX_SECTION_FILTERS"
    and use: "in_use (sl ! i) \<noteq> -1" "in_use (sl ! j) \<noteq> -1"
    and m: "merge_slots (sl ! i) (sl ! j) = Merged s"
  shows "elim_inv Q orig (sl[i := s, j := (sl ! j)\<lparr>in_use := -1\<rparr>], anz - 1)" "in_use s \<noteq> -1"
proof -
  have len: "length sl = MAX_SECTION_FILTERS" and anz: "anz = length (used sl)"
    and ok: "\<forall>s \<in> set (used sl). slot_ok s \<and> Q (ver_data s)"
    and cov: "\<forall>c \<in> set orig. \<exists>s \<in> set (used sl). covers s c"
    using inv by (auto simp: elim_inv_def)
  have i: "i < length sl" and j: "j < length sl" using ij len by auto
  have mem: "sl ! i \<in> set (used sl)" "sl ! j \<in> set (used sl)" using use i j by (auto simp: set_used)
  then have s: "covers s (sl ! i)" "covers s (sl ! j)" "slot_ok s" "ver_data s = ver_data (sl ! i)"
    using ok merge_slots_covers [OF _ _ m] by auto
  show in_use: "in_use s \<noteq> -1" using s(3) by (auto simp: slot_ok_def)
  define sl' where "sl' = sl[i := s, j := (sl ! j)\<lparr>in_use := -1\<rparr>]"
  have nth: "sl' ! k = (if k = j then (sl ! j)\<lparr>in_use := -1\<rparr> else if k = i then s else sl ! k)"
    if "k < length sl" for k
    using that ij i j by (auto simp: sl'_def nth_list_update)
  have s': "s \<in> set (used sl')"
    using i ij in_use nth [of i] by (auto simp: set_used sl'_def intro!: exI [of _ i])
  have other: "sl ! k \<in> set (used sl')" if "k < length sl" "k \<noteq> i" "k \<noteq> j" "in_use (sl ! k) \<noteq> -1" for k
    using that nth [of k] by (auto simp: set_used sl'_def intro!: exI [of _ k])
  have "length (used sl') = anz - 1"
    using length_used_update [OF i, of s] length_used_update [of j "sl[i := s]" "(sl ! j)\<lparr>in_use := -1\<rparr>"]
      i j ij use in_use anz by (simp add: sl'_def nth_list_update)
  moreover have "slot_ok t \<and> Q (ver_data t)" if t: "t \<in> set (used sl')" for t
  proof -
    obtain k where k: "k < length sl" "t = sl' ! k" "in_use t \<noteq> -1"
      using t by (auto simp: set_used sl'_def)
    then have "t = s \<or> t \<in> set (used sl)" using nth [of k] by (auto simp: set_used split: if_splits)
    then show ?thesis using ok s mem by auto
  qed
  moreover have "\<exists>t \<in> set (used sl'). covers t c" if c: "c \<in> set orig" for c
  proof -
    obtain k where k: "k < length sl" "in_use (sl ! k) \<noteq> -1" "covers (sl ! k) c"
      using cov c by (auto simp: Bex_def set_used)
    then show ?thesis
      using s s' other [of k] covers_trans by (cases "k = i \<or> k = j") blast+
  qed
  ultimately show "elim_inv Q orig (sl[i := s, j := (sl ! j)\<lparr>in_use := -1\<rparr>], anz - 1)"
    using len by (simp add: elim_inv_def sl'_def)
qed

lemma elim_inner_inv:
  assumes "elim_inner i js st = Some st'" "elim_inv Q orig st" "in_use (fst st ! i) \<noteq> -1"
    and "\<forall>j \<in> set js. i < j \<and> j < MAX_SECTION_FILTERS"
  shows "elim_inv Q orig st'"
  using assms
proof (induction i js st rule: elim_inner.induct)
  case (1 i st)
  then show ?case by simp
next
  case (2 i j js sl anz)
  have j: "i < j" "j < MAX_SECTION_FILTERS" and js: "\<forall>j \<in> set js. i < j \<and> j < MAX_SECTION_FILTERS"
    using 2(7) by auto
  have len: "length sl = MAX_SECTION_FILTERS" using 2(5) by (simp add: elim_inv_def)
  show ?case
  proof (cases "anz \<le> 1 \<or> in_use (sl ! j) = -1")
    case True
    then show ?thesis using 2 js by (auto split: if_splits)
  next
    case False
    then have go: "\<not> anz \<le> 1" "in_use (sl ! j) \<noteq> -1" by auto
    show ?thesis
    proof (cases "merge_slots (sl ! i) (sl ! j)")
      case Keep
      then show ?thesis using 2(2) [OF go Keep] 2(4-6) js go by simp
    next
      case GiveUp
      then show ?thesis using 2(4) go by simp
    next
      case (Merged s)
      have "elim_inv Q orig (sl[i := s, j := (sl ! j)\<lparr>in_use := -1\<rparr>], anz - 1)" "in_use s \<noteq> -1"
        using elim_inv_merge [OF 2(5) j _ go(2) Merged] 2(6) by simp_all
      then show ?thesis
        using 2(3) [OF go Merged] 2(4) js go j len Merged by (simp add: nth_list_update)
    qed
  qed
qed

lemma elim_outer_inv:
  assumes "elim_outer is st = Some st'" "elim_inv Q orig st"
  shows "elim_inv Q orig st'"
  using assms
proof (induction "is" st arbitrary: st' rule: elim_outer.induct)
  case (1 st)
  then show ?case by simp
next
  case (2 i "is" sl anz)
  show ?case
  proof (cases "anz \<le> 1 \<or> in_use (sl ! i) = -1")
    case True
    then show ?thesis using 2 by (auto split: if_splits)
  next
    case False
    then obtain st1 where st1: "elim_inner i [i + 1 ..< MAX_SECTION_FILTERS] (sl, anz) = Some st1"
      "elim_outer is st1 = Some st'"
      using 2(3) by (auto simp: bind_eq_Some_conv)
    then have "elim_inv Q orig st1" using elim_inner_inv [OF st1(1) 2(4)] False by simp
    then show ?thesis using 2(2) st1 False by simp
  qed
qed

lemma eliminate_inv:
  assumes "eliminate st = Some st'" "elim_inv Q orig st"
  shows "elim_inv Q orig st'"
  using assms
proof (induction st rule: eliminate.induct)
  case (1 st)
  obtain st1 where st1: "elim_pass st = Some st1" using 1(2) by (subst (asm) eliminate.simps) (auto split: option.splits)
  then have "elim_inv Q orig st1" using 1(3) elim_outer_inv by (auto simp: elim_pass_def)
  then show ?case
    using 1 st1 by (subst (asm) eliminate.simps) (auto split: if_splits)
qed



section \<open>The converted filters\<close>

lemma collect_filters_Some:
  assumes "collect_filters junk fs = Some sl"
  shows "fs \<noteq> []" "length fs \<le> MAX_SECTION_FILTERS"
    and "sl = map (\<lambda>i. normalize_filter (junk i) (fs ! i)) [0 ..< length fs]"
    and "\<And>i. i < length fs \<Longrightarrow> in_use (normalize_filter (junk i) (fs ! i)) \<noteq> -1"
  using assms by (auto simp: collect_filters_def Let_def split: if_splits)

lemma ver_data_drop_negated [simp]: "ver_data (drop_negated s) = ver_data s"
  by (simp add: drop_negated_def ver_data_def Let_def)

lemma set_not_flag_entries [simp]: "set_not_flag i False (map filter_entry xs) = map filter_entry xs"
  by (auto simp: set_not_flag_def filter_entry_def list_update_same_conv)

lemma used_append [simp]: "used (xs @ ys) = used xs @ used ys" by (simp add: used_def)

lemma used_unused [simp]: "used (map (\<lambda>i. unused_slot (junk i)) is) = []"
  by (simp add: used_def unused_slot_def filter_empty_conv)

lemma several_filters_inv:
  assumes "several_filters junk sl = Some st" "length sl \<le> MAX_SECTION_FILTERS"
    and sl: "\<And>s. s \<in> set sl \<Longrightarrow> (\<exists>j f. s = normalize_filter j f) \<and> Q (ver_data s)"
  shows "elim_inv Q (map drop_negated sl) st"
proof -
  let ?sl = "map drop_negated sl"
  have use: "\<forall>s \<in> set ?sl. in_use s \<noteq> -1"
    and el: "eliminate (?sl @ map (\<lambda>i. unused_slot (junk i)) [length sl ..< MAX_SECTION_FILTERS], length sl) = Some st"
    using assms(1) by (auto simp: several_filters_def Let_def split: if_splits)
  have used: "used ?sl = ?sl" using use by (simp add: used_def filter_id_conv)
  have "slot_ok s \<and> Q (ver_data s)" if "s \<in> set ?sl" for s
    using that use sl drop_negated_ok by fastforce
  then have "elim_inv Q ?sl (?sl @ map (\<lambda>i. unused_slot (junk i)) [length sl ..< MAX_SECTION_FILTERS], length sl)"
    using assms(2) by (auto simp: elim_inv_def used intro: covers_refl)
  with el show ?thesis by (rule eliminate_inv)
qed

lemma convert_several:
  assumes conv: "convert_filters junk fs = Some (ao, es)" and len: "length fs \<noteq> 1"
    and Q: "\<And>i. i < length fs \<Longrightarrow> Q (ver_data (normalize_filter (junk i) (fs ! i)))"
  obtains sl where "ao" "es = map filter_entry (used sl)"
    "elim_inv Q (map (\<lambda>i. drop_negated (normalize_filter (junk i) (fs ! i))) [0 ..< length fs]) (sl, length es)"
    "fs \<noteq> []"
proof -
  obtain sl where sl: "collect_filters junk fs = Some sl"
    using conv by (auto simp: convert_filters_def bind_eq_Some_conv)
  note c = collect_filters_Some [OF sl]
  obtain sl1 anz where s: "several_filters junk sl = Some (sl1, anz)"
    "ao" "es = filter_entries sl1 anz False False"
    using conv len c(3) by (auto simp: convert_filters_def sl bind_eq_Some_conv)
  have "elim_inv Q (map drop_negated sl) (sl1, anz)"
    using c(2) Q by (intro several_filters_inv [OF s(1)]) (auto simp: c(3) simp del: split_paired_Ex)
  then have inv: "elim_inv Q (map (\<lambda>i. drop_negated (normalize_filter (junk i) (fs ! i))) [0 ..< length fs]) (sl1, anz)"
    by (simp add: c(3) o_def)
  then have "anz = length (used sl1)" by (simp add: elim_inv_def)
  then have "es = map filter_entry (used sl1)" "anz = length es"
    using s(3) by (simp_all add: filter_entries_def used_def [symmetric])
  then show ?thesis using that inv s(2) c(1) by blast
qed

lemma convert_single:
  assumes "convert_filters junk [f] = Some (ao, es)"
  obtains sl n1 n2 where "\<not> ao" "in_use (normalize_filter (junk 0) f) \<noteq> -1"
    "single_filter (junk 1) (normalize_filter (junk 0) f) = (sl, n1, n2)"
    "es = filter_entries sl (length sl) n1 n2"
proof -
  obtain sl where sl: "collect_filters junk [f] = Some sl"
    using assms by (auto simp: convert_filters_def bind_eq_Some_conv)
  note c = collect_filters_Some [OF sl]
  obtain sl1 n1 n2 where s: "single_filter (junk 1) (normalize_filter (junk 0) f) = (sl1, n1, n2)"
    by (metis prod_cases3)
  show ?thesis
    using assms c(3) c(4) [of 0] s by (intro that [OF _ _ s]) (simp_all add: convert_filters_def sl)
qed

lemma length_set_not_flag [simp]: "length (set_not_flag i b es) = length es"
  by (simp add: set_not_flag_def)

lemma single_filter_slots:
  assumes "single_filter j s = (sl, n1, n2)" "in_use s \<noteq> -1"
  shows "used sl = sl" "0 < length sl" "length sl \<le> 2"
  using assms by (auto simp: single_filter_def used_def Let_def split: if_splits)

lemma convert_filters_size:
  assumes "convert_filters junk fs = Some (ao, es)"
  shows "0 < length es" "length es \<le> MAX_SECTION_FILTERS"
proof -
  have "0 < length es \<and> length es \<le> MAX_SECTION_FILTERS"
  proof (cases "length fs = 1")
    case True
    then obtain f where "fs = [f]" by (cases fs) auto
    with assms obtain sl n1 n2 where s: "in_use (normalize_filter (junk 0) f) \<noteq> -1"
      "single_filter (junk 1) (normalize_filter (junk 0) f) = (sl, n1, n2)" "es = filter_entries sl (length sl) n1 n2"
      by (auto elim: convert_single)
    then show ?thesis
      using single_filter_slots [OF s(2,1)]
      by (simp add: filter_entries_def used_def [symmetric] MAX_SECTION_FILTERS_def)
  next
    case False
    then show ?thesis
    proof (rule convert_several [OF assms _ TrueI])
      fix sl
      assume es: "es = map filter_entry (used sl)" and fs: "fs \<noteq> []" and inv: "elim_inv (\<lambda>_. True)
        (map (\<lambda>i. drop_negated (normalize_filter (junk i) (fs ! i))) [0 ..< length fs]) (sl, length es)"
      have "used sl \<noteq> []" using inv fs [folded length_greater_0_conv] by (force simp: elim_inv_def)
      moreover have "length (used sl) \<le> length sl" by (simp add: used_def)
      ultimately show ?thesis using inv es by (simp add: elim_inv_def)
    qed
  qed
  then show "0 < length es" "length es \<le> MAX_SECTION_FILTERS" by simp_all
qed

end
