(* ===== verification/Avia_Gt_Filter_Space.thy ===== *)
theory Avia_Gt_Filter_Space
  imports Avia_Gt_Filter_Merge
begin

text \<open>
  The entries of the filter tables: the search for a run of free ones is right, the map of the runs stays
  well formed, and no operation touches the filters of a feed that stays.
\<close>

section \<open>The search for a free run\<close>

definition free_run :: "int list \<Rightarrow> nat \<Rightarrow> nat \<Rightarrow> bool" where
  "free_run m a n \<longleftrightarrow> (\<forall>k < n. m ! (a + k) = -1)"

lemma free_run_Suc: "free_run m a (Suc n) \<longleftrightarrow> free_run m a n \<and> m ! (a + n) = -1"
  by (auto simp: free_run_def less_Suc_eq)

lemma free_run_mono: "free_run m a n \<Longrightarrow> k \<le> n \<Longrightarrow> free_run m a k"
  by (auto simp: free_run_def)

text \<open>
  The search after the first \<open>i\<close> entries: the last run and the best one found before it are free, the
  last run starts where a run can start, and a place that is large enough has been seen if there is one.
\<close>

definition space_inv :: "nat \<Rightarrow> int list \<Rightarrow> nat \<Rightarrow> space \<Rightarrow> bool" where
  "space_inv anz m i = (\<lambda>(run, entry, entry_len, new_entry, new_entry_len).
     (case new_entry of
        None \<Rightarrow> new_entry_len = 33 \<and> entry = None \<and> \<not> run
      | Some a \<Rightarrow> 0 < new_entry_len \<and> a + new_entry_len \<le> i \<and> free_run m a new_entry_len
          \<and> (run \<longrightarrow> a + new_entry_len = i \<and> (a = 0 \<or> m ! (a - 1) \<noteq> -1)))
     \<and> (case entry of
          None \<Rightarrow> entry_len = 33
        | Some b \<Rightarrow> b + entry_len \<le> i \<and> free_run m b entry_len \<and> anz \<le> entry_len)
     \<and> (\<not> run \<longrightarrow> i = 0 \<or> m ! (i - 1) \<noteq> -1)
     \<and> (\<forall>p. p + anz \<le> i \<longrightarrow> free_run m p anz \<longrightarrow> entry \<noteq> None \<or> new_entry \<noteq> None \<and> anz \<le> new_entry_len))"

lemma space_step_inv:
  assumes inv: "space_inv anz m i st" and anz: "0 < anz" and i: "i < 32"
  shows "space_inv anz m (Suc i) (space_step anz m i st)"
proof -
  obtain run entry elen new nlen where st: "st = (run, entry, elen, new, nlen)" by (cases st) auto
  have seen: "entry \<noteq> None \<or> new \<noteq> None \<and> anz \<le> nlen" if "p + anz \<le> i" "free_run m p anz" for p
    using inv that unfolding st space_inv_def by blast
  have last: "free_run m p anz \<Longrightarrow> p + anz = Suc i \<Longrightarrow> m ! i = -1" for p
    using anz by (auto simp: free_run_def dest!: spec [of _ "anz - 1"])
  show ?thesis
  proof (cases "m ! i = -1")
    case False
    then have "p + anz \<le> i" if "p + anz \<le> Suc i" "free_run m p anz" for p
      using that last by (metis le_SucE)
    then show ?thesis
      using inv False unfolding st space_inv_def space_step_def
      by (auto split: option.splits)
  next
    case free: True
    show ?thesis
    proof (cases run)
      case True
      then obtain a where new: "new = Some a" using inv by (cases new) (auto simp: st space_inv_def)
      have a: "0 < nlen" "a + nlen = i" "free_run m a nlen" "a = 0 \<or> m ! (a - 1) \<noteq> -1"
        using inv True by (auto simp: st new space_inv_def)
      have "entry \<noteq> None \<or> anz \<le> nlen + 1" if "p + anz \<le> Suc i" "free_run m p anz" for p
      proof (cases "p + anz = Suc i")
        case True
        have "a \<le> p"
        proof (rule ccontr)
          assume "\<not> a \<le> p"
          then have "m ! (p + (a - 1 - p)) = -1" "a \<noteq> 0"
            using that(2) True a(1,2) by (auto simp: free_run_def dest!: spec [of _ "a - 1 - p"])
          then show False using a(4) \<open>\<not> a \<le> p\<close> by simp
        qed
        then show ?thesis using True a(2) by linarith
      next
        case False
        then show ?thesis using seen [of p] that by auto
      qed
      then show ?thesis
        using inv a free True unfolding st new space_inv_def space_step_def
        by (auto simp: free_run_Suc split: option.splits)
    next
      case False
      have start: "i = 0 \<or> m ! (i - 1) \<noteq> -1" using inv False by (simp add: st space_inv_def)
      have here: "free_run m i 1" using free by (simp add: free_run_def)
      have found: "entry \<noteq> None \<or> new \<noteq> None \<and> anz \<le> nlen \<or> anz = 1" if "p + anz \<le> Suc i" "free_run m p anz" for p
      proof (cases "p + anz = Suc i")
        case True
        have "anz = 1"
        proof (rule ccontr)
          assume "anz \<noteq> 1"
          then have "m ! (p + (anz - 2)) = -1" "p + (anz - 2) = i - 1" "i \<noteq> 0"
            using that(2) True anz by (auto simp: free_run_def dest!: spec [of _ "anz - 2"])
          then show False using start by simp
        qed
        then show ?thesis by simp
      next
        case False
        then show ?thesis using seen [of p] that by auto
      qed
      show ?thesis
      proof (cases "nlen < elen \<and> anz \<le> nlen")
        case True
        then obtain a where "new = Some a" using inv by (cases new) (auto simp: st space_inv_def)
        then show ?thesis
          using inv free False True start here unfolding st space_inv_def space_step_def
          by (auto split: option.splits)
      next
        case short: False
        have "entry \<noteq> None" if "new \<noteq> None" "anz \<le> nlen"
          using inv that short i by (auto simp: st space_inv_def split: option.splits)
        then have "entry \<noteq> None \<or> anz = 1" if "p + anz \<le> Suc i" "free_run m p anz" for p
          using found [OF that] by blast
        then show ?thesis
          using inv free False short start here unfolding st space_inv_def space_step_def
          by (auto split: option.splits)
      qed
    qed
  qed
qed

lemma space_fold_inv:
  assumes "0 < anz" "n \<le> 32"
  shows "space_inv anz m n (fold (space_step anz m) [0 ..< n] (False, None, 33, None, 33))"
  using assms
proof (induction n)
  case 0
  then show ?case by (simp add: space_inv_def)
next
  case (Suc n)
  then show ?case by (simp add: space_step_inv)
qed

lemma find_space_sound:
  assumes "0 < anz" "find_space anz m = Some e"
  shows "e + anz \<le> 32 \<and> free_run m e anz"
proof -
  obtain run entry elen new nlen
    where f: "fold (space_step anz m) [0 ..< 32] (False, None, 33, None, 33) = (run, entry, elen, new, nlen)"
    by (metis prod_cases5)
  have inv: "space_inv anz m 32 (run, entry, elen, new, nlen)" using space_fold_inv [OF assms(1), of 32 m] f by simp
  then show ?thesis
    using assms(2) unfolding find_space_def f
    by (auto simp: space_inv_def split: if_splits option.splits intro: free_run_mono)
qed

lemma find_space_complete:
  assumes "0 < anz" "p + anz \<le> 32" "free_run m p anz"
  shows "find_space anz m \<noteq> None"
proof -
  obtain run entry elen new nlen
    where f: "fold (space_step anz m) [0 ..< 32] (False, None, 33, None, 33) = (run, entry, elen, new, nlen)"
    by (metis prod_cases5)
  have inv: "space_inv anz m 32 (run, entry, elen, new, nlen)" using space_fold_inv [OF assms(1), of 32 m] f by simp
  then have "entry \<noteq> None \<or> new \<noteq> None \<and> anz \<le> nlen" using assms(2,3) by (auto simp: space_inv_def)
  then show ?thesis
    using inv unfolding find_space_def f by (auto simp: space_inv_def split: option.splits)
qed


section \<open>The map of the runs\<close>

text \<open>Every used entry belongs to a run that starts at the index it holds.\<close>

definition map_ok :: "int list \<Rightarrow> bool" where
  "map_ok m \<longleftrightarrow> length m = 32
     \<and> (\<forall>p < 32. m ! p \<noteq> -1 \<longrightarrow> (\<exists>v \<le> p. m ! p = int v \<and> (\<forall>q. v \<le> q \<and> q \<le> p \<longrightarrow> m ! q = int v)))"

lemma map_okD:
  assumes "map_ok m" "p < 32" "m ! p = int v"
  shows "v \<le> p" "v \<le> q \<Longrightarrow> q \<le> p \<Longrightarrow> m ! q = int v"
  using assms by (force simp: map_ok_def)+

lemma map_ok_store:
  assumes ok: "map_ok m" and free: "free_run m e n" and n: "0 < n" "e + n \<le> 32"
  shows "map_ok (blit m e (replicate n (int e)))"
proof -
  have len: "length m = 32" using ok by (simp add: map_ok_def)
  have nth: "blit m e (replicate n (int e)) ! p = (if e \<le> p \<and> p < e + n then int e else m ! p)" if "p < 32" for p
    using that n len by (auto simp: nth_blit)
  have "\<exists>v \<le> p. m' ! p = int v \<and> (\<forall>q. v \<le> q \<and> q \<le> p \<longrightarrow> m' ! q = int v)"
    if p: "p < 32" "m' ! p \<noteq> -1" and m': "m' = blit m e (replicate n (int e))" for p m'
  proof (cases "e \<le> p \<and> p < e + n")
    case True
    then show ?thesis using nth p n by (intro exI [of _ e]) (auto simp: m')
  next
    case False
    then have "m ! p \<noteq> -1" using nth [OF p(1)] p(2) unfolding m' by (simp split: if_splits)
    then obtain v where v: "v \<le> p" "m ! p = int v" "\<And>q. v \<le> q \<Longrightarrow> q \<le> p \<Longrightarrow> m ! q = int v"
      using ok p(1) unfolding map_ok_def by metis
    have "\<not> (e \<le> q \<and> q < e + n)" if "v \<le> q" "q \<le> p" for q
    proof
      assume "e \<le> q \<and> q < e + n"
      then have "m ! q = -1" using free by (auto simp: free_run_def dest!: spec [of _ "q - e"])
      then show False using v(3) [OF that] by simp
    qed
    then show ?thesis using v nth p False by (intro exI [of _ v]) (auto simp: m')
  qed
  then show ?thesis using len n by (auto simp: map_ok_def)
qed

lemma clear_run_replicate:
  "(ys \<noteq> [] \<Longrightarrow> hd ys \<noteq> v) \<Longrightarrow> clear_run v (replicate n v @ ys) = replicate n (-1) @ ys"
  by (induction n) (cases ys; simp)+

lemma clear_run_nth:
  "k < length xs \<Longrightarrow> clear_run v xs ! k = (if \<forall>j \<le> k. xs ! j = v then -1 else xs ! k)"
proof (induction xs arbitrary: k)
  case (Cons x xs)
  have "(\<forall>j \<le> Suc n. (x # xs) ! j = v) \<longleftrightarrow> x = v \<and> (\<forall>j \<le> n. xs ! j = v)" for n
    by (auto simp: nth_Cons split: nat.splits dest: spec [of _ "Suc _"])
  then show ?case using Cons by (cases k) auto
qed simp


section \<open>Allocation and release\<close>

lemma alloc_section_filter_cases:
  assumes "prop_ucode_alloc_section_filter junk fs u = (r, u')"
  obtains (none) "r = None" "u' = u"
    | (some) ao es e where "convert_filters junk fs = Some (ao, es)" "find_space (length es) (section_map u) = Some e"
        "r = Some \<lparr>sec_idx = e, sec_filtercount = of_nat (length es)\<rparr>" "u' = store_filters e ao es u"
        "0 < length es" "length es \<le> 16" "e + length es \<le> 32" "free_run (section_map u) e (length es)"
proof (cases "convert_filters junk fs")
  case None
  then show ?thesis using assms none by (simp add: prop_ucode_alloc_section_filter_def)
next
  case (Some p)
  obtain ao es where p: "p = (ao, es)" by fastforce
  note size = convert_filters_size [OF Some [unfolded p]]
  show ?thesis
  proof (cases "find_space (length es) (section_map u)")
    case None
    then show ?thesis using assms none Some p by (simp add: prop_ucode_alloc_section_filter_def)
  next
    case e: (Some e)
    then show ?thesis
      using assms Some p size find_space_sound [OF size(1) e]
      by (intro some [of ao es e]) (simp_all add: prop_ucode_alloc_section_filter_def MAX_SECTION_FILTERS_def)
  qed
qed

lemma store_filters_frame [frame_simps]:
  "ucode_feed (store_filters e ao es u) = ucode_feed u"
  "section_map (store_filters e ao es u) = blit (section_map u) e (replicate (length es) (int e))"
  "risc_filter_param (store_filters e ao es u) = blit (risc_filter_param u) e es"
  by (simp_all add: store_filters_def Let_def)

text \<open>A released run leaves the map as it was before the allocation.\<close>

lemma alloc_free_map:
  assumes ok: "map_ok m" and free: "free_run m e n" and n: "0 < n" "e + n \<le> 32"
    and m': "m' = blit m e (replicate n (int e))"
  shows "take e m' @ clear_run (int e) (drop e m') = m"
proof -
  have len: "length m = 32" using ok by (simp add: map_ok_def)
  have rest: "hd (drop (e + n) m) \<noteq> int e" if "drop (e + n) m \<noteq> []"
  proof
    assume "hd (drop (e + n) m) = int e"
    then have "m ! (e + n) = int e" "e + n < 32" using that len by (simp_all add: hd_drop_conv_nth)
    then have "m ! e = int e" using map_okD(2) [OF ok, of "e + n" e e] by simp
    then show False using free n by (auto simp: free_run_def)
  qed
  have "take n (drop e m) = replicate n (-1)"
    using free n len by (intro nth_equalityI) (auto simp: free_run_def)
  then have "drop e m = replicate n (-1) @ drop (e + n) m"
    using append_take_drop_id [of n "drop e m"] by (simp add: add.commute)
  then have "m = take e m @ replicate n (-1) @ drop (e + n) m"
    using append_take_drop_id [of e m] by simp
  moreover have "take e m' = take e m" "drop e m' = replicate n (int e) @ drop (e + n) m"
    using n len by (simp_all add: m' blit_def)
  ultimately show ?thesis using clear_run_replicate [OF rest] by simp
qed

lemma free_section_filter_nth:
  assumes "map_ok (section_map u)" "p < 32"
  shows "section_map (prop_ucode_free_section_filter x u) ! p
    = (if x \<le> 31 \<and> section_map u ! x = int x \<and> (\<forall>f \<in> set (ucode_feed u). section_idx f \<noteq> x)
         \<and> section_map u ! p = int x then -1 else section_map u ! p)"
proof -
  let ?m = "section_map u"
  have len: "length ?m = 32" using assms(1) by (simp add: map_ok_def)
  show ?thesis
  proof (cases "x \<le> 31 \<and> ?m ! x = int x \<and> (\<forall>f \<in> set (ucode_feed u). section_idx f \<noteq> x)")
    case True
    have "(take x ?m @ clear_run (int x) (drop x ?m)) ! p = (if ?m ! p = int x then -1 else ?m ! p)"
    proof (cases "p < x")
      case True
      then have "?m ! p \<noteq> int x" using map_okD(1) [OF assms, of x] by auto
      then show ?thesis using True len assms(2) by (simp add: nth_append)
    next
      case False
      then have "(\<forall>j \<le> p - x. drop x ?m ! j = int x) \<longleftrightarrow> ?m ! p = int x"
        using map_okD(2) [OF assms, of x] len assms(2) by (auto dest: spec [of _ "p - x"])
      then show ?thesis using False len assms(2) by (simp add: nth_append clear_run_nth)
    qed
    then show ?thesis using True by (auto simp: prop_ucode_free_section_filter_def)
  next
    case False
    then show ?thesis by (auto simp: prop_ucode_free_section_filter_def)
  qed
qed

lemma free_section_filter_map_ok:
  assumes ok: "map_ok (section_map u)"
  shows "map_ok (section_map (prop_ucode_free_section_filter x u))"
proof -
  let ?m' = "section_map (prop_ucode_free_section_filter x u)"
  note nth = free_section_filter_nth [OF ok]
  have "\<exists>v \<le> p. ?m' ! p = int v \<and> (\<forall>q. v \<le> q \<and> q \<le> p \<longrightarrow> ?m' ! q = int v)" if p: "p < 32" "?m' ! p \<noteq> -1" for p
  proof -
    have same: "?m' ! p = section_map u ! p" "section_map u ! p \<noteq> -1" using p nth by (simp_all split: if_splits)
    then obtain v where v: "v \<le> p" "section_map u ! p = int v" "\<And>q. v \<le> q \<Longrightarrow> q \<le> p \<Longrightarrow> section_map u ! q = int v"
      using ok p(1) unfolding map_ok_def by metis
    have "?m' ! q = int v" if "v \<le> q" "q \<le> p" for q
      using v that p nth [of q] nth [of p] same by (auto split: if_splits)
    then show ?thesis using v(1) by (intro exI [of _ v]) auto
  qed
  then show ?thesis using ok by (auto simp: map_ok_def frame_simps)
qed


section \<open>The filters of a feed stay\<close>

definition feed_filters :: "avia_gt_feed \<Rightarrow> nat set" where
  "feed_filters f = (if section_idx f = 255 then {} else {section_idx f .. section_idx f + unat (filtercount f)})"

definition sec_inv :: "ucode_state \<Rightarrow> bool" where
  "sec_inv u \<longleftrightarrow> map_ok (section_map u) \<and> length (ucode_feed u) = 32 \<and> length (risc_filter_param u) = 32
     \<and> (\<forall>f \<in> set (ucode_feed u). \<forall>p \<in> feed_filters f. p < 32 \<and> section_map u ! p = int (section_idx f))"

text \<open>A set of filters that was allocated and not released.\<close>

definition held :: "avia_gt_section \<Rightarrow> ucode_state \<Rightarrow> bool" where
  "held sec u \<longleftrightarrow> 0 < sec_filtercount sec
     \<and> (\<forall>k < unat (sec_filtercount sec). sec_idx sec + k < 32 \<and> section_map u ! (sec_idx sec + k) = int (sec_idx sec))"

inductive filter_step :: "ucode_state \<Rightarrow> ucode_state \<Rightarrow> bool" where
  fst_alloc_filter: "filter_step u (snd (prop_ucode_alloc_section_filter junk fs u))"
| fst_alloc_feed: "pred_option (\<lambda>s. held s u) sec \<Longrightarrow>
     filter_step u (snd (prop_ucode_alloc_generic_feed q t sec pid u))"
| fst_start: "filter_step u (prop_ucode_start_feed i tap u)"
| fst_stop: "i < 32 \<Longrightarrow> filter_step u (prop_ucode_stop_feed i r u)"
| fst_free: "filter_step u (prop_ucode_free_section_filter x u)"

lemma start_feed_filters [frame_simps]:
  "ucode_feed (prop_ucode_start_feed i tap u) = ucode_feed u"
  "section_map (prop_ucode_start_feed i tap u) = section_map u"
  "risc_filter_param (prop_ucode_start_feed i tap u) = risc_filter_param u"
  by (simp_all add: prop_ucode_start_feed_def prop_ucode_set_pid_table_def prop_ucode_set_pid_control_table_def Let_def)

lemma alloc_generic_feed_filters:
  assumes "prop_ucode_alloc_generic_feed q t sec pid u = (r, u')"
  shows "section_map u' = section_map u" "risc_filter_param u' = risc_filter_param u"
    "ucode_feed u' = ucode_feed u \<or> (\<exists>i g. ucode_feed u' = (ucode_feed u)[i := g]
        \<and> section_idx g = (case sec of Some s \<Rightarrow> sec_idx s | None \<Rightarrow> 255)
        \<and> filtercount g = (case sec of Some s \<Rightarrow> sec_filtercount s - 1 | None \<Rightarrow> 0))"
proof -
  have "section_map u' = section_map u \<and> risc_filter_param u' = risc_filter_param u
    \<and> (ucode_feed u' = ucode_feed u \<or> (\<exists>i g. ucode_feed u' = (ucode_feed u)[i := g]
        \<and> section_idx g = (case sec of Some s \<Rightarrow> sec_idx s | None \<Rightarrow> 255)
        \<and> filtercount g = (case sec of Some s \<Rightarrow> sec_filtercount s - 1 | None \<Rightarrow> 0)))"
  proof (cases "first_index (\<lambda>f. dest_queue f = -1) (ucode_feed u)")
    case None
    then show ?thesis using assms by (auto simp: prop_ucode_alloc_generic_feed_def)
  next
    case (Some i)
    then show ?thesis
      using assms
      by (auto simp: prop_ucode_alloc_generic_feed_def prop_ucode_set_pid_table_def Let_def
          split: if_splits intro!: exI [of _ i])
  qed
  then show "section_map u' = section_map u" "risc_filter_param u' = risc_filter_param u"
    "ucode_feed u' = ucode_feed u \<or> (\<exists>i g. ucode_feed u' = (ucode_feed u)[i := g]
        \<and> section_idx g = (case sec of Some s \<Rightarrow> sec_idx s | None \<Rightarrow> 255)
        \<and> filtercount g = (case sec of Some s \<Rightarrow> sec_filtercount s - 1 | None \<Rightarrow> 0))"
    by blast+
qed

lemma held_filters:
  assumes "held s u" "p \<in> {sec_idx s .. sec_idx s + unat (sec_filtercount s - 1)}"
  shows "p < 32 \<and> section_map u ! p = int (sec_idx s)"
proof -
  have "0 < unat (sec_filtercount s)" using assms(1) by (simp add: held_def word_less_nat_alt)
  then have "p - sec_idx s < unat (sec_filtercount s)"
    using assms(2) by (auto simp: unat_sub word_le_nat_alt)
  then show ?thesis using assms by (auto simp: held_def dest!: spec [of _ "p - sec_idx s"])
qed

lemma alloc_feed_sec_inv:
  assumes inv: "sec_inv u" and sec: "pred_option (\<lambda>s. held s u) sec"
  shows "sec_inv (snd (prop_ucode_alloc_generic_feed q t sec pid u))"
proof -
  obtain r u' where eq: "prop_ucode_alloc_generic_feed q t sec pid u = (r, u')" by fastforce
  note e = alloc_generic_feed_filters [OF eq]
  have "\<forall>p \<in> feed_filters f. p < 32 \<and> section_map u ! p = int (section_idx f)" if f: "f \<in> set (ucode_feed u')" for f
  proof (cases "f \<in> set (ucode_feed u)")
    case True
    then show ?thesis using inv by (simp add: sec_inv_def)
  next
    case False
    then have "section_idx f = (case sec of Some s \<Rightarrow> sec_idx s | None \<Rightarrow> 255)"
      "filtercount f = (case sec of Some s \<Rightarrow> sec_filtercount s - 1 | None \<Rightarrow> 0)"
      using f e(3) by (auto dest!: set_update_subset_insert [THEN subsetD])
    then show ?thesis
      using sec held_filters by (cases sec) (auto simp: feed_filters_def)
  qed
  then show ?thesis using inv e by (auto simp: eq sec_inv_def)
qed

lemma alloc_filter_sec_inv:
  assumes inv: "sec_inv u"
  shows "sec_inv (snd (prop_ucode_alloc_section_filter junk fs u))"
proof -
  obtain r u' where eq: "prop_ucode_alloc_section_filter junk fs u = (r, u')" by fastforce
  then show ?thesis
  proof (cases rule: alloc_section_filter_cases)
    case none
    then show ?thesis using inv eq by simp
  next
    case (some ao es e)
    let ?m = "section_map u"
    have ok: "map_ok ?m" and len: "length ?m = 32" "length (risc_filter_param u) = 32"
      using inv by (simp_all add: sec_inv_def map_ok_def)
    have "blit ?m e (replicate (length es) (int e)) ! p = ?m ! p" if "p < 32" "?m ! p \<noteq> -1" for p
      using that some(7,8) len by (auto simp: nth_blit free_run_def dest!: spec [of _ "p - e"])
    then show ?thesis
      using inv map_ok_store [OF ok some(8,5,7)] some(4,7) len eq by (auto simp: sec_inv_def frame_simps)
  qed
qed

lemma free_filter_sec_inv:
  assumes inv: "sec_inv u"
  shows "sec_inv (prop_ucode_free_section_filter x u)"
proof -
  have ok: "map_ok (section_map u)" using inv by (simp add: sec_inv_def)
  have "section_map (prop_ucode_free_section_filter x u) ! p = section_map u ! p"
    if "f \<in> set (ucode_feed u)" "p \<in> feed_filters f" for f p
    using that inv free_section_filter_nth [OF ok, of p x] by (auto simp: sec_inv_def)
  moreover have "risc_filter_param (prop_ucode_free_section_filter x u) = risc_filter_param u"
    by (simp add: prop_ucode_free_section_filter_def)
  ultimately show ?thesis
    using inv free_section_filter_map_ok [OF ok] by (auto simp: sec_inv_def frame_simps)
qed

lemma stop_feed_sec_inv:
  assumes inv: "sec_inv u"
  shows "sec_inv (prop_ucode_stop_feed i r u)"
proof (cases "dest_queue (ucode_feed u ! i) = -1")
  case True
  then show ?thesis using inv by (simp add: prop_ucode_stop_feed_def)
next
  case False
  let ?f = "(ucode_feed u ! i)\<lparr>dest_queue := -1, gtf_pid := 0, section_idx := 255\<rparr>"
  define u0 where "u0 = u\<lparr>ucode_feed := (ucode_feed u)[i := ?f]\<rparr>"
  define u1 where "u1 = (if r then if section_idx (ucode_feed u ! i) \<noteq> 255
      \<and> \<not> (\<exists>g \<in> set (ucode_feed u0). section_idx g = section_idx (ucode_feed u ! i))
    then prop_ucode_free_section_filter (section_idx (ucode_feed u ! i)) u0 else u0 else u)"
  have "\<forall>p \<in> feed_filters f. p < 32 \<and> section_map u ! p = int (section_idx f)" if "f \<in> set (ucode_feed u0)" for f
    using that inv by (auto simp: u0_def sec_inv_def feed_filters_def dest!: set_update_subset_insert [THEN subsetD])
  then have "sec_inv u0" using inv by (simp add: sec_inv_def u0_def)
  then have "sec_inv u1" using inv free_filter_sec_inv by (simp add: u1_def)
  moreover have "prop_ucode_stop_feed i r u
      = snd (prop_ucode_set_pid_table i True True (gtf_pid (ucode_feed u1 ! i)) u1)"
    using False by (simp add: prop_ucode_stop_feed_def Let_def u0_def u1_def)
  ultimately show ?thesis by (simp add: sec_inv_def prop_ucode_set_pid_table_def)
qed

lemma filter_step_sec_inv: "filter_step u u' \<Longrightarrow> sec_inv u \<Longrightarrow> sec_inv u'"
proof (induction rule: filter_step.induct)
  case (fst_start u i tap)
  then show ?case by (simp add: sec_inv_def frame_simps)
qed (auto intro: alloc_filter_sec_inv alloc_feed_sec_inv free_filter_sec_inv stop_feed_sec_inv)

lemma stop_feed_filter_param: "risc_filter_param (prop_ucode_stop_feed i r u) = risc_filter_param u"
  by (simp add: prop_ucode_stop_feed_def prop_ucode_set_pid_table_def prop_ucode_free_section_filter_def Let_def)

lemma filter_step_params:
  assumes "filter_step u u'" "sec_inv u" "f \<in> set (ucode_feed u)" "p \<in> feed_filters f"
  shows "risc_filter_param u' ! p = risc_filter_param u ! p"
  using assms(1)
proof cases
  case (fst_alloc_filter junk fs)
  obtain r u1 where eq: "prop_ucode_alloc_section_filter junk fs u = (r, u1)" by fastforce
  then show ?thesis
  proof (cases rule: alloc_section_filter_cases)
    case none
    then show ?thesis using fst_alloc_filter eq by simp
  next
    case (some ao es e)
    have "p < 32" "section_map u ! p \<noteq> -1" "length (risc_filter_param u) = 32"
      using assms(2-4) by (auto simp: sec_inv_def)
    then show ?thesis
      using some(4,7,8) fst_alloc_filter eq
      by (auto simp: frame_simps nth_blit free_run_def dest!: spec [of _ "p - e"])
  qed
next
  case (fst_alloc_feed sec q t pid)
  then show ?thesis using alloc_generic_feed_filters(2) [OF surjective_pairing] by simp
qed (auto simp: frame_simps stop_feed_filter_param prop_ucode_free_section_filter_def)

text \<open>Steps during which a feed stays as it is.\<close>

definition step_besides :: "nat \<Rightarrow> ucode_state \<Rightarrow> ucode_state \<Rightarrow> bool" where
  "step_besides i u u' \<longleftrightarrow> filter_step u u' \<and> ucode_feed u' ! i = ucode_feed u ! i"

lemma steps_besides_filters:
  assumes "(step_besides i)\<^sup>*\<^sup>* u u'" "sec_inv u" "i < 32" "p \<in> feed_filters (ucode_feed u ! i)"
  shows "sec_inv u' \<and> ucode_feed u' ! i = ucode_feed u ! i \<and> risc_filter_param u' ! p = risc_filter_param u ! p"
  using assms
proof (induction rule: rtranclp_induct)
  case base
  then show ?case by simp
next
  case (step v w)
  then have v: "sec_inv v" "ucode_feed v ! i = ucode_feed u ! i" "risc_filter_param v ! p = risc_filter_param u ! p"
    "filter_step v w" "ucode_feed w ! i = ucode_feed v ! i"
    by (auto simp: step_besides_def)
  have "ucode_feed v ! i \<in> set (ucode_feed v)" using v(1) assms(3) by (simp add: sec_inv_def)
  then show ?case
    using v filter_step_params [OF v(4,1)] filter_step_sec_inv [OF v(4,1)] step.prems(3) by simp
qed

end
