(* ===== verification/Avia_Gt_Napi_Feed.thy ===== *)
theory Avia_Gt_Napi_Feed
  imports Avia_Gt_Napi_Callback Avia_Gt_Filter_Space
begin

text \<open>
  Starting and stopping feeds, \<open>avia_gt_napi.c\<close>: what the software demultiplexer calls through its hooks
  \<open>start_feed\<close>, \<open>stop_feed\<close> and \<open>write_to_decoder\<close>. A feed gets a queue of the chip and a feed of
  the microcode; section feeds get filters of the microcode too, or fall back to whole packets that the
  software filters.

  \<^item> \<open>napi_state\<close> holds the statics of the file beside the state of the chip: \<open>mode\<close>, \<open>need_audio_pts\<close>,
    \<open>clipmode\<close>, \<open>ts_pid\<close>. \<open>np_priv\<close> is the field \<open>priv\<close> of each \<open>struct dvb_demux_feed\<close>, which points to
    the queue of the feed.
  \<^item> A feed is named by its index; its other fields are those of \<open>dvb_demux_feed\<close>. \<open>fs\<close> are the filters of
    its chain, \<open>src\<close> is the source of the connected frontend.
  \<^item> The decoder and the teletext encoder are other chips. \<open>np_av\<close> lists the calls into their drivers.
  \<^item> \<open>None\<close> is an access through a null pointer.
\<close>

section \<open>State\<close>

definition DMX_TS_PES_AUDIO :: nat where "DMX_TS_PES_AUDIO = 0"
definition DMX_TS_PES_VIDEO :: nat where "DMX_TS_PES_VIDEO = 1"
definition DMX_TS_PES_TELETEXT :: nat where "DMX_TS_PES_TELETEXT = 2"
definition DMX_TS_PES_SUBTITLE :: nat where "DMX_TS_PES_SUBTITLE = 3"
definition DMX_TS_PES_PCR :: nat where "DMX_TS_PES_PCR = 4"

lemmas pes_consts = DMX_TS_PES_AUDIO_def DMX_TS_PES_VIDEO_def DMX_TS_PES_TELETEXT_def DMX_TS_PES_SUBTITLE_def
  DMX_TS_PES_PCR_def DMX_TS_PES_OTHER_def

datatype av_call =
    DecoderStart nat nat u32  \<comment> \<open>PES type, PID and \<open>ts_type\<close> of the feed\<close>
  | DecoderStop nat
  | VbiStart
  | VbiStop
  | SetStc nat

record napi_state =
  np_gt :: gt_state
  np_mode :: int
  need_audio_pts :: bool
  clipmode :: bool
  ts_pid_of :: "u16 list"
  np_priv :: "nat option list"
  np_av :: "av_call list"

definition feed_pid16 :: "dvb_demux_feed \<Rightarrow> u16" where
  "feed_pid16 feed = of_nat (feed_pid feed)"

definition avia_gt_get_playback_mode :: "napi_state \<Rightarrow> int" where
  "avia_gt_get_playback_mode n = np_mode n"

definition avia_gt_set_playback_mode :: "int \<Rightarrow> napi_state \<Rightarrow> napi_state" where
  "avia_gt_set_playback_mode new_mode n = n\<lparr>np_mode := (if new_mode \<noteq> 0 then 1 else 0)\<rparr>"


section \<open>Queues\<close>

text \<open>The addresses of the three callbacks.\<close>

definition CALLBACK_GENERIC :: nat where "CALLBACK_GENERIC = 1"
definition CALLBACK_TS_PES :: nat where "CALLBACK_TS_PES = 2"
definition CALLBACK_SECTION :: nat where "CALLBACK_SECTION = 3"

definition avia_gt_napi_queue_alloc ::
  "nat option \<Rightarrow> nat \<Rightarrow> dvb_demux_feed \<Rightarrow> gt_state \<Rightarrow> nat option \<times> gt_state" where
  "avia_gt_napi_queue_alloc cb i feed s =
     (if feed_type feed = DMX_TYPE_SEC then avia_gt_dmx_alloc_queue_user None cb (Some i) s
      else if feed_type feed \<noteq> DMX_TYPE_TS then (None, s)
      else if pes_type feed = DMX_TS_PES_VIDEO then avia_gt_dmx_alloc_queue_video None cb (Some i) s
      else if pes_type feed = DMX_TS_PES_AUDIO then avia_gt_dmx_alloc_queue_audio None cb (Some i) s
      else if pes_type feed = DMX_TS_PES_TELETEXT then avia_gt_dmx_alloc_queue_teletext None cb (Some i) s
      else if pes_type feed \<in> {DMX_TS_PES_PCR, DMX_TS_PES_SUBTITLE, DMX_TS_PES_OTHER}
      then avia_gt_dmx_alloc_queue_user None cb (Some i) s
      else (None, s))"

text \<open>
  What the start functions have in common: a queue and a feed of the microcode, or nothing. A failed
  \<open>alloc_feed\<close> stores its result 0xff in \<open>feed_idx\<close>.
\<close>

definition claim_queue ::
  "nat option \<Rightarrow> nat \<Rightarrow> nat \<Rightarrow> dvb_demux_feed \<Rightarrow> napi_state \<Rightarrow> nat option \<times> napi_state" where
  "claim_queue cb qmode i feed n =
     (case avia_gt_napi_queue_alloc cb i feed (np_gt n) of
        (None, s) \<Rightarrow> (None, n\<lparr>np_gt := s\<rparr>)
      | (Some nr, s) \<Rightarrow>
         (case prop_ucode_alloc_feed nr qmode (feed_pid16 feed) (ucode s) of
            (None, u) \<Rightarrow>
              (None, n\<lparr>np_gt := snd (avia_gt_dmx_free_queue nr (upd_queue nr (\<lambda>q. q\<lparr>feed_idx := 255\<rparr>) (s\<lparr>ucode := u\<rparr>)))\<rparr>)
          | (Some k, u) \<Rightarrow>
              (Some nr, n\<lparr>np_gt := upd_queue nr (\<lambda>q. q\<lparr>feed_idx := k\<rparr>) (s\<lparr>ucode := u\<rparr>),
                          np_priv := (np_priv n)[i := Some nr]\<rparr>)))"

definition run_queue :: "nat \<Rightarrow> nat \<Rightarrow> dvb_demux_feed \<Rightarrow> napi_state \<Rightarrow> cret \<times> napi_state" where
  "run_queue nr qmode feed n =
     (let (r, s) = avia_gt_dmx_queue_start nr qmode (feed_pid16 feed) (np_gt n) in (r, n\<lparr>np_gt := s\<rparr>))"

definition decoder_feed :: "dvb_demux_feed \<Rightarrow> bool" where
  "decoder_feed feed \<longleftrightarrow> feed_type feed \<noteq> DMX_TYPE_SEC \<and> ts_type feed AND TS_DECODER \<noteq> 0"

definition start_decoder :: "dvb_demux_feed \<Rightarrow> napi_state \<Rightarrow> napi_state" where
  "start_decoder feed n =
     (if decoder_feed feed \<and> pes_type feed \<in> {DMX_TS_PES_AUDIO, DMX_TS_PES_VIDEO}
      then n\<lparr>np_av := np_av n @ [DecoderStart (pes_type feed) (feed_pid feed) (ts_type feed)]\<rparr> else n)"


section \<open>Starting a feed\<close>

definition avia_gt_napi_start_feed_generic :: "nat \<Rightarrow> dvb_demux_feed \<Rightarrow> napi_state \<Rightarrow> cret \<times> napi_state" where
  "avia_gt_napi_start_feed_generic i feed n =
     (case claim_queue (Some CALLBACK_GENERIC) TS i feed n of
        (None, n1) \<Rightarrow> (Inl EBUSY, n1)
      | (Some nr, n1) \<Rightarrow> run_queue nr TS feed (start_decoder feed n1))"

text \<open>With the memory as source the packets have already gone through the software demultiplexer.\<close>

definition avia_gt_napi_start_feed_ts ::
  "dmx_frontend_source \<Rightarrow> nat \<Rightarrow> dvb_demux_feed \<Rightarrow> napi_state \<Rightarrow> cret \<times> napi_state" where
  "avia_gt_napi_start_feed_ts src i feed n =
     (if CAP_TS \<notin> set (caps (ucode (np_gt n))) then avia_gt_napi_start_feed_generic i feed n
      else
        case claim_queue (if src = DMX_MEMORY_FE then None else Some CALLBACK_TS_PES) TS i feed n of
          (None, n1) \<Rightarrow> (Inl EBUSY, n1)
        | (Some nr, n1) \<Rightarrow>
           (let n2 =
             (if ts_type feed AND TS_DECODER = 0 then n1
              else if pes_type feed \<in> {DMX_TS_PES_AUDIO, DMX_TS_PES_VIDEO}
              then n1\<lparr>np_av := np_av n1 @ [DecoderStart (pes_type feed) (feed_pid feed) (ts_type feed)]\<rparr>
              else if pes_type feed = DMX_TS_PES_TELETEXT then n1\<lparr>np_av := np_av n1 @ [VbiStart]\<rparr>
              else n1)
            in run_queue nr TS feed (n2\<lparr>ts_pid_of := (ts_pid_of n2)[nr := feed_pid16 feed]\<rparr>)))"

definition avia_gt_napi_start_feed_pes :: "nat \<Rightarrow> dvb_demux_feed \<Rightarrow> napi_state \<Rightarrow> cret \<times> napi_state" where
  "avia_gt_napi_start_feed_pes i feed n =
     (if CAP_PES \<notin> set (caps (ucode (np_gt n))) then avia_gt_napi_start_feed_generic i feed n
      else if \<exists>k < AVIA_GT_DMX_QUEUE_COUNT. ts_pid_of n ! k = feed_pid16 feed
      then avia_gt_napi_start_feed_generic i feed n
      else
        case claim_queue (Some CALLBACK_TS_PES) PES i feed n of
          (None, n1) \<Rightarrow> (Inl EBUSY, n1)
        | (Some nr, n1) \<Rightarrow> run_queue nr PES feed (start_decoder feed n1))"

text \<open>The index of the microcode feed is not kept in the queue here.\<close>

definition avia_gt_napi_start_feed_section ::
  "(nat \<Rightarrow> u8 \<times> u8) \<Rightarrow> dvb_demux_filter list \<Rightarrow> nat \<Rightarrow> dvb_demux_feed \<Rightarrow> napi_state \<Rightarrow> cret \<times> napi_state" where
  "avia_gt_napi_start_feed_section junk fs i feed n =
     (if CAP_SEC \<notin> set (caps (ucode (np_gt n))) then avia_gt_napi_start_feed_generic i feed n
      else
        case prop_ucode_alloc_section_filter junk fs (ucode (np_gt n)) of
          (None, u) \<Rightarrow> avia_gt_napi_start_feed_generic i feed (n\<lparr>np_gt := (np_gt n)\<lparr>ucode := u\<rparr>\<rparr>)
        | (Some sec, u) \<Rightarrow>
           (case avia_gt_napi_queue_alloc (Some CALLBACK_SECTION) i feed ((np_gt n)\<lparr>ucode := u\<rparr>) of
              (None, s) \<Rightarrow>
                (Inl EBUSY, n\<lparr>np_gt := s\<lparr>ucode := prop_ucode_free_section_filter (sec_idx sec) (ucode s)\<rparr>\<rparr>)
            | (Some nr, s) \<Rightarrow>
               (case prop_ucode_alloc_section_feed nr (Some sec) (feed_pid16 feed) (ucode s) of
                  (None, u) \<Rightarrow>
                    (Inl EBUSY, n\<lparr>np_gt := snd (avia_gt_dmx_free_queue nr
                       (s\<lparr>ucode := prop_ucode_free_section_filter (sec_idx sec) u\<rparr>))\<rparr>)
                | (Some k, u) \<Rightarrow>
                    run_queue nr SECTION feed (n\<lparr>np_gt := s\<lparr>ucode := u\<rparr>, np_priv := (np_priv n)[i := Some nr]\<rparr>))))"

definition avia_gt_napi_is_clipmode_feed :: "dvb_demux_feed \<Rightarrow> bool" where
  "avia_gt_napi_is_clipmode_feed feed \<longleftrightarrow>
     pes_type feed \<le> DMX_TS_PES_TELETEXT \<and> ts_type feed AND TS_DECODER \<noteq> 0 \<and> feed_type feed \<noteq> DMX_TYPE_SEC"

text \<open>A decoder feed takes the packets of its PID from the user queue that had them, and gives them back.\<close>

definition tap_user_queue :: "bool \<Rightarrow> dvb_demux_feed \<Rightarrow> napi_state \<Rightarrow> napi_state" where
  "tap_user_queue start feed n =
     (case find (\<lambda>k. ts_pid_of n ! k = feed_pid16 feed) [AVIA_GT_DMX_QUEUE_USER_START ..< AVIA_GT_DMX_QUEUE_COUNT] of
        None \<Rightarrow> n
      | Some k \<Rightarrow> n\<lparr>np_gt := avia_gt_dmx_tap k start (np_gt n)\<rparr>)"

text \<open>A clock reference feed for the decoder alone has no queue.\<close>

definition pcr_feed :: "dvb_demux_feed \<Rightarrow> bool" where
  "pcr_feed feed \<longleftrightarrow> decoder_feed feed \<and> pes_type feed = DMX_TS_PES_PCR"

definition start_stream ::
  "dmx_frontend_source \<Rightarrow> nat \<Rightarrow> dvb_demux_feed \<Rightarrow> napi_state \<Rightarrow> cret \<times> napi_state" where
  "start_stream src i feed n =
     (let (r, n1) = (if ts_type feed AND TS_PAYLOAD_ONLY \<noteq> 0 then avia_gt_napi_start_feed_pes i feed n
                     else avia_gt_napi_start_feed_ts src i feed n)
      in (r, if r = Inr 0 \<and> ts_type feed AND TS_DECODER \<noteq> 0 then tap_user_queue False feed n1 else n1))"

text \<open>In dual PES mode the decoder wants payload; that changes the feed itself.\<close>

definition prepare_feed :: "dmx_frontend_source \<Rightarrow> dvb_demux_feed \<Rightarrow> napi_state \<Rightarrow> dvb_demux_feed \<times> napi_state" where
  "prepare_feed src feed n =
     (if src = DMX_MEMORY_FE
      then (feed, if pes_type feed = DMX_TS_PES_AUDIO then n\<lparr>need_audio_pts := True\<rparr> else n)
      else if np_mode n = 0 \<and> pes_type feed \<le> DMX_TS_PES_VIDEO \<and> ts_type feed AND TS_DECODER \<noteq> 0
      then (feed\<lparr>ts_type := ts_type feed OR TS_PAYLOAD_ONLY\<rparr>, n)
      else (feed, n))"

definition finish_start :: "nat \<Rightarrow> dvb_demux_feed \<Rightarrow> cret \<times> napi_state \<Rightarrow> (cret \<times> napi_state) option" where
  "finish_start i feed = (\<lambda>(r, n).
     if r \<noteq> Inr 0 then Some (r, n)
     else if feed_type feed = DMX_TYPE_SEC \<or> ts_type feed AND TS_PACKET \<noteq> 0
     then (case np_priv n ! i of
             None \<Rightarrow> None
           | Some nr \<Rightarrow> (let (r, s) = avia_gt_dmx_queue_irq_enable nr (np_gt n) in Some (r, n\<lparr>np_gt := s\<rparr>)))
     else Some (Inr 0, n))"

definition avia_gt_napi_start_feed ::
  "(nat \<Rightarrow> u8 \<times> u8) \<Rightarrow> dmx_frontend_source option \<Rightarrow> dvb_demux_filter list \<Rightarrow> nat \<Rightarrow> dvb_demux_feed \<Rightarrow> napi_state
     \<Rightarrow> (cret \<times> dvb_demux_feed \<times> napi_state) option" where
  "avia_gt_napi_start_feed junk fe fs i feed n =
     (case fe of
        None \<Rightarrow> Some (Inl EINVAL, feed, n)
      | Some src \<Rightarrow>
         if src = DMX_MEMORY_FE \<and> \<not> avia_gt_napi_is_clipmode_feed feed then Some (Inr 0, feed, n)
         else
          (let (feed, n) = prepare_feed src feed n in
           if feed_type feed = DMX_TYPE_SEC
           then map_option (\<lambda>(r, n). (r, feed, n))
                  (finish_start i feed (avia_gt_napi_start_feed_section junk fs i feed n))
           else
            (let n = (if pcr_feed feed then n\<lparr>np_gt := avia_gt_dmx_set_pcr_pid True (feed_pid16 feed) (np_gt n)\<rparr> else n) in
             if pcr_feed feed \<and> ts_type feed AND TS_PACKET = 0 then Some (Inr 0, feed, n)
             else map_option (\<lambda>(r, n). (r, feed, n)) (finish_start i feed (start_stream src i feed n)))))"


section \<open>Stopping a feed\<close>

definition stop_decoder :: "dvb_demux_feed \<Rightarrow> napi_state \<Rightarrow> napi_state" where
  "stop_decoder feed n =
     (if pes_type feed \<in> {DMX_TS_PES_AUDIO, DMX_TS_PES_VIDEO} then n\<lparr>np_av := np_av n @ [DecoderStop (pes_type feed)]\<rparr>
      else if pes_type feed = DMX_TS_PES_TELETEXT then n\<lparr>np_av := np_av n @ [VbiStop]\<rparr>
      else if pes_type feed = DMX_TS_PES_PCR then n\<lparr>np_gt := avia_gt_dmx_set_pcr_pid False 0 (np_gt n)\<rparr>
      else n)"

definition release_queue :: "nat \<Rightarrow> napi_state \<Rightarrow> cret \<times> napi_state" where
  "release_queue nr n =
     (let s1 = snd (avia_gt_dmx_queue_stop nr (np_gt n));
          (r, s2) = avia_gt_dmx_free_queue nr s1
      in (r, n\<lparr>np_gt := s2, ts_pid_of := (ts_pid_of n)[nr := 0xffff]\<rparr>))"

text \<open>
  The message about a feed that is not for the decoder, with the memory as source, takes the number of the
  queue through \<open>priv\<close>, which such a feed does not have, and a PID through the feed of the first filter
  of the demux, \<open>filter0\<close>.
\<close>

definition avia_gt_napi_stop_feed ::
  "nat option \<Rightarrow> dmx_frontend_source option \<Rightarrow> nat \<Rightarrow> dvb_demux_feed \<Rightarrow> napi_state \<Rightarrow> (cret \<times> napi_state) option" where
  "avia_gt_napi_stop_feed filter0 fe i feed n =
     (case fe of
        None \<Rightarrow> Some (Inl EINVAL, n)
      | Some src \<Rightarrow>
         if src = DMX_MEMORY_FE \<and> \<not> avia_gt_napi_is_clipmode_feed feed
         then (if np_priv n ! i = None \<or> filter0 = None then None else Some (Inr 0, n))
         else
          (let n1 = (if decoder_feed feed then stop_decoder feed n else n) in
           if pcr_feed feed \<and> ts_type feed AND TS_PACKET = 0 then Some (Inr 0, n1)
           else map_option (\<lambda>nr. release_queue nr (if decoder_feed feed then tap_user_queue True feed n1 else n1)) (np_priv n ! i)))"


section \<open>Frontends\<close>

definition avia_gt_napi_before_after_tune :: "bool \<Rightarrow> napi_state \<Rightarrow> napi_state" where
  "avia_gt_napi_before_after_tune has_lock n =
     n\<lparr>np_gt := (if has_lock then avia_gt_dmx_enable_framer else avia_gt_dmx_disable_framer) (np_gt n)\<rparr>"

end
