(* ===== verification/Avia_Gt_Filter_Properties.thy ===== *)
theory Avia_Gt_Filter_Properties
  imports Avia_Gt_Filter_Space Demux_Delivery
begin

text \<open>
  What the rewriting of section filters preserves. The microcode is known by what the comments of
  \<open>avia_gt_ucode.c\<close> say of it, which is the hypothesis \<open>microcode\<close> below: a filter compares bytes under a
  mask, may be negated as a whole or in the version byte, and the filters of a feed are joined by AND or
  OR. Whatever a filter of the feed accepts must get through the microcode; what else gets through
  is compared again by the callback of the queue.
\<close>

section \<open>The microcode\<close>

definition byte_matches :: "filter_param \<Rightarrow> u8 list \<Rightarrow> nat \<Rightarrow> bool" where
  "byte_matches e sec k \<longleftrightarrow> sec ! sec_byte k AND fp_mask e ! k = fp_param e ! k"

definition entry_passes :: "filter_param \<Rightarrow> u8 list \<Rightarrow> bool" where
  "entry_passes e sec \<longleftrightarrow>
     (\<forall>k < 8. byte_matches e sec k \<noteq> (k = 3 \<and> not_flag_ver_id_byte e)) \<noteq> not_flag e"

definition entries_pass :: "bool \<Rightarrow> filter_param list \<Rightarrow> u8 list \<Rightarrow> bool" where
  "entries_pass and_or es sec \<longleftrightarrow>
     (if and_or then \<exists>e \<in> set es. entry_passes e sec else \<forall>e \<in> set es. entry_passes e sec)"

definition microcode :: "(bool \<Rightarrow> filter_param list \<Rightarrow> u8 list \<Rightarrow> bool) \<Rightarrow> bool" where
  "microcode hw \<longleftrightarrow> (\<forall>and_or es sec. es \<noteq> [] \<longrightarrow> hw and_or es sec = entries_pass and_or es sec)"


section \<open>Filters the conversion is right for\<close>

text \<open>
  A condition on the filters of a feed, not code of the driver: a filter that negates the whole version
  field negates nothing else, and all filters of the feed then negate the same version; a single filter
  has its negated bits all inside or all outside of the bytes the microcode compares. For filters it
  excludes the driver loses sections, see \<open>negated_version_loses_sections\<close>.
\<close>

definition filters_safe :: "dvb_demux_filter list \<Rightarrow> bool" where
  "filters_safe fs \<longleftrightarrow>
     (\<forall>f \<in> set fs.
        if version_negated f
        then (\<forall>i < 18. negated f i \<longrightarrow> i = 5)
          \<and> (\<forall>g \<in> set fs. version_negated g \<and> filter_mask g ! 5 = filter_mask f ! 5
               \<and> filter_value g ! 5 AND filter_mask g ! 5 = filter_value f ! 5 AND filter_mask f ! 5)
        else length fs = 1 \<longrightarrow> (\<forall>i < 18. negated f i \<longrightarrow> hw_byte i) \<or> (\<forall>i < 18. hw_byte i \<longrightarrow> \<not> negated f i))"

lemma filters_safeD:
  assumes "filters_safe fs" "f \<in> set fs"
  shows "version_negated f \<Longrightarrow> (\<forall>i < 18. negated f i \<longrightarrow> i = 5)
      \<and> (\<forall>g \<in> set fs. version_negated g \<and> filter_mask g ! 5 = filter_mask f ! 5
           \<and> filter_value g ! 5 AND filter_mask g ! 5 = filter_value f ! 5 AND filter_mask f ! 5)"
    and "\<not> version_negated f \<Longrightarrow> length fs = 1 \<Longrightarrow>
      (\<forall>i < 18. negated f i \<longrightarrow> hw_byte i) \<or> (\<forall>i < 18. hw_byte i \<longrightarrow> \<not> negated f i)"
  using assms unfolding filters_safe_def by metis+

lemma filter_spec_hits:
  "filter_spec f sec \<longleftrightarrow> (\<forall>i < 18. pos_ok f sec i) \<and> ((\<exists>i < 18. negated f i) \<longrightarrow> (\<exists>i < 18. neg_hit f sec i))"
  by (simp add: filter_spec_def Let_def pos_ok_def neg_hit_def negated_def and.assoc)


section \<open>Entries\<close>

lemma plain_entry_passes:
  "entry_passes \<lparr>fp_mask = sl_mask s, fp_param = sl_value s, not_flag = b, not_flag_ver_id_byte = False\<rparr> sec
     \<longleftrightarrow> slot_accepts s sec \<noteq> b"
  by (simp add: entry_passes_def byte_matches_def slot_accepts_def)

lemma filter_entry_plain:
  "\<not> (unchanged s \<and> ver_not s) \<Longrightarrow>
     filter_entry s = \<lparr>fp_mask = sl_mask s, fp_param = sl_value s, not_flag = False, not_flag_ver_id_byte = False\<rparr>"
  by (auto simp: filter_entry_def)

lemma all_less_8: "(\<forall>k < 8. P k) \<longleftrightarrow> (\<forall>k < 8. k \<noteq> 3 \<longrightarrow> P k) \<and> P (3 :: nat)"
proof -
  have "(3 :: nat) < 8" by simp
  then show ?thesis by blast
qed

lemma five: "sec_byte 3 = 5" by (simp add: sec_byte_def)

lemma three: "(3 :: nat) < 8" by simp

lemma version_entry_passes:
  assumes "unchanged s" "ver_not s" "length (sl_mask s) = 8" "length (sl_value s) = 8"
  shows "entry_passes (filter_entry s) sec
    \<longleftrightarrow> (\<forall>k < 8. k \<noteq> 3 \<longrightarrow> sec ! sec_byte k AND sl_mask s ! k = sl_value s ! k)
      \<and> sec ! 5 AND not_mask s \<noteq> not_value s"
proof -
  have "byte_matches (filter_entry s) sec k \<longleftrightarrow>
    (if k = 3 then sec ! 5 AND not_mask s = not_value s else sec ! sec_byte k AND sl_mask s ! k = sl_value s ! k)"
    if "k < 8" for k
    using assms that by (simp add: byte_matches_def filter_entry_def nth_list_update sec_byte_def)
  moreover have "not_flag_ver_id_byte (filter_entry s)" "\<not> not_flag (filter_entry s)"
    using assms by (simp_all add: filter_entry_def)
  ultimately show ?thesis
    unfolding entry_passes_def by (subst all_less_8) (auto simp: five)
qed

lemma version_hit:
  assumes "filter_spec f sec" "version_negated f" "\<forall>i < 18. negated f i \<longrightarrow> i = 5"
  shows "sec ! 5 AND filter_mask f ! 5 \<noteq> filter_value f ! 5 AND filter_mask f ! 5"
proof -
  have "negated f 5" using assms(2) by (simp add: version_negated_def)
  then obtain i where "i < 18" "neg_hit f sec i" using assms(1) by (auto simp: filter_spec_hits)
  moreover from this have "i = 5" using assms(3) neg_hit_negated by blast
  ultimately show ?thesis
    using byte_bits(3) [of "sec ! 5" "filter_mask f ! 5" "filter_value f ! 5" "filter_mode f ! 5"]
    by (simp add: neg_hit_def)
qed


section \<open>Several filters\<close>

definition version_of :: "dvb_demux_filter list \<Rightarrow> bool \<times> u8 \<times> u8 \<Rightarrow> bool" where
  "version_of fs = (\<lambda>(vn, v, m). vn \<longrightarrow> (\<exists>g \<in> set fs. version_negated g
     \<and> v = filter_value g ! 5 AND filter_mask g ! 5 \<and> m = filter_mask g ! 5))"

lemma several_filters_pass:
  assumes conv: "convert_filters junk fs = Some (ao, es)" and len: "length fs \<noteq> 1" and safe: "filters_safe fs"
    and f: "f \<in> set fs" "filter_spec f sec"
  shows "entries_pass ao es sec"
proof -
  have Q: "version_of fs (ver_data (normalize_filter (junk i) (fs ! i)))" if "i < length fs" for i
    using that by (auto simp: version_of_def ver_data_def normalize_not_value intro!: bexI [of _ "fs ! i"])
  show ?thesis
  proof (rule convert_several [where Q = "version_of fs", OF conv len Q])
    fix sl
    assume ao: ao and es: "es = map filter_entry (used sl)" and inv: "elim_inv (version_of fs)
        (map (\<lambda>i. drop_negated (normalize_filter (junk i) (fs ! i))) [0 ..< length fs]) (sl, length es)"
    obtain i where i: "i < length fs" "f = fs ! i" using f(1) by (auto simp: in_set_conv_nth)
    then obtain s where s: "s \<in> set (used sl)" "covers s (drop_negated (normalize_filter (junk i) f))"
      "slot_ok s" "version_of fs (ver_data s)"
      using inv by (fastforce simp: elim_inv_def)
    have "\<forall>k < 8. pos_ok f sec (sec_byte k)" using f(2) sec_byte_hw(2) by (auto simp: filter_spec_hits)
    then have acc: "slot_accepts s sec"
      using s(2) drop_negated_accepts [of f sec "junk i"] by (simp add: covers_def)
    have "entry_passes (filter_entry s) sec"
    proof (cases "unchanged s \<and> ver_not s")
      case False
      then show ?thesis using acc by (simp add: filter_entry_plain plain_entry_passes)
    next
      case True
      then obtain g where g: "g \<in> set fs" "version_negated g" "not_value s = filter_value g ! 5 AND filter_mask g ! 5"
        "not_mask s = filter_mask g ! 5"
        using s(4) by (auto simp: version_of_def ver_data_def)
      have "\<forall>h \<in> set fs. version_negated h \<and> filter_mask h ! 5 = filter_mask g ! 5
          \<and> filter_value h ! 5 AND filter_mask h ! 5 = filter_value g ! 5 AND filter_mask g ! 5"
        using filters_safeD(1) [OF safe g(1,2)] by blast
      then have "version_negated f" "not_value s = filter_value f ! 5 AND filter_mask f ! 5"
        "not_mask s = filter_mask f ! 5"
        using f(1) g(3,4) by (metis)+
      moreover from this have "\<forall>i < 18. negated f i \<longrightarrow> i = 5"
        using filters_safeD(1) [OF safe f(1)] by blast
      ultimately have "sec ! 5 AND not_mask s \<noteq> not_value s"
        using version_hit [OF f(2)] by simp
      moreover have "length (sl_mask s) = 8" "length (sl_value s) = 8" using s(3) by (simp_all add: slot_ok_def)
      ultimately show ?thesis
        using True acc by (subst version_entry_passes) (auto simp: slot_accepts_def)
    qed
    then show ?thesis using ao es s(1) by (auto simp: entries_pass_def)
  qed
qed


section \<open>A single filter\<close>

lemma single_filter_nots:
  "[i \<leftarrow> [0 ..< 8]. sl_mode (normalize_filter j f) ! i \<noteq> 0xff] = [i \<leftarrow> [0 ..< 8]. negated f (sec_byte i)]"
  by (rule filter_cong) (simp_all add: normalize_nth mode_ff negated_def)

definition mixed :: "dvb_demux_filter \<Rightarrow> nat \<Rightarrow> bool" where
  "mixed f i \<longleftrightarrow> negated f i \<and> filter_mask f ! i AND filter_mode f ! i \<noteq> 0"

definition plain :: "dvb_demux_filter \<Rightarrow> nat \<Rightarrow> bool" where
  "plain f i \<longleftrightarrow> \<not> negated f i \<and> filter_mask f ! i \<noteq> 0"

text \<open>The four cases of a single filter in terms of its bytes.\<close>

lemma single_filter_eq:
  fixes j j' f
  defines "s \<equiv> normalize_filter j f" and "nots \<equiv> [i \<leftarrow> [0 ..< 8]. negated f (sec_byte i)]"
  shows "single_filter j' s =
    (if length nots = 1 \<and> (\<forall>k < 8. \<not> mixed f (sec_byte k)) \<and> negated f 5 then ([s], False, False)
     else if nots \<noteq> [] \<and> (\<exists>k < 8. plain f (sec_byte k)) then
       ([s\<lparr>sl_mask := map2 (AND) (sl_mask s) (sl_mode s),
           sl_value := map2 (AND) (sl_value s) (map2 (AND) (sl_mask s) (sl_mode s))\<rparr>,
         \<lparr>sl_mask = map NOT (sl_mode s), sl_value = map2 (\<lambda>v m. v AND NOT m) (sl_value s) (sl_mode s),
          sl_mode = [], in_use = in_use s, ver_not = False, unchanged = True,
          not_value = fst j', not_mask = snd j'\<rparr>], False, True)
     else if nots \<noteq> [] then ([s], True, False)
     else ([s], False, False))"
proof -
  have nots: "[i \<leftarrow> [0 ..< 8]. sl_mode s ! i \<noteq> 0xff] = nots"
    unfolding s_def nots_def by (rule single_filter_nots)
  have "length [i \<leftarrow> nots. sl_mode s ! i AND sl_mask s ! i \<noteq> 0] = 0 \<longleftrightarrow> (\<forall>k < 8. \<not> mixed f (sec_byte k))"
    by (auto simp: nots_def s_def filter_empty_conv normalize_nth byte_bits(4) mixed_def)
  moreover have "0 < length [i \<leftarrow> [0 ..< 8]. sl_mode s ! i = 0xff \<and> sl_mask s ! i \<noteq> 0] \<longleftrightarrow> (\<exists>k < 8. plain f (sec_byte k))"
    by (auto simp: s_def filter_empty_conv normalize_nth mode_ff plain_def negated_def)
  moreover have "sl_mode s ! 3 \<noteq> 0xff \<longleftrightarrow> negated f 5"
    by (simp add: s_def normalize_nth mode_ff negated_def sec_byte_def)
  ultimately show ?thesis
    unfolding single_filter_def nots Let_def by (simp only: length_greater_0_conv)
qed


lemma pos_slot_accepts:
  fixes j f
  defines "s \<equiv> normalize_filter j f"
  shows "slot_accepts (s\<lparr>sl_mask := map2 (AND) (sl_mask s) (sl_mode s),
      sl_value := map2 (AND) (sl_value s) (map2 (AND) (sl_mask s) (sl_mode s))\<rparr>) sec
    \<longleftrightarrow> (\<forall>k < 8. pos_ok f sec (sec_byte k))"
  unfolding drop_negated_accepts [of f sec j] by (simp add: s_def slot_accepts_def drop_negated_def Let_def)

lemma neg_slot_accepts:
  fixes j f
  defines "s \<equiv> normalize_filter j f"
  assumes "sl_mask t = map NOT (sl_mode s)" "sl_value t = map2 (\<lambda>v m. v AND NOT m) (sl_value s) (sl_mode s)"
  shows "slot_accepts t sec \<longleftrightarrow> (\<forall>k < 8. \<not> neg_hit f sec (sec_byte k))"
proof -
  have "x AND NOT mo AND m = (v AND m) AND NOT mo AND m \<longleftrightarrow> m AND (v XOR x) AND NOT mo = 0" for x m v mo :: u8
    by (auto simp: bit_eq_iff bit_simps)
  then show ?thesis using assms(2,3) by (simp add: s_def slot_accepts_def normalize_nth neg_hit_def)
qed

lemma whole_slot_accepts:
  "slot_accepts (normalize_filter j f) sec
     \<longleftrightarrow> (\<forall>k < 8. pos_ok f sec (sec_byte k) \<and> \<not> neg_hit f sec (sec_byte k))"
proof -
  have "sec ! i AND filter_mask f ! i = filter_value f ! i AND filter_mask f ! i
      \<longleftrightarrow> pos_ok f sec i \<and> \<not> neg_hit f sec i" for i
    using byte_bits(3) [of "sec ! i" "filter_mask f ! i" "filter_value f ! i" "filter_mode f ! i"]
    by (simp add: pos_ok_def neg_hit_def)
  then show ?thesis by (simp add: slot_accepts_def normalize_nth)
qed

lemma not_negated_pos: "\<not> negated f i \<Longrightarrow> \<not> neg_hit f sec i"
  using neg_hit_negated by blast

text \<open>
  What passes the entries of a single filter, when the version is not negated as a whole, or nothing else
  is.
\<close>

lemma single_filter_passes:
  assumes conv: "convert_filters junk [f] = Some (ao, es)"
    and ver: "version_negated f \<Longrightarrow> \<forall>k < 8. negated f (sec_byte k) \<longrightarrow> k = 3"
  shows "entries_pass ao es sec \<longleftrightarrow>
    (if (\<exists>k < 8. negated f (sec_byte k)) \<and> \<not> version_negated f \<and> \<not> (\<exists>k < 8. plain f (sec_byte k))
     then \<not> (\<forall>k < 8. pos_ok f sec (sec_byte k) \<and> \<not> neg_hit f sec (sec_byte k))
     else (\<forall>k < 8. pos_ok f sec (sec_byte k))
       \<and> ((\<exists>k < 8. negated f (sec_byte k)) \<longrightarrow> (\<exists>k < 8. neg_hit f sec (sec_byte k))))"
proof -
  let ?s = "normalize_filter (junk 0) f" and ?nots = "[i \<leftarrow> [0 ..< 8]. negated f (sec_byte i)]"
  obtain sl n1 n2 where s: "\<not> ao" "in_use ?s \<noteq> -1" "single_filter (junk 1) ?s = (sl, n1, n2)"
    "es = filter_entries sl (length sl) n1 n2"
    using conv by (rule convert_single)
  have nots: "?nots = [] \<longleftrightarrow> \<not> (\<exists>k < 8. negated f (sec_byte k))" by (auto simp: filter_empty_conv)
  show ?thesis
  proof (cases "version_negated f")
    case True
    then have n5: "negated f 5" "\<not> mixed f 5" by (auto simp: version_negated_def mixed_def)
    have only: "negated f (sec_byte k) \<longleftrightarrow> k = 3" if "k < 8" for k
      using ver [OF True] that n5(1) five by auto
    then have "?nots = [i \<leftarrow> [0 ..< 8]. i = 3]" by (intro filter_cong) auto
    moreover have "[i \<leftarrow> [0 ..< 8]. i = 3] = [3 :: nat]" by code_simp
    ultimately have "length ?nots = 1" by simp
    moreover have "\<not> mixed f (sec_byte k)" if "k < 8" for k
      using only [OF that] n5(2) five by (cases "k = 3") (auto simp: mixed_def)
    ultimately have "sl = [?s]" "\<not> n1"
      using s(3) n5(1) unfolding single_filter_eq by (auto split: if_splits)
    then have es: "es = [filter_entry ?s]"
      using s(2,4) by (simp add: filter_entries_def set_not_flag_def) (simp add: filter_entry_def)
    have m5: "filter_mask f ! 5 AND filter_mode f ! 5 = 0" using True by (simp add: version_negated_def)
    have "x AND y AND z = (x AND z) AND y" for x y z :: u8 by (simp add: ac_simps)
    then have p5: "pos_ok f sec 5" by (simp add: pos_ok_def m5)
    have hit: "neg_hit f sec 5 \<longleftrightarrow> sec ! 5 AND filter_mask f ! 5 \<noteq> filter_value f ! 5 AND filter_mask f ! 5"
      using p5 byte_bits(3) [of "sec ! 5" "filter_mask f ! 5" "filter_value f ! 5" "filter_mode f ! 5"]
      by (simp add: pos_ok_def neg_hit_def)
    have pos: "sec ! sec_byte k AND sl_mask ?s ! k = sl_value ?s ! k \<longleftrightarrow> pos_ok f sec (sec_byte k)"
      if "k < 8" "k \<noteq> 3" for k
      using that only [of k] not_negated_pos [of f "sec_byte k" sec]
        byte_bits(3) [of "sec ! sec_byte k" "filter_mask f ! sec_byte k" "filter_value f ! sec_byte k" "filter_mode f ! sec_byte k"]
      by (simp add: pos_ok_def neg_hit_def normalize_nth)
    have "entries_pass ao es sec \<longleftrightarrow> entry_passes (filter_entry ?s) sec"
      using s(1) es by (simp add: entries_pass_def)
    also have "\<dots> \<longleftrightarrow> (\<forall>k < 8. k \<noteq> 3 \<longrightarrow> pos_ok f sec (sec_byte k)) \<and> neg_hit f sec 5"
      using True pos by (subst version_entry_passes) (auto simp: hit normalize_not_value)
    also have "\<dots> \<longleftrightarrow> (\<forall>k < 8. pos_ok f sec (sec_byte k)) \<and> (\<exists>k < 8. neg_hit f sec (sec_byte k))"
    proof -
      have "(\<exists>k < 8. neg_hit f sec (sec_byte k)) \<longleftrightarrow> neg_hit f sec 5"
        using only neg_hit_negated [of f sec] five by (metis (no_types) three)
      then show ?thesis by (subst (2) all_less_8) (simp add: five p5)
    qed
    moreover have "\<exists>k < 8. negated f (sec_byte k)" using only three by blast
    ultimately show ?thesis using True by simp
  next
    case False
    then have notver: "\<not> ver_not ?s" by simp
    have not1: "\<not> (length ?nots = 1 \<and> (\<forall>k < 8. \<not> mixed f (sec_byte k)) \<and> negated f 5)"
    proof
      assume a: "length ?nots = 1 \<and> (\<forall>k < 8. \<not> mixed f (sec_byte k)) \<and> negated f 5"
      then have "\<not> mixed f (sec_byte 3)" using three by blast
      then show False using a False by (auto simp: five mixed_def version_negated_def)
    qed
    consider (two) "?nots \<noteq> []" "\<exists>k < 8. plain f (sec_byte k)" | (neg) "?nots \<noteq> []" "\<not> (\<exists>k < 8. plain f (sec_byte k))"
      | (pos) "?nots = []" by blast
    then show ?thesis
    proof cases
      case two
      define pos where "pos = ?s\<lparr>sl_mask := map2 (AND) (sl_mask ?s) (sl_mode ?s),
        sl_value := map2 (AND) (sl_value ?s) (map2 (AND) (sl_mask ?s) (sl_mode ?s))\<rparr>"
      define neg where "neg = \<lparr>sl_mask = map NOT (sl_mode ?s),
        sl_value = map2 (\<lambda>v m. v AND NOT m) (sl_value ?s) (sl_mode ?s), sl_mode = [], in_use = in_use ?s,
        ver_not = False, unchanged = True, not_value = fst (junk 1), not_mask = snd (junk 1)\<rparr>"
      have "sl = [pos, neg]" "\<not> n1" "n2"
        using s(3) not1 two unfolding single_filter_eq pos_def neg_def by (auto split: if_splits)
      moreover have "in_use pos \<noteq> -1" "in_use neg \<noteq> -1" "\<not> ver_not pos" "\<not> ver_not neg"
        using s(2) notver by (simp_all add: pos_def neg_def)
      ultimately have "es = [\<lparr>fp_mask = sl_mask pos, fp_param = sl_value pos, not_flag = False, not_flag_ver_id_byte = False\<rparr>,
          \<lparr>fp_mask = sl_mask neg, fp_param = sl_value neg, not_flag = True, not_flag_ver_id_byte = False\<rparr>]"
        using s(4) by (simp add: filter_entries_def set_not_flag_def filter_entry_plain)
      moreover have "slot_accepts pos sec \<longleftrightarrow> (\<forall>k < 8. pos_ok f sec (sec_byte k))"
        unfolding pos_def by (rule pos_slot_accepts)
      moreover have "slot_accepts neg sec \<longleftrightarrow> (\<forall>k < 8. \<not> neg_hit f sec (sec_byte k))"
        by (rule neg_slot_accepts [of _ "junk 0"]) (simp_all add: neg_def)
      ultimately show ?thesis
        using s(1) two nots by (simp add: entries_pass_def plain_entry_passes)
    next
      case neg
      then have "sl = [?s]" "n1" "\<not> n2" using s(3) not1 unfolding single_filter_eq by (auto split: if_splits)
      then have "es = [\<lparr>fp_mask = sl_mask ?s, fp_param = sl_value ?s, not_flag = True, not_flag_ver_id_byte = False\<rparr>]"
        using s(2,4) notver by (simp add: filter_entries_def set_not_flag_def filter_entry_plain)
      then show ?thesis
        using s(1) neg False nots by (simp add: entries_pass_def plain_entry_passes whole_slot_accepts)
    next
      case pos
      then have "sl = [?s]" "\<not> n1" "\<not> n2" using s(3) not1 unfolding single_filter_eq by (auto split: if_splits)
      then have "es = [\<lparr>fp_mask = sl_mask ?s, fp_param = sl_value ?s, not_flag = False, not_flag_ver_id_byte = False\<rparr>]"
        using s(2,4) notver by (simp add: filter_entries_def set_not_flag_def filter_entry_plain)
      then show ?thesis
        using s(1) pos nots not_negated_pos [of f _ sec]
        by (auto simp add: entries_pass_def plain_entry_passes whole_slot_accepts)
    qed
  qed
qed


lemma single_filter_pass:
  assumes conv: "convert_filters junk [f] = Some (ao, es)" and safe: "filters_safe [f]" and f: "filter_spec f sec"
  shows "entries_pass ao es sec"
proof -
  have f1: "f \<in> set [f]" by simp
  note D = filters_safeD [OF safe f1]
  have ver: "\<forall>k < 8. negated f (sec_byte k) \<longrightarrow> k = 3" if "version_negated f"
    using D(1) [OF that] sec_byte_hw by blast
  have pos: "\<forall>k < 8. pos_ok f sec (sec_byte k)" using f sec_byte_hw(2) by (auto simp: filter_spec_hits)
  have hit: "\<exists>k < 8. neg_hit f sec (sec_byte k)" if neg: "\<exists>k < 8. negated f (sec_byte k)"
  proof -
    obtain i where i: "i < 18" "neg_hit f sec i" "negated f i"
      using f neg sec_byte_hw(2) neg_hit_negated by (auto simp: filter_spec_hits)
    have "hw_byte i"
    proof (cases "version_negated f")
      case True
      then have "i = 5" using D(1) i by blast
      then show ?thesis by (simp add: hw_byte_def)
    next
      case False
      then show ?thesis using D(2) i neg sec_byte_hw(1,2) by fastforce
    qed
    then show ?thesis using i(2) hw_byteE by metis
  qed
  show ?thesis using single_filter_passes [OF conv ver] pos hit by auto
qed


section \<open>Sections through the microcode\<close>

text \<open>The flag and the filters the microcode has for a set that was allocated.\<close>

definition stored_filters :: "avia_gt_section \<Rightarrow> ucode_state \<Rightarrow> bool \<times> filter_param list" where
  "stored_filters sec u = (risc_filter_definition u ! sec_idx sec,
     take (unat (sec_filtercount sec)) (drop (sec_idx sec) (risc_filter_param u)))"

definition tables_sized :: "ucode_state \<Rightarrow> bool" where
  "tables_sized u \<longleftrightarrow> length (filter_definition_table u) = 32 \<and> length (risc_filter_definition u) = 32
     \<and> length (risc_filter_param u) = 32 \<and> length (section_map u) = 32"

lemma pair_store_nth:
  "e = b \<or> e = b + 1 \<Longrightarrow> e < length r \<Longrightarrow> r[b := d ! b, b + 1 := d ! (b + 1)] ! e = d ! e"
  by (auto simp: nth_list_update)

lemma store_filters_stored:
  assumes "tables_sized u" "e + length es \<le> 32" "0 < length es" "length es \<le> 16"
  shows "stored_filters \<lparr>sec_idx = e, sec_filtercount = of_nat (length es)\<rparr> (store_filters e ao es u) = (ao, es)"
proof -
  have len: "unat (of_nat (length es) :: u8) = length es" using assms(4) by (simp add: unat_of_nat)
  have params: "take (length es) (drop e (blit (risc_filter_param u) e es)) = es"
    using assms by (simp add: blit_def tables_sized_def)
  have "e = e div 2 * 2 \<or> e = e div 2 * 2 + 1" by presburger
  moreover have e: "e < 32" using assms(2,3) by linarith
  ultimately have "risc_filter_definition (store_filters e ao es u) ! e = (filter_definition_table u)[e := ao] ! e"
    using assms(1) pair_store_nth [of e "e div 2 * 2" "risc_filter_definition u"]
    by (simp add: store_filters_def Let_def tables_sized_def)
  then have "risc_filter_definition (store_filters e ao es u) ! e = ao"
    using assms(1) e by (simp add: tables_sized_def)
  then show ?thesis by (simp add: stored_filters_def store_filters_frame len params)
qed

lemma alloc_section_filter_passes:
  assumes "microcode hw" "tables_sized u" "filters_safe fs"
    and "prop_ucode_alloc_section_filter junk fs u = (Some sec, u')"
    and "f \<in> set fs" "filter_spec f buf"
  shows "case stored_filters sec u' of (ao, es) \<Rightarrow> hw ao es buf"
  using assms(4)
proof (cases rule: alloc_section_filter_cases)
  case none
  then show ?thesis by simp
next
  case (some ao es e)
  have "entries_pass ao es buf"
  proof (cases "length fs = 1")
    case True
    then have "fs = [f]" using assms(5) by (cases fs) auto
    then show ?thesis using single_filter_pass some(1) assms(3,6) by simp
  next
    case False
    then show ?thesis using several_filters_pass [OF some(1)] assms(3,5,6) by simp
  qed
  moreover have "stored_filters sec u' = (ao, es)"
    using store_filters_stored [OF assms(2) some(7,5,6)] some(3,4) by simp
  ultimately show ?thesis using assms(1) some(5) by (simp add: microcode_def)
qed

text \<open>
  C28: for filters the conversion is right for (\<open>filters_safe\<close>: a filter that negates the whole version
  negates nothing else and all others negate the same version; the negated bits of a single filter are
  all inside or all outside of the bytes the microcode compares), and a microcode that compares sections as
  the comments say: whatever section a filter of the feed accepts, the microcode lets through. The
  rewriting, splitting and joining of such filters lose nothing.
\<close>

theorem section_filters_complete:
  assumes "microcode hw" "tables_sized u" "filters_safe fs"
    and "prop_ucode_alloc_section_filter junk fs u = (Some sec, u')"
    and "f \<in> set fs" "filter_spec f buf"
  shows "case stored_filters sec u' of (ao, es) \<Rightarrow> hw ao es buf"
  by (rule alloc_section_filter_passes [OF assms])

text \<open>A single filter with plain bytes is compared exactly, if it masks only bytes the microcode has.\<close>

theorem single_section_filter_exact:
  assumes "microcode hw" "tables_sized u"
    and "prop_ucode_alloc_section_filter junk [f] u = (Some sec, u')"
    and "\<forall>i < 18. filter_mask f ! i \<noteq> 0 \<longrightarrow> hw_byte i"
    and "version_negated f \<longrightarrow> (\<forall>i < 18. negated f i \<longrightarrow> i = 5)"
    and "(\<exists>i < 18. plain f i) \<or> \<not> (\<exists>i < 18. mixed f i)"
  shows "(case stored_filters sec u' of (ao, es) \<Rightarrow> hw ao es buf) \<longleftrightarrow> filter_spec f buf"
  using assms(3)
proof (cases rule: alloc_section_filter_cases)
  case none
  then show ?thesis by simp
next
  case (some ao es e)
  have hw: "(case stored_filters sec u' of (ao, es) \<Rightarrow> hw ao es buf) = entries_pass ao es buf"
    using store_filters_stored [OF assms(2) some(7,5,6)] some(3,4,5) assms(1) by (simp add: microcode_def)
  have unmasked: "pos_ok f buf i" "\<not> negated f i" "\<not> plain f i" "\<not> mixed f i" if "i < 18" "\<not> hw_byte i" for i
    using assms(4) that by (auto simp: pos_ok_def negated_def plain_def mixed_def)
  have all: "(\<forall>i < 18. P i) \<longleftrightarrow> (\<forall>k < 8. P (sec_byte k))" if "\<And>i. i < 18 \<Longrightarrow> \<not> hw_byte i \<Longrightarrow> P i" for P
    using that sec_byte_hw(2) hw_byteE by metis
  have ex: "(\<exists>i < 18. P i) \<longleftrightarrow> (\<exists>k < 8. P (sec_byte k))" if "\<And>i. i < 18 \<Longrightarrow> \<not> hw_byte i \<Longrightarrow> \<not> P i" for P
    using all [of "\<lambda>i. \<not> P i"] that by auto
  have ver: "\<forall>k < 8. negated f (sec_byte k) \<longrightarrow> k = 3" if "version_negated f"
    using assms(5) that sec_byte_hw by blast
  have spec: "filter_spec f buf \<longleftrightarrow> (\<forall>k < 8. pos_ok f buf (sec_byte k))
      \<and> ((\<exists>k < 8. negated f (sec_byte k)) \<longrightarrow> (\<exists>k < 8. neg_hit f buf (sec_byte k)))"
    unfolding filter_spec_hits
    by (subst all [OF unmasked(1)], assumption+, subst ex [OF unmasked(2)], assumption+,
        subst ex [OF not_negated_pos [OF unmasked(2)]], assumption+) (rule refl)
  have kinds: "(\<exists>i < 18. plain f i) \<longleftrightarrow> (\<exists>k < 8. plain f (sec_byte k))" "(\<exists>i < 18. mixed f i) \<longleftrightarrow> (\<exists>k < 8. mixed f (sec_byte k))"
    by (rule ex; use unmasked in blast)+
  show ?thesis
  proof (cases "(\<exists>k < 8. negated f (sec_byte k)) \<and> \<not> version_negated f \<and> \<not> (\<exists>k < 8. plain f (sec_byte k))")
    case True
    have "pos_ok f buf (sec_byte k)" if "k < 8" for k
    proof -
      have "\<not> plain f (sec_byte k)" "\<not> mixed f (sec_byte k)" using True assms(6) that kinds by blast+
      then have "filter_mask f ! sec_byte k AND filter_mode f ! sec_byte k = 0" by (auto simp: plain_def mixed_def)
      moreover have "x AND y AND z = (x AND z) AND y" for x y z :: u8 by (simp add: ac_simps)
      ultimately show ?thesis by (simp add: pos_ok_def)
    qed
    then show ?thesis using single_filter_passes [OF some(1) ver, of buf] True by (auto simp: hw spec)
  next
    case False
    then show ?thesis using single_filter_passes [OF some(1) ver, of buf] by (simp only: hw spec if_False)
  qed
qed


section \<open>Filters of running feeds\<close>

lemma risc_init_sec_inv:
  assumes "avia_gt_dmx_risc_init img ds u = Some u0" "length (img_filter_param img) = 32"
  shows "sec_inv u0"
proof -
  have "risc_filter_param (avia_gt_dmx_set_ucode_info v ds w) = risc_filter_param w" for v w
    by (simp add: avia_gt_dmx_set_ucode_info_def Let_def split: prod.splits)
  then show ?thesis
    using assms by (auto simp: avia_gt_dmx_risc_init_def prop_ucode_init_def Let_def sec_inv_def map_ok_def frame_simps
        feed_filters_def AVIA_GT_UCODE_MAXIMUM_FEED_NUMBER_def split: if_splits)
qed

lemma filter_steps_sec_inv: "filter_step\<^sup>*\<^sup>* u u' \<Longrightarrow> sec_inv u \<Longrightarrow> sec_inv u'"
  by (induction rule: rtranclp_induct) (auto intro: filter_step_sec_inv)

text \<open>
  C29: from the initialisation on, whatever filters and feeds are allocated, started, stopped and
  released, the entries of the filter table that belong to a feed keep their contents and their place
  in the map as long as that feed stays.
\<close>

theorem running_filters_kept:
  assumes "avia_gt_dmx_risc_init img ds v = Some u0" "length (img_filter_param img) = 32"
    and "filter_step\<^sup>*\<^sup>* u0 u" "(step_besides i)\<^sup>*\<^sup>* u u'" "i < 32" "p \<in> feed_filters (ucode_feed u ! i)"
  shows "risc_filter_param u' ! p = risc_filter_param u ! p
    \<and> section_map u' ! p = int (section_idx (ucode_feed u ! i))"
proof -
  have "sec_inv u" using filter_steps_sec_inv [OF assms(3)] risc_init_sec_inv [OF assms(1,2)] by blast
  then have "sec_inv u'" "ucode_feed u' ! i = ucode_feed u ! i" "risc_filter_param u' ! p = risc_filter_param u ! p"
    using steps_besides_filters [OF assms(4) _ assms(5,6)] by auto
  moreover from this have "ucode_feed u ! i \<in> set (ucode_feed u')"
    using assms(5) by (metis nth_mem sec_inv_def)
  ultimately show ?thesis using assms(6) by (simp add: sec_inv_def)
qed

text \<open>Releasing a set of filters that no feed took gives its entries back.\<close>

theorem unused_filters_released:
  assumes "map_ok (section_map u)" "prop_ucode_alloc_section_filter junk fs u = (Some sec, u')"
    and "\<forall>f \<in> set (ucode_feed u). section_idx f \<noteq> sec_idx sec"
  shows "section_map (prop_ucode_free_section_filter (sec_idx sec) u') = section_map u"
  using assms(2)
proof (cases rule: alloc_section_filter_cases)
  case none
  then show ?thesis by simp
next
  case (some ao es e)
  have "length (section_map u) = 32" using assms(1) by (simp add: map_ok_def)
  moreover obtain n where n: "length es = Suc n" using some(5) by (cases es) auto
  ultimately have "section_map u' ! e = int e" "e \<le> 31" using some(4,7) by (simp_all add: frame_simps blit_def nth_append)
  moreover have "section_map u' = blit (section_map u) e (replicate (length es) (int e))" "ucode_feed u' = ucode_feed u"
    using some(4) by (simp_all add: frame_simps)
  ultimately show ?thesis
    using alloc_free_map [OF assms(1) some(8,5,7) refl] assms(3) some(3)
    by (simp add: prop_ucode_free_section_filter_def)
qed


section \<open>Examples and exceptions\<close>

text \<open>Filters by the bytes they mask: index, value, mask and mode.\<close>

definition ex_sec_filter :: "(nat \<times> u8 \<times> u8 \<times> u8) list \<Rightarrow> dvb_demux_filter" where
  "ex_sec_filter bs = ex_filter\<lparr>
     filter_value := fold (\<lambda>(i, v, m, o') a. a[i := v]) bs (replicate 18 0),
     filter_mask := fold (\<lambda>(i, v, m, o') a. a[i := m]) bs (replicate 18 0),
     filter_mode := fold (\<lambda>(i, v, m, o') a. a[i := o']) bs (replicate 18 0xff)\<rparr>"

definition ex_risc :: ucode_state where
  "ex_risc = the (avia_gt_dmx_risc_init ex_image False ex_ucode0)"

definition ex_junk :: "nat \<Rightarrow> u8 \<times> u8" where
  "ex_junk i = (0xaa, 0x55)"

text \<open>Two tables that differ in one bit, and a third on its own.\<close>

definition ex_filters :: "dvb_demux_filter list" where
  "ex_filters = [ex_sec_filter [(0, 0x4e, 0xff, 0xff)], ex_sec_filter [(0, 0x4f, 0xff, 0xff)],
     ex_sec_filter [(0, 0x70, 0xff, 0xff), (3, 1, 0xff, 0xff)]]"

definition ex_eit :: "u8 list" where
  "ex_eit = [0x4f, 0xf0, 0x0f, 0, 1, 0xc1] @ replicate 12 0"

lemma ex_risc_sized: "tables_sized ex_risc" by code_simp

lemma ex_filters_alloc:
  "prop_ucode_alloc_section_filter ex_junk ex_filters ex_risc
     = (Some \<lparr>sec_idx = 0, sec_filtercount = 2\<rparr>, snd (prop_ucode_alloc_section_filter ex_junk ex_filters ex_risc))"
  by (rule prod_eqI) code_simp+

lemma microcode_entries_pass: "microcode entries_pass" by (simp add: microcode_def)

theorem section_filters_complete_witness:
  "case stored_filters \<lparr>sec_idx = 0, sec_filtercount = 2\<rparr>
      (snd (prop_ucode_alloc_section_filter ex_junk ex_filters ex_risc)) of (ao, es) \<Rightarrow> entries_pass ao es ex_eit"
proof -
  have "filters_safe ex_filters" by code_simp
  moreover have "ex_sec_filter [(0, 0x4f, 0xff, 0xff)] \<in> set ex_filters" by (simp add: ex_filters_def)
  moreover have "filter_spec (ex_sec_filter [(0, 0x4f, 0xff, 0xff)]) ex_eit" by code_simp
  ultimately show ?thesis
    by (rule section_filters_complete [OF microcode_entries_pass ex_risc_sized _ ex_filters_alloc])
qed

text \<open>A feed with these filters, and filters of another feed that are allocated while it runs.\<close>

definition ex_sec_feed :: ucode_state where
  "ex_sec_feed = snd (prop_ucode_alloc_generic_feed 5 SECTION (Some \<lparr>sec_idx = 0, sec_filtercount = 2\<rparr>) 0x12
     (snd (prop_ucode_alloc_section_filter ex_junk ex_filters ex_risc)))"

theorem running_filters_kept_witness:
  "risc_filter_param (snd (prop_ucode_alloc_section_filter ex_junk [hd ex_filters] ex_sec_feed)) ! 1
     = risc_filter_param ex_sec_feed ! 1"
proof -
  let ?u = "snd (prop_ucode_alloc_section_filter ex_junk ex_filters ex_risc)"
  have init: "avia_gt_dmx_risc_init ex_image False ex_ucode0 = Some ex_risc"
    using ex_init by (auto simp: ex_risc_def)
  have "held \<lparr>sec_idx = 0, sec_filtercount = 2\<rparr> ?u" by code_simp
  then have "filter_step ?u ex_sec_feed" unfolding ex_sec_feed_def by (intro fst_alloc_feed) simp
  then have run: "filter_step\<^sup>*\<^sup>* ex_risc ex_sec_feed"
    using fst_alloc_filter [of ex_risc ex_junk ex_filters] by auto
  have "step_besides 0 ex_sec_feed (snd (prop_ucode_alloc_section_filter ex_junk [hd ex_filters] ex_sec_feed))"
    unfolding step_besides_def by (intro conjI fst_alloc_filter) code_simp
  then have "(step_besides 0)\<^sup>*\<^sup>* ex_sec_feed (snd (prop_ucode_alloc_section_filter ex_junk [hd ex_filters] ex_sec_feed))"
    by auto
  moreover have "section_idx (ucode_feed ex_sec_feed ! 0) = 0 \<and> filtercount (ucode_feed ex_sec_feed ! 0) = 1" by code_simp
  then have "1 \<in> feed_filters (ucode_feed ex_sec_feed ! 0)" by (simp add: feed_filters_def)
  moreover have "length (img_filter_param ex_image) = 32" "(0 :: nat) < 32" by (simp_all add: ex_image_def)
  ultimately show ?thesis using running_filters_kept [OF init _ run] by blast
qed

text \<open>A filter on a table, an extension and any version but one.\<close>

definition ex_new_version :: dvb_demux_filter where
  "ex_new_version = ex_sec_filter [(0, 0x42, 0xff, 0xff), (4, 7, 0xff, 0xff), (5, 6, 0x3e, 0xc1)]"

lemma ex_new_version_alloc:
  "prop_ucode_alloc_section_filter ex_junk [ex_new_version] ex_risc
     = (Some \<lparr>sec_idx = 0, sec_filtercount = 1\<rparr>, snd (prop_ucode_alloc_section_filter ex_junk [ex_new_version] ex_risc))"
  by (rule prod_eqI) code_simp+

theorem single_section_filter_exact_witness:
  "(case stored_filters \<lparr>sec_idx = 0, sec_filtercount = 1\<rparr>
      (snd (prop_ucode_alloc_section_filter ex_junk [ex_new_version] ex_risc)) of (ao, es) \<Rightarrow> entries_pass ao es ex_eit)
    \<longleftrightarrow> filter_spec ex_new_version ex_eit"
proof -
  have "\<forall>i < 18. filter_mask ex_new_version ! i \<noteq> 0 \<longrightarrow> hw_byte i" by code_simp
  moreover have "version_negated ex_new_version \<longrightarrow> (\<forall>i < 18. negated ex_new_version i \<longrightarrow> i = 5)" by code_simp
  moreover have "(\<exists>i < 18. plain ex_new_version i) \<or> \<not> (\<exists>i < 18. mixed ex_new_version i)" by code_simp
  ultimately show ?thesis
    by (rule single_section_filter_exact [OF microcode_entries_pass ex_risc_sized ex_new_version_alloc])
qed

definition ex_two_negated :: dvb_demux_filter where
  "ex_two_negated = ex_sec_filter [(0, 0x42, 0xff, 0xff), (5, 6, 0x3e, 0xc1), (6, 1, 0xff, 0)]"

definition ex_joined :: "dvb_demux_filter list" where
  "ex_joined = [ex_sec_filter [(0, 0x15, 0xff, 0xff), (3, 0x20, 0xff, 0xff), (5, 6, 0x3e, 0xc1)],
     ex_sec_filter [(0, 0x10, 0xff, 0xff), (3, 0x20, 0xf0, 0xff), (5, 6, 0x3e, 0xc1)],
     ex_sec_filter [(0, 0x10, 0xf0, 0xff), (3, 0x21, 0xff, 0xff)]]"

definition ex_far_negated :: dvb_demux_filter where
  "ex_far_negated = ex_sec_filter [(0, 0x42, 0xff, 0xff), (6, 2, 0xff, 0), (12, 9, 0xff, 0)]"

definition microcode_loses :: "dvb_demux_filter list \<Rightarrow> u8 list \<Rightarrow> bool" where
  "microcode_loses fs buf \<longleftrightarrow> (\<exists>f \<in> set fs. filter_spec f buf)
     \<and> (case prop_ucode_alloc_section_filter ex_junk fs ex_risc of
          (Some sec, u) \<Rightarrow> (case stored_filters sec u of (ao, es) \<Rightarrow> \<not> entries_pass ao es buf)
        | (None, u) \<Rightarrow> False)"

text \<open>
  A filter that negates the version and another byte loses sections: the driver keeps the separate
  mark for the version on the first of the two filters it splits it into, so that the microcode demands
  another version even where the other byte already differs. Three filters that are joined in two steps
  lose sections too: the mark that the versions differ is not handed on, and the version of one filter is
  negated for the sections of another. A third case is a filter with negated bits behind the bytes the
  microcode compares.
\<close>

theorem negated_version_loses_sections:
  "microcode_loses [ex_two_negated] ([0x42, 0xf0, 0x0f, 0, 7, 6, 2] @ replicate 11 0)
     \<and> microcode_loses ex_joined ([0x10, 0xf0, 0x0f, 0x21, 7, 6, 2] @ replicate 11 0)
     \<and> microcode_loses [ex_far_negated] ([0x42, 0xf0, 0x0f, 0, 7, 6, 2] @ replicate 11 0)"
  by code_simp

end
