(* ===== verification/Avia_Gt_Napi_Properties.thy ===== *)
theory Avia_Gt_Napi_Properties
  imports Avia_Gt_Napi_Callback Avia_Gt_Filter_Properties
begin

text \<open>
  What the callbacks of \<open>Avia_Gt_Napi_Callback\<close> bring to the clients: the sections, packets and payload of a
  queue do not depend on where the buffer of the queue ends or where the interrupts cut the stream, and
  the filters that \<open>Avia_Gt_Filter\<close> has put into the microcode change nothing of what the clients receive.
\<close>

section \<open>The two pieces of a queue\<close>

lemma buf1_contents:
  assumes inv: "gt_queue_inv nr s" and n: "n \<le> avia_gt_dmx_queue_get_buf1_size (the_queue nr s)"
  shows "mem_bytes (gt_mem s) (avia_gt_dmx_queue_get_buf1_ptr (the_queue nr s)) n = take n (queue_contents nr s)"
proof -
  let ?q = "the_queue nr s"
  have ok: "queue_ok s ?q" using inv by (simp add: gt_queue_inv_def)
  have fits: "read_pos ?q + n \<le> q_size ?q" "n \<le> ring_dist (q_size ?q) (read_pos ?q) (write_pos ?q)"
    using ok n by (auto simp: queue_ok_def avia_gt_dmx_queue_get_buf1_size_def ring_dist_def split: if_splits)
  have len: "length (region s ?q) = q_size ?q" using ok by (simp add: queue_ok_def length_region)
  have "take n (queue_contents nr s) = take n (drop (read_pos ?q) (region s ?q))"
    using take_ring_contents [of "read_pos ?q" "region s ?q" "write_pos ?q" n] fits ok len
    by (simp add: queue_contents_def queue_ok_def)
  then show ?thesis
    using region_bytes [of ?q s "read_pos ?q" n] ok fits
    by (simp add: avia_gt_dmx_queue_get_buf1_ptr_def queue_ok_def)
qed

lemma buf12_contents:
  assumes inv: "gt_queue_inv nr s" and n: "n \<le> avia_gt_dmx_queue_get_buf2_size (the_queue nr s)"
  shows "mem_bytes (gt_mem s) (avia_gt_dmx_queue_get_buf1_ptr (the_queue nr s))
        (avia_gt_dmx_queue_get_buf1_size (the_queue nr s))
      @ mem_bytes (gt_mem s) (avia_gt_dmx_queue_get_buf2_ptr (the_queue nr s)) n
    = take (avia_gt_dmx_queue_get_buf1_size (the_queue nr s) + n) (queue_contents nr s)"
proof (cases "n = 0")
  case True
  then show ?thesis using buf1_contents [OF inv order_refl] by (simp add: mem_bytes_def)
next
  case False
  let ?q = "the_queue nr s"
  have ok: "queue_ok s ?q" using inv by (simp add: gt_queue_inv_def)
  have wrap: "write_pos ?q < read_pos ?q" using n False by (auto simp: avia_gt_dmx_queue_get_buf2_size_def split: if_splits)
  then have n': "n \<le> write_pos ?q" and b1: "avia_gt_dmx_queue_get_buf1_size ?q = q_size ?q - read_pos ?q"
    and b2: "avia_gt_dmx_queue_get_buf2_ptr ?q = mem_addr ?q"
    using n by (simp_all add: avia_gt_dmx_queue_get_buf1_size_def avia_gt_dmx_queue_get_buf2_size_def
        avia_gt_dmx_queue_get_buf2_ptr_def)
  have len: "length (region s ?q) = q_size ?q" using ok by (simp add: queue_ok_def length_region)
  have "q_size ?q - read_pos ?q + n \<le> ring_dist (q_size ?q) (read_pos ?q) (write_pos ?q)"
    using wrap n' by (simp add: ring_dist_def)
  then have "take (q_size ?q - read_pos ?q + n) (queue_contents nr s) = drop (read_pos ?q) (region s ?q) @ take n (region s ?q)"
    using take_ring_contents [of "read_pos ?q" "region s ?q" "write_pos ?q" "q_size ?q - read_pos ?q + n"] ok len False
    by (simp add: queue_contents_def queue_ok_def)
  moreover have "mem_bytes (gt_mem s) (mem_addr ?q + read_pos ?q) (q_size ?q - read_pos ?q) = drop (read_pos ?q) (region s ?q)"
    using region_bytes [of ?q s "read_pos ?q" "q_size ?q - read_pos ?q"] ok len by (simp add: queue_ok_def)
  moreover have "mem_bytes (gt_mem s) (mem_addr ?q) n = take n (region s ?q)"
    using region_bytes [of ?q s 0 n] ok n' by (simp add: queue_ok_def)
  ultimately show ?thesis by (simp add: b1 b2 avia_gt_dmx_queue_get_buf1_ptr_def)
qed

lemma avail_buf12: "queue_avail nr s = avia_gt_dmx_queue_get_buf1_size (the_queue nr s) + avia_gt_dmx_queue_get_buf2_size (the_queue nr s)"
  by (simp add: queue_avail_def avia_gt_dmx_queue_get_bytes_avail_def)


lemma get8_effect:
  assumes inv: "gt_queue_inv nr s" and c: "queue_contents nr s = b # bs"
  shows "fst (avia_gt_dmx_queue_data_get8 nr p s) = Some b"
    and "snd (avia_gt_dmx_queue_data_get8 nr p s) = snd (avia_gt_dmx_queue_data_get nr 1 p s)"
proof -
  have "fst (avia_gt_dmx_queue_data_get nr 1 p s) = [b]" using gtq.get_out [OF inv, of 1 p] by (simp add: c)
  then show "fst (avia_gt_dmx_queue_data_get8 nr p s) = Some b"
    "snd (avia_gt_dmx_queue_data_get8 nr p s) = snd (avia_gt_dmx_queue_data_get nr 1 p s)"
    by (cases "avia_gt_dmx_queue_data_get nr 1 p s"; simp add: avia_gt_dmx_queue_data_get8_def)+
qed


section \<open>Payload for one client\<close>

text \<open>
  What a client of a PES or transport stream queue gets: all bytes of the queue, or all whole packets in
  the queue, which stay in order and are removed.
\<close>

definition whole_part :: "dvb_demux_feed \<Rightarrow> nat \<Rightarrow> nat" where
  "whole_part feed n =
     (if feed_type feed = DMX_TYPE_TS \<and> ts_type feed AND TS_PAYLOAD_ONLY = 0 then n - n mod 188 else n)"

lemma ts_pes_data:
  fixes nr s
  assumes inv: "gt_queue_inv nr s" and cu: "cu \<le> queue_avail nr s"
  defines "b1 \<equiv> avia_gt_dmx_queue_get_buf1_size (the_queue nr s)" and "b2 \<equiv> avia_gt_dmx_queue_get_buf2_size (the_queue nr s)"
  defines "l \<equiv> (if cu > b2 then (b1 - (cu - b2), 0) else (b1, b2 - cu))"
  shows "mem_bytes (gt_mem s) (avia_gt_dmx_queue_get_buf1_ptr (the_queue nr s)) (fst l)
      @ mem_bytes (gt_mem s) (avia_gt_dmx_queue_get_buf2_ptr (the_queue nr s)) (snd l)
    = take (queue_avail nr s - cu) (queue_contents nr s)"
proof (cases "cu > b2")
  case True
  then show ?thesis
    using buf1_contents [OF inv, of "b1 - (cu - b2)"] cu
    by (simp add: l_def b1_def [symmetric] b2_def [symmetric] avail_buf12 mem_bytes_def [of _ _ 0])
next
  case False
  then show ?thesis
    using buf12_contents [OF inv, of "b2 - cu"]
    by (simp add: l_def b1_def [symmetric] b2_def [symmetric] avail_buf12)
qed

lemma ts_pes_callback_effect:
  assumes inv: "gt_queue_inv nr s"
    and cb: "avia_gt_napi_queue_callback_ts_pes None env feed nr s c = (s', c')"
  shows "c' = snd (ts_cb env (feed_cb feed) (take (whole_part feed (length (queue_contents nr s))) (queue_contents nr s)) feed c)"
    and "queue_contents nr s' = drop (whole_part feed (length (queue_contents nr s))) (queue_contents nr s)"
    and "gt_queue_inv nr s'"
proof -
  let ?len = "queue_avail nr s"
  define cu where "cu = (if feed_type feed = DMX_TYPE_TS \<and> ts_type feed AND TS_PAYLOAD_ONLY = 0 then ?len mod 188 else 0)"
  have cu: "cu \<le> ?len" "whole_part feed ?len = ?len - cu"
    by (auto simp: cu_def whole_part_def)
  have len: "length (queue_contents nr s) = ?len" using inv by (rule length_queue_contents)
  have "s' = snd (avia_gt_dmx_queue_data_get nr (?len - cu) False s)
    \<and> c' = snd (ts_cb env (feed_cb feed) (take (?len - cu) (queue_contents nr s)) feed c)"
    using cb ts_pes_data [OF inv cu(1)]
    unfolding avia_gt_napi_queue_callback_ts_pes_def Let_def avail_buf12 [symmetric] cu_def [symmetric]
    by (auto split: prod.splits)
  then show "c' = snd (ts_cb env (feed_cb feed) (take (whole_part feed (length (queue_contents nr s))) (queue_contents nr s)) feed c)"
    "queue_contents nr s' = drop (whole_part feed (length (queue_contents nr s))) (queue_contents nr s)"
    "gt_queue_inv nr s'"
    using inv by (simp_all add: len cu gtq.get_rest gtq.get_inv)
qed


section \<open>The comparison with a filter\<close>

lemma hw_filter_scan_fst: "fst (hw_filter_scan f sec is xr neq) = sectionfilter_scan f sec is neq"
  by (induction "is" arbitrary: xr neq) (simp_all add: Let_def)

lemma hw_filter_scan_snd:
  "fst (hw_filter_scan f sec is xr neq) \<noteq> None \<Longrightarrow>
     snd (hw_filter_scan f sec is xr neq) = (if is = [] then xr else filter_value f ! last is XOR sec ! last is)"
  by (induction "is" arbitrary: xr neq) (auto simp: Let_def split: if_splits)

lemma hw_filter_accepts_eq:
  assumes "0 < n"
  shows "hw_filter_accepts f sec n \<longleftrightarrow>
    (case sectionfilter_scan f sec [0 ..< n] 0 of None \<Rightarrow> False | Some neq \<Rightarrow> \<not> (doneq f \<and> neq = 0))
    \<and> (maskandmode f @ maskandnotmode f) ! n AND (filter_value f ! (n - 1) XOR sec ! (n - 1)) = 0"
  using assms hw_filter_scan_fst [of f sec "[0 ..< n]" 0 0] hw_filter_scan_snd [of f sec "[0 ..< n]" 0 0]
  by (cases "hw_filter_scan f sec [0 ..< n] 0 0") (auto simp: hw_filter_accepts_def split: option.splits)

lemma scan_match:
  "(case sectionfilter_scan f sec [0 ..< 18] 0 of None \<Rightarrow> False | Some neq \<Rightarrow> \<not> (doneq f \<and> neq = 0))
     \<longleftrightarrow> filter_match f sec"
  by (auto simp: sectionfilter_scan_spec filter_match_def fold_or_eq_0 split: if_splits)

lemma hw_filter_accepts_18:
  assumes "length (maskandmode f) = 18"
  shows "hw_filter_accepts f sec 18 \<longleftrightarrow> filter_match f sec
    \<and> maskandnotmode f ! 0 AND (filter_value f ! 17 XOR sec ! 17) = 0"
  using hw_filter_accepts_eq [of 18 f sec] assms scan_match [of f sec] by (simp add: nth_append)





section \<open>Sections of a queue\<close>

text \<open>
  The sections at the front of a sequence of bytes, and the bytes that remain: \<open>None\<close> after a length that
  cannot be.
\<close>

function parse_sections :: "u8 list \<Rightarrow> u8 list list \<times> u8 list option" where
  "parse_sections c =
     (if length c < 3 then ([], Some c)
      else
       (let c' = dropWhile (\<lambda>b. b = 0xff) c in
        if length c' < 3 then ([], Some c')
        else if section_length c' > 4096 then ([], None)
        else if section_length c' > length c' then ([], Some c')
        else (case parse_sections (drop (section_length c') c') of
                (secs, rest) \<Rightarrow> (take (section_length c') c' # secs, rest))))"
  by pat_completeness auto
termination
proof (relation "measure length", goal_cases)
  case (2 c c')
  have "length c' \<le> length c" using 2(2) by (simp add: length_dropWhile_le)
  then show ?case using 2 by (simp add: section_length_def)
qed simp

declare parse_sections.simps [simp del]







lemma queue_ucode_frame [simp]:
  "gt_queue_inv nr (s\<lparr>ucode := u\<rparr>) = gt_queue_inv nr s" "queue_contents nr (s\<lparr>ucode := u\<rparr>) = queue_contents nr s"
  by (simp_all add: gt_queue_inv_def queue_contents_def the_queue_def queue_ok_def region_def)





section \<open>Sections for the clients\<close>


















text \<open>A filter that negates bits of the table id may lose a matching section to the comparison behind the array.\<close>

lemma negated_table_id_dropped:
  assumes "length (maskandmode f) = 18" "maskandnotmode f ! 0 AND (filter_value f ! 17 XOR sec ! 17) \<noteq> 0"
  shows "\<not> hw_filter_accepts f sec 18"
  using assms by (simp add: hw_filter_accepts_18)


section \<open>Sections in pieces\<close>

text \<open>The sections do not depend on where the bytes of the queue are cut by the interrupts.\<close>

definition strip :: "u8 list \<Rightarrow> u8 list" where
  "strip c = dropWhile (\<lambda>b. b = 0xff) c"

lemma strip_strip [simp]: "strip (strip c) = strip c"
  using hd_dropWhile [of "\<lambda>b. b = 0xff" c] by (auto simp: strip_def dropWhile_eq_self_iff)

lemma strip_append: "strip (a @ b) = (if strip a = [] then strip b else strip a @ b)"
  by (auto simp: strip_def dropWhile_append dropWhile_eq_Nil_conv)

lemma strip_append2: "strip (strip a @ b) = strip (a @ b)"
  by (auto simp: strip_append)

lemma length_strip: "length (strip c) \<le> length c"
  by (simp add: strip_def length_dropWhile_le)

lemma parse_eq:
  "parse_sections c =
     (if length (strip c) < 3 then ([], Some (if length c < 3 then c else strip c))
      else if section_length (strip c) > 4096 then ([], None)
      else if section_length (strip c) > length (strip c) then ([], Some (strip c))
      else (case parse_sections (drop (section_length (strip c)) (strip c)) of
              (secs, rest) \<Rightarrow> (take (section_length (strip c)) (strip c) # secs, rest)))"
  using length_strip [of c] by (subst parse_sections.simps) (auto simp: Let_def strip_def)

text \<open>Two inputs that differ in leading padding only have the same sections.\<close>

lemma parse_strip_fst: "strip c = strip e \<Longrightarrow> fst (parse_sections c) = fst (parse_sections e)"
  by (subst (1 2) parse_eq) (simp split: prod.splits)

lemma section_length_append: "3 \<le> length c \<Longrightarrow> section_length (c @ e) = section_length c"
  by (simp add: section_length_def nth_append)

lemma parse_append:
  "fst (parse_sections (a @ b)) = fst (parse_sections a)
     @ (case snd (parse_sections a) of None \<Rightarrow> [] | Some r \<Rightarrow> fst (parse_sections (r @ b)))"
proof (induction "length a" arbitrary: a rule: less_induct)
  case less
  let ?c = "strip a" and ?n = "section_length (strip a)"
  consider (short) "length ?c < 3" | (bad) "3 \<le> length ?c" "4096 < ?n" | (part) "3 \<le> length ?c" "?n \<le> 4096" "length ?c < ?n"
    | (whole) "3 \<le> length ?c" "?n \<le> 4096" "?n \<le> length ?c"
    by linarith
  then show ?case
  proof cases
    case short
    then have "parse_sections a = ([], Some (if length a < 3 then a else ?c))" by (subst parse_eq) simp
    then show ?thesis using parse_strip_fst [of "a @ b" "?c @ b"] by (simp add: strip_append2)
  next
    case bad
    then have ne: "?c \<noteq> []" by auto
    have "parse_sections a = ([], None)" using bad by (subst parse_eq) simp
    moreover have "parse_sections (a @ b) = ([], None)"
      using bad ne by (subst parse_eq) (simp add: strip_append section_length_append)
    ultimately show ?thesis by simp
  next
    case part
    then have "parse_sections a = ([], Some ?c)" by (subst parse_eq) simp
    then show ?thesis using parse_strip_fst [of "a @ b" "?c @ b"] by (simp add: strip_append2)
  next
    case whole
    then have ne: "?c \<noteq> []" by auto
    have pos: "0 < ?n" by (simp add: section_length_def)
    obtain secs rest where rec: "parse_sections (drop ?n ?c) = (secs, rest)" by fastforce
    have a: "parse_sections a = (take ?n ?c # secs, rest)" using whole rec by (subst parse_eq) simp
    have "parse_sections (a @ b) = (case parse_sections (drop ?n ?c @ b) of (s, r) \<Rightarrow> (take ?n ?c # s, r))"
      using whole ne by (subst parse_eq) (simp add: strip_append section_length_append)
    moreover have "length (drop ?n ?c) < length a" using pos whole length_strip [of a] by simp
    ultimately show ?thesis using less [of "drop ?n ?c"] rec by (simp add: a split: prod.splits)
  qed
qed


section \<open>Whole packets for the software demultiplexer\<close>

lemma lose_sync_effect:
  assumes "gt_queue_inv nr s" "n = length (queue_contents nr s)"
  shows "gt_queue_inv nr (lose_sync nr n s)
    \<and> queue_contents nr (lose_sync nr n s) = dropWhile (\<lambda>b. b \<noteq> 0x47) (queue_contents nr s)"
  using assms
proof (induction nr n s rule: lose_sync.induct)
  case (1 nr s)
  then show ?case by simp
next
  case (2 nr n s)
  obtain b bs where c: "queue_contents nr s = b # bs" using 2(3) by (cases "queue_contents nr s") auto
  show ?case
  proof (cases "b = 0x47")
    case True
    then show ?thesis using 2(2) by (simp add: get8_effect(1) [OF 2(2) c] c)
  next
    case False
    let ?s = "snd (avia_gt_dmx_queue_data_get nr 1 False s)"
    have "gt_queue_inv nr ?s" "queue_contents nr ?s = bs" using 2(2) by (simp_all add: gtq.get_inv gtq.get_rest c)
    then show ?thesis using 2(1) 2(3) False by (simp add: get8_effect(1) [OF 2(2) c] c)
  qed
qed

lemma swfilter_packets_append:
  assumes "length xs = 188 * m"
  shows "dvb_dmx_swfilter_packets env (xs @ ys) (m + n) d c = do {
     (d, c) \<leftarrow> dvb_dmx_swfilter_packets env xs m d c;
     dvb_dmx_swfilter_packets env ys n d c }"
  using assms
proof (induction m arbitrary: xs d c)
  case 0
  then show ?case by simp
next
  case (Suc m)
  have rest: "drop 188 (xs @ ys) = drop 188 xs @ ys" "length (drop 188 xs) = 188 * m" using Suc(2) by simp_all
  have first: "rd (xs @ ys) 0 = rd xs 0" "memread (xs @ ys) 0 188 = memread xs 0 188"
    using Suc(2) by (simp_all add: rd_def memread_def nth_append)
  show ?case
    using Suc(2) by (simp add: first Suc(1) [OF rest(2)] bind_assoc split_def cong: if_cong)
qed

lemma swfilter_packets_take:
  assumes "188 * n \<le> length xs"
  shows "dvb_dmx_swfilter_packets env xs n d c = dvb_dmx_swfilter_packets env (take (188 * n) xs) n d c"
  using swfilter_packets_append [of "take (188 * n) xs" n env "drop (188 * n) xs" 0 d c] assms
  by (simp add: split_def)

lemma swfilter_packets_one:
  assumes "length p = 188" "p ! 0 = 0x47"
  shows "dvb_dmx_swfilter_packets env p 1 d c = dvb_dmx_swfilter_packet env p d c"
  using assms by (simp add: rd_def memread_def numeral_eq_Suc split_def)


text \<open>Two reads move the queue as one; a read up to the end of the buffer or beyond leaves one piece.\<close>

lemma data_get_twice:
  assumes inv: "gt_queue_inv nr s" and fits: "a + b \<le> queue_avail nr s"
  shows "snd (avia_gt_dmx_queue_data_get nr b False (snd (avia_gt_dmx_queue_data_get nr a False s)))
    = snd (avia_gt_dmx_queue_data_get nr (a + b) False s)"
proof -
  let ?s = "snd (avia_gt_dmx_queue_data_get nr a False s)"
  have s1: "gt_queue_inv nr ?s" using inv by (rule gtq.get_inv)
  have "queue_avail nr ?s = queue_avail nr s - a"
    using length_queue_contents [OF s1] length_queue_contents [OF inv] gtq.get_rest [OF inv, of a] by simp
  then have second: "snd (avia_gt_dmx_queue_data_get nr b False ?s)
      = upd_queue nr (\<lambda>q. q\<lparr>read_pos := (read_pos q + b) mod q_size q\<rparr>) ?s"
    using fits by (simp add: data_get_effect(2) [OF s1] min_def)
  have first: "?s = upd_queue nr (\<lambda>q. q\<lparr>read_pos := (read_pos q + a) mod q_size q\<rparr>) s"
    using fits by (simp add: data_get_effect(2) [OF inv] min_def)
  show ?thesis
    unfolding second unfolding first
    using fits by (simp add: data_get_effect(2) [OF inv] min_def mod_simps add.assoc)
qed

lemma read_behind_end:
  assumes inv: "gt_queue_inv nr s" and n: "avia_gt_dmx_queue_get_buf1_size (the_queue nr s) \<le> n" "n \<le> queue_avail nr s"
  defines "s' \<equiv> snd (avia_gt_dmx_queue_data_get nr n False s)"
  shows "avia_gt_dmx_queue_get_buf1_size (the_queue nr s') = queue_avail nr s'"
proof -
  let ?q = "the_queue nr s"
  have ok: "queue_ok s ?q" "nr < length (queue_list s)" using inv by (simp_all add: gt_queue_inv_def)
  have avail: "queue_avail nr s = ring_dist (q_size ?q) (read_pos ?q) (write_pos ?q)"
    using ok by (simp add: queue_avail_def bytes_avail_dist)
  have q: "the_queue nr s' = ?q\<lparr>read_pos := (read_pos ?q + n) mod q_size ?q\<rparr>"
    using n(2) ok(2) by (simp add: s'_def data_get_effect [OF inv] min_def)
  have "(read_pos ?q + n) mod q_size ?q \<le> write_pos ?q"
    using ok n avail by (auto simp: queue_ok_def avia_gt_dmx_queue_get_buf1_size_def ring_dist_def mod_less_double split: if_splits)
  then show ?thesis
    by (simp add: avail_buf12 q avia_gt_dmx_queue_get_buf2_size_def)
qed

lemma wrapped_packets_effect:
  assumes inv: "gt_queue_inv nr s" and len: "188 * n \<le> length (queue_contents nr s)"
    and more: "chunk < 188 * n" and chunk: "chunk = avia_gt_dmx_queue_get_buf1_size (the_queue nr s)"
    and sync: "\<forall>i < n. queue_contents nr s ! (188 * i) = 0x47"
  defines "m \<equiv> chunk div 188 + 1"
  shows "wrapped_packets env nr (188 * n) chunk s d c = do {
      (d, c) \<leftarrow> dvb_dmx_swfilter_packets env (take (188 * m) (queue_contents nr s)) m d c;
      Some (188 * (n - m), snd (avia_gt_dmx_queue_data_get nr 188 False
        (if chunk div 188 = 0 then s else snd (avia_gt_dmx_queue_data_get nr (188 * (chunk div 188)) False s))), d, c) }"
proof -
  let ?c = "queue_contents nr s" and ?k = "chunk div 188"
  have k: "chunk - chunk mod 188 = 188 * ?k" "188 * ?k \<le> chunk" by (simp_all add: minus_mod_eq_mult_div)
  have m: "m \<le> n" "?k < n" using more by (simp_all add: m_def)
  define s1 where "s1 = (if ?k = 0 then s else snd (avia_gt_dmx_queue_data_get nr (188 * ?k) False s))"
  have s1: "gt_queue_inv nr s1" "queue_contents nr s1 = drop (188 * ?k) ?c"
    using inv by (simp_all add: s1_def gtq.get_inv gtq.get_rest)
  have bytes: "chunk_bytes nr (188 * ?k) s = take (188 * ?k) ?c"
    using buf1_contents [OF inv] k(2) chunk by (simp add: chunk_bytes_def)
  let ?p = "take 188 (drop (188 * ?k) ?c)"
  have p: "length ?p = 188" "?p ! 0 = 0x47" using len m sync by auto
  have get: "fst (avia_gt_dmx_queue_data_get nr 188 False s1) = ?p"
    using gtq.get_out [OF s1(1), of 188 False] s1(2) by simp
  have "188 * m = 188 * ?k + 188" by (simp add: m_def)
  then have "take (188 * m) ?c = take (188 * ?k) ?c @ ?p" by (simp only: take_add)
  moreover have "length (take (188 * ?k) ?c) = 188 * ?k" using len m by simp
  ultimately have split: "dvb_dmx_swfilter_packets env (take (188 * m) ?c) m d c = do {
      (d, c) \<leftarrow> dvb_dmx_swfilter_packets env (take (188 * ?k) ?c) ?k d c;
      dvb_dmx_swfilter_packet env ?p d c }"
    unfolding m_def by (simp only: swfilter_packets_append swfilter_packets_one [OF p])
  have "188 * n - 188 * ?k - 188 = 188 * (n - m)" by (simp add: m_def diff_mult_distrib2)
  then show ?thesis
    unfolding wrapped_packets_def k(1) split Let_def
    using get by (cases "?k = 0") (simp_all add: s1_def bytes bind_assoc split_def)
qed


text \<open>
  C31: the callback of a queue with transport packets gives the software demultiplexer all whole packets of
  the queue in order, from the first sync byte on, also across the end of the buffer, and leaves the rest
  of the bytes in the queue.
\<close>

theorem packet_queue_reaches_demux:
  assumes "gt_queue_inv nr s" "188 \<le> length (queue_contents nr s)"
    and "buf = dropWhile (\<lambda>b. b \<noteq> 0x47) (queue_contents nr s)" "n = length buf div 188"
    and "\<forall>i < n. buf ! (188 * i) = 0x47"
  shows "\<exists>s'. avia_gt_napi_queue_callback_generic env nr s d c
      = map_option (\<lambda>(d', c'). (s', d', c')) (dvb_dmx_swfilter_packets env (take (188 * n) buf) n d c)
    \<and> gt_queue_inv nr s' \<and> queue_contents nr s' = drop (188 * n) buf"
proof -
  define s1 where "s1 = lose_sync nr (queue_avail nr s) s"
  have s1: "gt_queue_inv nr s1" "queue_contents nr s1 = buf"
    using lose_sync_effect [OF assms(1) refl] length_queue_contents [OF assms(1)] assms(3) by (simp_all add: s1_def)
  have avail: "queue_avail nr s1 = length buf" "\<not> queue_avail nr s < 188"
    using length_queue_contents [OF s1(1)] length_queue_contents [OF assms(1)] assms(2) s1(2) by simp_all
  have whole: "length buf - length buf mod 188 = 188 * n" "188 * n \<le> length buf"
    using assms(4) by (simp_all add: minus_mod_eq_mult_div)
  let ?chunk = "avia_gt_dmx_queue_get_buf1_size (the_queue nr s1)"
  have cb: "avia_gt_napi_queue_callback_generic env nr s d c =
    (if length buf < 188 then Some (s1, d, c) else do {
       (avail, s2, d, c) \<leftarrow> (if ?chunk < 188 * n then wrapped_packets env nr (188 * n) ?chunk s1 d c else Some (188 * n, s1, d, c));
       if avail \<noteq> 0 then do {
         (d, c) \<leftarrow> dvb_dmx_swfilter_packets env (chunk_bytes nr avail s2) (avail div 188) d c;
         Some (snd (avia_gt_dmx_queue_data_get nr avail False s2), d, c)
       } else Some (s2, d, c) })"
    using avail unfolding avia_gt_napi_queue_callback_generic_def queue_avail_def [symmetric] s1_def [symmetric] Let_def
    by (simp add: whole(1))
  consider (short) "length buf < 188" | (straight) "188 \<le> length buf" "188 * n \<le> ?chunk" | (wrap) "188 \<le> length buf" "?chunk < 188 * n"
    by linarith
  then show ?thesis
  proof cases
    case short
    then have "n = 0" using assms(4) by simp
    then show ?thesis using short s1 by (auto simp: cb)
  next
    case straight
    then have n: "0 < n" using assms(4) by (simp add: div_greater_zero_iff)
    have "chunk_bytes nr (188 * n) s1 = take (188 * n) buf"
      using buf1_contents [OF s1(1) straight(2)] s1(2) by (simp add: chunk_bytes_def)
    then show ?thesis
      using straight n gtq.get_inv [OF s1(1)] gtq.get_rest [OF s1(1)] s1(2)
      by (intro exI [of _ "snd (avia_gt_dmx_queue_data_get nr (188 * n) False s1)"])
         (cases "dvb_dmx_swfilter_packets env (take (188 * n) buf) n d c", auto simp: cb)
  next
    case wrap
    define m where "m = ?chunk div 188 + 1"
    have m: "m \<le> n" using wrap(2) by (simp add: m_def)
    define s2 where "s2 = snd (avia_gt_dmx_queue_data_get nr 188 False
        (if ?chunk div 188 = 0 then s1 else snd (avia_gt_dmx_queue_data_get nr (188 * (?chunk div 188)) False s1)))"
    have s2: "gt_queue_inv nr s2" "queue_contents nr s2 = drop (188 * m) buf"
      using s1 by (simp_all add: s2_def gtq.get_inv gtq.get_rest m_def algebra_simps)
    have w: "wrapped_packets env nr (188 * n) ?chunk s1 d c = do {
        (d, c) \<leftarrow> dvb_dmx_swfilter_packets env (take (188 * m) buf) m d c; Some (188 * (n - m), s2, d, c) }"
      using wrapped_packets_effect [OF s1(1) _ wrap(2) refl, of env d c] s1(2) whole(2) assms(5)
      by (simp add: m_def s2_def)
    have fits: "188 * m \<le> queue_avail nr s1" "188 * (?chunk div 188) + 188 = 188 * m"
      using m whole(2) avail(1) by (simp_all add: m_def)
    then have s2': "s2 = snd (avia_gt_dmx_queue_data_get nr (188 * m) False s1)"
      using data_get_twice [OF s1(1), of "188 * (?chunk div 188)" 188] by (cases "?chunk div 188 = 0") (simp_all add: s2_def)
    have "?chunk \<le> 188 * m" using fits(2) div_mult_mod_eq [of ?chunk 188] mod_less_divisor [of 188 ?chunk] by linarith
    then have one: "avia_gt_dmx_queue_get_buf1_size (the_queue nr s2) = queue_avail nr s2"
      using read_behind_end [OF s1(1) _ fits(1)] by (simp add: s2')
    have "188 * (n - m) \<le> queue_avail nr s2"
      using length_queue_contents [OF s2(1)] s2(2) whole(2) by (simp add: diff_mult_distrib2)
    then have rest: "chunk_bytes nr (188 * (n - m)) s2 = take (188 * (n - m)) (drop (188 * m) buf)"
      using buf1_contents [OF s2(1)] s2(2) one by (simp add: chunk_bytes_def)
    have "188 * n = 188 * m + 188 * (n - m)" using m by (simp add: diff_mult_distrib2)
    then have "take (188 * n) buf = take (188 * m) buf @ take (188 * (n - m)) (drop (188 * m) buf)"
      by (simp only: take_add)
    then have all: "dvb_dmx_swfilter_packets env (take (188 * n) buf) n d c = do {
        (d, c) \<leftarrow> dvb_dmx_swfilter_packets env (take (188 * m) buf) m d c;
        dvb_dmx_swfilter_packets env (take (188 * (n - m)) (drop (188 * m) buf)) (n - m) d c }"
      using swfilter_packets_append [of "take (188 * m) buf" m env _ "n - m" d c] m whole(2) by simp
    let ?s3 = "if n = m then s2 else snd (avia_gt_dmx_queue_data_get nr (188 * (n - m)) False s2)"
    have s3: "gt_queue_inv nr ?s3" "queue_contents nr ?s3 = drop (188 * n) buf"
      using s2 m by (simp_all add: gtq.get_inv gtq.get_rest) (simp add: diff_mult_distrib2)?
    have "avia_gt_napi_queue_callback_generic env nr s d c = do {
        (d, c) \<leftarrow> dvb_dmx_swfilter_packets env (take (188 * n) buf) n d c; Some (?s3, d, c) }"
      using wrap(1) m unfolding cb all if_P [OF wrap(2)] w
      by (cases "n = m") (simp_all add: rest bind_assoc split_def)
    then show ?thesis
      using s3 by (intro exI [of _ ?s3]) (cases "dvb_dmx_swfilter_packets env (take (188 * n) buf) n d c", auto)
  qed
qed


section \<open>Examples\<close>

text \<open>
  A queue whose bytes wrap around the end of its buffer: two bytes of padding, a section of 18 bytes, and
  the start of the next one; and a queue with a packet behind two bytes that are not part of one.
\<close>

definition ex_fill :: "nat \<Rightarrow> u8 list \<Rightarrow> gt_state" where
  "ex_fill r bs = upd_queue 5 (\<lambda>q. q\<lparr>read_pos := r, write_pos := (r + length bs) mod 256\<rparr>)
     (ex_gt\<lparr>gt_mem := blit (blit (gt_mem ex_gt) (4 + r) (take (256 - r) bs)) 4 (drop (256 - r) bs)\<rparr>)"



definition ex_packets :: gt_state where
  "ex_packets = ex_fill 100 ([1, 2, 0x47, 0x00, 0x11, 0x15] @ replicate 184 0 @ [0x47, 0, 0])"



lemma ex_packets_queue: "gt_queue_inv 5 ex_packets"
  "queue_contents 5 ex_packets = [1, 2, 0x47, 0x00, 0x11, 0x15] @ replicate 184 0 @ [0x47, 0, 0]"
  by code_simp+










theorem packet_queue_reaches_demux_witness:
  "\<exists>s'. avia_gt_napi_queue_callback_generic ex_env 5 ex_packets ex_demux []
      = map_option (\<lambda>(d', c'). (s', d', c'))
          (dvb_dmx_swfilter_packets ex_env ([0x47, 0x00, 0x11, 0x15] @ replicate 184 0) 1 ex_demux [])
    \<and> gt_queue_inv 5 s' \<and> queue_contents 5 s' = [0x47, 0, 0]"
  using packet_queue_reaches_demux [OF ex_packets_queue(1), of "[0x47, 0x00, 0x11, 0x15] @ replicate 184 0 @ [0x47, 0, 0]" 1
      ex_env ex_demux "[]"]
  unfolding ex_packets_queue(2) by simp

end
