(* ===== verification/Avia_Gt_Napi_View.thy ===== *)
theory Avia_Gt_Napi_View
  imports Avia_Gt_Napi_Feed Avia_Gt_Napi_Properties Avia_Gt_System
begin

text \<open>
  What starting and stopping feeds does to the queues, their interrupts, and the feeds and filters of the
  microcode, operation by operation.
\<close>

section \<open>What the operations on queues leave alone\<close>

text \<open>The allocation of the queues, the interrupts of the queues that are not shared, and the microcode.\<close>

definition user_isr :: "gt_state \<Rightarrow> nat \<Rightarrow> gt_isr option" where
  "user_isr s q = (if 3 \<le> q \<and> q < 31 then gt_isr_proc_list s ! sys_isr s q else None)"

definition view :: "gt_state \<Rightarrow> bool list \<times> gt_chip_type \<times> nat \<times> ucode_state \<times> nat \<times> (nat \<Rightarrow> gt_isr option)" where
  "view s = (map busy (queue_list s), gt_chip s, irq_pcr s, ucode s, length (gt_isr_proc_list s),
     user_isr s)"

lemma view_eq:
  assumes "map busy (queue_list s') = map busy (queue_list s)" "gt_chip s' = gt_chip s" "irq_pcr s' = irq_pcr s"
    "ucode s' = ucode s" "length (gt_isr_proc_list s') = length (gt_isr_proc_list s)"
    "\<And>q. 3 \<le> q \<Longrightarrow> q < 31 \<Longrightarrow> gt_isr_proc_list s' ! sys_isr s q = gt_isr_proc_list s ! sys_isr s q"
  shows "view s' = view s"
proof -
  have "user_isr s' q = user_isr s q" for q using assms(2,6) by (simp add: user_isr_def sys_isr_def)
  then show ?thesis using assms by (simp add: view_def fun_eq_iff)
qed

lemma busy_upd_queue:
  assumes "\<And>q. busy (f q) = busy q"
  shows "map busy (queue_list (upd_queue nr f s)) = map busy (queue_list s)"
  unfolding upd_queue_def by (simp add: assms map_update_eq)

lemma upd_queue_fields [frame_simps]:
  "gt_chip (upd_queue nr f s) = gt_chip s" "irq_pcr (upd_queue nr f s) = irq_pcr s" "ucode (upd_queue nr f s) = ucode s"
  "gt_isr_proc_list (upd_queue nr f s) = gt_isr_proc_list s" "sys_isr (upd_queue nr f s) q = sys_isr s q"
  "queue_client (upd_queue nr f s) = queue_client s"
  by (simp_all add: upd_queue_def sys_isr_def)

lemma view_upd_queue:
  assumes "\<And>q. busy (f q) = busy q"
  shows "view (upd_queue nr f s) = view s"
  by (rule view_eq) (simp_all add: busy_upd_queue assms frame_simps)

lemma view_field_updates [frame_simps]:
  "view (s\<lparr>qwp := a\<rparr>) = view s" "view (s\<lparr>qwp_size := b\<rparr>) = view s"
  "view (s\<lparr>upq := c\<rparr>) = view s" "view (s\<lparr>aq_rp := a\<rparr>) = view s"
  "view (s\<lparr>aq_wp := b\<rparr>) = view s" "view (s\<lparr>aq_size := b\<rparr>) = view s"
  "view (s\<lparr>qn_int := d\<rparr>) = view s" "view (s\<lparr>queue_client := e\<rparr>) = view s"
  "view (s\<lparr>irq_unmasked := g\<rparr>) = view s" "view (s\<lparr>queue_size_table := h\<rparr>) = view s"
  "view (s\<lparr>pcr_pid := i\<rparr>) = view s" "view (s\<lparr>force_stc_reload := j\<rparr>) = view s" "view (s\<lparr>force_disc := k\<rparr>) = view s"
  by (rule view_eq; simp)+

lemma view_registers [frame_simps]:
  "view (avia_gt_dmx_queue_set_write_pos nr p s) = view s"
  "view (avia_gt_dmx_system_queue_set_write_pos nr p s) = view s"
  "view (avia_gt_dmx_system_queue_set_pos nr p r s) = view s"
  "view (avia_gt_dmx_set_queue_irq nr b m s) = view s"
  by (simp_all add: avia_gt_dmx_queue_set_write_pos_def avia_gt_dmx_map_queue_def write_qwp_def
      avia_gt_dmx_system_queue_set_write_pos_def avia_gt_dmx_system_queue_set_pos_def avia_gt_dmx_set_queue_irq_def
      frame_simps Let_def)

lemma view_get_write_pos [frame_simps]: "view (snd (avia_gt_dmx_queue_get_write_pos nr s)) = view s"
  by (simp add: avia_gt_dmx_queue_get_write_pos_def avia_gt_dmx_map_queue_def frame_simps view_upd_queue
      Let_def split: prod.splits)

lemma view_queue_reset [frame_simps]: "view (snd (avia_gt_dmx_queue_reset nr s)) = view s"
  by (simp add: avia_gt_dmx_queue_reset_def frame_simps view_upd_queue Let_def)


section \<open>Interrupts of the queues\<close>

lemma queue_isrs:
  "distinct (map (\<lambda>q. isr_nr (avia_gt_dmx_get_queue_irq chip q)) [0 ..< 32])
     \<and> (\<forall>q \<in> set [0 ..< 32]. isr_nr (avia_gt_dmx_get_queue_irq chip q) < 128)"
  by (cases chip) (simp_all add: upt_rec isr_nr_def avia_gt_dmx_get_queue_irq_def AVIA_GT_IRQ_def AVIA_GT_IRQ_BIT_def
      AVIA_GT_IRQ_REG_def AVIA_GT_ISR_PROC_NR_def gt_consts)

lemma sys_isr_inj: "q < 32 \<Longrightarrow> k < 32 \<Longrightarrow> sys_isr s q = sys_isr s k \<longleftrightarrow> q = k"
  using queue_isrs [of "gt_chip s"] distinct_conv_nth [of "map (\<lambda>q. isr_nr (avia_gt_dmx_get_queue_irq (gt_chip s) q)) [0 ..< 32]"]
  by (auto simp: sys_isr_def)

lemma sys_isr_less: "q < 32 \<Longrightarrow> sys_isr s q < 128"
  using queue_isrs [of "gt_chip s"] by (simp add: sys_isr_def)

lemma view_setup_client:
  assumes "sys < 3"
  shows "view (setup_client new sys s) = view s"
proof -
  let ?t = "s\<lparr>queue_client := (queue_client s)[sys := new]\<rparr>"
  obtain wp t where gw: "avia_gt_dmx_queue_get_write_pos sys ?t = (wp, t)" by (metis surj_pair)
  have t: "view t = view s" using view_get_write_pos [of sys ?t] gw by (simp add: frame_simps)
  have isr: "view (snd (avia_gt_alloc_irq (avia_gt_dmx_get_queue_irq (gt_chip u) sys) isr u)) = view u"
    "view (avia_gt_free_irq (avia_gt_dmx_get_queue_irq (gt_chip u) sys) u) = view u" for isr u
    using assms sys_isr_inj [of sys _ u]
    by (auto intro!: view_eq simp: avia_gt_alloc_irq_def avia_gt_free_irq_def sys_isr_def [symmetric] nth_list_update_neq)
  have "view (snd (system_queue_irq_enable sys u)) = view u" "view (system_queue_irq_disable sys u) = view u" for u
    using isr(1) [of "upd_queue sys f u" for f] isr(2) [of "upd_queue sys f u" for f]
    by (simp_all add: system_queue_irq_enable_def system_queue_irq_disable_def frame_simps view_upd_queue)
  then show ?thesis by (simp add: setup_client_def gw t frame_simps view_upd_queue Let_def)
qed

lemma view_system_irqs [frame_simps]: "view (avia_gt_dmx_enable_disable_system_queue_irqs s) = view s"
proof -
  have "view (fold (\<lambda>sys. setup_client (f sys) sys) xs t) = view t" if "\<forall>x \<in> set xs. x < 3" for f xs t
    using that by (induction xs arbitrary: t) (simp_all add: view_setup_client)
  then show ?thesis by (simp add: avia_gt_dmx_enable_disable_system_queue_irqs_def gt_consts)
qed

lemma view_components:
  assumes "view s' = view s"
  shows "gt_chip s' = gt_chip s" "irq_pcr s' = irq_pcr s" "ucode s' = ucode s" "map busy (queue_list s') = map busy (queue_list s)"
    "length (queue_list s') = length (queue_list s)" "nr < length (queue_list s) \<Longrightarrow> busy (the_queue nr s') = busy (the_queue nr s)"
    "length (gt_isr_proc_list s') = length (gt_isr_proc_list s)" "sys_isr s' q = sys_isr s q"
    "3 \<le> q \<Longrightarrow> q < 31 \<Longrightarrow> gt_isr_proc_list s' ! sys_isr s q = gt_isr_proc_list s ! sys_isr s q"
proof -
  show c: "gt_chip s' = gt_chip s" "irq_pcr s' = irq_pcr s" "ucode s' = ucode s" "map busy (queue_list s') = map busy (queue_list s)"
    "length (gt_isr_proc_list s') = length (gt_isr_proc_list s)"
    using assms by (simp_all add: view_def)
  show l: "length (queue_list s') = length (queue_list s)" using c(4) by (rule map_eq_imp_length_eq)
  show "busy (the_queue nr s') = busy (the_queue nr s)" if "nr < length (queue_list s)"
    using c(4) l that by (metis nth_map the_queue_def)
  show i: "sys_isr s' q = sys_isr s q" for q using c by (simp add: sys_isr_def)
  have "user_isr s' q = user_isr s q" using assms by (simp add: view_def)
  then show "gt_isr_proc_list s' ! sys_isr s q = gt_isr_proc_list s ! sys_isr s q" if "3 \<le> q" "q < 31"
    using that by (simp add: user_isr_def i)
qed


section \<open>Feeds and filters of the microcode\<close>

text \<open>
  Every feed belongs to a queue that is taken, section feeds to user queues, and every set of filters in
  the map to a feed, except for those in \<open>X\<close>, which the driver holds while it starts a feed.
\<close>

definition feed_placed :: "(nat \<Rightarrow> bool) \<Rightarrow> avia_gt_feed \<Rightarrow> bool" where
  "feed_placed taken f \<longleftrightarrow>
     (dest_queue f = -1 \<longrightarrow> section_idx f = 255)
     \<and> (dest_queue f \<noteq> -1 \<longrightarrow> 0 \<le> dest_queue f \<and> dest_queue f < 31 \<and> taken (nat (dest_queue f)))
     \<and> (section_idx f \<noteq> 255 \<longrightarrow> 3 \<le> dest_queue f)"

definition uc_inv :: "nat set \<Rightarrow> (nat \<Rightarrow> bool) \<Rightarrow> ucode_state \<Rightarrow> bool" where
  "uc_inv X taken u \<longleftrightarrow> sec_inv u
     \<and> (\<forall>f \<in> set (ucode_feed u). feed_placed taken f)
     \<and> (\<forall>p < 32. section_map u ! p \<noteq> -1 \<longrightarrow>
          (\<exists>x \<in> X. section_map u ! p = int x) \<or> (\<exists>f \<in> set (ucode_feed u). section_map u ! p = int (section_idx f)))"

lemma uc_inv_frame:
  assumes "ucode_feed u' = ucode_feed u" "section_map u' = section_map u" "risc_filter_param u' = risc_filter_param u"
  shows "uc_inv X taken u' = uc_inv X taken u"
  using assms by (simp add: uc_inv_def sec_inv_def)

lemma uc_inv_feeds:
  assumes "uc_inv X taken u" "f \<in> set (ucode_feed u)" "dest_queue f \<noteq> -1"
  shows "0 \<le> dest_queue f" "dest_queue f < 31" "taken (nat (dest_queue f))"
  using assms by (auto simp: uc_inv_def feed_placed_def)

lemma uc_inv_mono: "uc_inv X taken u \<Longrightarrow> (\<And>q. taken q \<Longrightarrow> taken' q) \<Longrightarrow> X \<subseteq> Y \<Longrightarrow> uc_inv Y taken' u"
  unfolding uc_inv_def feed_placed_def by blast

lemma uc_start_feed [frame_simps]: "uc_inv X taken (prop_ucode_start_feed i tap u) = uc_inv X taken u"
  by (rule uc_inv_frame) (simp_all add: frame_simps)

lemma uc_start_queue_feeds [frame_simps]: "uc_inv X taken (prop_ucode_start_queue_feeds q u) = uc_inv X taken u"
proof -
  have "uc_inv X taken (fold (\<lambda>i u. if dest_queue (ucode_feed u ! i) = int q then prop_ucode_start_feed i False u else u) is u)
    = uc_inv X taken u" for "is"
    by (induction "is" arbitrary: u) (simp_all add: frame_simps)
  then show ?thesis by (simp add: prop_ucode_start_queue_feeds_def)
qed

lemma uc_stop_feed_keep [frame_simps]: "uc_inv X taken (prop_ucode_stop_feed i False u) = uc_inv X taken u"
  by (rule uc_inv_frame)
     (simp_all add: prop_ucode_stop_feed_def prop_ucode_set_pid_table_def Let_def)

lemma uc_free_filter:
  assumes inv: "uc_inv {x} taken u" and free: "\<forall>f \<in> set (ucode_feed u). section_idx f \<noteq> x"
  shows "uc_inv {} taken (prop_ucode_free_section_filter x u)"
proof -
  let ?u = "prop_ucode_free_section_filter x u"
  have sec: "sec_inv u" "sec_inv ?u" using inv free_filter_sec_inv by (simp_all add: uc_inv_def)
  then have ok: "map_ok (section_map u)" by (simp add: sec_inv_def)
  have "\<exists>f \<in> set (ucode_feed u). section_map ?u ! p = int (section_idx f)" if p: "p < 32" "section_map ?u ! p \<noteq> -1" for p
  proof -
    note nth = free_section_filter_nth [OF ok p(1), of x]
    have same: "section_map ?u ! p = section_map u ! p" "section_map u ! p \<noteq> -1"
      using nth p(2) by (auto split: if_splits)
    have "section_map u ! p \<noteq> int x"
    proof
      assume px: "section_map u ! p = int x"
      then have "x \<le> p" "section_map u ! x = int x" using map_okD [OF ok p(1) px] by auto
      then show False using nth p px free by (auto split: if_splits)
    qed
    then show ?thesis using inv p(1) same by (auto simp: uc_inv_def)
  qed
  then show ?thesis using inv sec by (simp add: uc_inv_def frame_simps)
qed

lemma uc_alloc_filter:
  assumes inv: "uc_inv {} taken u" and alloc: "prop_ucode_alloc_section_filter junk fs u = (r, u')"
  shows "ucode_feed u' = ucode_feed u"
    and "r = None \<Longrightarrow> u' = u"
    and "r = Some sec \<Longrightarrow> uc_inv {sec_idx sec} taken u' \<and> held sec u' \<and> (\<forall>f \<in> set (ucode_feed u'). section_idx f \<noteq> sec_idx sec)"
proof -
  show "ucode_feed u' = ucode_feed u" using alloc by (cases rule: alloc_section_filter_cases) (auto simp: frame_simps)
  show "r = None \<Longrightarrow> u' = u" using alloc by (cases rule: alloc_section_filter_cases) auto
  show "uc_inv {sec_idx sec} taken u' \<and> held sec u' \<and> (\<forall>f \<in> set (ucode_feed u'). section_idx f \<noteq> sec_idx sec)" if r: "r = Some sec"
    using alloc
  proof (cases rule: alloc_section_filter_cases)
    case none
    then show ?thesis using r by simp
  next
    case (some ao es e)
    let ?m = "section_map u" and ?n = "length es"
    have sec: "sec = \<lparr>sec_idx = e, sec_filtercount = of_nat ?n\<rparr>" using some(3) r by simp
    have len: "length ?m = 32" using inv by (simp add: uc_inv_def sec_inv_def map_ok_def)
    have nth: "section_map u' ! p = (if e \<le> p \<and> p < e + ?n then int e else ?m ! p)" if "p < 32" for p
      using that some(4,7) len by (auto simp: frame_simps nth_blit)
    have "sec_inv u'" using alloc_filter_sec_inv [of u junk fs] inv alloc by (simp add: uc_inv_def)
    moreover have feeds: "ucode_feed u' = ucode_feed u" using some(4) by (simp add: frame_simps)
    ultimately have "uc_inv {e} taken u'"
      using inv nth by (auto simp: uc_inv_def)
    moreover have "unat (of_nat ?n :: u8) = ?n" using some(6) by (simp add: unat_of_nat take_bit_nat_eq_self)
    then have "held sec u'" using some(5,7) nth by (auto simp: held_def sec word_less_nat_alt)
    moreover have "section_idx f \<noteq> e" if f: "f \<in> set (ucode_feed u)" for f
    proof
      assume fe: "section_idx f = e"
      then have "e \<in> feed_filters f" using some(5,7) by (simp add: feed_filters_def)
      then have "?m ! e = int e" using inv f fe by (auto simp: uc_inv_def sec_inv_def)
      then show False using some(5,8) by (auto simp: free_run_def dest!: spec [of _ 0])
    qed
    ultimately show ?thesis by (simp add: sec feeds)
  qed
qed

text \<open>A new feed, and what becomes of a held set of filters.\<close>

lemma alloc_generic_feed_new:
  assumes "prop_ucode_alloc_generic_feed q t sec pid u = (Some k, u')"
  obtains g where "k < length (ucode_feed u)" "dest_queue (ucode_feed u ! k) = -1" "ucode_feed u' = (ucode_feed u)[k := g]"
    "dest_queue g = int q" "section_idx g = (case sec of Some s \<Rightarrow> sec_idx s | None \<Rightarrow> 255)"
    "filtercount g = (case sec of Some s \<Rightarrow> sec_filtercount s - 1 | None \<Rightarrow> 0)"
proof (cases "first_index (\<lambda>f. dest_queue f = -1) (ucode_feed u)")
  case None
  then show ?thesis using assms by (simp add: prop_ucode_alloc_generic_feed_def)
next
  case (Some i)
  have "k = i \<and> (\<exists>g. ucode_feed u' = (ucode_feed u)[i := g] \<and> dest_queue g = int q
      \<and> section_idx g = (case sec of Some s \<Rightarrow> sec_idx s | None \<Rightarrow> 255)
      \<and> filtercount g = (case sec of Some s \<Rightarrow> sec_filtercount s - 1 | None \<Rightarrow> 0))"
    using assms Some by (auto simp: prop_ucode_alloc_generic_feed_def prop_ucode_set_pid_table_def Let_def split: if_splits)
  then show ?thesis using that first_index_Some [OF Some] by blast
qed

lemma uc_alloc_feed:
  assumes inv: "uc_inv (set_option (map_option sec_idx sec)) taken u"
    and alloc: "prop_ucode_alloc_generic_feed q t sec pid u = (r, u')"
    and q: "taken q" "q < 31" and sec: "pred_option (\<lambda>s. held s u \<and> 3 \<le> q) sec"
  shows "r = None \<Longrightarrow> uc_inv (set_option (map_option sec_idx sec)) taken u' \<and> ucode_feed u' = ucode_feed u"
    and "r = Some k \<Longrightarrow> uc_inv {} taken u'"
proof -
  note e = alloc_generic_feed_filters [OF alloc]
  have "pred_option (\<lambda>s. held s u) sec" using sec by (simp add: pred_option_def)
  then have si: "sec_inv u'" using alloc_feed_sec_inv [of u sec q t pid] inv alloc by (simp add: uc_inv_def)
  show "uc_inv (set_option (map_option sec_idx sec)) taken u' \<and> ucode_feed u' = ucode_feed u" if "r = None"
    using alloc that inv uc_inv_frame [of "u\<lparr>irqs_off := True\<rparr>" u]
    by (cases rule: alloc_generic_feed_cases) simp_all
  show "uc_inv {} taken u'" if r: "r = Some k"
  proof -
    obtain g where g: "k < length (ucode_feed u)" "dest_queue (ucode_feed u ! k) = -1" "ucode_feed u' = (ucode_feed u)[k := g]"
      "dest_queue g = int q" "section_idx g = (case sec of Some s \<Rightarrow> sec_idx s | None \<Rightarrow> 255)"
      using alloc_generic_feed_new [of q t sec pid u k u'] alloc r by auto
    have old: "f \<in> set (ucode_feed u) \<or> f = g" if "f \<in> set (ucode_feed u')" for f
      using that g(3) by (auto dest!: set_update_subset_insert [THEN subsetD])
    have kept: "f \<in> set (ucode_feed u')" if f: "f \<in> set (ucode_feed u)" "section_idx f \<noteq> 255" for f
    proof -
      obtain j where j: "j < length (ucode_feed u)" "ucode_feed u ! j = f" using f(1) by (auto simp: in_set_conv_nth)
      then have "j \<noteq> k" using f inv g(1,2) by (auto simp: uc_inv_def feed_placed_def)
      then show ?thesis using j g(3) by (metis length_list_update nth_list_update_neq nth_mem)
    qed
    have new: "g \<in> set (ucode_feed u')" using g(1,3) by (simp add: set_update_memI)
    have "\<exists>f \<in> set (ucode_feed u'). section_map u ! p = int (section_idx f)" if p: "p < 32" "section_map u ! p \<noteq> -1" for p
    proof -
      have ok: "map_ok (section_map u)" using inv by (simp add: uc_inv_def sec_inv_def)
      consider s where "sec = Some s" "section_map u ! p = int (sec_idx s)"
        | f where "f \<in> set (ucode_feed u)" "section_map u ! p = int (section_idx f)"
        using inv p by (cases sec) (auto simp: uc_inv_def)
      then show ?thesis
      proof cases
        case 1
        then show ?thesis using new g(5) by (intro bexI [of _ g]) simp_all
      next
        case 2
        then have "section_idx f \<le> p" using map_okD(1) [OF ok p(1)] by blast
        then show ?thesis using kept 2 p(1) by (intro bexI [of _ f]) auto
      qed
    qed
    moreover have "feed_placed taken g" using sec q g(4,5) by (cases sec) (auto simp: feed_placed_def)
    then have "\<forall>f \<in> set (ucode_feed u'). feed_placed taken f" using old inv by (auto simp: uc_inv_def)
    ultimately show ?thesis using si unfolding uc_inv_def e(1) by blast
  qed
qed

text \<open>Stopping a feed for good frees its filters with it.\<close>

lemma uc_stop_feed:
  assumes inv: "uc_inv {} taken u" and i: "i < 32"
  shows "uc_inv {} taken (prop_ucode_stop_feed i True u)"
proof (cases "dest_queue (ucode_feed u ! i) = -1")
  case True
  then show ?thesis using inv by (simp add: prop_ucode_stop_feed_def)
next
  case False
  let ?f = "ucode_feed u ! i" and ?x = "section_idx (ucode_feed u ! i)"
  define u0 where "u0 = u\<lparr>ucode_feed := (ucode_feed u)[i := ?f\<lparr>dest_queue := -1, gtf_pid := 0, section_idx := 255\<rparr>]\<rparr>"
  define last where "last \<longleftrightarrow> ?x \<noteq> 255 \<and> \<not> (\<exists>g \<in> set (ucode_feed u0). section_idx g = ?x)"
  define u1 where "u1 = (if last then prop_ucode_free_section_filter ?x u0 else u0)"
  have stop: "prop_ucode_stop_feed i True u = snd (prop_ucode_set_pid_table i True True (gtf_pid (ucode_feed u1 ! i)) u1)"
    using False by (simp add: prop_ucode_stop_feed_def Let_def u0_def u1_def last_def)
  have len: "length (ucode_feed u) = 32" using inv by (simp add: uc_inv_def sec_inv_def)
  have sub: "g \<in> set (ucode_feed u) \<or> dest_queue g = -1 \<and> section_idx g = 255" if "g \<in> set (ucode_feed u0)" for g
    using that by (auto simp: u0_def dest!: set_update_subset_insert [THEN subsetD])
  have "p < 32 \<and> section_map u ! p = int (section_idx g)" if "g \<in> set (ucode_feed u0)" "p \<in> feed_filters g" for g p
    using inv sub [OF that(1)] that(2) by (auto simp: uc_inv_def sec_inv_def feed_filters_def)
  then have "sec_inv u0" using inv by (auto simp: uc_inv_def sec_inv_def u0_def)
  moreover have "(\<exists>x \<in> (if last then {?x} else {}). section_map u ! p = int x) \<or> (\<exists>f \<in> set (ucode_feed u0). section_map u ! p = int (section_idx f))"
    if p: "p < 32" "section_map u ! p \<noteq> -1" for p
  proof -
    have ok: "map_ok (section_map u)" using inv by (simp add: uc_inv_def sec_inv_def)
    obtain f where f: "f \<in> set (ucode_feed u)" "section_map u ! p = int (section_idx f)"
      using inv p by (auto simp: uc_inv_def)
    have x: "section_idx f \<noteq> 255" using map_okD(1) [OF ok p(1) f(2)] p(1) by simp
    obtain j where j: "j < 32" "ucode_feed u ! j = f" using f(1) len by (auto simp: in_set_conv_nth)
    show ?thesis
    proof (cases "j = i")
      case True
      then show ?thesis using f(2) x j by (cases last) (simp, metis last_def)
    next
      case other: False
      then have "f \<in> set (ucode_feed u0)" using j len by (simp add: u0_def) (metis length_list_update nth_list_update_neq nth_mem)
      then show ?thesis using f(2) by blast
    qed
  qed
  moreover have "feed_placed taken g" if "g \<in> set (ucode_feed u0)" for g
    using sub [OF that]
  proof
    assume "g \<in> set (ucode_feed u)"
    then show ?thesis using inv by (simp add: uc_inv_def)
  qed (simp add: feed_placed_def)
  ultimately have u0: "uc_inv (if last then {?x} else {}) taken u0"
    using inv by (simp add: uc_inv_def u0_def)
  have "uc_inv {} taken u1"
  proof (cases last)
    case True
    then show ?thesis using u0 uc_free_filter [of ?x taken u0] by (simp add: u1_def last_def)
  next
    case False
    then show ?thesis using u0 by (simp add: u1_def)
  qed
  then show ?thesis
    unfolding stop by (subst uc_inv_frame) (simp_all add: frame_simps prop_ucode_set_pid_table_def)
qed

lemma stop_feed_others:
  assumes "length (ucode_feed u) = 32" "i < 32"
  shows "length (ucode_feed (prop_ucode_stop_feed i True u)) = 32"
    "dest_queue (ucode_feed (prop_ucode_stop_feed i True u) ! i) = -1"
    "j \<noteq> i \<Longrightarrow> ucode_feed (prop_ucode_stop_feed i True u) ! j = ucode_feed u ! j"
  using assms
  by (simp_all add: prop_ucode_stop_feed_def Let_def frame_simps)

lemma uc_stop_queue_feeds:
  assumes inv: "uc_inv {} taken u"
  shows "uc_inv {} (\<lambda>k. taken k \<and> k \<noteq> q) (prop_ucode_stop_queue_feeds q True u)"
proof -
  let ?step = "\<lambda>i u. if dest_queue (ucode_feed u ! i) = int q then prop_ucode_stop_feed i True u else u"
  have "uc_inv {} taken (fold ?step [0 ..< n] u) \<and> (\<forall>j < n. dest_queue (ucode_feed (fold ?step [0 ..< n] u) ! j) \<noteq> int q)"
    if "n \<le> 32" for n
    using that
  proof (induction n)
    case 0
    then show ?case using inv by simp
  next
    case (Suc n)
    let ?u = "fold ?step [0 ..< n] u"
    have IH: "uc_inv {} taken ?u" "\<forall>j < n. dest_queue (ucode_feed ?u ! j) \<noteq> int q" using Suc by auto
    have len: "length (ucode_feed ?u) = 32" using IH(1) by (simp add: uc_inv_def sec_inv_def)
    have "uc_inv {} taken (?step n ?u)" using IH(1) uc_stop_feed [OF IH(1), of n] Suc(2) by simp
    moreover have "dest_queue (ucode_feed (?step n ?u) ! j) \<noteq> int q" if "j < Suc n" for j
      using IH(2) that stop_feed_others [OF len, of n] Suc(2) by (cases "j = n") auto
    ultimately show ?case by simp
  qed
  from this [of 32] have u': "uc_inv {} taken (prop_ucode_stop_queue_feeds q True u)"
    "\<forall>j < 32. dest_queue (ucode_feed (prop_ucode_stop_queue_feeds q True u) ! j) \<noteq> int q"
    by (simp_all add: prop_ucode_stop_queue_feeds_def AVIA_GT_UCODE_MAXIMUM_FEED_NUMBER_def)
  moreover have "length (ucode_feed (prop_ucode_stop_queue_feeds q True u)) = 32"
    using u'(1) by (simp add: uc_inv_def sec_inv_def)
  ultimately have "\<forall>f \<in> set (ucode_feed (prop_ucode_stop_queue_feeds q True u)). dest_queue f \<noteq> int q"
    by (metis in_set_conv_nth)
  then have "feed_placed (\<lambda>k. taken k \<and> k \<noteq> q) f" if "f \<in> set (ucode_feed (prop_ucode_stop_queue_feeds q True u))" for f
    using u'(1) that by (auto simp: uc_inv_def feed_placed_def)
  then show ?thesis using u'(1) by (simp add: uc_inv_def)
qed


section \<open>Queues\<close>

text \<open>The effect of the operations on the view, as updates of the state.\<close>

definition take_queue :: "nat \<Rightarrow> gt_state \<Rightarrow> gt_state" where
  "take_queue nr = upd_queue nr (\<lambda>q. q\<lparr>busy := True\<rparr>)"

definition set_isr :: "nat \<Rightarrow> gt_isr option \<Rightarrow> gt_state \<Rightarrow> gt_state" where
  "set_isr nr v s = s\<lparr>gt_isr_proc_list := (gt_isr_proc_list s)[sys_isr s nr := v]\<rparr>"

definition drop_queue :: "nat \<Rightarrow> gt_state \<Rightarrow> gt_state" where
  "drop_queue nr s = set_isr nr None (upd_queue nr (\<lambda>q. q\<lparr>busy := False\<rparr>) s)"

lemma view_upd_busy:
  assumes "\<And>q. busy (f q) = b" "view s' = view s"
  shows "view (upd_queue nr f s') = view (upd_queue nr (\<lambda>q. q\<lparr>busy := b\<rparr>) s)"
proof -
  note c = view_components [OF assms(2)]
  have "map busy (queue_list (upd_queue nr f s')) = (map busy (queue_list s))[nr := b]"
    using c(4) by (simp add: upd_queue_def map_update assms(1))
  also have "\<dots> = map busy (queue_list (upd_queue nr (\<lambda>q. q\<lparr>busy := b\<rparr>) s))"
    by (simp add: upd_queue_def map_update)
  finally show ?thesis
    by (intro view_eq) (simp_all add: frame_simps c)
qed

lemma view_set_isr_cong:
  assumes "view s' = view s"
  shows "view (set_isr nr v s') = view (set_isr nr v s)"
proof (rule view_eq)
  note c = view_components [OF assms]
  show "gt_isr_proc_list (set_isr nr v s') ! sys_isr (set_isr nr v s) q = gt_isr_proc_list (set_isr nr v s) ! sys_isr (set_isr nr v s) q"
    if "3 \<le> q" "q < 31" for q
    using c(9) [OF that] by (cases "sys_isr s nr < length (gt_isr_proc_list s) \<and> sys_isr s q = sys_isr s nr")
      (auto simp: set_isr_def sys_isr_def c(1,7) nth_list_update_neq not_less list_update_beyond)
qed (simp_all add: set_isr_def view_components [OF assms])

lemma view_set_isr_system: "nr < 3 \<Longrightarrow> view (set_isr nr v s) = view s"
  using sys_isr_inj [of nr _ s] by (intro view_eq) (auto simp: set_isr_def nth_list_update_neq)

lemma view_set_isr_twice: "view (set_isr nr v (set_isr nr w s)) = view (set_isr nr v s)"
  by (simp add: set_isr_def sys_isr_def)

lemma free_irq_view: "view (avia_gt_free_irq (avia_gt_dmx_get_queue_irq (gt_chip s) nr) s) = view (set_isr nr None s)"
  by (rule view_eq) (simp_all add: avia_gt_free_irq_def set_isr_def sys_isr_def)

lemma irq_disable_view: "view (avia_gt_dmx_queue_irq_disable nr s) = view (set_isr nr None s)"
proof -
  define s1 where "s1 = upd_queue nr (\<lambda>q. q\<lparr>running := False\<rparr>) s"
  define s2 where "s2 = (if avia_gt_dmx_queue_is_system_queue nr then s1 else avia_gt_dmx_enable_disable_system_queue_irqs s1)"
  have s2: "view s2 = view s" by (simp add: s2_def s1_def frame_simps view_upd_queue)
  then have "avia_gt_dmx_queue_irq_disable nr s = avia_gt_free_irq (avia_gt_dmx_get_queue_irq (gt_chip s2) nr) s2"
    using view_components(1) [OF s2] by (simp add: avia_gt_dmx_queue_irq_disable_def Let_def s2_def s1_def)
  then show ?thesis using view_set_isr_cong [OF s2, of nr None] by (simp add: free_irq_view)
qed

lemma irq_enable_user:
  assumes nr: "3 \<le> nr" "nr < 31" and enable: "avia_gt_dmx_queue_irq_enable nr s = (r, s')"
    and free: "gt_isr_proc_list s ! sys_isr s nr = None"
  shows "r = Inr 0" "view s' = view (set_isr nr (Some IsrQueue) s)"
proof -
  define s2 where "s2 = avia_gt_dmx_enable_disable_system_queue_irqs (upd_queue nr (\<lambda>q. q\<lparr>running := True\<rparr>) s)"
  have s2: "view s2 = view s" by (simp add: s2_def frame_simps view_upd_queue)
  note c = view_components [OF s2]
  have "gt_isr_proc_list s2 ! sys_isr s2 nr = None" using c(8,9) nr free by simp
  then have "(r, s') = (Inr 0, s2\<lparr>gt_isr_proc_list := (gt_isr_proc_list s2)[sys_isr s2 nr := Some IsrQueue],
      irq_unmasked := (irq_unmasked s2)[sys_isr s2 nr := True]\<rparr>)"
    using enable nr c(1) unfolding avia_gt_dmx_queue_irq_enable_def Let_def s2_def [symmetric]
    by (simp add: avia_gt_dmx_queue_is_system_queue_def gt_consts avia_gt_alloc_irq_def sys_isr_def s2_def [symmetric] Let_def)
  then have eq: "r = Inr 0" "s' = (set_isr nr (Some IsrQueue) s2)\<lparr>irq_unmasked := (irq_unmasked s2)[sys_isr s2 nr := True]\<rparr>"
    by (simp_all add: set_isr_def)
  show "r = Inr 0" by (rule eq(1))
  show "view s' = view (set_isr nr (Some IsrQueue) s)" using view_set_isr_cong [OF s2, of nr "Some IsrQueue"] by (simp add: eq(2) frame_simps)
qed

lemma irq_enable_system:
  assumes "nr < 3" "avia_gt_dmx_queue_irq_enable nr s = (r, s')"
  shows "view s' = view s"
proof -
  let ?s = "upd_queue nr (\<lambda>q. q\<lparr>running := True\<rparr>) s"
  have "(r, s') = avia_gt_alloc_irq (avia_gt_dmx_get_queue_irq (gt_chip s) nr) IsrQueue ?s"
    using assms by (simp add: avia_gt_dmx_queue_irq_enable_def avia_gt_dmx_queue_is_system_queue_def gt_consts Let_def)
  then have "s' = ?s \<or> s' = (set_isr nr (Some IsrQueue) ?s)\<lparr>irq_unmasked := (irq_unmasked ?s)[sys_isr ?s nr := True]\<rparr>"
    by (auto simp: avia_gt_alloc_irq_def set_isr_def sys_isr_def frame_simps split: if_splits)
  then show ?thesis
    using view_set_isr_system [OF assms(1), of _ ?s] by (auto simp: frame_simps view_upd_queue)
qed

lemma alloc_queue_view:
  assumes "avia_gt_dmx_alloc_queue nr ip cb p s = (r, s')"
  shows "r = None \<Longrightarrow> s' = s"
    "r = Some k \<Longrightarrow> k = nr \<and> nr < 32 \<and> \<not> busy (the_queue nr s) \<and> view s' = view (take_queue nr s)"
proof -
  show "r = None \<Longrightarrow> s' = s" using assms by (auto simp: avia_gt_dmx_alloc_queue_def Let_def split: if_splits)
  assume "r = Some k"
  then show "k = nr \<and> nr < 32 \<and> \<not> busy (the_queue nr s) \<and> view s' = view (take_queue nr s)"
    using assms unfolding take_queue_def
    by (auto simp: avia_gt_dmx_alloc_queue_def gt_consts Let_def frame_simps split: if_splits intro!: view_upd_busy)
qed

lemma napi_queue_alloc_view:
  assumes "avia_gt_napi_queue_alloc cb i feed s = (r, s')"
  shows "r = None \<Longrightarrow> s' = s"
    "r = Some nr \<Longrightarrow> nr < 31 \<and> \<not> busy (the_queue nr s) \<and> view s' = view (take_queue nr s) \<and> (feed_type feed = DMX_TYPE_SEC \<longrightarrow> 3 \<le> nr)"
proof -
  have user: "(r = None \<longrightarrow> s' = s) \<and> (r = Some nr \<longrightarrow> 3 \<le> nr \<and> nr < 31 \<and> \<not> busy (the_queue nr s) \<and> view s' = view (take_queue nr s))"
    if a: "avia_gt_dmx_alloc_queue_user None cb (Some i) s = (r, s')"
  proof (cases "find (\<lambda>nr. \<not> busy (the_queue nr s)) [AVIA_GT_DMX_QUEUE_USER_START ..< Suc AVIA_GT_DMX_QUEUE_USER_END]")
    case None
    then show ?thesis using a by (auto simp: avia_gt_dmx_alloc_queue_user_def)
  next
    case (Some k)
    then have k: "3 \<le> k" "k < 31" by (auto simp: find_Some_iff gt_consts nth_append split: if_splits)
    have "avia_gt_dmx_alloc_queue k None cb (Some i) s = (r, s')" using a Some by (simp add: avia_gt_dmx_alloc_queue_user_def)
    then show ?thesis using alloc_queue_view [of k None cb "Some i" s r s'] k by auto
  qed
  show "r = None \<Longrightarrow> s' = s" "r = Some nr \<Longrightarrow> nr < 31 \<and> \<not> busy (the_queue nr s) \<and> view s' = view (take_queue nr s) \<and> (feed_type feed = DMX_TYPE_SEC \<longrightarrow> 3 \<le> nr)"
    using assms user alloc_queue_view [of 0 None cb "Some i" s r s'] alloc_queue_view [of 1 None cb "Some i" s r s'] alloc_queue_view [of 2 None cb "Some i" s r s']
    by (auto simp: avia_gt_napi_queue_alloc_def avia_gt_dmx_alloc_queue_video_def avia_gt_dmx_alloc_queue_audio_def
        avia_gt_dmx_alloc_queue_teletext_def gt_consts split: if_splits)
qed

lemma free_queue_view:
  assumes "nr < 32" "busy (the_queue nr s)"
  shows "fst (avia_gt_dmx_free_queue nr s) = Inr 0" "view (snd (avia_gt_dmx_free_queue nr s)) = view (drop_queue nr s)"
proof -
  show "fst (avia_gt_dmx_free_queue nr s) = Inr 0" using assms by (simp add: avia_gt_dmx_free_queue_def gt_consts)
  have "view (snd (avia_gt_dmx_free_queue nr s)) = view (upd_queue nr (\<lambda>q. q\<lparr>busy := False\<rparr>) (set_isr nr None s))"
    using assms by (simp add: avia_gt_dmx_free_queue_def gt_consts) (rule view_upd_busy; simp add: irq_disable_view)
  also have "\<dots> = view (drop_queue nr s)"
    by (rule view_eq) (simp_all add: drop_queue_def set_isr_def upd_queue_def sys_isr_def)
  finally show "view (snd (avia_gt_dmx_free_queue nr s)) = view (drop_queue nr s)" .
qed

lemma view_ucode_cong:
  assumes "view s' = view s"
  shows "view (s'\<lparr>ucode := u\<rparr>) = view (s\<lparr>ucode := u\<rparr>)"
proof (rule view_eq)
  show "gt_isr_proc_list (s'\<lparr>ucode := u\<rparr>) ! sys_isr (s\<lparr>ucode := u\<rparr>) q = gt_isr_proc_list (s\<lparr>ucode := u\<rparr>) ! sys_isr (s\<lparr>ucode := u\<rparr>) q"
    if "3 \<le> q" "q < 31" for q
    using view_components(9) [OF assms that] by (simp add: sys_isr_def)
qed (simp_all add: view_components [OF assms])

lemma queue_start_view:
  assumes "nr < 32"
  shows "fst (avia_gt_dmx_queue_start nr qm pid s) = Inr 0"
    "view (snd (avia_gt_dmx_queue_start nr qm pid s)) = view (s\<lparr>ucode := prop_ucode_start_queue_feeds nr (ucode s)\<rparr>)"
proof -
  show "fst (avia_gt_dmx_queue_start nr qm pid s) = Inr 0" using assms by (simp add: avia_gt_dmx_queue_start_def gt_consts Let_def)
  obtain s4 where s4: "avia_gt_dmx_queue_start nr qm pid s = (Inr 0, s4\<lparr>ucode := prop_ucode_start_queue_feeds nr (ucode s4)\<rparr>)"
    "view s4 = view s"
    using assms by (simp add: avia_gt_dmx_queue_start_def gt_consts Let_def frame_simps view_upd_queue)
  then show "view (snd (avia_gt_dmx_queue_start nr qm pid s)) = view (s\<lparr>ucode := prop_ucode_start_queue_feeds nr (ucode s)\<rparr>)"
    using view_components(3) [OF s4(2)] view_ucode_cong [OF s4(2)] by simp
qed

lemma queue_stop_view:
  assumes "nr < 32"
  shows "view (snd (avia_gt_dmx_queue_stop nr s)) = view ((set_isr nr None s)\<lparr>ucode := prop_ucode_stop_queue_feeds nr True (ucode s)\<rparr>)"
proof -
  let ?s = "avia_gt_dmx_queue_irq_disable nr (upd_queue nr (\<lambda>q. q\<lparr>q_pid := 0xFFFF\<rparr>) s)"
  have "view (upd_queue nr (\<lambda>q. q\<lparr>q_pid := 0xFFFF\<rparr>) s) = view s" by (simp add: view_upd_queue)
  then have v: "view ?s = view (set_isr nr None s)"
    using view_set_isr_cong [of "upd_queue nr (\<lambda>q. q\<lparr>q_pid := 0xFFFF\<rparr>) s" s nr None] by (simp only: irq_disable_view)
  have "ucode ?s = ucode s" using view_components(3) [OF v] by (simp add: set_isr_def)
  then show ?thesis
    using assms view_ucode_cong [OF v] by (simp add: avia_gt_dmx_queue_stop_def gt_consts Let_def)
qed


lemma user_isr_upd_queue: "user_isr (upd_queue nr f s) = user_isr s"
  by (simp add: user_isr_def fun_eq_iff frame_simps)

lemma user_isr_set:
  assumes "length (gt_isr_proc_list s) = 128" "nr < 31"
  shows "user_isr (set_isr nr v s) = (if 3 \<le> nr then (user_isr s)(nr := v) else user_isr s)"
proof
  fix q
  have "sys_isr s q = sys_isr s nr \<longleftrightarrow> q = nr" if "q < 31" using that assms(2) by (simp add: sys_isr_inj)
  then show "user_isr (set_isr nr v s) q = (if 3 \<le> nr then (user_isr s)(nr := v) else user_isr s) q"
    using assms sys_isr_less [of nr s] by (auto simp: user_isr_def set_isr_def nth_list_update_neq) (auto simp: sys_isr_def)
qed

lemma view_take: "view s = (b, c, p, u, l, isr) \<Longrightarrow> view (take_queue nr s) = (b[nr := True], c, p, u, l, isr)"
  by (auto simp: view_def take_queue_def frame_simps user_isr_upd_queue) (simp add: upd_queue_def map_update)

lemma view_set_isr:
  assumes "view s = (b, c, p, u, 128, isr)" "nr < 31"
  shows "view (set_isr nr v s) = (b, c, p, u, 128, if 3 \<le> nr then isr(nr := v) else isr)"
  using assms user_isr_set [of s nr v] by (auto simp: view_def) (simp_all add: set_isr_def)

lemma user_isr_ucode: "user_isr (s\<lparr>ucode := u\<rparr>) = user_isr s"
  by (simp add: user_isr_def sys_isr_def fun_eq_iff)

lemma view_ucode: "view s = (b, c, p, u, l, isr) \<Longrightarrow> view (s\<lparr>ucode := u'\<rparr>) = (b, c, p, u', l, isr)"
  by (auto simp: view_def user_isr_ucode)

lemma view_drop:
  assumes "view s = (b, c, p, u, 128, isr)" "nr < 31"
  shows "view (drop_queue nr s) = (b[nr := False], c, p, u, 128, if 3 \<le> nr then isr(nr := None) else isr)"
proof -
  have "view (upd_queue nr (\<lambda>q. q\<lparr>busy := False\<rparr>) s) = (b[nr := False], c, p, u, 128, isr)"
    using assms(1) by (auto simp: view_def frame_simps user_isr_upd_queue) (simp add: upd_queue_def map_update)
  then show ?thesis unfolding drop_queue_def by (rule view_set_isr) (rule assms(2))
qed

lemma view_busy: "view s = (b, c, p, u, l, isr) \<Longrightarrow> nr < length b \<Longrightarrow> busy (the_queue nr s) = b ! nr"
  by (auto simp: view_def the_queue_def)

end
