(* ===== verification/Avia_Gt_Napi_Resources.thy ===== *)
theory Avia_Gt_Napi_Resources
  imports Avia_Gt_Napi_View
begin

text \<open>
  Who holds what: no sequence of starting and stopping feeds loses a user queue, a feed of the microcode or
  a section filter, whatever fails in between.
\<close>

section \<open>No leaks\<close>

type_synonym gt_view = "bool list \<times> gt_chip_type \<times> nat \<times> ucode_state \<times> nat \<times> (nat \<Rightarrow> gt_isr option)"

text \<open>The clock reference interrupt is none of a queue; a free queue has no interrupt, PID or feed.\<close>

definition view_ok :: "gt_view \<Rightarrow> u16 list \<Rightarrow> bool" where
  "view_ok = (\<lambda>(b, c, p, u, l, isr) t.
     length b = 32 \<and> l = 128 \<and> length t = 32 \<and> (\<forall>q < 32. isr_nr p \<noteq> isr_nr (avia_gt_dmx_get_queue_irq c q))
     \<and> uc_inv {} ((!) b) u \<and> (\<forall>q. 3 \<le> q \<and> q < 31 \<and> \<not> b ! q \<longrightarrow> isr q = None) \<and> (\<forall>q < 31. \<not> b ! q \<longrightarrow> t ! q = 0xffff))"

definition napi_view :: "napi_state \<Rightarrow> gt_view" where
  "napi_view n = view (np_gt n)"

definition busy_list :: "napi_state \<Rightarrow> bool list" where
  "busy_list n = map busy (queue_list (np_gt n))"

lemma napi_view_busy: "napi_view n = (b, r) \<Longrightarrow> busy_list n = b"
  by (auto simp: napi_view_def busy_list_def view_def)

lemma napi_view_isr: "napi_view n = (b, c, p, u, l, isr) \<Longrightarrow> user_isr (np_gt n) = isr"
  by (simp add: napi_view_def view_def)

text \<open>A start function gives everything back, or has a queue for the feed.\<close>

definition napi_ok :: "napi_state \<Rightarrow> bool" where
  "napi_ok n \<longleftrightarrow> view_ok (napi_view n) (ts_pid_of n)"

definition kept :: "napi_state \<Rightarrow> napi_state \<Rightarrow> bool" where
  "kept n n' \<longleftrightarrow> napi_ok n' \<and> busy_list n' = busy_list n \<and> np_priv n' = np_priv n
     \<and> user_isr (np_gt n') = user_isr (np_gt n)"

definition got :: "nat \<Rightarrow> nat \<Rightarrow> dvb_demux_feed \<Rightarrow> napi_state \<Rightarrow> napi_state \<Rightarrow> bool" where
  "got nr i feed n n' \<longleftrightarrow> napi_ok n' \<and> nr < 31 \<and> (feed_type feed = DMX_TYPE_SEC \<longrightarrow> 3 \<le> nr)
     \<and> \<not> busy_list n ! nr \<and> busy_list n' = (busy_list n)[nr := True] \<and> np_priv n' = (np_priv n)[i := Some nr]
     \<and> user_isr (np_gt n') nr = None"

lemma view_ok_taken:
  assumes "view_ok (b, c, p, u, l, isr) t" "nr < 31" "uc_inv {} ((!) (b[nr := True])) u'" "length t' = 32" "\<And>q. q \<noteq> nr \<Longrightarrow> t' ! q = t ! q"
  shows "view_ok (b[nr := True], c, p, u', l, isr) t'"
  using assms by (auto simp: view_ok_def nth_list_update)

lemma uc_inv_taken:
  assumes "uc_inv X ((!) b) u"
  shows "uc_inv X ((!) (b[nr := True])) u"
proof -
  have "b[nr := True] ! q" if "b ! q" for q
    using that by (cases "nr < length b"; cases "q = nr") (auto simp: list_update_beyond)
  then show ?thesis using uc_inv_mono [OF assms] by blast
qed

lemma claim_queue_effect:
  assumes ok: "napi_ok n" and claim: "claim_queue cb qm i feed n = (r, n')"
  shows "r = None \<Longrightarrow> kept n n'" "r = Some nr \<Longrightarrow> got nr i feed n n'"
proof -
  obtain b c p u l isr where v: "view (np_gt n) = (b, c, p, u, l, isr)" by (metis prod_cases6)
  have vok: "view_ok (b, c, p, u, l, isr) (ts_pid_of n)" using ok v by (simp add: napi_ok_def napi_view_def)
  then have l: "length b = 32" "l = 128" "uc_inv {} ((!) b) u" "length (ts_pid_of n) = 32" by (auto simp: view_ok_def)
  have bl: "busy_list n = b" and isr: "user_isr (np_gt n) = isr" using v by (simp_all add: view_def busy_list_def)
  obtain k s where alloc: "avia_gt_napi_queue_alloc cb i feed (np_gt n) = (k, s)" by fastforce
  have "(r = None \<longrightarrow> kept n n') \<and> (r = Some nr \<longrightarrow> got nr i feed n n')"
  proof (cases k)
    case None
    then have "r = None" "n' = n" using claim alloc napi_queue_alloc_view(1) [OF alloc] by (simp_all add: claim_queue_def)
    then show ?thesis using ok by (simp add: kept_def)
  next
    case (Some m)
    have m: "m < 31" "\<not> b ! m" "view s = (b[m := True], c, p, u, l, isr)" "feed_type feed = DMX_TYPE_SEC \<longrightarrow> 3 \<le> m"
      using napi_queue_alloc_view(2) [OF alloc Some] view_take [OF v, of m] view_busy [OF v, of m] l(1) by auto
    have us: "ucode s = u" using m(3) by (simp add: view_def)
    have free: "3 \<le> m \<Longrightarrow> isr m = None" using vok m(1,2) by (simp add: view_ok_def)
    obtain e u' where af: "prop_ucode_alloc_feed m qm (feed_pid16 feed) u = (e, u')" by fastforce
    note af' = af [unfolded prop_ucode_alloc_feed_def]
    let ?s = "\<lambda>x. upd_queue m (\<lambda>q. q\<lparr>feed_idx := x\<rparr>) (s\<lparr>ucode := u'\<rparr>)"
    have vs: "view (?s x) = (b[m := True], c, p, u', l, isr)" for x
      using view_ucode [OF m(3), of u'] by (simp add: view_upd_queue)
    show ?thesis
    proof (cases e)
      case None
      have n': "r = None" "n' = n\<lparr>np_gt := snd (avia_gt_dmx_free_queue m (?s 255))\<rparr>"
        using claim alloc Some None af us by (simp_all add: claim_queue_def)
      have "u' = u\<lparr>irqs_off := True\<rparr>" using af' None by (cases rule: alloc_generic_feed_cases) auto
      then have "uc_inv {} ((!) b) u'" using l(3) by (simp add: uc_inv_frame [of "u\<lparr>irqs_off := True\<rparr>" u])
      moreover have "view (snd (avia_gt_dmx_free_queue m (?s 255))) = (b, c, p, u', l, isr)"
        using free_queue_view(2) [of m "?s 255"] view_drop [OF vs [unfolded l(2)] m(1), of 255] view_busy [OF vs, of m 255] m l free
        by (auto simp: list_update_same_conv fun_upd_idem)
      ultimately have "napi_ok n'" using vok by (simp add: napi_ok_def napi_view_def n' view_ok_def)
      then show ?thesis using n' \<open>view (snd (avia_gt_dmx_free_queue m (?s 255))) = (b, c, p, u', l, isr)\<close>
          napi_view_busy [of n' b] napi_view_isr [of n' b] isr by (auto simp: kept_def napi_view_def bl)
    next
      case (Some x)
      have n': "r = Some m" "n' = n\<lparr>np_gt := ?s x, np_priv := (np_priv n)[i := Some m]\<rparr>"
        using claim alloc \<open>k = Some m\<close> Some af us by (auto simp: claim_queue_def)
      have "uc_inv {} ((!) (b[m := True])) u'"
        using uc_alloc_feed(2) [OF _ af', of "(!) (b[m := True])" x] uc_inv_taken [OF l(3)] m(1) l(1) Some by simp
      then have "napi_ok n'"
        using view_ok_taken [OF vok m(1), of u' "ts_pid_of n"] vs [of x] l by (simp add: napi_ok_def napi_view_def n')
      moreover have "user_isr (np_gt n') = isr" "busy_list n' = b[m := True]" using vs [of x] by (simp_all add: n' view_def busy_list_def)
      then have "user_isr (np_gt n') m = None" using free m(1) by (auto simp: user_isr_def)
      ultimately show ?thesis using n' m \<open>busy_list n' = b[m := True]\<close> by (auto simp: got_def bl)
    qed
  qed
  then show "r = None \<Longrightarrow> kept n n'" "r = Some nr \<Longrightarrow> got nr i feed n n'" by blast+
qed


lemma kept_trans: "kept n n1 \<Longrightarrow> kept n1 n2 \<Longrightarrow> kept n n2"
  by (simp add: kept_def)

lemma got_kept: "got nr i feed n n1 \<Longrightarrow> kept n1 n2 \<Longrightarrow> got nr i feed n n2"
  by (simp add: got_def kept_def)

lemma keptI:
  assumes "napi_ok n" "view (np_gt n') = view (np_gt n)" "ts_pid_of n' = ts_pid_of n" "np_priv n' = np_priv n"
  shows "kept n n'"
  using assms by (auto simp: kept_def napi_ok_def napi_view_def busy_list_def view_def)

lemma kept_ucode:
  assumes ok: "napi_ok n" and v: "view (np_gt n') = view ((np_gt n)\<lparr>ucode := u\<rparr>)" "ts_pid_of n' = ts_pid_of n" "np_priv n' = np_priv n"
    and u: "\<And>X taken. uc_inv X taken u = uc_inv X taken (ucode (np_gt n))"
  shows "kept n n'"
proof -
  obtain b c p u0 l isr where v0: "view (np_gt n) = (b, c, p, u0, l, isr)" by (metis prod_cases6)
  have v': "view (np_gt n') = (b, c, p, u, l, isr)" using v(1) view_ucode [OF v0] by simp
  have "ucode (np_gt n) = u0" using v0 by (simp add: view_def)
  then have "napi_ok n'" using ok u v(2) v0 v' by (simp add: napi_ok_def napi_view_def view_ok_def)
  then show ?thesis using v0 v' v(3) by (auto simp: kept_def busy_list_def view_def)
qed

lemma run_queue_effect:
  assumes "napi_ok n" "nr < 31" "run_queue nr qm feed n = (r, n')"
  shows "r = Inr 0" "kept n n'"
proof -
  have n': "r = fst (avia_gt_dmx_queue_start nr qm (feed_pid16 feed) (np_gt n))"
    "n' = n\<lparr>np_gt := snd (avia_gt_dmx_queue_start nr qm (feed_pid16 feed) (np_gt n))\<rparr>"
    using assms(3) by (auto simp: run_queue_def split: prod.splits)
  show "r = Inr 0" using queue_start_view(1) [of nr] assms(2) n' by simp
  show "kept n n'"
    by (rule kept_ucode [OF assms(1), where u = "prop_ucode_start_queue_feeds nr (ucode (np_gt n))"]) (use assms(2) queue_start_view(2) [of nr] n' in \<open>simp_all add: frame_simps\<close>)
qed

lemma ts_pid_kept:
  assumes "napi_ok n" "busy_list n ! nr" "n' = n\<lparr>ts_pid_of := (ts_pid_of n)[nr := pid]\<rparr>"
  shows "kept n n'"
proof -
  obtain b c p u l isr where v: "view (np_gt n) = (b, c, p, u, l, isr)" by (metis prod_cases6)
  have "busy_list n = b" using v by (simp add: view_def busy_list_def)
  then have "napi_ok n'"
    using assms v by (auto simp: napi_ok_def napi_view_def view_ok_def) (metis nth_list_update_neq)
  then show ?thesis using assms(3) by (simp add: kept_def busy_list_def)
qed

text \<open>Whatever happens to the other drivers, the queues are as before.\<close>

lemma av_kept: "napi_ok n \<Longrightarrow> kept n (n\<lparr>np_av := a\<rparr>)" "napi_ok n \<Longrightarrow> kept n (start_decoder feed n)"
  by (rule keptI; simp add: start_decoder_def)+

definition outcome_of :: "nat \<Rightarrow> dvb_demux_feed \<Rightarrow> napi_state \<Rightarrow> cret \<times> napi_state \<Rightarrow> bool" where
  "outcome_of i feed n = (\<lambda>(r, n'). r = Inl EBUSY \<and> kept n n' \<or> r = Inr 0 \<and> (\<exists>nr. got nr i feed n n'))"

lemma outcome_kept: "kept n n1 \<Longrightarrow> outcome_of i feed n1 o' \<Longrightarrow> outcome_of i feed n o'"
  by (auto simp: outcome_of_def kept_def got_def)

lemma run_queue_outcome:
  assumes "got nr i feed n n1" "kept n1 n2"
  shows "outcome_of i feed n (run_queue nr qm feed n2)"
proof -
  obtain r n' where run: "run_queue nr qm feed n2 = (r, n')" by fastforce
  have "napi_ok n2" "nr < 31" using assms by (simp_all add: kept_def got_def)
  then show ?thesis
    using run_queue_effect [OF _ _ run] got_kept [OF assms(1) kept_trans [OF assms(2)]] run by (auto simp: outcome_of_def)
qed

lemma start_generic_outcome:
  assumes "napi_ok n"
  shows "outcome_of i feed n (avia_gt_napi_start_feed_generic i feed n)"
proof -
  obtain k n1 where claim: "claim_queue (Some CALLBACK_GENERIC) TS i feed n = (k, n1)" by fastforce
  note e = claim_queue_effect [OF assms claim]
  show ?thesis
  proof (cases k)
    case None
    then show ?thesis using e(1) claim by (simp add: avia_gt_napi_start_feed_generic_def outcome_of_def)
  next
    case (Some nr)
    then have "got nr i feed n n1" "napi_ok n1" using e(2) by (auto simp: got_def)
    then show ?thesis
      using run_queue_outcome [OF _ av_kept(2)] claim Some by (simp add: avia_gt_napi_start_feed_generic_def)
  qed
qed


lemma start_ts_outcome:
  assumes "napi_ok n"
  shows "outcome_of i feed n (avia_gt_napi_start_feed_ts src i feed n)"
proof (cases "CAP_TS \<in> set (caps (ucode (np_gt n)))")
  case False
  then show ?thesis using start_generic_outcome [OF assms] by (simp add: avia_gt_napi_start_feed_ts_def)
next
  case True
  obtain k n1 where claim: "claim_queue (if src = DMX_MEMORY_FE then None else Some CALLBACK_TS_PES) TS i feed n = (k, n1)" by fastforce
  note e = claim_queue_effect [OF assms claim]
  show ?thesis
  proof (cases k)
    case None
    then show ?thesis using e(1) claim True by (simp add: avia_gt_napi_start_feed_ts_def outcome_of_def)
  next
    case (Some nr)
    then have g: "got nr i feed n n1" "napi_ok n1" using e(2) by (auto simp: got_def)
    define n2 where "n2 = (if ts_type feed AND TS_DECODER = 0 then n1
              else if pes_type feed \<in> {DMX_TS_PES_AUDIO, DMX_TS_PES_VIDEO}
              then n1\<lparr>np_av := np_av n1 @ [DecoderStart (pes_type feed) (feed_pid feed) (ts_type feed)]\<rparr>
              else if pes_type feed = DMX_TS_PES_TELETEXT then n1\<lparr>np_av := np_av n1 @ [VbiStart]\<rparr>
              else n1)"
    have n2: "kept n1 n2" using g(2) av_kept(1) keptI [of n1 n1] by (simp add: n2_def)
    have "length (busy_list n) = 32" using g(2) assms by (auto simp: napi_ok_def napi_view_def view_def view_ok_def busy_list_def)
    then have "busy_list n1 ! nr" using g(1) by (simp add: got_def)
    then have "kept n2 (n2\<lparr>ts_pid_of := (ts_pid_of n2)[nr := feed_pid16 feed]\<rparr>)"
      using n2 by (intro ts_pid_kept [OF _ _ refl]) (simp_all add: kept_def)
    moreover have "avia_gt_napi_start_feed_ts src i feed n
        = run_queue nr TS feed (n2\<lparr>ts_pid_of := (ts_pid_of n2)[nr := feed_pid16 feed]\<rparr>)"
      using True claim Some by (simp add: avia_gt_napi_start_feed_ts_def n2_def)
    ultimately show ?thesis using run_queue_outcome [OF g(1) kept_trans [OF n2]] by simp
  qed
qed

lemma start_pes_outcome:
  assumes "napi_ok n"
  shows "outcome_of i feed n (avia_gt_napi_start_feed_pes i feed n)"
proof (cases "CAP_PES \<in> set (caps (ucode (np_gt n))) \<and> \<not> (\<exists>k < AVIA_GT_DMX_QUEUE_COUNT. ts_pid_of n ! k = feed_pid16 feed)")
  case False
  then have "avia_gt_napi_start_feed_pes i feed n = avia_gt_napi_start_feed_generic i feed n"
    unfolding avia_gt_napi_start_feed_pes_def by argo
  then show ?thesis using start_generic_outcome [OF assms] by simp
next
  case True
  obtain k n1 where claim: "claim_queue (Some CALLBACK_TS_PES) PES i feed n = (k, n1)" by fastforce
  note e = claim_queue_effect [OF assms claim]
  have "avia_gt_napi_start_feed_pes i feed n = (case (k, n1) of
          (None, n1) \<Rightarrow> (Inl EBUSY, n1) | (Some nr, n1) \<Rightarrow> run_queue nr PES feed (start_decoder feed n1))"
    using True claim unfolding avia_gt_napi_start_feed_pes_def by argo
  then show ?thesis
    using e run_queue_outcome [OF _ av_kept(2)] by (cases k) (auto simp: outcome_of_def got_def)
qed

text \<open>A section feed holds its filters until the microcode feed takes them over.\<close>

lemma start_section_outcome:
  assumes ok: "napi_ok n" and sec: "feed_type feed = DMX_TYPE_SEC"
  shows "outcome_of i feed n (avia_gt_napi_start_feed_section junk fs i feed n)"
proof (cases "CAP_SEC \<in> set (caps (ucode (np_gt n)))")
  case False
  then show ?thesis using start_generic_outcome [OF ok] by (simp add: avia_gt_napi_start_feed_section_def)
next
  case True
  obtain b c p u l isr where v: "view (np_gt n) = (b, c, p, u, l, isr)" by (metis prod_cases6)
  have vok: "view_ok (b, c, p, u, l, isr) (ts_pid_of n)" using ok v by (simp add: napi_ok_def napi_view_def)
  then have l: "length b = 32" "l = 128" "uc_inv {} ((!) b) u" "length (ts_pid_of n) = 32" by (auto simp: view_ok_def)
  have bl: "busy_list n = b" "user_isr (np_gt n) = isr" "ucode (np_gt n) = u" using v by (simp_all add: view_def busy_list_def)
  obtain r1 u1 where af: "prop_ucode_alloc_section_filter junk fs u = (r1, u1)" by fastforce
  note fl = uc_alloc_filter [OF l(3) af]
  show ?thesis
  proof (cases r1)
    case None
    then have "avia_gt_napi_start_feed_section junk fs i feed n = avia_gt_napi_start_feed_generic i feed n"
      using True af fl(2) by (simp add: avia_gt_napi_start_feed_section_def flip: bl(3))
    then show ?thesis using start_generic_outcome [OF ok] by simp
  next
    case (Some sc)
    have f1: "uc_inv {sec_idx sc} ((!) b) u1" "held sc u1" "\<forall>f \<in> set (ucode_feed u1). section_idx f \<noteq> sec_idx sc"
      using fl(3) Some by auto
    obtain k s where alloc: "avia_gt_napi_queue_alloc (Some CALLBACK_SECTION) i feed ((np_gt n)\<lparr>ucode := u1\<rparr>) = (k, s)" by fastforce
    note v1 = view_ucode [OF v, of u1]
    show ?thesis
    proof (cases k)
      case None
      let ?n = "n\<lparr>np_gt := s\<lparr>ucode := prop_ucode_free_section_filter (sec_idx sc) (ucode s)\<rparr>\<rparr>"
      have s: "s = (np_gt n)\<lparr>ucode := u1\<rparr>" using napi_queue_alloc_view(1) [OF alloc None] .
      have "uc_inv {} ((!) b) (prop_ucode_free_section_filter (sec_idx sc) u1)" using uc_free_filter [OF f1(1,3)] .
      then have "kept n ?n"
        using vok view_ucode [OF v] bl by (simp add: kept_def napi_ok_def napi_view_def view_ok_def s user_isr_ucode busy_list_def)
      then show ?thesis using True af bl(3) Some alloc None by (simp add: avia_gt_napi_start_feed_section_def outcome_of_def)
    next
      case (Some m)
      have m: "m < 31" "3 \<le> m" "\<not> b ! m" "view s = (b[m := True], c, p, u1, l, isr)"
        using napi_queue_alloc_view(2) [OF alloc Some] view_take [OF v1, of m] view_busy [OF v1, of m] l(1) sec by auto
      have us: "ucode s = u1" using m(4) by (simp add: view_def)
      have free: "isr m = None" using vok m(1-3) by (simp add: view_ok_def)
      obtain e u2 where ag: "prop_ucode_alloc_generic_feed m SECTION (Some sc) (feed_pid16 feed) u1 = (e, u2)" by fastforce
      have inv: "uc_inv {sec_idx sc} ((!) (b[m := True])) u1" using uc_inv_taken [OF f1(1)] .
      show ?thesis
      proof (cases e)
        case None
        let ?s = "s\<lparr>ucode := prop_ucode_free_section_filter (sec_idx sc) u2\<rparr>"
        let ?n = "n\<lparr>np_gt := snd (avia_gt_dmx_free_queue m ?s)\<rparr>"
        have u2: "u2 = u1\<lparr>irqs_off := True\<rparr>" using ag None by (cases rule: alloc_generic_feed_cases) auto
        have "uc_inv {sec_idx sc} ((!) b) u2" using f1(1) by (simp add: u2 uc_inv_frame [of "u1\<lparr>irqs_off := True\<rparr>" u1])
        then have u3: "uc_inv {} ((!) b) (prop_ucode_free_section_filter (sec_idx sc) u2)"
          using uc_free_filter f1(3) by (simp add: u2)
        note vs = view_ucode [OF m(4), of "prop_ucode_free_section_filter (sec_idx sc) u2"]
        have "view (snd (avia_gt_dmx_free_queue m ?s)) = (b, c, p, prop_ucode_free_section_filter (sec_idx sc) u2, l, isr)"
          using free_queue_view(2) [of m ?s] view_drop [OF vs [unfolded l(2)] m(1)] view_busy [OF vs, of m] m l free
          by (auto simp: list_update_same_conv fun_upd_idem)
        then have "kept n ?n"
          using vok u3 napi_view_busy [of ?n b] napi_view_isr [of ?n b] bl by (simp add: kept_def napi_ok_def napi_view_def view_ok_def)
        then show ?thesis using True af bl(3) \<open>r1 = Some sc\<close> alloc Some ag None us
          by (simp add: avia_gt_napi_start_feed_section_def prop_ucode_alloc_section_feed_def outcome_of_def)
      next
        case e: (Some x)
        let ?n = "n\<lparr>np_gt := s\<lparr>ucode := u2\<rparr>, np_priv := (np_priv n)[i := Some m]\<rparr>"
        have "uc_inv {} ((!) (b[m := True])) u2"
          using uc_alloc_feed(2) [OF _ ag, of "(!) (b[m := True])" x] inv m f1(2) l(1) e by simp
        then have "got m i feed n ?n"
          using view_ok_taken [OF vok m(1), of u2 "ts_pid_of n"] view_ucode [OF m(4), of u2] l m free bl
            napi_view_busy [of ?n "b[m := True]"] napi_view_isr [of ?n "b[m := True]"]
          by (simp add: got_def napi_ok_def napi_view_def)
        moreover from this have "kept ?n ?n" by (simp add: got_def kept_def)
        ultimately show ?thesis
          using run_queue_outcome [of m i feed n ?n ?n SECTION] True af bl(3) \<open>r1 = Some sc\<close> alloc Some ag e us
          by (simp add: avia_gt_napi_start_feed_section_def prop_ucode_alloc_section_feed_def)
      qed
    qed
  qed
qed


lemma tap_kept:
  assumes "napi_ok n"
  shows "kept n (tap_user_queue start feed n)"
proof -
  have "kept n (n\<lparr>np_gt := avia_gt_dmx_tap k start (np_gt n)\<rparr>)" for k
  proof (rule kept_ucode [OF assms, where u = "if start then prop_ucode_start_feed (feed_idx (the_queue k (np_gt n))) True (ucode (np_gt n))
      else prop_ucode_stop_feed (feed_idx (the_queue k (np_gt n))) False (ucode (np_gt n))"])
  qed (simp_all add: avia_gt_dmx_tap_def frame_simps)
  then show ?thesis using keptI [OF assms, of n] by (simp add: tap_user_queue_def split: option.split)
qed

lemma pcr_kept:
  assumes ok: "napi_ok n"
  shows "kept n (n\<lparr>np_gt := avia_gt_dmx_set_pcr_pid e pid (np_gt n)\<rparr>)"
proof (rule keptI [OF ok])
  let ?s = "np_gt n"
  have ne: "isr_nr (irq_pcr ?s) \<noteq> sys_isr ?s q" if "q < 31" for q
    using ok that by (auto simp: napi_ok_def napi_view_def view_ok_def view_def sys_isr_def)
  have irqs: "view (avia_gt_free_irq (irq_pcr ?s) s) = view s" "view (snd (avia_gt_alloc_irq (irq_pcr ?s) IsrPcr s)) = view s"
    if "gt_chip s = gt_chip ?s" for s
    using that ne by (auto intro!: view_eq simp: avia_gt_free_irq_def avia_gt_alloc_irq_def sys_isr_def nth_list_update_neq)
  have "gt_chip (avia_gt_free_irq (irq_pcr ?s) (?s\<lparr>pcr_pid := (e, pid)\<rparr>)) = gt_chip ?s" by (simp add: avia_gt_free_irq_def)
  then show "view (np_gt (n\<lparr>np_gt := avia_gt_dmx_set_pcr_pid e pid ?s\<rparr>)) = view (np_gt n)"
    by (simp add: avia_gt_dmx_set_pcr_pid_def avia_gt_dmx_force_discontinuity_def frame_simps Let_def irqs)
qed simp_all

lemma start_stream_outcome:
  assumes "napi_ok n"
  shows "outcome_of i feed n (start_stream src i feed n)"
proof -
  obtain r n1 where o': "(if ts_type feed AND TS_PAYLOAD_ONLY \<noteq> 0 then avia_gt_napi_start_feed_pes i feed n
      else avia_gt_napi_start_feed_ts src i feed n) = (r, n1)" by fastforce
  then have out: "outcome_of i feed n (r, n1)"
    using start_pes_outcome [OF assms, of i feed] start_ts_outcome [OF assms, of i feed src] by (simp split: if_splits)
  then have "napi_ok n1" by (auto simp: outcome_of_def kept_def got_def)
  then have "kept n1 (tap_user_queue False feed n1)" by (rule tap_kept)
  then show ?thesis
    using out unfolding start_stream_def o' by (auto simp: outcome_of_def intro: got_kept)
qed

text \<open>
  The last step, the interrupt, cannot fail for a user queue. For a system queue it can; the queue is then
  taken although the feed is not started.
\<close>

definition started :: "nat \<Rightarrow> napi_state \<Rightarrow> napi_state \<Rightarrow> nat \<Rightarrow> bool" where
  "started i n n' nr \<longleftrightarrow> napi_ok n' \<and> nr < 31 \<and> \<not> busy_list n ! nr \<and> busy_list n' = (busy_list n)[nr := True]
     \<and> np_priv n' = (np_priv n)[i := Some nr]"

lemma finish_start_effect:
  assumes out: "outcome_of i feed n o'" and i: "i < length (np_priv n)"
  obtains n' where "finish_start i feed o' = Some (Inl EBUSY, n')" "kept n n'"
    | n' nr where "finish_start i feed o' = Some (Inr 0, n')" "started i n n' nr"
    | n' nr where "finish_start i feed o' = Some (Inl EBUSY, n')" "started i n n' nr" "nr < 3"
proof -
  obtain r n1 where o': "o' = (r, n1)" by fastforce
  consider "r = Inl EBUSY" "kept n n1" | nr where "r = Inr 0" "got nr i feed n n1" using out o' by (auto simp: outcome_of_def)
  then show ?thesis
  proof cases
    case 1
    then show ?thesis using that(1) by (simp add: o' finish_start_def)
  next
    case (2 nr)
    show ?thesis
    proof (cases "feed_type feed = DMX_TYPE_SEC \<or> ts_type feed AND TS_PACKET \<noteq> 0")
      case False
      then have "finish_start i feed o' = Some (Inr 0, n1)" using 2 by (simp add: o' finish_start_def)
      moreover have "started i n n1 nr" using 2 by (simp add: got_def started_def)
      ultimately show ?thesis using that(2) by blast
    next
      case True
      obtain r' s where e: "avia_gt_dmx_queue_irq_enable nr (np_gt n1) = (r', s)" by fastforce
      let ?n = "n1\<lparr>np_gt := s\<rparr>"
      have fin: "finish_start i feed o' = Some (r', ?n)"
        using True 2 i e by (simp add: o' finish_start_def got_def)
      obtain b c p u l isr where v: "view (np_gt n1) = (b, c, p, u, l, isr)" by (metis prod_cases6)
      have vok: "view_ok (b, c, p, u, l, isr) (ts_pid_of n1)" using 2 v by (simp add: got_def napi_ok_def napi_view_def)
      have b: "b = (busy_list n)[nr := True]" "length b = 32" using 2 v vok by (auto simp: got_def busy_list_def view_def view_ok_def)
      have nr: "nr < 31" "user_isr (np_gt n1) nr = None" "np_priv n1 = (np_priv n)[i := Some nr]" "\<not> busy_list n ! nr"
        using 2 by (simp_all add: got_def)
      show ?thesis
      proof (cases "nr < 3")
        case True
        have "view s = (b, c, p, u, l, isr)" using irq_enable_system [OF True e] v by simp
        then have "started i n ?n nr"
          using vok nr b by (auto simp: started_def napi_ok_def napi_view_def busy_list_def view_def)
        moreover have "r' = Inr 0 \<or> r' = Inl EBUSY"
          using e by (auto simp: avia_gt_dmx_queue_irq_enable_def avia_gt_alloc_irq_def Let_def split: if_splits)
        ultimately show ?thesis using that(2,3) fin True by metis
      next
        case False
        then have "gt_isr_proc_list (np_gt n1) ! sys_isr (np_gt n1) nr = None" using nr(1,2) by (simp add: user_isr_def)
        then have r': "r' = Inr 0" "view s = (b, c, p, u, l, isr(nr := Some IsrQueue))"
          using irq_enable_user [OF _ nr(1) e] view_set_isr [of "np_gt n1" b c p u isr nr "Some IsrQueue"] False nr(1) vok v
          by (auto simp: view_ok_def)
        moreover have "busy_list n1 ! nr" using b nr(1) v by (simp add: busy_list_def view_def)
        ultimately have "started i n ?n nr"
          using vok nr b by (auto simp: started_def napi_ok_def napi_view_def busy_list_def view_def view_ok_def)
        then show ?thesis using that(2) fin r' by metis
      qed
    qed
  qed
qed


section \<open>Starting and stopping\<close>

text \<open>Whether a feed has a queue while it is started.\<close>

definition needs_queue :: "dmx_frontend_source \<Rightarrow> dvb_demux_feed \<Rightarrow> bool" where
  "needs_queue src feed \<longleftrightarrow> (src = DMX_MEMORY_FE \<longrightarrow> avia_gt_napi_is_clipmode_feed feed)
     \<and> \<not> (pcr_feed feed \<and> ts_type feed AND TS_PACKET = 0)"

lemma ts_type_bits:
  "(t OR TS_PAYLOAD_ONLY) AND TS_PACKET = t AND TS_PACKET" "(t OR TS_PAYLOAD_ONLY) AND TS_DECODER = t AND TS_DECODER"
  by (simp_all add: TS_PAYLOAD_ONLY_def TS_PACKET_def TS_DECODER_def bit.conj_disj_distrib2)

lemma prepare_feed_effect:
  assumes "napi_ok n" "prepare_feed src feed n = (feed', n')"
  shows "kept n n'" "needs_queue src feed' = needs_queue src feed" "pcr_feed feed' = pcr_feed feed"
    "feed_type feed' = feed_type feed" "ts_type feed' AND TS_PACKET = ts_type feed AND TS_PACKET"
proof -
  show "kept n n'" using assms keptI [of n] by (auto simp: prepare_feed_def split: if_splits)
  have "feed' = feed \<or> feed' = feed\<lparr>ts_type := ts_type feed OR TS_PAYLOAD_ONLY\<rparr>"
    using assms(2) by (auto simp: prepare_feed_def split: if_splits)
  then show "needs_queue src feed' = needs_queue src feed" "pcr_feed feed' = pcr_feed feed"
    "feed_type feed' = feed_type feed" "ts_type feed' AND TS_PACKET = ts_type feed AND TS_PACKET"
    by (auto simp: needs_queue_def pcr_feed_def decoder_feed_def avia_gt_napi_is_clipmode_feed_def ts_type_bits)
qed

lemma started_kept: "kept n n1 \<Longrightarrow> started i n1 n2 nr \<Longrightarrow> started i n n2 nr"
  by (simp add: kept_def started_def)

lemma start_feed_effect:
  assumes ok: "napi_ok n" and i: "i < length (np_priv n)"
  obtains (none) r feed' n' where "avia_gt_napi_start_feed junk (Some src) fs i feed n = Some (r, feed', n')" "kept n n'"
      "r = Inr 0 \<Longrightarrow> \<not> needs_queue src feed'"
    | (running) feed' n' nr where "avia_gt_napi_start_feed junk (Some src) fs i feed n = Some (Inr 0, feed', n')" "started i n n' nr"
      "needs_queue src feed'"
    | (lost) feed' n' nr where "avia_gt_napi_start_feed junk (Some src) fs i feed n = Some (Inl EBUSY, feed', n')" "started i n n' nr"
      "nr < 3"
proof (cases "src = DMX_MEMORY_FE \<and> \<not> avia_gt_napi_is_clipmode_feed feed")
  case True
  then show ?thesis
    using none [of "Inr 0" feed n] keptI [OF ok, of n] by (simp add: avia_gt_napi_start_feed_def needs_queue_def)
next
  case False
  obtain feed1 n1 where prep: "prepare_feed src feed n = (feed1, n1)" by fastforce
  note p = prepare_feed_effect [OF ok prep]
  have ok1: "napi_ok n1" and i1: "i < length (np_priv n1)" using p(1) i by (auto simp: kept_def)
  have fin: ?thesis if o': "outcome_of i feed1 n2 o'" and n2: "kept n n2" and need: "needs_queue src feed1"
    and eq: "avia_gt_napi_start_feed junk (Some src) fs i feed n = map_option (\<lambda>(r, n). (r, feed1, n)) (finish_start i feed1 o')" for o' n2
  proof -
    have "i < length (np_priv n2)" using n2 i by (simp add: kept_def)
    from o' this show ?thesis
    proof (cases rule: finish_start_effect)
      case (1 n')
      then show ?thesis using none [of "Inl EBUSY" feed1 n'] eq kept_trans [OF n2] by simp
    next
      case (2 n' nr)
      then show ?thesis using running [of feed1 n' nr] eq started_kept [OF n2] need by simp
    next
      case (3 n' nr)
      then show ?thesis using lost [of feed1 n' nr] eq started_kept [OF n2] by simp
    qed
  qed
  show ?thesis
  proof (cases "feed_type feed1 = DMX_TYPE_SEC")
    case True
    then have "needs_queue src feed1" using False p(2,4) by (auto simp: needs_queue_def pcr_feed_def decoder_feed_def)
    then show ?thesis
      using fin [OF start_section_outcome [OF ok1 True] p(1)] False prep True by (simp add: avia_gt_napi_start_feed_def)
  next
    case stream: False
    define n2 where "n2 = (if pcr_feed feed1 then n1\<lparr>np_gt := avia_gt_dmx_set_pcr_pid True (feed_pid16 feed1) (np_gt n1)\<rparr> else n1)"
    have n2: "kept n n2" using p(1) pcr_kept [OF ok1] kept_trans by (auto simp: n2_def)
    have eq: "avia_gt_napi_start_feed junk (Some src) fs i feed n =
       (if pcr_feed feed1 \<and> ts_type feed1 AND TS_PACKET = 0 then Some (Inr 0, feed1, n2)
        else map_option (\<lambda>(r, n). (r, feed1, n)) (finish_start i feed1 (start_stream src i feed1 n2)))"
      using False prep stream by (auto simp: avia_gt_napi_start_feed_def n2_def Let_def)
    show ?thesis
    proof (cases "pcr_feed feed1 \<and> ts_type feed1 AND TS_PACKET = 0")
      case True
      then show ?thesis using none [of "Inr 0" feed1 n2] eq n2 by (simp add: needs_queue_def)
    next
      case queue: False
      then have "needs_queue src feed1" using False p by (auto simp: needs_queue_def)
      moreover have "napi_ok n2" using n2 by (simp add: kept_def)
      ultimately show ?thesis using fin [OF start_stream_outcome n2] eq queue by simp
    qed
  qed
qed

lemma release_queue_effect:
  assumes ok: "napi_ok n" and q: "q < 31" "busy_list n ! q"
  obtains n' where "release_queue q n = (Inr 0, n')" "napi_ok n'" "busy_list n' = (busy_list n)[q := False]" "np_priv n' = np_priv n"
proof -
  obtain b c p u l isr where v: "view (np_gt n) = (b, c, p, u, l, isr)" by (metis prod_cases6)
  have vok: "view_ok (b, c, p, u, l, isr) (ts_pid_of n)" using ok v by (simp add: napi_ok_def napi_view_def)
  then have l: "length b = 32" "l = 128" "uc_inv {} ((!) b) u" "length (ts_pid_of n) = 32" by (auto simp: view_ok_def)
  have bl: "busy_list n = b" "ucode (np_gt n) = u" using v by (simp_all add: view_def busy_list_def)
  let ?isr = "if 3 \<le> q then isr(q := None) else isr" and ?u = "prop_ucode_stop_queue_feeds q True u"
  define s1 where "s1 = snd (avia_gt_dmx_queue_stop q (np_gt n))"
  have s1: "view s1 = (b, c, p, ?u, 128, ?isr)"
    using queue_stop_view [of q "np_gt n"] view_set_isr [OF v [unfolded l(2)] q(1)] view_ucode q(1) bl(2) by (simp add: s1_def)
  have busy: "busy (the_queue q s1)" using view_busy [OF s1, of q] q l(1) bl by simp
  define s2 where "s2 = snd (avia_gt_dmx_free_queue q s1)"
  have s2: "view s2 = (b[q := False], c, p, ?u, 128, ?isr)"
    using free_queue_view(2) [OF _ busy] view_drop [OF s1 q(1)] q(1) by (simp add: s2_def fun_upd_idem)
  have "uc_inv {} ((!) (b[q := False])) ?u"
    using uc_inv_mono [OF uc_stop_queue_feeds [OF l(3), of q], of "(!) (b[q := False])"] by simp
  then have "view_ok (view s2) ((ts_pid_of n)[q := 0xffff])"
    using vok q(1) l by (auto simp: s2 view_ok_def nth_list_update)
  moreover have "release_queue q n = (Inr 0, n\<lparr>np_gt := s2, ts_pid_of := (ts_pid_of n)[q := 0xffff]\<rparr>)"
    using free_queue_view(1) [OF _ busy] q(1)
    by (cases "avia_gt_dmx_free_queue q s1") (simp add: release_queue_def s1_def [symmetric] s2_def Let_def)
  ultimately show ?thesis using that s2 bl by (simp add: napi_ok_def napi_view_def busy_list_def view_def)
qed


lemma stop_feed_effect_queue:
  assumes ok: "napi_ok n" and need: "needs_queue src feed" and q: "np_priv n ! i = Some q" "q < 31" "busy_list n ! q"
  obtains n' where "avia_gt_napi_stop_feed f0 (Some src) i feed n = Some (Inr 0, n')" "napi_ok n'"
    "busy_list n' = (busy_list n)[q := False]" "np_priv n' = np_priv n"
proof -
  define n1 where "n1 = (if decoder_feed feed then stop_decoder feed n else n)"
  define n2 where "n2 = (if decoder_feed feed then tap_user_queue True feed n1 else n1)"
  have n1: "kept n n1" using ok av_kept(1) pcr_kept keptI [OF ok, of n] by (simp add: n1_def stop_decoder_def)
  then have "napi_ok n1" by (simp add: kept_def)
  then have n2: "kept n n2" using tap_kept kept_trans [OF n1] n1 by (simp add: n2_def)
  then have "napi_ok n2" "busy_list n2 ! q" using q by (simp_all add: kept_def)
  then obtain n' where "release_queue q n2 = (Inr 0, n')" "napi_ok n'" "busy_list n' = (busy_list n2)[q := False]" "np_priv n' = np_priv n2"
    using release_queue_effect [of n2 q] q(2) by blast
  moreover have "avia_gt_napi_stop_feed f0 (Some src) i feed n = Some (release_queue q n2)"
    using need q(1) by (auto simp: avia_gt_napi_stop_feed_def needs_queue_def Let_def n1_def n2_def)
  ultimately show ?thesis using that n2 by (simp add: kept_def)
qed

lemma stop_feed_effect_none:
  assumes ok: "napi_ok n" and need: "\<not> needs_queue src feed" and stop: "avia_gt_napi_stop_feed f0 (Some src) i feed n = Some (r, n')"
  shows "kept n n'"
proof (cases "src = DMX_MEMORY_FE \<and> \<not> avia_gt_napi_is_clipmode_feed feed")
  case True
  then show ?thesis using stop keptI [OF ok, of n] by (simp add: avia_gt_napi_stop_feed_def split: if_splits)
next
  case False
  then have "pcr_feed feed \<and> ts_type feed AND TS_PACKET = 0" using need by (auto simp: needs_queue_def)
  then have "n' = stop_decoder feed n" using stop False by (auto simp: avia_gt_napi_stop_feed_def pcr_feed_def Let_def)
  then show ?thesis using ok av_kept(1) pcr_kept keptI [OF ok, of n] by (simp add: stop_decoder_def)
qed


section \<open>Sequences of feeds\<close>

text \<open>
  A driver that has just been loaded: the queues for feeds are free and have no interrupt, the microcode has
  been initialised, and the interrupt of the clock reference is that of no queue.
\<close>

definition loaded :: "napi_state \<Rightarrow> bool" where
  "loaded n \<longleftrightarrow> length (queue_list (np_gt n)) = 32 \<and> length (gt_isr_proc_list (np_gt n)) = 128
     \<and> (\<forall>q < 31. \<not> busy (the_queue q (np_gt n))) \<and> (\<forall>q < 31. user_isr (np_gt n) q = None)
     \<and> (\<forall>q < 32. isr_nr (irq_pcr (np_gt n)) \<noteq> sys_isr (np_gt n) q)
     \<and> ts_pid_of n = replicate 32 0xffff
     \<and> (\<exists>img ds u. length (img_filter_param img) = 32 \<and> avia_gt_dmx_risc_init img ds u = Some (ucode (np_gt n)))"

text \<open>
  The software demultiplexer starts feeds that are not started and stops those that are, in any order;
  \<open>G\<close> has the started ones as the start left them. The frontend \<open>src\<close> stays connected until all feeds are
  stopped; only starts may also be tried without a frontend. That is a condition on the users of the
  driver: \<open>avia_gt_napi_disconnect_frontend\<close> does not check it, and a feed that is stopped without a
  frontend, or after the source has been switched to the memory, keeps its queue
  (\<open>stop_without_frontend_leaks\<close> and \<open>stop_after_switch_leaks\<close> below).
\<close>

inductive feeds_run :: "dmx_frontend_source \<Rightarrow> napi_state \<Rightarrow> (nat \<rightharpoonup> dvb_demux_feed) \<Rightarrow> bool" for src where
  fr_load: "loaded n \<Longrightarrow> feeds_run src n Map.empty"
| fr_start: "feeds_run src n G \<Longrightarrow> G i = None \<Longrightarrow> i < length (np_priv n) \<Longrightarrow>
     avia_gt_napi_start_feed junk (Some src) fs i feed n = Some (r, feed', n') \<Longrightarrow>
     feeds_run src n' (if r = Inr 0 then G(i \<mapsto> feed') else G)"
| fr_refused: "feeds_run src n G \<Longrightarrow> avia_gt_napi_start_feed junk None fs i feed n = Some (r, feed', n') \<Longrightarrow>
     feeds_run src n' G"
| fr_stop: "feeds_run src n G \<Longrightarrow> G i = Some feed \<Longrightarrow>
     avia_gt_napi_stop_feed f0 (Some src) i feed n = Some (r, n') \<Longrightarrow> feeds_run src n' (G(i := None))"
| fr_mode: "feeds_run src n G \<Longrightarrow> feeds_run src (avia_gt_set_playback_mode m n) G"

definition owners :: "dmx_frontend_source \<Rightarrow> (nat \<rightharpoonup> dvb_demux_feed) \<Rightarrow> napi_state \<Rightarrow> bool" where
  "owners src G n \<longleftrightarrow>
     (\<forall>i feed. G i = Some feed \<and> needs_queue src feed \<longrightarrow>
        (\<exists>q < 31. np_priv n ! i = Some q \<and> busy_list n ! q) \<and> i < length (np_priv n))
     \<and> (\<forall>i j f g. G i = Some f \<and> needs_queue src f \<and> G j = Some g \<and> needs_queue src g \<and> np_priv n ! i = np_priv n ! j \<longrightarrow> i = j)
     \<and> (\<forall>q. 3 \<le> q \<and> q < 31 \<and> busy_list n ! q \<longrightarrow> (\<exists>i feed. G i = Some feed \<and> needs_queue src feed \<and> np_priv n ! i = Some q))"

lemma loaded_ok:
  assumes "loaded n"
  shows "napi_ok n" "owners src Map.empty n"
proof -
  let ?s = "np_gt n"
  have len: "length (queue_list ?s) = 32" using assms by (simp add: loaded_def)
  obtain img ds u where init: "length (img_filter_param img) = 32" "avia_gt_dmx_risc_init img ds u = Some (ucode ?s)"
    using assms by (auto simp: loaded_def)
  have "ucode_feed (ucode ?s) = replicate 32 \<lparr>dest_queue = -1, gtf_type = 255, section_idx = 255, filtercount = 0xff, gtf_pid = 0xffff\<rparr>"
    "section_map (ucode ?s) = replicate 32 (-1)"
    using init(2) [symmetric] by (auto simp: avia_gt_dmx_risc_init_def prop_ucode_init_def Let_def frame_simps
        AVIA_GT_UCODE_MAXIMUM_FEED_NUMBER_def split: if_splits)
  then have "uc_inv {} taken (ucode ?s)" for taken
    using risc_init_sec_inv [OF init(2,1)] by (auto simp: uc_inv_def feed_placed_def)
  then show "napi_ok n"
    using assms by (auto simp: napi_ok_def napi_view_def view_def view_ok_def loaded_def sys_isr_def user_isr_def)
  have "\<not> busy_list n ! q" if "q < 31" for q using assms that len by (simp add: loaded_def busy_list_def the_queue_def)
  then show "owners src Map.empty n" by (auto simp: owners_def)
qed


lemma owners_kept: "kept n n' \<Longrightarrow> owners src G n' = owners src G n"
  by (simp add: kept_def owners_def)

lemma owners_idle: "owners src G n \<Longrightarrow> G i = None \<Longrightarrow> \<not> needs_queue src feed \<Longrightarrow> owners src (G(i \<mapsto> feed)) n"
  unfolding owners_def by (auto split: if_splits) (metis option.distinct(1))

lemma owners_started:
  assumes own: "owners src G n" and st: "started i n n' nr" and i: "G i = None" "i < length (np_priv n)"
  shows "needs_queue src feed \<Longrightarrow> owners src (G(i \<mapsto> feed)) n'" "nr < 3 \<Longrightarrow> owners src G n'"
proof -
  have priv: "np_priv n' ! j = (if j = i then Some nr else np_priv n ! j)" for j
    using st i(2) by (simp add: started_def)
  have len: "length (busy_list n) = 32" "nr < 31" "\<not> busy_list n ! nr" "length (np_priv n') = length (np_priv n)"
    using st by (auto simp: started_def napi_ok_def napi_view_def view_def view_ok_def busy_list_def)
      (metis length_list_update length_map)?
  have busy: "busy_list n' ! q = (q = nr \<or> busy_list n ! q)" if "q < 32" for q
    using st len that by (auto simp: started_def nth_list_update)
  have old: "\<exists>q < 31. np_priv n ! j = Some q \<and> busy_list n ! q" "j < length (np_priv n)" "j \<noteq> i" if "G j = Some f" "needs_queue src f" for j f
    using own that i by (auto simp: owners_def)
  have inj: "j = k" if "G j = Some f" "needs_queue src f" "G k = Some g" "needs_queue src g" "np_priv n ! j = np_priv n ! k" for j k f g
    using own that unfolding owners_def by blast
  have own3: "\<exists>j feed. G j = Some feed \<and> needs_queue src feed \<and> np_priv n ! j = Some q" if "3 \<le> q" "q < 31" "busy_list n ! q" for q
    using own that unfolding owners_def by blast
  have 1: "\<exists>q < 31. np_priv n' ! j = Some q \<and> busy_list n' ! q" if j: "G j = Some f" "needs_queue src f" for j f
  proof -
    obtain q where "q < 31" "np_priv n ! j = Some q" "busy_list n ! q" using old(1) [OF j] by blast
    then show ?thesis using old(3) [OF j] by (intro exI [of _ q]) (simp add: priv busy)
  qed
  have fresh: "np_priv n ! j \<noteq> Some nr" if "G j = Some f" "needs_queue src f" for j f
    using old(1) [OF that] len(3) by auto
  show "owners src (G(i \<mapsto> feed)) n'" if "needs_queue src feed"
    unfolding owners_def
  proof (intro conjI allI impI; elim conjE)
    fix j f assume "(G(i \<mapsto> feed)) j = Some f" "needs_queue src f"
    then show "\<exists>q < 31. np_priv n' ! j = Some q \<and> busy_list n' ! q" "j < length (np_priv n')"
      using 1 [of j f] old(2) [of j f] len i(2) priv [of j] busy [of nr] by (cases "j = i"; simp)+
  next
    fix j k f g assume "(G(i \<mapsto> feed)) j = Some f" "needs_queue src f" "(G(i \<mapsto> feed)) k = Some g" "needs_queue src g"
      "np_priv n' ! j = np_priv n' ! k"
    then show "j = k" using inj [of j f k g] fresh [of j f] fresh [of k g] by (simp add: priv split: if_splits)
  next
    fix q assume q: "3 \<le> q" "q < 31" "busy_list n' ! q"
    show "\<exists>j f. (G(i \<mapsto> feed)) j = Some f \<and> needs_queue src f \<and> np_priv n' ! j = Some q"
    proof (cases "q = nr")
      case True
      then show ?thesis using that by (intro exI [of _ i] exI [of _ feed]) (simp add: priv)
    next
      case False
      then obtain j f where j: "G j = Some f" "needs_queue src f" "np_priv n ! j = Some q" using own3 [of q] q busy [of q] by auto
      then show ?thesis using old(3) [OF j(1,2)] by (intro exI [of _ j] exI [of _ f]) (simp add: priv)
    qed
  qed
  show "owners src G n'" if sys: "nr < 3"
    unfolding owners_def
  proof (intro conjI allI impI; elim conjE)
    fix j f assume "G j = Some f" "needs_queue src f"
    then show "\<exists>q < 31. np_priv n' ! j = Some q \<and> busy_list n' ! q" "j < length (np_priv n')"
      using 1 old(2) len(4) by auto
  next
    fix j k f g assume "G j = Some f" "needs_queue src f" "G k = Some g" "needs_queue src g" "np_priv n' ! j = np_priv n' ! k"
    then show "j = k" using inj [of j f k g] old(3) [of j f] old(3) [of k g] by (simp add: priv)
  next
    fix q assume q: "3 \<le> q" "q < 31" "busy_list n' ! q"
    then obtain j f where j: "G j = Some f" "needs_queue src f" "np_priv n ! j = Some q" using own3 [of q] busy [of q] sys by auto
    then show "\<exists>j f. G j = Some f \<and> needs_queue src f \<and> np_priv n' ! j = Some q"
      using old(3) [OF j(1,2)] by (intro exI [of _ j] exI [of _ f]) (simp add: priv)
  qed
qed

lemma owners_stopped:
  assumes own: "owners src G n" and G: "G i = Some feed" "needs_queue src feed" and q: "np_priv n ! i = Some q"
    and n': "busy_list n' = (busy_list n)[q := False]" "np_priv n' = np_priv n" and len: "length (busy_list n) = 32" "q < 31"
  shows "owners src (G(i := None)) n'"
proof -
  have inj: "j = k" if "G j = Some f" "needs_queue src f" "G k = Some g" "needs_queue src g" "np_priv n ! j = np_priv n ! k" for j k f g
    using own that unfolding owners_def by blast
  have busy: "busy_list n' ! k = (k \<noteq> q \<and> busy_list n ! k)" if "k < 32" for k
    using that len by (simp add: n'(1) nth_list_update)
  show ?thesis
    unfolding owners_def
  proof (intro conjI allI impI; elim conjE)
    fix j f assume j: "(G(i := None)) j = Some f" "needs_queue src f"
    then have ji: "j \<noteq> i" "G j = Some f" by (auto split: if_splits)
    then obtain k where k: "k < 31" "np_priv n ! j = Some k" "busy_list n ! k" "j < length (np_priv n)"
      using own j(2) unfolding owners_def by blast
    then have "k \<noteq> q" using inj [OF ji(2) j(2) G] q ji(1) by auto
    then show "\<exists>q < 31. np_priv n' ! j = Some q \<and> busy_list n' ! q" "j < length (np_priv n')"
      using k by (auto simp: n'(2) busy)
  next
    fix j k f g assume "(G(i := None)) j = Some f" "needs_queue src f" "(G(i := None)) k = Some g" "needs_queue src g"
      "np_priv n' ! j = np_priv n' ! k"
    then show "j = k" using inj [of j f k g] by (simp add: n'(2) split: if_splits)
  next
    fix k assume k: "3 \<le> k" "k < 31" "busy_list n' ! k"
    then have "busy_list n ! k" "k \<noteq> q" using busy [of k] by auto
    then obtain j f where j: "G j = Some f" "needs_queue src f" "np_priv n ! j = Some k"
      using own k unfolding owners_def by blast
    then have "j \<noteq> i" using q \<open>k \<noteq> q\<close> by auto
    then show "\<exists>j f. (G(i := None)) j = Some f \<and> needs_queue src f \<and> np_priv n' ! j = Some k"
      using j by (intro exI [of _ j] exI [of _ f]) (simp add: n'(2))
  qed
qed

lemma owners_drop_idle: "owners src G n \<Longrightarrow> G i = Some feed \<Longrightarrow> \<not> needs_queue src feed \<Longrightarrow> owners src (G(i := None)) n"
  unfolding owners_def by (auto split: if_splits) (metis option.inject)

lemma feeds_run_inv: "feeds_run src n G \<Longrightarrow> napi_ok n \<and> owners src G n"
proof (induction rule: feeds_run.induct)
  case (fr_load n)
  then show ?case using loaded_ok by blast
next
  case (fr_start n G i junk fs feed r feed' n')
  have ok: "napi_ok n" and own: "owners src G n" using fr_start by auto
  from ok fr_start(3) show ?case
  proof (cases rule: start_feed_effect [where junk = junk and src = src and fs = fs and feed = feed])
    case (none r1 feed1 n1)
    then have "kept n n'" "r = Inr 0 \<Longrightarrow> \<not> needs_queue src feed'" using fr_start(4) by auto
    moreover from this have "napi_ok n'" by (simp add: kept_def)
    ultimately show ?thesis
      using own owners_kept [of n n'] owners_idle [of src G n' i feed'] fr_start(2) by auto
  next
    case (running feed1 n1 nr)
    then have "r = Inr 0" "feed' = feed1" "n' = n1" using fr_start(4) by simp_all
    then show ?thesis
      using owners_started(1) [OF own running(2) fr_start(2,3) running(3)] running(2) by (simp add: started_def fun_upd_def)
  next
    case (lost feed1 n1 nr)
    then show ?thesis
      using owners_started(2) [OF own lost(2) fr_start(2,3)] fr_start(4) by (auto simp: started_def)
  qed
next
  case (fr_refused n G junk fs i feed r feed' n')
  then show ?case by (simp add: avia_gt_napi_start_feed_def)
next
  case (fr_stop n G i feed f0 r n')
  have ok: "napi_ok n" and own: "owners src G n" using fr_stop by auto
  show ?case
  proof (cases "needs_queue src feed")
    case True
    then obtain q where q: "np_priv n ! i = Some q" "q < 31" "busy_list n ! q"
      using own fr_stop(2) unfolding owners_def by blast
    have len: "length (busy_list n) = 32" using ok by (auto simp: napi_ok_def napi_view_def view_def view_ok_def busy_list_def)
    obtain n1 where "avia_gt_napi_stop_feed f0 (Some src) i feed n = Some (Inr 0, n1)" "napi_ok n1"
      "busy_list n1 = (busy_list n)[q := False]" "np_priv n1 = np_priv n"
      using stop_feed_effect_queue [OF ok True q] by blast
    then show ?thesis using fr_stop(3) owners_stopped [OF own fr_stop(2) True q(1) _ _ len q(2)] by (simp add: fun_upd_def)
  next
    case False
    then have "kept n n'" using stop_feed_effect_none [OF ok False fr_stop(3)] by blast
    then show ?thesis
      using owners_drop_idle [OF own fr_stop(2) False] owners_kept by (auto simp: kept_def fun_upd_def)
  qed
next
  case (fr_mode n G m)
  then have "kept n (avia_gt_set_playback_mode m n)" using keptI [of n] by (simp add: avia_gt_set_playback_mode_def)
  then show ?case using fr_mode owners_kept by (auto simp: kept_def)
qed


text \<open>
  C32: however feeds are started and stopped while a frontend is connected, and whatever of it fails: each
  started feed that needs a queue has one, which is taken; no two have the same one; and a user queue is
  taken only for a started feed.
\<close>

theorem feeds_own_queues:
  assumes "feeds_run src n G"
  shows "(\<forall>i feed. G i = Some feed \<and> needs_queue src feed \<longrightarrow>
      (\<exists>q < 31. np_priv n ! i = Some q \<and> busy (the_queue q (np_gt n))))
    \<and> (\<forall>i j f g. G i = Some f \<and> needs_queue src f \<and> G j = Some g \<and> needs_queue src g \<and> i \<noteq> j \<longrightarrow> np_priv n ! i \<noteq> np_priv n ! j)
    \<and> (\<forall>q. 3 \<le> q \<and> q < 31 \<longrightarrow> (busy (the_queue q (np_gt n)) \<longleftrightarrow>
         (\<exists>i feed. G i = Some feed \<and> needs_queue src feed \<and> np_priv n ! i = Some q)))"
proof -
  have inv: "napi_ok n" "owners src G n" using feeds_run_inv [OF assms] by auto
  have len: "length (queue_list (np_gt n)) = 32" using inv(1) by (auto simp: napi_ok_def napi_view_def view_def view_ok_def)
  then have busy: "busy (the_queue q (np_gt n)) = busy_list n ! q" if "q < 31" for q
    using that by (simp add: busy_list_def the_queue_def)
  have 1: "\<exists>q < 31. np_priv n ! i = Some q \<and> busy_list n ! q" if "G i = Some feed" "needs_queue src feed" for i feed
    using inv(2) that unfolding owners_def by blast
  then have "\<exists>q < 31. np_priv n ! i = Some q \<and> busy (the_queue q (np_gt n))" if "G i = Some feed" "needs_queue src feed" for i feed
    using that busy by blast
  moreover have "np_priv n ! i \<noteq> np_priv n ! j" if "G i = Some f" "needs_queue src f" "G j = Some g" "needs_queue src g" "i \<noteq> j"
    for i j f g
    using inv(2) that unfolding owners_def by blast
  moreover have "busy (the_queue q (np_gt n)) \<longleftrightarrow> (\<exists>i feed. G i = Some feed \<and> needs_queue src feed \<and> np_priv n ! i = Some q)"
    if "3 \<le> q" "q < 31" for q
  proof
    show "\<exists>i feed. G i = Some feed \<and> needs_queue src feed \<and> np_priv n ! i = Some q" if "busy (the_queue q (np_gt n))"
      using inv(2) that busy \<open>3 \<le> q\<close> \<open>q < 31\<close> unfolding owners_def by blast
    show "busy (the_queue q (np_gt n))" if "\<exists>i feed. G i = Some feed \<and> needs_queue src feed \<and> np_priv n ! i = Some q"
      using that 1 busy by fastforce
  qed
  ultimately show ?thesis by blast
qed

text \<open>
  C33: once all feeds that were started while a frontend was connected are stopped with it still
  connected, no user queue, no feed of the microcode for a user queue, and no section filter is left, even
  if some starts failed half way. (A feed for a decoder queue can be left, after a start that failed on its
  interrupt.)
\<close>

theorem stopped_feeds_leave_nothing:
  assumes "feeds_run src n Map.empty"
  shows "(\<forall>q. 3 \<le> q \<and> q < 31 \<longrightarrow> \<not> busy (the_queue q (np_gt n)) \<and> ts_pid_of n ! q = 0xffff)
    \<and> (\<forall>f \<in> set (ucode_feed (ucode (np_gt n))). dest_queue f < 3) \<and> section_map (ucode (np_gt n)) = replicate 32 (-1)"
proof -
  let ?u = "ucode (np_gt n)"
  have inv: "napi_ok n" "owners src Map.empty n" using feeds_run_inv [OF assms] by auto
  have ok: "length (busy_list n) = 32" "uc_inv {} ((!) (busy_list n)) ?u" "\<forall>q < 31. \<not> busy_list n ! q \<longrightarrow> ts_pid_of n ! q = 0xffff"
    using inv(1) by (auto simp: napi_ok_def napi_view_def view_def view_ok_def busy_list_def)
  have free: "\<not> busy_list n ! q" if "3 \<le> q" "q < 31" for q using inv(2) that by (auto simp: owners_def)
  have feeds: "dest_queue f < 3" if "f \<in> set (ucode_feed ?u)" for f
  proof (rule ccontr)
    assume "\<not> dest_queue f < 3"
    then show False using uc_inv_feeds [OF ok(2) that] free [of "nat (dest_queue f)"] by auto
  qed
  have "section_map ?u ! p = -1" if p: "p < 32" for p
  proof (rule ccontr)
    assume used: "section_map ?u ! p \<noteq> -1"
    then obtain f where f: "f \<in> set (ucode_feed ?u)" "section_map ?u ! p = int (section_idx f)"
      using ok(2) p by (auto simp: uc_inv_def)
    have "map_ok (section_map ?u)" using ok(2) by (simp add: uc_inv_def sec_inv_def)
    then have "section_idx f \<noteq> 255" using map_okD(1) [OF _ p f(2)] p by auto
    then show False using ok(2) f(1) feeds [OF f(1)] by (auto simp: uc_inv_def feed_placed_def)
  qed
  moreover have "length (section_map ?u) = 32" using ok(2) by (simp add: uc_inv_def sec_inv_def map_ok_def)
  ultimately have "section_map ?u = replicate 32 (-1)" by (intro nth_equalityI) simp_all
  moreover have "\<not> busy (the_queue q (np_gt n))" if "3 \<le> q" "q < 31" for q
    using free [OF that] ok(1) that by (simp add: busy_list_def the_queue_def)
  ultimately show ?thesis using feeds free ok(3) by auto
qed

text \<open>
  Playing back from memory, a feed that is not for the decoder is started without a queue; stopping it
  follows the null pointer in its place.
\<close>

theorem memory_feed_stop_faults:
  assumes "\<not> avia_gt_napi_is_clipmode_feed feed" "np_priv n ! i = None"
  shows "avia_gt_napi_start_feed junk (Some DMX_MEMORY_FE) fs i feed n = Some (Inr 0, feed, n)
    \<and> avia_gt_napi_stop_feed f0 (Some DMX_MEMORY_FE) i feed n = None"
  using assms by (simp add: avia_gt_napi_start_feed_def avia_gt_napi_stop_feed_def)

text \<open>
  Without a frontend a feed is not stopped: its queue stays taken. So does that of a feed that is not for the
  decoder, when the source has been switched to the memory since it was started.
\<close>

lemma stop_without_frontend_leaks: "avia_gt_napi_stop_feed f0 None i feed n = Some (Inl EINVAL, n)"
  by (simp add: avia_gt_napi_stop_feed_def)

lemma stop_after_switch_leaks:
  assumes "feeds_run src n G" "G i = Some feed" "src \<noteq> DMX_MEMORY_FE"
    and "\<not> avia_gt_napi_is_clipmode_feed feed" "needs_queue src feed" "f0 \<noteq> None"
  shows "\<exists>q < 31. np_priv n ! i = Some q \<and> busy_list n ! q
    \<and> avia_gt_napi_stop_feed f0 (Some DMX_MEMORY_FE) i feed n = Some (Inr 0, n)"
proof -
  have "owners src G n" using feeds_run_inv [OF assms(1)] by blast
  then obtain q where "q < 31" "np_priv n ! i = Some q" "busy_list n ! q"
    using assms(2,5) unfolding owners_def by blast
  then show ?thesis using assms(4,6) by (auto simp: avia_gt_napi_stop_feed_def)
qed

text \<open>With any other source a started feed can be stopped.\<close>

theorem started_feed_stops:
  assumes "feeds_run src n G" "G i = Some feed" "src \<noteq> DMX_MEMORY_FE"
  shows "\<exists>n'. avia_gt_napi_stop_feed f0 (Some src) i feed n = Some (Inr 0, n')"
proof (cases "needs_queue src feed")
  case True
  have inv: "napi_ok n" "owners src G n" using feeds_run_inv [OF assms(1)] by auto
  then obtain q where q: "np_priv n ! i = Some q" "q < 31" "busy_list n ! q" using assms(2) True unfolding owners_def by blast
  then show ?thesis using stop_feed_effect_queue [OF inv(1) True q] by blast
next
  case False
  then show ?thesis using assms(3) by (auto simp: needs_queue_def avia_gt_napi_stop_feed_def Let_def)
qed


section \<open>Examples\<close>

definition ex_napi :: napi_state where
  "ex_napi = \<lparr>np_gt = ex_gt\<lparr>queue_list := replicate 32 (gt_queue0\<lparr>mem_addr := 4, q_size := 256\<rparr>), ucode := ex_risc\<rparr>,
     np_mode = 1, need_audio_pts = False, clipmode = False, ts_pid_of = replicate 32 0xffff, np_priv = replicate 31 None, np_av = []\<rparr>"

abbreviation ex_section_feed :: dvb_demux_feed where
  "ex_section_feed \<equiv> ex_feed 0"

definition ex_ts_feed :: "nat \<Rightarrow> u32 \<Rightarrow> dvb_demux_feed" where
  "ex_ts_feed pt tt = (ex_feed 0)\<lparr>feed_type := DMX_TYPE_TS, feed_pid := 0x100, pes_type := pt, ts_type := tt\<rparr>"

lemma ex_napi_loaded: "loaded ex_napi"
proof -
  have "list_all (\<lambda>q. isr_nr (irq_pcr (np_gt ex_napi)) \<noteq> isr_nr (avia_gt_dmx_get_queue_irq ENX q)) [0 ..< 32]" by code_simp
  then have pcr: "isr_nr (irq_pcr (np_gt ex_napi)) \<noteq> sys_isr (np_gt ex_napi) q" if "q < 32" for q
    using that by (simp add: sys_isr_def list_all_iff ex_napi_def ex_gt_def)
  have "avia_gt_dmx_risc_init ex_image False ex_ucode0 = Some (ucode (np_gt ex_napi))"
    using ex_init by (auto simp: ex_risc_def ex_napi_def)
  then have "\<exists>img ds u. length (img_filter_param img) = 32 \<and> avia_gt_dmx_risc_init img ds u = Some (ucode (np_gt ex_napi))"
    by (intro exI [of _ ex_image]) (auto simp: ex_image_def)
  moreover have "user_isr (np_gt ex_napi) q = None" for q
    using sys_isr_less [of q "np_gt ex_napi"] by (auto simp: user_isr_def ex_napi_def ex_gt_def)
  moreover have "\<not> busy (the_queue q (np_gt ex_napi))" if "q < 31" for q
    using that by (simp add: ex_napi_def the_queue_def gt_queue0_def)
  ultimately show ?thesis using pcr by (simp add: loaded_def) (simp add: ex_napi_def ex_gt_def)
qed

text \<open>A feed for whole packets, which the first user queue gets.\<close>

definition ex_plain_feed :: dvb_demux_feed where
  "ex_plain_feed = ex_ts_feed DMX_TS_PES_OTHER 0"

lemma ex_claim:
  assumes "pt \<in> {DMX_TS_PES_OTHER, DMX_TS_PES_SUBTITLE}"
  obtains n1 where "claim_queue (Some CALLBACK_TS_PES) TS 0 (ex_ts_feed pt tt) ex_napi = (Some 3, n1)"
    "np_priv n1 = (np_priv ex_napi)[0 := Some 3]"
proof -
  have "\<not> busy (the_queue 3 (np_gt ex_napi))" by (simp add: ex_napi_def the_queue_def gt_queue0_def)
  then have "fst (avia_gt_dmx_alloc_queue 3 None (Some CALLBACK_TS_PES) (Some 0) (np_gt ex_napi)) = Some 3"
    "[AVIA_GT_DMX_QUEUE_USER_START ..< Suc AVIA_GT_DMX_QUEUE_USER_END] = 3 # [4 ..< 31]"
    by (simp_all add: avia_gt_dmx_alloc_queue_def gt_consts Let_def upt_rec)
  then obtain s where s: "avia_gt_napi_queue_alloc (Some CALLBACK_TS_PES) 0 (ex_ts_feed pt tt) (np_gt ex_napi) = (Some 3, s)"
    using \<open>\<not> busy (the_queue 3 (np_gt ex_napi))\<close> assms
    by (cases "avia_gt_dmx_alloc_queue 3 None (Some CALLBACK_TS_PES) (Some 0) (np_gt ex_napi)")
       (auto simp: avia_gt_napi_queue_alloc_def ex_ts_feed_def pes_consts avia_gt_dmx_alloc_queue_user_def)
  have "view s = view (take_queue 3 (np_gt ex_napi))" using napi_queue_alloc_view(2) [OF s] by blast
  then have "ucode s = ex_risc" using view_components(3) [of s "take_queue 3 (np_gt ex_napi)"]
    by (simp add: take_queue_def frame_simps ex_napi_def)
  moreover have "fst (prop_ucode_alloc_feed 3 TS 0x100 ex_risc) = Some 0" by code_simp
  then obtain u where "prop_ucode_alloc_feed 3 TS 0x100 ex_risc = (Some 0, u)" by (metis prod.collapse)
  ultimately show ?thesis
    using that s by (simp add: claim_queue_def feed_pid16_def ex_ts_feed_def)
qed

lemma ex_start:
  obtains n' where "avia_gt_napi_start_feed ex_junk (Some DMX_FRONTEND_0) [] 0 ex_plain_feed ex_napi = Some (Inr 0, ex_plain_feed, n')"
    "np_priv n' ! 0 = Some 3" "needs_queue DMX_FRONTEND_0 ex_plain_feed"
proof -
  obtain n1 where c: "claim_queue (Some CALLBACK_TS_PES) TS 0 ex_plain_feed ex_napi = (Some 3, n1)"
    "np_priv n1 = (np_priv ex_napi)[0 := Some 3]"
    using ex_claim [of DMX_TS_PES_OTHER 0] by (auto simp: ex_plain_feed_def)
  have caps: "CAP_TS \<in> set (caps (ucode (np_gt ex_napi)))" by code_simp
  have feed: "feed_type ex_plain_feed = DMX_TYPE_TS" "ts_type ex_plain_feed = 0" "pes_type ex_plain_feed = 20"
    by (simp_all add: ex_plain_feed_def ex_ts_feed_def pes_consts)
  define n2 where "n2 = n1\<lparr>ts_pid_of := (ts_pid_of n1)[3 := feed_pid16 ex_plain_feed]\<rparr>"
  obtain r n' where run: "run_queue 3 TS ex_plain_feed n2 = (r, n')" by fastforce
  have r: "r = Inr 0" "np_priv n' = np_priv n1"
    using run queue_start_view(1) [of 3] by (auto simp: run_queue_def n2_def split: prod.splits) (metis fst_conv)
  have "avia_gt_napi_start_feed_ts DMX_FRONTEND_0 0 ex_plain_feed ex_napi = (Inr 0, n')"
    using caps c run r by (simp add: avia_gt_napi_start_feed_ts_def feed n2_def)
  then have "start_stream DMX_FRONTEND_0 0 ex_plain_feed ex_napi = (Inr 0, n')" by (simp add: start_stream_def feed)
  then have "avia_gt_napi_start_feed ex_junk (Some DMX_FRONTEND_0) [] 0 ex_plain_feed ex_napi = Some (Inr 0, ex_plain_feed, n')"
    by (simp add: avia_gt_napi_start_feed_def prepare_feed_def pcr_feed_def decoder_feed_def feed finish_start_def)
  moreover have "needs_queue DMX_FRONTEND_0 ex_plain_feed" by (simp add: needs_queue_def pcr_feed_def decoder_feed_def feed)
  moreover have "np_priv n' ! 0 = Some 3" using r c(2) by (simp add: ex_napi_def)
  ultimately show ?thesis using that by blast
qed

lemma ex_start_run:
  obtains n' where "avia_gt_napi_start_feed ex_junk (Some DMX_FRONTEND_0) [] 0 ex_plain_feed ex_napi = Some (Inr 0, ex_plain_feed, n')"
    "np_priv n' ! 0 = Some 3" "needs_queue DMX_FRONTEND_0 ex_plain_feed" "feeds_run DMX_FRONTEND_0 n' [0 \<mapsto> ex_plain_feed]"
proof -
  obtain n' where n': "avia_gt_napi_start_feed ex_junk (Some DMX_FRONTEND_0) [] 0 ex_plain_feed ex_napi = Some (Inr 0, ex_plain_feed, n')"
    "np_priv n' ! 0 = Some 3" "needs_queue DMX_FRONTEND_0 ex_plain_feed" by (rule ex_start)
  have "0 < length (np_priv ex_napi)" by (simp add: ex_napi_def)
  then have "feeds_run DMX_FRONTEND_0 n' (if Inr 0 = (Inr 0 :: cret) then [0 \<mapsto> ex_plain_feed] else Map.empty)"
    using fr_start [OF fr_load [OF ex_napi_loaded] _ _ n'(1)] by simp
  then show ?thesis using that n' by simp
qed

theorem feeds_own_queues_witness:
  "\<exists>n'. avia_gt_napi_start_feed ex_junk (Some DMX_FRONTEND_0) [] 0 ex_plain_feed ex_napi = Some (Inr 0, ex_plain_feed, n')
    \<and> busy (the_queue 3 (np_gt n')) \<and> \<not> busy (the_queue 4 (np_gt n'))"
proof -
  obtain n' where n': "avia_gt_napi_start_feed ex_junk (Some DMX_FRONTEND_0) [] 0 ex_plain_feed ex_napi = Some (Inr 0, ex_plain_feed, n')"
    "np_priv n' ! 0 = Some 3" "needs_queue DMX_FRONTEND_0 ex_plain_feed" "feeds_run DMX_FRONTEND_0 n' [0 \<mapsto> ex_plain_feed]"
    by (rule ex_start_run)
  then show ?thesis
    using feeds_own_queues [OF n'(4)] by auto
qed

lemma ex_stop_run:
  obtains n' n'' where "avia_gt_napi_start_feed ex_junk (Some DMX_FRONTEND_0) [] 0 ex_plain_feed ex_napi = Some (Inr 0, ex_plain_feed, n')"
    "avia_gt_napi_stop_feed None (Some DMX_FRONTEND_0) 0 ex_plain_feed n' = Some (Inr 0, n'')"
    "feeds_run DMX_FRONTEND_0 n'' Map.empty"
proof -
  obtain n' where n': "avia_gt_napi_start_feed ex_junk (Some DMX_FRONTEND_0) [] 0 ex_plain_feed ex_napi = Some (Inr 0, ex_plain_feed, n')"
    "np_priv n' ! 0 = Some 3" "needs_queue DMX_FRONTEND_0 ex_plain_feed" "feeds_run DMX_FRONTEND_0 n' [0 \<mapsto> ex_plain_feed]"
    by (rule ex_start_run)
  have inv: "napi_ok n'" "owners DMX_FRONTEND_0 [0 \<mapsto> ex_plain_feed] n'" using feeds_run_inv [OF n'(4)] by auto
  have "\<exists>q < 31. np_priv n' ! 0 = Some q \<and> busy_list n' ! q"
    using inv(2) n'(3) unfolding owners_def by (metis fun_upd_same)
  then have b: "busy_list n' ! 3" using n'(2) by simp
  have "(3 :: nat) < 31" by simp
  obtain n'' where stop: "avia_gt_napi_stop_feed None (Some DMX_FRONTEND_0) 0 ex_plain_feed n' = Some (Inr 0, n'')"
    using stop_feed_effect_queue [OF inv(1) n'(3,2) \<open>3 < 31\<close> b] by metis
  then have "feeds_run DMX_FRONTEND_0 n'' ([0 \<mapsto> ex_plain_feed](0 := None))" using fr_stop [OF n'(4), of 0] by simp
  then show ?thesis using that n'(1) stop by simp
qed

theorem stopped_feeds_leave_nothing_witness:
  "\<exists>n' n''. avia_gt_napi_start_feed ex_junk (Some DMX_FRONTEND_0) [] 0 ex_plain_feed ex_napi = Some (Inr 0, ex_plain_feed, n')
    \<and> avia_gt_napi_stop_feed None (Some DMX_FRONTEND_0) 0 ex_plain_feed n' = Some (Inr 0, n'')
    \<and> section_map (ucode (np_gt n'')) = replicate 32 (-1)"
proof -
  obtain n' n'' where n: "avia_gt_napi_start_feed ex_junk (Some DMX_FRONTEND_0) [] 0 ex_plain_feed ex_napi = Some (Inr 0, ex_plain_feed, n')"
    "avia_gt_napi_stop_feed None (Some DMX_FRONTEND_0) 0 ex_plain_feed n' = Some (Inr 0, n'')"
    "feeds_run DMX_FRONTEND_0 n'' Map.empty"
    by (rule ex_stop_run)
  then show ?thesis using stopped_feeds_leave_nothing [OF n(3)] by blast
qed

theorem memory_feed_stop_faults_witness:
  "avia_gt_napi_start_feed ex_junk (Some DMX_MEMORY_FE) [ex_filter] 0 (ex_feed 0) ex_napi = Some (Inr 0, ex_feed 0, ex_napi)
    \<and> avia_gt_napi_stop_feed (Some 0) (Some DMX_MEMORY_FE) 0 (ex_feed 0) ex_napi = None"
  by (rule memory_feed_stop_faults) (simp_all add: avia_gt_napi_is_clipmode_feed_def ex_napi_def)

end
