(* ===== verification/Avia_Gt_Napi_Tap.thy ===== *)
theory Avia_Gt_Napi_Tap
  imports Avia_Gt_Napi_Resources
begin

text \<open>
  Two ways in which the start of a feed defeats itself: a decoder feed on a user queue takes the packets away
  from its own queue, and a decoder queue that is shared refuses the interrupt of its owner.
\<close>

section \<open>The index of the microcode feed\<close>

definition feed_indices :: "gt_state \<Rightarrow> nat list" where
  "feed_indices s = map feed_idx (queue_list s)"

lemma indices_upd_queue:
  assumes "\<And>q. feed_idx (f q) = feed_idx q"
  shows "feed_indices (upd_queue nr f s) = feed_indices s"
  unfolding feed_indices_def upd_queue_def by (simp add: assms map_update_eq)

lemma indices_field_updates [frame_simps]:
  "feed_indices (s\<lparr>qwp := a\<rparr>) = feed_indices s" "feed_indices (s\<lparr>qwp_size := b\<rparr>) = feed_indices s"
  "feed_indices (s\<lparr>upq := c\<rparr>) = feed_indices s" "feed_indices (s\<lparr>aq_rp := a\<rparr>) = feed_indices s"
  "feed_indices (s\<lparr>aq_wp := b\<rparr>) = feed_indices s" "feed_indices (s\<lparr>aq_size := b\<rparr>) = feed_indices s"
  "feed_indices (s\<lparr>queue_client := e\<rparr>) = feed_indices s" "feed_indices (s\<lparr>irq_unmasked := g\<rparr>) = feed_indices s"
  "feed_indices (s\<lparr>gt_isr_proc_list := h\<rparr>) = feed_indices s" "feed_indices (s\<lparr>queue_size_table := h'\<rparr>) = feed_indices s"
  "feed_indices (s\<lparr>ucode := u\<rparr>) = feed_indices s"
  by (simp_all add: feed_indices_def)

lemma indices_registers [frame_simps]:
  "feed_indices (avia_gt_dmx_queue_set_write_pos nr p s) = feed_indices s"
  "feed_indices (avia_gt_dmx_system_queue_set_pos nr p r s) = feed_indices s"
  "feed_indices (snd (avia_gt_dmx_queue_reset nr s)) = feed_indices s"
  "feed_indices (avia_gt_free_irq irq s) = feed_indices s"
  "feed_indices (snd (avia_gt_alloc_irq irq isr s)) = feed_indices s"
  by (simp_all add: avia_gt_dmx_queue_set_write_pos_def avia_gt_dmx_map_queue_def write_qwp_def avia_gt_dmx_queue_reset_def
      avia_gt_dmx_system_queue_set_write_pos_def avia_gt_dmx_system_queue_set_pos_def avia_gt_free_irq_def avia_gt_alloc_irq_def
      frame_simps indices_upd_queue Let_def)

lemma indices_get_write_pos [frame_simps]: "feed_indices (snd (avia_gt_dmx_queue_get_write_pos nr s)) = feed_indices s"
  by (simp add: avia_gt_dmx_queue_get_write_pos_def avia_gt_dmx_map_queue_def frame_simps indices_upd_queue
      Let_def split: prod.splits)

lemma indices_setup_client [frame_simps]: "feed_indices (setup_client new sys s) = feed_indices s"
proof -
  let ?t = "s\<lparr>queue_client := (queue_client s)[sys := new]\<rparr>"
  obtain wp t where gw: "avia_gt_dmx_queue_get_write_pos sys ?t = (wp, t)" by (metis surj_pair)
  have "feed_indices t = feed_indices s" using indices_get_write_pos [of sys ?t] gw by (simp add: frame_simps)
  then show ?thesis
    by (simp add: setup_client_def gw system_queue_irq_enable_def system_queue_irq_disable_def frame_simps indices_upd_queue Let_def)
qed

lemma indices_system_irqs [frame_simps]: "feed_indices (avia_gt_dmx_enable_disable_system_queue_irqs s) = feed_indices s"
proof -
  have "feed_indices (fold (\<lambda>sys. setup_client (f sys) sys) xs t) = feed_indices t" for f xs t
    by (induction xs arbitrary: t) (simp_all add: frame_simps)
  then show ?thesis by (simp add: avia_gt_dmx_enable_disable_system_queue_irqs_def)
qed

lemma indices_queue_start [frame_simps]: "feed_indices (snd (avia_gt_dmx_queue_start nr qm pid s)) = feed_indices s"
  by (simp add: avia_gt_dmx_queue_start_def frame_simps indices_upd_queue Let_def)


section \<open>A queue that taps itself\<close>

text \<open>The feeds of the microcode for a queue, and whether the microcode looks at them.\<close>

definition silent :: "nat \<Rightarrow> ucode_state \<Rightarrow> bool" where
  "silent q u \<longleftrightarrow> (\<exists>k < 32. dest_queue (ucode_feed u ! k) = int q)
     \<and> (\<forall>k < 32. dest_queue (ucode_feed u ! k) = int q \<longrightarrow> pe_INVALID (pid_search_table u ! k))"

lemma start_feed_search_table [frame_simps]:
  "length (pid_search_table (prop_ucode_start_feed i tap u)) = length (pid_search_table u)"
  by (simp add: prop_ucode_start_feed_def prop_ucode_set_pid_control_table_def prop_ucode_set_pid_table_def Let_def)

lemma start_queue_feeds_tables [frame_simps]:
  "ucode_feed (prop_ucode_start_queue_feeds q u) = ucode_feed u"
  "length (pid_search_table (prop_ucode_start_queue_feeds q u)) = length (pid_search_table u)"
proof -
  have "ucode_feed (fold (\<lambda>i u. if dest_queue (ucode_feed u ! i) = int q then prop_ucode_start_feed i False u else u) is u) = ucode_feed u
    \<and> length (pid_search_table (fold (\<lambda>i u. if dest_queue (ucode_feed u ! i) = int q then prop_ucode_start_feed i False u else u) is u))
      = length (pid_search_table u)" for "is"
    by (induction "is" arbitrary: u) (simp_all add: frame_simps)
  then show "ucode_feed (prop_ucode_start_queue_feeds q u) = ucode_feed u"
    "length (pid_search_table (prop_ucode_start_queue_feeds q u)) = length (pid_search_table u)"
    by (simp_all add: prop_ucode_start_queue_feeds_def)
qed

lemma alloc_search_table:
  assumes "prop_ucode_alloc_generic_feed q t sec pid u = (r, u')"
  shows "length (pid_search_table u') = length (pid_search_table u)"
  using assms by (auto simp: prop_ucode_alloc_generic_feed_def prop_ucode_set_pid_table_def Let_def split: option.splits if_splits)

lemma claim_queue_index:
  assumes ok: "napi_ok n" and claim: "claim_queue cb qm i feed n = (Some nr, n')"
  obtains k where "k < 32" "feed_indices (np_gt n') ! nr = k" "dest_queue (ucode_feed (ucode (np_gt n')) ! k) = int nr"
    "\<And>j. j < 32 \<Longrightarrow> j \<noteq> k \<Longrightarrow> dest_queue (ucode_feed (ucode (np_gt n')) ! j) \<noteq> int nr"
    "ts_pid_of n' = ts_pid_of n" "length (pid_search_table (ucode (np_gt n'))) = length (pid_search_table (ucode (np_gt n)))"
proof -
  obtain s where alloc: "avia_gt_napi_queue_alloc cb i feed (np_gt n) = (Some nr, s)"
    using claim by (auto simp: claim_queue_def split: prod.splits option.splits)
  have v: "nr < 31" "\<not> busy (the_queue nr (np_gt n))" "view s = view (take_queue nr (np_gt n))"
    using napi_queue_alloc_view(2) [OF alloc] by auto
  have u: "ucode s = ucode (np_gt n)" using view_components(3) [OF v(3)] by (simp add: take_queue_def frame_simps)
  have ok': "length (queue_list (np_gt n)) = 32" "uc_inv {} ((!) (busy_list n)) (ucode (np_gt n))"
    using ok by (auto simp: napi_ok_def napi_view_def view_def view_ok_def busy_list_def)
  have len: "length (ucode_feed (ucode (np_gt n))) = 32" "length (queue_list s) = 32"
    using ok' view_components(5) [OF v(3)] by (simp_all add: uc_inv_def sec_inv_def take_queue_def upd_queue_def)
  obtain k u' where af: "prop_ucode_alloc_generic_feed nr qm None (feed_pid16 feed) (ucode (np_gt n)) = (Some k, u')"
    and n': "n' = n\<lparr>np_gt := upd_queue nr (\<lambda>q. q\<lparr>feed_idx := k\<rparr>) (s\<lparr>ucode := u'\<rparr>), np_priv := (np_priv n)[i := Some nr]\<rparr>"
    using claim alloc u by (auto simp: claim_queue_def prop_ucode_alloc_feed_def split: prod.splits option.splits)
  obtain g where g: "k < 32" "ucode_feed u' = (ucode_feed (ucode (np_gt n)))[k := g]" "dest_queue g = int nr"
    using alloc_generic_feed_new [OF af] len(1) by metis
  have "\<not> busy_list n ! nr" using v(1,2) ok'(1) by (simp add: busy_list_def the_queue_def)
  then have "dest_queue (ucode_feed (ucode (np_gt n)) ! j) \<noteq> int nr" if "j < 32" for j
    using uc_inv_feeds(3) [OF ok'(2), of "ucode_feed (ucode (np_gt n)) ! j"] that len(1) by auto
  then show ?thesis
    using that [of k] g len v(1) n' alloc_search_table [OF af] by (simp add: feed_indices_def upd_queue_def)
qed

lemma find_upt_single:
  assumes "m \<le> k" "k < l" "P k" "\<And>j. m \<le> j \<Longrightarrow> j < k \<Longrightarrow> \<not> P j"
  shows "find P [m ..< l] = Some k"
  using assms by (subst find_Some_iff) (auto intro!: exI [of _ "k - m"])

text \<open>The queue of a subtitle feed is a user queue.\<close>

lemma subtitle_queue:
  assumes "feed_type feed = DMX_TYPE_TS" "pes_type feed = DMX_TS_PES_SUBTITLE" "claim_queue cb qm i feed n = (Some nr, n')"
  shows "3 \<le> nr" "nr < 31"
proof -
  let ?feed = "feed\<lparr>feed_type := DMX_TYPE_SEC\<rparr>"
  obtain s where "avia_gt_napi_queue_alloc cb i feed (np_gt n) = (Some nr, s)"
    using assms(3) by (auto simp: claim_queue_def split: prod.splits option.splits)
  then have "avia_gt_napi_queue_alloc cb i ?feed (np_gt n) = (Some nr, s)"
    using assms(1,2) by (simp add: avia_gt_napi_queue_alloc_def pes_consts)
  then show "3 \<le> nr" "nr < 31" using napi_queue_alloc_view(2) by fastforce+
qed

lemma silent_stop:
  assumes "k < 32" "dest_queue (ucode_feed u ! k) = int q" "\<And>j. j < 32 \<Longrightarrow> j \<noteq> k \<Longrightarrow> dest_queue (ucode_feed u ! j) \<noteq> int q"
    "length (pid_search_table u) = 32"
  shows "silent q (prop_ucode_stop_feed k False u)"
proof -
  have "dest_queue (ucode_feed u ! k) \<noteq> -1" using assms(2) by simp
  then obtain p where "ucode_feed (prop_ucode_stop_feed k False u) = ucode_feed u"
    "pid_search_table (prop_ucode_stop_feed k False u)
       = (pid_search_table u)[k := \<lparr>wait_pusi = True, pe_INVALID = True, pe_PID = p\<rparr>]"
    using stop_feed_effect [of u k False] assms(1) by (metis list_update_id)
  moreover have "j = k" if "j < 32" "dest_queue (ucode_feed u ! j) = int q" for j using assms(3) that by blast
  ultimately show ?thesis using assms(1,2,4) unfolding silent_def by (metis nth_list_update_eq pid_entry.select_convs(2))
qed

lemma irq_enable_keeps:
  assumes "3 \<le> nr" "nr < 31" "user_isr s nr = None" "avia_gt_dmx_queue_irq_enable nr s = (r, s')"
  shows "ucode s' = ucode s" "map busy (queue_list s') = map busy (queue_list s)"
proof -
  have "gt_isr_proc_list s ! sys_isr s nr = None" using assms(1-3) by (simp add: user_isr_def)
  then have "view s' = view (set_isr nr (Some IsrQueue) s)" using irq_enable_user(2) [OF assms(1,2,4)] by blast
  then show "ucode s' = ucode s" "map busy (queue_list s') = map busy (queue_list s)"
    using view_components(3,4) [of s' "set_isr nr (Some IsrQueue) s"] by (simp_all add: set_isr_def)
qed

text \<open>
  C34: a subtitle feed that is for the decoder and for the software gets a user queue, and at the end of its own
  start the search for a user queue with its PID finds that queue: its feed of the microcode is switched off,
  and the running queue never receives a packet.
\<close>

theorem subtitle_tap_silent:
  assumes "napi_ok n" "CAP_TS \<in> set (caps (ucode (np_gt n)))" "length (pid_search_table (ucode (np_gt n))) = 32"
    "src \<noteq> DMX_MEMORY_FE" "feed_type feed = DMX_TYPE_TS" "pes_type feed = DMX_TS_PES_SUBTITLE"
    "ts_type feed = TS_PACKET OR TS_DECODER" "i < length (np_priv n)"
    "\<forall>k \<in> {3 ..< 32}. ts_pid_of n ! k \<noteq> feed_pid16 feed"
    "avia_gt_napi_start_feed junk (Some src) fs i feed n = Some (Inr 0, feed', n')"
  shows "\<exists>q. np_priv n' ! i = Some q \<and> busy (the_queue q (np_gt n')) \<and> silent q (ucode (np_gt n'))"
proof -
  have tt: "ts_type feed = 5" using assms(7) by (simp add: TS_PACKET_def TS_DECODER_def)
  have feed: "\<not> pcr_feed feed" "decoder_feed feed" "prepare_feed src feed n = (feed, n)"
    using assms(4-6) tt by (simp_all add: pcr_feed_def decoder_feed_def prepare_feed_def pes_consts TS_DECODER_def)
  obtain r n3 where st: "start_stream src i feed n = (r, n3)" by fastforce
  have "r = Inr 0" and fin: "finish_start i feed (r, n3) = Some (Inr 0, n')"
    using assms(4,5,10) feed st by (auto simp: avia_gt_napi_start_feed_def Let_def finish_start_def split: if_splits)
  have "outcome_of i feed n (r, n3)" using start_stream_outcome [OF assms(1)] st by metis
  then obtain q where got: "got q i feed n n3" using \<open>r = Inr 0\<close> by (auto simp: outcome_of_def)
  obtain nX where ts: "avia_gt_napi_start_feed_ts src i feed n = (Inr 0, nX)" and n3: "n3 = tap_user_queue False feed nX"
    using st \<open>r = Inr 0\<close> tt by (auto simp: start_stream_def TS_PAYLOAD_ONLY_def TS_DECODER_def split: prod.splits if_splits)
  have "pes_type feed \<notin> {DMX_TS_PES_AUDIO, DMX_TS_PES_VIDEO}" "pes_type feed \<noteq> DMX_TS_PES_TELETEXT"
    using assms(6) by (simp_all add: pes_consts)
  then obtain nr n1 where claim: "claim_queue (Some CALLBACK_TS_PES) TS i feed n = (Some nr, n1)"
    and run: "run_queue nr TS feed (n1\<lparr>ts_pid_of := (ts_pid_of n1)[nr := feed_pid16 feed]\<rparr>) = (Inr 0, nX)"
    using ts assms(2,4) by (cases "claim_queue (Some CALLBACK_TS_PES) TS i feed n")
      (simp add: avia_gt_napi_start_feed_ts_def split: option.splits if_splits)
  have nr: "3 \<le> nr" "nr < 31" using subtitle_queue [OF assms(5,6) claim] by auto
  obtain k where k: "k < 32" "feed_indices (np_gt n1) ! nr = k" "dest_queue (ucode_feed (ucode (np_gt n1)) ! k) = int nr"
    "\<And>j. j < 32 \<Longrightarrow> j \<noteq> k \<Longrightarrow> dest_queue (ucode_feed (ucode (np_gt n1)) ! j) \<noteq> int nr"
    "ts_pid_of n1 = ts_pid_of n" "length (pid_search_table (ucode (np_gt n1))) = length (pid_search_table (ucode (np_gt n)))"
    by (rule claim_queue_index [OF assms(1) claim]) blast
  have nX: "np_gt nX = snd (avia_gt_dmx_queue_start nr TS (feed_pid16 feed) (np_gt n1))" "np_priv nX = np_priv n1"
    "ts_pid_of nX = (ts_pid_of n)[nr := feed_pid16 feed]"
    using run k(5) by (auto simp: run_queue_def split: prod.splits)
  have u: "ucode (np_gt nX) = prop_ucode_start_queue_feeds nr (ucode (np_gt n1))"
    using view_components(3) [OF queue_start_view(2) [of nr]] nr nX(1) by (simp add: frame_simps)
  have len: "length (ts_pid_of n) = 32" "length (busy_list n) = 32" "length (queue_list (np_gt n1)) = 32"
    using assms(1) got claim_queue_effect(2) [OF assms(1) claim refl]
    by (auto simp: napi_ok_def napi_view_def view_def view_ok_def busy_list_def got_def)
  have "find (\<lambda>k. ts_pid_of nX ! k = feed_pid16 feed) [3 ..< 32] = Some nr"
    using nr assms(9) len(1) by (intro find_upt_single) (auto simp: nX(3))
  then have n3': "np_gt n3 = avia_gt_dmx_tap nr False (np_gt nX)" "np_priv n3 = np_priv nX"
    using n3 by (simp_all add: tap_user_queue_def gt_consts)
  have ind: "feed_indices (np_gt nX) = feed_indices (np_gt n1)" by (simp add: nX(1) frame_simps)
  then have "length (queue_list (np_gt nX)) = 32" using len(3) by (metis feed_indices_def length_map)
  then have idx: "feed_idx (the_queue nr (np_gt nX)) = k"
    using k(2) [folded ind] nr(2) by (simp add: feed_indices_def the_queue_def)
  have sil: "silent nr (ucode (np_gt n3))"
    using silent_stop [of k "ucode (np_gt nX)" nr] k(1,3,4,6) assms(3) by (simp add: n3' avia_gt_dmx_tap_def idx u frame_simps)
  have priv: "np_priv n3 ! i = Some nr"
    using claim_queue_effect(2) [OF assms(1) claim refl] assms(8) by (simp add: n3' nX got_def)
  then have "q = nr" using got assms(8) by (simp add: got_def)
  then have g: "user_isr (np_gt n3) nr = None" "busy_list n3 ! nr" "length (busy_list n3) = 32"
    using got nr len(2) by (simp_all add: got_def)
  obtain r' s' where e: "avia_gt_dmx_queue_irq_enable nr (np_gt n3) = (r', s')" by fastforce
  have n': "n' = n3\<lparr>np_gt := s'\<rparr>"
    using fin \<open>r = Inr 0\<close> priv e assms(5) tt by (simp add: finish_start_def TS_PACKET_def)
  then have "np_priv n' ! i = Some nr" "silent nr (ucode (np_gt n'))" "busy_list n' ! nr" "length (busy_list n') = 32"
    using irq_enable_keeps [OF nr g(1) e] priv sil g(2,3) by (simp_all add: busy_list_def)
  then show ?thesis using nr(2) by (auto simp: busy_list_def the_queue_def)
qed


section \<open>An example\<close>

definition ex_subtitle_feed :: dvb_demux_feed where
  "ex_subtitle_feed = ex_ts_feed DMX_TS_PES_SUBTITLE 5"

lemma ex_subtitle_start:
  obtains n' where
    "avia_gt_napi_start_feed ex_junk (Some DMX_FRONTEND_0) [] 0 ex_subtitle_feed ex_napi = Some (Inr 0, ex_subtitle_feed, n')"
proof -
  have ok: "napi_ok ex_napi" using feeds_run_inv [OF fr_load [OF ex_napi_loaded]] by blast
  have feed: "feed_type ex_subtitle_feed = DMX_TYPE_TS" "ts_type ex_subtitle_feed = 5" "pes_type ex_subtitle_feed = 3"
    by (simp_all add: ex_subtitle_feed_def ex_ts_feed_def pes_consts)
  have caps: "CAP_TS \<in> set (caps (ucode (np_gt ex_napi)))" by code_simp
  obtain n1 where c: "claim_queue (Some CALLBACK_TS_PES) TS 0 ex_subtitle_feed ex_napi = (Some 3, n1)"
    using ex_claim [of DMX_TS_PES_SUBTITLE 5] by (auto simp: ex_subtitle_feed_def)
  define n2 where "n2 = n1\<lparr>ts_pid_of := (ts_pid_of n1)[3 := feed_pid16 ex_subtitle_feed]\<rparr>"
  obtain r nX where run: "run_queue 3 TS ex_subtitle_feed n2 = (r, nX)" by fastforce
  have X: "r = Inr 0" "np_priv nX = np_priv n1"
    using run queue_start_view(1) [of 3] by (auto simp: run_queue_def n2_def split: prod.splits) (metis fst_conv)
  have "avia_gt_napi_start_feed_ts DMX_FRONTEND_0 0 ex_subtitle_feed ex_napi = (Inr 0, nX)"
    using caps c run X(1) by (simp add: avia_gt_napi_start_feed_ts_def feed n2_def pes_consts TS_DECODER_def)
  then obtain n3 where st: "start_stream DMX_FRONTEND_0 0 ex_subtitle_feed ex_napi = (Inr 0, n3)" "np_priv n3 = np_priv nX"
    by (simp add: start_stream_def feed TS_PAYLOAD_ONLY_def TS_DECODER_def tap_user_queue_def split: option.split)
  then obtain q where g: "got q 0 ex_subtitle_feed ex_napi n3"
    using start_stream_outcome [OF ok, of 0 ex_subtitle_feed DMX_FRONTEND_0] by (auto simp: outcome_of_def)
  have "np_priv n1 = (np_priv ex_napi)[0 := Some 3]" using claim_queue_effect(2) [OF ok c refl] by (simp add: got_def)
  moreover have "0 < length (np_priv ex_napi)" by (simp add: ex_napi_def)
  ultimately have priv: "np_priv n3 ! 0 = Some 3" "np_priv n3 ! 0 = Some q"
    using g st(2) X(2) unfolding got_def by (metis nth_list_update_eq)+
  then have q: "np_priv n3 ! 0 = Some 3" "user_isr (np_gt n3) 3 = None" using g by (simp_all add: got_def)
  obtain r' s where e: "avia_gt_dmx_queue_irq_enable 3 (np_gt n3) = (r', s)" by fastforce
  have "r' = Inr 0" using irq_enable_user(1) [OF _ _ e] q(2) by (simp add: user_isr_def)
  then show ?thesis
    using that st(1) q(1) e
    by (simp add: avia_gt_napi_start_feed_def prepare_feed_def pcr_feed_def feed finish_start_def TS_PACKET_def pes_consts Let_def)
qed

theorem subtitle_tap_silent_witness:
  "\<exists>n' q. avia_gt_napi_start_feed ex_junk (Some DMX_FRONTEND_0) [] 0 ex_subtitle_feed ex_napi = Some (Inr 0, ex_subtitle_feed, n')
    \<and> np_priv n' ! 0 = Some q \<and> busy (the_queue q (np_gt n')) \<and> silent q (ucode (np_gt n'))"
proof -
  obtain n' where n': "avia_gt_napi_start_feed ex_junk (Some DMX_FRONTEND_0) [] 0 ex_subtitle_feed ex_napi = Some (Inr 0, ex_subtitle_feed, n')"
    by (rule ex_subtitle_start)
  have "napi_ok ex_napi" using feeds_run_inv [OF fr_load [OF ex_napi_loaded]] by blast
  moreover have "CAP_TS \<in> set (caps (ucode (np_gt ex_napi)))" "length (pid_search_table (ucode (np_gt ex_napi))) = 32" by code_simp+
  ultimately show ?thesis
    using subtitle_tap_silent [OF _ _ _ _ _ _ _ _ _ n'] n'
    by (auto simp: ex_subtitle_feed_def ex_ts_feed_def TS_PACKET_def TS_DECODER_def ex_napi_def feed_pid16_def)
qed

end
