(* ===== verification/Avia_Gt_Pcr.thy ===== *)
theory Avia_Gt_Pcr
  imports Avia_Gt_Queue
begin

unbundle bit_operations_syntax

text \<open>
  Clock recovery: the interrupt of the program clock reference in \<open>avia_gt_dmx.c\<close>, which keeps the clock of
  the box in step with the sender, and the two places that set the clock of the decoder,
  \<open>avia_av_set_stc\<close> and \<open>avia_av_audio_pts_to_stc\<close> of \<open>avia_av_core.c\<close>.

  \<^item> A clock is three registers of 16 bits, of which the upper 33 bits, the base, count at 90 kHz.
  \<^item> \<open>pcr_loop\<close> holds the static variables of \<open>avia_gt_pcr_irq\<close> and the register of the oscillator. \<open>s32\<close> and
    \<open>s16\<close> cut an integer to a signed word, as an assignment does.
  \<^item> \<open>av_clock\<close> holds the registers of the decoder for the clock, its synchronisation mode and the variable
    \<open>sync_mode\<close>.
\<close>

type_synonym u64 = "64 word"
type_synonym clock_regs = "u16 \<times> u16 \<times> u16"

definition s32 :: "int \<Rightarrow> int" where "s32 x = signed_take_bit 31 x"
definition s16 :: "int \<Rightarrow> int" where "s16 x = signed_take_bit 15 x"

definition MAX_PCR_DIFF :: int where "MAX_PCR_DIFF = 36000"
definition MAX_DIFF_DIFF :: int where "MAX_DIFF_DIFF = 4"
definition FORCE_DIFF :: int where "FORCE_DIFF = 80"
definition MAX_DIFF :: int where "MAX_DIFF = 200"
definition GAIN :: int where "GAIN = 50"

lemmas pcr_consts = MAX_PCR_DIFF_def MAX_DIFF_DIFF_def FORCE_DIFF_def MAX_DIFF_def GAIN_def

record pcr_loop =
  last_pcr :: u64
  last_lstc :: u64
  last_pcr_lstc_diff :: int
  pcr_gain :: int
  DAC_PC :: u32

record av_clock =
  timer_high :: u32
  timer_low :: u32
  sync_mode :: nat
  AV_SYNC_MODE :: nat
  av_stopped :: bool

datatype direction = SLOW | OK | FAST


section \<open>Clocks\<close>

definition clock_base :: "clock_regs \<Rightarrow> u64" where
  "clock_base = (\<lambda>(r2, r1, r0). push_bit 17 (ucast r2) OR push_bit 1 (ucast r1) OR drop_bit 15 (ucast r0))"

definition avia_gt_dmx_get_pcr_base :: "clock_regs \<Rightarrow> u64" where
  "avia_gt_dmx_get_pcr_base tp_pcr = clock_base tp_pcr"

definition avia_gt_dmx_get_latched_stc_base :: "clock_regs \<Rightarrow> u64" where
  "avia_gt_dmx_get_latched_stc_base lc_stc = clock_base lc_stc"

definition avia_gt_dmx_get_stc_base :: "clock_regs \<Rightarrow> u64" where
  "avia_gt_dmx_get_stc_base stc_counter = clock_base stc_counter"

definition avia_gt_dmx_get_stc :: "nat \<Rightarrow> clock_regs \<Rightarrow> errno + u64" where
  "avia_gt_dmx_get_stc num lc_stc = (if num \<noteq> 0 then Inl EINVAL else Inr (avia_gt_dmx_get_latched_stc_base lc_stc))"

definition avia_gt_dmx_set_dac :: "int \<Rightarrow> pcr_loop \<Rightarrow> pcr_loop" where
  "avia_gt_dmx_set_dac pulse_count l = l\<lparr>DAC_PC := push_bit 16 (word_of_int pulse_count) OR 9\<rparr>"


section \<open>The interrupt\<close>

text \<open>The distance of two clock references; only a greater one is taken as later.\<close>

definition pcr_step :: "u64 \<Rightarrow> u64 \<Rightarrow> u64" where
  "pcr_step prev pcr = (if pcr > prev then pcr - prev else pcr + 0x200000000 - prev)"

text \<open>How far the latched clock is ahead, with the overflows of the two clocks in any order.\<close>

definition pcr_lstc_diff :: "pcr_loop \<Rightarrow> u64 \<Rightarrow> u64 \<Rightarrow> int" where
  "pcr_lstc_diff l pcr lstc =
     s32 (uint (if pcr < last_pcr l
                then (if lstc < last_lstc l then lstc - pcr else lstc - pcr - 0x200000000)
                else (if lstc < last_lstc l then lstc + 0x200000000 - pcr else lstc - pcr)))"

definition stc_direction :: "int \<Rightarrow> direction" where
  "stc_direction diff_diff =
     (if diff_diff > MAX_DIFF_DIFF then FAST else if diff_diff < - MAX_DIFF_DIFF then SLOW else OK)"

definition adjust :: "int \<Rightarrow> int \<Rightarrow> pcr_loop \<Rightarrow> pcr_loop" where
  "adjust gain_step new_diff l =
     (let g = s16 (pcr_gain l + gain_step) in avia_gt_dmx_set_dac g (l\<lparr>pcr_gain := g, last_pcr_lstc_diff := new_diff\<rparr>))"

definition steer :: "int \<Rightarrow> pcr_loop \<Rightarrow> pcr_loop" where
  "steer diff l =
     (let direction = stc_direction (s32 (diff - last_pcr_lstc_diff l)) in
      if diff > FORCE_DIFF then (if direction \<noteq> SLOW then adjust GAIN diff l else l)
      else if diff < - FORCE_DIFF then (if direction \<noteq> FAST then adjust (- GAIN) diff l else l)
      else if direction = FAST then adjust GAIN (s32 (last_pcr_lstc_diff l + 1)) l
      else if direction = SLOW then adjust (- GAIN) (s32 (last_pcr_lstc_diff l - 1)) l
      else l)"

text \<open>The last component is the call of \<open>avia_av_set_stc\<close>.\<close>

definition avia_gt_pcr_irq ::
  "clock_regs \<Rightarrow> clock_regs \<Rightarrow> clock_regs \<Rightarrow> gt_state \<Rightarrow> pcr_loop \<Rightarrow> gt_state \<times> pcr_loop \<times> (u32 \<times> u32) option" where
  "avia_gt_pcr_irq tp_pcr lc_stc stc_counter s l =
     (let pcr = avia_gt_dmx_get_pcr_base tp_pcr in
      if force_stc_reload s then
       (let stc = avia_gt_dmx_get_stc_base stc_counter
        in (s\<lparr>force_stc_reload := False\<rparr>, l\<lparr>last_pcr := pcr, last_lstc := pcr, last_pcr_lstc_diff := 0\<rparr>,
            Some (ucast (drop_bit 1 stc), ucast (push_bit 15 (stc AND 1)))))
      else if sint (pcr_step (last_pcr l) pcr) > MAX_PCR_DIFF
      then (avia_gt_dmx_force_discontinuity s, l, None)
      else
       (let lstc = avia_gt_dmx_get_latched_stc_base lc_stc;
            diff = pcr_lstc_diff l pcr lstc;
            l1 = l\<lparr>last_pcr := pcr, last_lstc := lstc\<rparr>
        in if diff > MAX_DIFF \<or> diff < - MAX_DIFF then (avia_gt_dmx_force_discontinuity s, l1, None)
           else (s, steer diff l1, None)))"


section \<open>The clock of the decoder\<close>

definition AVIA_AV_SYNC_MODE_NONE :: nat where "AVIA_AV_SYNC_MODE_NONE = 0"
definition AVIA_AV_SYNC_MODE_AUDIO :: nat where "AVIA_AV_SYNC_MODE_AUDIO = 4"
definition AVIA_AV_SYNC_MODE_VIDEO :: nat where "AVIA_AV_SYNC_MODE_VIDEO = 5"
definition AVIA_AV_SYNC_MODE_AV :: nat where "AVIA_AV_SYNC_MODE_AV = 6"

lemmas sync_consts = AVIA_AV_SYNC_MODE_NONE_def AVIA_AV_SYNC_MODE_AUDIO_def AVIA_AV_SYNC_MODE_VIDEO_def AVIA_AV_SYNC_MODE_AV_def

definition avia_av_set_stc :: "u32 \<Rightarrow> u32 \<Rightarrow> av_clock \<Rightarrow> av_clock" where
  "avia_av_set_stc hi lo a =
     (let data1 = drop_bit 16 hi AND 0xffff;
          data2 = hi AND 0xffff;
          a1 = a\<lparr>timer_high := push_bit 21 1 OR push_bit 4 (data1 AND 0xe000) OR push_bit 16 1
                   OR push_bit 3 (data1 AND 0x1fff) OR drop_bit 13 (data2 AND 0xc000) OR 1,
                 timer_low := push_bit 2 (data2 AND 0x3fff) OR drop_bit 14 (lo AND 0x8000) OR 1\<rparr>
      in if sync_mode a \<noteq> AVIA_AV_SYNC_MODE_NONE then a1\<lparr>AV_SYNC_MODE := sync_mode a\<rparr> else a1)"

definition avia_av_sync_mode_set :: "nat \<Rightarrow> av_clock \<Rightarrow> cret \<times> av_clock" where
  "avia_av_sync_mode_set new_mode a =
     (if new_mode \<notin> {AVIA_AV_SYNC_MODE_NONE, AVIA_AV_SYNC_MODE_AUDIO, AVIA_AV_SYNC_MODE_VIDEO, AVIA_AV_SYNC_MODE_AV}
      then (Inl EINVAL, a)
      else (Inr 0, (if av_stopped a then a else a\<lparr>AV_SYNC_MODE := new_mode\<rparr>)\<lparr>sync_mode := new_mode\<rparr>))"

text \<open>\<open>pes_header\<close> is 14 packed bytes, most significant bits first. \<open>False\<close> is the result -1.\<close>

definition pes_pts :: "u8 list \<Rightarrow> u64" where
  "pes_pts pes =
     push_bit 30 (drop_bit 1 (ucast (pes ! 9)) AND 7)
       OR push_bit 15 (push_bit 7 (ucast (pes ! 10)) OR drop_bit 1 (ucast (pes ! 11)))
       OR (push_bit 7 (ucast (pes ! 12)) OR drop_bit 1 (ucast (pes ! 13)))"

definition pes_has_audio_pts :: "u8 list \<Rightarrow> bool" where
  "pes_has_audio_pts pes \<longleftrightarrow> take 3 pes = [0, 0, 1]
     \<and> (pes ! 3 AND 0xe0 = 0xc0 \<or> pes ! 3 = 0xbd) \<and> bit (pes ! 7) 7"

definition avia_av_audio_pts_to_stc :: "u8 list \<Rightarrow> av_clock \<Rightarrow> bool \<times> av_clock" where
  "avia_av_audio_pts_to_stc pes a =
     (if \<not> pes_has_audio_pts pes then (False, a)
      else
       (let pts = pes_pts pes;
            a1 = snd (avia_av_sync_mode_set AVIA_AV_SYNC_MODE_NONE a);
            a2 = avia_av_set_stc (ucast (drop_bit 1 pts)) (ucast (push_bit 15 (pts AND 1))) a1
        in (True, snd (avia_av_sync_mode_set AVIA_AV_SYNC_MODE_VIDEO a2))))"


section \<open>The difference of the clocks\<close>

lemma clock_base_less: "clock_base r < 2 ^ 33"
proof -
  obtain r2 r1 r0 where r: "r = (r2, r1, r0)" by (metis surj_pair)
  have "\<not> bit r2 (n - 17)" "\<not> bit r1 (n - 1)" "\<not> bit r0 (15 + n)" if "33 \<le> n" for n
    using that by (auto dest: bit_imp_le_length)
  then have "take_bit 33 (clock_base r) = clock_base r"
    by (intro bit_word_eqI) (auto simp: r clock_base_def bit_simps not_less simp del: push_bit_Suc One_nat_def)
  then have "unat (clock_base r) < 2 ^ 33" by (metis unsigned_take_bit_eq take_bit_nat_less_exp)
  then show ?thesis by (simp add: word_less_nat_alt)
qed

lemma s32_small: "- 2147483648 \<le> x \<Longrightarrow> x < 2147483648 \<Longrightarrow> s32 x = x"
  unfolding s32_def by (rule signed_take_bit_int_eq_self) simp_all

lemma s16_small: "- 32768 \<le> x \<Longrightarrow> x < 32768 \<Longrightarrow> s16 x = x"
  unfolding s16_def by (rule signed_take_bit_int_eq_self) simp_all

text \<open>All branches compute the same number: the 33rd bit, for which they differ, is cut off.\<close>

lemma s32_cong: "x mod 4294967296 = y mod 4294967296 \<Longrightarrow> s32 x = s32 y"
  unfolding s32_def by (simp add: signed_take_bit_eq_iff_take_bit_eq take_bit_eq_mod)

lemma s32_multiple: "s32 (x + k * 4294967296) = s32 x"
  by (rule s32_cong) simp

lemma s32_word: "s32 (uint (word_of_int x :: u64)) = s32 x"
proof (rule s32_cong)
  have "(x mod (4294967296 * 4294967296)) mod 4294967296 = x mod 4294967296" by (rule mod_mod_cancel) simp
  then show "uint (word_of_int x :: u64) mod 4294967296 = x mod 4294967296" by (simp add: uint_word_of_int)
qed

lemma pcr_lstc_diff_eq: "pcr_lstc_diff l pcr lstc = s32 (uint lstc - uint pcr)"
proof -
  have w: "lstc - pcr = word_of_int (uint lstc - uint pcr)"
    "lstc - pcr - 0x200000000 = word_of_int (uint lstc - uint pcr + (- 2) * 4294967296)"
    "lstc + 0x200000000 - pcr = word_of_int (uint lstc - uint pcr + 2 * 4294967296)"
    by simp_all
  have "s32 (uint (lstc - pcr)) = s32 (uint lstc - uint pcr)" by (simp only: w(1) s32_word)
  moreover have "s32 (uint (lstc - pcr - 0x200000000)) = s32 (uint lstc - uint pcr)"
    by (simp only: w(2) s32_word s32_multiple)
  moreover have "s32 (uint (lstc + 0x200000000 - pcr)) = s32 (uint lstc - uint pcr)"
    by (simp only: w(3) s32_word s32_multiple)
  ultimately show ?thesis unfolding pcr_lstc_diff_def by presburger
qed

lemma clock_difference_s32:
  assumes "uint lstc = (uint pcr + d) mod 8589934592"
  shows "pcr_lstc_diff l pcr lstc = s32 d"
proof -
  obtain k where "(uint pcr + d) mod (2 * 4294967296) = uint pcr + d - (2 * 4294967296) * k"
    by (metis minus_mult_div_eq_mod)
  then have "uint lstc - uint pcr = d + (- 2 * k) * 4294967296" using assms by simp
  then show ?thesis by (simp only: pcr_lstc_diff_eq s32_multiple)
qed

lemma clock_difference_eq:
  assumes "uint lstc = (uint pcr + d) mod 8589934592" "- 2147483648 \<le> d" "d < 2147483648"
  shows "pcr_lstc_diff l pcr lstc = d"
  using clock_difference_s32 [OF assms(1)] s32_small [OF assms(2,3)] by simp

lemma s32_mod: "s32 d = (d + 2147483648) mod 4294967296 - 2147483648"
  by (simp add: s32_def signed_take_bit_eq_take_bit_shift take_bit_eq_mod)

text \<open>
  C37: let the clock of the box be ahead of that of the sender by \<open>d\<close> ticks, on 33 bits. In whatever order
  the clocks overflow, the code computes \<open>d\<close> reduced to 32 signed bits; so its difference is right exactly
  when \<open>d\<close> is at least \<open>-2^31\<close> and less than \<open>2^31\<close>.
\<close>

theorem clock_difference_exact:
  assumes "uint lstc = (uint pcr + d) mod 2 ^ 33"
  shows "pcr_lstc_diff l pcr lstc = (d + 2 ^ 31) mod 2 ^ 32 - 2 ^ 31
    \<and> (pcr_lstc_diff l pcr lstc = d \<longleftrightarrow> - (2 ^ 31) \<le> d \<and> d < 2 ^ 31)"
proof -
  have eq: "pcr_lstc_diff l pcr lstc = s32 d" using assms by (intro clock_difference_s32) simp
  have "- 2147483648 \<le> s32 d" "s32 d < 2147483648"
    using pos_mod_bound [of 4294967296 "d + 2147483648"] pos_mod_sign [of 4294967296 "d + 2147483648"]
    by (simp_all add: s32_mod)
  then have "s32 d = d \<longleftrightarrow> - 2147483648 \<le> d \<and> d < 2147483648" using s32_small [of d] by auto
  then show ?thesis by (simp add: eq) (simp add: s32_mod)
qed

text \<open>A clock that is off by half its range passes for one in step.\<close>

lemma half_range_unseen: "pcr_lstc_diff l pcr (pcr + 0x100000000) = 0"
proof -
  have "pcr_lstc_diff l pcr (pcr + 0x100000000) = s32 (uint (pcr + 0x100000000 - pcr))"
    unfolding pcr_lstc_diff_eq by (rule s32_word [symmetric, THEN trans]) simp
  then show ?thesis using s32_multiple [of 0 1] by (simp add: s32_small)
qed


section \<open>The loop stays bounded\<close>

lemma steer_cases:
  assumes diff: "- MAX_DIFF \<le> diff" "diff \<le> MAX_DIFF" and prev: "\<bar>last_pcr_lstc_diff l\<bar> \<le> MAX_DIFF"
  obtains (hold) "steer diff l = l" "\<bar>diff\<bar> \<le> FORCE_DIFF \<longrightarrow> \<bar>diff - last_pcr_lstc_diff l\<bar> \<le> MAX_DIFF_DIFF"
    "\<bar>diff\<bar> > FORCE_DIFF \<longrightarrow> \<bar>diff - last_pcr_lstc_diff l\<bar> > MAX_DIFF_DIFF"
  | (force_up) "diff > FORCE_DIFF" "steer diff l = adjust GAIN diff l"
  | (force_down) "diff < - FORCE_DIFF" "steer diff l = adjust (- GAIN) diff l"
  | (up) "\<bar>diff\<bar> \<le> FORCE_DIFF" "diff - last_pcr_lstc_diff l > MAX_DIFF_DIFF"
      "steer diff l = adjust GAIN (last_pcr_lstc_diff l + 1) l"
  | (down) "\<bar>diff\<bar> \<le> FORCE_DIFF" "last_pcr_lstc_diff l - diff > MAX_DIFF_DIFF"
      "steer diff l = adjust (- GAIN) (last_pcr_lstc_diff l - 1) l"
proof -
  let ?p = "last_pcr_lstc_diff l"
  have s: "s32 (diff - ?p) = diff - ?p" "s32 (?p + 1) = ?p + 1" "s32 (?p - 1) = ?p - 1"
    using assms by (auto intro!: s32_small simp: pcr_consts)
  consider "diff - ?p > MAX_DIFF_DIFF" | "?p - diff > MAX_DIFF_DIFF" | "\<bar>diff - ?p\<bar> \<le> MAX_DIFF_DIFF" by linarith
  then show ?thesis
  proof cases
    case 1
    then have "stc_direction (s32 (diff - ?p)) = FAST" by (simp add: s stc_direction_def)
    then have "steer diff l = (if diff > FORCE_DIFF then adjust GAIN diff l else if diff < - FORCE_DIFF then l
        else adjust GAIN (?p + 1) l)" by (simp add: steer_def s)
    then show ?thesis using that(1,2,4) 1 by (auto simp: pcr_consts split: if_splits)
  next
    case 2
    then have "stc_direction (s32 (diff - ?p)) = SLOW" by (simp add: s stc_direction_def pcr_consts)
    then have "steer diff l = (if diff > FORCE_DIFF then l else if diff < - FORCE_DIFF then adjust (- GAIN) diff l
        else adjust (- GAIN) (?p - 1) l)" by (simp add: steer_def s)
    then show ?thesis using that(1,3,5) 2 by (auto simp: pcr_consts split: if_splits)
  next
    case 3
    then have "stc_direction (s32 (diff - ?p)) = OK" by (simp add: s stc_direction_def pcr_consts abs_le_iff)
    then have "steer diff l = (if diff > FORCE_DIFF then adjust GAIN diff l else if diff < - FORCE_DIFF then adjust (- GAIN) diff l
        else l)" by (simp add: steer_def s)
    then show ?thesis using that(1-3) 3 by (auto simp: pcr_consts split: if_splits)
  qed
qed


lemma adjust_fields [simp]:
  "last_pcr_lstc_diff (adjust g x l) = x" "pcr_gain (adjust g x l) = s16 (pcr_gain l + g)"
  "last_pcr (adjust g x l) = last_pcr l" "last_lstc (adjust g x l) = last_lstc l"
  "DAC_PC (adjust g x l) = push_bit 16 (word_of_int (s16 (pcr_gain l + g))) OR 9"
  by (simp_all add: adjust_def avia_gt_dmx_set_dac_def Let_def)

lemma steer_bounded:
  assumes "- MAX_DIFF \<le> diff" "diff \<le> MAX_DIFF" "\<bar>last_pcr_lstc_diff l\<bar> \<le> MAX_DIFF"
  shows "\<bar>last_pcr_lstc_diff (steer diff l)\<bar> \<le> MAX_DIFF"
  using assms by (cases rule: steer_cases [OF assms]) (auto simp: pcr_consts)

text \<open>What happens to the loop: interrupts with any register contents, and forced discontinuities.\<close>

inductive pcr_run :: "gt_state \<Rightarrow> pcr_loop \<Rightarrow> bool" where
  pcr_load: "pcr_run s \<lparr>last_pcr = 0, last_lstc = 0, last_pcr_lstc_diff = 0, pcr_gain = 0, DAC_PC = d\<rparr>"
| pcr_interrupt: "pcr_run s l \<Longrightarrow> avia_gt_pcr_irq p c t s l = (s', l', a) \<Longrightarrow> pcr_run s' l'"
| pcr_force: "pcr_run s l \<Longrightarrow> pcr_run (avia_gt_dmx_force_discontinuity s) l"

lemma pcr_irq_cases:
  assumes "avia_gt_pcr_irq p c t s l = (s', l', a)"
  obtains (reload) "force_stc_reload s" "s' = s\<lparr>force_stc_reload := False\<rparr>"
      "l' = l\<lparr>last_pcr := clock_base p, last_lstc := clock_base p, last_pcr_lstc_diff := 0\<rparr>"
      "a = Some (ucast (drop_bit 1 (clock_base t)), ucast (push_bit 15 (clock_base t AND 1)))"
  | (jump) "\<not> force_stc_reload s" "sint (pcr_step (last_pcr l) (clock_base p)) > MAX_PCR_DIFF"
      "s' = avia_gt_dmx_force_discontinuity s" "l' = l" "a = None"
  | (lost) diff where "\<not> force_stc_reload s" "diff = pcr_lstc_diff l (clock_base p) (clock_base c)" "\<bar>diff\<bar> > MAX_DIFF"
      "s' = avia_gt_dmx_force_discontinuity s" "l' = l\<lparr>last_pcr := clock_base p, last_lstc := clock_base c\<rparr>" "a = None"
  | (regular) diff where "\<not> force_stc_reload s" "diff = pcr_lstc_diff l (clock_base p) (clock_base c)"
      "- MAX_DIFF \<le> diff" "diff \<le> MAX_DIFF" "s' = s"
      "l' = steer diff (l\<lparr>last_pcr := clock_base p, last_lstc := clock_base c\<rparr>)" "a = None"
proof -
  define call where "call = Some (ucast (drop_bit 1 (clock_base t)) :: u32, ucast (push_bit 15 (clock_base t AND 1)) :: u32)"
  define diff where "diff = pcr_lstc_diff l (clock_base p) (clock_base c)"
  define l1 where "l1 = l\<lparr>last_pcr := clock_base p, last_lstc := clock_base c\<rparr>"
  have eq: "(s', l', a) = (if force_stc_reload s
      then (s\<lparr>force_stc_reload := False\<rparr>, l\<lparr>last_pcr := clock_base p, last_lstc := clock_base p, last_pcr_lstc_diff := 0\<rparr>, call)
      else if sint (pcr_step (last_pcr l) (clock_base p)) > MAX_PCR_DIFF then (avia_gt_dmx_force_discontinuity s, l, None)
      else if diff > MAX_DIFF \<or> diff < - MAX_DIFF then (avia_gt_dmx_force_discontinuity s, l1, None)
      else (s, steer diff l1, None))"
    unfolding assms [symmetric] avia_gt_pcr_irq_def Let_def avia_gt_dmx_get_pcr_base_def avia_gt_dmx_get_latched_stc_base_def
      avia_gt_dmx_get_stc_base_def call_def diff_def l1_def by (rule refl)
  consider "force_stc_reload s" | "\<not> force_stc_reload s" "sint (pcr_step (last_pcr l) (clock_base p)) > MAX_PCR_DIFF"
    | "\<not> force_stc_reload s" "\<not> sint (pcr_step (last_pcr l) (clock_base p)) > MAX_PCR_DIFF" "diff > MAX_DIFF \<or> diff < - MAX_DIFF"
    | "\<not> force_stc_reload s" "\<not> sint (pcr_step (last_pcr l) (clock_base p)) > MAX_PCR_DIFF" "- MAX_DIFF \<le> diff" "diff \<le> MAX_DIFF"
    by linarith
  then show ?thesis
  proof cases
    case 1
    then show ?thesis using eq reload by (simp only: if_True prod.inject call_def simp_thms)
  next
    case 2
    then show ?thesis using eq jump by (simp only: if_True if_False prod.inject simp_thms)
  next
    case 3
    then have "\<bar>diff\<bar> > MAX_DIFF" by linarith
    then show ?thesis using eq 3 lost [of diff] by (simp only: if_True if_False prod.inject simp_thms diff_def l1_def)
  next
    case 4
    then have "\<not> (diff > MAX_DIFF \<or> diff < - MAX_DIFF)" by linarith
    then show ?thesis using eq 4 regular [of diff] by (simp only: if_True if_False prod.inject simp_thms diff_def l1_def)
  qed
qed

text \<open>
  C38: whatever the registers hold at the interrupts, the remembered difference of the clocks stays within
  200 ticks, so that the arithmetic on differences never overflows, and the register of the oscillator
  follows the gain, once it has been set.
\<close>

theorem clock_loop_bounded:
  assumes "pcr_run s l"
  shows "\<bar>last_pcr_lstc_diff l\<bar> \<le> MAX_DIFF \<and> (pcr_gain l = 0 \<or> DAC_PC l = push_bit 16 (word_of_int (pcr_gain l)) OR 9)"
  using assms
proof induction
  case (pcr_interrupt s l p c t s' l' a)
  let ?ok = "\<lambda>l. \<bar>last_pcr_lstc_diff l\<bar> \<le> MAX_DIFF \<and> (pcr_gain l = 0 \<or> DAC_PC l = push_bit 16 (word_of_int (pcr_gain l)) OR 9)"
  from pcr_interrupt(2) show ?case
  proof (cases rule: pcr_irq_cases)
    case (regular diff)
    let ?l1 = "l\<lparr>last_pcr := clock_base p, last_lstc := clock_base c\<rparr>"
    have l1: "\<bar>last_pcr_lstc_diff ?l1\<bar> \<le> MAX_DIFF" using pcr_interrupt.IH by simp
    have "?ok (steer diff ?l1)"
      using steer_bounded [OF regular(3,4) l1] pcr_interrupt.IH by (cases rule: steer_cases [OF regular(3,4) l1]) simp_all
    then show ?thesis using regular(6) by simp
  qed (use pcr_interrupt.IH in \<open>simp_all add: MAX_DIFF_def\<close>)
qed (simp_all add: MAX_DIFF_def)



section \<open>The loop settles\<close>

lemma uint_clock_base: "uint (clock_base r) < 8589934592"
  using clock_base_less [of r] by (simp add: word_less_def)

lemma pcr_step_exact:
  assumes "(uint pcr - uint prev) mod 8589934592 = d" "0 < d" "uint pcr < 8589934592" "uint prev < 8589934592"
  shows "sint (pcr_step prev pcr) = d"
proof -
  let ?x = "uint pcr - uint prev"
  have up: "d = ?x" if "pcr > prev"
    using assms that mod_pos_pos_trivial [of ?x 8589934592] uint_ge_0 [of prev] by (simp add: word_less_def)
  have wrap: "d = ?x + 8589934592" if "\<not> pcr > prev"
  proof -
    have "?x \<noteq> 0" using assms(1,2) by auto
    then have "0 \<le> ?x + 8589934592" "?x + 8589934592 < 8589934592"
      using that [unfolded word_less_def] assms(3,4) uint_ge_0 [of pcr] by linarith+
    then have "(?x + 8589934592) mod 8589934592 = ?x + 8589934592" by (rule mod_pos_pos_trivial)
    then show ?thesis using assms(1) by simp
  qed
  have "pcr_step prev pcr = word_of_int d" using up wrap by (cases "pcr > prev") (simp_all add: pcr_step_def)
  moreover have "d < 8589934592" using assms(1) by (auto intro: pos_mod_bound)
  ultimately show ?thesis using assms(2) by (simp add: sint_sbintrunc' signed_take_bit_int_eq_self)
qed

text \<open>Interrupts in regular steps, with the clock of the box always the same distance ahead.\<close>

fun pcr_irqs :: "(clock_regs \<times> clock_regs \<times> clock_regs) list \<Rightarrow> gt_state \<Rightarrow> pcr_loop \<Rightarrow> gt_state \<times> pcr_loop" where
  "pcr_irqs [] s l = (s, l)"
| "pcr_irqs ((p, c, t) # xs) s l = (case avia_gt_pcr_irq p c t s l of (s', l', _) \<Rightarrow> pcr_irqs xs s' l')"

fun steady :: "int \<Rightarrow> u64 \<Rightarrow> (clock_regs \<times> clock_regs \<times> clock_regs) list \<Rightarrow> bool" where
  "steady d prev [] \<longleftrightarrow> True"
| "steady d prev ((p, c, t) # xs) \<longleftrightarrow>
     (let a = (uint (clock_base p) - uint prev) mod 8589934592 in 0 < a \<and> a \<le> MAX_PCR_DIFF)
     \<and> uint (clock_base c) = (uint (clock_base p) + d) mod 8589934592 \<and> steady d (clock_base p) xs"

lemma regular_irq:
  assumes "\<not> force_stc_reload s" "uint (last_pcr l) < 8589934592" "\<bar>d\<bar> \<le> MAX_DIFF" "steady d (last_pcr l) ((p, c, t) # xs)"
  shows "avia_gt_pcr_irq p c t s l = (s, steer d (l\<lparr>last_pcr := clock_base p, last_lstc := clock_base c\<rparr>), None)"
proof -
  obtain s' l' a where irq: "avia_gt_pcr_irq p c t s l = (s', l', a)" by (metis surj_pair)
  have "sint (pcr_step (last_pcr l) (clock_base p)) \<le> MAX_PCR_DIFF"
    using assms(4) pcr_step_exact [OF refl _ uint_clock_base assms(2), of p] by (auto simp: Let_def)
  moreover have "pcr_lstc_diff l (clock_base p) (clock_base c) = d"
    using assms(3,4) by (intro clock_difference_eq) (auto simp: pcr_consts)
  ultimately have "s' = s \<and> l' = steer d (l\<lparr>last_pcr := clock_base p, last_lstc := clock_base c\<rparr>) \<and> a = None"
    using assms(1,3) irq by (cases rule: pcr_irq_cases [OF irq]) (simp_all)
  then show ?thesis using irq by simp
qed

lemma s16_add: "s16 (s16 x + y) = s16 (x + y)"
  unfolding s16_def signed_take_bit_eq_iff_take_bit_eq
  by (metis (no_types) take_bit_add take_bit_signed_take_bit diff_Suc_Suc order_refl)


lemma travel:
  fixes e n :: int
  assumes "0 \<le> n"
  shows "4 < e \<Longrightarrow> sgn e * min (n + 1) (max 0 (\<bar>e\<bar> - 4)) = sgn (e - 1) * min n (max 0 (\<bar>e - 1\<bar> - 4)) + 1"
    "e < - 4 \<Longrightarrow> sgn e * min (n + 1) (max 0 (\<bar>e\<bar> - 4)) = sgn (e + 1) * min n (max 0 (\<bar>e + 1\<bar> - 4)) - 1"
    "\<bar>e\<bar> \<le> 4 \<Longrightarrow> sgn e * min n (max 0 (\<bar>e\<bar> - 4)) = 0"
  using assms by (auto simp: min_def max_def)

lemma travel_gain:
  "t = m + 1 \<Longrightarrow> a + 1 + m = a + t \<and> s16 (s16 (g + 50) + 50 * m) = s16 (g + 50 * t)"
  "t = m - 1 \<Longrightarrow> a - 1 + m = a + t \<and> s16 (s16 (g - 50) + 50 * m) = s16 (g + 50 * t)"
  unfolding s16_add by (auto simp: algebra_simps)

text \<open>
  C36: while the clock of the box keeps the same distance of at most 80 ticks, the loop changes the gain by 50
  at an interrupt until the remembered difference is within 4 ticks, in as many interrupts as it is further
  off, and leaves the gain alone from then on.
\<close>

theorem clock_loop_settles:
  assumes "\<not> force_stc_reload s" "uint (last_pcr l) < 2 ^ 33" "\<bar>last_pcr_lstc_diff l\<bar> \<le> MAX_DIFF" "\<bar>d\<bar> \<le> FORCE_DIFF"
    and "steady d (last_pcr l) xs"
    and "e = d - last_pcr_lstc_diff l" "k = min (int (length xs)) (max 0 (\<bar>e\<bar> - 4))"
    and "s16 (pcr_gain l) = pcr_gain l"
  shows "\<exists>l'. pcr_irqs xs s l = (s, l') \<and> last_pcr_lstc_diff l' = last_pcr_lstc_diff l + sgn e * k
    \<and> pcr_gain l' = s16 (pcr_gain l + 50 * (sgn e * k))"
  using assms
proof (induction xs arbitrary: l e k)
  case (Cons x xs)
  obtain p c t where x: "x = (p, c, t)" by (metis surj_pair)
  let ?l1 = "l\<lparr>last_pcr := clock_base p, last_lstc := clock_base c\<rparr>"
  let ?l2 = "steer d ?l1" and ?e = "d - last_pcr_lstc_diff (steer d ?l1)"
  have d: "- MAX_DIFF \<le> d" "d \<le> MAX_DIFF" "\<bar>last_pcr_lstc_diff ?l1\<bar> \<le> MAX_DIFF" "\<bar>d\<bar> \<le> MAX_DIFF"
    using Cons.prems(3,4) by (auto simp: pcr_consts)
  have irq: "avia_gt_pcr_irq p c t s l = (s, ?l2, None)"
    using regular_irq [OF Cons.prems(1) _ d(4)] Cons.prems(2,5) x by simp
  have pcr: "last_pcr ?l2 = clock_base p" by (cases rule: steer_cases [OF d(1-3)]) simp_all
  have gain: "s16 (pcr_gain ?l2) = pcr_gain ?l2"
    using Cons.prems(8) s16_add [of _ 0] by (cases rule: steer_cases [OF d(1-3)]) simp_all
  have "\<exists>l'. pcr_irqs xs s ?l2 = (s, l')
      \<and> last_pcr_lstc_diff l' = last_pcr_lstc_diff ?l2 + sgn ?e * min (int (length xs)) (max 0 (\<bar>?e\<bar> - 4))
      \<and> pcr_gain l' = s16 (pcr_gain ?l2 + 50 * (sgn ?e * min (int (length xs)) (max 0 (\<bar>?e\<bar> - 4))))"
    using Cons.IH [OF Cons.prems(1) _ steer_bounded [OF d(1-3)] Cons.prems(4) _ refl refl gain] uint_clock_base [of p] Cons.prems(5) x pcr
    by simp
  then obtain l' where l': "pcr_irqs xs s ?l2 = (s, l')"
    "last_pcr_lstc_diff l' = last_pcr_lstc_diff ?l2 + sgn ?e * min (int (length xs)) (max 0 (\<bar>?e\<bar> - 4))"
    "pcr_gain l' = s16 (pcr_gain ?l2 + 50 * (sgn ?e * min (int (length xs)) (max 0 (\<bar>?e\<bar> - 4))))" by blast
  let ?n = "int (length xs)"
  have n: "0 \<le> ?n" "int (length (x # xs)) = ?n + 1" by simp_all
  let ?m = "sgn ?e * min ?n (max 0 (\<bar>?e\<bar> - 4))"
  have "last_pcr_lstc_diff ?l2 + ?m = last_pcr_lstc_diff l + sgn e * k
    \<and> s16 (pcr_gain ?l2 + 50 * ?m) = s16 (pcr_gain l + 50 * (sgn e * k))"
    using d(1-3)
  proof (cases rule: steer_cases)
    case hold
    then have "\<bar>e\<bar> \<le> 4" "?e = e" using Cons.prems(4,6) by (simp_all add: pcr_consts)
    then show ?thesis using travel(3) [of ?n e] travel(3) [of "?n + 1" e] hold(1) unfolding Cons.prems(7) n(2) by simp
  next
    case up
    then have e: "4 < e" "?e = e - 1" and l2: "pcr_gain ?l2 = s16 (pcr_gain l + 50)" "last_pcr_lstc_diff ?l2 = last_pcr_lstc_diff l + 1"
      using Cons.prems(6) by (simp_all add: pcr_consts)
    have "sgn e * k = ?m + 1" unfolding Cons.prems(7) n(2) e(2) by (rule travel(1) [OF n(1) e(1)])
    then show ?thesis unfolding l2 by (rule travel_gain(1))
  next
    case down
    then have e: "e < - 4" "?e = e + 1" and l2: "pcr_gain ?l2 = s16 (pcr_gain l - 50)" "last_pcr_lstc_diff ?l2 = last_pcr_lstc_diff l - 1"
      using Cons.prems(6) by (simp_all add: pcr_consts)
    have "sgn e * k = ?m - 1" unfolding Cons.prems(7) n(2) e(2) by (rule travel(2) [OF n(1) e(1)])
    then show ?thesis unfolding l2 by (rule travel_gain(2))
  qed (use Cons.prems(4) in \<open>simp_all add: pcr_consts\<close>)
  then show ?case using l' irq x by simp
qed (simp add: min_def)


text \<open>The gain has no limits: at the end of 16 bits it jumps to the other end.\<close>

lemma gain_wraps:
  assumes "FORCE_DIFF < d" "d \<le> MAX_DIFF" "last_pcr_lstc_diff l = d" "32718 \<le> pcr_gain l" "pcr_gain l < 32768"
  shows "pcr_gain (steer d l) = pcr_gain l + 50 - 65536"
proof -
  have "s32 0 = 0" by (simp add: s32_small)
  then have "steer d l = adjust GAIN d l" using assms(1,3) by (simp add: steer_def stc_direction_def MAX_DIFF_DIFF_def)
  moreover have "s16 (pcr_gain l + 50) = s16 (pcr_gain l + 50 - 65536)"
    using mod_add_self2 [of "pcr_gain l - 65486" 65536]
    unfolding s16_def signed_take_bit_eq_iff_take_bit_eq by (simp add: take_bit_eq_mod add.commute)
  ultimately show ?thesis using assms(4,5) by (simp add: GAIN_def s16_small)
qed

text \<open>
  A clock reference that is equal to the last one is not later: it counts as a discontinuity, after which the
  next interrupt sets the clock of the decoder again.
\<close>

lemma repeated_pcr_discontinuity:
  assumes "\<not> force_stc_reload s" "clock_base p = last_pcr l"
  shows "avia_gt_pcr_irq p c t s l = (avia_gt_dmx_force_discontinuity s, l, None)"
proof -
  have "sint (pcr_step (last_pcr l) (clock_base p)) = 8589934592"
    using assms(2) by (simp add: pcr_step_def)
  then show ?thesis using assms(1) by (simp add: avia_gt_pcr_irq_def avia_gt_dmx_get_pcr_base_def Let_def MAX_PCR_DIFF_def)
qed


section \<open>Setting the clock of the decoder\<close>

text \<open>The base in the two timer registers, and the time stamp in the header of a PES packet by the standard.\<close>

definition timer_base :: "av_clock \<Rightarrow> u64" where
  "timer_base a =
     push_bit 30 (drop_bit 17 (ucast (timer_high a)) AND 7) OR push_bit 17 (drop_bit 3 (ucast (timer_high a)) AND 0x1fff)
       OR push_bit 15 (drop_bit 1 (ucast (timer_high a)) AND 3) OR push_bit 1 (drop_bit 2 (ucast (timer_low a)) AND 0x3fff)
       OR (drop_bit 1 (ucast (timer_low a)) AND 1)"

definition pts_bytes :: "u64 \<Rightarrow> u8 list" where
  "pts_bytes pts =
     [0x21 OR push_bit 1 (ucast (drop_bit 30 pts) AND 7), ucast (drop_bit 22 pts), push_bit 1 (ucast (drop_bit 15 pts)) OR 1,
      ucast (drop_bit 7 pts), push_bit 1 (ucast pts) OR 1]"

lemma clock_word_eqI:
  fixes v w :: u64
  assumes "list_all (\<lambda>n. bit v n = (n < 33 \<and> bit w n)) [0 ..< 64]" "w < 2 ^ 33"
  shows "v = w"
proof (rule bit_word_eqI)
  have "take_bit 33 (unat w) = unat w" using assms(2) by (simp add: word_less_nat_alt take_bit_nat_eq_self)
  then have "bit (unat w) n \<Longrightarrow> n < 33" for n by (metis bit_take_bit_iff)
  then have "bit w n \<Longrightarrow> n < 33" for n by (simp add: bit_unsigned_iff bit_imp_le_length)
  then show "bit v n = bit w n" if "n < LENGTH(64)" for n
    using assms(1) that by (auto simp: list_all_iff)
qed

lemma all_bits: "list_all P [0 ..< 64] \<longleftrightarrow> P 0 \<and> P 1 \<and> list_all P [2 ..< 64]"
  by (simp add: upt_rec [of 0] upt_rec [of "Suc 0"] numeral_2_eq_2 [symmetric])

lemma set_stc_base:
  assumes "b < 2 ^ 33"
  shows "timer_base (avia_av_set_stc (ucast (drop_bit 1 b)) (ucast (push_bit 15 (b AND 1))) a) = b"
proof (rule clock_word_eqI [OF _ assms])
  show "list_all (\<lambda>n. bit (timer_base (avia_av_set_stc (ucast (drop_bit 1 b)) (ucast (push_bit 15 (b AND 1))) a)) n = (n < 33 \<and> bit b n)) [0 ..< 64]"
    unfolding all_bits
    by (simp add: timer_base_def avia_av_set_stc_def Let_def bit_simps numeral_2_eq_2 [symmetric] numeral_3_eq_3 [symmetric]
        del: push_bit_Suc drop_bit_Suc)
qed


lemma clock_word_less:
  fixes w :: u64
  assumes "list_all (\<lambda>n. \<not> bit w n) [33 ..< 64]"
  shows "w < 2 ^ 33"
proof -
  have "\<not> bit w n" if n: "33 \<le> n" "n < 64" for n
  proof -
    have "n \<in> set [33 ..< 64]" unfolding set_upt using n by (rule atLeastLessThan_iff [THEN iffD2, OF conjI])
    then show ?thesis using assms unfolding list_all_iff by (rule bspec [rotated])
  qed
  then have "n < 33" if "n < 64" "bit w n" for n using that not_less by blast
  then have "take_bit 33 w = w" by (intro bit_word_eqI) (auto simp: bit_take_bit_iff)
  then have "unat w < 2 ^ 33" by (metis unsigned_take_bit_eq take_bit_nat_less_exp)
  then show ?thesis by (simp add: word_less_nat_alt)
qed

lemma pes_pts_less: "pes_pts pes < 2 ^ 33"
proof (rule clock_word_less)
  have "\<not> bit (x :: u8) k" if "8 \<le> k" for x k using that bit_imp_le_length [of x k] by auto
  then show "list_all (\<lambda>n. \<not> bit (pes_pts pes) n) [33 ..< 64]"
    by (simp add: pes_pts_def bit_simps del: push_bit_Suc drop_bit_Suc)
qed

lemma pes_pts_bytes:
  assumes "pts < 2 ^ 33" "take 5 (drop 9 pes) = pts_bytes pts"
  shows "pes_pts pes = pts"
proof -
  have "9 \<le> length pes" using arg_cong [OF assms(2), of length] by (simp add: pts_bytes_def)
  then have "pes ! (9 + k) = take 5 (drop 9 pes) ! k" if "k < 5" for k using that by simp
  from this [of 0] this [of 1] this [of 2] this [of 3] this [of 4]
  have b: "pes ! 9 = pts_bytes pts ! 0" "pes ! 10 = pts_bytes pts ! 1" "pes ! 11 = pts_bytes pts ! 2" "pes ! 12 = pts_bytes pts ! 3"
    "pes ! 13 = pts_bytes pts ! 4" unfolding assms(2) by simp_all
  show ?thesis
  proof (rule clock_word_eqI [OF _ assms(1)])
    show "list_all (\<lambda>n. bit (pes_pts pes) n = (n < 33 \<and> bit pts n)) [0 ..< 64]"
      unfolding all_bits
      by (simp add: pes_pts_def b pts_bytes_def bit_simps numeral_2_eq_2 [symmetric] numeral_3_eq_3 [symmetric]
          del: push_bit_Suc drop_bit_Suc)
  qed
qed

text \<open>
  The time stamp of an audio packet, written into its header by the standard, is what the registers of the
  decoder hold after the driver has taken it; the decoder is then synchronised to video.
\<close>

theorem audio_pts_sets_clock:
  assumes "pes_has_audio_pts pes" "take 5 (drop 9 pes) = pts_bytes pts" "pts < 2 ^ 33"
  shows "\<exists>a'. avia_av_audio_pts_to_stc pes a = (True, a') \<and> timer_base a' = pts \<and> sync_mode a' = AVIA_AV_SYNC_MODE_VIDEO"
proof -
  have "timer_base (x\<lparr>sync_mode := m\<rparr>) = timer_base x" "timer_base (x\<lparr>AV_SYNC_MODE := m\<rparr>) = timer_base x" for x m
    by (simp_all add: timer_base_def)
  moreover have "pes_pts pes = pts" by (rule pes_pts_bytes [OF assms(3,2)])
  ultimately show ?thesis
    using assms(1) set_stc_base [OF assms(3)]
    by (auto simp: avia_av_audio_pts_to_stc_def avia_av_sync_mode_set_def Let_def)
qed

text \<open>After a discontinuity the decoder gets the clock of the box.\<close>

lemma reload_sets_decoder:
  assumes "avia_gt_pcr_irq p c t s l = (s', l', Some (hi, lo))"
  shows "timer_base (avia_av_set_stc hi lo a) = clock_base t"
  using set_stc_base [OF clock_base_less] by (cases rule: pcr_irq_cases [OF assms]) simp_all


section \<open>Examples\<close>

theorem clock_difference_exact_witness:
  "pcr_lstc_diff \<lparr>last_pcr = 0x1fffffff0, last_lstc = 0x1fffffff8, last_pcr_lstc_diff = 8, pcr_gain = 0, DAC_PC = 9\<rparr>
     0x1fffffffe 3 = 5"
  using clock_difference_exact [of 3 "0x1fffffffe" 5] by simp

definition ex_loop :: pcr_loop where
  "ex_loop = \<lparr>last_pcr = 0, last_lstc = 0, last_pcr_lstc_diff = 0, pcr_gain = 0, DAC_PC = 9\<rparr>"

theorem clock_loop_bounded_witness:
  "\<bar>last_pcr_lstc_diff (fst (snd (avia_gt_pcr_irq (0, 1, 0) (0, 50, 0) (0, 0, 0) ex_gt ex_loop)))\<bar> \<le> 200"
proof -
  obtain s' l' a where irq: "avia_gt_pcr_irq (0, 1, 0) (0, 50, 0) (0, 0, 0) ex_gt ex_loop = (s', l', a)" by (metis surj_pair)
  have "pcr_run ex_gt ex_loop" unfolding ex_loop_def by (rule pcr_load)
  then have "pcr_run s' l'" using irq by (rule pcr_interrupt)
  then show ?thesis using clock_loop_bounded [of s' l'] irq by (simp add: MAX_DIFF_def)
qed

text \<open>Six interrupts in steps of 40 ms with the clock 7 ticks ahead: the gain moves three times.\<close>

definition ex_irqs :: "(clock_regs \<times> clock_regs \<times> clock_regs) list" where
  "ex_irqs = map (\<lambda>k. ((0, of_nat (1800 * k), 0), (0, of_nat (1800 * k + 3), 0x8000), (0, 0, 0))) [1, 2, 3, 4, 5, 6]"

theorem clock_loop_settles_witness:
  "\<exists>l'. pcr_irqs ex_irqs ex_gt ex_loop = (ex_gt, l') \<and> last_pcr_lstc_diff l' = 3 \<and> pcr_gain l' = 150"
proof -
  have "steady 7 (last_pcr ex_loop) ex_irqs" by (simp add: ex_irqs_def ex_loop_def clock_base_def MAX_PCR_DIFF_def)
  moreover have "\<not> force_stc_reload ex_gt" by (simp add: ex_gt_def)
  ultimately show ?thesis
    using clock_loop_settles [of ex_gt ex_loop 7 ex_irqs 7 3]
    by (simp add: ex_loop_def ex_irqs_def pcr_consts s16_small)
qed

definition ex_audio_pes :: "u8 list" where
  "ex_audio_pes = [0, 0, 1, 0xc0, 0, 0, 0x80, 0x80, 5] @ pts_bytes 0x123456789 @ [1, 2, 3]"

theorem audio_pts_sets_clock_witness:
  "\<exists>a'. avia_av_audio_pts_to_stc ex_audio_pes
      \<lparr>timer_high = 0, timer_low = 0, sync_mode = AVIA_AV_SYNC_MODE_AV, AV_SYNC_MODE = 0, av_stopped = False\<rparr> = (True, a')
    \<and> timer_base a' = 0x123456789 \<and> sync_mode a' = AVIA_AV_SYNC_MODE_VIDEO"
proof (rule audio_pts_sets_clock)
  show "pes_has_audio_pts ex_audio_pes" by code_simp
  show "take 5 (drop 9 ex_audio_pes) = pts_bytes 0x123456789" by (simp add: ex_audio_pes_def pts_bytes_def)
qed simp

end
