(* ===== verification/Avia_Gt_Napi_Playback.thy ===== *)
theory Avia_Gt_Napi_Playback
  imports Avia_Gt_Napi_Feed Avia_Gt_System Avia_Gt_Pcr Demux_Api
begin

unbundle bit_operations_syntax

text \<open>
  Playing back from memory, \<open>avia_gt_napi.c\<close>: packets the software demultiplexer gives to the decoder, the
  switch between the tuner and the memory as source, and the set-up of the driver.

  \<^item> \<open>avia_gt_napi_write_to_decoder\<close> is the hook \<open>write_to_decoder\<close> of the demultiplexer. A read behind the
    packet is the outcome \<open>Fault\<close>; a wait for a decoder that does not read is \<open>Deadlock\<close>.
  \<^item> \<open>avia_gt_napi_connect_frontend\<close> and \<open>_disconnect_frontend\<close> replace those of the demultiplexer. \<open>None\<close> is an
    access through the null pointer of a demux without frontend; \<open>intr\<close> is a signal while waiting for its mutex.
  \<^item> \<open>avia_gt_napi_init\<close> calls the components one after the other. \<open>fails\<close> says which call fails;
    the result lists what was acquired and released.
\<close>

section \<open>Packets for the decoder\<close>

text \<open>The PES header lies behind the header of the packet and its adaptation field.\<close>

definition pes_place :: "u8 list \<Rightarrow> nat" where
  "pes_place buf = 4 + (if bit (buf ! 3) 5 then unat (buf ! 4) + 1 else 0)"

text \<open>The time stamp of the first audio packet sets the clock. \<open>ts_header\<close> is 4, \<open>pes_header\<close> 14 bytes long.\<close>

definition play_audio_pts :: "u8 list \<Rightarrow> napi_state \<Rightarrow> av_clock \<Rightarrow> (napi_state \<times> av_clock) option" where
  "play_audio_pts buf n a =
     (if \<not> need_audio_pts n then Some (n, a)
      else if \<not> (bit (buf ! 1) 6 \<and> bit (buf ! 3) 4) then Some (n, a)
      else
       (let pes_offset = pes_place buf
        in if bit (buf ! 3) 5 \<and> pes_offset > 188 - 4 - 14 then Some (n, a)
           else if pes_offset + 14 > length buf then None
           else (case avia_av_audio_pts_to_stc (drop pes_offset buf) a of
                   (done, a') \<Rightarrow> Some (if done then n\<lparr>need_audio_pts := False\<rparr> else n, a'))))"

definition write_queue :: "nat \<Rightarrow> u8 list \<Rightarrow> napi_state \<Rightarrow> (cret \<times> napi_state) outcome" where
  "write_queue nr buf n =
     (case avia_gt_dmx_queue_write nr buf False (np_gt n) of
        Returns (r, s) \<Rightarrow> Returns (r, n\<lparr>np_gt := s\<rparr>) | Deadlock \<Rightarrow> Deadlock | Fault \<Rightarrow> Fault)"

definition avia_gt_napi_write_to_decoder ::
  "dvb_demux_feed \<Rightarrow> u8 list \<Rightarrow> napi_state \<Rightarrow> av_clock \<Rightarrow> (cret \<times> napi_state \<times> av_clock) outcome" where
  "avia_gt_napi_write_to_decoder feed buf n a =
     (if \<not> clipmode n then Returns (Inl EINVAL, n, a)
      else if buf ! 0 \<noteq> 0x47 then Returns (Inl EINVAL, n, a)
      else if pes_type feed = DMX_TS_PES_AUDIO then
        (case write_queue AVIA_GT_DMX_QUEUE_VIDEO buf n of
           Returns (Inl e, n1) \<Rightarrow> Returns (Inl e, n1, a)
         | Returns (Inr _, n1) \<Rightarrow>
            (case play_audio_pts buf n1 a of None \<Rightarrow> Fault | Some (n2, a2) \<Rightarrow> Returns (Inr 0, n2, a2))
         | Deadlock \<Rightarrow> Deadlock | Fault \<Rightarrow> Fault)
      else if pes_type feed \<in> {DMX_TS_PES_VIDEO, DMX_TS_PES_TELETEXT} then
        (case write_queue (if pes_type feed = DMX_TS_PES_VIDEO then AVIA_GT_DMX_QUEUE_VIDEO else AVIA_GT_DMX_QUEUE_TELETEXT) buf n of
           Returns (Inl e, n1) \<Rightarrow> Returns (Inl e, n1, a)
         | Returns (Inr _, n1) \<Rightarrow> Returns (Inr 0, n1, a)
         | Deadlock \<Rightarrow> Deadlock | Fault \<Rightarrow> Fault)
      else Returns (Inl EINVAL, n, a))"


section \<open>Sources\<close>

definition avia_gt_napi_connect_frontend ::
  "bool \<Rightarrow> dmx_frontend \<Rightarrow> dvb_demux \<Rightarrow> napi_state \<Rightarrow> cret \<times> dvb_demux \<times> napi_state" where
  "avia_gt_napi_connect_frontend intr fe d n =
     (case dvbdmx_connect_frontend intr fe d of
        (Inl e, d1) \<Rightarrow> (Inl e, d1, n)
      | (Inr _, d1) \<Rightarrow>
         if fe_source fe = DMX_MEMORY_FE then
           (case avia_gt_dmx_enable_clip_mode AVIA_GT_DMX_SYSTEM_QUEUES (np_gt n) of
              (Inl e, s) \<Rightarrow> (Inl e, d1, n\<lparr>np_gt := s\<rparr>)
            | (Inr _, s) \<Rightarrow> (Inr 0, d1, n\<lparr>np_gt := s, clipmode := True\<rparr>))
         else (Inr 0, d1, n))"

definition avia_gt_napi_disconnect_frontend ::
  "bool \<Rightarrow> dvb_demux \<Rightarrow> napi_state \<Rightarrow> (cret \<times> dvb_demux \<times> napi_state) option" where
  "avia_gt_napi_disconnect_frontend intr d n =
     (case dmx_frontend d of
        None \<Rightarrow> None
      | Some fe \<Rightarrow>
         if fe_source fe = DMX_MEMORY_FE then
           (case avia_gt_dmx_disable_clip_mode AVIA_GT_DMX_SYSTEM_QUEUES (np_gt n) of
              (Inl e, s) \<Rightarrow> Some (Inl e, d, n\<lparr>np_gt := s\<rparr>)
            | (Inr _, s) \<Rightarrow>
               (let (r, d1) = dvbdmx_disconnect_frontend intr d in Some (r, d1, n\<lparr>np_gt := s, clipmode := False\<rparr>)))
         else (let (r, d1) = dvbdmx_disconnect_frontend intr d in Some (r, d1, n)))"


section \<open>Set-up\<close>

datatype napi_stage =
  SectionBuffer | DemuxInit | DmxdevInit | HwFrontend | MemFrontend | ConnectHw | TuneNotifier | NetInit | CaDevice

datatype init_event = Acquired napi_stage | Released napi_stage | Closed

text \<open>The labels of the error path, each of which runs into the next.\<close>

definition init_failed_free_section :: "init_event list" where
  "init_failed_free_section = [Released SectionBuffer]"
definition init_failed_dmx_release :: "init_event list" where
  "init_failed_dmx_release = Released DemuxInit # init_failed_free_section"
definition init_failed_dmxdev_release :: "init_event list" where
  "init_failed_dmxdev_release = Released DmxdevInit # init_failed_dmx_release"
definition init_failed_remove_hw_frontend :: "init_event list" where
  "init_failed_remove_hw_frontend = Released HwFrontend # init_failed_dmxdev_release"
definition init_failed_remove_mem_frontend :: "init_event list" where
  "init_failed_remove_mem_frontend = Released MemFrontend # init_failed_remove_hw_frontend"
definition init_failed_disconnect_frontend :: "init_event list" where
  "init_failed_disconnect_frontend = Released ConnectHw # init_failed_remove_mem_frontend"
definition init_failed_remove_frontend_notifier :: "init_event list" where
  "init_failed_remove_frontend_notifier = Released TuneNotifier # init_failed_disconnect_frontend"
definition init_failed_release_net :: "init_event list" where
  "init_failed_release_net = Released NetInit # init_failed_remove_frontend_notifier"

lemmas init_labels = init_failed_free_section_def init_failed_dmx_release_def init_failed_dmxdev_release_def
  init_failed_remove_hw_frontend_def init_failed_remove_mem_frontend_def init_failed_disconnect_frontend_def
  init_failed_remove_frontend_notifier_def init_failed_release_net_def

text \<open>A call that fails goes to its label; one that succeeds goes on.\<close>

definition stage :: "(napi_stage \<Rightarrow> errno option) \<Rightarrow> napi_stage \<Rightarrow> init_event list
    \<Rightarrow> (init_event list \<Rightarrow> cret \<times> init_event list) \<Rightarrow> init_event list \<Rightarrow> cret \<times> init_event list" where
  "stage fails st failed continue evs =
     (case fails st of Some e \<Rightarrow> (Inl e, evs @ failed) | None \<Rightarrow> continue (evs @ [Acquired st]))"

definition avia_gt_napi_init_calls :: "(napi_stage \<Rightarrow> errno option) \<Rightarrow> ucode_cap list \<Rightarrow> cret \<times> init_event list" where
  "avia_gt_napi_init_calls fails cs =
     stage fails SectionBuffer []
      (stage fails DemuxInit init_failed_free_section
       (stage fails DmxdevInit init_failed_dmx_release
        (stage fails HwFrontend init_failed_dmxdev_release
         (stage fails MemFrontend init_failed_remove_hw_frontend
          (stage fails ConnectHw init_failed_remove_mem_frontend
           (stage fails TuneNotifier init_failed_disconnect_frontend
            (stage fails NetInit init_failed_remove_frontend_notifier
             (\<lambda>evs. if CAP_ECD \<in> set cs then stage fails CaDevice init_failed_release_net (Pair (Inr 0)) evs
                    else (Inr 0, evs))))))))) []"

text \<open>The state of the driver after loading, and the playback mode a microcode without PES can only have.\<close>

definition avia_gt_napi_init ::
  "(napi_stage \<Rightarrow> errno option) \<Rightarrow> bool \<Rightarrow> bool \<Rightarrow> napi_state \<Rightarrow> cret \<times> init_event list \<times> napi_state" where
  "avia_gt_napi_init fails chip_ok adapter_ok n =
     (if \<not> chip_ok then (Inl ENODEV, [], n)
      else if \<not> adapter_ok then (Inl EINVAL, [], n)
      else
       (let n1 = n\<lparr>ts_pid_of := replicate AVIA_GT_DMX_QUEUE_COUNT 0xffff\<rparr>;
            cs = caps (ucode (np_gt n));
            (r, evs) = avia_gt_napi_init_calls fails cs
        in (r, evs, if r = Inr 0 \<and> CAP_PES \<notin> set cs \<and> np_mode n \<noteq> 1 then n1\<lparr>np_mode := 1\<rparr> else n1)))"

text \<open>\<open>ca_dev\<close> is null when there is no descrambler; then it is not unregistered.\<close>

definition avia_gt_napi_exit :: "bool \<Rightarrow> init_event list" where
  "avia_gt_napi_exit ca_dev =
     (if ca_dev then [Released CaDevice] else [])
     @ [Released NetInit, Released TuneNotifier, Closed, Released ConnectHw, Released MemFrontend, Released HwFrontend,
        Released DmxdevInit, Released DemuxInit, Released SectionBuffer]"



section \<open>Nothing is left behind\<close>

text \<open>What was acquired last has to be released first.\<close>

fun balance :: "init_event list \<Rightarrow> napi_stage list \<Rightarrow> napi_stage list option" where
  "balance [] held_now = Some held_now"
| "balance (Acquired st # evs) held_now = balance evs (st # held_now)"
| "balance (Released st # evs) held_now =
     (case held_now of [] \<Rightarrow> None | st' # rest \<Rightarrow> if st = st' then balance evs rest else None)"
| "balance (Closed # evs) held_now = balance evs held_now"

text \<open>
  Whichever call of the set-up fails, all that was acquired before is released, the last first; after a
  successful set-up the exit function does the same.
\<close>

theorem setup_balanced:
  "case avia_gt_napi_init_calls fails cs of
     (Inl _, evs) \<Rightarrow> balance evs [] = Some []
   | (Inr _, evs) \<Rightarrow> balance (evs @ avia_gt_napi_exit (CAP_ECD \<in> set cs)) [] = Some []"
  by (simp add: avia_gt_napi_init_calls_def stage_def init_labels avia_gt_napi_exit_def split: option.split)


section \<open>Playback\<close>

text \<open>
  The specification of the time stamp in a transport packet with the start of an audio PES packet. It has
  the bound of the code: a header that starts at one of the places 171 to 174 would still fit with its time
  stamp, but counts as none.
\<close>

definition packet_pts :: "u8 list \<Rightarrow> u64 option" where
  "packet_pts buf =
     (if bit (buf ! 1) 6 \<and> bit (buf ! 3) 4 \<and> pes_place buf \<le> 170 \<and> pes_has_audio_pts (drop (pes_place buf) buf)
      then Some (pes_pts (drop (pes_place buf) buf)) else None)"

lemma timer_base_frame: "timer_base (a\<lparr>sync_mode := m\<rparr>) = timer_base a" "timer_base (a\<lparr>AV_SYNC_MODE := m\<rparr>) = timer_base a"
  by (simp_all add: timer_base_def)

lemma audio_pts_to_stc_effect:
  assumes "pes_has_audio_pts pes"
  shows "\<exists>a'. avia_av_audio_pts_to_stc pes a = (True, a') \<and> timer_base a' = pes_pts pes"
  using assms set_stc_base [OF pes_pts_less]
  by (auto simp: avia_av_audio_pts_to_stc_def avia_av_sync_mode_set_def Let_def timer_base_frame)

lemma play_audio_pts_effect:
  assumes "length buf = 188"
  obtains a' where "need_audio_pts n" "packet_pts buf \<noteq> None" "play_audio_pts buf n a = Some (n\<lparr>need_audio_pts := False\<rparr>, a')"
      "timer_base a' = the (packet_pts buf)"
  | "\<not> need_audio_pts n \<or> packet_pts buf = None" "play_audio_pts buf n a = Some (n, a)"
proof (cases "need_audio_pts n \<and> packet_pts buf \<noteq> None")
  case True
  then have p: "bit (buf ! 1) 6" "bit (buf ! 3) 4" "pes_place buf \<le> 170" "pes_has_audio_pts (drop (pes_place buf) buf)"
    "packet_pts buf = Some (pes_pts (drop (pes_place buf) buf))" by (auto simp: packet_pts_def split: if_splits)
  obtain a' where "avia_av_audio_pts_to_stc (drop (pes_place buf) buf) a = (True, a')" "timer_base a' = pes_pts (drop (pes_place buf) buf)"
    using audio_pts_to_stc_effect [OF p(4)] by blast
  then show ?thesis
    using that(1) True p assms by (simp add: play_audio_pts_def Let_def)
next
  case False
  have "pes_place buf = 4" if "\<not> bit (buf ! 3) 5" using that by (simp add: pes_place_def)
  then have "play_audio_pts buf n a = Some (n, a)"
    using False assms
    by (auto simp: play_audio_pts_def Let_def packet_pts_def avia_av_audio_pts_to_stc_def split: if_splits)
  then show ?thesis using that(2) False by blast
qed

text \<open>
  C35: while a stream is played from memory, an audio or video packet is put behind the packets the video queue of the
  decoder holds, if it has room, without a read behind the packet; the first time stamp in an audio packet sets
  the clock of the decoder.
\<close>

theorem played_packet_reaches_decoder:
  assumes "clipmode n" "length buf = 188" "buf ! 0 = 0x47" "pes_type feed \<in> {DMX_TS_PES_AUDIO, DMX_TS_PES_VIDEO}"
    and "decoder_inv 0 (np_gt n)" "188 + length (decoder_contents 0 (np_gt n)) < q_size (the_queue 0 (np_gt n))"
  shows "\<exists>n' a'. avia_gt_napi_write_to_decoder feed buf n a = Returns (Inr 0, n', a')
    \<and> decoder_contents 0 (np_gt n') = decoder_contents 0 (np_gt n) @ buf
    \<and> (if pes_type feed = DMX_TS_PES_AUDIO \<and> need_audio_pts n \<and> packet_pts buf \<noteq> None
       then timer_base a' = the (packet_pts buf) \<and> \<not> need_audio_pts n' else a' = a \<and> need_audio_pts n' = need_audio_pts n)"
proof -
  have "buf \<noteq> []" "length buf < q_size (the_queue 0 (np_gt n))"
    "length buf \<le> q_size (the_queue 0 (np_gt n)) - 1 - length (decoder_contents 0 (np_gt n))" using assms(2,6) by auto
  then obtain s' where w: "avia_gt_dmx_queue_write 0 buf False (np_gt n) = Returns (Inr 188, s')"
    "decoder_contents 0 s' = decoder_contents 0 (np_gt n) @ buf"
    using decoder_write_effect(1) [OF assms(5), of buf False] assms(2) by auto
  let ?n = "n\<lparr>np_gt := s'\<rparr>"
  have wq: "write_queue AVIA_GT_DMX_QUEUE_VIDEO buf n = Returns (Inr 188, ?n)" using w(1) by (simp add: write_queue_def gt_consts)
  show ?thesis
  proof (cases "pes_type feed = DMX_TS_PES_AUDIO")
    case True
    show ?thesis
    proof (rule play_audio_pts_effect [OF assms(2), of ?n a])
      fix a'
      assume "need_audio_pts ?n" "packet_pts buf \<noteq> None" "play_audio_pts buf ?n a = Some (?n\<lparr>need_audio_pts := False\<rparr>, a')"
        "timer_base a' = the (packet_pts buf)"
      then show ?thesis using assms(1,3) True wq w(2) by (simp add: avia_gt_napi_write_to_decoder_def)
    next
      assume "\<not> need_audio_pts ?n \<or> packet_pts buf = None" "play_audio_pts buf ?n a = Some (?n, a)"
      then show ?thesis using assms(1,3) True wq w(2) by (auto simp: avia_gt_napi_write_to_decoder_def)
    qed
  next
    case False
    then have "pes_type feed = DMX_TS_PES_VIDEO" using assms(4) by simp
    then show ?thesis using assms(1,3) False wq w(2) by (simp add: avia_gt_napi_write_to_decoder_def)
  qed
qed


section \<open>Sources and clip mode\<close>

lemma clip_mode_always: 
  "fst (avia_gt_dmx_enable_clip_mode AVIA_GT_DMX_SYSTEM_QUEUES s) = Inr 0" "fst (avia_gt_dmx_disable_clip_mode AVIA_GT_DMX_SYSTEM_QUEUES s) = Inr 0"
  by (simp_all add: avia_gt_dmx_enable_clip_mode_def avia_gt_dmx_disable_clip_mode_def avia_gt_dmx_enable_disable_clip_mode_def gt_consts)

text \<open>
  A signal while the memory is disconnected leaves it connected, but the clip mode is already off: the call
  returns \<open>ERESTARTSYS\<close>, and from then on every packet for the decoder is refused.
\<close>

theorem interrupted_disconnect_stops_playback:
  assumes "dmx_frontend d = Some fe" "fe_source fe = DMX_MEMORY_FE"
  shows "\<exists>n'. avia_gt_napi_disconnect_frontend True d n = Some (Inl ERESTARTSYS, d, n')
    \<and> avia_gt_napi_write_to_decoder feed buf n' a = Returns (Inl EINVAL, n', a)"
proof -
  obtain s where "avia_gt_dmx_disable_clip_mode AVIA_GT_DMX_SYSTEM_QUEUES (np_gt n) = (Inr 0, s)"
    using clip_mode_always(2) [of "np_gt n"] by (metis prod.collapse)
  then show ?thesis
    using assms by (simp add: avia_gt_napi_disconnect_frontend_def dvbdmx_disconnect_frontend_def avia_gt_napi_write_to_decoder_def)
qed

text \<open>Without signals the clip mode follows the source.\<close>

definition source_sync :: "dvb_demux \<Rightarrow> napi_state \<Rightarrow> bool" where
  "source_sync d n \<longleftrightarrow> clipmode n = (\<exists>fe. dmx_frontend d = Some fe \<and> fe_source fe = DMX_MEMORY_FE)"

lemma connect_source_sync:
  "source_sync d n \<Longrightarrow> avia_gt_napi_connect_frontend intr fe d n = (r, d', n') \<Longrightarrow> source_sync d' n'"
  using clip_mode_always(1) [of "np_gt n"]
  by (auto simp: avia_gt_napi_connect_frontend_def dvbdmx_connect_frontend_def source_sync_def
      split: prod.splits sum.splits if_splits)

lemma disconnect_source_sync:
  "source_sync d n \<Longrightarrow> avia_gt_napi_disconnect_frontend False d n = Some (r, d', n') \<Longrightarrow> source_sync d' n'"
  using clip_mode_always(2) [of "np_gt n"]
  by (auto simp: avia_gt_napi_disconnect_frontend_def dvbdmx_disconnect_frontend_def source_sync_def
      split: prod.splits sum.splits if_splits option.splits)

text \<open>A tuner that finds a signal while a stream is played from memory switches the framer on.\<close>

lemma tuner_lock_enables_framer: "framer_enable (np_gt (avia_gt_napi_before_after_tune True n))"
  by (simp add: avia_gt_napi_before_after_tune_def avia_gt_dmx_enable_framer_def avia_gt_dmx_enable_disable_framer_def Let_def)



section \<open>Examples\<close>

definition ex_play :: napi_state where
  "ex_play = \<lparr>np_gt = upd_queue 0 (\<lambda>q. q\<lparr>mem_addr := 4, q_size := 256\<rparr>) ex_gt, np_mode = 0, need_audio_pts = True, clipmode = True,
     ts_pid_of = replicate 32 0xffff, np_priv = replicate 31 None, np_av = []\<rparr>"

definition ex_av :: av_clock where
  "ex_av = \<lparr>timer_high = 0, timer_low = 0, sync_mode = AVIA_AV_SYNC_MODE_AV, AV_SYNC_MODE = 0, av_stopped = False\<rparr>"

definition ex_audio_packet :: "u8 list" where
  "ex_audio_packet = [0x47, 0x41, 0x00, 0x10] @ ex_audio_pes @ replicate 167 0xff"

definition ex_audio_feed :: dvb_demux_feed where
  "ex_audio_feed = (ex_feed 0)\<lparr>feed_type := DMX_TYPE_TS, pes_type := DMX_TS_PES_AUDIO, ts_type := TS_DECODER\<rparr>"

lemma ex_audio_stamp: "length ex_audio_packet = 188" "packet_pts ex_audio_packet = Some 0x123456789"
proof -
  have d: "drop 4 ex_audio_packet = ex_audio_pes @ replicate 167 0xff" "pes_place ex_audio_packet = 4"
    by (simp_all add: ex_audio_packet_def pes_place_def)
  have "pes_has_audio_pts (ex_audio_pes @ replicate 167 0xff)" by code_simp
  moreover have "pes_pts (ex_audio_pes @ replicate 167 0xff) = 0x123456789"
    by (rule pes_pts_bytes) (simp_all add: ex_audio_pes_def pts_bytes_def)
  moreover have "bit (ex_audio_packet ! 1) 6" "bit (ex_audio_packet ! 3) 4" by (simp_all add: ex_audio_packet_def)
  ultimately show "packet_pts ex_audio_packet = Some 0x123456789" by (simp add: packet_pts_def d)
  show "length ex_audio_packet = 188" by (simp add: ex_audio_packet_def ex_audio_pes_def pts_bytes_def)
qed

theorem played_packet_reaches_decoder_witness:
  "\<exists>n' a'. avia_gt_napi_write_to_decoder ex_audio_feed ex_audio_packet ex_play ex_av = Returns (Inr 0, n', a')
    \<and> decoder_contents 0 (np_gt n') = ex_audio_packet \<and> timer_base a' = 0x123456789"
proof -
  have "decoder_inv 0 (np_gt ex_play)" "q_size (the_queue 0 (np_gt ex_play)) = 256" "decoder_contents 0 (np_gt ex_play) = []"
    by (simp_all add: decoder_inv_def ex_play_def ex_gt_def the_queue_def upd_queue_def gt_queue0_def ex_queue_def
        aq_reg_def queue_system_map_def decoder_contents_def decoder_pos_def region_def mem_bytes_def ring_contents_def ring_dist_def)
  moreover have "ex_audio_packet ! 0 = 0x47" "pes_type ex_audio_feed = DMX_TS_PES_AUDIO" "clipmode ex_play" "need_audio_pts ex_play"
    by (simp_all add: ex_audio_packet_def ex_audio_feed_def ex_play_def)
  ultimately show ?thesis
    using played_packet_reaches_decoder [of ex_play ex_audio_packet ex_audio_feed ex_av] ex_audio_stamp by auto
qed

theorem interrupted_disconnect_stops_playback_witness:
  "\<exists>n'. avia_gt_napi_disconnect_frontend True (ex_demux\<lparr>dmx_frontend := Some \<lparr>fe_addr = 1, fe_source = DMX_MEMORY_FE\<rparr>\<rparr>) ex_play
      = Some (Inl ERESTARTSYS, ex_demux\<lparr>dmx_frontend := Some \<lparr>fe_addr = 1, fe_source = DMX_MEMORY_FE\<rparr>\<rparr>, n')
    \<and> avia_gt_napi_write_to_decoder ex_audio_feed ex_audio_packet n' ex_av = Returns (Inl EINVAL, n', ex_av)"
  by (rule interrupted_disconnect_stops_playback) (simp, simp add: dmx_frontend.select_convs)

end
