(* ===== verification/Avia_Gt_Ecd.thy ===== *)
theory Avia_Gt_Ecd
  imports Avia_Gt_Ucode
begin

unbundle bit_operations_syntax

text \<open>
  The descrambler: the control words in the memory of the microcode (\<open>avia_gt_ucode.c\<close>) and the device that
  sets them (\<open>avia_gt_napi_ecd_ioctl\<close>, \<open>avia_gt_napi.c\<close>).

  \<^item> \<open>ram\<close> is the memory of the microcode in words of 16 bits, as far as the control words are concerned; the
    search and control tables in it are those of \<open>ucode_state\<close>. The CPU is big-endian.
  \<^item> The locale \<open>key_store\<close> is what a client relies on: a key reads back as it was written last.
\<close>

section \<open>A store of keys\<close>

datatype ('i, 'k) key_command = ClearKeys | PutKey 'i 'k

fun latest_key :: "'k \<Rightarrow> 'i \<Rightarrow> 'k \<Rightarrow> ('i, 'k) key_command list \<Rightarrow> 'k" where
  "latest_key zero i old [] = old"
| "latest_key zero i old (ClearKeys # cs) = latest_key zero i zero cs"
| "latest_key zero i old (PutKey j k # cs) = latest_key zero i (if i = j then k else old) cs"

locale key_store =
  fixes ok :: "'s \<Rightarrow> bool" and valid :: "'i \<Rightarrow> bool" and good :: "'k \<Rightarrow> bool"
    and get :: "'i \<Rightarrow> 's \<Rightarrow> 'k" and put :: "'i \<Rightarrow> 'k \<Rightarrow> 's \<Rightarrow> 's" and clear :: "'s \<Rightarrow> 's" and zero :: 'k
  assumes put_ok: "ok s \<Longrightarrow> valid i \<Longrightarrow> good k \<Longrightarrow> ok (put i k s)"
    and clear_ok: "ok s \<Longrightarrow> ok (clear s)"
    and get_put: "ok s \<Longrightarrow> valid i \<Longrightarrow> valid j \<Longrightarrow> good k \<Longrightarrow> get j (put i k s) = (if j = i then k else get j s)"
    and get_clear: "ok s \<Longrightarrow> valid i \<Longrightarrow> get i (clear s) = zero"
begin

fun execute :: "('i, 'k) key_command list \<Rightarrow> 's \<Rightarrow> 's" where
  "execute [] s = s"
| "execute (ClearKeys # cs) s = execute cs (clear s)"
| "execute (PutKey i k # cs) s = execute cs (put i k s)"

lemma execute_append: "execute (xs @ ys) s = execute ys (execute xs s)"
  by (induction xs s rule: execute.induct) simp_all

fun admissible :: "('i, 'k) key_command \<Rightarrow> bool" where
  "admissible ClearKeys \<longleftrightarrow> True"
| "admissible (PutKey i k) \<longleftrightarrow> valid i \<and> good k"

lemma execute_latest:
  assumes "ok s" "\<forall>c \<in> set cs. admissible c" "valid i"
  shows "ok (execute cs s) \<and> get i (execute cs s) = latest_key zero i (get i s) cs"
  using assms
proof (induction cs arbitrary: s)
  case (Cons c cs)
  then show ?case by (cases c) (simp_all add: put_ok clear_ok get_put get_clear)
qed simp

end


section \<open>Control words\<close>

definition DMX_CONTROL_WORDS_1 :: nat where "DMX_CONTROL_WORDS_1 = 0x4d0 div 2"
definition DMX_CONTROL_WORDS_2 :: nat where "DMX_CONTROL_WORDS_2 = 0x5d0 div 2"
definition DMX_CONTROL_WORDS_3 :: nat where "DMX_CONTROL_WORDS_3 = 0x6d0 div 2"
definition DMX_RISC_RAM_SIZE :: nat where "DMX_RISC_RAM_SIZE = 0x800 div 2"

lemmas ecd_consts = DMX_CONTROL_WORDS_1_def DMX_CONTROL_WORDS_2_def DMX_CONTROL_WORDS_3_def DMX_RISC_RAM_SIZE_def

definition avia_gt_dmx_memcpy16 :: "nat \<Rightarrow> u16 list \<Rightarrow> u16 list \<Rightarrow> u16 list" where
  "avia_gt_dmx_memcpy16 dest src ram = blit ram dest src"

definition avia_gt_dmx_memset16 :: "nat \<Rightarrow> u16 \<Rightarrow> nat \<Rightarrow> u16 list \<Rightarrow> u16 list" where
  "avia_gt_dmx_memset16 s c n ram = blit ram s (replicate n c)"

fun be_words :: "u8 list \<Rightarrow> u16 list" where
  "be_words (a # b # bs) = (push_bit 8 (ucast a) OR ucast b) # be_words bs"
| "be_words _ = []"

definition avia_gt_dmx_risc_write :: "nat \<Rightarrow> u8 list \<Rightarrow> u16 list \<Rightarrow> cret \<times> u16 list" where
  "avia_gt_dmx_risc_write dest src ram =
     (if dest + length src div 2 > DMX_RISC_RAM_SIZE then (Inl EINVAL, ram)
      else if odd (length src) then (Inl EINVAL, ram)
      else (Inr (length src),
            avia_gt_dmx_memcpy16 dest (be_words src) (avia_gt_dmx_memset16 dest 0 (length src div 2) ram)))"

definition prop_ucode_ecd_reset :: "u16 list \<Rightarrow> u16 list" where
  "prop_ucode_ecd_reset ram =
     avia_gt_dmx_memset16 DMX_CONTROL_WORDS_3 0 16
       (avia_gt_dmx_memset16 DMX_CONTROL_WORDS_2 0 24 (avia_gt_dmx_memset16 DMX_CONTROL_WORDS_1 0 24 ram))"

definition key_offset :: "nat \<Rightarrow> nat \<Rightarrow> nat" where
  "key_offset index parity =
     DMX_CONTROL_WORDS_1 + push_bit 7 (index div 3) + push_bit 3 (index mod 3) + push_bit 2 (parity XOR 1)"

definition prop_ucode_ecd_set_key :: "nat \<Rightarrow> nat \<Rightarrow> u8 list \<Rightarrow> u16 list \<Rightarrow> cret \<times> u16 list" where
  "prop_ucode_ecd_set_key index parity cw ram =
     (Inr 0, snd (avia_gt_dmx_risc_write (key_offset index parity) cw ram))"

text \<open>The first entry of the search table with the PID, valid or not, gets the control word.\<close>

definition prop_ucode_ecd_set_pid :: "nat \<Rightarrow> u16 \<Rightarrow> ucode_state \<Rightarrow> cret \<times> ucode_state" where
  "prop_ucode_ecd_set_pid index pid u =
     (case find (\<lambda>k. pe_PID (pid_search_table u ! k) = pid) [0 ..< 32] of
        None \<Rightarrow> (Inl EINVAL, u)
      | Some k \<Rightarrow> (Inr 0, u\<lparr>pid_parsing_control_table := (pid_parsing_control_table u)
                             [k := (pid_parsing_control_table u ! k)\<lparr>ppc_CW_offset := index mod 8\<rparr>]\<rparr>))"


section \<open>The device\<close>

datatype ca_command =
    CA_RESET | CA_GET_CAP | CA_GET_SLOT_INFO | CA_GET_DESCR_INFO | CA_GET_MSG | CA_SEND_MSG
  | CA_SET_DESCR (d_index: nat) (d_parity: nat) (d_cw: "u8 list")
  | CA_SET_PID (p_pid: nat) (p_index: int)
  | CA_UNKNOWN

datatype ca_reply =
    CaDone
  | CaCaps (slot_num: nat) (slot_type: nat) (descr_num: nat) (descr_type: nat)
  | CaSlotInfo (slot_number: nat) (slot_info_type: nat) (slot_flags: nat)
  | CaDescrInfo (descr_info_num: nat) (descr_info_type: nat)

definition CA_DESCR :: nat where "CA_DESCR = 8"
definition CA_ECD :: nat where "CA_ECD = 1"

definition avia_gt_napi_ecd_slot_info :: ca_reply where
  "avia_gt_napi_ecd_slot_info = CaSlotInfo 0 CA_DESCR 0"

definition avia_gt_napi_ecd_descr_info :: ca_reply where
  "avia_gt_napi_ecd_descr_info = CaDescrInfo 8 CA_ECD"

definition avia_gt_napi_ecd_caps :: ca_reply where
  "avia_gt_napi_ecd_caps = CaCaps 1 CA_DESCR 8 CA_ECD"

definition avia_gt_napi_ecd_ioctl ::
  "bool \<Rightarrow> ca_command \<Rightarrow> ucode_state \<times> u16 list \<Rightarrow> (errno + ca_reply) \<times> ucode_state \<times> u16 list" where
  "avia_gt_napi_ecd_ioctl rdonly cmd = (\<lambda>(u, ram).
     if rdonly \<and> cmd \<notin> {CA_GET_CAP, CA_GET_SLOT_INFO, CA_GET_DESCR_INFO, CA_GET_MSG} then (Inl EPERM, u, ram)
     else case cmd of
       CA_RESET \<Rightarrow> (Inr CaDone, u, prop_ucode_ecd_reset ram)
     | CA_GET_CAP \<Rightarrow> (Inr avia_gt_napi_ecd_caps, u, ram)
     | CA_GET_SLOT_INFO \<Rightarrow> (Inr avia_gt_napi_ecd_slot_info, u, ram)
     | CA_GET_DESCR_INFO \<Rightarrow> (Inr avia_gt_napi_ecd_descr_info, u, ram)
     | CA_GET_MSG \<Rightarrow> (Inl EOPNOTSUPP, u, ram)
     | CA_SEND_MSG \<Rightarrow> (Inl EOPNOTSUPP, u, ram)
     | CA_SET_DESCR index parity cw \<Rightarrow>
         if index \<ge> descr_num avia_gt_napi_ecd_caps \<or> parity > 1 then (Inl EINVAL, u, ram)
         else (map_sum id (\<lambda>_. CaDone) (fst (prop_ucode_ecd_set_key index parity cw ram)),
               u, snd (prop_ucode_ecd_set_key index parity cw ram))
     | CA_SET_PID pid index \<Rightarrow>
         if index < -1 \<or> index \<ge> int (descr_num avia_gt_napi_ecd_caps) then (Inl EINVAL, u, ram)
         else if pid > 0x1fff then (Inl EINVAL, u, ram)
         else if index = -1 then (Inr CaDone, u, ram)
         else (let (r, u') = prop_ucode_ecd_set_pid (nat index) (of_nat pid) u in (map_sum id (\<lambda>_. CaDone) r, u', ram))
     | CA_UNKNOWN \<Rightarrow> (Inl ENOIOCTLCMD, u, ram))"


section \<open>Keys\<close>

definition get_key :: "nat \<times> nat \<Rightarrow> u16 list \<Rightarrow> u16 list" where
  "get_key = (\<lambda>(index, parity) ram. take 4 (drop (key_offset index parity) ram))"

definition set_key :: "nat \<times> nat \<Rightarrow> u16 list \<Rightarrow> u16 list \<Rightarrow> u16 list" where
  "set_key = (\<lambda>(index, parity) key ram. blit ram (key_offset index parity) key)"

definition valid_key :: "nat \<times> nat \<Rightarrow> bool" where
  "valid_key = (\<lambda>(index, parity). index < 8 \<and> parity < 2)"

definition ram_ok :: "u16 list \<Rightarrow> bool" where
  "ram_ok ram \<longleftrightarrow> length ram = DMX_RISC_RAM_SIZE"

text \<open>The areas the control words may take, behind the three parts of the filter table.\<close>

definition key_area :: "nat \<Rightarrow> bool" where
  "key_area w \<longleftrightarrow> (\<exists>a \<in> {DMX_CONTROL_WORDS_1, DMX_CONTROL_WORDS_2}. a \<le> w \<and> w < a + 24)
     \<or> DMX_CONTROL_WORDS_3 \<le> w \<and> w < DMX_CONTROL_WORDS_3 + 16"

lemma length_be_words: "length (be_words bs) = length bs div 2"
  by (induction bs rule: be_words.induct) simp_all

lemma key_offset_parts:
  assumes "valid_key i"
  obtains a b c where "case_prod key_offset i = 616 + 128 * a + 8 * b + 4 * c" "i = (3 * a + b, 1 - c)"
    "a \<le> 2" "b \<le> 2" "c \<le> 1" "a = 2 \<longrightarrow> b \<le> 1"
proof -
  obtain index parity where i: "i = (index, parity)" by fastforce
  then have v: "index < 8" "parity < 2" using assms by (simp_all add: valid_key_def)
  have x: "parity XOR 1 = 1 - parity"
  proof (cases "parity = 0")
    case False
    then have p: "parity = 1" using v(2) by simp
    show ?thesis unfolding p by simp
  qed simp
  have "index = 3 * (index div 3) + index mod 3" by simp
  moreover have "index div 3 \<le> 2" "index div 3 = 2 \<longrightarrow> index mod 3 \<le> 1" using v(1) by presburger+
  moreover have "index mod 3 \<le> 2" by presburger
  moreover have "case_prod key_offset i = 616 + 128 * (index div 3) + 8 * (index mod 3) + 4 * (1 - parity)"
    by (simp add: i key_offset_def x [simplified] ecd_consts push_bit_eq_mult)
  ultimately show ?thesis using v(2) i by (intro that [of "index div 3" "index mod 3" "1 - parity"]) simp_all
qed

lemma key_offsets:
  "valid_key i \<Longrightarrow> case_prod key_offset i + 4 \<le> DMX_RISC_RAM_SIZE"
  "valid_key i \<Longrightarrow> w < 4 \<Longrightarrow> key_area (case_prod key_offset i + w)"
proof -
  assume v: "valid_key i"
  show "case_prod key_offset i + 4 \<le> DMX_RISC_RAM_SIZE"
    by (rule key_offset_parts [OF v]) (simp add: ecd_consts)
  assume w: "w < 4"
  show "key_area (case_prod key_offset i + w)"
  proof (rule key_offset_parts [OF v])
    fix a b c :: nat
    assume "case_prod key_offset i = 616 + 128 * a + 8 * b + 4 * c" "a \<le> 2" "b \<le> 2" "c \<le> 1" "a = 2 \<longrightarrow> b \<le> 1"
    moreover from this have "a = 0 \<or> a = 1 \<or> a = 2" by auto
    ultimately show ?thesis using w by (auto simp: key_area_def ecd_consts)
  qed
qed

lemma key_offsets_apart:
  assumes "valid_key i" "valid_key j" "i \<noteq> j"
  shows "case_prod key_offset i + 4 \<le> case_prod key_offset j \<or> case_prod key_offset j + 4 \<le> case_prod key_offset i"
proof (rule key_offset_parts [OF assms(1)])
  fix a b c :: nat
  assume i: "case_prod key_offset i = 616 + 128 * a + 8 * b + 4 * c" "i = (3 * a + b, 1 - c)" "b \<le> 2" "c \<le> 1"
  show ?thesis
  proof (rule key_offset_parts [OF assms(2)])
    fix a' b' c' :: nat
    assume j: "case_prod key_offset j = 616 + 128 * a' + 8 * b' + 4 * c'" "j = (3 * a' + b', 1 - c')" "b' \<le> 2" "c' \<le> 1"
    have "a \<noteq> a' \<or> b \<noteq> b' \<or> c \<noteq> c'" using assms(3) i(2) j(2) by auto
    then consider "a < a'" | "a' < a" | "a = a'" "b < b'" | "a = a'" "b' < b" | "a = a'" "b = b'" "c < c'" | "a = a'" "b = b'" "c' < c"
      by linarith
    then show ?thesis unfolding i(1) j(1) using i(3,4) j(3,4) by cases linarith+
  qed
qed

lemma nth_set_key:
  assumes "ram_ok ram" "valid_key i" "length key = 4" "w < DMX_RISC_RAM_SIZE"
  shows "set_key i key ram ! w = (if case_prod key_offset i \<le> w \<and> w < case_prod key_offset i + 4 then key ! (w - case_prod key_offset i) else ram ! w)"
  using key_offsets(1) [OF assms(2)] assms by (cases i) (simp add: set_key_def ram_ok_def nth_blit)

lemma set_key_ok: "ram_ok ram \<Longrightarrow> valid_key i \<Longrightarrow> length key = 4 \<Longrightarrow> ram_ok (set_key i key ram)"
  using key_offsets(1) [of i] by (cases i) (simp add: set_key_def ram_ok_def)

lemma get_key_eq:
  assumes "ram_ok ram" "valid_key i" "length key = 4" "\<And>w. w < 4 \<Longrightarrow> ram ! (case_prod key_offset i + w) = key ! w"
  shows "get_key i ram = key"
  using key_offsets(1) [OF assms(2)] assms by (cases i) (auto simp: get_key_def ram_ok_def intro!: nth_equalityI)

lemma length_get_key: "ram_ok ram \<Longrightarrow> valid_key i \<Longrightarrow> length (get_key i ram) = 4"
  using key_offsets(1) [of i] by (cases i) (simp add: get_key_def ram_ok_def)

lemma nth_get_key: "ram_ok ram \<Longrightarrow> valid_key i \<Longrightarrow> w < 4 \<Longrightarrow> get_key i ram ! w = ram ! (case_prod key_offset i + w)"
  using key_offsets(1) [of i] by (cases i) (simp add: get_key_def ram_ok_def)

lemma get_set_key:
  assumes "ram_ok ram" "valid_key i" "valid_key j" "length key = 4"
  shows "get_key j (set_key i key ram) = (if j = i then key else get_key j ram)"
proof (cases "j = i")
  case True
  then show ?thesis
    using assms key_offsets(1) [OF assms(2)] by (simp add: get_key_eq [OF set_key_ok] nth_set_key)
next
  case False
  have "set_key i key ram ! (case_prod key_offset j + w) = get_key j ram ! w" if "w < 4" for w
    using that assms key_offsets(1) [OF assms(3)] key_offsets_apart [OF assms(2,3)] False
    by (subst nth_set_key) (auto simp: nth_get_key)
  then show ?thesis
    using assms False by (simp add: get_key_eq [OF set_key_ok] length_get_key)
qed

lemma nth_ecd_reset:
  assumes "ram_ok ram" "w < DMX_RISC_RAM_SIZE"
  shows "prop_ucode_ecd_reset ram ! w = (if key_area w then 0 else ram ! w)"
  using assms
  by (auto simp: prop_ucode_ecd_reset_def avia_gt_dmx_memset16_def nth_blit ram_ok_def key_area_def ecd_consts)

lemma ecd_reset_ok: "ram_ok ram \<Longrightarrow> ram_ok (prop_ucode_ecd_reset ram)"
  by (simp add: prop_ucode_ecd_reset_def avia_gt_dmx_memset16_def ram_ok_def ecd_consts)

interpretation control_words: key_store ram_ok valid_key "\<lambda>k. length k = 4" get_key set_key prop_ucode_ecd_reset "replicate 4 0"
proof
  show "get_key i (prop_ucode_ecd_reset ram) = replicate 4 0" if "ram_ok ram" "valid_key i" for ram i
    using that key_offsets [OF that(2)] by (intro get_key_eq ecd_reset_ok) (simp_all add: nth_ecd_reset)
qed (auto simp: set_key_ok ecd_reset_ok get_set_key)


lemma blit_blit: "length ys = length xs \<Longrightarrow> i + length xs \<le> length d \<Longrightarrow> blit (blit d i xs) i ys = blit d i ys"
  by (simp add: blit_def)

lemma ecd_set_key_effect:
  assumes "ram_ok ram" "valid_key (index, parity)" "length cw = 8"
  shows "prop_ucode_ecd_set_key index parity cw ram = (Inr 0, set_key (index, parity) (be_words cw) ram)"
  using key_offsets(1) [OF assms(2)] assms
  by (simp add: prop_ucode_ecd_set_key_def avia_gt_dmx_risc_write_def avia_gt_dmx_memcpy16_def avia_gt_dmx_memset16_def
      set_key_def ram_ok_def blit_blit length_be_words)


section \<open>The device as a store of keys\<close>

fun key_commands :: "bool \<times> ca_command \<Rightarrow> (nat \<times> nat, u16 list) key_command list" where
  "key_commands (False, CA_RESET) = [ClearKeys]"
| "key_commands (False, CA_SET_DESCR index parity cw) =
     (if index < 8 \<and> parity < 2 then [PutKey (index, parity) (be_words cw)] else [])"
| "key_commands _ = []"

definition ecd_ioctls :: "(bool \<times> ca_command) list \<Rightarrow> ucode_state \<times> u16 list \<Rightarrow> ucode_state \<times> u16 list" where
  "ecd_ioctls = fold (\<lambda>(ro, c) st. snd (avia_gt_napi_ecd_ioctl ro c st))"

fun cw_sized :: "ca_command \<Rightarrow> bool" where
  "cw_sized (CA_SET_DESCR index parity cw) \<longleftrightarrow> length cw = 8"
| "cw_sized _ \<longleftrightarrow> True"

lemma ecd_ioctl_ram:
  assumes "ram_ok ram" "cw_sized c"
  shows "snd (snd (avia_gt_napi_ecd_ioctl ro c (u, ram))) = control_words.execute (key_commands (ro, c)) ram"
proof (cases c)
  case (CA_SET_DESCR index parity cw)
  then show ?thesis
    using assms ecd_set_key_effect [of ram index parity cw]
    by (cases ro) (auto simp: avia_gt_napi_ecd_ioctl_def avia_gt_napi_ecd_caps_def valid_key_def)
qed (cases ro; simp add: avia_gt_napi_ecd_ioctl_def split: prod.split)+

lemma valid_keyI: "index < 8 \<Longrightarrow> parity < 2 \<Longrightarrow> valid_key (index, parity)"
  by (simp add: valid_key_def)

lemma key_commands_admissible: "cw_sized c \<Longrightarrow> \<forall>k \<in> set (key_commands (ro, c)). control_words.admissible k"
  using valid_keyI by (cases ro; cases c) (auto simp: length_be_words)

lemma ecd_ioctls_ram:
  assumes "ram_ok ram" "\<forall>(ro, c) \<in> set cs. cw_sized c"
  shows "snd (ecd_ioctls cs (u, ram)) = control_words.execute (concat (map key_commands cs)) ram"
  using assms
proof (induction cs arbitrary: u ram)
  case (Cons x cs)
  obtain ro c where x: "x = (ro, c)" by fastforce
  obtain r u' ram' where io: "avia_gt_napi_ecd_ioctl ro c (u, ram) = (r, u', ram')" by (metis surj_pair)
  have ram': "ram' = control_words.execute (key_commands (ro, c)) ram" using ecd_ioctl_ram [of ram c ro u] Cons.prems x io by simp
  have "valid_key (0, 0)" by (simp add: valid_keyI)
  moreover have "\<forall>k \<in> set (key_commands (ro, c)). control_words.admissible k"
    by (rule key_commands_admissible) (use Cons.prems(2) x in simp)
  ultimately have "ram_ok ram'" using control_words.execute_latest [OF Cons.prems(1)] ram' by blast
  then show ?case using Cons.IH [of ram' u'] Cons.prems x io ram' by (simp add: ecd_ioctls_def control_words.execute_append)
qed (simp add: ecd_ioctls_def)

text \<open>
  C39: whatever commands the descrambler device gets, by readers and writers and with bad arguments among them, the
  key of every descrambler and parity is the one set last by a successful command, or zero after a reset.
\<close>

theorem descrambler_keys_latest:
  assumes "ram_ok ram" "\<forall>(ro, c) \<in> set cs. cw_sized c" "valid_key i"
  shows "get_key i (snd (ecd_ioctls cs (u, ram)))
    = latest_key (replicate 4 0) i (get_key i ram) (concat (map key_commands cs))"
proof -
  have "\<forall>k \<in> set (concat (map key_commands cs)). control_words.admissible k"
    using assms(2) key_commands_admissible by fastforce
  then show ?thesis
    using control_words.execute_latest [OF assms(1) _ assms(3)] by (simp add: ecd_ioctls_ram [OF assms(1,2)])
qed

text \<open>The rest of the memory, with the tables of the microcode, is not touched.\<close>

lemma keys_spare_tables:
  assumes "ram_ok ram" "\<forall>(ro, c) \<in> set cs. cw_sized c" "w < DMX_RISC_RAM_SIZE" "\<not> key_area w"
  shows "snd (ecd_ioctls cs (u, ram)) ! w = ram ! w"
proof -
  have "ram_ok (control_words.execute ks ram) \<and> control_words.execute ks ram ! w = ram ! w"
    if "\<forall>k \<in> set ks. control_words.admissible k" for ks
    using that assms(1)
  proof (induction ks arbitrary: ram)
    case (Cons k ks)
    show ?case
    proof (cases k)
      case ClearKeys
      then show ?thesis using Cons assms(3,4) by (simp add: ecd_reset_ok nth_ecd_reset)
    next
      case (PutKey i key)
      then have v: "valid_key i" "length key = 4" using Cons.prems by simp_all
      have "\<not> (case_prod key_offset i \<le> w \<and> w < case_prod key_offset i + 4)"
        using key_offsets(2) [OF v(1), of "w - case_prod key_offset i"] assms(4)
        by (metis add_diff_inverse_nat leD less_diff_conv2 add.commute)
      then have "set_key i key ram ! w = ram ! w" using nth_set_key [OF Cons.prems(2) v assms(3)] by argo
      then show ?thesis using Cons PutKey v by (simp add: set_key_ok)
    qed
  qed simp
  moreover have "\<forall>k \<in> set (concat (map key_commands cs)). control_words.admissible k"
    using assms(2) key_commands_admissible by fastforce
  ultimately show ?thesis by (simp add: ecd_ioctls_ram [OF assms(1,2)])
qed



section \<open>Descrambled streams\<close>

text \<open>
  The command that assigns a descrambler to a PID looks at the first entry of the search table with this PID,
  whether the microcode uses that entry or not: while the feed of an application is switched off in favour of
  the decoder, the descrambler is assigned to the feed that is off, and the feed of the decoder keeps the one it had.
\<close>

theorem set_pid_misses_running_feed:
  assumes "j < k" "k < 32" "pe_PID (pid_search_table u ! j) = of_nat pid" "pid \<le> 0x1fff" "0 \<le> index" "index < 8"
  shows "\<exists>u'. avia_gt_napi_ecd_ioctl False (CA_SET_PID pid index) (u, ram) = (Inr CaDone, u', ram)
    \<and> pid_parsing_control_table u' ! k = pid_parsing_control_table u ! k"
proof -
  obtain m where m: "find (\<lambda>k. pe_PID (pid_search_table u ! k) = of_nat pid) [0 ..< 32] = Some m" "m \<le> j"
  proof (cases "find (\<lambda>k. pe_PID (pid_search_table u ! k) = of_nat pid) [0 ..< 32]")
    case None
    then show ?thesis using assms(1-3) by (auto simp: find_None_iff)
  next
    case (Some m)
    obtain i where i: "i < 32" "m = [0 ..< 32] ! i" "\<forall>l < i. pe_PID (pid_search_table u ! ([0 ..< 32] ! l)) \<noteq> of_nat pid"
      using find_Some_iff [THEN iffD1, OF Some] by auto
    then have "m = i" "\<forall>l < i. pe_PID (pid_search_table u ! l) \<noteq> of_nat pid" by (auto simp: nth_upt)
    then show ?thesis using that [OF Some] assms(3) by (meson not_le_imp_less)
  qed
  then have "m \<noteq> k" using assms(1) by simp
  then show ?thesis
    using m(1) assms(4-6) by (simp add: avia_gt_napi_ecd_ioctl_def avia_gt_napi_ecd_caps_def prop_ucode_ecd_set_pid_def)
qed


section \<open>Examples\<close>

theorem descrambler_keys_latest_witness:
  "get_key (7, 1) (snd (ecd_ioctls [(False, CA_SET_DESCR 7 1 [1, 2, 3, 4, 5, 6, 7, 8]), (True, CA_RESET)] (ex_ucode, replicate 1024 0)))
     = [0x0102, 0x0304, 0x0506, 0x0708]"
proof -
  have "ram_ok (replicate 1024 0)" by (simp add: ram_ok_def DMX_RISC_RAM_SIZE_def)
  then show ?thesis
    using descrambler_keys_latest [of "replicate 1024 0" "[(False, CA_SET_DESCR 7 1 [1, 2, 3, 4, 5, 6, 7, 8]), (True, CA_RESET)]" "(7, 1)" ex_ucode]
    by (simp add: valid_key_def)
qed

text \<open>The feed of an application, then a decoder feed for the same PID that takes over.\<close>

definition ex_taken_over :: ucode_state where
  "ex_taken_over = prop_ucode_stop_feed 0 False (prop_ucode_start_queue_feeds 0
     (snd (prop_ucode_alloc_feed 0 TS 0x100 ex_ucode)))"

theorem set_pid_misses_running_feed_witness:
  "\<exists>u'. avia_gt_napi_ecd_ioctl False (CA_SET_PID 0x100 3) (ex_taken_over, []) = (Inr CaDone, u', [])
    \<and> ppc_CW_offset (pid_parsing_control_table u' ! 1) = 0 \<and> \<not> pe_INVALID (pid_search_table ex_taken_over ! 1)
    \<and> pe_INVALID (pid_search_table ex_taken_over ! 0)"
proof -
  have "pe_PID (pid_search_table ex_taken_over ! 0) = 0x100" "ppc_CW_offset (pid_parsing_control_table ex_taken_over ! 1) = 0"
    "\<not> pe_INVALID (pid_search_table ex_taken_over ! 1)" "pe_INVALID (pid_search_table ex_taken_over ! 0)"
    by code_simp+
  then show ?thesis using set_pid_misses_running_feed [of 0 1 ex_taken_over "0x100" 3 "[]"] by auto
qed

end
