(* ===== verification/Avia_Gt_Msgq.thy ===== *)
theory Avia_Gt_Msgq
  imports Avia_Gt_System
begin

unbundle bit_operations_syntax

text \<open>
  The queue in which the microcode reports what happens to it, \<open>prop_ucode_handle_msgq\<close> of
  \<open>avia_gt_ucode.c\<close>, and the reset of the microcode processor. The handler is the callback of
  the message queue; it works on bytes that arrive in pieces.

  \<open>avia_gt_dmx_risc_reset\<close> writes the value 0x9147 to the framer register of the ENX: the framer is on
  (\<open>FE\<close>), its bit \<open>FH\<close> is off and a discontinuity is forced (\<open>FD\<close>). The reset lines and the other
  constants it writes are not part of the state.
\<close>

section \<open>Messages\<close>

definition DMX_MESSAGE_CC_ERROR :: u8 where "DMX_MESSAGE_CC_ERROR = 0xFE"
definition DMX_MESSAGE_SYNC_LOSS :: u8 where "DMX_MESSAGE_SYNC_LOSS = 0xFD"
definition DMX_MESSAGE_ADAPTATION :: u8 where "DMX_MESSAGE_ADAPTATION = 0xFC"
definition DMX_MESSAGE_SECTION_COMPLETED :: u8 where "DMX_MESSAGE_SECTION_COMPLETED = 0xCE"
definition DMX_MESSAGE_INIT :: u8 where "DMX_MESSAGE_INIT = 0xDD"

lemmas msg_consts = DMX_MESSAGE_CC_ERROR_def DMX_MESSAGE_SYNC_LOSS_def DMX_MESSAGE_ADAPTATION_def
  DMX_MESSAGE_SECTION_COMPLETED_def DMX_MESSAGE_INIT_def

definition avia_gt_dmx_risc_reset :: "bool \<Rightarrow> gt_state \<Rightarrow> gt_state" where
  "avia_gt_dmx_risc_reset reenable s =
     (if reenable \<and> gt_chip s = ENX then s\<lparr>framer_enable := True, framer_hw := False, force_disc := True\<rparr> else s)"

text \<open>The PID of a continuity error is in the last two of its five bytes.\<close>

definition ccerr_pid :: "u8 list \<Rightarrow> u16" where
  "ccerr_pid msg = push_bit 8 (ucast (msg ! 3)) OR ucast (msg ! 4)"

definition restart_feed :: "nat \<Rightarrow> u16 \<Rightarrow> gt_state \<Rightarrow> gt_state" where
  "restart_feed nr pid s =
     (case pid2feedidx pid (ucode s) of
        None \<Rightarrow> s
      | Some i \<Rightarrow>
         (let s1 = avia_gt_dmx_queue_flush nr (s\<lparr>ucode := prop_ucode_stop_feed i False (ucode s)\<rparr>)
          in s1\<lparr>ucode := prop_ucode_start_feed i False (ucode s1)\<rparr>))"

definition prop_ucode_handle_msgq :: "nat \<Rightarrow> gt_state \<Rightarrow> gt_state" where
  "prop_ucode_handle_msgq nr s =
     (let avail = avia_gt_dmx_queue_get_bytes_avail (the_queue nr s);
          get = (\<lambda>n s. snd (avia_gt_dmx_queue_data_get nr n False s));
          peek = (\<lambda>n. fst (avia_gt_dmx_queue_data_get nr n True s))
      in if avail = 0 then s
         else
          (let cmd = hd (peek 1) in
           if cmd = DMX_MESSAGE_INIT then avia_gt_dmx_queue_flush nr (get 1 s)
           else if cmd = DMX_MESSAGE_ADAPTATION then
             (if avail < 5 then s
              else (let len = unat (peek 5 ! 4) in if avail < 5 + len then s else get (5 + len) s))
           else if cmd = DMX_MESSAGE_SYNC_LOSS then
             avia_gt_dmx_queue_flush nr (avia_gt_dmx_risc_reset True (get 1 s))
           else if cmd = DMX_MESSAGE_CC_ERROR then
             (if avail < 5 then s
              else (case avia_gt_dmx_queue_data_get nr 5 False s of (msg, s1) \<Rightarrow> restart_feed nr (ccerr_pid msg) s1))
           else if cmd = DMX_MESSAGE_SECTION_COMPLETED then (if avail < 4 then s else get 4 s)
           else (get 1 ^^ (avail - 1)) (get 1 s)))"


section \<open>What is left in the queue\<close>

text \<open>
  A message that has not arrived as a whole stays; one that is whole goes alone, unless it is a reset, a message
  nobody knows, or a continuity error of a PID that has a feed: then everything goes.
\<close>

definition message_size :: "u8 list \<Rightarrow> nat option" where
  "message_size c =
     (if c = [] then None
      else if hd c = DMX_MESSAGE_ADAPTATION
      then (if length c < 5 \<or> length c < 5 + unat (c ! 4) then None else Some (5 + unat (c ! 4)))
      else if hd c = DMX_MESSAGE_CC_ERROR then (if length c < 5 then None else Some 5)
      else if hd c = DMX_MESSAGE_SECTION_COMPLETED then (if length c < 4 then None else Some 4)
      else Some (length c))"

definition message_rest :: "ucode_state \<Rightarrow> u8 list \<Rightarrow> u8 list" where
  "message_rest u c =
     (case message_size c of
        None \<Rightarrow> c
      | Some n \<Rightarrow> if hd c = DMX_MESSAGE_CC_ERROR \<and> pid2feedidx (ccerr_pid c) u \<noteq> None then [] else drop n c)"

lemma flush_contents:
  assumes "gt_queue_inv nr s"
  shows "gt_queue_inv nr (avia_gt_dmx_queue_flush nr s)" "queue_contents nr (avia_gt_dmx_queue_flush nr s) = []"
proof -
  have ok: "queue_ok s (the_queue nr s)" "nr < length (queue_list s)" using assms by (simp_all add: gt_queue_inv_def)
  then show inv: "gt_queue_inv nr (avia_gt_dmx_queue_flush nr s)"
    using assms by (auto simp: avia_gt_dmx_queue_flush_def gt_queue_inv_def queue_ok_def)
  have "queue_avail nr (avia_gt_dmx_queue_flush nr s) = 0"
    using ok by (simp add: queue_avail_def avia_gt_dmx_queue_flush_def avia_gt_dmx_queue_get_bytes_avail_def
      avia_gt_dmx_queue_get_buf1_size_def avia_gt_dmx_queue_get_buf2_size_def)
  then show "queue_contents nr (avia_gt_dmx_queue_flush nr s) = []" using length_queue_contents [OF inv] by simp
qed

lemma queue_frame [frame_simps]:
  "gt_queue_inv nr (s\<lparr>ucode := u\<rparr>) = gt_queue_inv nr s" "queue_contents nr (s\<lparr>ucode := u\<rparr>) = queue_contents nr s"
  "gt_queue_inv nr (avia_gt_dmx_risc_reset b s) = gt_queue_inv nr s"
  by (simp_all add: gt_queue_inv_def queue_contents_def queue_ok_def region_def avia_gt_dmx_risc_reset_def the_queue_def)


lemma restart_feed_contents:
  assumes "gt_queue_inv nr s"
  shows "gt_queue_inv nr (restart_feed nr pid s)"
    "queue_contents nr (restart_feed nr pid s) = (if pid2feedidx pid (ucode s) = None then queue_contents nr s else [])"
  using assms flush_contents [of nr "s\<lparr>ucode := u\<rparr>" for u]
  by (auto simp: restart_feed_def Let_def frame_simps split: option.split)

lemma data_get_ucode: "ucode (snd (avia_gt_dmx_queue_data_get nr n p s)) = ucode s"
  by (simp add: avia_gt_dmx_queue_data_get_def upd_queue_def Let_def)

text \<open>
  C40: the handler takes a message out of the queue only when all of its bytes have arrived, and then exactly
  these bytes; a reset of the microcode, an unknown message and a continuity error of a running
  feed empty the queue. The queue stays well-formed.
\<close>

theorem message_framing:
  assumes inv: "gt_queue_inv nr s"
  shows "gt_queue_inv nr (prop_ucode_handle_msgq nr s)
    \<and> queue_contents nr (prop_ucode_handle_msgq nr s) = message_rest (ucode s) (queue_contents nr s)"
proof -
  let ?c = "queue_contents nr s"
  have avail: "avia_gt_dmx_queue_get_bytes_avail (the_queue nr s) = length ?c"
    using gtq.avail_length [OF inv] by (simp add: queue_avail_def)
  note get = gtq.get_inv [OF inv] gtq.get_rest [OF inv]
  have one: "fst (avia_gt_dmx_queue_data_get nr (Suc 0) True s) = take (Suc 0) ?c" "fst (avia_gt_dmx_queue_data_get nr 5 True s) = take 5 ?c"
    using gtq.get_out [OF inv] by simp_all
  consider (empty) "?c = []" | (init) "?c \<noteq> []" "hd ?c = DMX_MESSAGE_INIT" | (adapt) "?c \<noteq> []" "hd ?c = DMX_MESSAGE_ADAPTATION"
    | (sync) "?c \<noteq> []" "hd ?c = DMX_MESSAGE_SYNC_LOSS" | (cc) "?c \<noteq> []" "hd ?c = DMX_MESSAGE_CC_ERROR"
    | (sec) "?c \<noteq> []" "hd ?c = DMX_MESSAGE_SECTION_COMPLETED"
    | (other) "?c \<noteq> []" "hd ?c \<notin> {DMX_MESSAGE_INIT, DMX_MESSAGE_ADAPTATION, DMX_MESSAGE_SYNC_LOSS, DMX_MESSAGE_CC_ERROR,
        DMX_MESSAGE_SECTION_COMPLETED}" by blast
  then show ?thesis
  proof cases
    case empty
    then show ?thesis using inv avail by (simp add: prop_ucode_handle_msgq_def message_rest_def message_size_def)
  next
    case init
    then show ?thesis
      using flush_contents [OF get(1)]
      by (simp add: prop_ucode_handle_msgq_def avail one hd_take message_rest_def message_size_def msg_consts Let_def)
  next
    case adapt
    then show ?thesis
      using inv get
      by (simp add: prop_ucode_handle_msgq_def avail one hd_take message_rest_def message_size_def msg_consts Let_def)
  next
    case sync
    then show ?thesis
      using flush_contents [of nr "avia_gt_dmx_risc_reset True (snd (avia_gt_dmx_queue_data_get nr 1 False s))"] get
      by (simp add: prop_ucode_handle_msgq_def avail one hd_take message_rest_def message_size_def msg_consts Let_def frame_simps)
  next
    case cc
    have "ccerr_pid (take 5 ?c) = ccerr_pid ?c" by (simp add: ccerr_pid_def)
    then show ?thesis
      using cc inv get(2) [of 5] restart_feed_contents [OF get(1) [of 5]] gtq.get_out [OF inv, of 5 False] data_get_ucode [of nr 5 False s]
      by (cases "avia_gt_dmx_queue_data_get nr 5 False s")
         (simp add: prop_ucode_handle_msgq_def avail one hd_take message_rest_def message_size_def msg_consts Let_def)
  next
    case sec
    then show ?thesis
      using inv get
      by (simp add: prop_ucode_handle_msgq_def avail one hd_take message_rest_def message_size_def msg_consts Let_def)
  next
    case other
    then show ?thesis
      using gtq.skip_inv [OF get(1) [of 1], of "length ?c - 1"] gtq.skip_rest [OF get(1) [of 1], of "length ?c - 1"] get(2) [of 1]
      by (simp add: prop_ucode_handle_msgq_def avail one hd_take message_rest_def message_size_def msg_consts Let_def)
  qed
qed



section \<open>Continuity errors\<close>

lemma restart_feed_entries:
  fixes nr :: nat
  assumes u: "ucode_inv (ucode s)" and i: "pid2feedidx pid (ucode s) = Some i" and pid: "pid < 0x2000"
  defines "u' \<equiv> ucode (restart_feed nr pid s)"
  shows "\<not> pe_INVALID (pid_search_table u' ! i)" "pe_PID (pid_search_table u' ! i) = pid"
    "ppc_CW_offset (pid_parsing_control_table u' ! i) = 0"
proof -
  let ?u = "ucode s"
  have f: "i < 32" "dest_queue (ucode_feed ?u ! i) \<noteq> -1" "gtf_pid (ucode_feed ?u ! i) = pid"
    using first_index_Some [OF i [unfolded pid2feedidx_def]] u by (auto simp: ucode_inv_def)
  obtain p where st: "ucode_feed (prop_ucode_stop_feed i False ?u) = ucode_feed ?u"
    "pid_search_table (prop_ucode_stop_feed i False ?u) = (pid_search_table ?u)[i := \<lparr>wait_pusi = True, pe_INVALID = True, pe_PID = p\<rparr>]"
    "pid_parsing_control_table (prop_ucode_stop_feed i False ?u) = pid_parsing_control_table ?u"
    using stop_feed_effect [OF f(2,1), of False] by (metis list_update_id)
  have "feed_ok (ucode_feed ?u ! i)" using u f(1) by (simp add: ucode_inv_def)
  then have "dest_queue (ucode_feed ?u ! i) < 32" using f(2) by (simp add: feed_ok_def AVIA_GT_DMX_QUEUE_COUNT_def)
  then have "\<not> 32 < nat (dest_queue (ucode_feed ?u ! i))" by linarith
  moreover have "pid AND AVIA_GT_UCODE_TAP_PID = 0" "(pid AND NOT AVIA_GT_UCODE_TAP_PID) AND 0x1fff = pid"
    using pid_bits [OF pid] by (simp_all add: AVIA_GT_UCODE_TAP_PID_def)
  moreover have "u' = prop_ucode_start_feed i False (prop_ucode_stop_feed i False ?u)"
    by (simp add: u'_def restart_feed_def i Let_def avia_gt_dmx_queue_flush_def upd_queue_def)
  ultimately show "\<not> pe_INVALID (pid_search_table u' ! i)" "pe_PID (pid_search_table u' ! i) = pid"
    "ppc_CW_offset (pid_parsing_control_table u' ! i) = 0"
    using f u by (simp_all add: prop_ucode_start_feed_def st Let_def prop_ucode_set_pid_control_table_def prop_ucode_set_pid_table_def
        ucode_inv_def AVIA_GT_DMX_QUEUE_COUNT_def nat_less_iff)
qed


text \<open>
  A continuity error restarts the feed of its PID: the microcode finds the PID again, but the feed
  is entered anew without its descrambler, and the rest of the messages is thrown away.
\<close>

theorem cc_error_forgets_descrambler:
  assumes "gt_queue_inv nr s" "ucode_inv (ucode s)" "queue_contents nr s = DMX_MESSAGE_CC_ERROR # a # b # hi # lo # rest"
    and "ccerr_pid [0, 0, 0, hi, lo] < 0x2000" "pid2feedidx (ccerr_pid [0, 0, 0, hi, lo]) (ucode s) = Some i"
  shows "\<not> pe_INVALID (pid_search_table (ucode (prop_ucode_handle_msgq nr s)) ! i)
    \<and> pe_PID (pid_search_table (ucode (prop_ucode_handle_msgq nr s)) ! i) = ccerr_pid [0, 0, 0, hi, lo]
    \<and> ppc_CW_offset (pid_parsing_control_table (ucode (prop_ucode_handle_msgq nr s)) ! i) = 0
    \<and> queue_contents nr (prop_ucode_handle_msgq nr s) = []"
proof -
  let ?c = "queue_contents nr s"
  obtain msg s1 where get: "avia_gt_dmx_queue_data_get nr 5 False s = (msg, s1)" by fastforce
  have msg: "msg = take 5 ?c" using gtq.get_out [OF assms(1), of 5 False] get by simp
  then have pid: "ccerr_pid msg = ccerr_pid [0, 0, 0, hi, lo]" using assms(3) by (simp add: ccerr_pid_def)
  have s1: "ucode s1 = ucode s" "gt_queue_inv nr s1" using data_get_ucode [of nr 5 False s] gtq.get_inv [OF assms(1), of 5] get by simp_all
  have "avia_gt_dmx_queue_get_bytes_avail (the_queue nr s) = length ?c"
    using gtq.avail_length [OF assms(1)] by (simp add: queue_avail_def)
  moreover have "fst (avia_gt_dmx_queue_data_get nr (Suc 0) True s) = take (Suc 0) ?c" using gtq.get_out [OF assms(1)] by simp
  ultimately have "prop_ucode_handle_msgq nr s = restart_feed nr (ccerr_pid [0, 0, 0, hi, lo]) s1"
    using assms(3) get pid by (simp add: prop_ucode_handle_msgq_def msg_consts Let_def)
  then show ?thesis
    using restart_feed_entries [of s1 _ i nr] restart_feed_contents(2) [OF s1(2), of "ccerr_pid [0, 0, 0, hi, lo]"] assms(2,4,5) s1(1) by simp
qed

text \<open>A lost sync turns the framer on, also while a stream is played from memory and the framer is off.\<close>

lemma sync_loss_enables_framer:
  assumes "gt_queue_inv nr s" "queue_contents nr s = DMX_MESSAGE_SYNC_LOSS # rest" "gt_chip s = ENX"
  shows "framer_enable (prop_ucode_handle_msgq nr s)"
proof -
  let ?c = "queue_contents nr s"
  have "avia_gt_dmx_queue_get_bytes_avail (the_queue nr s) = length ?c"
    using gtq.avail_length [OF assms(1)] by (simp add: queue_avail_def)
  moreover have "fst (avia_gt_dmx_queue_data_get nr (Suc 0) True s) = take (Suc 0) ?c" using gtq.get_out [OF assms(1)] by simp
  moreover have "gt_chip (snd (avia_gt_dmx_queue_data_get nr (Suc 0) False s)) = ENX"
    using assms(3) by (simp add: avia_gt_dmx_queue_data_get_def upd_queue_def Let_def)
  ultimately show ?thesis
    using assms(2) by (simp add: prop_ucode_handle_msgq_def msg_consts Let_def avia_gt_dmx_risc_reset_def avia_gt_dmx_queue_flush_def upd_queue_def)
qed


section \<open>Examples\<close>

definition ex_msg_gt :: gt_state where
  "ex_msg_gt = upd_queue 5 (\<lambda>q. q\<lparr>read_pos := 0, write_pos := 7\<rparr>)
     (ex_gt\<lparr>gt_mem := blit (gt_mem ex_gt) (mem_addr ex_queue) [0xFE, 1, 2, 0x01, 0x00, 0xCE, 0]\<rparr>)"

lemma ex_msg_queue: "gt_queue_inv 5 ex_msg_gt" "queue_contents 5 ex_msg_gt = [0xFE, 1, 2, 0x01, 0x00, 0xCE, 0]" "ucode ex_msg_gt = ex_ucode"
  by code_simp+

theorem message_framing_witness: "queue_contents 5 (prop_ucode_handle_msgq 5 ex_msg_gt) = []"
proof -
  have "message_rest ex_ucode [0xFE, 1, 2, 0x01, 0x00, 0xCE, 0] = []" by code_simp
  then show ?thesis using message_framing [OF ex_msg_queue(1)] ex_msg_queue(2,3) by simp
qed

theorem cc_error_forgets_descrambler_witness:
  "ppc_CW_offset (pid_parsing_control_table (ucode (prop_ucode_handle_msgq 5 ex_msg_gt)) ! 0) = 0
    \<and> pe_PID (pid_search_table (ucode (prop_ucode_handle_msgq 5 ex_msg_gt)) ! 0) = 0x100"
proof -
  have "ucode_inv ex_ucode" by (rule ucode_reachable_inv [OF ex_ucode_reachable]) (simp add: image_idle_def ex_image_def list_all_iff)
  moreover have "ccerr_pid [0, 0, 0, 1, 0] = 0x100" "pid2feedidx 0x100 ex_ucode = Some 0" by code_simp+
  ultimately show ?thesis
    using cc_error_forgets_descrambler [OF ex_msg_queue(1), of 1 2 1 0 "[0xCE, 0]" 0] ex_msg_queue(2,3) by (simp add: msg_consts)
qed

end
